(* ===== verification/Go_Prelude.thy ===== *)
theory Go_Prelude
  imports Main "HOL-Library.Sublist" "HOL-Library.Word"
begin

text \<open>
  Shared vocabulary of the development: the part of Go's \<^verbatim>\<open>strings\<close>, \<^verbatim>\<open>unicode\<close> and
  \<^verbatim>\<open>fmt\<close> packages the modelled code uses, SQL-like operations on tables kept as row
  lists, reachability of step relations, and the contracts (as locales) that several components
  share: an invariant of a transition system, a grant that is redeemed at most once and a
  key-value store.

  A Go string is a sequence of bytes, and so is \<open>string\<close> here (a \<open>char\<close> is a byte).
  \<open>toLower\<close>, \<open>toUpper\<close>, \<open>trimSpace\<close> and \<open>stringFields\<close> treat a byte above 127 as an ordinary
  character; they agree with Go's Unicode-aware versions on ASCII text, which is what the modelled
  code compares the results with (keywords, scope tokens, codes).
  Times are \<open>int\<close> nanoseconds, as \<^verbatim>\<open>time.Duration\<close> counts them.
\<close>

named_theorems go_string_simps \<open>the definitions of the modelled string functions\<close>
named_theorems table_simps \<open>rewriting of the row-list table operations\<close>
named_theorems handler_defs \<open>the handlers of a component, unfolded for case analysis\<close>

section \<open>Go strings\<close>

definition hasPrefix :: "string \<Rightarrow> string \<Rightarrow> bool" where
  [go_string_simps]: "hasPrefix s p \<longleftrightarrow> prefix p s"

definition hasSuffix :: "string \<Rightarrow> string \<Rightarrow> bool" where
  [go_string_simps]: "hasSuffix s p \<longleftrightarrow> suffix p s"

definition containsStr :: "string \<Rightarrow> string \<Rightarrow> bool" where
  [go_string_simps]: "containsStr s sub \<longleftrightarrow> sublist sub s"

definition byteOf :: "char \<Rightarrow> nat" where
  "byteOf c = of_char c"

definition isUpperAscii :: "char \<Rightarrow> bool" where
  "isUpperAscii c \<longleftrightarrow> 65 \<le> byteOf c \<and> byteOf c \<le> 90"

definition isLowerAscii :: "char \<Rightarrow> bool" where
  "isLowerAscii c \<longleftrightarrow> 97 \<le> byteOf c \<and> byteOf c \<le> 122"

definition isDigitAscii :: "char \<Rightarrow> bool" where
  "isDigitAscii c \<longleftrightarrow> 48 \<le> byteOf c \<and> byteOf c \<le> 57"

definition toLowerChar :: "char \<Rightarrow> char" where
  "toLowerChar c = (if isUpperAscii c then char_of (byteOf c + 32) else c)"

definition toUpperChar :: "char \<Rightarrow> char" where
  "toUpperChar c = (if isLowerAscii c then char_of (byteOf c - 32) else c)"

definition toLower :: "string \<Rightarrow> string" where
  "toLower s = map toLowerChar s"

definition toUpper :: "string \<Rightarrow> string" where
  "toUpper s = map toUpperChar s"

text \<open>\<^verbatim>\<open>unicode.IsSpace\<close>, \<^verbatim>\<open>unicode.IsLetter\<close> and \<^verbatim>\<open>unicode.IsDigit\<close> on a rune below 256,
  the only runes the code obtains by converting a single byte.\<close>

definition asciiSpace :: "char \<Rightarrow> bool" where
  "asciiSpace c \<longleftrightarrow> byteOf c \<in> {9, 10, 11, 12, 13, 32}"

definition latin1Space :: "char \<Rightarrow> bool" where
  "latin1Space c \<longleftrightarrow> byteOf c \<in> {9, 10, 11, 12, 13, 32, 133, 160}"

definition latin1Letter :: "char \<Rightarrow> bool" where
  "latin1Letter c \<longleftrightarrow> isUpperAscii c \<or> isLowerAscii c \<or> byteOf c \<in> {170, 181, 186}
     \<or> (192 \<le> byteOf c \<and> byteOf c \<noteq> 215 \<and> byteOf c \<noteq> 247)"

definition trimSpace :: "string \<Rightarrow> string" where
  "trimSpace s = rev (dropWhile asciiSpace (rev (dropWhile asciiSpace s)))"

text \<open>\<^verbatim>\<open>strings.Split\<close> with a one-byte separator.\<close>

fun splitOn :: "char \<Rightarrow> string \<Rightarrow> string list" where
  "splitOn c [] = [[]]"
| "splitOn c (x # xs) =
     (if x = c then [] # splitOn c xs
      else (case splitOn c xs of [] \<Rightarrow> [[x]] | w # ws \<Rightarrow> (x # w) # ws))"

text \<open>\<^verbatim>\<open>strings.Cut\<close> with a one-byte separator.\<close>

definition cutAt :: "char \<Rightarrow> string \<Rightarrow> (string \<times> string) option" where
  "cutAt c s = (if c \<in> set s
     then Some (takeWhile (\<lambda>x. x \<noteq> c) s, tl (dropWhile (\<lambda>x. x \<noteq> c) s)) else None)"

text \<open>\<^verbatim>\<open>strings.Fields\<close>: maximal runs of non-space bytes. The accumulator is the current run.\<close>

fun fieldsAcc :: "string \<Rightarrow> string \<Rightarrow> string list" where
  "fieldsAcc acc [] = (if acc = [] then [] else [rev acc])"
| "fieldsAcc acc (c # cs) =
     (if asciiSpace c then (if acc = [] then fieldsAcc [] cs else rev acc # fieldsAcc [] cs)
      else fieldsAcc (c # acc) cs)"

definition stringFields :: "string \<Rightarrow> string list" where
  "stringFields s = fieldsAcc [] s"

text \<open>\<^verbatim>\<open>strings.Join\<close>.\<close>

fun joinWith :: "string \<Rightarrow> string list \<Rightarrow> string" where
  "joinWith sep [] = []"
| "joinWith sep [w] = w"
| "joinWith sep (w # v # ws) = w @ sep @ joinWith sep (v # ws)"

text \<open>\<^verbatim>\<open>fmt.Sprintf("%d", n)\<close> of a non-negative integer.\<close>

definition digitChar :: "nat \<Rightarrow> char" where
  "digitChar d = char_of (48 + d)"

fun dec :: "nat \<Rightarrow> string" where
  "dec n = (if n < 10 then [digitChar n] else dec (n div 10) @ [digitChar (n mod 10)])"

declare dec.simps [simp del]

text \<open>The value of a character of the standard base64 alphabet.\<close>

definition b64Value :: "char \<Rightarrow> nat option" where
  "b64Value c =
     (if isUpperAscii c then Some (byteOf c - 65)
      else if isLowerAscii c then Some (byteOf c - 71)
      else if isDigitAscii c then Some (byteOf c + 4)
      else if c = CHR ''+'' then Some 62
      else if c = CHR ''/'' then Some 63
      else None)"

subsection \<open>Facts about the string functions\<close>

lemma byteOf_less: "byteOf c < 256"
  by (simp add: byteOf_def)

lemma byteOf_eq_iff [simp]: "byteOf c = byteOf d \<longleftrightarrow> c = d"
  by (simp add: byteOf_def)

lemma length_toLower [simp]: "length (toLower s) = length s"
  by (simp add: toLower_def)

lemma length_toUpper [simp]: "length (toUpper s) = length s"
  by (simp add: toUpper_def)

lemma splitOn_not_Nil [simp]: "splitOn c s \<noteq> []"
  by (induction s) (auto split: list.splits)

lemma splitOn_no_sep: "w \<in> set (splitOn c s) \<Longrightarrow> c \<notin> set w"
proof (induction s arbitrary: w)
  case Nil
  then show ?case by simp
next
  case (Cons x xs)
  then show ?case
    by (cases "splitOn c xs") (auto split: if_splits)
qed

lemma splitOn_append_sep:
  "c \<notin> set w \<Longrightarrow> splitOn c (w @ c # s) = w # splitOn c s"
  by (induction w) auto

lemma splitOn_no_occurrence: "c \<notin> set s \<Longrightarrow> splitOn c s = [s]"
  by (induction s) auto

lemma cutAt_append: "c \<notin> set w \<Longrightarrow> cutAt c (w @ c # s) = Some (w, s)"
  by (simp add: cutAt_def takeWhile_append dropWhile_append)

lemma cutAt_Some: "cutAt c s = Some (w, v) \<Longrightarrow> s = w @ c # v \<and> c \<notin> set w"
proof -
  assume eq: "cutAt c s = Some (w, v)"
  then have mem: "c \<in> set s" by (simp add: cutAt_def split: if_splits)
  with eq have w: "w = takeWhile (\<lambda>x. x \<noteq> c) s" and v: "v = tl (dropWhile (\<lambda>x. x \<noteq> c) s)"
    by (simp_all add: cutAt_def)
  from mem have "dropWhile (\<lambda>x. x \<noteq> c) s = c # v"
    unfolding v by (induction s) auto
  with w have "s = w @ c # v" by (metis takeWhile_dropWhile_id)
  moreover from w have "c \<notin> set w" by (auto dest: set_takeWhileD)
  ultimately show ?thesis by simp
qed

definition cleanWord :: "string \<Rightarrow> bool" where
  "cleanWord w \<longleftrightarrow> w \<noteq> [] \<and> list_all (\<lambda>c. \<not> asciiSpace c) w"

lemma fieldsAcc_words:
  "list_all (\<lambda>c. \<not> asciiSpace c) acc \<Longrightarrow> list_all cleanWord (fieldsAcc acc s)"
proof (induction s arbitrary: acc)
  case Nil
  then show ?case by (simp add: cleanWord_def)
next
  case (Cons c s)
  then show ?case by (simp add: cleanWord_def)
qed

lemma stringFields_words: "w \<in> set (stringFields s) \<Longrightarrow> cleanWord w"
  using fieldsAcc_words [of "[]" s] by (simp add: stringFields_def list_all_iff)

lemma fieldsAcc_append_space:
  "asciiSpace c \<Longrightarrow> fieldsAcc acc (w @ c # s) = fieldsAcc acc w @ fieldsAcc [] s"
  by (induction acc w rule: fieldsAcc.induct) auto

lemma fieldsAcc_nonspace:
  "list_all (\<lambda>c. \<not> asciiSpace c) w \<Longrightarrow>
   fieldsAcc acc w = (if rev acc @ w = [] then [] else [rev acc @ w])"
  by (induction w arbitrary: acc) simp_all

lemma asciiSpace_space [simp]: "asciiSpace CHR '' ''"
  by (simp add: asciiSpace_def byteOf_def)

text \<open>Joining clean words with single spaces and splitting again is the identity.\<close>

lemma stringFields_joinWith: "list_all cleanWord ws \<Longrightarrow> stringFields (joinWith '' '' ws) = ws"
proof (induction ws rule: induct_list012)
  case 1
  then show ?case by (simp add: stringFields_def)
next
  case (2 w)
  then show ?case by (simp add: stringFields_def fieldsAcc_nonspace cleanWord_def)
next
  case (3 w v ws)
  then have "stringFields (joinWith '' '' (v # ws)) = v # ws" by simp
  with "3.prems" show ?case
    by (simp add: stringFields_def fieldsAcc_append_space fieldsAcc_nonspace cleanWord_def)
qed

text \<open>Decimal printing is injective: the digits are read back by \<open>undec\<close>.\<close>

definition undec :: "string \<Rightarrow> nat" where
  "undec s = foldl (\<lambda>a c. 10 * a + (byteOf c - 48)) 0 s"

lemma byteOf_digitChar: "d < 10 \<Longrightarrow> byteOf (digitChar d) = 48 + d"
  by (simp add: byteOf_def digitChar_def)

lemma undec_dec [simp]: "undec (dec n) = n"
proof (induction n rule: dec.induct)
  case (1 n)
  show ?case
  proof (cases "n < 10")
    case True
    then show ?thesis by (simp add: dec.simps [of n] undec_def byteOf_digitChar)
  next
    case False
    with 1 show ?thesis
      by (simp add: dec.simps [of n] undec_def byteOf_digitChar)
  qed
qed

lemma dec_inject [simp]: "dec m = dec n \<longleftrightarrow> m = n"
  by (metis undec_dec)

lemma dec_digits: "c \<in> set (dec n) \<Longrightarrow> isDigitAscii c"
proof (induction n rule: dec.induct)
  case (1 n)
  then show ?case
    by (cases "n < 10") (auto simp: dec.simps [of n] isDigitAscii_def byteOf_digitChar)
qed

lemma dec_not_Nil [simp]: "dec n \<noteq> []"
  by (simp add: dec.simps [of n])

section \<open>Tables\<close>

text \<open>
  A database table is the list of its rows, oldest first. The statements the code runs are
  \<open>updateWhere\<close> (\<^verbatim>\<open>UPDATE ... SET ... WHERE\<close>), \<open>deleteWhere\<close> (\<^verbatim>\<open>DELETE ... WHERE\<close>),
  \<open>countWhere\<close> (\<^verbatim>\<open>SELECT COUNT(*)\<close>, and \<^verbatim>\<open>RowsAffected\<close> of an update) and the library's
  \<open>find\<close> (\<^verbatim>\<open>SELECT\<close> of one row). Each is one atomic step, as the database runs it.
\<close>

definition updateWhere :: "('r \<Rightarrow> bool) \<Rightarrow> ('r \<Rightarrow> 'r) \<Rightarrow> 'r list \<Rightarrow> 'r list" where
  "updateWhere P f rows = map (\<lambda>r. if P r then f r else r) rows"

definition deleteWhere :: "('r \<Rightarrow> bool) \<Rightarrow> 'r list \<Rightarrow> 'r list" where
  "deleteWhere P rows = filter (\<lambda>r. \<not> P r) rows"

definition countWhere :: "('r \<Rightarrow> bool) \<Rightarrow> 'r list \<Rightarrow> nat" where
  "countWhere P rows = length (filter P rows)"

lemma updateWhere_Nil [simp, table_simps]: "updateWhere P f [] = []"
  by (simp add: updateWhere_def)

lemma updateWhere_Cons [table_simps]:
  "updateWhere P f (r # rs) = (if P r then f r else r) # updateWhere P f rs"
  by (simp add: updateWhere_def)

lemma set_updateWhere: "set (updateWhere P f rows) = (\<lambda>r. if P r then f r else r) ` set rows"
  by (simp add: updateWhere_def)

lemma updateWhere_none: "(\<And>r. r \<in> set rows \<Longrightarrow> \<not> P r) \<Longrightarrow> updateWhere P f rows = rows"
  by (induction rows) (auto simp: updateWhere_def)

lemma updateWhere_clears: "(\<And>r. \<not> P (f r)) \<Longrightarrow> r \<in> set (updateWhere P f rows) \<Longrightarrow> \<not> P r"
  by (induction rows) (auto simp: updateWhere_Cons split: if_splits)

lemma updateWhere_memD:
  "r \<in> set (updateWhere P f rows) \<Longrightarrow> (\<exists>x \<in> set rows. P x \<and> r = f x) \<or> r \<in> set rows \<and> \<not> P r"
  by (induction rows) (auto simp: updateWhere_Cons split: if_splits)

lemma map_updateWhere_key:
  "(\<And>r. key (f r) = key r) \<Longrightarrow> map key (updateWhere P f rows) = map key rows"
  by (simp add: updateWhere_def)

lemma image_updateWhere_key:
  "(\<And>r. key (f r) = key r) \<Longrightarrow> key ` set (updateWhere P f rows) = key ` set rows"
  using map_updateWhere_key [of key f P rows] by (metis set_map)

lemma set_deleteWhere [simp]: "set (deleteWhere P rows) = {r \<in> set rows. \<not> P r}"
  by (auto simp: deleteWhere_def)

lemma distinct_map_deleteWhere: "distinct (map key rows) \<Longrightarrow> distinct (map key (deleteWhere P rows))"
  by (simp add: deleteWhere_def distinct_map_filter)

lemma countWhere_0 [simp]: "countWhere P rows = 0 \<longleftrightarrow> (\<forall>r \<in> set rows. \<not> P r)"
  by (auto simp: countWhere_def filter_empty_conv)

lemma find_Some_mem: "find P rows = Some r \<Longrightarrow> r \<in> set rows \<and> P r"
  by (auto simp: find_Some_iff)

lemma find_present: "x \<in> set rows \<Longrightarrow> P x \<Longrightarrow> \<exists>y. find P rows = Some y"
  by (induction rows) auto

lemma find_None_all: "find P rows = None \<longleftrightarrow> (\<forall>r \<in> set rows. \<not> P r)"
  by (auto simp: find_None_iff)

text \<open>With a unique key the row a key selects is determined.\<close>

lemma distinct_key_eq:
  "\<lbrakk>distinct (map key rows); r \<in> set rows; r' \<in> set rows; key r = key r'\<rbrakk> \<Longrightarrow> r = r'"
  by (metis distinct_map inj_onD)

lemma filter_unique_key:
  "distinct (map key rows) \<Longrightarrow> a \<in> set rows \<Longrightarrow> filter (\<lambda>r. key r = key a) rows = [a]"
proof (induction rows)
  case (Cons r rows)
  show ?case
  proof (cases "a = r")
    case True
    with Cons.prems(1) have "filter (\<lambda>x. key x = key a) rows = []"
      by (auto simp: filter_empty_conv image_iff)
    with True show ?thesis by simp
  next
    case False
    with Cons.prems have "a \<in> set rows" "key r \<noteq> key a" by force+
    with Cons show ?thesis by simp
  qed
qed simp

text \<open>Updating the one row with the key of \<open>a\<close>: a selection that the updated row leaves loses exactly
  \<open>a\<close>, and a selection that does not read the row is as before.\<close>

lemma filter_updateWhere_leaves:
  assumes "distinct (map key rows)" and "a \<in> set rows" and "P a" and "\<not> P (f a)"
    and "\<And>r. r \<in> set rows \<Longrightarrow> Q r \<longleftrightarrow> key r = key a"
  shows "filter P (updateWhere Q f rows) = remove1 a (filter P rows)"
  using assms
proof (induction rows)
  case (Cons r rs)
  show ?case
  proof (cases "r = a")
    case True
    with Cons.prems(1) have "key x \<noteq> key a" if "x \<in> set rs" for x
      using that by (auto simp: image_iff)
    with Cons.prems(5) have "\<forall>x \<in> set rs. \<not> Q x" by simp
    with True Cons.prems show ?thesis by (simp add: updateWhere_Cons updateWhere_none)
  next
    case False
    with Cons.prems have "a \<in> set rs" by simp
    with Cons.prems have "key r \<noteq> key a" by force
    with Cons False \<open>a \<in> set rs\<close> show ?thesis by (auto simp: updateWhere_Cons)
  qed
qed simp

lemma filter_updateWhere_same:
  assumes "\<And>r. r \<in> set rows \<Longrightarrow> Q r \<Longrightarrow> \<not> P r \<and> \<not> P (f r)"
  shows "filter P (updateWhere Q f rows) = filter P rows"
  using assms by (induction rows) (auto simp: updateWhere_Cons)

lemma find_append:
  "find P (xs @ ys) = (case find P xs of None \<Rightarrow> find P ys | Some x \<Rightarrow> Some x)"
  by (induction xs) auto

lemma find_updateWhere:
  assumes "\<And>r. P (f r) \<longleftrightarrow> P r"
  shows "find P (updateWhere Q f rows) = map_option (\<lambda>r. if Q r then f r else r) (find P rows)"
  using assms by (induction rows) (auto simp: updateWhere_Cons)

section \<open>Reachability and shared contracts\<close>

inductive reach :: "('s \<Rightarrow> bool) \<Rightarrow> ('s \<Rightarrow> 's \<Rightarrow> bool) \<Rightarrow> 's \<Rightarrow> bool"
  for init :: "'s \<Rightarrow> bool" and step :: "'s \<Rightarrow> 's \<Rightarrow> bool" where
  reach_init: "init s \<Longrightarrow> reach init step s"
| reach_step: "reach init step s \<Longrightarrow> step s t \<Longrightarrow> reach init step t"

text \<open>An inductive invariant of a step relation holds in every reachable state.\<close>

locale invariant_system =
  fixes init :: "'s \<Rightarrow> bool"
    and step :: "'s \<Rightarrow> 's \<Rightarrow> bool"
    and inv :: "'s \<Rightarrow> bool"
  assumes init_inv: "init s \<Longrightarrow> inv s"
    and step_inv: "inv s \<Longrightarrow> step s t \<Longrightarrow> inv t"
begin

lemma reach_inv: "reach init step s \<Longrightarrow> inv s"
  by (induction rule: reach.induct) (auto intro: init_inv step_inv)

end

text \<open>Functional refinement: every step of the system is, through the abstraction, a step of the
  specification, as long as the invariant holds, which every step keeps. Then so is every run.\<close>

locale functional_refinement =
  fixes step :: "'op \<Rightarrow> 's \<Rightarrow> 's"
    and spec :: "'op \<Rightarrow> 'a \<Rightarrow> 'a"
    and abs :: "'s \<Rightarrow> 'a"
    and inv :: "'s \<Rightarrow> bool"
    and ok :: "'op \<Rightarrow> bool"
  assumes keeps: "inv s \<Longrightarrow> ok a \<Longrightarrow> inv (step a s)"
    and refines: "inv s \<Longrightarrow> ok a \<Longrightarrow> abs (step a s) = spec a (abs s)"
begin

lemma run_refines: "inv s \<Longrightarrow> list_all ok ops \<Longrightarrow> inv (fold step ops s) \<and> abs (fold step ops s) = fold spec ops (abs s)"
  by (induction ops arbitrary: s) (auto simp: keeps refines)

end

text \<open>
  Running a sequence of operations, each of which may hand out a grant; \<open>runGrants\<close> lists the
  grants in order.
\<close>

fun runGrants :: "('o \<Rightarrow> 's \<Rightarrow> 's \<times> 'r option) \<Rightarrow> 'o list \<Rightarrow> 's \<Rightarrow> 'r list" where
  "runGrants f [] s = []"
| "runGrants f (x # xs) s =
     (case f x s of (s', out) \<Rightarrow>
        (case out of None \<Rightarrow> runGrants f xs s' | Some r \<Rightarrow> r # runGrants f xs s'))"

lemma runGrants_cong: "(\<And>x s. x \<in> set xs \<Longrightarrow> f x s = g x s) \<Longrightarrow> runGrants f xs s = runGrants g xs s"
  by (induction xs arbitrary: s) (auto split: prod.split option.split)

text \<open>
  The contract of a single-use credential: handing it out spends it, and a spent credential stays
  spent and is never handed out again, whatever operations follow. An authorization code, a device
  code, a refresh token and a dual-control authorization all promise it.
\<close>

locale single_use =
  fixes f :: "'o \<Rightarrow> 's \<Rightarrow> 's \<times> 'r option"
    and wf :: "'s \<Rightarrow> bool"
    and spent :: "'s \<Rightarrow> bool"
  assumes keeps_wf: "wf s \<Longrightarrow> f x s = (s', out) \<Longrightarrow> wf s'"
    and grant_spends: "wf s \<Longrightarrow> f x s = (s', Some r) \<Longrightarrow> spent s'"
    and spent_refuses: "wf s \<Longrightarrow> spent s \<Longrightarrow> f x s = (s', out) \<Longrightarrow> out = None \<and> spent s'"
begin

lemma spent_no_grants: "wf s \<Longrightarrow> spent s \<Longrightarrow> runGrants f xs s = []"
proof (induction xs arbitrary: s)
  case Nil
  then show ?case by simp
next
  case (Cons x xs)
  obtain s' out where eq: "f x s = (s', out)" by (cases "f x s")
  with Cons.prems have "out = None" "spent s'" "wf s'"
    using spent_refuses keeps_wf by blast+
  with eq Cons.IH show ?case by simp
qed

lemma at_most_one_grant: "wf s \<Longrightarrow> length (runGrants f xs s) \<le> 1"
proof (induction xs arbitrary: s)
  case Nil
  then show ?case by simp
next
  case (Cons x xs)
  obtain s' out where eq: "f x s = (s', out)" by (cases "f x s")
  with Cons.prems have wf': "wf s'" using keeps_wf by blast
  show ?case
  proof (cases out)
    case None
    with eq wf' Cons.IH show ?thesis by simp
  next
    case (Some r)
    with eq Cons.prems have "spent s'" using grant_spends by blast
    with wf' have "runGrants f xs s' = []" by (rule spent_no_grants)
    with eq Some show ?thesis by simp
  qed
qed

end

text \<open>The contract of a keyed store (Redis hashes and keys): read-over-write laws.\<close>

locale keyed_store =
  fixes get :: "'m \<Rightarrow> 'k \<Rightarrow> 'v option"
    and put :: "'k \<Rightarrow> 'v \<Rightarrow> 'm \<Rightarrow> 'm"
    and del :: "'k \<Rightarrow> 'm \<Rightarrow> 'm"
  assumes get_put: "get (put k v m) k' = (if k' = k then Some v else get m k')"
    and get_del: "get (del k m) k' = (if k' = k then None else get m k')"
begin

lemma get_put_same [simp]: "get (put k v m) k = Some v"
  by (simp add: get_put)

lemma get_del_same [simp]: "get (del k m) k = None"
  by (simp add: get_del)

lemma put_then_del: "k' \<noteq> k \<Longrightarrow> get (del k (put k v m)) k' = get m k'"
  by (simp add: get_put get_del)

end

text \<open>\<^verbatim>\<open>hex.EncodeToString\<close>.\<close>

definition hexText :: "string \<Rightarrow> string" where
  "hexText bytes = concat (map (\<lambda>c. map (\<lambda>d. char_of (if d < 10 then d + 48 else d + (87 :: nat)))
     [byteOf c div 16, byteOf c mod 16]) bytes)"

section \<open>Durations\<close>

definition second :: int where
  "second = 1000000000"

definition minute :: int where
  "minute = 60 * second"

definition hour :: int where
  "hour = 60 * minute"

lemma duration_pos [simp]: "0 < second" "0 < minute" "0 < hour"
  by (simp_all add: second_def minute_def hour_def)

section \<open>Redis\<close>

text \<open>A key holds a value and, when it was set with a time-to-live, the instant it disappears.\<close>

type_synonym 'v redis = "string \<Rightarrow> ('v \<times> int option) option"

definition redisGet :: "int \<Rightarrow> 'v redis \<Rightarrow> string \<Rightarrow> 'v option" where
  "redisGet now m k =
     (case m k of
        None \<Rightarrow> None
      | Some (v, None) \<Rightarrow> Some v
      | Some (v, Some e) \<Rightarrow> if now < e then Some v else None)"

definition redisSet :: "string \<Rightarrow> 'v \<Rightarrow> 'v redis \<Rightarrow> 'v redis" where
  "redisSet k v m = m(k \<mapsto> (v, None))"

definition redisSetEx :: "int \<Rightarrow> int \<Rightarrow> string \<Rightarrow> 'v \<Rightarrow> 'v redis \<Rightarrow> 'v redis" where
  "redisSetEx now ttl k v m = m(k \<mapsto> (v, Some (now + ttl)))"

definition redisDel :: "string \<Rightarrow> 'v redis \<Rightarrow> 'v redis" where
  "redisDel k m = m(k := None)"

interpretation rkv: keyed_store "redisGet now" redisSet redisDel for now :: int
  by unfold_locales (auto simp: redisGet_def redisSet_def redisDel_def)

lemma redisGet_SetEx:
  "redisGet t (redisSetEx now ttl k v m) k' =
     (if k' = k then (if t < now + ttl then Some v else None) else redisGet t m k')"
  by (simp add: redisGet_def redisSetEx_def)

end
