(* ===== verification/Rbac.thy ===== *)
theory Rbac
  imports Go_Prelude
begin

text \<open>
  The role model of \<^verbatim>\<open>internal/auth/roles.go\<close>: the role hierarchy, the direct permissions of
  each role, the recursive permission check and the flattened permission set. A role is a string, as in
  the source, so unknown roles are values too; Go's lookup of a missing map key is the empty list.
  The recursion over the hierarchy terminates because inheritance strictly lowers the role level.
\<close>

section \<open>Roles and permissions\<close>

type_synonym role = string

record Permission =
  Resource :: string
  Action :: string

definition perm :: "string \<Rightarrow> string \<Rightarrow> Permission" where
  "perm r a = \<lparr>Resource = r, Action = a\<rparr>"

definition AllRoles :: "role list" where
  "AllRoles = [''super_admin'', ''admin'', ''operator'', ''auditor'', ''compliance_reader'', ''user'']"

definition RoleLevel :: "role \<Rightarrow> nat option" where
  "RoleLevel = map_of
     [(''super_admin'', 4), (''admin'', 3), (''operator'', 2), (''auditor'', 1),
      (''compliance_reader'', 1), (''user'', 0)]"

definition RoleHierarchy :: "role \<Rightarrow> role list" where
  "RoleHierarchy r =
     (if r = ''super_admin'' then [''admin'', ''operator'', ''auditor'', ''user'']
      else if r = ''admin'' then [''operator'', ''auditor'', ''user'']
      else if r = ''operator'' then [''auditor'', ''user'']
      else if r = ''auditor'' then [''user'']
      else [])"

definition RolePermissions :: "role \<Rightarrow> Permission list" where
  "RolePermissions r =
     (if r = ''super_admin'' then
        [perm ''users'' ''read'', perm ''users'' ''write'', perm ''users'' ''delete'',
         perm ''groups'' ''manage'', perm ''config'' ''manage'', perm ''audit'' ''read'',
         perm ''audit'' ''export'', perm ''policies'' ''manage'', perm ''tenants'' ''manage'',
         perm ''selfheal'' ''manage'']
      else if r = ''admin'' then
        [perm ''users'' ''read'', perm ''users'' ''write'', perm ''users'' ''delete'',
         perm ''groups'' ''manage'', perm ''config'' ''manage'', perm ''audit'' ''read'',
         perm ''audit'' ''export'', perm ''policies'' ''manage'', perm ''selfheal'' ''manage'']
      else if r = ''operator'' then
        [perm ''users'' ''read'', perm ''users'' ''write'', perm ''groups'' ''manage'',
         perm ''audit'' ''read'', perm ''policies'' ''manage'']
      else if r = ''auditor'' then
        [perm ''audit'' ''read'', perm ''audit'' ''export'', perm ''users'' ''read'']
      else if r = ''compliance_reader'' then
        [perm ''audit'' ''read'', perm ''audit'' ''export'']
      else if r = ''user'' then [perm ''users'' ''read'']
      else [])"

section \<open>Operations\<close>

definition permissionString :: "Permission \<Rightarrow> string" where
  "permissionString p = Resource p @ '':'' @ Action p"

text \<open>\<^verbatim>\<open>strings.SplitN(perm, ":", 2)\<close> has two parts exactly when there is a colon.\<close>

definition ParsePermission :: "string \<Rightarrow> string + Permission" where
  "ParsePermission s =
     (case cutAt CHR '':'' s of
        None \<Rightarrow> Inl (''invalid permission format: '' @ s)
      | Some (r, a) \<Rightarrow> Inr \<lparr>Resource = r, Action = a\<rparr>)"

text \<open>The source collects a map's keys, so the order of the result is unspecified; the model
  fixes one order and the theorems speak of its set.\<close>

definition GetPermissions :: "role \<Rightarrow> Permission list" where
  "GetPermissions r =
     remdups (RolePermissions r @ concat (map RolePermissions (RoleHierarchy r)))"

definition levelOf :: "role \<Rightarrow> nat" where
  "levelOf r = (case RoleLevel r of Some l \<Rightarrow> l | None \<Rightarrow> 0)"

lemma RoleHierarchy_level: "c \<in> set (RoleHierarchy r) \<Longrightarrow> levelOf c < levelOf r"
  by (auto simp: RoleHierarchy_def levelOf_def RoleLevel_def split: if_splits)

function HasPermission :: "role \<Rightarrow> string \<Rightarrow> string \<Rightarrow> bool" where
  "HasPermission r resource action =
     (if list_ex (\<lambda>p. Resource p = resource \<and> Action p = action) (RolePermissions r) then True
      else list_ex (\<lambda>c. HasPermission c resource action) (RoleHierarchy r))"
  by pat_completeness auto
termination
  by (relation "measure (\<lambda>(r, _, _). levelOf r)") (auto dest: RoleHierarchy_level)

declare HasPermission.simps [simp del]

definition HasAnyPermission :: "role \<Rightarrow> Permission list \<Rightarrow> bool" where
  "HasAnyPermission r ps = list_ex (\<lambda>p. HasPermission r (Resource p) (Action p)) ps"

definition HasAllPermissions :: "role \<Rightarrow> Permission list \<Rightarrow> bool" where
  "HasAllPermissions r ps = list_all (\<lambda>p. HasPermission r (Resource p) (Action p)) ps"

definition IsHigherOrEqualRole :: "role \<Rightarrow> role \<Rightarrow> bool" where
  "IsHigherOrEqualRole a b =
     (case (RoleLevel a, RoleLevel b) of (Some la, Some lb) \<Rightarrow> lb \<le> la | _ \<Rightarrow> False)"

definition IsValidRole :: "string \<Rightarrow> bool" where
  "IsValidRole r = list_ex (\<lambda>v. v = r) AllRoles"

definition ParseRole :: "string \<Rightarrow> string + role" where
  "ParseRole r = (if \<not> IsValidRole r then Inl (''invalid role: '' @ r) else Inr r)"

function Inherits :: "role \<Rightarrow> role \<Rightarrow> bool" where
  "Inherits r child =
     list_ex (\<lambda>c. c = child \<or> Inherits c child) (RoleHierarchy r)"
  by pat_completeness auto
termination
  by (relation "measure (\<lambda>(r, _). levelOf r)") (auto dest: RoleHierarchy_level)

declare Inherits.simps [simp del]

section \<open>Properties\<close>

lemma perm_sel [simp]: "Resource (perm r a) = r" "Action (perm r a) = a"
  by (simp_all add: perm_def)

lemma perm_collapse [simp]: "perm (Resource p) (Action p) = (p :: Permission)"
  by (simp add: perm_def)

text \<open>The hierarchy lists are transitively closed, which is what makes one level of flattening
  enough.\<close>

lemma RoleHierarchy_trans:
  "c \<in> set (RoleHierarchy r) \<Longrightarrow> set (RoleHierarchy c) \<subseteq> set (RoleHierarchy r)"
  by (auto simp: RoleHierarchy_def split: if_splits)

lemma Inherits_iff: "Inherits r c \<longleftrightarrow> c \<in> set (RoleHierarchy r)"
proof (induction r c rule: Inherits.induct)
  case (1 r child)
  then have "Inherits r child \<longleftrightarrow>
      (\<exists>c \<in> set (RoleHierarchy r). c = child \<or> child \<in> set (RoleHierarchy c))"
    by (auto simp: Inherits.simps [of r child] list_ex_iff)
  then show ?case using RoleHierarchy_trans by blast
qed

lemma set_GetPermissions:
  "set (GetPermissions r) =
   set (RolePermissions r) \<union> (\<Union>c \<in> set (RoleHierarchy r). set (RolePermissions c))"
  by (auto simp: GetPermissions_def)

lemma HasPermission_direct_or_inherited:
  "HasPermission r res act \<longleftrightarrow> perm res act \<in> set (GetPermissions r)"
proof (induction r res act rule: HasPermission.induct)
  case (1 r res act)
  have direct: "list_ex (\<lambda>p. Resource p = res \<and> Action p = act) (RolePermissions r)
      \<longleftrightarrow> perm res act \<in> set (RolePermissions r)"
    by (auto simp: list_ex_iff intro!: bexI [of _ "perm res act"])
  show ?case
  proof (cases "perm res act \<in> set (RolePermissions r)")
    case True
    then show ?thesis by (simp add: HasPermission.simps [of r] direct set_GetPermissions)
  next
    case False
    with 1 direct have "HasPermission r res act \<longleftrightarrow>
        (\<exists>c \<in> set (RoleHierarchy r). perm res act \<in> set (GetPermissions c))"
      by (auto simp: HasPermission.simps [of r] list_ex_iff)
    also have "\<dots> \<longleftrightarrow> perm res act \<in> set (GetPermissions r)"
      using False RoleHierarchy_trans [of _ r] by (auto simp: set_GetPermissions)
    finally show ?thesis .
  qed
qed

text \<open>
  C4: the recursive permission check and the flattened permission set agree. For every role (known or
  not), resource and action, \<open>HasPermission\<close> answers true exactly when the pair is among the
  permissions \<open>GetPermissions\<close> lists.
\<close>

theorem HasPermission_iff_GetPermissions:
  "HasPermission r res act \<longleftrightarrow> \<lparr>Resource = res, Action = act\<rparr> \<in> set (GetPermissions r)"
  using HasPermission_direct_or_inherited by (simp add: perm_def)

lemma HasPermission_Inherits_mono:
  "Inherits r c \<Longrightarrow> HasPermission c res act \<Longrightarrow> HasPermission r res act"
  using RoleHierarchy_trans [of c r]
  by (auto simp: Inherits_iff HasPermission_direct_or_inherited set_GetPermissions)

text \<open>
  Inheritance is privilege-monotone and acyclic. A role that inherits another has a strictly
  higher level and every permission of it, whatever set of permissions is asked for.
\<close>

theorem Inherits_monotone:
  assumes "Inherits r c"
  shows "IsHigherOrEqualRole r c \<and> \<not> IsHigherOrEqualRole c r
     \<and> (HasAllPermissions c ps \<longrightarrow> HasAllPermissions r ps)
     \<and> (HasAnyPermission c ps \<longrightarrow> HasAnyPermission r ps)"
proof -
  from assms have "c \<in> set (RoleHierarchy r)" by (simp add: Inherits_iff)
  then have "IsHigherOrEqualRole r c \<and> \<not> IsHigherOrEqualRole c r"
    by (auto simp: RoleHierarchy_def IsHigherOrEqualRole_def RoleLevel_def split: if_splits)
  then show ?thesis
    using HasPermission_Inherits_mono [OF assms]
    by (auto simp: HasAllPermissions_def HasAnyPermission_def list_all_iff list_ex_iff)
qed

theorem Inherits_monotone_witness:
  "HasAllPermissions ''operator'' [perm ''users'' ''read'', perm ''audit'' ''export'']
   \<and> IsHigherOrEqualRole ''operator'' ''auditor'' \<and> \<not> IsHigherOrEqualRole ''auditor'' ''operator''"
proof -
  have inh: "Inherits ''operator'' ''auditor''" by code_simp
  have "HasAllPermissions ''auditor'' [perm ''users'' ''read'', perm ''audit'' ''export'']"
    by code_simp
  with Inherits_monotone [OF inh, of "[perm ''users'' ''read'', perm ''audit'' ''export'']"]
  show ?thesis by simp
qed

text \<open>
  The text form of a permission. Parsing succeeds exactly on strings with a colon, and it is
  inverse to printing in both directions: printing what was parsed gives the input back, and parsing
  a printed permission gives it back when its resource has no colon (an action may have one).
\<close>

theorem permission_roundtrip:
  "(CHR '':'' \<notin> set (Resource p) \<longrightarrow> ParsePermission (permissionString p) = Inr p)
   \<and> (ParsePermission s = Inr q \<longrightarrow> permissionString q = s \<and> CHR '':'' \<notin> set (Resource q))
   \<and> (isl (ParsePermission s) \<longleftrightarrow> CHR '':'' \<notin> set s)"
proof (intro conjI)
  show "CHR '':'' \<notin> set (Resource p) \<longrightarrow> ParsePermission (permissionString p) = Inr p"
    by (simp add: ParsePermission_def permissionString_def cutAt_append)
  show "ParsePermission s = Inr q \<longrightarrow> permissionString q = s \<and> CHR '':'' \<notin> set (Resource q)"
    by (auto simp: ParsePermission_def permissionString_def split: option.splits dest: cutAt_Some)
  show "isl (ParsePermission s) \<longleftrightarrow> CHR '':'' \<notin> set s"
    by (auto simp: ParsePermission_def cutAt_def)
qed

theorem permission_roundtrip_witness:
  "ParsePermission (permissionString \<lparr>Resource = ''audit'', Action = ''read:all''\<rparr>)
     = Inr \<lparr>Resource = ''audit'', Action = ''read:all''\<rparr>
   \<and> permissionString \<lparr>Resource = ''a'', Action = ''b''\<rparr> = ''a:b''"
proof -
  have "ParsePermission ''a:b'' = Inr \<lparr>Resource = ''a'', Action = ''b''\<rparr>" by code_simp
  with permission_roundtrip [of "\<lparr>Resource = ''audit'', Action = ''read:all''\<rparr>" "''a:b''"
      "\<lparr>Resource = ''a'', Action = ''b''\<rparr>"]
  show ?thesis by simp
qed

end
