(* ===== verification/Circuit_Breaker.thy ===== *)
theory Circuit_Breaker
  imports Go_Prelude
begin

text \<open>
  The circuit breaker every outbound dependency runs through
  (\<^verbatim>\<open>internal/common/resilience/circuitbreaker.go\<close>).

  \<^verbatim>\<open>Execute\<close> holds the mutex while it decides whether to admit a call, releases it while the call
  runs, and takes it again to record the outcome. The two critical sections are \<open>enter\<close> and
  \<open>recordOutcome\<close>; \<open>Execute\<close> composes them for one caller, and the step relation \<open>cb_step\<close> interleaves
  the critical sections of any number of callers. Metrics and log lines are left out. The zero
  \<^verbatim>\<open>time.Time\<close> is \<open>zeroTime\<close>; \<^verbatim>\<open>time.Since\<close> saturates only for differences above 292 years and
  is plain subtraction here.
\<close>

section \<open>State\<close>

datatype CircuitState = StateClosed | StateOpen | StateHalfOpen

record CircuitBreakerConfig =
  cfg_Name :: string
  cfg_Threshold :: int
  cfg_ResetTimeout :: int
  cfg_HalfOpenAttempts :: int

record CircuitBreaker =
  cb_name :: string
  cb_failures :: int
  cb_threshold :: int
  cb_resetTimeout :: int
  cb_halfOpenAttempts :: int
  cb_halfOpenCount :: int
  cb_lastFailure :: int
  cb_state :: CircuitState

record distributedState =
  ds_State :: CircuitState
  ds_Failures :: int
  ds_LastFailure :: int

record CircuitBreakerStats =
  st_Name :: string
  st_State :: CircuitState
  st_Failures :: int
  st_Threshold :: int
  st_LastFailure :: "int option"
  st_HalfOpenAttempt :: int

definition zeroTime :: int where
  "zeroTime = - 62135596800 * second"

definition unix :: "int \<Rightarrow> int" where
  "unix t = t div second"

text \<open>\<open>transition\<close> only assigns the state when it differs, which is the same assignment.\<close>

definition transition :: "CircuitState \<Rightarrow> CircuitBreaker \<Rightarrow> CircuitBreaker" where
  "transition to cb = (if cb_state cb = to then cb else cb\<lparr>cb_state := to\<rparr>)"

section \<open>Distributed state\<close>

type_synonym cb_store = "distributedState redis option"

definition cbKey :: "CircuitBreaker \<Rightarrow> string" where
  "cbKey cb = ''circuit_breaker:'' @ cb_name cb"

definition saveDistributedState :: "bool \<Rightarrow> int \<Rightarrow> CircuitBreaker \<Rightarrow> cb_store \<Rightarrow> cb_store" where
  "saveDistributedState redisFails now cb st =
     (case st of
        None \<Rightarrow> None
      | Some m \<Rightarrow>
          (if redisFails then Some m
           else Some (redisSetEx now (cb_resetTimeout cb * 2) (cbKey cb)
             \<lparr>ds_State = cb_state cb, ds_Failures = cb_failures cb,
              ds_LastFailure = unix (cb_lastFailure cb)\<rparr> m)))"

definition loadDistributedState :: "bool \<Rightarrow> int \<Rightarrow> cb_store \<Rightarrow> CircuitBreaker \<Rightarrow> CircuitBreaker" where
  "loadDistributedState redisFails now st cb =
     (case st of
        None \<Rightarrow> cb
      | Some m \<Rightarrow>
          (if redisFails then cb
           else (case redisGet now m (cbKey cb) of
                   None \<Rightarrow> cb
                 | Some d \<Rightarrow> cb\<lparr>cb_state := ds_State d, cb_failures := ds_Failures d,
                                cb_lastFailure := ds_LastFailure d * second\<rparr>)))"

definition NewCircuitBreaker :: "bool \<Rightarrow> int \<Rightarrow> cb_store \<Rightarrow> CircuitBreakerConfig \<Rightarrow> CircuitBreaker" where
  "NewCircuitBreaker redisFails now st cfg =
     (let cb = \<lparr>cb_name = cfg_Name cfg, cb_failures = 0, cb_threshold = cfg_Threshold cfg,
                cb_resetTimeout = cfg_ResetTimeout cfg,
                cb_halfOpenAttempts = cfg_HalfOpenAttempts cfg, cb_halfOpenCount = 0,
                cb_lastFailure = zeroTime, cb_state = StateClosed\<rparr>;
          cb1 = (if cb_halfOpenAttempts cb = 0 then cb\<lparr>cb_halfOpenAttempts := 1\<rparr> else cb)
      in loadDistributedState redisFails now st cb1)"

section \<open>Execution\<close>

datatype admission = Admit | RejectLimit | RejectOpen

definition limitReached :: "CircuitBreaker \<Rightarrow> bool" where
  "limitReached cb \<longleftrightarrow> 0 < cb_halfOpenAttempts cb \<and> cb_halfOpenAttempts cb \<le> cb_halfOpenCount cb"

definition countProbe :: "CircuitBreaker \<Rightarrow> CircuitBreaker" where
  "countProbe cb = cb\<lparr>cb_halfOpenCount := cb_halfOpenCount cb + 1\<rparr>"

definition enter :: "int \<Rightarrow> CircuitBreaker \<Rightarrow> admission \<times> CircuitBreaker" where
  "enter now cb =
     (case cb_state cb of
        StateOpen \<Rightarrow>
          (if cb_resetTimeout cb < now - cb_lastFailure cb then
             (if limitReached cb then (RejectLimit, cb)
              else (Admit, countProbe (transition StateHalfOpen cb)))
           else (RejectOpen, cb))
      | StateHalfOpen \<Rightarrow> (if limitReached cb then (RejectLimit, cb) else (Admit, countProbe cb))
      | StateClosed \<Rightarrow> (Admit, cb))"

definition recordFailure :: "int \<Rightarrow> CircuitBreaker \<Rightarrow> CircuitBreaker" where
  "recordFailure now cb =
     (let cb1 = cb\<lparr>cb_failures := cb_failures cb + 1, cb_lastFailure := now\<rparr>
      in if cb_state cb1 = StateHalfOpen \<or> cb_threshold cb1 \<le> cb_failures cb1
         then transition StateOpen cb1 else cb1)"

definition recordSuccess :: "CircuitBreaker \<Rightarrow> CircuitBreaker" where
  "recordSuccess cb = transition StateClosed (cb\<lparr>cb_failures := 0, cb_halfOpenCount := 0\<rparr>)"

definition recordOutcome :: "int \<Rightarrow> bool \<Rightarrow> CircuitBreaker \<Rightarrow> CircuitBreaker" where
  "recordOutcome now failed cb = (if failed then recordFailure now cb else recordSuccess cb)"

datatype 'e breaker_error = ErrLimit | ErrOpen | ErrCall 'e

definition withFallback ::
    "('e breaker_error \<Rightarrow> 'e breaker_error + 'a) option \<Rightarrow> 'e breaker_error \<Rightarrow> 'e breaker_error + 'a" where
  "withFallback fallback e = (case fallback of None \<Rightarrow> Inl e | Some f \<Rightarrow> f e)"

text \<open>One caller alone: \<open>now\<close> is the time of the admission decision, \<open>now'\<close> the time the call has
  returned, \<open>fn\<close> the result the call would give.\<close>

definition Execute ::
    "bool \<Rightarrow> int \<Rightarrow> int \<Rightarrow> ('e breaker_error \<Rightarrow> 'e breaker_error + 'a) option \<Rightarrow> ('e + 'a)
       \<Rightarrow> CircuitBreaker \<times> cb_store \<Rightarrow> ('e breaker_error + 'a) \<times> CircuitBreaker \<times> cb_store" where
  "Execute redisFails now now' fallback fn s =
     (case enter now (fst s) of
        (RejectLimit, cb) \<Rightarrow> (withFallback fallback ErrLimit, cb, snd s)
      | (RejectOpen, cb) \<Rightarrow> (withFallback fallback ErrOpen, cb, snd s)
      | (Admit, cb) \<Rightarrow>
          (case fn of
             Inl e \<Rightarrow> (let cb' = recordFailure now' cb
                       in (withFallback fallback (ErrCall e), cb', saveDistributedState redisFails now' cb' (snd s)))
           | Inr r \<Rightarrow> (let cb' = recordSuccess cb
                       in (Inr r, cb', saveDistributedState redisFails now' cb' (snd s)))))"

definition Reset :: "bool \<Rightarrow> int \<Rightarrow> CircuitBreaker \<times> cb_store \<Rightarrow> CircuitBreaker \<times> cb_store" where
  "Reset redisFails now s =
     (let cb = (transition StateClosed ((fst s)\<lparr>cb_failures := 0, cb_halfOpenCount := 0\<rparr>))
                 \<lparr>cb_lastFailure := zeroTime\<rparr>
      in (cb, saveDistributedState redisFails now cb (snd s)))"

definition Stats :: "CircuitBreaker \<Rightarrow> CircuitBreakerStats" where
  "Stats cb = \<lparr>st_Name = cb_name cb, st_State = cb_state cb, st_Failures = cb_failures cb,
     st_Threshold = cb_threshold cb,
     st_LastFailure = (if cb_lastFailure cb = zeroTime then None else Some (cb_lastFailure cb)),
     st_HalfOpenAttempt = (if cb_state cb = StateHalfOpen then cb_halfOpenCount cb else 0)\<rparr>"

lemmas breaker_defs = enter_def recordFailure_def recordSuccess_def recordOutcome_def transition_def
  countProbe_def limitReached_def Let_def

section \<open>Interleaved callers\<close>

text \<open>The breaker with the number of admitted calls that have not returned yet.\<close>

type_synonym cb_system = "CircuitBreaker \<times> nat"

inductive cb_step :: "cb_system \<Rightarrow> cb_system \<Rightarrow> bool" where
  step_admit: "enter now cb = (Admit, cb') \<Longrightarrow> cb_step (cb, n) (cb', Suc n)"
| step_reject: "enter now cb = (a, cb') \<Longrightarrow> a \<noteq> Admit \<Longrightarrow> cb_step (cb, n) (cb', n)"
| step_return: "cb_step (cb, Suc n) (recordOutcome now failed cb, n)"
| step_reset: "cb_step (cb, n) (fst (Reset redisFails now (cb, st)), n)"

inductive_cases cb_stepE: "cb_step s t"

definition cb_init :: "cb_system \<Rightarrow> bool" where
  "cb_init s \<longleftrightarrow> snd s = 0 \<and> (\<exists>cfg. 1 \<le> cfg_Threshold cfg \<and> fst s = NewCircuitBreaker True 0 None cfg)"

definition cb_inv :: "cb_system \<Rightarrow> bool" where
  "cb_inv s \<longleftrightarrow> (let cb = fst s in
     1 \<le> cb_threshold cb \<and> 0 \<le> cb_failures cb \<and> 0 \<le> cb_halfOpenCount cb
     \<and> cb_halfOpenAttempts cb \<noteq> 0
     \<and> (0 < cb_halfOpenAttempts cb \<longrightarrow> cb_halfOpenCount cb \<le> cb_halfOpenAttempts cb)
     \<and> (cb_state cb = StateClosed \<longrightarrow> cb_failures cb < cb_threshold cb \<and> cb_halfOpenCount cb = 0)
     \<and> (cb_state cb = StateHalfOpen \<longrightarrow> 1 \<le> cb_halfOpenCount cb)
     \<and> (cb_state cb = StateOpen \<longrightarrow> 1 \<le> cb_failures cb))"

lemma cb_inv_init: "cb_init s \<Longrightarrow> cb_inv s"
  by (auto simp: cb_init_def cb_inv_def NewCircuitBreaker_def loadDistributedState_def Let_def
      split: if_splits)

lemma cb_inv_enter: "cb_inv (cb, n) \<Longrightarrow> enter now cb = (a, cb') \<Longrightarrow> cb_inv (cb', m)"
  by (auto simp: cb_inv_def breaker_defs split: CircuitState.splits if_splits)

lemma cb_inv_outcome: "cb_inv (cb, n) \<Longrightarrow> cb_inv (recordOutcome now failed cb, m)"
  by (cases "cb_state cb") (auto simp: cb_inv_def breaker_defs)

lemma cb_inv_reset: "cb_inv (cb, n) \<Longrightarrow> cb_inv (fst (Reset redisFails now (cb, st)), m)"
  by (auto simp: cb_inv_def Reset_def transition_def Let_def)

interpretation cb: invariant_system cb_init cb_step cb_inv
  by unfold_locales
     (auto elim!: cb_stepE intro: cb_inv_init cb_inv_enter cb_inv_outcome cb_inv_reset)

text \<open>
  In every state reachable by any interleaving of callers, outcomes and resets, a closed breaker
  has seen fewer failures than the threshold, and the calls admitted since the last success or reset
  while the breaker was not closed never exceed the configured limit.
\<close>

theorem breaker_reachable_bounds:
  assumes "reach cb_init cb_step (cb, n)"
  shows "(cb_state cb = StateClosed \<longrightarrow> 0 \<le> cb_failures cb \<and> cb_failures cb < cb_threshold cb)
       \<and> (0 < cb_halfOpenAttempts cb \<longrightarrow> cb_halfOpenCount cb \<le> cb_halfOpenAttempts cb)
       \<and> (cb_state cb \<noteq> StateClosed \<longrightarrow> 1 \<le> cb_failures cb \<or> 1 \<le> cb_halfOpenCount cb)"
  using cb.reach_inv [OF assms] by (cases "cb_state cb") (auto simp: cb_inv_def Let_def)

definition demoBreaker :: CircuitBreaker where
  "demoBreaker = NewCircuitBreaker True 0 None
     \<lparr>cfg_Name = ''redis'', cfg_Threshold = 5, cfg_ResetTimeout = 5 * second, cfg_HalfOpenAttempts = 0\<rparr>"

theorem breaker_reachable_bounds_witness:
  "reach cb_init cb_step (demoBreaker, 0) \<and> cb_failures demoBreaker < cb_threshold demoBreaker"
proof -
  have "cb_init (demoBreaker, 0)"
    unfolding cb_init_def demoBreaker_def
    by (auto intro!: exI [of _ "\<lparr>cfg_Name = ''redis'', cfg_Threshold = 5,
        cfg_ResetTimeout = 5 * second, cfg_HalfOpenAttempts = 0\<rparr>"])
  then have "reach cb_init cb_step (demoBreaker, 0)" by (rule reach_init)
  moreover have "cb_state demoBreaker = StateClosed"
    by (simp add: demoBreaker_def NewCircuitBreaker_def loadDistributedState_def Let_def)
  ultimately show ?thesis using breaker_reachable_bounds by blast
qed

section \<open>One caller at a time\<close>

text \<open>A sequence of calls, each with the time it starts, the time it returns and whether it fails.\<close>

fun runCalls :: "(int \<times> int \<times> bool) list \<Rightarrow> CircuitBreaker \<Rightarrow> admission list \<times> CircuitBreaker" where
  "runCalls [] cb = ([], cb)"
| "runCalls ((t, t', failed) # cs) cb =
     (case enter t cb of (a, cb1) \<Rightarrow>
        (case runCalls cs (if a = Admit then recordOutcome t' failed cb1 else cb1) of
           (as, cb2) \<Rightarrow> (a # as, cb2)))"

text \<open>\<open>runCalls\<close> keeps what \<open>Execute\<close> does to the breaker.\<close>

lemma Execute_runCalls:
  "fst (snd (Execute rf t t' fb (if failed then Inl e else Inr r) (cb, st)))
     = snd (runCalls [(t, t', failed)] cb)"
  by (cases "enter t cb"; cases "fst (enter t cb)")
     (auto simp: Execute_def recordOutcome_def Let_def)

lemma runCalls_failures_closed:
  assumes "cb_state cb = StateClosed" and "cb_failures cb + int (length ts) < cb_threshold cb"
  shows "runCalls (map (\<lambda>t. (t, t, True)) ts) cb
    = (replicate (length ts) Admit,
       cb\<lparr>cb_failures := cb_failures cb + int (length ts), cb_lastFailure := last (cb_lastFailure cb # ts)\<rparr>)"
  using assms
proof (induction ts arbitrary: cb)
  case Nil
  then show ?case by simp
next
  case (Cons t ts)
  let ?cb1 = "recordFailure t cb"
  have cb1: "?cb1 = cb\<lparr>cb_failures := cb_failures cb + 1, cb_lastFailure := t\<rparr>"
    using Cons.prems by (simp add: recordFailure_def Let_def)
  have "runCalls (map (\<lambda>t. (t, t, True)) ts) ?cb1
    = (replicate (length ts) Admit,
       ?cb1\<lparr>cb_failures := cb_failures ?cb1 + int (length ts), cb_lastFailure := last (cb_lastFailure ?cb1 # ts)\<rparr>)"
    using Cons.prems by (intro Cons.IH) (simp_all add: cb1)
  then show ?case using Cons.prems
    by (simp add: enter_def recordOutcome_def cb1 algebra_simps)
qed

text \<open>
  The life of a breaker. A closed breaker with no failures admits a run of failing calls and opens
  exactly with the one that reaches the threshold; until the reset timeout has passed since that
  failure it rejects every call without running it; the first call after the timeout is admitted as a
  probe, and when the probe succeeds the breaker is closed with its counters cleared.
\<close>

theorem breaker_life_cycle:
  assumes "cb_state cb = StateClosed" "cb_failures cb = 0" "cb_halfOpenCount cb = 0"
    and "cb_threshold cb = int (Suc (length ts))"
    and "u - t \<le> cb_resetTimeout cb" "cb_resetTimeout cb < v - t"
  shows "\<exists>opened. runCalls (map (\<lambda>t. (t, t, True)) ts @ [(t, t, True)]) cb
            = (replicate (Suc (length ts)) Admit, opened)
       \<and> cb_state opened = StateOpen
       \<and> cb_state (snd (runCalls (map (\<lambda>t. (t, t, True)) ts) cb)) = StateClosed
       \<and> enter u opened = (RejectOpen, opened)
       \<and> fst (enter v opened) = Admit
       \<and> cb_state (snd (enter v opened)) = StateHalfOpen
       \<and> recordSuccess (snd (enter v opened)) = cb\<lparr>cb_lastFailure := t\<rparr>"
proof -
  let ?mid = "cb\<lparr>cb_failures := int (length ts), cb_lastFailure := last (cb_lastFailure cb # ts)\<rparr>"
  let ?opened = "cb\<lparr>cb_failures := cb_threshold cb, cb_lastFailure := t, cb_state := StateOpen\<rparr>"
  have mid: "runCalls (map (\<lambda>t. (t, t, True)) ts) cb = (replicate (length ts) Admit, ?mid)"
    using assms runCalls_failures_closed [of cb ts] by simp
  have app: "runCalls (xs @ [c]) b = (case runCalls xs b of (as, b1) \<Rightarrow>
      (case runCalls [c] b1 of (as', b2) \<Rightarrow> (as @ as', b2)))" for xs c b
    by (induction xs b rule: runCalls.induct) (auto split: prod.splits)
  have "runCalls (map (\<lambda>t. (t, t, True)) ts @ [(t, t, True)]) cb
      = (replicate (Suc (length ts)) Admit, ?opened)"
    using assms(1,4) by (simp add: app mid enter_def recordOutcome_def recordFailure_def transition_def
        replicate_append_same)
  moreover have "enter u ?opened = (RejectOpen, ?opened)" using assms(5) by (simp add: enter_def)
  moreover have "enter v ?opened
      = (Admit, ?opened\<lparr>cb_halfOpenCount := 1, cb_state := StateHalfOpen\<rparr>)"
    using assms(3,6) by (simp add: breaker_defs)
  moreover have "recordSuccess (?opened\<lparr>cb_halfOpenCount := 1, cb_state := StateHalfOpen\<rparr>)
      = cb\<lparr>cb_lastFailure := t\<rparr>"
    using assms(1-3) by (cases cb) (simp add: recordSuccess_def transition_def)
  ultimately show ?thesis using assms(1) mid by (intro exI [of _ ?opened]) simp
qed

theorem breaker_life_cycle_witness:
  "\<exists>opened. cb_state opened = StateOpen \<and> enter (5 * second + 4) opened = (RejectOpen, opened)
      \<and> fst (enter (5 * second + 5) opened) = Admit"
proof -
  have new: "cb_state demoBreaker = StateClosed" "cb_failures demoBreaker = 0"
      "cb_halfOpenCount demoBreaker = 0" "cb_threshold demoBreaker = int (Suc (length [0, 1, 2, 3 :: int]))"
      "(5 * second + 4) - 4 \<le> cb_resetTimeout demoBreaker"
      "cb_resetTimeout demoBreaker < (5 * second + 5) - 4"
    by (simp_all add: demoBreaker_def NewCircuitBreaker_def loadDistributedState_def Let_def)
  from breaker_life_cycle [OF new] show ?thesis by blast
qed


definition demoProbing :: CircuitBreaker where
  "demoProbing = demoBreaker\<lparr>cb_failures := 5, cb_halfOpenCount := 1, cb_state := StateHalfOpen\<rparr>"


end
