(* ===== verification/OAuth_Types.thy ===== *)
theory OAuth_Types
  imports Circuit_Breaker
begin

text \<open>
  The data the OAuth service shares between its handlers (\<^verbatim>\<open>internal/oauth\<close>): the registered
  clients and their store (\<^verbatim>\<open>oauth_client_store.go\<close>), the authorization-code and refresh-token
  records (\<^verbatim>\<open>service.go\<close>), the tenant carried by a request (\<^verbatim>\<open>orgctx\<close>), and the
  extraction of client credentials (\<^verbatim>\<open>client_auth.go\<close>).

  A handler is a function of the request, an environment and the state. The environment holds the
  clock, whether the deployment is in production, the random tokens the handler draws (named by what
  they are for) and which named database call fails, so every error return of the source is a branch
  here. Time is read once per handler.
\<close>

section \<open>Requests and environment\<close>

record Org =
  org_ID :: string
  org_Slug :: string

record request =
  rq_org :: "Org option"
  rq_query :: "string \<Rightarrow> string"
  rq_form :: "string \<Rightarrow> string"
  rq_authorization :: string
  rq_user :: string

record service_config =
  sc_issuer :: string
  sc_tenantBaseDomain :: string
  sc_pairwise :: bool
  sc_encryptionKey :: string
  sc_publicBaseURL :: string

record env =
  env_now :: int
  env_production :: bool
  env_config :: service_config
  env_fresh :: "string \<Rightarrow> string"
  env_fails :: "string \<Rightarrow> bool"

definition noParams :: "string \<Rightarrow> string" where
  "noParams = (\<lambda>_. '''')"

section \<open>Clients, codes and tokens\<close>

record OAuthClient =
  oc_ID :: string
  oc_ClientID :: string
  oc_ClientSecret :: string
  oc_Name :: string
  oc_Description :: string
  oc_Type :: string
  oc_RedirectURIs :: "string list"
  oc_GrantTypes :: "string list"
  oc_ResponseTypes :: "string list"
  oc_Scopes :: "string list"
  oc_LogoURI :: string
  oc_PolicyURI :: string
  oc_TOSUri :: string
  oc_PKCERequired :: bool
  oc_AllowRefreshToken :: bool
  oc_AccessTokenLifetime :: int
  oc_RefreshTokenLifetime :: int
  oc_CreatedAt :: int
  oc_UpdatedAt :: int

record AuthorizationCode =
  ac_Code :: string
  ac_ClientID :: string
  ac_UserID :: string
  ac_RedirectURI :: string
  ac_Scope :: string
  ac_State :: string
  ac_Nonce :: string
  ac_CodeChallenge :: string
  ac_CodeChallengeMethod :: string
  ac_ExpiresAt :: int
  ac_CreatedAt :: int

text \<open>A row of \<^verbatim>\<open>oauth_refresh_tokens\<close>: the \<^verbatim>\<open>RefreshToken\<close> struct with its tenant and
  revocation columns.\<close>

record RefreshToken =
  rt_Token :: string
  rt_ClientID :: string
  rt_UserID :: string
  rt_Scope :: string
  rt_SessionID :: string
  rt_ExpiresAt :: int
  rt_CreatedAt :: int
  rt_FamilyID :: string
  rt_UsedAt :: "int option"
  rt_RevokedAt :: "int option"
  rt_OrgID :: string

record TokenResponse =
  tr_AccessToken :: string
  tr_TokenType :: string
  tr_ExpiresIn :: int
  tr_RefreshToken :: string
  tr_IDToken :: string
  tr_Scope :: string

text \<open>Rows of \<^verbatim>\<open>sessions\<close> and \<^verbatim>\<open>oauth_device_codes\<close>, and the directory tables the tokens
  are filled from.\<close>

record Session =
  se_ID :: string
  se_UserID :: string
  se_ClientID :: string
  se_OrgID :: string
  se_Revoked :: bool
  se_ExpiresAt :: int
  se_StartedAt :: int
  se_AuthMethods :: "string list"

record deviceCodeRecord =
  dc_ID :: string
  dc_Hash :: string
  dc_UserCode :: string
  dc_ClientID :: string
  dc_Scope :: string
  dc_State :: string
  dc_UserID :: "string option"
  dc_OrgID :: string
  dc_Interval :: int
  dc_LastPolledAt :: "int option"
  dc_ConsumedAt :: "int option"
  dc_ExpiresAt :: int

record dirUser =
  du_ID :: string
  du_OrgID :: string
  du_Email :: string
  du_FirstName :: string
  du_LastName :: string
  du_EmailVerified :: bool
  du_Enabled :: bool

record userRole =
  ur_UserID :: string
  ur_OrgID :: string
  ur_RoleID :: string
  ur_ExpiresAt :: "int option"

record directory =
  di_users :: "dirUser list"
  di_roles :: "(string \<times> string) list"
  di_userRoles :: "userRole list"
  di_groups :: "(string \<times> string) list"
  di_memberships :: "(string \<times> string \<times> string) list"
  di_permissions :: "(string \<times> string \<times> string) list"
  di_rolePermissions :: "(string \<times> string) list"

text \<open>
  The state the handlers share. \<open>os_codes\<close> pairs each authorization code with its tenant;
  \<open>os_sso\<close> lists (tenant, client, require-consent), \<open>os_consents\<close> the granted scopes by (tenant,
  user, client). Redis keys with a map value (hashes and JSON objects of strings) are in
  \<open>os_hashes\<close>, those with a plain string in \<open>os_keys\<close>.
\<close>

record oauth_state =
  os_clients :: "(string \<times> OAuthClient) list"
  os_codes :: "(string \<times> AuthorizationCode) list"
  os_refresh :: "RefreshToken list"
  os_hashes :: "(string \<rightharpoonup> string) redis"
  os_keys :: "string redis"
  os_sso :: "(string \<times> string \<times> bool) list"
  os_consents :: "((string \<times> string \<times> string) \<times> string) list"
  os_sessions :: "Session list"
  os_devices :: "deviceCodeRecord list"
  os_directory :: directory
  os_breaker :: "CircuitBreaker option"

section \<open>The client store\<close>

datatype oauth_error =
    ErrNoOrgContext
  | ErrOAuthClientNotFound
  | ErrDatabase
  | ErrNoRows
  | ErrExpired
  | ErrMessage string
  | Panic

type_synonym client_table = "(string \<times> OAuthClient) list"

definition GetByClientID ::
    "env \<Rightarrow> Org option \<Rightarrow> client_table \<Rightarrow> string \<Rightarrow> oauth_error + OAuthClient" where
  "GetByClientID env org tbl clientID =
     (case org of
        None \<Rightarrow> Inl ErrNoOrgContext
      | Some o' \<Rightarrow>
          (if env_fails env ''GetByClientID'' then Inl ErrDatabase
           else (case find (\<lambda>(oid, c). oc_ClientID c = clientID \<and> oid = org_ID o') tbl of
                   None \<Rightarrow> Inl ErrOAuthClientNotFound
                 | Some (_, c) \<Rightarrow> Inr c)))"

definition clientDefaults :: "env \<Rightarrow> OAuthClient \<Rightarrow> OAuthClient" where
  "clientDefaults env client =
     (let client1 = client\<lparr>oc_CreatedAt := env_now env, oc_UpdatedAt := env_now env\<rparr>;
          client2 = (if oc_AccessTokenLifetime client1 = 0
                     then client1\<lparr>oc_AccessTokenLifetime := 3600\<rparr> else client1)
      in if oc_RefreshTokenLifetime client2 = 0
         then client2\<lparr>oc_RefreshTokenLifetime := 86400\<rparr> else client2)"

definition createClient ::
    "env \<Rightarrow> Org option \<Rightarrow> OAuthClient \<Rightarrow> client_table \<Rightarrow> oauth_error + client_table" where
  "createClient env org client tbl =
     (case org of
        None \<Rightarrow> Inl ErrNoOrgContext
      | Some o' \<Rightarrow>
          (if env_fails env ''createClient'' then Inl ErrDatabase
           else Inr (tbl @ [(org_ID o', clientDefaults env client)])))"

text \<open>The columns the \<^verbatim>\<open>UPDATE\<close> assigns; identifier, secret and type are not among them.\<close>

definition clientUpdateColumns :: "env \<Rightarrow> OAuthClient \<Rightarrow> OAuthClient \<Rightarrow> OAuthClient" where
  "clientUpdateColumns env client c = c\<lparr>
     oc_Name := oc_Name client, oc_Description := oc_Description client,
     oc_RedirectURIs := oc_RedirectURIs client, oc_GrantTypes := oc_GrantTypes client,
     oc_ResponseTypes := oc_ResponseTypes client, oc_Scopes := oc_Scopes client,
     oc_PKCERequired := oc_PKCERequired client,
     oc_AllowRefreshToken := oc_AllowRefreshToken client,
     oc_AccessTokenLifetime := oc_AccessTokenLifetime client,
     oc_RefreshTokenLifetime := oc_RefreshTokenLifetime client,
     oc_UpdatedAt := env_now env\<rparr>"

definition updateClient ::
    "env \<Rightarrow> Org option \<Rightarrow> string \<Rightarrow> OAuthClient \<Rightarrow> client_table \<Rightarrow> oauth_error + client_table" where
  "updateClient env org clientID client tbl =
     (case org of
        None \<Rightarrow> Inl ErrNoOrgContext
      | Some o' \<Rightarrow>
          (let matches = (\<lambda>(oid, c). oc_ClientID c = clientID \<and> oid = org_ID o')
           in if env_fails env ''updateClient'' then Inl ErrDatabase
              else if countWhere matches tbl = 0 then Inl ErrOAuthClientNotFound
              else Inr (updateWhere matches
                     (\<lambda>(oid, c). (oid, clientUpdateColumns env client c)) tbl)))"

definition deleteClient ::
    "env \<Rightarrow> Org option \<Rightarrow> string \<Rightarrow> client_table \<Rightarrow> oauth_error + client_table" where
  "deleteClient env org clientID tbl =
     (case org of
        None \<Rightarrow> Inl ErrNoOrgContext
      | Some o' \<Rightarrow>
          (if env_fails env ''deleteClient'' then Inl ErrDatabase
           else Inr (deleteWhere (\<lambda>(oid, c). oc_ClientID c = clientID \<and> oid = org_ID o') tbl)))"

section \<open>Client credentials\<close>

text \<open>\<^verbatim>\<open>base64.StdEncoding.DecodeString\<close>: line breaks are skipped, groups of four characters
  decode to three bytes, and only the last group may be padded.\<close>

fun b64Groups :: "string \<Rightarrow> string option" where
  "b64Groups [] = Some []"
| "b64Groups (a # b # c # d # s) =
     (case (b64Value a, b64Value b) of
        (Some x, Some y) \<Rightarrow>
          (if c = CHR ''='' \<and> d = CHR ''='' then
             (if s = [] then Some [char_of (x * 4 + y div 16)] else None)
           else (case b64Value c of
                   None \<Rightarrow> None
                 | Some z \<Rightarrow>
                     (if d = CHR ''='' then
                        (if s = [] then Some [char_of (x * 4 + y div 16),
                                              char_of (y mod 16 * 16 + z div 4)] else None)
                      else (case (b64Value d, b64Groups s) of
                              (Some w, Some r) \<Rightarrow>
                                Some (char_of (x * 4 + y div 16) # char_of (y mod 16 * 16 + z div 4)
                                  # char_of (z mod 4 * 64 + w) # r)
                            | _ \<Rightarrow> None))))
      | _ \<Rightarrow> None)"
| "b64Groups _ = None"

definition b64Decode :: "string \<Rightarrow> string option" where
  "b64Decode s = b64Groups (filter (\<lambda>c. byteOf c \<noteq> 10 \<and> byteOf c \<noteq> 13) s)"

text \<open>\<^verbatim>\<open>url.QueryUnescape\<close>.\<close>

definition hexValue :: "char \<Rightarrow> nat option" where
  "hexValue c =
     (if isDigitAscii c then Some (byteOf c - 48)
      else if 97 \<le> byteOf c \<and> byteOf c \<le> 102 then Some (byteOf c - 87)
      else if 65 \<le> byteOf c \<and> byteOf c \<le> 70 then Some (byteOf c - 55)
      else None)"

fun queryUnescape :: "string \<Rightarrow> string option" where
  "queryUnescape [] = Some []"
| "queryUnescape (c # s) =
     (if c = CHR ''%'' then
        (case s of
           h # l # s' \<Rightarrow>
             (case (hexValue h, hexValue l, queryUnescape s') of
                (Some x, Some y, Some r) \<Rightarrow> Some (char_of (16 * x + y) # r)
              | _ \<Rightarrow> None)
         | _ \<Rightarrow> None)
      else map_option (\<lambda>r. (if c = CHR ''+'' then CHR '' '' else c) # r) (queryUnescape s))"

definition basicClientAuth :: "request \<Rightarrow> (string \<times> string) option" where
  "basicClientAuth rq =
     (let header = rq_authorization rq in
      if length header \<le> 6 \<or> toLower (take 6 header) \<noteq> ''basic '' then None
      else (case b64Decode (trimSpace (drop 6 header)) of
              None \<Rightarrow> None
            | Some raw \<Rightarrow>
                (case cutAt CHR '':'' raw of
                   None \<Rightarrow> None
                 | Some (name, pass) \<Rightarrow>
                     (case (queryUnescape name, queryUnescape pass) of
                        (Some dn, Some dp) \<Rightarrow> if dn = '''' then None else Some (dn, dp)
                      | _ \<Rightarrow> None))))"

definition clientCredentials :: "request \<Rightarrow> (string \<times> string) option" where
  "clientCredentials rq =
     (let formID = rq_form rq ''client_id''; formSecret = rq_form rq ''client_secret''
      in case basicClientAuth rq of
           Some (basicID, basicSecret) \<Rightarrow>
             (if formSecret \<noteq> '''' \<or> (formID \<noteq> '''' \<and> formID \<noteq> basicID) then None
              else Some (basicID, basicSecret))
         | None \<Rightarrow> Some (formID, formSecret))"

section \<open>Properties\<close>

lemma GetByClientID_Inr:
  "GetByClientID env org tbl cid = Inr c \<Longrightarrow>
   \<exists>o'. org = Some o' \<and> (org_ID o', c) \<in> set tbl \<and> oc_ClientID c = cid"
  by (auto simp: GetByClientID_def split: option.splits if_splits dest: find_Some_mem)

lemma find_updateWhere_other:
  "oa \<noteq> ob \<Longrightarrow>
   find (\<lambda>(oid, c). Q c \<and> oid = ob) (updateWhere (\<lambda>(oid, c). P c \<and> oid = oa) (\<lambda>(oid, c). (oid, g c)) tbl)
   = find (\<lambda>(oid, c). Q c \<and> oid = ob) tbl"
  by (induction tbl) (auto simp: updateWhere_Cons)

lemma find_deleteWhere_other:
  "oa \<noteq> ob \<Longrightarrow>
   find (\<lambda>(oid, c). Q c \<and> oid = ob) (deleteWhere (\<lambda>(oid, c). P c \<and> oid = oa) tbl)
   = find (\<lambda>(oid, c). Q c \<and> oid = ob) tbl"
  by (induction tbl) (auto simp: deleteWhere_def)

lemma find_append_other:
  "oa \<noteq> ob \<Longrightarrow>
   find (\<lambda>(oid, c). Q c \<and> oid = ob) (tbl @ [(oa, x)]) = find (\<lambda>(oid, c). Q c \<and> oid = ob) tbl"
  by (induction tbl) auto

lemmas find_other_tenant = find_updateWhere_other find_deleteWhere_other find_append_other

text \<open>
  Tenant isolation of the client store. A write by one tenant (create, update or delete) changes
  no lookup of another tenant; a lookup returns only a client of the caller's own tenant with the
  requested id; and a request without a tenant is refused.
\<close>

theorem client_store_tenant_isolation:
  assumes wr: "updateClient env (Some a) cid client tbl = Inr tbl'
         \<or> deleteClient env (Some a) cid tbl = Inr tbl'
         \<or> createClient env (Some a) client tbl = Inr tbl'"
    and other: "org_ID a \<noteq> org_ID b"
  shows "GetByClientID env' (Some b) tbl' cid' = GetByClientID env' (Some b) tbl cid'
       \<and> GetByClientID env' None tbl' cid' = Inl ErrNoOrgContext
       \<and> (GetByClientID env' (Some b) tbl' cid' = Inr c
           \<longrightarrow> (org_ID b, c) \<in> set tbl' \<and> oc_ClientID c = cid')"
proof -
  have "find (\<lambda>(oid, c). oc_ClientID c = cid' \<and> oid = org_ID b) tbl'
      = find (\<lambda>(oid, c). oc_ClientID c = cid' \<and> oid = org_ID b) tbl"
    using wr
  proof (elim disjE)
    assume "updateClient env (Some a) cid client tbl = Inr tbl'"
    then have "tbl' = updateWhere (\<lambda>(oid, c). oc_ClientID c = cid \<and> oid = org_ID a)
        (\<lambda>(oid, c). (oid, clientUpdateColumns env client c)) tbl"
      by (simp add: updateClient_def Let_def split: if_splits)
    then show ?thesis using other by (simp add: find_other_tenant)
  next
    assume "deleteClient env (Some a) cid tbl = Inr tbl'"
    then show ?thesis using other
      by (auto simp: deleteClient_def find_other_tenant split: if_splits)
  next
    assume "createClient env (Some a) client tbl = Inr tbl'"
    then show ?thesis using other
      by (auto simp: createClient_def find_other_tenant split: if_splits)
  qed
  then have "GetByClientID env' (Some b) tbl' cid' = GetByClientID env' (Some b) tbl cid'"
    by (simp add: GetByClientID_def)
  then show ?thesis
    by (auto simp: GetByClientID_def [of env' None] dest: GetByClientID_Inr)
qed

definition demoOrg :: "string \<Rightarrow> Org" where
  "demoOrg i = \<lparr>org_ID = i, org_Slug = i\<rparr>"

definition demoEnv :: env where
  "demoEnv = \<lparr>env_now = 1000 * second, env_production = True,
              env_config = \<lparr>sc_issuer = ''https://idx'', sc_tenantBaseDomain = '''', sc_pairwise = False,
                sc_encryptionKey = '''', sc_publicBaseURL = ''''\<rparr>, env_fresh = (\<lambda>w. ''fresh-'' @ w),
              env_fails = (\<lambda>_. False)\<rparr>"

definition demoClient :: "string \<Rightarrow> string \<Rightarrow> OAuthClient" where
  "demoClient cid ty = \<lparr>oc_ID = ''1'', oc_ClientID = cid, oc_ClientSecret = ''s3cret'',
     oc_Name = ''app'', oc_Description = '''', oc_Type = ty,
     oc_RedirectURIs = [''https://app/cb''], oc_GrantTypes = [''authorization_code''],
     oc_ResponseTypes = [''code''], oc_Scopes = [''openid'', ''offline_access''], oc_LogoURI = '''',
     oc_PolicyURI = '''', oc_TOSUri = '''', oc_PKCERequired = True, oc_AllowRefreshToken = True,
     oc_AccessTokenLifetime = 3600, oc_RefreshTokenLifetime = 86400, oc_CreatedAt = 0,
     oc_UpdatedAt = 0\<rparr>"

theorem client_store_tenant_isolation_witness:
  "GetByClientID demoEnv (Some (demoOrg ''b'')) [(''b'', demoClient ''cli'' ''public'')] ''cli''
     = Inr (demoClient ''cli'' ''public'')"
proof -
  let ?tbl = "[(''a'', demoClient ''cli'' ''public''), (''b'', demoClient ''cli'' ''public'')]"
  have del: "deleteClient demoEnv (Some (demoOrg ''a'')) ''cli'' ?tbl
      = Inr [(''b'', demoClient ''cli'' ''public'')]"
    by (simp add: deleteClient_def deleteWhere_def demoOrg_def demoEnv_def demoClient_def)
  have "org_ID (demoOrg ''a'') \<noteq> org_ID (demoOrg ''b'')" by (simp add: demoOrg_def)
  with client_store_tenant_isolation [of demoEnv "demoOrg ''a''" "''cli''" undefined ?tbl
      "[(''b'', demoClient ''cli'' ''public'')]" "demoOrg ''b''" demoEnv "''cli''"] del
  have "GetByClientID demoEnv (Some (demoOrg ''b'')) [(''b'', demoClient ''cli'' ''public'')] ''cli''
      = GetByClientID demoEnv (Some (demoOrg ''b'')) ?tbl ''cli''"
    by simp
  then show ?thesis
    by (simp add: GetByClientID_def demoOrg_def demoEnv_def demoClient_def)
qed

text \<open>
  One authentication method per request. The credentials a handler uses come either from the
  form alone (no usable Basic header) or from the Basic header alone; a request that carries a Basic
  header together with a form secret, or with a different form client id, is refused.
\<close>

theorem clientCredentials_single_method:
  "(clientCredentials rq = None \<longleftrightarrow>
     (\<exists>i s. basicClientAuth rq = Some (i, s)
        \<and> (rq_form rq ''client_secret'' \<noteq> '''' \<or> rq_form rq ''client_id'' \<notin> {'''', i})))
   \<and> (clientCredentials rq = Some (i, s) \<longleftrightarrow>
     (basicClientAuth rq = None \<and> i = rq_form rq ''client_id'' \<and> s = rq_form rq ''client_secret'')
     \<or> (basicClientAuth rq = Some (i, s) \<and> rq_form rq ''client_secret'' = ''''
        \<and> rq_form rq ''client_id'' \<in> {'''', i}))"
  by (auto simp: clientCredentials_def Let_def split: option.splits if_splits)

theorem clientCredentials_single_method_witness:
  "clientCredentials \<lparr>rq_org = None, rq_query = noParams, rq_form = noParams(''client_id'' := ''app''),
     rq_authorization = ''Bearer x'', rq_user = ''''\<rparr> = Some (''app'', '''')"
  using clientCredentials_single_method [of "\<lparr>rq_org = None, rq_query = noParams,
      rq_form = noParams(''client_id'' := ''app''), rq_authorization = ''Bearer x'', rq_user = ''''\<rparr>"
      "''app''" "''''"]
  by (simp add: basicClientAuth_def noParams_def toLower_def toLowerChar_def isUpperAscii_def byteOf_def)

end
