(* ===== verification/OAuth_Authorize.thy ===== *)
theory OAuth_Authorize
  imports OAuth_Types
begin

text \<open>
  The authorization endpoint (\<^verbatim>\<open>internal/oauth/authorize.go\<close>): request parsing, the checks on
  client, redirect URI, response type, scope and PKCE, the stored authorization request in Redis, the
  issue of an authorization code after consent (\<^verbatim>\<open>handleAuthorizeConsentV2\<close> of
  \<^verbatim>\<open>service.go\<close>), and the PKCE verification routines.

  Parameters of the model: \<open>s256\<close>, the base64url text of the SHA-256 digest, and \<open>parseURL\<close>, which
  splits a URL into everything before the query and the decoded query values (\<^verbatim>\<open>net/url\<close>).
\<close>

unbundle bit_operations_syntax

section \<open>Requests, responses and state\<close>

record AuthorizeRequest =
  ar_ClientID :: string
  ar_RedirectURI :: string
  ar_ResponseType :: string
  ar_Scope :: string
  ar_State :: string
  ar_Nonce :: string
  ar_CodeChallenge :: string
  ar_CodeChallengeMethod :: string

datatype authz_error =
    ErrInvalidRequest | ErrUnauthorizedClient | ErrAccessDenied | ErrUnsupportedResponseType
  | ErrInvalidScope | ErrServerError | ErrInvalidPKCE

fun errorCode :: "authz_error \<Rightarrow> string" where
  "errorCode ErrInvalidRequest = ''invalid_request''"
| "errorCode ErrUnauthorizedClient = ''unauthorized_client''"
| "errorCode ErrAccessDenied = ''access_denied''"
| "errorCode ErrUnsupportedResponseType = ''unsupported_response_type''"
| "errorCode ErrInvalidScope = ''invalid_scope''"
| "errorCode ErrServerError = ''server_error''"
| "errorCode ErrInvalidPKCE = ''invalid_pkce''"

type_synonym url_values = "string \<Rightarrow> string list"
type_synonym url_parser = "string \<Rightarrow> (string \<times> url_values) option"

datatype authz_response =
    AuthzJSON nat string string
  | AuthzRedirect string url_values
  | AuthzLogin string string

section \<open>PKCE\<close>

definition isValidPKCEChar :: "char \<Rightarrow> bool" where
  "isValidPKCEChar c \<longleftrightarrow> isUpperAscii c \<or> isLowerAscii c \<or> isDigitAscii c
     \<or> c = CHR ''-'' \<or> c = CHR ''.'' \<or> c = CHR ''_'' \<or> c = CHR ''~''"

definition charByte :: "char \<Rightarrow> 8 word" where
  "charByte c = word_of_nat (byteOf c)"

text \<open>The loop of \<^verbatim>\<open>constantTimeStringCompare\<close>: the differences of all byte pairs are collected
  in one byte, without an early exit.\<close>

fun ctDiff :: "8 word \<Rightarrow> string \<Rightarrow> string \<Rightarrow> 8 word" where
  "ctDiff acc (x # xs) (y # ys) = ctDiff (acc OR (charByte x XOR charByte y)) xs ys"
| "ctDiff acc _ _ = acc"

definition constantTimeStringCompare :: "string \<Rightarrow> string \<Rightarrow> bool" where
  "constantTimeStringCompare a b = (if length a \<noteq> length b then False else ctDiff 0 a b = 0)"

definition ValidatePKCE :: "(string \<Rightarrow> string) \<Rightarrow> string \<Rightarrow> string \<Rightarrow> string \<Rightarrow> string + unit" where
  "ValidatePKCE s256 codeVerifier codeChallenge codeChallengeMethod =
     (if codeChallenge = '''' \<and> codeVerifier = '''' \<and> codeChallengeMethod = '''' then Inr ()
      else if codeVerifier = '''' then Inl ''code_verifier is required''
      else if codeChallenge = '''' then Inl ''code_challenge is required''
      else if length codeVerifier < 43 \<or> 128 < length codeVerifier then
        Inl ''code_verifier length must be between 43 and 128 characters''
      else if \<not> list_all isValidPKCEChar codeVerifier then
        Inl ''code_verifier contains invalid character''
      else if codeChallengeMethod \<noteq> ''S256'' \<and> codeChallengeMethod \<noteq> ''plain'' then
        Inl (''unsupported code_challenge_method: '' @ codeChallengeMethod)
      else let computedChallenge =
                 (if codeChallengeMethod = ''S256'' then s256 codeVerifier else codeVerifier)
           in if \<not> constantTimeStringCompare computedChallenge codeChallenge then
                Inl ''code_verifier does not match code_challenge''
              else Inr ())"

text \<open>The token endpoint's own check (\<^verbatim>\<open>service.go\<close>).\<close>

definition VerifyPKCE :: "(string \<Rightarrow> string) \<Rightarrow> string \<Rightarrow> string \<Rightarrow> string \<Rightarrow> bool" where
  "VerifyPKCE s256 codeVerifier codeChallenge meth =
     (if meth = ''S256'' then s256 codeVerifier = codeChallenge
      else codeVerifier = codeChallenge)"

section \<open>Validation\<close>

definition parseAuthorizeRequest :: "request \<Rightarrow> string + AuthorizeRequest" where
  "parseAuthorizeRequest rq =
     (let q = rq_query rq;
          req = \<lparr>ar_ClientID = q ''client_id'', ar_RedirectURI = q ''redirect_uri'',
                 ar_ResponseType = q ''response_type'', ar_Scope = q ''scope'',
                 ar_State = q ''state'', ar_Nonce = q ''nonce'',
                 ar_CodeChallenge = q ''code_challenge'',
                 ar_CodeChallengeMethod = q ''code_challenge_method''\<rparr>
      in if ar_ClientID req = '''' then Inl ''client_id is required''
         else if ar_RedirectURI req = '''' then Inl ''redirect_uri is required''
         else if ar_ResponseType req = '''' then Inl ''response_type is required''
         else if ar_CodeChallenge req \<noteq> '''' \<and> ar_CodeChallengeMethod req = '''' then
           Inr (req\<lparr>ar_CodeChallengeMethod := ''plain''\<rparr>)
         else Inr req)"

definition validateRedirectURI :: "OAuthClient \<Rightarrow> string \<Rightarrow> bool" where
  "validateRedirectURI client redirectURI = list_ex (\<lambda>u. u = redirectURI) (oc_RedirectURIs client)"

definition validateResponseType :: "OAuthClient \<Rightarrow> string \<Rightarrow> bool" where
  "validateResponseType client responseType =
     list_ex (\<lambda>t. t = responseType) (oc_ResponseTypes client)"

definition scopeAllowedForClient :: "OAuthClient option \<Rightarrow> string \<Rightarrow> bool" where
  "scopeAllowedForClient client scope =
     (if scope = '''' then True
      else (case client of
              None \<Rightarrow> False
            | Some c \<Rightarrow> list_all (\<lambda>requested. requested = '''' \<or>
                           list_ex (\<lambda>allowed. allowed = requested) (oc_Scopes c))
                         (splitOn CHR '' '' scope)))"

text \<open>\<^verbatim>\<open>base64.RawURLEncoding.DecodeString\<close> succeeds: line breaks are skipped, every other
  character is in the alphabet, and no single character is left over.\<close>

definition rawURLDecodable :: "string \<Rightarrow> bool" where
  "rawURLDecodable s =
     (let t = filter (\<lambda>c. byteOf c \<noteq> 10 \<and> byteOf c \<noteq> 13) s
      in list_all (\<lambda>c. isUpperAscii c \<or> isLowerAscii c \<or> isDigitAscii c
           \<or> c = CHR ''-'' \<or> c = CHR ''_'') t \<and> length t mod 4 \<noteq> 1)"

definition validatePKCEParameters ::
    "bool \<Rightarrow> OAuthClient \<Rightarrow> AuthorizeRequest \<Rightarrow> string + unit" where
  "validatePKCEParameters production client req =
     (let ch = ar_CodeChallenge req; m = ar_CodeChallengeMethod req in
      if oc_Type client = ''public'' \<and> ch = '''' then
        Inl ''code_challenge is required for public clients''
      else if ch \<noteq> '''' \<and> m \<noteq> '''' \<and> m \<noteq> ''S256'' \<and> m \<noteq> ''plain'' then
        Inl (''unsupported code_challenge_method: '' @ m)
      else if ch \<noteq> '''' \<and> m = ''plain'' \<and> production then
        Inl ''code_challenge_method plain is not allowed; use S256''
      else if ch \<noteq> '''' \<and> \<not> rawURLDecodable ch then
        Inl ''invalid code_challenge format: must be base64url-encoded''
      else if ch \<noteq> '''' \<and> (length ch < 43 \<or> 128 < length ch) then
        Inl ''code_challenge length must be between 43 and 128 characters''
      else Inr ())"

section \<open>Redirects and errors\<close>

definition setValue :: "string \<Rightarrow> string \<Rightarrow> url_values \<Rightarrow> url_values" where
  "setValue k v q = q(k := [v])"

definition BuildRedirectURI ::
    "url_parser \<Rightarrow> string \<Rightarrow> string \<Rightarrow> string \<Rightarrow> string \<Rightarrow> string \<Rightarrow> (string \<times> url_values) option" where
  "BuildRedirectURI parseURL baseURI code state errorCd errorDescription =
     (case parseURL baseURI of
        None \<Rightarrow> None
      | Some (base, query) \<Rightarrow>
          (let query1 = (if state \<noteq> '''' then setValue ''state'' state query else query);
               query2 =
                 (if code \<noteq> '''' then setValue ''code'' code query1
                  else if errorCd \<noteq> '''' then
                    (let e = setValue ''error'' errorCd query1
                     in if errorDescription \<noteq> ''''
                        then setValue ''error_description'' errorDescription e else e)
                  else query1)
           in Some (base, query2)))"

definition handleError ::
    "url_parser \<Rightarrow> AuthorizeRequest option \<Rightarrow> authz_error \<Rightarrow> string \<Rightarrow> authz_response" where
  "handleError parseURL req err description =
     (case req of
        None \<Rightarrow> AuthzJSON 400 (errorCode err) description
      | Some r \<Rightarrow>
          (if ar_RedirectURI r = '''' then AuthzJSON 400 (errorCode err) description
           else (case BuildRedirectURI parseURL (ar_RedirectURI r) '''' (ar_State r)
                        (errorCode err) description of
                   None \<Rightarrow> AuthzJSON 500 ''server_error'' ''''
                 | Some (base, q) \<Rightarrow> AuthzRedirect base q)))"

section \<open>The stored authorization request\<close>

definition authRequestKey :: "string \<Rightarrow> string" where
  "authRequestKey sessionID = ''auth_request:'' @ sessionID"

text \<open>\<^verbatim>\<open>HMSet\<close> adds the fields to whatever the hash holds and sets no expiry.\<close>

definition storeAuthorizationRequest ::
    "env \<Rightarrow> string \<Rightarrow> AuthorizeRequest \<Rightarrow> OAuthClient \<Rightarrow> oauth_state \<Rightarrow> oauth_error + oauth_state" where
  "storeAuthorizationRequest env sessionID req client s =
     (let key = authRequestKey sessionID;
          data = map_of
            [(''client_id'', ar_ClientID req), (''redirect_uri'', ar_RedirectURI req),
             (''response_type'', ar_ResponseType req), (''scope'', ar_Scope req),
             (''state'', ar_State req), (''nonce'', ar_Nonce req),
             (''code_challenge'', ar_CodeChallenge req),
             (''code_challenge_method'', ar_CodeChallengeMethod req),
             (''client_type'', oc_Type client)];
          old = (case redisGet (env_now env) (os_hashes s) key of None \<Rightarrow> Map.empty | Some h \<Rightarrow> h)
      in if env_fails env ''HMSet'' then Inl ErrDatabase
         else Inr (s\<lparr>os_hashes := redisSet key (old ++ data) (os_hashes s)\<rparr>))"

definition redirectToLogin :: "AuthorizeRequest \<Rightarrow> string \<Rightarrow> authz_response" where
  "redirectToLogin req sessionID = AuthzLogin sessionID (ar_RedirectURI req)"

definition HandleAuthorizeRequest ::
    "url_parser \<Rightarrow> env \<Rightarrow> request \<Rightarrow> oauth_state \<Rightarrow> authz_response \<times> oauth_state" where
  "HandleAuthorizeRequest parseURL env rq s =
     (case parseAuthorizeRequest rq of
        Inl msg \<Rightarrow> (handleError parseURL None ErrInvalidRequest msg, s)
      | Inr req \<Rightarrow>
          (case GetByClientID env (rq_org rq) (os_clients s) (ar_ClientID req) of
             Inl _ \<Rightarrow> (handleError parseURL (Some req) ErrUnauthorizedClient ''Invalid client'', s)
           | Inr client \<Rightarrow>
               (if \<not> validateRedirectURI client (ar_RedirectURI req) then
                  (handleError parseURL (Some req) ErrInvalidRequest ''Invalid redirect_uri'', s)
                else if \<not> validateResponseType client (ar_ResponseType req) then
                  (handleError parseURL (Some req) ErrUnsupportedResponseType
                     ''response_type not supported'', s)
                else if \<not> scopeAllowedForClient (Some client) (ar_Scope req) then
                  (handleError parseURL (Some req) ErrInvalidScope ''Invalid scope'', s)
                else (case validatePKCEParameters (env_production env) client req of
                        Inl msg \<Rightarrow> (handleError parseURL (Some req) ErrInvalidPKCE msg, s)
                      | Inr _ \<Rightarrow>
                          (let authSessionID = env_fresh env ''auth_session'' in
                           case storeAuthorizationRequest env authSessionID req client s of
                             Inl _ \<Rightarrow> (handleError parseURL (Some req) ErrServerError
                                         ''Failed to store request'', s)
                           | Inr s' \<Rightarrow> (redirectToLogin req authSessionID, s'))))))"

text \<open>\<^verbatim>\<open>HMGet\<close> of the listed fields: a missing key gives a list of missing fields. The code tests the
  first field only and then asserts that the others are strings, which panics on a missing one.\<close>

definition hmGet :: "int \<Rightarrow> (string \<rightharpoonup> string) redis \<Rightarrow> string \<Rightarrow> string list \<Rightarrow> string option list" where
  "hmGet now m key fs =
     (case redisGet now m key of None \<Rightarrow> map (\<lambda>_. None) fs | Some h \<Rightarrow> map h fs)"

definition GetStoredAuthorizationRequest ::
    "env \<Rightarrow> string \<Rightarrow> oauth_state \<Rightarrow> oauth_error + AuthorizeRequest" where
  "GetStoredAuthorizationRequest env sessionID s =
     (if env_fails env ''HMGet'' then Inl ErrDatabase
      else (case hmGet (env_now env) (os_hashes s) (authRequestKey sessionID)
              [''client_id'', ''redirect_uri'', ''response_type'', ''scope'', ''state'', ''nonce'',
               ''code_challenge'', ''code_challenge_method''] of
              [Some a, Some b, Some c, Some d, Some e, Some f, Some g, Some h] \<Rightarrow>
                Inr \<lparr>ar_ClientID = a, ar_RedirectURI = b, ar_ResponseType = c, ar_Scope = d,
                     ar_State = e, ar_Nonce = f, ar_CodeChallenge = g, ar_CodeChallengeMethod = h\<rparr>
            | None # _ \<Rightarrow> Inl (ErrMessage ''authorization request not found or expired'')
            | _ \<Rightarrow> Inl Panic))"

section \<open>Authorization codes\<close>

definition CreateAuthorizationCode ::
    "env \<Rightarrow> Org option \<Rightarrow> AuthorizationCode \<Rightarrow> oauth_state \<Rightarrow> oauth_error + oauth_state" where
  "CreateAuthorizationCode env org code s =
     (case org of
        None \<Rightarrow> Inl ErrNoOrgContext
      | Some o' \<Rightarrow>
          (let code' = code\<lparr>ac_ExpiresAt := env_now env + 10 * minute, ac_CreatedAt := env_now env\<rparr>
           in if env_fails env ''CreateAuthorizationCode'' then Inl ErrDatabase
              else Inr (s\<lparr>os_codes := os_codes s @ [(org_ID o', code')]\<rparr>)))"

definition codeSessionKey :: "string \<Rightarrow> string" where
  "codeSessionKey code = ''authcode_session:'' @ code"

text \<open>The Redis writes after the insert are best effort: their errors are not read.\<close>

definition IssueAuthorizationCode ::
    "env \<Rightarrow> Org option \<Rightarrow> string \<Rightarrow> string \<Rightarrow> string \<Rightarrow> oauth_state
       \<Rightarrow> (oauth_error + string) \<times> oauth_state" where
  "IssueAuthorizationCode env org sessionID userID sessionIDExtra s =
     (if env_fails env ''HMGet'' then (Inl ErrDatabase, s)
      else (case hmGet (env_now env) (os_hashes s) (authRequestKey sessionID)
              [''client_id'', ''redirect_uri'', ''scope'', ''state'', ''nonce'', ''code_challenge'',
               ''code_challenge_method''] of
              [Some a, Some b, Some c, Some d, Some e, Some f, Some g] \<Rightarrow>
                (let code = env_fresh env ''authorization_code'';
                     authCode = \<lparr>ac_Code = code, ac_ClientID = a, ac_UserID = userID,
                       ac_RedirectURI = b, ac_Scope = c, ac_State = d, ac_Nonce = e,
                       ac_CodeChallenge = f, ac_CodeChallengeMethod = g,
                       ac_ExpiresAt = env_now env + 10 * minute, ac_CreatedAt = env_now env\<rparr>
                 in if length code < 43 then (Inl (ErrMessage ''generated code is too short''), s)
                    else (case CreateAuthorizationCode env org authCode s of
                            Inl er \<Rightarrow> (Inl er, s)
                          | Inr s1 \<Rightarrow>
                              (let s2 = (if sessionIDExtra \<noteq> '''' \<and> \<not> env_fails env ''Set''
                                         then s1\<lparr>os_keys := redisSetEx (env_now env) (5 * minute)
                                                (codeSessionKey code) sessionIDExtra (os_keys s1)\<rparr>
                                         else s1);
                                   s3 = (if env_fails env ''Del'' then s2
                                         else s2\<lparr>os_hashes := redisDel (authRequestKey sessionID)
                                                (os_hashes s2)\<rparr>)
                               in (Inr code, s3))))
            | None # _ \<Rightarrow> (Inl (ErrMessage ''authorization request not found or expired''), s)
            | _ \<Rightarrow> (Inl Panic, s)))"

datatype consent_response =
    ConsentJSON nat string
  | ConsentCode "string \<times> url_values" string

definition handleAuthorizeConsentV2 ::
    "url_parser \<Rightarrow> env \<Rightarrow> request \<Rightarrow> oauth_state \<Rightarrow> consent_response \<times> oauth_state" where
  "handleAuthorizeConsentV2 parseURL env rq s =
     (if rq_user rq = '''' then (ConsentJSON 401 ''unauthorized'', s)
      else if rq_form rq ''auth_session'' = '''' then (ConsentJSON 400 ''invalid_request'', s)
      else (case IssueAuthorizationCode env (rq_org rq) (rq_form rq ''auth_session'') (rq_user rq)
                   (rq_form rq ''session_id'') s of
              (Inl _, s1) \<Rightarrow> (ConsentJSON 500 ''server_error'', s1)
            | (Inr code, s1) \<Rightarrow>
                (case GetStoredAuthorizationRequest env (rq_form rq ''auth_session'') s1 of
                   Inl _ \<Rightarrow> (ConsentJSON 500 ''server_error'', s1)
                 | Inr authReq \<Rightarrow>
                     (case BuildRedirectURI parseURL (ar_RedirectURI authReq) code
                             (ar_State authReq) '''' '''' of
                        None \<Rightarrow> (ConsentJSON 500 ''server_error'', s1)
                      | Some r \<Rightarrow> (ConsentCode r code, s1)))))"

section \<open>PKCE properties\<close>

lemma charByte_eq_iff [simp]: "charByte x = charByte y \<longleftrightarrow> x = y"
proof -
  have "unat (charByte c) = byteOf c" for c
    using byteOf_less [of c] by (simp add: charByte_def unsigned_of_nat take_bit_nat_eq_self)
  then show ?thesis by (metis byteOf_eq_iff)
qed

lemma word_or_eq_0_iff: "(a OR b) = (0 :: 8 word) \<longleftrightarrow> a = 0 \<and> b = 0"
  by (fact or_eq_0_iff)

lemma word_xor_eq_0_iff: "(a XOR b) = (0 :: 8 word) \<longleftrightarrow> a = b"
proof
  assume "a XOR b = 0"
  then have "(a XOR b) XOR b = 0 XOR b" by simp
  then show "a = b" by (simp add: xor.assoc)
qed simp

lemma ctDiff_eq_0:
  "length a = length b \<Longrightarrow> ctDiff acc a b = 0 \<longleftrightarrow> acc = 0 \<and> a = b"
  by (induction acc a b rule: ctDiff.induct)
     (auto simp: word_or_eq_0_iff word_xor_eq_0_iff)

lemma constantTimeStringCompare_eq: "constantTimeStringCompare a b \<longleftrightarrow> a = b"
  by (auto simp: constantTimeStringCompare_def ctDiff_eq_0)


section \<open>The authorization endpoint\<close>

lemma parseAuthorizeRequest_method:
  "parseAuthorizeRequest rq = Inr req \<Longrightarrow> ar_CodeChallenge req \<noteq> ''''
    \<Longrightarrow> ar_CodeChallengeMethod req \<noteq> ''''"
  by (auto simp: parseAuthorizeRequest_def Let_def split: if_splits)

lemma parseAuthorizeRequest_present:
  "parseAuthorizeRequest rq = Inr req \<Longrightarrow> ar_ClientID req = rq_query rq ''client_id''
    \<and> ar_RedirectURI req = rq_query rq ''redirect_uri'' \<and> ar_RedirectURI req \<noteq> ''''
    \<and> ar_State req = rq_query rq ''state''"
  by (auto simp: parseAuthorizeRequest_def Let_def split: if_splits)

lemma validatePKCEParameters_production:
  assumes "validatePKCEParameters True client req = Inr ()"
    and "ar_CodeChallenge req \<noteq> ''''" and "ar_CodeChallengeMethod req \<noteq> ''''"
  shows "ar_CodeChallengeMethod req = ''S256''"
  using assms by (auto simp: validatePKCEParameters_def Let_def split: if_splits)

lemma validatePKCEParameters_public:
  "validatePKCEParameters p client req = Inr () \<Longrightarrow> oc_Type client = ''public''
    \<Longrightarrow> ar_CodeChallenge req \<noteq> ''''"
  by (auto simp: validatePKCEParameters_def Let_def split: if_splits)

lemma handleError_not_login [simp]: "handleError parseURL req er d \<noteq> AuthzLogin i u"
  by (auto simp: handleError_def split: option.splits)

text \<open>Everything the endpoint demands of a request before it sends the user to log in.\<close>

definition authorizeAccepts :: "env \<Rightarrow> request \<Rightarrow> oauth_state \<Rightarrow> AuthorizeRequest \<Rightarrow> OAuthClient \<Rightarrow> bool" where
  "authorizeAccepts env rq s req client \<longleftrightarrow>
     parseAuthorizeRequest rq = Inr req
     \<and> GetByClientID env (rq_org rq) (os_clients s) (ar_ClientID req) = Inr client
     \<and> ar_RedirectURI req \<in> set (oc_RedirectURIs client)
     \<and> ar_ResponseType req \<in> set (oc_ResponseTypes client)
     \<and> scopeAllowedForClient (Some client) (ar_Scope req)
     \<and> validatePKCEParameters (env_production env) client req = Inr ()"

lemma HandleAuthorizeRequest_login_iff:
  "HandleAuthorizeRequest parseURL env rq s = (AuthzLogin sid uri, s') \<longleftrightarrow>
     (\<exists>req client. authorizeAccepts env rq s req client \<and> sid = env_fresh env ''auth_session''
        \<and> uri = ar_RedirectURI req \<and> storeAuthorizationRequest env sid req client s = Inr s')"
  by (auto simp: HandleAuthorizeRequest_def authorizeAccepts_def validateRedirectURI_def
      validateResponseType_def redirectToLogin_def list_ex_iff Let_def
      split: sum.splits if_splits)

lemma scopeAllowedForClient_split:
  "scopeAllowedForClient (Some client) sc \<longleftrightarrow>
     set (splitOn CHR '' '' sc) \<subseteq> insert '''' (set (oc_Scopes client))"
  by (auto simp: scopeAllowedForClient_def list_all_iff list_ex_iff)

lemma storeAuthorizationRequest_roundtrip:
  assumes "storeAuthorizationRequest env sid req client s = Inr s'" and "\<not> env_fails env' ''HMGet''"
  shows "GetStoredAuthorizationRequest env' sid s' = Inr req"
  using assms
  by (auto simp: storeAuthorizationRequest_def GetStoredAuthorizationRequest_def hmGet_def Let_def
      split: if_splits)

text \<open>
  What reaches the login page. The endpoint redirects to login only for a client of the caller's
  tenant, a redirect URI and a response type registered for that client, scopes the client is allowed,
  and acceptable PKCE parameters: a public client always carries a challenge, and in production a
  challenge always uses S256. The request it stored is then read back unchanged, however late it is
  read.
\<close>

theorem HandleAuthorizeRequest_login:
  assumes "HandleAuthorizeRequest parseURL env rq s = (AuthzLogin sid uri, s')"
  shows "\<exists>req client a. rq_org rq = Some a \<and> (org_ID a, client) \<in> set (os_clients s)
     \<and> oc_ClientID client = rq_query rq ''client_id''
     \<and> uri = ar_RedirectURI req \<and> uri \<in> set (oc_RedirectURIs client)
     \<and> ar_ResponseType req \<in> set (oc_ResponseTypes client)
     \<and> set (splitOn CHR '' '' (ar_Scope req)) \<subseteq> insert '''' (set (oc_Scopes client))
     \<and> (oc_Type client = ''public'' \<longrightarrow> ar_CodeChallenge req \<noteq> '''')
     \<and> (env_production env \<and> ar_CodeChallenge req \<noteq> '''' \<longrightarrow> ar_CodeChallengeMethod req = ''S256'')
     \<and> (\<forall>env'. \<not> env_fails env' ''HMGet'' \<longrightarrow> GetStoredAuthorizationRequest env' sid s' = Inr req)"
proof -
  from assms obtain req client where acc: "authorizeAccepts env rq s req client"
    and uri: "uri = ar_RedirectURI req"
    and st: "storeAuthorizationRequest env sid req client s = Inr s'"
    by (auto simp: HandleAuthorizeRequest_login_iff)
  from acc obtain a where a: "rq_org rq = Some a" "(org_ID a, client) \<in> set (os_clients s)"
      "oc_ClientID client = ar_ClientID req"
    by (auto simp: authorizeAccepts_def dest: GetByClientID_Inr)
  have prod: "ar_CodeChallengeMethod req = ''S256''"
    if "env_production env" "ar_CodeChallenge req \<noteq> ''''"
  proof (rule validatePKCEParameters_production [OF _ that(2)])
    show "validatePKCEParameters True client req = Inr ()"
      using acc that(1) by (simp add: authorizeAccepts_def)
    show "ar_CodeChallengeMethod req \<noteq> ''''"
      using acc that(2) parseAuthorizeRequest_method unfolding authorizeAccepts_def by blast
  qed
  have rt: "\<forall>env'. \<not> env_fails env' ''HMGet'' \<longrightarrow> GetStoredAuthorizationRequest env' sid s' = Inr req"
    using st storeAuthorizationRequest_roundtrip by blast
  have pub: "oc_Type client = ''public'' \<longrightarrow> ar_CodeChallenge req \<noteq> ''''"
    using acc validatePKCEParameters_public unfolding authorizeAccepts_def by blast
  have "ar_ClientID req = rq_query rq ''client_id''"
    using acc parseAuthorizeRequest_present unfolding authorizeAccepts_def by blast
  with a have cid: "oc_ClientID client = rq_query rq ''client_id''" by simp
  have "uri \<in> set (oc_RedirectURIs client)" "ar_ResponseType req \<in> set (oc_ResponseTypes client)"
      "set (splitOn CHR '' '' (ar_Scope req)) \<subseteq> insert '''' (set (oc_Scopes client))"
    using acc uri by (simp_all add: authorizeAccepts_def scopeAllowedForClient_split)
  with a cid uri prod pub rt show ?thesis by blast
qed

definition demoState :: oauth_state where
  "demoState = \<lparr>os_clients = [(''acme'', demoClient ''app'' ''confidential'')], os_codes = [],
     os_refresh = [], os_hashes = (\<lambda>_. None), os_keys = (\<lambda>_. None), os_sso = [], os_consents = [],
     os_sessions = [], os_devices = [], os_directory = \<lparr>di_users = [], di_roles = [], di_userRoles = [],
       di_groups = [], di_memberships = [], di_permissions = [], di_rolePermissions = []\<rparr>,
     os_breaker = None\<rparr>"

definition demoAuthorize :: request where
  "demoAuthorize = \<lparr>rq_org = Some (demoOrg ''acme''),
     rq_query = noParams(''client_id'' := ''app'', ''redirect_uri'' := ''https://app/cb'',
       ''response_type'' := ''code'', ''scope'' := ''openid''),
     rq_form = noParams, rq_authorization = '''', rq_user = ''''\<rparr>"

lemma demoAuthorize_run:
  "fst (HandleAuthorizeRequest (\<lambda>_. None) demoEnv demoAuthorize demoState)
     = AuthzLogin ''fresh-auth_session'' ''https://app/cb''"
  by (simp add: HandleAuthorizeRequest_def parseAuthorizeRequest_def demoAuthorize_def noParams_def
      GetByClientID_def demoState_def demoEnv_def demoOrg_def demoClient_def validateRedirectURI_def
      validateResponseType_def scopeAllowedForClient_def validatePKCEParameters_def
      storeAuthorizationRequest_def redirectToLogin_def Let_def)

theorem HandleAuthorizeRequest_login_witness:
  "\<exists>s'. HandleAuthorizeRequest (\<lambda>_. None) demoEnv demoAuthorize demoState
      = (AuthzLogin ''fresh-auth_session'' ''https://app/cb'', s')
    \<and> (\<exists>req. GetStoredAuthorizationRequest demoEnv ''fresh-auth_session'' s' = Inr req
          \<and> ar_RedirectURI req = ''https://app/cb'')"
proof -
  obtain s' where run: "HandleAuthorizeRequest (\<lambda>_. None) demoEnv demoAuthorize demoState
      = (AuthzLogin ''fresh-auth_session'' ''https://app/cb'', s')"
    using demoAuthorize_run by (cases "HandleAuthorizeRequest (\<lambda>_. None) demoEnv demoAuthorize demoState") simp
  have "\<not> env_fails demoEnv ''HMGet''" by (simp add: demoEnv_def)
  then obtain req where "GetStoredAuthorizationRequest demoEnv ''fresh-auth_session'' s' = Inr req"
      "ar_RedirectURI req = ''https://app/cb''"
    using HandleAuthorizeRequest_login [OF run] by auto
  with run show ?thesis by blast
qed

text \<open>
  An open redirect. When the client is unknown or the redirect URI is not registered for it, the
  endpoint still redirects the browser to the redirect URI of the request, adding only the error and
  the state; RFC 6749, section 4.1.2.1, asks it not to.
\<close>

theorem HandleAuthorizeRequest_open_redirect:
  assumes "parseAuthorizeRequest rq = Inr req"
    and "GetByClientID env (rq_org rq) (os_clients s) (ar_ClientID req) = Inl er
         \<or> (GetByClientID env (rq_org rq) (os_clients s) (ar_ClientID req) = Inr client
             \<and> ar_RedirectURI req \<notin> set (oc_RedirectURIs client))"
    and "parseURL (ar_RedirectURI req) = Some (base, q)"
  shows "\<exists>q'. HandleAuthorizeRequest parseURL env rq s = (AuthzRedirect base q', s)
           \<and> (\<forall>k. k \<notin> {''state'', ''error'', ''error_description''} \<longrightarrow> q' k = q k)"
proof -
  have "ar_RedirectURI req \<noteq> ''''" using assms(1) parseAuthorizeRequest_present by blast
  then have "\<exists>q'. handleError parseURL (Some req) e d = AuthzRedirect base q'
      \<and> (\<forall>k. k \<notin> {''state'', ''error'', ''error_description''} \<longrightarrow> q' k = q k)" for e d
    using assms(3) by (simp add: handleError_def BuildRedirectURI_def setValue_def Let_def)
  with assms(1,2) show ?thesis
    by (auto simp: HandleAuthorizeRequest_def validateRedirectURI_def list_ex_iff)
qed

definition demoPhish :: request where
  "demoPhish = demoAuthorize\<lparr>rq_query := noParams(''client_id'' := ''nobody'',
     ''redirect_uri'' := ''https://evil'', ''response_type'' := ''code'')\<rparr>"

theorem HandleAuthorizeRequest_open_redirect_witness:
  "\<exists>q'. HandleAuthorizeRequest (\<lambda>u. Some (u, \<lambda>_. [])) demoEnv demoPhish demoState
      = (AuthzRedirect ''https://evil'' q', demoState)"
proof -
  let ?req = "\<lparr>ar_ClientID = ''nobody'', ar_RedirectURI = ''https://evil'', ar_ResponseType = ''code'',
      ar_Scope = '''', ar_State = '''', ar_Nonce = '''', ar_CodeChallenge = '''',
      ar_CodeChallengeMethod = ''''\<rparr>"
  have p: "parseAuthorizeRequest demoPhish = Inr ?req"
    by (simp add: parseAuthorizeRequest_def demoPhish_def demoAuthorize_def noParams_def Let_def)
  have g: "GetByClientID demoEnv (rq_org demoPhish) (os_clients demoState) (ar_ClientID ?req)
      = Inl ErrOAuthClientNotFound"
    by (simp add: GetByClientID_def demoPhish_def demoAuthorize_def demoState_def demoEnv_def
        demoOrg_def demoClient_def)
  show ?thesis
    using HandleAuthorizeRequest_open_redirect [OF p disjI1 [OF g],
        of "\<lambda>u. Some (u, \<lambda>_. [])" "''https://evil''" "\<lambda>_. []"]
    by auto
qed

section \<open>Consent\<close>

lemma GetStoredAuthorizationRequest_missing:
  "os_hashes s (authRequestKey sid) = None \<Longrightarrow> GetStoredAuthorizationRequest env sid s \<noteq> Inr req"
  by (simp add: GetStoredAuthorizationRequest_def hmGet_def redisGet_def)

lemma IssueAuthorizationCode_Inr:
  assumes "IssueAuthorizationCode env org sid uid sx s = (Inr code, s')" and "\<not> env_fails env ''Del''"
  shows "os_hashes s' (authRequestKey sid) = None"
  using assms
  by (auto simp: IssueAuthorizationCode_def CreateAuthorizationCode_def redisDel_def Let_def
      split: if_splits option.splits list.splits sum.splits)

text \<open>
  The version 2 consent endpoint never succeeds while Redis works. Issuing the code deletes the
  stored authorization request, and the handler then reads that request again to build the redirect:
  every authenticated submission is answered with status 500, and the state keeps whatever code was
  just stored, which no client ever learns.
\<close>

theorem handleAuthorizeConsentV2_always_fails:
  assumes "\<not> env_fails env ''Del''" and "rq_user rq \<noteq> ''''" and "rq_form rq ''auth_session'' \<noteq> ''''"
  shows "handleAuthorizeConsentV2 parseURL env rq s =
     (ConsentJSON 500 ''server_error'',
      snd (IssueAuthorizationCode env (rq_org rq) (rq_form rq ''auth_session'') (rq_user rq)
             (rq_form rq ''session_id'') s))"
proof -
  let ?sid = "rq_form rq ''auth_session''"
  obtain res s1 where issue: "IssueAuthorizationCode env (rq_org rq) ?sid (rq_user rq)
      (rq_form rq ''session_id'') s = (res, s1)" by fastforce
  have no: "GetStoredAuthorizationRequest env ?sid s1 \<noteq> Inr req" if "res = Inr code" for req code
    using IssueAuthorizationCode_Inr [OF issue [unfolded that] assms(1)]
      GetStoredAuthorizationRequest_missing by blast
  show ?thesis
    using assms(2,3) issue no
    by (cases res) (auto simp: handleAuthorizeConsentV2_def split: sum.splits)
qed

definition demoLongEnv :: env where
  "demoLongEnv = demoEnv\<lparr>env_fresh := (\<lambda>w. replicate 43 CHR ''a'')\<rparr>"

definition demoConsentRequest :: request where
  "demoConsentRequest =
     demoAuthorize\<lparr>rq_user := ''u1'', rq_form := noParams(''auth_session'' := ''x'')\<rparr>"

definition demoStoredState :: oauth_state where
  "demoStoredState = demoState\<lparr>os_hashes := redisSet (authRequestKey ''x'') (\<lambda>_. Some ''v'') (\<lambda>_. None)\<rparr>"

theorem handleAuthorizeConsentV2_always_fails_witness:
  "\<exists>s'. handleAuthorizeConsentV2 (\<lambda>u. Some (u, \<lambda>_. [])) demoLongEnv demoConsentRequest demoStoredState
      = (ConsentJSON 500 ''server_error'', s')
    \<and> os_codes s' \<noteq> []"
proof -
  have "os_codes (snd (IssueAuthorizationCode demoLongEnv (rq_org demoConsentRequest)
      (rq_form demoConsentRequest ''auth_session'') (rq_user demoConsentRequest)
      (rq_form demoConsentRequest ''session_id'') demoStoredState)) \<noteq> []"
    by (simp add: IssueAuthorizationCode_def demoLongEnv_def demoEnv_def demoConsentRequest_def
        demoAuthorize_def demoStoredState_def hmGet_def CreateAuthorizationCode_def Let_def noParams_def)
  moreover have "\<not> env_fails demoLongEnv ''Del''" "rq_user demoConsentRequest \<noteq> ''''"
      "rq_form demoConsentRequest ''auth_session'' \<noteq> ''''"
    by (simp_all add: demoLongEnv_def demoEnv_def demoConsentRequest_def)
  ultimately show ?thesis
    using handleAuthorizeConsentV2_always_fails
      [of demoLongEnv demoConsentRequest "\<lambda>u. Some (u, \<lambda>_. [])" demoStoredState] by blast
qed

end
