(* ===== verification/OAuth_Consent.thy ===== *)
theory OAuth_Consent
  imports OAuth_Authorize
begin

text \<open>
  User consent (\<^verbatim>\<open>internal/oauth/consent.go\<close>) and the issue of an authorization code at the end of
  the interactive login (\<^verbatim>\<open>issueAuthorizationCode\<close>, \<^verbatim>\<open>handleAuthorizeConsent\<close> and
  \<^verbatim>\<open>handleAuthorize\<close> of \<^verbatim>\<open>service.go\<close>).

  The OAuth parameters of a flow are a map of strings, as in the code; a missing key reads as the empty
  string. They are stored in Redis as JSON, which is the map itself here. A URL that does not parse
  makes the code use a nil pointer: that branch is the panic the server answers with status 500.
\<close>

section \<open>Scopes\<close>

type_synonym params = "string \<rightharpoonup> string"

definition param :: "params \<Rightarrow> string \<Rightarrow> string" where
  "param m k = (case m k of None \<Rightarrow> '''' | Some v \<Rightarrow> v)"

definition scopesCovered :: "string \<Rightarrow> string \<Rightarrow> bool" where
  "scopesCovered granted requested =
     list_all (\<lambda>r. r \<in> set (stringFields granted)) (stringFields requested)"

text \<open>The loop keeps the words not seen before.\<close>

fun addUnseen :: "string list \<Rightarrow> string list \<Rightarrow> string list" where
  "addUnseen seen [] = []"
| "addUnseen seen (w # ws) =
     (if w \<in> set seen then addUnseen seen ws else w # addUnseen (w # seen) ws)"

definition mergeScopes :: "string \<Rightarrow> string \<Rightarrow> string" where
  "mergeScopes a b = joinWith '' '' (addUnseen [] (stringFields a @ stringFields b))"

section \<open>The consent record\<close>

definition requireConsentOf :: "string \<Rightarrow> string \<Rightarrow> oauth_state \<Rightarrow> bool option" where
  "requireConsentOf orgID clientID s =
     map_option (\<lambda>(_, _, r). r) (find (\<lambda>(oid, cid, _). cid = clientID \<and> oid = orgID) (os_sso s))"

definition grantedScopes :: "string \<Rightarrow> string \<Rightarrow> string \<Rightarrow> oauth_state \<Rightarrow> string option" where
  "grantedScopes orgID userID clientID s =
     map_option snd (find (\<lambda>(k, _). k = (orgID, userID, clientID)) (os_consents s))"

text \<open>Every query error, a missing row included, leaves the function without an error.\<close>

definition consentRequired ::
    "env \<Rightarrow> Org option \<Rightarrow> string \<Rightarrow> string \<Rightarrow> string \<Rightarrow> oauth_state \<Rightarrow> oauth_error + bool" where
  "consentRequired env org clientID userID scope s =
     (if clientID = '''' \<or> userID = '''' then Inr False
      else (case org of
              None \<Rightarrow> Inr False
            | Some o' \<Rightarrow>
                (case (if env_fails env ''requireConsent'' then None
                       else requireConsentOf (org_ID o') clientID s) of
                   None \<Rightarrow> Inr False
                 | Some False \<Rightarrow> Inr False
                 | Some True \<Rightarrow>
                     (case (if env_fails env ''grantedScopes'' then None
                            else grantedScopes (org_ID o') userID clientID s) of
                        None \<Rightarrow> Inr True
                      | Some granted \<Rightarrow>
                          (if scopesCovered granted scope then Inr False else Inr True)))))"

definition upsertConsent ::
    "string \<times> string \<times> string \<Rightarrow> string
       \<Rightarrow> ((string \<times> string \<times> string) \<times> string) list \<Rightarrow> ((string \<times> string \<times> string) \<times> string) list" where
  "upsertConsent key scopes tbl =
     (if list_ex (\<lambda>(k, _). k = key) tbl
      then updateWhere (\<lambda>(k, _). k = key) (\<lambda>(k, _). (k, scopes)) tbl
      else tbl @ [(key, scopes)])"

definition recordConsent ::
    "env \<Rightarrow> Org option \<Rightarrow> string \<Rightarrow> string \<Rightarrow> string \<Rightarrow> oauth_state \<Rightarrow> oauth_error + oauth_state" where
  "recordConsent env org clientID userID scope s =
     (case org of
        None \<Rightarrow> Inl ErrNoOrgContext
      | Some o' \<Rightarrow>
          (let existing = (case (if env_fails env ''grantedScopes'' then None
                                 else grantedScopes (org_ID o') userID clientID s) of
                             None \<Rightarrow> '''' | Some e \<Rightarrow> e);
               merged = mergeScopes existing scope
           in if env_fails env ''recordConsent'' then Inl ErrDatabase
              else Inr (s\<lparr>os_consents :=
                     upsertConsent (org_ID o', userID, clientID) merged (os_consents s)\<rparr>)))"

section \<open>Handlers\<close>

datatype flow_response =
    FlowError nat string
  | FlowConsent string string string "string list"
  | FlowRedirect string url_values
  | FlowLoginPage string
  | FlowPanic

definition dbErrorStatus :: "env \<Rightarrow> flow_response" where
  "dbErrorStatus env = (if env_fails env ''unavailable'' then FlowError 503 ''temporarily_unavailable''
                        else FlowError 500 ''server_error'')"

definition writeServerOrUnavailable :: "env \<Rightarrow> oauth_error \<Rightarrow> flow_response" where
  "writeServerOrUnavailable env er =
     (case er of ErrDatabase \<Rightarrow> dbErrorStatus env | _ \<Rightarrow> FlowError 500 ''server_error'')"

definition consentKey :: "string \<Rightarrow> string" where
  "consentKey t = ''oauth_consent:'' @ t"

text \<open>The parameters are copied over the subject, so a parameter named \<^verbatim>\<open>user_id\<close> would replace it.\<close>

definition beginConsent ::
    "env \<Rightarrow> Org option \<Rightarrow> params \<Rightarrow> string \<Rightarrow> oauth_state \<Rightarrow> flow_response \<times> oauth_state" where
  "beginConsent env org oauthParams userID s =
     (let token = env_fresh env ''consent'';
          stash = [''user_id'' \<mapsto> userID] ++ oauthParams;
          cid = param oauthParams ''client_id''
      in if env_fails env ''Set'' then (FlowError 500 ''server_error'', s)
         else (let clientName = (case GetByClientID env org (os_clients s) cid of
                     Inr client \<Rightarrow> if oc_Name client \<noteq> '''' then oc_Name client else cid
                   | Inl _ \<Rightarrow> cid)
               in (FlowConsent token cid clientName (stringFields (param oauthParams ''scope'')),
                   s\<lparr>os_hashes := redisSetEx (env_now env) (5 * minute) (consentKey token) stash
                                   (os_hashes s)\<rparr>)))"

definition paramsCode :: "env \<Rightarrow> params \<Rightarrow> string \<Rightarrow> AuthorizationCode" where
  "paramsCode env p userID =
     \<lparr>ac_Code = env_fresh env ''authorization_code'', ac_ClientID = param p ''client_id'',
      ac_UserID = userID, ac_RedirectURI = param p ''redirect_uri'', ac_Scope = param p ''scope'',
      ac_State = param p ''state'', ac_Nonce = param p ''nonce'',
      ac_CodeChallenge = param p ''code_challenge'',
      ac_CodeChallengeMethod = param p ''code_challenge_method'', ac_ExpiresAt = 0, ac_CreatedAt = 0\<rparr>"

definition codeRedirect :: "url_parser \<Rightarrow> string \<Rightarrow> string \<Rightarrow> string \<Rightarrow> flow_response" where
  "codeRedirect parseURL redirectURI code state =
     (case parseURL redirectURI of
        None \<Rightarrow> FlowPanic
      | Some (base, query) \<Rightarrow>
          (let query1 = setValue ''code'' code query
           in FlowRedirect base (if state \<noteq> '''' then setValue ''state'' state query1 else query1)))"

definition issueAuthorizationCode ::
    "url_parser \<Rightarrow> env \<Rightarrow> Org option \<Rightarrow> params \<Rightarrow> string \<Rightarrow> oauth_state \<Rightarrow> flow_response \<times> oauth_state" where
  "issueAuthorizationCode parseURL env org oauthParams userID s =
     (case (if param oauthParams ''consent_granted'' \<noteq> ''true''
            then consentRequired env org (param oauthParams ''client_id'') userID
                   (param oauthParams ''scope'') s
            else Inr False) of
        Inl _ \<Rightarrow> (FlowError 500 ''server_error'', s)
      | Inr True \<Rightarrow> beginConsent env org oauthParams userID s
      | Inr False \<Rightarrow>
          (let code = env_fresh env ''authorization_code'' in
           case CreateAuthorizationCode env org (paramsCode env oauthParams userID) s of
             Inl er \<Rightarrow> (writeServerOrUnavailable env er, s)
           | Inr s1 \<Rightarrow>
               (let sid = param oauthParams ''session_id'';
                    s2 = (if sid \<noteq> '''' \<and> \<not> env_fails env ''Set''
                          then s1\<lparr>os_keys := redisSetEx (env_now env) (5 * minute)
                                 (codeSessionKey code) sid (os_keys s1)\<rparr>
                          else s1)
                in (codeRedirect parseURL (param oauthParams ''redirect_uri'') code
                      (param oauthParams ''state''), s2))))"

definition isValidBase64URLToken :: "string \<Rightarrow> bool" where
  "isValidBase64URLToken t =
     (if length t < 32 \<or> 128 < length t then False
      else (let padding = min 2 (length (takeWhile (\<lambda>c. c = CHR ''='') (rev t)))
            in list_all (\<lambda>c. isUpperAscii c \<or> isLowerAscii c \<or> isDigitAscii c \<or> c = CHR ''-''
                 \<or> c = CHR ''_'') (take (length t - padding) t)))"

text \<open>\<open>isUUID\<close> is the regular expression \<^verbatim>\<open>validUUIDPattern\<close>: five groups of lower-case hexadecimal digits.\<close>

definition isUUID :: "string \<Rightarrow> bool" where
  "isUUID t \<longleftrightarrow> map length (splitOn CHR ''-'' t) = [8, 4, 4, 4, 12]
     \<and> list_all (list_all (\<lambda>c. isDigitAscii c \<or> (97 \<le> byteOf c \<and> byteOf c \<le> 102))) (splitOn CHR ''-'' t)"

definition isValidSessionID :: "string \<Rightarrow> bool" where
  "isValidSessionID sessionID =
     (if length sessionID = 36 \<and> isUUID sessionID then True else isValidBase64URLToken sessionID)"

text \<open>The body is the decoded JSON (\<open>None\<close> when it does not decode): consent session and decision.\<close>

definition handleConsentDecision ::
    "url_parser \<Rightarrow> env \<Rightarrow> Org option \<Rightarrow> (string \<times> bool) option \<Rightarrow> oauth_state
       \<Rightarrow> flow_response \<times> oauth_state" where
  "handleConsentDecision parseURL env org body s =
     (case body of
        None \<Rightarrow> (FlowError 400 ''invalid_request'', s)
      | Some (consentSession, approve) \<Rightarrow>
          (if consentSession = '''' then (FlowError 400 ''invalid_request'', s)
           else if \<not> isValidSessionID consentSession then (FlowError 400 ''invalid_request'', s)
           else (case (if env_fails env ''Get'' then None
                       else redisGet (env_now env) (os_hashes s) (consentKey consentSession)) of
                   None \<Rightarrow> (FlowError 400 ''invalid_request'', s)
                 | Some stash \<Rightarrow>
                     (let s1 = (if env_fails env ''Del'' then s
                                else s\<lparr>os_hashes := redisDel (consentKey consentSession) (os_hashes s)\<rparr>);
                          userID = param stash ''user_id''
                      in if userID = '''' then (FlowError 400 ''invalid_request'', s1)
                         else if \<not> approve then
                           (case parseURL (param stash ''redirect_uri'') of
                              None \<Rightarrow> (FlowError 200 ''access_denied'', s1)
                            | Some (base, query) \<Rightarrow>
                                (let q = setValue ''error_description'' ''user denied consent''
                                           (setValue ''error'' ''access_denied'' query)
                                 in (FlowRedirect base
                                      (if param stash ''state'' \<noteq> ''''
                                       then setValue ''state'' (param stash ''state'') q else q), s1)))
                         else (case recordConsent env org (param stash ''client_id'') userID
                                      (param stash ''scope'') s1 of
                                 Inl _ \<Rightarrow> (FlowError 500 ''server_error'', s1)
                               | Inr s2 \<Rightarrow> issueAuthorizationCode parseURL env org
                                             (stash(''consent_granted'' \<mapsto> ''true'')) userID s2)))))"

text \<open>The body of \<^verbatim>\<open>POST /oauth/authorize/consent\<close>, as \<open>AuthorizeRequest\<close>.\<close>

definition requestParams :: "AuthorizeRequest \<Rightarrow> params" where
  "requestParams r = map_of
     [(''client_id'', ar_ClientID r), (''redirect_uri'', ar_RedirectURI r),
      (''response_type'', ar_ResponseType r), (''scope'', ar_Scope r), (''state'', ar_State r),
      (''nonce'', ar_Nonce r), (''code_challenge'', ar_CodeChallenge r),
      (''code_challenge_method'', ar_CodeChallengeMethod r)]"

definition handleAuthorizeConsent ::
    "url_parser \<Rightarrow> env \<Rightarrow> request \<Rightarrow> AuthorizeRequest option \<Rightarrow> oauth_state \<Rightarrow> flow_response \<times> oauth_state" where
  "handleAuthorizeConsent parseURL env rq body s =
     (if rq_user rq = '''' then (FlowError 401 ''unauthorized'', s)
      else (case body of
              None \<Rightarrow> (FlowError 400 ''invalid_request'', s)
            | Some req \<Rightarrow>
                (case GetByClientID env (rq_org rq) (os_clients s) (ar_ClientID req) of
                   Inl _ \<Rightarrow> (FlowError 400 ''invalid_client'', s)
                 | Inr client \<Rightarrow>
                     (if \<not> list_ex (\<lambda>u. u = ar_RedirectURI req) (oc_RedirectURIs client) then
                        (FlowError 400 ''invalid_request'', s)
                      else (case consentRequired env (rq_org rq) (ar_ClientID req) (rq_user rq)
                                   (ar_Scope req) s of
                              Inl _ \<Rightarrow> (FlowError 500 ''server_error'', s)
                            | Inr True \<Rightarrow> beginConsent env (rq_org rq) (requestParams req) (rq_user rq) s
                            | Inr False \<Rightarrow>
                                (case CreateAuthorizationCode env (rq_org rq)
                                        (paramsCode env (requestParams req) (rq_user rq)) s of
                                   Inl er \<Rightarrow> (writeServerOrUnavailable env er, s)
                                 | Inr s1 \<Rightarrow> (codeRedirect parseURL (ar_RedirectURI req)
                                               (env_fresh env ''authorization_code'') (ar_State req), s1)))))))"

definition loginKey :: "string \<Rightarrow> string" where
  "loginKey t = ''login_session:'' @ t"

text \<open>\<^verbatim>\<open>GET /oauth/authorize\<close> without an identity-provider hint. \<open>accept\<close> is the Accept header.\<close>

definition handleAuthorize ::
    "url_parser \<Rightarrow> env \<Rightarrow> request \<Rightarrow> string \<Rightarrow> oauth_state \<Rightarrow> flow_response \<times> oauth_state" where
  "handleAuthorize parseURL env rq accept s =
     (let loginSession = env_fresh env ''login_session''; q = rq_query rq;
          oauthParams = map_of (map (\<lambda>k. (k, q k))
            [''client_id'', ''redirect_uri'', ''response_type'', ''scope'', ''state'', ''nonce'',
             ''code_challenge'', ''code_challenge_method''])
      in if q ''client_id'' = '''' then (FlowError 400 ''invalid_request'', s)
         else (case GetByClientID env (rq_org rq) (os_clients s) (q ''client_id'') of
                 Inl _ \<Rightarrow> (FlowError 400 ''invalid_client'', s)
               | Inr client \<Rightarrow>
                   (if \<not> list_ex (\<lambda>u. u = q ''redirect_uri'') (oc_RedirectURIs client) then
                      (FlowError 400 ''invalid_request'', s)
                    else (let s1 = (if env_fails env ''Set'' then s
                                    else s\<lparr>os_hashes := redisSetEx (env_now env) (10 * minute)
                                           (loginKey loginSession) oauthParams (os_hashes s)\<rparr>)
                          in if oc_Type client = ''public'' \<and> accept \<noteq> ''application/json'' then
                               (FlowLoginPage loginSession, s1)
                             else if q ''redirect_uri'' = '''' then (FlowError 400 ''invalid_request'', s1)
                             else (case parseURL (q ''redirect_uri'') of
                                     None \<Rightarrow> (FlowError 400 ''invalid_request'', s1)
                                   | Some (base, query) \<Rightarrow>
                                       (FlowRedirect base (setValue ''login_session'' loginSession query), s1))))))"

section \<open>Scope arithmetic\<close>

lemma addUnseen_set: "set (addUnseen seen ws) = set ws - set seen"
  by (induction seen ws rule: addUnseen.induct) auto

lemma addUnseen_distinct: "distinct (addUnseen seen ws)"
  by (induction seen ws rule: addUnseen.induct) (auto simp: addUnseen_set)

lemma mergeScopes_words: "stringFields (mergeScopes a b) = addUnseen [] (stringFields a @ stringFields b)"
  unfolding mergeScopes_def
  by (rule stringFields_joinWith)
     (auto simp: list_all_iff addUnseen_set dest: stringFields_words)

lemma scopesCovered_iff: "scopesCovered g r \<longleftrightarrow> set (stringFields r) \<subseteq> set (stringFields g)"
  by (auto simp: scopesCovered_def list_all_iff)

lemma scopesCovered_merge:
  "scopesCovered (mergeScopes a b) r \<longleftrightarrow> set (stringFields r) \<subseteq> set (stringFields a) \<union> set (stringFields b)"
  by (simp add: scopesCovered_iff mergeScopes_words addUnseen_set)

section \<open>The consent record is cumulative\<close>

lemma find_updateKey:
  "find (\<lambda>(k, _). k = key') (updateWhere (\<lambda>(k, _). k = key) (\<lambda>(k, _). (k, v)) tbl) =
     (if key' = key then (if list_ex (\<lambda>(k, _). k = key) tbl then Some (key, v) else None)
      else find (\<lambda>(k, _). k = key') tbl)"
  by (induction tbl) (auto simp: updateWhere_Cons)

lemma find_upsert:
  "find (\<lambda>(k, _). k = key') (upsertConsent key v tbl) =
     (if key' = key then Some (key, v) else find (\<lambda>(k, _). k = key') tbl)"
proof -
  have "find (\<lambda>(k, _). k = key') (tbl @ [(key, v)]) =
      (if key' = key \<and> \<not> list_ex (\<lambda>(k, _). k = key) tbl then Some (key, v)
       else find (\<lambda>(k, _). k = key') tbl)"
    by (induction tbl) auto
  then show ?thesis by (cases "key' = key") (simp_all add: upsertConsent_def find_updateKey)
qed

lemma recordConsent_Inr:
  assumes "recordConsent env (Some o') cid uid scope s = Inr s'" and "\<not> env_fails env ''grantedScopes''"
  shows "grantedScopes i u c s' =
      (if (i, u, c) = (org_ID o', uid, cid)
       then Some (mergeScopes (case grantedScopes (org_ID o') uid cid s of None \<Rightarrow> '''' | Some e \<Rightarrow> e) scope)
       else grantedScopes i u c s)"
    and "os_sso s' = os_sso s" and "os_clients s' = os_clients s"
  using assms
  by (auto simp: recordConsent_def grantedScopes_def find_upsert Let_def split: if_splits)

lemma consentRequired_cong:
  assumes "os_sso s' = os_sso s" and "grantedScopes (org_ID p) u c s' = grantedScopes (org_ID p) u c s"
  shows "consentRequired env (Some p) c u r s' = consentRequired env (Some p) c u r s"
  unfolding consentRequired_def requireConsentOf_def assms option.case by (rule refl)

lemma recordConsent_covers:
  assumes rec: "recordConsent env (Some o') cid uid scope s = Inr s'"
    and ok: "\<not> env_fails env ''grantedScopes''" "\<not> env_fails env' ''grantedScopes''"
    and sub: "set (stringFields r) \<subseteq> set (stringFields scope)
        \<or> consentRequired env' (Some o') cid uid r s = Inr False"
  shows "consentRequired env' (Some o') cid uid r s' = Inr False"
  using sub ok(2)
  by (auto simp: consentRequired_def requireConsentOf_def recordConsent_Inr [OF rec ok(1)]
      mergeScopes_words addUnseen_set scopesCovered_iff
      split: option.splits bool.splits if_splits)

text \<open>
  Consent is cumulative and remembered. After the grant of a scope is recorded, the same user is
  not asked again by that client for any combination of the scopes granted then or before, and the
  answer for every other user, client or tenant is unchanged.
\<close>

theorem recordConsent_remembered:
  assumes rec: "recordConsent env (Some o') cid uid scope s = Inr s'"
    and ok: "\<not> env_fails env ''grantedScopes''" "\<not> env_fails env' ''grantedScopes''"
    and sub: "set (stringFields r) \<subseteq> set (stringFields scope)
        \<or> consentRequired env' (Some o') cid uid r s = Inr False"
  shows "consentRequired env' (Some o') cid uid r s' = Inr False
       \<and> ((org_ID o', uid, cid) \<noteq> (org_ID p, u, c) \<longrightarrow>
           consentRequired env' (Some p) c u r' s' = consentRequired env' (Some p) c u r' s)"
proof -
  note facts = recordConsent_Inr [OF rec ok(1)]
  have "consentRequired env' (Some o') cid uid r s' = Inr False"
    using rec ok sub by (rule recordConsent_covers)
  moreover have "consentRequired env' (Some p) c u r' s' = consentRequired env' (Some p) c u r' s"
    if "(org_ID o', uid, cid) \<noteq> (org_ID p, u, c)"
  proof -
    have "grantedScopes (org_ID p) u c s' = grantedScopes (org_ID p) u c s"
      using that by (auto simp: facts(1))
    with facts(2) show ?thesis by (rule consentRequired_cong)
  qed
  ultimately show ?thesis by blast
qed

definition demoConsentState :: oauth_state where
  "demoConsentState = demoState\<lparr>os_sso := [(''acme'', ''app'', True)]\<rparr>"

theorem recordConsent_remembered_witness:
  "\<exists>s'. recordConsent demoEnv (Some (demoOrg ''acme'')) ''app'' ''u1'' ''openid'' demoConsentState = Inr s'
     \<and> consentRequired demoEnv (Some (demoOrg ''acme'')) ''app'' ''u1'' ''openid'' s' = Inr False"
proof -
  obtain s' where rec: "recordConsent demoEnv (Some (demoOrg ''acme'')) ''app'' ''u1'' ''openid''
      demoConsentState = Inr s'"
    by (simp add: recordConsent_def demoEnv_def Let_def)
  have "\<not> env_fails demoEnv ''grantedScopes''" by (simp add: demoEnv_def)
  from recordConsent_remembered [OF rec this this, of "''openid''"] rec show ?thesis by auto
qed

section \<open>From the prompt to the code\<close>

lemma beginConsent_FlowConsent:
  assumes "beginConsent env org p uid s = (FlowConsent t cid nm ws, s')"
  shows "s' = s\<lparr>os_hashes := redisSetEx (env_now env) (5 * minute) (consentKey t)
                 ([''user_id'' \<mapsto> uid] ++ p) (os_hashes s)\<rparr>
       \<and> t = env_fresh env ''consent''"
  using assms by (auto simp: beginConsent_def Let_def split: if_splits sum.splits)

lemma error_response_shape [simp]:
  "writeServerOrUnavailable env er \<noteq> FlowConsent t c n ws"
  "writeServerOrUnavailable env er \<noteq> FlowRedirect b q"
  "codeRedirect parseURL u c st \<noteq> FlowConsent t c' n ws"
  by (auto simp: writeServerOrUnavailable_def dbErrorStatus_def codeRedirect_def Let_def
      split: oauth_error.splits option.splits)

lemma handleAuthorizeConsent_FlowConsent:
  assumes "handleAuthorizeConsent parseURL env rq (Some req) s = (FlowConsent t cid nm ws, s')"
  shows "beginConsent env (rq_org rq) (requestParams req) (rq_user rq) s = (FlowConsent t cid nm ws, s')
       \<and> rq_user rq \<noteq> '''' \<and> (\<exists>client. GetByClientID env (rq_org rq) (os_clients s) (ar_ClientID req)
            = Inr client \<and> ar_RedirectURI req \<in> set (oc_RedirectURIs client))"
  using assms
  by (auto simp: handleAuthorizeConsent_def list_ex_iff split: if_splits sum.splits bool.splits)

lemma param_requestParams [simp]:
  "param (([''user_id'' \<mapsto> u] ++ requestParams r)(''consent_granted'' \<mapsto> v)) ''user_id'' = u"
  "param ([''user_id'' \<mapsto> u] ++ requestParams r) ''user_id'' = u"
  "param ([''user_id'' \<mapsto> u] ++ requestParams r) ''redirect_uri'' = ar_RedirectURI r"
  "param ([''user_id'' \<mapsto> u] ++ requestParams r) ''client_id'' = ar_ClientID r"
  "param ([''user_id'' \<mapsto> u] ++ requestParams r) ''scope'' = ar_Scope r"
  by (simp_all add: param_def requestParams_def map_add_def)

lemma param_granted:
  "param (p(''consent_granted'' \<mapsto> ''true'')) k = (if k = ''consent_granted'' then ''true'' else param p k)"
  by (simp add: param_def)

lemma issueAuthorizationCode_granted:
  assumes "issueAuthorizationCode parseURL env org (p(''consent_granted'' \<mapsto> ''true'')) uid s
      = (FlowRedirect base q, s')"
  shows "\<exists>o'. org = Some o' \<and> os_codes s' = os_codes s @ [(org_ID o', (paramsCode env p uid)
       \<lparr>ac_ExpiresAt := env_now env + 10 * minute, ac_CreatedAt := env_now env\<rparr>)]
     \<and> os_hashes s' = os_hashes s \<and> os_consents s' = os_consents s \<and> os_sso s' = os_sso s"
  using assms
  by (cases org)
     (auto simp: issueAuthorizationCode_def CreateAuthorizationCode_def paramsCode_def
       param_granted Let_def split: if_splits)

text \<open>
  The consent round trip binds the code to the user who was asked. When the consent endpoint
  answers an authenticated request with a prompt, approving that prompt within five minutes stores
  exactly one code, for the user, client, redirect URI and scope of the prompted request; the redirect
  URI is registered for the client; the prompt cannot be answered a second time; and the same request
  no longer needs a prompt.
\<close>

theorem consent_round_trip:
  assumes ask: "handleAuthorizeConsent parseURL env rq (Some req) s = (FlowConsent t cid nm ws, s1)"
    and dec: "handleConsentDecision parseURL env' (rq_org rq) (Some (t, True)) s1 = (FlowRedirect base q, s2)"
    and ok: "\<not> env_fails env' ''grantedScopes''" "\<not> env_fails env' ''Del''"
  shows "env_now env' < env_now env + 5 * minute
     \<and> (\<exists>o' code client. rq_org rq = Some o' \<and> os_codes s2 = os_codes s1 @ [(org_ID o', code)]
          \<and> ac_UserID code = rq_user rq \<and> ac_ClientID code = ar_ClientID req
          \<and> ac_RedirectURI code = ar_RedirectURI req \<and> ac_Scope code = ar_Scope req
          \<and> (org_ID o', client) \<in> set (os_clients s)
          \<and> ar_RedirectURI req \<in> set (oc_RedirectURIs client))
     \<and> handleConsentDecision parseURL env'' org (Some (t, approve)) s2 = (FlowError 400 ''invalid_request'', s2)
     \<and> (\<not> env_fails env'' ''grantedScopes'' \<longrightarrow>
          consentRequired env'' (rq_org rq) (ar_ClientID req) (rq_user rq) (ar_Scope req) s2 = Inr False)"
proof -
  let ?stash = "[''user_id'' \<mapsto> rq_user rq] ++ requestParams req"
  let ?s1d = "s1\<lparr>os_hashes := redisDel (consentKey t) (os_hashes s1)\<rparr>"
  from handleAuthorizeConsent_FlowConsent [OF ask] obtain client
    where client: "GetByClientID env (rq_org rq) (os_clients s) (ar_ClientID req) = Inr client"
      "ar_RedirectURI req \<in> set (oc_RedirectURIs client)"
    and s1: "s1 = s\<lparr>os_hashes := redisSetEx (env_now env) (5 * minute) (consentKey t) ?stash (os_hashes s)\<rparr>"
    and uid: "rq_user rq \<noteq> ''''"
    by (auto dest: beginConsent_FlowConsent)
  then obtain o' where o': "rq_org rq = Some o'" "(org_ID o', client) \<in> set (os_clients s)"
    by (auto dest: GetByClientID_Inr)
  have live: "redisGet (env_now env') (os_hashes s1) (consentKey t) =
      (if env_now env' < env_now env + 5 * minute then Some ?stash else None)"
    by (simp add: s1 redisGet_SetEx)
  with dec uid ok(2) obtain s1r where now: "env_now env' < env_now env + 5 * minute"
    and rec: "recordConsent env' (rq_org rq) (ar_ClientID req) (rq_user rq) (ar_Scope req) ?s1d = Inr s1r"
    and iss: "issueAuthorizationCode parseURL env' (rq_org rq) (?stash(''consent_granted'' \<mapsto> ''true''))
        (rq_user rq) s1r = (FlowRedirect base q, s2)"
    by (auto simp: handleConsentDecision_def Let_def split: if_splits option.splits sum.splits)
  from issueAuthorizationCode_granted [OF iss] o'(1)
  have codes: "os_codes s2 = os_codes s1r @ [(org_ID o', (paramsCode env' ?stash (rq_user rq))
       \<lparr>ac_ExpiresAt := env_now env' + 10 * minute, ac_CreatedAt := env_now env'\<rparr>)]"
    and same: "os_hashes s2 = os_hashes s1r" "os_consents s2 = os_consents s1r" "os_sso s2 = os_sso s1r"
    by auto
  have rest: "os_hashes s1r = os_hashes ?s1d" "os_codes s1r = os_codes ?s1d"
    using rec o'(1) by (auto simp: recordConsent_def Let_def split: if_splits)
  have gone: "redisGet n (os_hashes s2) (consentKey t) = None" for n
    using same(1) rest(1) by (simp add: redisDel_def redisGet_def)
  have again: "handleConsentDecision parseURL env'' org (Some (t, approve)) s2 = (FlowError 400 ''invalid_request'', s2)"
    by (simp add: handleConsentDecision_def gone)
  have "consentRequired env'' (rq_org rq) (ar_ClientID req) (rq_user rq) (ar_Scope req) s2
      = consentRequired env'' (rq_org rq) (ar_ClientID req) (rq_user rq) (ar_Scope req) s1r"
    using o'(1) consentRequired_cong [OF same(3)] by (simp add: grantedScopes_def same(2))
  with recordConsent_covers [of env' o' "ar_ClientID req" "rq_user rq" "ar_Scope req" ?s1d s1r env'']
    rec o'(1) ok(1)
  have "\<not> env_fails env'' ''grantedScopes'' \<longrightarrow>
      consentRequired env'' (rq_org rq) (ar_ClientID req) (rq_user rq) (ar_Scope req) s2 = Inr False"
    by simp
  then show ?thesis
    using now o' client(2) codes rest(2) again by (auto simp: paramsCode_def)
qed

definition demoConsentBody :: AuthorizeRequest where
  "demoConsentBody = \<lparr>ar_ClientID = ''app'', ar_RedirectURI = ''https://app/cb'', ar_ResponseType = ''code'',
     ar_Scope = ''openid'', ar_State = '''', ar_Nonce = '''', ar_CodeChallenge = '''',
     ar_CodeChallengeMethod = ''''\<rparr>"

lemmas demo_consent_defs = demoConsentBody_def demoConsentState_def demoState_def demoLongEnv_def demoEnv_def
  demoConsentRequest_def demoAuthorize_def demoOrg_def demoClient_def noParams_def

lemma demo_ask:
  "fst (handleAuthorizeConsent (\<lambda>u. Some (u, \<lambda>_. [])) demoLongEnv demoConsentRequest
      (Some demoConsentBody) demoConsentState)
    = FlowConsent (replicate 43 CHR ''a'') ''app'' ''app'' [''openid'']"
  by (simp add: demo_consent_defs handleAuthorizeConsent_def GetByClientID_def consentRequired_def
      requireConsentOf_def grantedScopes_def beginConsent_def requestParams_def param_def
      stringFields_def asciiSpace_def byteOf_def Let_def)

lemma demo_token_valid: "isValidSessionID (replicate 43 CHR ''a'')"
  by (simp add: isValidSessionID_def isValidBase64URLToken_def isUpperAscii_def isLowerAscii_def
      byteOf_def list_all_iff)

theorem consent_round_trip_witness:
  "\<exists>s1 s2 q. handleConsentDecision (\<lambda>u. Some (u, \<lambda>_. [])) demoLongEnv (rq_org demoConsentRequest)
      (Some (replicate 43 CHR ''a'', True)) s1 = (FlowRedirect ''https://app/cb'' q, s2)
    \<and> ac_UserID (snd (last (os_codes s2))) = ''u1''"
proof -
  let ?url = "\<lambda>u. Some (u, \<lambda>_. []) :: (string \<times> url_values) option"
  let ?t = "replicate 43 CHR ''a''"
  obtain s1 where ask: "handleAuthorizeConsent ?url demoLongEnv demoConsentRequest
      (Some demoConsentBody) demoConsentState = (FlowConsent ?t ''app'' ''app'' [''openid''], s1)"
    using demo_ask by (cases "handleAuthorizeConsent ?url demoLongEnv demoConsentRequest
      (Some demoConsentBody) demoConsentState") auto
  from handleAuthorizeConsent_FlowConsent [OF ask]
  have s1: "os_hashes s1 = redisSetEx (env_now demoLongEnv) (5 * minute) (consentKey ?t)
      ([''user_id'' \<mapsto> ''u1''] ++ requestParams demoConsentBody) (os_hashes demoConsentState)"
    using beginConsent_FlowConsent by (fastforce simp: demoConsentRequest_def)
  have "\<exists>q s2. handleConsentDecision ?url demoLongEnv (rq_org demoConsentRequest) (Some (?t, True)) s1
      = (FlowRedirect ''https://app/cb'' q, s2)"
    by (simp add: handleConsentDecision_def demo_token_valid s1 redisGet_SetEx recordConsent_def
        issueAuthorizationCode_def CreateAuthorizationCode_def codeRedirect_def param_granted
        demoLongEnv_def demoEnv_def demoConsentRequest_def demoAuthorize_def Let_def)
       (simp add: demoConsentBody_def)
  then obtain q s2 where dec: "handleConsentDecision ?url demoLongEnv (rq_org demoConsentRequest)
      (Some (?t, True)) s1 = (FlowRedirect ''https://app/cb'' q, s2)" by blast
  have "\<not> env_fails demoLongEnv ''grantedScopes''" "\<not> env_fails demoLongEnv ''Del''"
    by (simp_all add: demoLongEnv_def demoEnv_def)
  from consent_round_trip [OF ask dec this, of demoLongEnv None True]
  have "ac_UserID (snd (last (os_codes s2))) = rq_user demoConsentRequest" by auto
  with dec show ?thesis by (auto simp: demoConsentRequest_def)
qed

end
