(* ===== verification/OAuth_Jwt.thy ===== *)
theory OAuth_Jwt
  imports OAuth_Consent
begin

text \<open>
  Access and ID tokens and their revocation (\<^verbatim>\<open>internal/oauth/service.go\<close>,
  \<^verbatim>\<open>pairwise_subject.go\<close>): the claims a token carries, where they come from in the directory, the
  per-token blacklist and the per-user cut-off in Redis, and the check that reads both through the
  circuit breaker.

  Parameters of the model: \<open>sign\<close>, the JWT library's signature with the service's current key (it may
  fail); \<open>hmac\<close>, the base64url HMAC-SHA-256; \<open>sha256hex\<close>, the hexadecimal SHA-256 digest. A row order
  the SQL leaves open is the table order. The breaker's copy of its own state in Redis is written under
  a key of its own that no handler reads, and is left out here.
\<close>

section \<open>Claims\<close>

datatype claim = CNull | CStr string | CNum int | CList "string list" | CObj "string \<Rightarrow> claim option"

type_synonym claims = "string \<Rightarrow> claim option"
type_synonym signer = "claims \<Rightarrow> string option"

definition strClaim :: "claims \<Rightarrow> string \<Rightarrow> string option" where
  "strClaim c k = (case c k of Some (CStr v) \<Rightarrow> Some v | _ \<Rightarrow> None)"

definition numClaim :: "claims \<Rightarrow> string \<Rightarrow> int option" where
  "numClaim c k = (case c k of Some (CNum v) \<Rightarrow> Some v | _ \<Rightarrow> None)"

definition issuerForOrg :: "env \<Rightarrow> Org \<Rightarrow> string" where
  "issuerForOrg env org =
     (let base = sc_tenantBaseDomain (env_config env)
      in if base \<noteq> '''' \<and> org_Slug org \<noteq> '''' \<and> org_Slug org \<noteq> ''default''
         then ''https://'' @ org_Slug org @ ''.'' @ base
         else sc_issuer (env_config env))"

definition subjectFor :: "(string \<Rightarrow> string \<Rightarrow> string) \<Rightarrow> env \<Rightarrow> string \<Rightarrow> string \<Rightarrow> string" where
  "subjectFor hmac env userID clientID =
     (if clientID = '''' \<or> \<not> sc_pairwise (env_config env) then userID
      else hmac (sc_encryptionKey (env_config env)) (clientID @ ''|'' @ userID))"

definition recordSessionAuthMethods ::
    "env \<Rightarrow> Org option \<Rightarrow> string \<Rightarrow> string list \<Rightarrow> oauth_state \<Rightarrow> oauth_state" where
  "recordSessionAuthMethods env org sessionID methods s =
     (if sessionID = '''' \<or> methods = [] then s
      else (case org of
              None \<Rightarrow> s
            | Some o' \<Rightarrow>
                (if env_fails env ''recordSessionAuthMethods'' then s
                 else s\<lparr>os_sessions := updateWhere (\<lambda>r. se_ID r = sessionID \<and> se_OrgID r = org_ID o')
                        (\<lambda>r. r\<lparr>se_AuthMethods := methods\<rparr>) (os_sessions s)\<rparr>)))"

definition sessionAuthMethods :: "env \<Rightarrow> Org option \<Rightarrow> string \<Rightarrow> oauth_state \<Rightarrow> string list" where
  "sessionAuthMethods env org sessionID s =
     (if sessionID = '''' then []
      else (case org of
              None \<Rightarrow> []
            | Some o' \<Rightarrow>
                (if env_fails env ''sessionAuthMethods'' then []
                 else (case find (\<lambda>r. se_ID r = sessionID \<and> se_OrgID r = org_ID o') (os_sessions s) of
                         None \<Rightarrow> [] | Some r \<Rightarrow> se_AuthMethods r))))"

section \<open>Directory queries\<close>

definition findUser :: "string \<Rightarrow> string \<Rightarrow> oauth_state \<Rightarrow> dirUser option" where
  "findUser userID orgID s =
     find (\<lambda>u. du_ID u = userID \<and> du_OrgID u = orgID) (di_users (os_directory s))"

definition activeUserRoles :: "int \<Rightarrow> string \<Rightarrow> string \<Rightarrow> oauth_state \<Rightarrow> userRole list" where
  "activeUserRoles now userID orgID s =
     filter (\<lambda>ur. ur_UserID ur = userID \<and> ur_OrgID ur = orgID
        \<and> (case ur_ExpiresAt ur of None \<Rightarrow> True | Some e \<Rightarrow> now < e)) (di_userRoles (os_directory s))"

definition queryRoles :: "env \<Rightarrow> string \<Rightarrow> string \<Rightarrow> oauth_state \<Rightarrow> string list" where
  "queryRoles env userID orgID s =
     (if env_fails env ''roles'' then []
      else concat (map (\<lambda>(rid, nm). map (\<lambda>_. nm)
             (filter (\<lambda>ur. ur_RoleID ur = rid) (activeUserRoles (env_now env) userID orgID s)))
             (di_roles (os_directory s))))"

definition queryGroups :: "env \<Rightarrow> string \<Rightarrow> string \<Rightarrow> oauth_state \<Rightarrow> string list" where
  "queryGroups env userID orgID s =
     (if env_fails env ''groups'' then []
      else concat (map (\<lambda>(gid, nm). map (\<lambda>_. nm)
             (filter (\<lambda>(u, oid, g). u = userID \<and> oid = orgID \<and> g = gid)
                (di_memberships (os_directory s))))
             (di_groups (os_directory s))))"

definition queryPermissions :: "env \<Rightarrow> string \<Rightarrow> string \<Rightarrow> oauth_state \<Rightarrow> string list" where
  "queryPermissions env userID orgID s =
     (if env_fails env ''permissions'' then []
      else remdups (concat (map (\<lambda>(pid, res, act).
             concat (map (\<lambda>(rid, _). map (\<lambda>_. res @ '':'' @ act)
                 (filter (\<lambda>ur. ur_RoleID ur = rid) (activeUserRoles (env_now env) userID orgID s)))
               (filter (\<lambda>(_, p). p = pid) (di_rolePermissions (os_directory s)))))
             (di_permissions (os_directory s)))))"

definition userNames :: "env \<Rightarrow> string \<Rightarrow> string \<Rightarrow> oauth_state \<Rightarrow> string \<times> string \<times> string" where
  "userNames env userID orgID s =
     (case (if env_fails env ''userInfo'' then None else findUser userID orgID s) of
        None \<Rightarrow> ('''', '''', '''')
      | Some u \<Rightarrow> (du_Email u, du_FirstName u, du_LastName u))"

definition displayName :: "string \<Rightarrow> string \<Rightarrow> string" where
  "displayName firstName lastName =
     (if lastName \<noteq> '''' then firstName @ '' '' @ lastName else firstName)"

section \<open>Tokens\<close>

definition addSession :: "env \<Rightarrow> Org option \<Rightarrow> string \<Rightarrow> oauth_state \<Rightarrow> claims \<Rightarrow> claims" where
  "addSession env org sessionID s c =
     (let c1 = (if sessionID \<noteq> '''' then c(''sid'' \<mapsto> CStr sessionID) else c);
          amr = sessionAuthMethods env org sessionID s
      in if amr \<noteq> [] then c1(''amr'' \<mapsto> CList amr) else c1)"

definition jwtClaims ::
    "env \<Rightarrow> Org \<Rightarrow> string \<Rightarrow> string \<Rightarrow> string \<Rightarrow> int \<Rightarrow> string \<Rightarrow> oauth_state \<Rightarrow> claims" where
  "jwtClaims env org userID clientID scope expiresIn sessionID s =
     (let (email, firstName, lastName) =
            (if userID \<noteq> '''' then userNames env userID (org_ID org) s else ('''', '''', ''''));
          roleNames = (if userID \<noteq> '''' then queryRoles env userID (org_ID org) s else []);
          groupNames = (if userID \<noteq> '''' then queryGroups env userID (org_ID org) s else []);
          permStrings = (if userID \<noteq> '''' then queryPermissions env userID (org_ID org) s else [])
      in addSession env (Some org) sessionID s (map_of
           [(''sub'', CStr userID), (''aud'', CStr clientID), (''client_id'', CStr clientID),
            (''scope'', CStr scope), (''iss'', CStr (issuerForOrg env org)),
            (''iat'', CNum (unix (env_now env))),
            (''exp'', CNum (unix (env_now env + expiresIn * second))),
            (''email'', CStr email), (''name'', CStr (displayName firstName lastName)),
            (''roles'', CList roleNames), (''groups'', CList groupNames),
            (''permissions'', CList permStrings)]))"

definition GenerateJWT ::
    "signer \<Rightarrow> env \<Rightarrow> Org option \<Rightarrow> string \<Rightarrow> string \<Rightarrow> string \<Rightarrow> int \<Rightarrow> string \<Rightarrow> oauth_state
       \<Rightarrow> oauth_error + string" where
  "GenerateJWT sign env org userID clientID scope expiresIn sessionID s =
     (case org of
        None \<Rightarrow> Inl ErrNoOrgContext
      | Some o' \<Rightarrow>
          (case sign (jwtClaims env o' userID clientID scope expiresIn sessionID s) of
             None \<Rightarrow> Inl (ErrMessage ''sign'') | Some t \<Rightarrow> Inr t))"

definition idClaims ::
    "(string \<Rightarrow> string \<Rightarrow> string) \<Rightarrow> env \<Rightarrow> Org \<Rightarrow> string \<Rightarrow> string \<Rightarrow> string \<Rightarrow> int \<Rightarrow> string
       \<Rightarrow> oauth_state \<Rightarrow> claims" where
  "idClaims hmac env org userID clientID nonce expiresIn sessionID s =
     (let (email, firstName, lastName) = userNames env userID (org_ID org) s;
          base = map_of
           [(''sub'', CStr (subjectFor hmac env userID clientID)), (''aud'', CStr clientID),
            (''iss'', CStr (issuerForOrg env org)), (''iat'', CNum (unix (env_now env))),
            (''exp'', CNum (unix (env_now env + expiresIn * second))),
            (''email'', CStr email), (''name'', CStr (displayName firstName lastName)),
            (''given_name'', CStr firstName), (''family_name'', CStr lastName),
            (''roles'', CList (queryRoles env userID (org_ID org) s)),
            (''groups'', CList (queryGroups env userID (org_ID org) s)),
            (''permissions'', CList (queryPermissions env userID (org_ID org) s))]
      in addSession env (Some org) sessionID s
           (if nonce \<noteq> '''' then base(''nonce'' \<mapsto> CStr nonce) else base))"

definition GenerateIDToken ::
    "(string \<Rightarrow> string \<Rightarrow> string) \<Rightarrow> signer \<Rightarrow> env \<Rightarrow> Org option \<Rightarrow> string \<Rightarrow> string \<Rightarrow> string \<Rightarrow> int
       \<Rightarrow> string \<Rightarrow> oauth_state \<Rightarrow> oauth_error + string" where
  "GenerateIDToken hmac sign env org userID clientID nonce expiresIn sessionID s =
     (case org of
        None \<Rightarrow> Inl ErrNoOrgContext
      | Some o' \<Rightarrow>
          (case sign (idClaims hmac env o' userID clientID nonce expiresIn sessionID s) of
             None \<Rightarrow> Inl (ErrMessage ''sign'') | Some t \<Rightarrow> Inr t))"

record UserInfo =
  ui_Sub :: string
  ui_Email :: string
  ui_EmailVerified :: bool
  ui_Name :: string
  ui_GivenName :: string
  ui_FamilyName :: string
  ui_PreferredUsername :: string

definition GetUserInfo :: "env \<Rightarrow> Org option \<Rightarrow> string \<Rightarrow> oauth_state \<Rightarrow> oauth_error + UserInfo" where
  "GetUserInfo env org userID s =
     (case org of
        None \<Rightarrow> Inl ErrNoOrgContext
      | Some o' \<Rightarrow>
          (if env_fails env ''userInfo'' then Inl ErrDatabase
           else (case findUser userID (org_ID o') s of
                   None \<Rightarrow> Inl ErrNoRows
                 | Some u \<Rightarrow> Inr \<lparr>ui_Sub = userID, ui_Email = du_Email u,
                      ui_EmailVerified = du_EmailVerified u,
                      ui_Name = displayName (du_FirstName u) (du_LastName u),
                      ui_GivenName = du_FirstName u, ui_FamilyName = du_LastName u,
                      ui_PreferredUsername = du_Email u\<rparr>)))"

section \<open>Revocation\<close>

text \<open>\<^verbatim>\<open>strconv.FormatInt\<close> and \<^verbatim>\<open>strconv.ParseInt\<close> in base 10, for 64 bits.\<close>

definition formatInt :: "int \<Rightarrow> string" where
  "formatInt n = (if n < 0 then CHR ''-'' # dec (nat (- n)) else dec (nat n))"

definition parseInt :: "string \<Rightarrow> int option" where
  "parseInt v =
     (let neg = (v \<noteq> [] \<and> hd v = CHR ''-'');
          digits = (if v \<noteq> [] \<and> (hd v = CHR ''-'' \<or> hd v = CHR ''+'') then tl v else v);
          n = (if neg then - int (undec digits) else int (undec digits))
      in if digits = [] \<or> \<not> list_all isDigitAscii digits then None
         else if n < - (2 ^ 63) \<or> 2 ^ 63 \<le> n then None else Some n)"

definition accessTokenBlacklistKey :: "(string \<Rightarrow> string) \<Rightarrow> string \<Rightarrow> string" where
  "accessTokenBlacklistKey sha256hex token = ''oauth:revoked_access_token:'' @ sha256hex token"

definition userTokensRevokedAtKey :: "string \<Rightarrow> string" where
  "userTokensRevokedAtKey userID = ''oauth:user_tokens_revoked_at:'' @ userID"

definition MarkAccessTokenRevoked ::
    "(string \<Rightarrow> string) \<Rightarrow> env \<Rightarrow> string \<Rightarrow> int \<Rightarrow> oauth_state \<Rightarrow> oauth_error + oauth_state" where
  "MarkAccessTokenRevoked sha256hex env token expiresAt s =
     (if env_fails env ''redisConfigured'' then Inl (ErrMessage ''redis not configured for token revocation'')
      else (let ttl = expiresAt - env_now env in
            if ttl \<le> 0 then Inr s
            else if env_fails env ''Set'' then Inl ErrDatabase
            else Inr (s\<lparr>os_keys := redisSetEx (env_now env) ttl
                          (accessTokenBlacklistKey sha256hex token) ''1'' (os_keys s)\<rparr>)))"

definition MarkUserTokensRevoked :: "env \<Rightarrow> string \<Rightarrow> oauth_state \<Rightarrow> oauth_error + oauth_state" where
  "MarkUserTokensRevoked env userID s =
     (if env_fails env ''redisConfigured'' then Inl (ErrMessage ''redis not configured for token revocation'')
      else if env_fails env ''Set'' then Inl ErrDatabase
      else Inr (s\<lparr>os_keys := redisSetEx (env_now env) (7 * 24 * hour) (userTokensRevokedAtKey userID)
                    (formatInt (unix (env_now env))) (os_keys s)\<rparr>))"

text \<open>The function \<^verbatim>\<open>IsAccessTokenRevoked\<close> hands to the breaker.\<close>

definition revocationCheck ::
    "(string \<Rightarrow> string) \<Rightarrow> env \<Rightarrow> string \<Rightarrow> string \<Rightarrow> int \<Rightarrow> oauth_state \<Rightarrow> oauth_error + bool" where
  "revocationCheck sha256hex env token userID issuedAt s =
     (if env_fails env ''Exists'' then Inl ErrDatabase
      else if redisGet (env_now env) (os_keys s) (accessTokenBlacklistKey sha256hex token) \<noteq> None
      then Inr True
      else if userID \<noteq> '''' \<and> 0 < issuedAt then
        (if env_fails env ''Get'' then Inl ErrDatabase
         else (case redisGet (env_now env) (os_keys s) (userTokensRevokedAtKey userID) of
                 None \<Rightarrow> Inr False
               | Some v \<Rightarrow>
                   (if v = '''' then Inr False
                    else (case parseInt v of
                            None \<Rightarrow> Inr False
                          | Some cutoff \<Rightarrow> Inr (issuedAt \<le> cutoff)))))
      else Inr False)"

definition revocationBreakerExec ::
    "env \<Rightarrow> (oauth_error + bool) \<Rightarrow> oauth_state \<Rightarrow> (oauth_error breaker_error + bool) \<times> oauth_state" where
  "revocationBreakerExec env fn s =
     (case os_breaker s of
        None \<Rightarrow> (case fn of Inl e \<Rightarrow> (Inl (ErrCall e), s) | Inr b \<Rightarrow> (Inr b, s))
      | Some cb \<Rightarrow>
          (case Execute True (env_now env) (env_now env) None fn (cb, None) of
             (res, cb', _) \<Rightarrow> (res, s\<lparr>os_breaker := Some cb'\<rparr>)))"

definition IsAccessTokenRevoked ::
    "(string \<Rightarrow> string) \<Rightarrow> env \<Rightarrow> string \<Rightarrow> string \<Rightarrow> int \<Rightarrow> oauth_state
       \<Rightarrow> (oauth_error breaker_error + bool) \<times> oauth_state" where
  "IsAccessTokenRevoked sha256hex env token userID issuedAt s =
     (if env_fails env ''redisConfigured''
      then (Inl (ErrCall (ErrMessage ''redis not configured for token revocation'')), s)
      else revocationBreakerExec env (revocationCheck sha256hex env token userID issuedAt s) s)"

section \<open>What an access token carries\<close>

lemma unix_add: "unix (t + n * second) = unix t + n"
  by (simp add: unix_def second_def)

lemma jwtClaims_base:
  assumes "k \<notin> {''sid'', ''amr''}"
  shows "jwtClaims env org uid cid scope e sid s k =
    map_of [(''sub'', CStr uid), (''aud'', CStr cid), (''client_id'', CStr cid), (''scope'', CStr scope),
      (''iss'', CStr (issuerForOrg env org)), (''iat'', CNum (unix (env_now env))),
      (''exp'', CNum (unix (env_now env) + e)),
      (''email'', CStr (if uid \<noteq> '''' then fst (userNames env uid (org_ID org) s) else '''')),
      (''name'', CStr (if uid \<noteq> '''' then displayName (fst (snd (userNames env uid (org_ID org) s)))
          (snd (snd (userNames env uid (org_ID org) s))) else '''')),
      (''roles'', CList (if uid \<noteq> '''' then queryRoles env uid (org_ID org) s else [])),
      (''groups'', CList (if uid \<noteq> '''' then queryGroups env uid (org_ID org) s else [])),
      (''permissions'', CList (if uid \<noteq> '''' then queryPermissions env uid (org_ID org) s else []))] k"
  using assms by (simp add: jwtClaims_def addSession_def unix_add displayName_def Let_def split_beta)

text \<open>The roles and permissions a user holds in a tenant at an instant, read off the assignments.\<close>

definition heldRoles :: "int \<Rightarrow> string \<Rightarrow> string \<Rightarrow> directory \<Rightarrow> string set" where
  "heldRoles now orgID uid d = {r. uid \<noteq> '''' \<and> (\<exists>ur \<in> set (di_userRoles d). ur_UserID ur = uid
     \<and> ur_OrgID ur = orgID \<and> ur_ExpiresAt ur \<notin> Some ` {..now} \<and> (ur_RoleID ur, r) \<in> set (di_roles d))}"

definition heldPermissions :: "int \<Rightarrow> string \<Rightarrow> string \<Rightarrow> directory \<Rightarrow> string set" where
  "heldPermissions now orgID uid d = {res @ '':'' @ act | res act. uid \<noteq> '''' \<and>
     (\<exists>ur \<in> set (di_userRoles d). \<exists>pid. ur_UserID ur = uid \<and> ur_OrgID ur = orgID
        \<and> ur_ExpiresAt ur \<notin> Some ` {..now} \<and> (ur_RoleID ur, pid) \<in> set (di_rolePermissions d)
        \<and> (pid, res, act) \<in> set (di_permissions d))}"

lemma live_iff: "(case x of None \<Rightarrow> True | Some e \<Rightarrow> now < e) \<longleftrightarrow> x \<notin> Some ` {..now}" for now :: int
  by (cases x) (auto simp: not_le)

lemma mem_activeUserRoles:
  "ur \<in> set (activeUserRoles now uid oid s) \<longleftrightarrow> ur \<in> set (di_userRoles (os_directory s))
     \<and> ur_UserID ur = uid \<and> ur_OrgID ur = oid \<and> ur_ExpiresAt ur \<notin> Some ` {..now}"
  by (auto simp: activeUserRoles_def live_iff)

lemma mem_queryRoles:
  assumes "\<not> env_fails env ''roles''"
  shows "r \<in> set (queryRoles env uid oid s) \<longleftrightarrow>
     (\<exists>ur \<in> set (activeUserRoles (env_now env) uid oid s). (ur_RoleID ur, r) \<in> set (di_roles (os_directory s)))"
  using assms unfolding queryRoles_def by (simp add: image_iff) (metis (no_types, lifting) case_prodI2)

lemma mem_queryPermissions:
  assumes "\<not> env_fails env ''permissions''"
  shows "p \<in> set (queryPermissions env uid oid s) \<longleftrightarrow>
     (\<exists>ur \<in> set (activeUserRoles (env_now env) uid oid s). \<exists>pid res act.
        (ur_RoleID ur, pid) \<in> set (di_rolePermissions (os_directory s))
        \<and> (pid, res, act) \<in> set (di_permissions (os_directory s)) \<and> p = res @ '':'' @ act)"
  using assms unfolding queryPermissions_def by (fastforce simp: image_iff)

lemma queryRoles_held:
  assumes "uid \<noteq> ''''" "\<not> env_fails env ''roles''"
  shows "set (queryRoles env uid oid s) = heldRoles (env_now env) oid uid (os_directory s)"
  unfolding heldRoles_def set_eq_iff mem_Collect_eq mem_queryRoles [OF assms(2)] Bex_def mem_activeUserRoles
  using assms(1) by blast

lemma queryPermissions_held:
  assumes "uid \<noteq> ''''" "\<not> env_fails env ''permissions''"
  shows "set (queryPermissions env uid oid s) = heldPermissions (env_now env) oid uid (os_directory s)"
  unfolding heldPermissions_def set_eq_iff mem_Collect_eq mem_queryPermissions [OF assms(2)] Bex_def
    mem_activeUserRoles
  using assms(1) by blast

text \<open>
  C9: the claims of an access token. It names exactly the user, client, scope and lifetime it was
  asked for and the issuer of the tenant; its roles and permissions are those the user's unexpired
  assignments in that tenant give, or none when the query for them fails; a token without a user
  carries none.
\<close>

theorem jwtClaims_faithful:
  fixes env org uid cid scope e sid s
  defines "c \<equiv> jwtClaims env org uid cid scope e sid s"
  shows "strClaim c ''sub'' = Some uid \<and> strClaim c ''client_id'' = Some cid
   \<and> strClaim c ''scope'' = Some scope \<and> strClaim c ''iss'' = Some (issuerForOrg env org)
   \<and> numClaim c ''exp'' = map_option (\<lambda>iat. iat + e) (numClaim c ''iat'')
   \<and> (\<exists>rs ps. c ''roles'' = Some (CList rs) \<and> c ''permissions'' = Some (CList ps) \<and> distinct ps
        \<and> set rs = (if env_fails env ''roles'' then {}
                    else heldRoles (env_now env) (org_ID org) uid (os_directory s))
        \<and> set ps = (if env_fails env ''permissions'' then {}
                    else heldPermissions (env_now env) (org_ID org) uid (os_directory s)))"
proof -
  let ?rs = "if uid \<noteq> '''' then queryRoles env uid (org_ID org) s else []"
  let ?ps = "if uid \<noteq> '''' then queryPermissions env uid (org_ID org) s else []"
  have "c ''roles'' = Some (CList ?rs)" "c ''permissions'' = Some (CList ?ps)"
    by (simp_all add: c_def jwtClaims_base)
  moreover have "distinct ?ps" by (simp add: queryPermissions_def)
  moreover have "set ?rs = (if env_fails env ''roles'' then {}
                    else heldRoles (env_now env) (org_ID org) uid (os_directory s))"
    using queryRoles_held [of uid env "org_ID org" s]
    by (cases "env_fails env ''roles''"; cases "uid = ''''") (simp_all add: heldRoles_def [of _ _ "''''"] queryRoles_def)
  moreover have "set ?ps = (if env_fails env ''permissions'' then {}
                    else heldPermissions (env_now env) (org_ID org) uid (os_directory s))"
    using queryPermissions_held [of uid env "org_ID org" s]
    by (cases "env_fails env ''permissions''"; cases "uid = ''''")
       (simp_all add: heldPermissions_def [of _ _ "''''"] queryPermissions_def)
  moreover have "strClaim c ''sub'' = Some uid" "strClaim c ''client_id'' = Some cid"
    "strClaim c ''scope'' = Some scope" "strClaim c ''iss'' = Some (issuerForOrg env org)"
    "numClaim c ''exp'' = map_option (\<lambda>iat. iat + e) (numClaim c ''iat'')"
    by (simp_all add: c_def strClaim_def numClaim_def jwtClaims_base)
  ultimately show ?thesis by blast
qed

section \<open>Revocation is sticky and fails closed\<close>

lemma Execute_Inr:
  "fst (Execute rf t t' None fn st) = Inr b \<Longrightarrow> fn = Inr b"
  by (auto simp: Execute_def withFallback_def Let_def split: prod.splits admission.splits sum.splits)

lemma IsAccessTokenRevoked_Inr:
  assumes "fst (IsAccessTokenRevoked h env tok uid iat s) = Inr b"
  shows "revocationCheck h env tok uid iat s = Inr b"
proof (cases "os_breaker s")
  case None
  with assms show ?thesis
    by (auto simp: IsAccessTokenRevoked_def revocationBreakerExec_def split: if_splits sum.splits)
next
  case (Some cb)
  obtain res cb' st where ex: "Execute True (env_now env) (env_now env) None
      (revocationCheck h env tok uid iat s) (cb, None) = (res, cb', st)"
    by (metis prod_cases3)
  with Some assms have "res = Inr b"
    by (auto simp: IsAccessTokenRevoked_def revocationBreakerExec_def split: if_splits)
  with ex show ?thesis using Execute_Inr by (metis fst_conv)
qed

lemma isDigit_not_sign: "isDigitAscii c \<Longrightarrow> c \<noteq> CHR ''-'' \<and> c \<noteq> CHR ''+''"
  by (auto simp: isDigitAscii_def byteOf_def)

lemma parseInt_formatInt:
  assumes "0 \<le> n" "n < 2 ^ 63"
  shows "parseInt (formatInt n) = Some n"
proof -
  have digits: "list_all isDigitAscii (dec (nat n))" using dec_digits by (simp add: list_all_iff)
  have "hd (dec (nat n)) \<in> set (dec (nat n))" by simp
  then have "hd (dec (nat n)) \<noteq> CHR ''-''" "hd (dec (nat n)) \<noteq> CHR ''+''"
    using digits isDigit_not_sign by (auto simp: list_all_iff)
  with digits assms show ?thesis by (simp add: parseInt_def formatInt_def Let_def)
qed

lemma formatInt_not_Nil [simp]: "formatInt n \<noteq> []"
  by (simp add: formatInt_def)

lemma revocation_sticky:
  assumes "MarkAccessTokenRevoked h env tok expiresAt s = Inr s'"
    and "env_now env \<le> env_now env'" "env_now env' < expiresAt"
    and "os_keys s'' (accessTokenBlacklistKey h tok) = os_keys s' (accessTokenBlacklistKey h tok)"
  shows "fst (IsAccessTokenRevoked h env' tok uid iat s'') \<noteq> Inr False"
proof
  assume "fst (IsAccessTokenRevoked h env' tok uid iat s'') = Inr False"
  then have "revocationCheck h env' tok uid iat s'' = Inr False" by (rule IsAccessTokenRevoked_Inr)
  moreover have "redisGet (env_now env') (os_keys s'') (accessTokenBlacklistKey h tok) = Some ''1''"
    using assms
    by (auto simp: MarkAccessTokenRevoked_def redisGet_def redisSetEx_def Let_def split: if_splits)
  ultimately show False by (auto simp: revocationCheck_def split: if_splits)
qed

text \<open>
  A revoked access token stays revoked. From the moment its blacklist entry is stored until the
  token would have expired, the revocation check never answers that the token is good, whatever Redis
  or the circuit breaker does: it says revoked, or it fails and the caller refuses.
\<close>

theorem revoked_token_stays_revoked:
  assumes "MarkAccessTokenRevoked h env tok expiresAt s = Inr s'"
    and "env_now env \<le> env_now env'" "env_now env' < expiresAt"
    and "os_keys s'' (accessTokenBlacklistKey h tok) = os_keys s' (accessTokenBlacklistKey h tok)"
  shows "fst (IsAccessTokenRevoked h env' tok uid iat s'') \<noteq> Inr False"
  using revocation_sticky [OF assms] .

theorem revoked_token_stays_revoked_witness:
  "\<exists>s'. MarkAccessTokenRevoked (\<lambda>t. t) demoEnv ''tok'' (1001 * second) demoState = Inr s'
     \<and> fst (IsAccessTokenRevoked (\<lambda>t. t) demoEnv ''tok'' ''u1'' 1 s') \<noteq> Inr False"
proof -
  obtain s' where m: "MarkAccessTokenRevoked (\<lambda>t. t) demoEnv ''tok'' (1001 * second) demoState = Inr s'"
    by (simp add: MarkAccessTokenRevoked_def demoEnv_def second_def Let_def)
  have "env_now demoEnv < 1001 * second" by (simp add: demoEnv_def)
  from revoked_token_stays_revoked [OF m order_refl this refl] m show ?thesis by blast
qed

lemma revocationCheck_cutoff:
  assumes "os_keys s'' (userTokensRevokedAtKey uid) = os_keys s' (userTokensRevokedAtKey uid)"
    and "MarkUserTokensRevoked env uid s = Inr s'" and "uid \<noteq> ''''" "0 < iat" "iat \<le> unix (env_now env)"
    and "unix (env_now env) < 2 ^ 63"
    and "\<not> env_fails env' ''Exists''" "\<not> env_fails env' ''Get''"
    and "redisGet (env_now env') (os_keys s'') (accessTokenBlacklistKey h tok) = None"
  shows "revocationCheck h env' tok uid iat s'' = Inr (env_now env' < env_now env + 7 * 24 * hour)"
  using assms
  by (auto simp: revocationCheck_def MarkUserTokensRevoked_def redisGet_def redisSetEx_def
      parseInt_formatInt split: if_splits)

text \<open>
  The user-wide cut-off lasts seven days. While Redis answers, a token issued no later than the
  cut-off and not blacklisted itself is revoked exactly during the seven days after it: a token that
  lives longer is accepted again afterwards.
\<close>

theorem user_revocation_lasts_seven_days:
  assumes "MarkUserTokensRevoked env uid s = Inr s'" and "uid \<noteq> ''''" "0 < iat" "iat \<le> unix (env_now env)"
    and "unix (env_now env) < 2 ^ 63"
    and "\<not> env_fails env' ''Exists''" "\<not> env_fails env' ''Get''" "\<not> env_fails env' ''redisConfigured''"
    and "redisGet (env_now env') (os_keys s') (accessTokenBlacklistKey h tok) = None"
    and "os_breaker s' = None"
  shows "fst (IsAccessTokenRevoked h env' tok uid iat s') = Inr (env_now env' < env_now env + 7 * 24 * hour)"
  using revocationCheck_cutoff [OF refl assms(1-7,9)] assms(8,10)
  by (simp add: IsAccessTokenRevoked_def revocationBreakerExec_def)

theorem user_revocation_lasts_seven_days_witness:
  "\<exists>s'. MarkUserTokensRevoked demoEnv ''u1'' demoState = Inr s'
     \<and> fst (IsAccessTokenRevoked (\<lambda>t. t) demoEnv ''tok'' ''u1'' 999 s') = Inr True
     \<and> fst (IsAccessTokenRevoked (\<lambda>t. t) (demoEnv\<lparr>env_now := 200 * 24 * hour\<rparr>) ''tok'' ''u1'' 999 s') = Inr False"
proof -
  obtain s' where m: "MarkUserTokensRevoked demoEnv ''u1'' demoState = Inr s'"
    by (simp add: MarkUserTokensRevoked_def demoEnv_def)
  have s': "os_breaker s' = None" "redisGet t (os_keys s') (accessTokenBlacklistKey (\<lambda>t. t) ''tok'') = None" for t
    using m by (auto simp: MarkUserTokensRevoked_def demoEnv_def demoState_def redisGet_def redisSetEx_def
        accessTokenBlacklistKey_def userTokensRevokedAtKey_def)
  have t: "''u1'' \<noteq> ''''" "(0::int) < 999" "999 \<le> unix (env_now demoEnv)" "unix (env_now demoEnv) < 2 ^ 63"
    by (simp_all add: demoEnv_def unix_def second_def)
  show ?thesis
    using m user_revocation_lasts_seven_days [OF m t, of demoEnv "\<lambda>t. t" "''tok''"] s'
      user_revocation_lasts_seven_days [OF m t, of "demoEnv\<lparr>env_now := 200 * 24 * hour\<rparr>" "\<lambda>t. t" "''tok''"]
    by (simp add: demoEnv_def hour_def minute_def second_def)
qed

end
