(* ===== verification/OAuth_Token.thy ===== *)
theory OAuth_Token
  imports OAuth_Jwt
begin

text \<open>
  The token endpoint (\<^verbatim>\<open>internal/oauth/service.go\<close>): redemption of authorization codes, refresh-token
  rotation with reuse detection and family revocation, client credentials, client authentication,
  introspection and revocation.

  \<open>crypto\<close> collects what third-party packages compute: signing and verification of JWTs (verification
  checks the expiry against the clock), HMAC and SHA-256. The debounced activity update of a refresh
  runs in the background and only writes a last-seen column that no modelled code reads; its debounce
  key in Redis is modelled.
\<close>

record crypto =
  cr_sign :: signer
  cr_parse :: "int \<Rightarrow> string \<Rightarrow> claims option"
  cr_hmac :: "string \<Rightarrow> string \<Rightarrow> string"
  cr_sha256hex :: "string \<Rightarrow> string"
  cr_s256 :: "string \<Rightarrow> string"

datatype token_response =
    TokenError nat string string
  | TokenOK TokenResponse
  | TokenNoContent

section \<open>Authorization codes\<close>

definition codeMatches :: "string \<Rightarrow> string \<Rightarrow> string \<times> AuthorizationCode \<Rightarrow> bool" where
  "codeMatches code orgID r \<longleftrightarrow> ac_Code (snd r) = code \<and> fst r = orgID"

definition GetAuthorizationCode ::
    "env \<Rightarrow> Org option \<Rightarrow> string \<Rightarrow> oauth_state \<Rightarrow> oauth_error + AuthorizationCode" where
  "GetAuthorizationCode env org code s =
     (case org of
        None \<Rightarrow> Inl ErrNoOrgContext
      | Some o' \<Rightarrow>
          (if env_fails env ''GetAuthorizationCode'' then Inl ErrDatabase
           else (case find (codeMatches code (org_ID o')) (os_codes s) of
                   None \<Rightarrow> Inl ErrNoRows
                 | Some (_, c) \<Rightarrow> if ac_ExpiresAt c < env_now env then Inl ErrExpired else Inr c)))"

text \<open>\<^verbatim>\<open>DELETE ... RETURNING\<close>: one statement, so the row is gone even when it turns out expired.\<close>

definition ConsumeAuthorizationCode ::
    "env \<Rightarrow> Org option \<Rightarrow> string \<Rightarrow> oauth_state \<Rightarrow> (oauth_error + AuthorizationCode) \<times> oauth_state" where
  "ConsumeAuthorizationCode env org code s =
     (case org of
        None \<Rightarrow> (Inl ErrNoOrgContext, s)
      | Some o' \<Rightarrow>
          (if env_fails env ''ConsumeAuthorizationCode'' then (Inl ErrDatabase, s)
           else (let s1 = s\<lparr>os_codes := deleteWhere (codeMatches code (org_ID o')) (os_codes s)\<rparr>
                 in case find (codeMatches code (org_ID o')) (os_codes s) of
                      None \<Rightarrow> (Inl ErrNoRows, s1)
                    | Some (_, c) \<Rightarrow>
                        (if ac_ExpiresAt c < env_now env then (Inl ErrExpired, s1) else (Inr c, s1)))))"

definition DeleteAuthorizationCode ::
    "env \<Rightarrow> Org option \<Rightarrow> string \<Rightarrow> oauth_state \<Rightarrow> oauth_error + oauth_state" where
  "DeleteAuthorizationCode env org code s =
     (case org of
        None \<Rightarrow> Inl ErrNoOrgContext
      | Some o' \<Rightarrow>
          (if env_fails env ''DeleteAuthorizationCode'' then Inl ErrDatabase
           else Inr (s\<lparr>os_codes := deleteWhere (codeMatches code (org_ID o')) (os_codes s)\<rparr>)))"

section \<open>Refresh tokens\<close>

text \<open>A token with no family starts its own. An empty session id is stored as NULL, which reads back
  as the empty string.\<close>

definition CreateRefreshToken ::
    "env \<Rightarrow> Org option \<Rightarrow> RefreshToken \<Rightarrow> oauth_state \<Rightarrow> oauth_error + oauth_state" where
  "CreateRefreshToken env org token s =
     (case org of
        None \<Rightarrow> Inl ErrNoOrgContext
      | Some o' \<Rightarrow>
          (let familyID = (if rt_FamilyID token = '''' then env_fresh env ''family'' else rt_FamilyID token)
           in if env_fails env ''CreateRefreshToken'' then Inl ErrDatabase
              else Inr (s\<lparr>os_refresh := os_refresh s @ [token\<lparr>rt_CreatedAt := env_now env,
                     rt_FamilyID := familyID, rt_UsedAt := None, rt_RevokedAt := None,
                     rt_OrgID := org_ID o'\<rparr>]\<rparr>)))"

definition tokenIs :: "string \<Rightarrow> string \<Rightarrow> RefreshToken \<Rightarrow> bool" where
  "tokenIs token orgID r \<longleftrightarrow> rt_Token r = token \<and> rt_OrgID r = orgID"

definition GetRefreshToken ::
    "env \<Rightarrow> Org option \<Rightarrow> string \<Rightarrow> oauth_state \<Rightarrow> oauth_error + RefreshToken" where
  "GetRefreshToken env org token s =
     (case org of
        None \<Rightarrow> Inl ErrNoOrgContext
      | Some o' \<Rightarrow>
          (if env_fails env ''GetRefreshToken'' then Inl ErrDatabase
           else (case find (\<lambda>r. tokenIs token (org_ID o') r \<and> rt_RevokedAt r = None) (os_refresh s) of
                   None \<Rightarrow> Inl ErrNoRows
                 | Some r \<Rightarrow> if rt_ExpiresAt r < env_now env then Inl ErrExpired else Inr r)))"

definition RevokeRefreshToken ::
    "env \<Rightarrow> Org option \<Rightarrow> string \<Rightarrow> oauth_state \<Rightarrow> oauth_error + oauth_state" where
  "RevokeRefreshToken env org token s =
     (case org of
        None \<Rightarrow> Inl ErrNoOrgContext
      | Some o' \<Rightarrow>
          (if env_fails env ''RevokeRefreshToken'' then Inl ErrDatabase
           else Inr (s\<lparr>os_refresh := updateWhere
                  (\<lambda>r. tokenIs token (org_ID o') r \<and> rt_RevokedAt r = None)
                  (\<lambda>r. r\<lparr>rt_RevokedAt := Some (env_now env)\<rparr>) (os_refresh s)\<rparr>)))"

definition markRefreshTokenRotated ::
    "env \<Rightarrow> Org option \<Rightarrow> string \<Rightarrow> oauth_state \<Rightarrow> (oauth_error + bool) \<times> oauth_state" where
  "markRefreshTokenRotated env org token s =
     (case org of
        None \<Rightarrow> (Inl ErrNoOrgContext, s)
      | Some o' \<Rightarrow>
          (if env_fails env ''markRefreshTokenRotated'' then (Inl ErrDatabase, s)
           else (let P = (\<lambda>r. tokenIs token (org_ID o') r \<and> rt_UsedAt r = None)
                 in (Inr (countWhere P (os_refresh s) = 1),
                     s\<lparr>os_refresh := updateWhere P (\<lambda>r. r\<lparr>rt_UsedAt := Some (env_now env)\<rparr>)
                           (os_refresh s)\<rparr>))))"

definition inFamily :: "string \<Rightarrow> string \<Rightarrow> RefreshToken \<Rightarrow> bool" where
  "inFamily familyID orgID r \<longleftrightarrow> rt_FamilyID r = familyID \<and> rt_OrgID r = orgID"

definition revokeRefreshTokenFamily ::
    "env \<Rightarrow> Org option \<Rightarrow> string \<Rightarrow> oauth_state \<Rightarrow> (oauth_error + nat) \<times> oauth_state" where
  "revokeRefreshTokenFamily env org familyID s =
     (case org of
        None \<Rightarrow> (Inl ErrNoOrgContext, s)
      | Some o' \<Rightarrow>
          (if env_fails env ''revokeRefreshTokenFamily'' then (Inl ErrDatabase, s)
           else (let P = (\<lambda>r. inFamily familyID (org_ID o') r \<and> rt_RevokedAt r = None)
                 in (Inr (countWhere P (os_refresh s)),
                     s\<lparr>os_refresh := updateWhere P (\<lambda>r. r\<lparr>rt_RevokedAt := Some (env_now env)\<rparr>)
                           (os_refresh s)\<rparr>))))"

definition revokedSessionKey :: "string \<Rightarrow> string" where
  "revokedSessionKey sid = ''revoked_session:'' @ sid"

definition handleRefreshTokenReuse :: "env \<Rightarrow> Org option \<Rightarrow> RefreshToken \<Rightarrow> oauth_state \<Rightarrow> oauth_state" where
  "handleRefreshTokenReuse env org token s =
     (let s1 = (if rt_FamilyID token \<noteq> '''' then snd (revokeRefreshTokenFamily env org (rt_FamilyID token) s)
                else (case RevokeRefreshToken env org (rt_Token token) s of Inl _ \<Rightarrow> s | Inr s' \<Rightarrow> s'))
      in if rt_SessionID token \<noteq> '''' \<and> \<not> env_fails env ''Set''
         then s1\<lparr>os_keys := redisSetEx (env_now env) (24 * hour) (revokedSessionKey (rt_SessionID token))
                ''refresh_reuse'' (os_keys s1)\<rparr>
         else s1)"

definition revokeSessionWithRedis :: "env \<Rightarrow> string \<Rightarrow> oauth_state \<Rightarrow> oauth_error + oauth_state" where
  "revokeSessionWithRedis env sessionID s =
     (if env_fails env ''revokeSession'' then Inl ErrDatabase
      else (let s1 = s\<lparr>os_sessions := updateWhere (\<lambda>r. se_ID r = sessionID)
                          (\<lambda>r. r\<lparr>se_Revoked := True\<rparr>) (os_sessions s)\<rparr>
            in Inr (if env_fails env ''Set'' then s1
                    else s1\<lparr>os_keys := redisSetEx (env_now env) (25 * hour) (revokedSessionKey sessionID)
                           ''1'' (os_keys s1)\<rparr>)))"

section \<open>The grants\<close>

definition oneMethod :: token_response where
  "oneMethod = TokenError 400 ''invalid_request'' ''use only one client authentication method''"

fun newestSession :: "Session list \<Rightarrow> Session option" where
  "newestSession [] = None"
| "newestSession (r # rs) =
     (case newestSession rs of
        None \<Rightarrow> Some r
      | Some r' \<Rightarrow> if se_StartedAt r \<ge> se_StartedAt r' then Some r else Some r')"

definition activeSessionOf :: "env \<Rightarrow> Org option \<Rightarrow> string \<Rightarrow> string \<Rightarrow> oauth_state \<Rightarrow> string" where
  "activeSessionOf env org userID clientID s =
     (case org of
        None \<Rightarrow> ''''
      | Some o' \<Rightarrow>
          (if env_fails env ''activeSession'' then ''''
           else (case newestSession (filter (\<lambda>r. se_UserID r = userID \<and> se_ClientID r = clientID
                          \<and> se_OrgID r = org_ID o' \<and> \<not> se_Revoked r \<and> env_now env < se_ExpiresAt r)
                        (os_sessions s)) of
                   None \<Rightarrow> '''' | Some r \<Rightarrow> se_ID r)))"

definition newRefresh :: "env \<Rightarrow> string \<Rightarrow> string \<Rightarrow> string \<Rightarrow> string \<Rightarrow> int \<Rightarrow> string \<Rightarrow> RefreshToken" where
  "newRefresh env clientID userID scope sessionID lifetime familyID =
     \<lparr>rt_Token = env_fresh env ''refresh_token'', rt_ClientID = clientID, rt_UserID = userID,
      rt_Scope = scope, rt_SessionID = sessionID, rt_ExpiresAt = env_now env + lifetime * second,
      rt_CreatedAt = 0, rt_FamilyID = familyID, rt_UsedAt = None, rt_RevokedAt = None, rt_OrgID = ''''\<rparr>"

definition orEmpty :: "oauth_error + string \<Rightarrow> string" where
  "orEmpty r = (case r of Inl _ \<Rightarrow> '''' | Inr t \<Rightarrow> t)"

definition tokenBody :: "string \<Rightarrow> OAuthClient \<Rightarrow> string \<Rightarrow> TokenResponse" where
  "tokenBody accessToken client scope =
     \<lparr>tr_AccessToken = accessToken, tr_TokenType = ''Bearer'', tr_ExpiresIn = oc_AccessTokenLifetime client,
      tr_RefreshToken = '''', tr_IDToken = '''', tr_Scope = scope\<rparr>"

text \<open>Storing a fresh refresh token and adding it to the response, only when it was stored.\<close>

definition attachRefresh ::
    "env \<Rightarrow> Org option \<Rightarrow> RefreshToken \<Rightarrow> TokenResponse \<Rightarrow> oauth_state \<Rightarrow> TokenResponse \<times> oauth_state" where
  "attachRefresh env org token resp s =
     (case CreateRefreshToken env org token s of
        Inl _ \<Rightarrow> (resp, s)
      | Inr s' \<Rightarrow> (resp\<lparr>tr_RefreshToken := rt_Token token\<rparr>, s'))"

definition codeSession ::
    "env \<Rightarrow> Org option \<Rightarrow> string \<Rightarrow> string \<Rightarrow> string \<Rightarrow> oauth_state \<Rightarrow> string \<times> oauth_state" where
  "codeSession env org code userID clientID s =
     (let sid = (case (if env_fails env ''Get'' then None
                       else redisGet (env_now env) (os_keys s) (codeSessionKey code)) of
                   None \<Rightarrow> '''' | Some v \<Rightarrow> v);
          s1 = (if sid \<noteq> '''' \<and> \<not> env_fails env ''Del''
                then s\<lparr>os_keys := redisDel (codeSessionKey code) (os_keys s)\<rparr> else s)
      in (if sid = '''' then activeSessionOf env org userID clientID s else sid, s1))"

definition issueCodeTokens ::
    "crypto \<Rightarrow> env \<Rightarrow> Org option \<Rightarrow> string \<Rightarrow> OAuthClient \<Rightarrow> AuthorizationCode \<Rightarrow> oauth_state
       \<Rightarrow> TokenResponse \<times> oauth_state" where
  "issueCodeTokens cr env org clientID client authCode s =
     (let (sid, s1) = codeSession env org (ac_Code authCode) (ac_UserID authCode) clientID s;
          life = oc_AccessTokenLifetime client;
          access = orEmpty (GenerateJWT (cr_sign cr) env org (ac_UserID authCode) clientID
                     (ac_Scope authCode) life sid s1);
          resp = tokenBody access client (ac_Scope authCode);
          resp1 = (if containsStr (ac_Scope authCode) ''openid''
                   then resp\<lparr>tr_IDToken := orEmpty (GenerateIDToken (cr_hmac cr) (cr_sign cr) env org
                               (ac_UserID authCode) clientID (ac_Nonce authCode) life sid s1)\<rparr>
                   else resp)
      in if oc_AllowRefreshToken client \<and> containsStr (ac_Scope authCode) ''offline_access''
         then attachRefresh env org (newRefresh env clientID (ac_UserID authCode) (ac_Scope authCode) sid
                (oc_RefreshTokenLifetime client) '''') resp1 s1
         else (resp1, s1))"

text \<open>Everything checked after the code was consumed: \<open>None\<close> lets the grant proceed.\<close>

definition codeGrantRefusal ::
    "crypto \<Rightarrow> env \<Rightarrow> request \<Rightarrow> string \<Rightarrow> string \<Rightarrow> AuthorizationCode \<Rightarrow> oauth_state
       \<Rightarrow> token_response + OAuthClient" where
  "codeGrantRefusal cr env rq clientID clientSecret authCode s =
     (if ac_ClientID authCode \<noteq> clientID then Inl (TokenError 400 ''invalid_grant'' '''')
      else (case GetByClientID env (rq_org rq) (os_clients s) clientID of
              Inl _ \<Rightarrow> Inl (TokenError 401 ''invalid_client'' '''')
            | Inr client \<Rightarrow>
                (if oc_Type client = ''confidential'' \<and> oc_ClientSecret client \<noteq> clientSecret then
                   Inl (TokenError 401 ''invalid_client'' '''')
                 else if ac_RedirectURI authCode \<noteq> rq_form rq ''redirect_uri'' then
                   Inl (TokenError 400 ''invalid_grant'' '''')
                 else if ac_CodeChallenge authCode \<noteq> '''' then
                   (if ac_CodeChallengeMethod authCode = ''plain'' \<and> env_production env then
                      Inl (TokenError 400 ''invalid_grant''
                        (''PKCE method '' @ [CHR 0x27] @ ''plain'' @ [CHR 0x27] @
                         '' is not allowed in production; use S256''))
                    else if \<not> VerifyPKCE (cr_s256 cr) (rq_form rq ''code_verifier'')
                                (ac_CodeChallenge authCode) (ac_CodeChallengeMethod authCode) then
                      Inl (TokenError 400 ''invalid_grant'' ''PKCE verification failed'')
                    else Inr client)
                 else if oc_Type client = ''public'' then
                   Inl (TokenError 400 ''invalid_grant'' ''PKCE required for public clients'')
                 else Inr client)))"

definition handleAuthorizationCodeGrant ::
    "crypto \<Rightarrow> env \<Rightarrow> request \<Rightarrow> oauth_state \<Rightarrow> token_response \<times> oauth_state" where
  "handleAuthorizationCodeGrant cr env rq s =
     (case clientCredentials rq of
        None \<Rightarrow> (oneMethod, s)
      | Some (clientID, clientSecret) \<Rightarrow>
          (case ConsumeAuthorizationCode env (rq_org rq) (rq_form rq ''code'') s of
             (Inl _, s1) \<Rightarrow> (TokenError 400 ''invalid_grant'' '''', s1)
           | (Inr authCode, s1) \<Rightarrow>
               (case codeGrantRefusal cr env rq clientID clientSecret authCode s1 of
                  Inl refusal \<Rightarrow> (refusal, s1)
                | Inr client \<Rightarrow>
                    (case issueCodeTokens cr env (rq_org rq) clientID client authCode s1 of
                       (resp, s2) \<Rightarrow> (TokenOK resp, s2)))))"

definition userIsActive :: "env \<Rightarrow> string \<Rightarrow> oauth_state \<Rightarrow> oauth_error + bool" where
  "userIsActive env userID s =
     (if userID = '''' then Inr False
      else if env_fails env ''userIsActive'' then Inl ErrDatabase
      else (case find (\<lambda>u. du_ID u = userID) (di_users (os_directory s)) of
              None \<Rightarrow> Inr False
            | Some u \<Rightarrow> Inr (du_Enabled u)))"

definition tokenDbError :: "env \<Rightarrow> oauth_error \<Rightarrow> token_response" where
  "tokenDbError env er = (case writeServerOrUnavailable env er of
     FlowError st e \<Rightarrow> TokenError st e '''' | _ \<Rightarrow> TokenError 500 ''server_error'' '''')"

definition reuseDetected :: token_response where
  "reuseDetected = TokenError 400 ''invalid_grant''
     ''refresh token reuse detected; the token family has been revoked''"

definition sessionActivityKey :: "string \<Rightarrow> string" where
  "sessionActivityKey sid = ''session_activity:'' @ sid"

definition debounceActivity :: "env \<Rightarrow> string \<Rightarrow> oauth_state \<Rightarrow> oauth_state" where
  "debounceActivity env sid s =
     (if env_fails env ''SetNX'' \<or> redisGet (env_now env) (os_keys s) (sessionActivityKey sid) \<noteq> None then s
      else s\<lparr>os_keys := redisSetEx (env_now env) (30 * second) (sessionActivityKey sid) ''1'' (os_keys s)\<rparr>)"

text \<open>
  The refresh grant in the three parts its database statements make: what it decides from the row it
  read (\<open>refreshChecks\<close>), the conditional claim of that row, and the insert of the successor. The
  handler runs them in order; \<open>refreshChecks\<close> answers with a refusal or the row and the client.
\<close>

definition refreshChecks ::
    "env \<Rightarrow> request \<Rightarrow> oauth_state \<Rightarrow> (token_response + (RefreshToken \<times> OAuthClient)) \<times> oauth_state" where
  "refreshChecks env rq s =
     (case clientCredentials rq of
        None \<Rightarrow> (Inl oneMethod, s)
      | Some (clientID, clientSecret) \<Rightarrow>
          (case GetByClientID env (rq_org rq) (os_clients s) clientID of
             Inl _ \<Rightarrow> (Inl (TokenError 401 ''invalid_client'' ''''), s)
           | Inr client \<Rightarrow>
               (if oc_ClientSecret client \<noteq> clientSecret then
                  (Inl (TokenError 401 ''invalid_client'' ''''), s)
                else (case GetRefreshToken env (rq_org rq) (rq_form rq ''refresh_token'') s of
                        Inl _ \<Rightarrow> (Inl (TokenError 400 ''invalid_grant'' ''''), s)
                      | Inr token \<Rightarrow>
                          (if rt_UsedAt token \<noteq> None then
                             (Inl reuseDetected, handleRefreshTokenReuse env (rq_org rq) token s)
                           else if rt_ClientID token \<noteq> clientID then
                             (Inl (TokenError 400 ''invalid_grant'' ''''), s)
                           else (case userIsActive env (rt_UserID token) s of
                                   Inl er \<Rightarrow> (Inl (tokenDbError env er), s)
                                 | Inr False \<Rightarrow> (Inl (TokenError 400 ''invalid_grant'' ''user_inactive''), s)
                                 | Inr True \<Rightarrow>
                                     (if rt_SessionID token = '''' then (Inr (token, client), s)
                                      else if \<not> env_fails env ''Exists'' \<and> redisGet (env_now env) (os_keys s)
                                                (revokedSessionKey (rt_SessionID token)) \<noteq> None then
                                        (Inl (TokenError 400 ''invalid_grant'' ''session_revoked''), s)
                                      else (Inr (token, client),
                                            debounceActivity env (rt_SessionID token) s))))))))"

definition refreshClaim ::
    "env \<Rightarrow> request \<Rightarrow> RefreshToken \<Rightarrow> oauth_state \<Rightarrow> token_response option \<times> oauth_state" where
  "refreshClaim env rq token s =
     (case markRefreshTokenRotated env (rq_org rq) (rq_form rq ''refresh_token'') s of
        (Inl er, s1) \<Rightarrow> (Some (tokenDbError env er), s1)
      | (Inr claimed, s1) \<Rightarrow>
          (if \<not> claimed then (Some reuseDetected, handleRefreshTokenReuse env (rq_org rq) token s1)
           else (None, s1)))"

definition refreshFinish ::
    "crypto \<Rightarrow> env \<Rightarrow> request \<Rightarrow> RefreshToken \<Rightarrow> OAuthClient \<Rightarrow> bool \<Rightarrow> oauth_state \<Rightarrow> token_response \<times> oauth_state" where
  "refreshFinish cr env rq token client rot s =
     (let access = orEmpty (GenerateJWT (cr_sign cr) env (rq_org rq) (rt_UserID token) (rt_ClientID token)
                     (rt_Scope token) (oc_AccessTokenLifetime client) (rt_SessionID token) s);
          resp = tokenBody access client (rt_Scope token)
      in if rot then
           (case attachRefresh env (rq_org rq) (newRefresh env (rt_ClientID token) (rt_UserID token)
                    (rt_Scope token) (rt_SessionID token) (oc_RefreshTokenLifetime client)
                    (rt_FamilyID token)) resp s of
              (resp1, s1) \<Rightarrow> (TokenOK resp1, s1))
         else (TokenOK resp, s))"

definition rotates :: "RefreshToken \<Rightarrow> OAuthClient \<Rightarrow> bool" where
  "rotates token client \<longleftrightarrow> oc_AllowRefreshToken client \<and> containsStr (rt_Scope token) ''offline_access''"

definition handleRefreshTokenGrant ::
    "crypto \<Rightarrow> env \<Rightarrow> request \<Rightarrow> oauth_state \<Rightarrow> token_response \<times> oauth_state" where
  "handleRefreshTokenGrant cr env rq s =
     (case refreshChecks env rq s of
        (Inl refusal, s1) \<Rightarrow> (refusal, s1)
      | (Inr (token, client), s1) \<Rightarrow>
          (if rotates token client then
             (case refreshClaim env rq token s1 of
                (Some refusal, s2) \<Rightarrow> (refusal, s2)
              | (None, s2) \<Rightarrow> refreshFinish cr env rq token client True s2)
           else refreshFinish cr env rq token client False s1))"

definition handleClientCredentialsGrant ::
    "crypto \<Rightarrow> env \<Rightarrow> request \<Rightarrow> oauth_state \<Rightarrow> token_response \<times> oauth_state" where
  "handleClientCredentialsGrant cr env rq s =
     (case clientCredentials rq of
        None \<Rightarrow> (oneMethod, s)
      | Some (clientID, clientSecret) \<Rightarrow>
          (case GetByClientID env (rq_org rq) (os_clients s) clientID of
             Inl _ \<Rightarrow> (TokenError 401 ''invalid_client'' '''', s)
           | Inr client \<Rightarrow>
               (if oc_ClientSecret client \<noteq> clientSecret then (TokenError 401 ''invalid_client'' '''', s)
                else if \<not> scopeAllowedForClient (Some client) (rq_form rq ''scope'') then
                  (TokenError 400 ''invalid_scope''
                     ''requested scope exceeds the scopes registered for this client'', s)
                else (TokenOK (tokenBody (orEmpty (GenerateJWT (cr_sign cr) env (rq_org rq) '''' clientID
                        (rq_form rq ''scope'') (oc_AccessTokenLifetime client) '''' s)) client
                        (rq_form rq ''scope'')), s))))"

section \<open>Introspection and revocation\<close>

text \<open>The middleware in front of both endpoints: \<open>None\<close> passes the request on.\<close>

definition requireTokenEndpointClientAuth :: "env \<Rightarrow> request \<Rightarrow> oauth_state \<Rightarrow> token_response option" where
  "requireTokenEndpointClientAuth env rq s =
     (case clientCredentials rq of
        None \<Rightarrow> Some oneMethod
      | Some (clientID, clientSecret) \<Rightarrow>
          (if clientID = '''' then Some (TokenError 401 ''invalid_client'' ''client authentication required'')
           else (case GetByClientID env (rq_org rq) (os_clients s) clientID of
                   Inl _ \<Rightarrow> Some (TokenError 401 ''invalid_client'' '''')
                 | Inr client \<Rightarrow>
                     (if oc_Type client \<noteq> ''public'' \<and> oc_ClientSecret client \<noteq> clientSecret
                      then Some (TokenError 401 ''invalid_client'' '''') else None))))"

datatype introspection = Inactive | Active string claims

definition pickStr :: "claims \<Rightarrow> string \<Rightarrow> claims" where
  "pickStr c k = (case strClaim c k of None \<Rightarrow> Map.empty | Some v \<Rightarrow> [k \<mapsto> CStr v])"

definition pickNum :: "claims \<Rightarrow> string \<Rightarrow> claims" where
  "pickNum c k = (case numClaim c k of None \<Rightarrow> Map.empty | Some v \<Rightarrow> [k \<mapsto> CNum v])"

definition introspectRefresh :: "env \<Rightarrow> Org option \<Rightarrow> string \<Rightarrow> oauth_state \<Rightarrow> introspection" where
  "introspectRefresh env org token s =
     (case org of
        None \<Rightarrow> Inactive
      | Some o' \<Rightarrow>
          (if env_fails env ''introspectRefresh'' then Inactive
           else (case find (\<lambda>r. tokenIs token (org_ID o') r \<and> env_now env < rt_ExpiresAt r) (os_refresh s) of
                   None \<Rightarrow> Inactive
                 | Some r \<Rightarrow> Active ''refresh_token'' [''client_id'' \<mapsto> CStr (rt_ClientID r),
                      ''sub'' \<mapsto> CStr (rt_UserID r), ''scope'' \<mapsto> CStr (rt_Scope r)])))"

definition handleIntrospect ::
    "crypto \<Rightarrow> env \<Rightarrow> request \<Rightarrow> oauth_state \<Rightarrow> introspection \<times> oauth_state" where
  "handleIntrospect cr env rq s =
     (let token = rq_form rq ''token'' in
      if token = '''' then (Inactive, s)
      else (case cr_parse cr (env_now env) token of
              None \<Rightarrow> (introspectRefresh env (rq_org rq) token s, s)
            | Some claims \<Rightarrow>
                (let userID = (case strClaim claims ''sub'' of None \<Rightarrow> '''' | Some u \<Rightarrow> u);
                     issuedAt = (case numClaim claims ''iat'' of None \<Rightarrow> 0 | Some n \<Rightarrow> n)
                 in case IsAccessTokenRevoked (cr_sha256hex cr) env token userID issuedAt s of
                      (Inl _, s1) \<Rightarrow> (Inactive, s1)
                    | (Inr True, s1) \<Rightarrow> (Inactive, s1)
                    | (Inr False, s1) \<Rightarrow>
                        (Active ''access_token'' (pickStr claims ''sub'' ++ pickStr claims ''client_id''
                           ++ pickStr claims ''scope'' ++ pickNum claims ''exp'' ++ pickNum claims ''iat''
                           ++ pickStr claims ''iss''), s1))))"

definition handleRevoke :: "crypto \<Rightarrow> env \<Rightarrow> request \<Rightarrow> oauth_state \<Rightarrow> oauth_state" where
  "handleRevoke cr env rq s =
     (let token = rq_form rq ''token'';
          s1 = (if rq_form rq ''token_type_hint'' \<noteq> ''refresh_token'' then
                  (case cr_parse cr (env_now env) token of
                     None \<Rightarrow> s
                   | Some claims \<Rightarrow>
                       (case numClaim claims ''exp'' of
                          None \<Rightarrow> s
                        | Some expSec \<Rightarrow>
                            (if 0 < expSec then
                               (case MarkAccessTokenRevoked (cr_sha256hex cr) env token (expSec * second) s of
                                  Inl _ \<Rightarrow> s | Inr s' \<Rightarrow> s')
                             else s)))
                else s)
      in case RevokeRefreshToken env (rq_org rq) token s1 of Inl _ \<Rightarrow> s1 | Inr s2 \<Rightarrow> s2)"

section \<open>The authorization code grant\<close>

lemma ConsumeAuthorizationCode_Inr:
  assumes "ConsumeAuthorizationCode env org code s = (Inr c, s')"
  shows "\<exists>o'. org = Some o' \<and> (org_ID o', c) \<in> set (os_codes s) \<and> ac_Code c = code
    \<and> env_now env \<le> ac_ExpiresAt c
    \<and> s' = s\<lparr>os_codes := deleteWhere (codeMatches code (org_ID o')) (os_codes s)\<rparr>"
  using assms
  by (auto simp: ConsumeAuthorizationCode_def codeMatches_def Let_def
      split: option.splits if_splits dest!: find_Some_mem)

lemma codeGrantRefusal_Inr:
  assumes "codeGrantRefusal cr env rq cid sec c s = Inr client"
  shows "ac_ClientID c = cid \<and> GetByClientID env (rq_org rq) (os_clients s) cid = Inr client
     \<and> (oc_Type client = ''confidential'' \<longrightarrow> oc_ClientSecret client = sec)
     \<and> ac_RedirectURI c = rq_form rq ''redirect_uri''
     \<and> (if ac_CodeChallenge c = '''' then oc_Type client \<noteq> ''public''
        else VerifyPKCE (cr_s256 cr) (rq_form rq ''code_verifier'') (ac_CodeChallenge c)
               (ac_CodeChallengeMethod c)
             \<and> (env_production env \<longrightarrow> ac_CodeChallengeMethod c \<noteq> ''plain''))"
  using assms by (auto simp: codeGrantRefusal_def split: if_splits sum.splits)

lemma attachRefresh_keeps [simp]:
  "os_codes (snd (attachRefresh env org t r s)) = os_codes s"
  "tr_Scope (fst (attachRefresh env org t r s)) = tr_Scope r"
  "tr_ExpiresIn (fst (attachRefresh env org t r s)) = tr_ExpiresIn r"
  by (auto simp: attachRefresh_def CreateRefreshToken_def Let_def split: option.splits)

lemma codeSession_keeps [simp]:
  "os_codes (snd (codeSession env org code u c s)) = os_codes s"
  "os_refresh (snd (codeSession env org code u c s)) = os_refresh s"
  "os_clients (snd (codeSession env org code u c s)) = os_clients s"
  by (auto simp: codeSession_def Let_def)

lemma issueCodeTokens_keeps [simp]:
  "os_codes (snd (issueCodeTokens cr env org cid client c s)) = os_codes s"
  "tr_Scope (fst (issueCodeTokens cr env org cid client c s)) = ac_Scope c"
  by (auto simp: issueCodeTokens_def tokenBody_def Let_def split_beta)

lemma handleAuthorizationCodeGrant_OK:
  assumes "handleAuthorizationCodeGrant cr env rq s = (TokenOK resp, s')"
  shows "\<exists>cid sec c client s1. clientCredentials rq = Some (cid, sec)
    \<and> ConsumeAuthorizationCode env (rq_org rq) (rq_form rq ''code'') s = (Inr c, s1)
    \<and> codeGrantRefusal cr env rq cid sec c s1 = Inr client
    \<and> issueCodeTokens cr env (rq_org rq) cid client c s1 = (resp, s')"
proof -
  have refusal: "codeGrantRefusal cr env rq cid sec c t \<noteq> Inl (TokenOK r)" for cid sec c t r
    by (auto simp: codeGrantRefusal_def split: if_splits sum.splits)
  from assms show ?thesis
    by (auto simp: handleAuthorizationCodeGrant_def oneMethod_def refusal
        split: option.splits prod.splits sum.splits)
qed

text \<open>
  C5: what a redeemed authorization code proves. A success means that the tenant held an unexpired
  code that was issued to the very client that authenticated, for the redirect URI now presented; that
  a confidential client showed its secret; and that the verifier matches the stored challenge, which
  only a client that is not public may lack. The code is gone afterwards, and the token carries exactly
  the scope that was authorized.
\<close>

theorem code_grant_sound:
  assumes "handleAuthorizationCodeGrant cr env rq s = (TokenOK resp, s')"
  shows "\<exists>o' c client sec. rq_org rq = Some o' \<and> (org_ID o', c) \<in> set (os_codes s)
     \<and> (org_ID o', client) \<in> set (os_clients s)
     \<and> ac_Code c = rq_form rq ''code'' \<and> env_now env \<le> ac_ExpiresAt c
     \<and> clientCredentials rq = Some (ac_ClientID c, sec) \<and> oc_ClientID client = ac_ClientID c
     \<and> (oc_Type client = ''confidential'' \<longrightarrow> oc_ClientSecret client = sec)
     \<and> ac_RedirectURI c = rq_form rq ''redirect_uri''
     \<and> (if ac_CodeChallenge c = '''' then oc_Type client \<noteq> ''public''
        else VerifyPKCE (cr_s256 cr) (rq_form rq ''code_verifier'') (ac_CodeChallenge c)
               (ac_CodeChallengeMethod c))
     \<and> tr_Scope resp = ac_Scope c
     \<and> (\<forall>r \<in> set (os_codes s'). \<not> codeMatches (rq_form rq ''code'') (org_ID o') r)"
proof -
  from handleAuthorizationCodeGrant_OK [OF assms] obtain cid sec c client s1
    where cc: "clientCredentials rq = Some (cid, sec)"
    and con: "ConsumeAuthorizationCode env (rq_org rq) (rq_form rq ''code'') s = (Inr c, s1)"
    and ref: "codeGrantRefusal cr env rq cid sec c s1 = Inr client"
    and iss: "issueCodeTokens cr env (rq_org rq) cid client c s1 = (resp, s')" by blast
  from ConsumeAuthorizationCode_Inr [OF con] obtain o'
    where o': "rq_org rq = Some o'" "(org_ID o', c) \<in> set (os_codes s)" "ac_Code c = rq_form rq ''code''"
      "env_now env \<le> ac_ExpiresAt c"
      and s1: "s1 = s\<lparr>os_codes := deleteWhere (codeMatches (rq_form rq ''code'') (org_ID o')) (os_codes s)\<rparr>"
    by blast
  note r = codeGrantRefusal_Inr [OF ref]
  have cl: "(org_ID o', client) \<in> set (os_clients s)" "oc_ClientID client = cid"
    using r GetByClientID_Inr [of env "rq_org rq" "os_clients s1" cid client] o'(1) s1 by auto
  have "os_codes s' = os_codes s1" "tr_Scope resp = ac_Scope c"
    using issueCodeTokens_keeps [of cr env "rq_org rq" cid client c s1] iss by simp_all
  moreover have "\<forall>r \<in> set (os_codes s1). \<not> codeMatches (rq_form rq ''code'') (org_ID o') r"
    by (simp add: s1)
  ultimately show ?thesis using o' cl cc r by (intro exI [of _ o'] exI [of _ c] exI [of _ client] exI [of _ sec]) auto
qed

definition demoCode :: AuthorizationCode where
  "demoCode = \<lparr>ac_Code = ''c1'', ac_ClientID = ''app'', ac_UserID = ''u1'',
     ac_RedirectURI = ''https://app/cb'', ac_Scope = ''openid offline_access'', ac_State = '''',
     ac_Nonce = '''', ac_CodeChallenge = '''', ac_CodeChallengeMethod = '''',
     ac_ExpiresAt = 2000 * second, ac_CreatedAt = 0\<rparr>"

definition demoCrypto :: crypto where
  "demoCrypto = \<lparr>cr_sign = (\<lambda>_. Some ''jwt''), cr_parse = (\<lambda>_ _. None), cr_hmac = (\<lambda>_ m. m),
     cr_sha256hex = (\<lambda>t. t), cr_s256 = (\<lambda>t. t)\<rparr>"

definition demoCodeRequest :: request where
  "demoCodeRequest = \<lparr>rq_org = Some (demoOrg ''acme''), rq_query = noParams,
     rq_form = noParams(''client_id'' := ''app'', ''client_secret'' := ''s3cret'', ''code'' := ''c1'',
       ''redirect_uri'' := ''https://app/cb'', ''grant_type'' := ''authorization_code''),
     rq_authorization = '''', rq_user = ''''\<rparr>"

definition demoCodeState :: oauth_state where
  "demoCodeState = demoState\<lparr>os_codes := [(''acme'', demoCode)]\<rparr>"

lemma demoCode_granted:
  "\<exists>resp s'. handleAuthorizationCodeGrant demoCrypto demoEnv demoCodeRequest demoCodeState
      = (TokenOK resp, s')"
proof -
  have "clientCredentials demoCodeRequest = Some (''app'', ''s3cret'')"
    by (simp add: demoCodeRequest_def clientCredentials_def basicClientAuth_def noParams_def Let_def)
  moreover obtain s1 where "ConsumeAuthorizationCode demoEnv (rq_org demoCodeRequest) ''c1'' demoCodeState
      = (Inr demoCode, s1)" and s1: "os_clients s1 = os_clients demoState"
    by (simp add: ConsumeAuthorizationCode_def demoCodeRequest_def demoOrg_def demoEnv_def codeMatches_def
        demoCodeState_def demoCode_def second_def Let_def)
  moreover have "rq_form demoCodeRequest ''code'' = ''c1''"
    by (simp add: demoCodeRequest_def noParams_def)
  moreover have "codeGrantRefusal demoCrypto demoEnv demoCodeRequest ''app'' ''s3cret'' demoCode s1
      = Inr (demoClient ''app'' ''confidential'')"
    by (simp add: codeGrantRefusal_def demoCode_def GetByClientID_def demoCodeRequest_def demoOrg_def
        demoEnv_def s1 demoState_def demoClient_def noParams_def)
  ultimately show ?thesis
    by (simp add: handleAuthorizationCodeGrant_def split_beta)
qed

theorem code_grant_sound_witness:
  "\<exists>resp s'. handleAuthorizationCodeGrant demoCrypto demoEnv demoCodeRequest demoCodeState
      = (TokenOK resp, s') \<and> (\<exists>c. tr_Scope resp = ac_Scope c \<and> (''acme'', c) \<in> set (os_codes demoCodeState))"
proof -
  obtain resp s' where run: "handleAuthorizationCodeGrant demoCrypto demoEnv demoCodeRequest demoCodeState
      = (TokenOK resp, s')" using demoCode_granted by blast
  from code_grant_sound [OF run] run show ?thesis
    by (auto simp: demoCodeRequest_def demoOrg_def)
qed

section \<open>Refresh rotation\<close>

lemma GetRefreshToken_Inr:
  assumes "GetRefreshToken env org token s = Inr r"
  shows "\<exists>o'. org = Some o' \<and> r \<in> set (os_refresh s) \<and> tokenIs token (org_ID o') r
    \<and> rt_RevokedAt r = None \<and> env_now env \<le> rt_ExpiresAt r"
  using assms by (auto simp: GetRefreshToken_def split: option.splits if_splits dest!: find_Some_mem)

lemma debounceActivity_keeps [simp]:
  "os_refresh (debounceActivity env sid s) = os_refresh s"
  "os_clients (debounceActivity env sid s) = os_clients s"
  "os_codes (debounceActivity env sid s) = os_codes s"
  by (simp_all add: debounceActivity_def)

lemma refreshChecks_Inr:
  assumes "refreshChecks env rq s = (Inr (token, client), s')"
  shows "\<exists>sec. clientCredentials rq = Some (rt_ClientID token, sec) \<and> oc_ClientSecret client = sec
    \<and> GetByClientID env (rq_org rq) (os_clients s) (rt_ClientID token) = Inr client
    \<and> GetRefreshToken env (rq_org rq) (rq_form rq ''refresh_token'') s = Inr token
    \<and> rt_UsedAt token = None \<and> userIsActive env (rt_UserID token) s = Inr True
    \<and> os_refresh s' = os_refresh s \<and> os_clients s' = os_clients s \<and> os_codes s' = os_codes s"
  using assms
  by (auto simp: refreshChecks_def split: option.splits sum.splits if_splits bool.splits)

lemma refreshChecks_refusal: "refreshChecks env rq s \<noteq> (Inl (TokenOK r), s')"
  by (auto simp: refreshChecks_def oneMethod_def reuseDetected_def tokenDbError_def
      split: option.splits sum.splits if_splits bool.splits flow_response.splits)

lemma refreshClaim_refusal: "refreshClaim env rq token s \<noteq> (Some (TokenOK r), s')"
  by (auto simp: refreshClaim_def reuseDetected_def tokenDbError_def
      split: sum.splits prod.splits if_splits flow_response.splits)

lemma refreshClaim_None:
  assumes "refreshClaim env rq token s = (None, s')" and "rq_org rq = Some o'"
  shows "os_refresh s' = updateWhere (\<lambda>r. tokenIs (rq_form rq ''refresh_token'') (org_ID o') r \<and> rt_UsedAt r = None)
           (\<lambda>r. r\<lparr>rt_UsedAt := Some (env_now env)\<rparr>) (os_refresh s)
       \<and> os_codes s' = os_codes s \<and> os_clients s' = os_clients s"
  using assms
  by (auto simp: refreshClaim_def markRefreshTokenRotated_def Let_def split: if_splits)

lemma refreshFinish_rotated:
  assumes "refreshFinish cr env rq token client True s = (TokenOK resp, s')" and "rq_org rq = Some o'"
  shows "(env_fails env ''CreateRefreshToken'' \<and> os_refresh s' = os_refresh s \<and> tr_RefreshToken resp = '''')
     \<or> (\<exists>t. os_refresh s' = os_refresh s @ [t] \<and> tr_RefreshToken resp = rt_Token t
          \<and> rt_Token t = env_fresh env ''refresh_token'' \<and> rt_ClientID t = rt_ClientID token
          \<and> rt_UserID t = rt_UserID token \<and> rt_Scope t = rt_Scope token
          \<and> rt_SessionID t = rt_SessionID token \<and> rt_OrgID t = org_ID o'
          \<and> (rt_FamilyID token \<noteq> '''' \<longrightarrow> rt_FamilyID t = rt_FamilyID token)
          \<and> rt_UsedAt t = None \<and> rt_RevokedAt t = None)"
  using assms
  by (auto simp: refreshFinish_def attachRefresh_def CreateRefreshToken_def newRefresh_def tokenBody_def Let_def
      split: if_splits)

lemma refreshFinish_scope:
  "refreshFinish cr env rq token client rot s = (TokenOK resp, s') \<Longrightarrow> tr_Scope resp = rt_Scope token"
  by (cases rot)
     (auto simp: refreshFinish_def tokenBody_def attachRefresh_def Let_def
       split: sum.splits prod.splits if_splits)

lemma handleRefreshTokenGrant_OK:
  assumes "handleRefreshTokenGrant cr env rq s = (TokenOK resp, s')"
  shows "\<exists>o' token client sec. rq_org rq = Some o' \<and> token \<in> set (os_refresh s)
     \<and> tokenIs (rq_form rq ''refresh_token'') (org_ID o') token
     \<and> env_now env \<le> rt_ExpiresAt token \<and> rt_RevokedAt token = None \<and> rt_UsedAt token = None
     \<and> clientCredentials rq = Some (rt_ClientID token, sec) \<and> oc_ClientSecret client = sec
     \<and> (org_ID o', client) \<in> set (os_clients s)
     \<and> (\<exists>u \<in> set (di_users (os_directory s)). du_ID u = rt_UserID token \<and> du_Enabled u)
     \<and> tr_Scope resp = rt_Scope token
     \<and> (rotates token client \<longrightarrow>
          (\<forall>r \<in> set (os_refresh s'). tokenIs (rq_form rq ''refresh_token'') (org_ID o') r
             \<and> rt_UsedAt r = None \<longrightarrow> rt_Token r = env_fresh env ''refresh_token'')
          \<and> (\<forall>r \<in> set (os_refresh s'). rt_Token r \<notin> rt_Token ` set (os_refresh s) \<longrightarrow>
               rt_UserID r = rt_UserID token \<and> rt_ClientID r = rt_ClientID token
               \<and> rt_SessionID r = rt_SessionID token \<and> rt_Scope r = rt_Scope token
               \<and> (rt_FamilyID token \<noteq> '''' \<longrightarrow> rt_FamilyID r = rt_FamilyID token)))"
proof -
  let ?tok = "rq_form rq ''refresh_token''"
  obtain token client s1 where chk: "refreshChecks env rq s = (Inr (token, client), s1)"
    using assms refreshChecks_refusal
    by (auto simp: handleRefreshTokenGrant_def split: prod.splits sum.splits)
  from refreshChecks_Inr [OF chk] obtain sec where
    c: "clientCredentials rq = Some (rt_ClientID token, sec)" "oc_ClientSecret client = sec"
      "GetByClientID env (rq_org rq) (os_clients s) (rt_ClientID token) = Inr client"
      "GetRefreshToken env (rq_org rq) ?tok s = Inr token" "rt_UsedAt token = None"
      "userIsActive env (rt_UserID token) s = Inr True" "os_refresh s1 = os_refresh s" by blast
  from GetRefreshToken_Inr [OF c(4)] obtain o' where
    o': "rq_org rq = Some o'" "token \<in> set (os_refresh s)" "tokenIs ?tok (org_ID o') token"
      "rt_RevokedAt token = None" "env_now env \<le> rt_ExpiresAt token" by blast
  have cl: "(org_ID o', client) \<in> set (os_clients s)" using GetByClientID_Inr [OF c(3)] o'(1) by auto
  have user: "\<exists>u \<in> set (di_users (os_directory s)). du_ID u = rt_UserID token \<and> du_Enabled u"
    using c(6) by (auto simp: userIsActive_def split: if_splits option.splits dest!: find_Some_mem)
  have scope: "tr_Scope resp = rt_Scope token"
    using assms chk refreshClaim_refusal refreshFinish_scope
    by (fastforce simp: handleRefreshTokenGrant_def split: if_splits prod.splits option.splits)
  have rot: "(\<forall>r \<in> set (os_refresh s'). tokenIs ?tok (org_ID o') r \<and> rt_UsedAt r = None
             \<longrightarrow> rt_Token r = env_fresh env ''refresh_token'')
          \<and> (\<forall>r \<in> set (os_refresh s'). rt_Token r \<notin> rt_Token ` set (os_refresh s) \<longrightarrow>
               rt_UserID r = rt_UserID token \<and> rt_ClientID r = rt_ClientID token
               \<and> rt_SessionID r = rt_SessionID token \<and> rt_Scope r = rt_Scope token
               \<and> (rt_FamilyID token \<noteq> '''' \<longrightarrow> rt_FamilyID r = rt_FamilyID token))"
    if rotok: "rotates token client"
  proof -
    obtain s2 where cm: "refreshClaim env rq token s1 = (None, s2)"
      and fin: "refreshFinish cr env rq token client True s2 = (TokenOK resp, s')"
      using assms chk rotok refreshClaim_refusal
      by (auto simp: handleRefreshTokenGrant_def split: prod.splits option.splits)
    have s2: "os_refresh s2 = updateWhere (\<lambda>r. tokenIs ?tok (org_ID o') r \<and> rt_UsedAt r = None)
           (\<lambda>r. r\<lparr>rt_UsedAt := Some (env_now env)\<rparr>) (os_refresh s)"
      using refreshClaim_None [OF cm o'(1)] c(7) by simp
    have old: "\<not> (tokenIs ?tok (org_ID o') r \<and> rt_UsedAt r = None) \<and> rt_Token r \<in> rt_Token ` set (os_refresh s)"
      if "r \<in> set (os_refresh s2)" for r
    proof -
      from that obtain x where "x \<in> set (os_refresh s)"
        and r: "r = (if tokenIs ?tok (org_ID o') x \<and> rt_UsedAt x = None
                then x\<lparr>rt_UsedAt := Some (env_now env)\<rparr> else x)"
        unfolding s2 set_updateWhere by blast
      moreover from r have "rt_Token r = rt_Token x" "\<not> (tokenIs ?tok (org_ID o') r \<and> rt_UsedAt r = None)"
        by auto
      ultimately show ?thesis by (metis imageI)
    qed
    have old1: "\<forall>r \<in> set (os_refresh s2). tokenIs ?tok (org_ID o') r \<longrightarrow> rt_UsedAt r \<noteq> None"
      using old by auto
    have old2: "\<forall>r \<in> set (os_refresh s2). rt_Token r \<in> rt_Token ` set (os_refresh s)"
      using old by auto
    from refreshFinish_rotated [OF fin o'(1)] show ?thesis
    proof (elim disjE exE conjE)
      assume "os_refresh s' = os_refresh s2"
      with old1 old2 show ?thesis by metis
    next
      fix t
      assume "os_refresh s' = os_refresh s2 @ [t]" and t: "rt_Token t = env_fresh env ''refresh_token''"
        "rt_ClientID t = rt_ClientID token" "rt_UserID t = rt_UserID token" "rt_Scope t = rt_Scope token"
        "rt_SessionID t = rt_SessionID token" "rt_FamilyID token \<noteq> '''' \<longrightarrow> rt_FamilyID t = rt_FamilyID token"
      then have "r = t \<or> r \<in> set (os_refresh s2)" if "r \<in> set (os_refresh s')" for r using that by auto
      with old1 old2 t show ?thesis by blast
    qed
  qed
  show ?thesis using o' c(1,2,5) cl user scope rot by blast
qed


definition demoRefresh :: RefreshToken where
  "demoRefresh = \<lparr>rt_Token = ''r1'', rt_ClientID = ''app'', rt_UserID = ''u1'',
     rt_Scope = ''openid offline_access'', rt_SessionID = '''', rt_ExpiresAt = 2000 * second,
     rt_CreatedAt = 0, rt_FamilyID = ''fam'', rt_UsedAt = None, rt_RevokedAt = None, rt_OrgID = ''acme''\<rparr>"

definition demoUser :: dirUser where
  "demoUser = \<lparr>du_ID = ''u1'', du_OrgID = ''acme'', du_Email = '''', du_FirstName = '''', du_LastName = '''',
     du_EmailVerified = True, du_Enabled = True\<rparr>"

definition demoRefreshState :: oauth_state where
  "demoRefreshState = demoState\<lparr>os_refresh := [demoRefresh],
     os_directory := (os_directory demoState)\<lparr>di_users := [demoUser]\<rparr>\<rparr>"

definition demoRefreshRequest :: request where
  "demoRefreshRequest = demoCodeRequest\<lparr>rq_form := noParams(''client_id'' := ''app'',
     ''client_secret'' := ''s3cret'', ''refresh_token'' := ''r1'', ''grant_type'' := ''refresh_token'')\<rparr>"

lemma demoRefresh_checks:
  "refreshChecks demoEnv demoRefreshRequest demoRefreshState
     = (Inr (demoRefresh, demoClient ''app'' ''confidential''), demoRefreshState)"
proof -
  have "clientCredentials demoRefreshRequest = Some (''app'', ''s3cret'')"
    by (simp add: demoRefreshRequest_def demoCodeRequest_def clientCredentials_def basicClientAuth_def
        noParams_def Let_def)
  moreover have "GetByClientID demoEnv (rq_org demoRefreshRequest) (os_clients demoRefreshState) ''app''
      = Inr (demoClient ''app'' ''confidential'')"
    by (simp add: GetByClientID_def demoRefreshRequest_def demoCodeRequest_def demoOrg_def demoEnv_def
        demoRefreshState_def demoState_def demoClient_def)
  moreover have "GetRefreshToken demoEnv (rq_org demoRefreshRequest)
      (rq_form demoRefreshRequest ''refresh_token'') demoRefreshState = Inr demoRefresh"
    by (simp add: GetRefreshToken_def demoRefreshRequest_def demoCodeRequest_def demoOrg_def demoEnv_def
        demoRefreshState_def demoRefresh_def tokenIs_def noParams_def second_def)
  moreover have "userIsActive demoEnv (rt_UserID demoRefresh) demoRefreshState = Inr True"
    by (simp add: userIsActive_def demoRefresh_def demoEnv_def demoRefreshState_def demoUser_def)
  moreover have "oc_ClientSecret (demoClient ''app'' ''confidential'') = ''s3cret''"
    "rt_UsedAt demoRefresh = None" "rt_ClientID demoRefresh = ''app''" "rt_SessionID demoRefresh = ''''"
    by (simp_all add: demoClient_def demoRefresh_def)
  ultimately show ?thesis by (simp add: refreshChecks_def)
qed

lemma demoRefresh_claim:
  "refreshClaim demoEnv demoRefreshRequest demoRefresh demoRefreshState
     = (None, demoRefreshState\<lparr>os_refresh := [demoRefresh\<lparr>rt_UsedAt := Some (env_now demoEnv)\<rparr>]\<rparr>)"
  by (simp add: refreshClaim_def markRefreshTokenRotated_def demoRefreshRequest_def demoCodeRequest_def
      demoOrg_def demoEnv_def noParams_def countWhere_def updateWhere_def tokenIs_def demoRefreshState_def
      demoRefresh_def Let_def)

lemma demoRefresh_rotates: "rotates demoRefresh (demoClient ''app'' ''confidential'')"
  by (simp add: rotates_def demoRefresh_def demoClient_def containsStr_def sublist_code)

lemma refreshFinish_OK: "\<exists>resp s'. refreshFinish cr env rq token client rot s = (TokenOK resp, s')"
  by (cases rot) (auto simp: refreshFinish_def Let_def split: prod.splits)


section \<open>Reuse detection\<close>

lemma handleRefreshTokenReuse_family:
  assumes "rt_FamilyID token \<noteq> ''''" and "\<not> env_fails env ''revokeRefreshTokenFamily''"
  shows "os_refresh (handleRefreshTokenReuse env (Some o') token s) =
     updateWhere (\<lambda>r. inFamily (rt_FamilyID token) (org_ID o') r \<and> rt_RevokedAt r = None)
       (\<lambda>r. r\<lparr>rt_RevokedAt := Some (env_now env)\<rparr>) (os_refresh s)"
  using assms by (simp add: handleRefreshTokenReuse_def revokeRefreshTokenFamily_def Let_def)

lemma refreshChecks_reuse:
  assumes "clientCredentials rq = Some (cid, oc_ClientSecret client)"
    and "GetByClientID env (rq_org rq) (os_clients s) cid = Inr client"
    and "GetRefreshToken env (rq_org rq) (rq_form rq ''refresh_token'') s = Inr token"
    and "rt_UsedAt token = Some t"
  shows "handleRefreshTokenGrant cr env rq s = (reuseDetected, handleRefreshTokenReuse env (rq_org rq) token s)"
  using assms by (simp add: handleRefreshTokenGrant_def refreshChecks_def)

text \<open>
  C7: replaying a rotated refresh token revokes its whole family. An authenticated client that
  presents a token that was already used gets the reuse error, and from then on no token of the family
  in that tenant can be refreshed, while every token outside the family is untouched.
\<close>

theorem refresh_reuse_revokes_family:
  assumes "clientCredentials rq = Some (cid, oc_ClientSecret client)"
    and "GetByClientID env (Some o') (os_clients s) cid = Inr client"
    and "GetRefreshToken env (Some o') (rq_form rq ''refresh_token'') s = Inr token"
    and "rq_org rq = Some o'" and "rt_UsedAt token = Some t" and "rt_FamilyID token \<noteq> ''''"
    and "\<not> env_fails env ''revokeRefreshTokenFamily''"
  shows "\<exists>s'. handleRefreshTokenGrant cr env rq s = (reuseDetected, s')
     \<and> (\<forall>r \<in> set (os_refresh s'). inFamily (rt_FamilyID token) (org_ID o') r \<longrightarrow> rt_RevokedAt r \<noteq> None)
     \<and> (\<forall>r. \<not> inFamily (rt_FamilyID token) (org_ID o') r
           \<longrightarrow> (r \<in> set (os_refresh s') \<longleftrightarrow> r \<in> set (os_refresh s)))
     \<and> (\<forall>env' tk r. GetRefreshToken env' (Some o') tk s' = Inr r \<longrightarrow> rt_FamilyID r \<noteq> rt_FamilyID token)"
proof -
  let ?s' = "handleRefreshTokenReuse env (Some o') token s"
  let ?P = "\<lambda>r. inFamily (rt_FamilyID token) (org_ID o') r"
  have rows: "set (os_refresh ?s') = (\<lambda>r. if ?P r \<and> rt_RevokedAt r = None
      then r\<lparr>rt_RevokedAt := Some (env_now env)\<rparr> else r) ` set (os_refresh s)"
    by (simp add: handleRefreshTokenReuse_family [OF assms(6,7)] set_updateWhere)
  have upd: "?P (r\<lparr>rt_RevokedAt := x\<rparr>) = ?P r" for r x by (simp add: inFamily_def)
  have run: "handleRefreshTokenGrant cr env rq s = (reuseDetected, ?s')"
    using refreshChecks_reuse [of rq cid client env s token t cr] assms by simp
  have revoked: "\<forall>r \<in> set (os_refresh ?s'). ?P r \<longrightarrow> rt_RevokedAt r \<noteq> None"
    by (auto simp: rows)
  have others: "\<forall>r. \<not> ?P r \<longrightarrow> (r \<in> set (os_refresh ?s') \<longleftrightarrow> r \<in> set (os_refresh s))"
    by (auto simp: rows image_iff upd)
  have dead: "\<forall>env' tk r. GetRefreshToken env' (Some o') tk ?s' = Inr r \<longrightarrow> rt_FamilyID r \<noteq> rt_FamilyID token"
    using revoked by (fastforce dest: GetRefreshToken_Inr simp: tokenIs_def inFamily_def)
  show ?thesis using run revoked others dead by blast
qed

definition demoUsedState :: oauth_state where
  "demoUsedState = demoRefreshState\<lparr>os_refresh := [demoRefresh\<lparr>rt_UsedAt := Some 5\<rparr>,
     demoRefresh\<lparr>rt_Token := ''r2''\<rparr>]\<rparr>"

theorem refresh_reuse_revokes_family_witness:
  "\<exists>s'. handleRefreshTokenGrant demoCrypto demoEnv demoRefreshRequest demoUsedState = (reuseDetected, s')
     \<and> (\<forall>env' tk r. GetRefreshToken env' (Some (demoOrg ''acme'')) tk s' = Inr r \<longrightarrow> rt_FamilyID r \<noteq> ''fam'')"
proof -
  let ?client = "demoClient ''app'' ''confidential''"
  have h: "clientCredentials demoRefreshRequest = Some (''app'', oc_ClientSecret ?client)"
      "GetByClientID demoEnv (Some (demoOrg ''acme'')) (os_clients demoUsedState) ''app'' = Inr ?client"
      "GetRefreshToken demoEnv (Some (demoOrg ''acme'')) (rq_form demoRefreshRequest ''refresh_token'')
         demoUsedState = Inr (demoRefresh\<lparr>rt_UsedAt := Some 5\<rparr>)"
      "rq_org demoRefreshRequest = Some (demoOrg ''acme'')"
      "rt_UsedAt (demoRefresh\<lparr>rt_UsedAt := Some 5\<rparr>) = Some 5"
      "rt_FamilyID (demoRefresh\<lparr>rt_UsedAt := Some 5\<rparr>) \<noteq> ''''"
      "\<not> env_fails demoEnv ''revokeRefreshTokenFamily''"
    by (simp_all add: demoRefreshRequest_def demoCodeRequest_def clientCredentials_def basicClientAuth_def
        noParams_def demoClient_def GetByClientID_def GetRefreshToken_def demoOrg_def demoEnv_def
        demoUsedState_def demoRefreshState_def demoState_def demoRefresh_def tokenIs_def second_def Let_def)
  have "rt_FamilyID (demoRefresh\<lparr>rt_UsedAt := Some 5\<rparr>) = ''fam''" by (simp add: demoRefresh_def)
  with refresh_reuse_revokes_family [OF h, of demoCrypto] show ?thesis by auto
qed

lemma refreshClaim_lost:
  assumes "refreshClaim env rq token s = (Some reuseDetected, s')" and "rq_org rq = Some o'"
    and "rt_FamilyID token \<noteq> ''''" and "\<not> env_fails env ''revokeRefreshTokenFamily''"
  shows "\<forall>r \<in> set (os_refresh s'). inFamily (rt_FamilyID token) (org_ID o') r \<longrightarrow> rt_RevokedAt r \<noteq> None"
proof -
  have db: "tokenDbError env er \<noteq> reuseDetected" for er
    by (auto simp: tokenDbError_def reuseDetected_def split: flow_response.splits)
  obtain s1 where "s' = handleRefreshTokenReuse env (Some o') token s1"
    using assms(1,2) by (auto simp: refreshClaim_def db split: prod.splits sum.splits if_splits)
  then have rows: "set (os_refresh s') = (\<lambda>r. if inFamily (rt_FamilyID token) (org_ID o') r \<and> rt_RevokedAt r = None
      then r\<lparr>rt_RevokedAt := Some (env_now env)\<rparr> else r) ` set (os_refresh s1)"
    by (simp add: handleRefreshTokenReuse_family [OF assms(3,4)] set_updateWhere)
  show ?thesis by (auto simp: rows)
qed

text \<open>
  The race reuse detection loses. Two requests present the same unused token. The first claims it,
  the second fails to claim it and revokes every token of the family, and only then does the first
  insert its successor: the successor is born into the revoked family unrevoked and unused, and can be
  refreshed.
\<close>

theorem refresh_reuse_race:
  assumes "refreshChecks env rq s = (Inr (token, client), s1)"
    and "refreshChecks env' rq s1 = (Inr (token', client'), s2)"
    and "refreshClaim env rq token s2 = (None, s3)"
    and "refreshClaim env' rq token' s3 = (Some reuseDetected, s4)"
    and "refreshFinish cr env rq token client True s4 = (TokenOK resp, s5)"
    and "\<not> env_fails env ''CreateRefreshToken''" "\<not> env_fails env' ''revokeRefreshTokenFamily''"
    and "rt_FamilyID token \<noteq> ''''"
  shows "\<exists>o'. rq_org rq = Some o'
     \<and> (\<forall>r \<in> set (os_refresh s4). inFamily (rt_FamilyID token) (org_ID o') r \<longrightarrow> rt_RevokedAt r \<noteq> None)
     \<and> (\<exists>t \<in> set (os_refresh s5). inFamily (rt_FamilyID token) (org_ID o') t
          \<and> rt_Token t = tr_RefreshToken resp \<and> rt_RevokedAt t = None \<and> rt_UsedAt t = None)"
proof -
  note a = refreshChecks_Inr [OF assms(1)] and b = refreshChecks_Inr [OF assms(2)]
  from a obtain o' where o': "rq_org rq = Some o'" by (auto dest: GetByClientID_Inr)
  have "token' = token"
    using a b by (auto simp: GetRefreshToken_def o' split: option.splits if_splits)
  with refreshClaim_lost [OF assms(4) o'] assms(7,8)
  have "\<forall>r \<in> set (os_refresh s4). inFamily (rt_FamilyID token) (org_ID o') r \<longrightarrow> rt_RevokedAt r \<noteq> None"
    by simp
  with o' refreshFinish_rotated [OF assms(5) o'] assms(6,8) show ?thesis
    by (fastforce simp: inFamily_def)
qed

theorem refresh_reuse_race_witness:
  "\<exists>s3 s4 resp s5. refreshClaim demoEnv demoRefreshRequest demoRefresh demoRefreshState = (None, s3)
     \<and> refreshClaim demoEnv demoRefreshRequest demoRefresh s3 = (Some reuseDetected, s4)
     \<and> refreshFinish demoCrypto demoEnv demoRefreshRequest demoRefresh (demoClient ''app'' ''confidential'')
         True s4 = (TokenOK resp, s5)
     \<and> (\<exists>t \<in> set (os_refresh s5). inFamily ''fam'' ''acme'' t \<and> rt_RevokedAt t = None \<and> rt_UsedAt t = None)"
proof -
  let ?s3 = "demoRefreshState\<lparr>os_refresh := [demoRefresh\<lparr>rt_UsedAt := Some (env_now demoEnv)\<rparr>]\<rparr>"
  obtain s4 where c2: "refreshClaim demoEnv demoRefreshRequest demoRefresh ?s3 = (Some reuseDetected, s4)"
    by (simp add: refreshClaim_def markRefreshTokenRotated_def demoRefreshRequest_def demoCodeRequest_def
        demoOrg_def demoEnv_def noParams_def countWhere_def tokenIs_def demoRefresh_def Let_def)
  obtain resp s5 where fin: "refreshFinish demoCrypto demoEnv demoRefreshRequest demoRefresh
      (demoClient ''app'' ''confidential'') True s4 = (TokenOK resp, s5)"
    using refreshFinish_OK by blast
  have h: "\<not> env_fails demoEnv ''CreateRefreshToken''" "\<not> env_fails demoEnv ''revokeRefreshTokenFamily''"
      "rt_FamilyID demoRefresh \<noteq> ''''"
    by (simp_all add: demoEnv_def demoRefresh_def)
  have d: "rt_FamilyID demoRefresh = ''fam''" "rq_org demoRefreshRequest = Some (demoOrg ''acme'')"
      "org_ID (demoOrg ''acme'') = ''acme''"
    by (simp_all add: demoRefresh_def demoRefreshRequest_def demoCodeRequest_def demoOrg_def)
  from refresh_reuse_race [OF demoRefresh_checks demoRefresh_checks demoRefresh_claim c2 fin h]
  have "\<exists>t \<in> set (os_refresh s5). inFamily ''fam'' ''acme'' t \<and> rt_RevokedAt t = None \<and> rt_UsedAt t = None"
    by (auto simp: d)
  with demoRefresh_claim c2 fin show ?thesis by blast
qed

section \<open>Introspection and revocation together\<close>

lemma MarkAccessTokenRevoked_refresh [simp]:
  "MarkAccessTokenRevoked h env tok e s = Inr s' \<Longrightarrow> os_refresh s' = os_refresh s"
  by (auto simp: MarkAccessTokenRevoked_def Let_def split: if_splits)

lemma handleRevoke_keys:
  assumes "cr_parse cr (env_now env) (rq_form rq ''token'') = Some c" and "numClaim c ''exp'' = Some e"
    and "0 < e" and "rq_form rq ''token_type_hint'' \<noteq> ''refresh_token''"
    and "MarkAccessTokenRevoked (cr_sha256hex cr) env (rq_form rq ''token'') (e * second) s = Inr s1"
  shows "os_keys (handleRevoke cr env rq s) = os_keys s1"
  using assms by (auto simp: handleRevoke_def RevokeRefreshToken_def Let_def split: sum.splits option.splits)

lemma handleIntrospect_access:
  assumes "cr_parse cr (env_now env) (rq_form rq ''token'') = Some c"
    and "fst (handleIntrospect cr env rq s) = Active k cs"
  shows "\<exists>uid iat. fst (IsAccessTokenRevoked (cr_sha256hex cr) env (rq_form rq ''token'') uid iat s) = Inr False"
proof -
  let ?uid = "case strClaim c ''sub'' of None \<Rightarrow> '''' | Some u \<Rightarrow> u"
  let ?iat = "case numClaim c ''iat'' of None \<Rightarrow> 0 | Some n \<Rightarrow> n"
  obtain res s1 where r: "IsAccessTokenRevoked (cr_sha256hex cr) env (rq_form rq ''token'') ?uid ?iat s = (res, s1)"
    by fastforce
  with assms have "res = Inr False"
    by (cases res; cases "rq_form rq ''token'' = ''''")
       (auto simp: handleIntrospect_def Let_def split: bool.splits)
  with r have "fst (IsAccessTokenRevoked (cr_sha256hex cr) env (rq_form rq ''token'') ?uid ?iat s) = Inr False"
    by simp
  then show ?thesis by blast
qed

text \<open>
  Revocation is visible to introspection. After an access token has been revoked, and Redis stored
  the entry, introspecting it answers inactive until the token expires, whatever fails meanwhile.
\<close>

theorem revoke_then_introspect:
  assumes "cr_parse cr (env_now env) tok = Some c" and "numClaim c ''exp'' = Some e" and "0 < e"
    and "rq_form rq ''token'' = tok" "rq_form rq ''token_type_hint'' \<noteq> ''refresh_token''"
    and "\<not> env_fails env ''redisConfigured''" "\<not> env_fails env ''Set''"
    and "rq_form rq' ''token'' = tok" and "env_now env \<le> env_now env'" "env_now env' < e * second"
    and "cr_parse cr (env_now env') tok = Some c'"
  shows "fst (handleIntrospect cr env' rq' (handleRevoke cr env rq s)) = Inactive"
proof -
  obtain s1 where mark: "MarkAccessTokenRevoked (cr_sha256hex cr) env tok (e * second) s = Inr s1"
    using assms(6,7)
    by (cases "MarkAccessTokenRevoked (cr_sha256hex cr) env tok (e * second) s")
       (auto simp: MarkAccessTokenRevoked_def Let_def split: if_splits)
  let ?s = "handleRevoke cr env rq s"
  have "os_keys ?s = os_keys s1"
    using handleRevoke_keys [of cr env rq c e s s1] assms(1-5) mark by simp
  then have "fst (IsAccessTokenRevoked (cr_sha256hex cr) env' tok uid iat ?s) \<noteq> Inr False" for uid iat
    using revocation_sticky [OF mark assms(9,10)] by simp
  then show ?thesis
    using handleIntrospect_access [of cr env' rq' c' ?s] assms(8,11)
    by (cases "fst (handleIntrospect cr env' rq' ?s)") auto
qed

definition demoJwtCrypto :: crypto where
  "demoJwtCrypto = demoCrypto\<lparr>cr_parse := (\<lambda>now t. if now < 2000 * second \<and> t = ''jwt''
     then Some [''exp'' \<mapsto> CNum 2000, ''sub'' \<mapsto> CStr ''u1'', ''iat'' \<mapsto> CNum 1] else None)\<rparr>"

theorem revoke_then_introspect_witness:
  "fst (handleIntrospect demoJwtCrypto demoEnv (demoCodeRequest\<lparr>rq_form := noParams(''token'' := ''jwt'')\<rparr>)
     (handleRevoke demoJwtCrypto demoEnv (demoCodeRequest\<lparr>rq_form := noParams(''token'' := ''jwt'')\<rparr>) demoState))
   = Inactive"
proof -
  let ?c = "[''exp'' \<mapsto> CNum 2000, ''sub'' \<mapsto> CStr ''u1'', ''iat'' \<mapsto> CNum 1]"
  have p: "cr_parse demoJwtCrypto (env_now demoEnv) ''jwt'' = Some ?c" and t: "env_now demoEnv < 2000 * second"
    by (simp_all add: demoJwtCrypto_def demoEnv_def second_def)
  have e: "numClaim ?c ''exp'' = Some 2000" by (simp add: numClaim_def)
  show ?thesis
    by (rule revoke_then_introspect [OF p e _ _ _ _ _ _ order_refl t p])
       (simp_all add: noParams_def demoEnv_def)
qed

text \<open>
  Introspection does not see revoked refresh tokens. Revoking a refresh token marks its row, which
  the refresh grant respects; the introspection query looks at the expiry only, so the revoked token is
  still reported active until it expires.
\<close>

theorem introspect_ignores_refresh_revocation:
  assumes "RevokeRefreshToken env (Some o') tok s = Inr s'"
    and "r \<in> set (os_refresh s)" and "tokenIs tok (org_ID o') r" and "env_now env' < rt_ExpiresAt r"
    and "\<not> env_fails env' ''introspectRefresh''" and "cr_parse cr (env_now env') tok = None" and "tok \<noteq> ''''"
    and "rq_org rq = Some o'" and "rq_form rq ''token'' = tok"
  shows "(\<exists>c. fst (handleIntrospect cr env' rq s') = Active ''refresh_token'' c)
     \<and> GetRefreshToken env' (Some o') tok s' \<noteq> Inr r'"
proof -
  let ?f = "\<lambda>r. if tokenIs tok (org_ID o') r \<and> rt_RevokedAt r = None
      then r\<lparr>rt_RevokedAt := Some (env_now env)\<rparr> else r"
  have rows: "set (os_refresh s') = ?f ` set (os_refresh s)"
    using assms(1) by (auto simp: RevokeRefreshToken_def set_updateWhere split: if_splits)
  have "?f r \<in> set (os_refresh s')" using assms(2) rows by blast
  moreover have "tokenIs tok (org_ID o') (?f r) \<and> env_now env' < rt_ExpiresAt (?f r)"
    using assms(3,4) by (simp add: tokenIs_def)
  ultimately obtain r0 where "find (\<lambda>r. tokenIs tok (org_ID o') r \<and> env_now env' < rt_ExpiresAt r) (os_refresh s') = Some r0"
    using find_present [of "?f r" "os_refresh s'" "\<lambda>r. tokenIs tok (org_ID o') r \<and> env_now env' < rt_ExpiresAt r"]
    by blast
  then have "\<exists>c. fst (handleIntrospect cr env' rq s') = Active ''refresh_token'' c"
    using assms(5-9) by (simp add: handleIntrospect_def introspectRefresh_def Let_def)
  moreover have "find (\<lambda>r. tokenIs tok (org_ID o') r \<and> rt_RevokedAt r = None) (os_refresh s') = None"
    unfolding find_None_all rows
  proof
    fix r assume "r \<in> ?f ` set (os_refresh s)"
    then obtain x where r: "r = ?f x" by blast
    show "\<not> (tokenIs tok (org_ID o') r \<and> rt_RevokedAt r = None)"
      by (cases "tokenIs tok (org_ID o') x \<and> rt_RevokedAt x = None") (simp_all only: r if_True if_False, simp_all)
  qed
  ultimately show ?thesis by (simp add: GetRefreshToken_def)
qed

theorem introspect_ignores_refresh_revocation_witness:
  "\<exists>s' c. RevokeRefreshToken demoEnv (Some (demoOrg ''acme'')) ''r1'' demoRefreshState = Inr s'
     \<and> fst (handleIntrospect demoCrypto demoEnv (demoCodeRequest\<lparr>rq_form := noParams(''token'' := ''r1'')\<rparr>) s')
        = Active ''refresh_token'' c"
proof -
  obtain s' where rv: "RevokeRefreshToken demoEnv (Some (demoOrg ''acme'')) ''r1'' demoRefreshState = Inr s'"
    by (simp add: RevokeRefreshToken_def demoEnv_def)
  have h: "demoRefresh \<in> set (os_refresh demoRefreshState)" "tokenIs ''r1'' (org_ID (demoOrg ''acme'')) demoRefresh"
      "env_now demoEnv < rt_ExpiresAt demoRefresh" "\<not> env_fails demoEnv ''introspectRefresh''"
      "cr_parse demoCrypto (env_now demoEnv) ''r1'' = None" "''r1'' \<noteq> ''''"
      "rq_org (demoCodeRequest\<lparr>rq_form := noParams(''token'' := ''r1'')\<rparr>) = Some (demoOrg ''acme'')"
      "rq_form (demoCodeRequest\<lparr>rq_form := noParams(''token'' := ''r1'')\<rparr>) ''token'' = ''r1''"
    by (simp_all add: demoRefreshState_def tokenIs_def demoOrg_def demoRefresh_def demoEnv_def demoCrypto_def
        demoCodeRequest_def second_def)
  from introspect_ignores_refresh_revocation [OF rv h] rv show ?thesis by (auto simp: demoEnv_def)
qed

end
