(* ===== verification/OAuth_Exchange.thy ===== *)
theory OAuth_Exchange
  imports OAuth_Token
begin

text \<open>
  Token exchange (\<^verbatim>\<open>internal/oauth/token_exchange.go\<close>, with the two helpers of
  \<^verbatim>\<open>dcr.go\<close> it uses): a client trades a token this service issued for a narrower one, as the
  subject or, with an actor token, on behalf of the subject.

  JWT verification is the parameter \<open>cr_parse\<close>; the library call of this file pins RS256, which the
  key function of the other handlers enforces too.
\<close>

definition grantTypeTokenExchange :: string where
  "grantTypeTokenExchange = ''urn:ietf:params:oauth:grant-type:token-exchange''"

definition tokenTypeAccessToken :: string where
  "tokenTypeAccessToken = ''urn:ietf:params:oauth:token-type:access_token''"

definition tokenTypeJWT :: string where
  "tokenTypeJWT = ''urn:ietf:params:oauth:token-type:jwt''"

definition isSupportedTokenType :: "string \<Rightarrow> bool" where
  "isSupportedTokenType t \<longleftrightarrow> t = tokenTypeAccessToken \<or> t = tokenTypeJWT"

definition narrowScope :: "string \<Rightarrow> string \<Rightarrow> string" where
  "narrowScope subjectScope requestedScope =
     (if trimSpace requestedScope = '''' then subjectScope
      else joinWith '' '' (filter (\<lambda>w. w \<in> set (stringFields subjectScope)) (stringFields requestedScope)))"

definition firstNonEmptyStr :: "string list \<Rightarrow> string" where
  "firstNonEmptyStr vals =
     (case find (\<lambda>v. trimSpace v \<noteq> '''') vals of None \<Rightarrow> '''' | Some v \<Rightarrow> v)"

definition containsString :: "string list \<Rightarrow> string \<Rightarrow> bool" where
  "containsString xs want = list_ex (\<lambda>v. v = want) xs"

text \<open>\<^verbatim>\<open>http.Request.BasicAuth\<close>: unlike \<open>basicClientAuth\<close> it does not URL-decode the two parts.\<close>

definition requestBasicAuth :: "request \<Rightarrow> (string \<times> string) option" where
  "requestBasicAuth rq =
     (let header = rq_authorization rq in
      if length header < 6 \<or> toLower (take 6 header) \<noteq> ''basic '' then None
      else (case b64Decode (drop 6 header) of
              None \<Rightarrow> None
            | Some raw \<Rightarrow> cutAt CHR '':'' raw))"

definition authenticateExchangeClient :: "env \<Rightarrow> request \<Rightarrow> oauth_state \<Rightarrow> OAuthClient option" where
  "authenticateExchangeClient env rq s =
     (let (clientID, clientSecret) =
            (if rq_form rq ''client_id'' = '''' then
               (case requestBasicAuth rq of
                  Some (i, secret) \<Rightarrow> (i, secret)
                | None \<Rightarrow> (rq_form rq ''client_id'', rq_form rq ''client_secret''))
             else (rq_form rq ''client_id'', rq_form rq ''client_secret''))
      in if clientID = '''' then None
         else (case GetByClientID env (rq_org rq) (os_clients s) clientID of
                 Inl _ \<Rightarrow> None
               | Inr client \<Rightarrow>
                   (if oc_Type client = ''confidential''
                       \<and> (clientSecret = '''' \<or> oc_ClientSecret client \<noteq> clientSecret) then None
                    else Some client)))"

definition exchangeLifetime :: "OAuthClient \<Rightarrow> int" where
  "exchangeLifetime client =
     (if oc_AccessTokenLifetime client \<le> 0 then 3600 else oc_AccessTokenLifetime client)"

definition copyClaims :: "string list \<Rightarrow> claims \<Rightarrow> claims \<Rightarrow> claims" where
  "copyClaims ks from c = (\<lambda>k. if k \<in> set ks \<and> from k \<noteq> None then from k else c k)"

definition actClaim :: "claims \<Rightarrow> claims \<Rightarrow> claim" where
  "actClaim subjectClaims actorClaims = CObj (copyClaims [''act''] subjectClaims
     (copyClaims [''client_id''] actorClaims
       [''sub'' \<mapsto> (case actorClaims ''sub'' of None \<Rightarrow> CNull | Some v \<Rightarrow> v)]))"

definition exchangeClaims ::
    "env \<Rightarrow> string \<Rightarrow> string \<Rightarrow> string \<Rightarrow> claims \<Rightarrow> claims option \<Rightarrow> OAuthClient \<Rightarrow> claims" where
  "exchangeClaims env subject audience scope subjectClaims actorClaims client =
     (let base = map_of
            [(''sub'', CStr subject), (''aud'', CStr audience), (''client_id'', CStr (oc_ClientID client)),
             (''scope'', CStr scope), (''iss'', CStr (sc_issuer (env_config env))),
             (''iat'', CNum (unix (env_now env))),
             (''exp'', CNum (unix (env_now env + exchangeLifetime client * second)))];
          kept = copyClaims [''email'', ''name'', ''roles'', ''groups''] subjectClaims base
      in case actorClaims of
           None \<Rightarrow> kept
         | Some a \<Rightarrow> kept(''act'' \<mapsto> actClaim subjectClaims a))"

definition teError :: "string \<Rightarrow> string \<Rightarrow> token_response" where
  "teError code desc = TokenError 400 code desc"

text \<open>The optional actor token.\<close>

definition exchangeActor :: "crypto \<Rightarrow> env \<Rightarrow> request \<Rightarrow> token_response + claims option" where
  "exchangeActor cr env rq =
     (if rq_form rq ''actor_token'' = '''' then Inr None
      else if rq_form rq ''actor_token_type'' \<noteq> '''' \<and> \<not> isSupportedTokenType (rq_form rq ''actor_token_type'')
      then Inl (teError ''invalid_request'' ''unsupported actor_token_type'')
      else (case cr_parse cr (env_now env) (rq_form rq ''actor_token'') of
              None \<Rightarrow> Inl (teError ''invalid_grant'' ''actor_token is invalid or expired'')
            | Some a \<Rightarrow> Inr (Some a)))"

definition strOrEmpty :: "claims \<Rightarrow> string \<Rightarrow> string" where
  "strOrEmpty c k = (case strClaim c k of None \<Rightarrow> '''' | Some v \<Rightarrow> v)"

definition exchangeIssue ::
    "crypto \<Rightarrow> env \<Rightarrow> request \<Rightarrow> OAuthClient \<Rightarrow> claims \<Rightarrow> claims option \<Rightarrow> token_response" where
  "exchangeIssue cr env rq client subjectClaims actorClaims =
     (let grantedScope = narrowScope (strOrEmpty subjectClaims ''scope'') (rq_form rq ''scope'');
          audience = firstNonEmptyStr [rq_form rq ''audience'', rq_form rq ''resource'', oc_ClientID client]
      in case cr_sign cr (exchangeClaims env (strOrEmpty subjectClaims ''sub'') audience grantedScope
                subjectClaims actorClaims client) of
           None \<Rightarrow> teError ''invalid_request'' ''could not issue token''
         | Some issued \<Rightarrow>
             TokenOK \<lparr>tr_AccessToken = issued, tr_TokenType = ''Bearer'',
               tr_ExpiresIn = exchangeLifetime client, tr_RefreshToken = '''', tr_IDToken = '''',
               tr_Scope = grantedScope\<rparr>)"

definition handleTokenExchangeGrant :: "crypto \<Rightarrow> env \<Rightarrow> request \<Rightarrow> oauth_state \<Rightarrow> token_response" where
  "handleTokenExchangeGrant cr env rq s =
     (if rq_form rq ''subject_token'' = '''' then teError ''invalid_request'' ''subject_token is required''
      else if rq_form rq ''subject_token_type'' \<noteq> ''''
           \<and> \<not> isSupportedTokenType (rq_form rq ''subject_token_type'') then
        teError ''invalid_request'' ''unsupported subject_token_type''
      else (case authenticateExchangeClient env rq s of
              None \<Rightarrow> teError ''invalid_client'' ''client authentication failed''
            | Some client \<Rightarrow>
                (if \<not> containsString (oc_GrantTypes client) grantTypeTokenExchange then
                   teError ''unauthorized_client'' ''client is not authorized for token exchange''
                 else (case cr_parse cr (env_now env) (rq_form rq ''subject_token'') of
                         None \<Rightarrow> teError ''invalid_grant'' ''subject_token is invalid or expired''
                       | Some subjectClaims \<Rightarrow>
                           (case exchangeActor cr env rq of
                              Inl refusal \<Rightarrow> refusal
                            | Inr actorClaims \<Rightarrow> exchangeIssue cr env rq client subjectClaims actorClaims)))))"

section \<open>Properties\<close>

lemma narrowScope_subset:
  "set (stringFields (narrowScope have want)) \<subseteq> set (stringFields have)"
proof (cases "trimSpace want = ''''")
  case False
  let ?ws = "filter (\<lambda>w. w \<in> set (stringFields have)) (stringFields want)"
  have "list_all cleanWord ?ws" by (auto simp: list_all_iff dest: stringFields_words)
  then have "stringFields (narrowScope have want) = ?ws"
    using False by (simp add: narrowScope_def stringFields_joinWith)
  then show ?thesis by auto
qed (simp add: narrowScope_def)

lemma authenticateExchangeClient_Some:
  assumes "authenticateExchangeClient env rq s = Some client"
  shows "\<exists>o' sec. rq_org rq = Some o' \<and> (org_ID o', client) \<in> set (os_clients s)
    \<and> (oc_Type client = ''confidential'' \<longrightarrow> oc_ClientSecret client = sec \<and> sec \<noteq> '''')"
  using assms
  by (auto simp: authenticateExchangeClient_def Let_def split: if_splits sum.splits option.splits prod.splits
      dest!: GetByClientID_Inr)

lemma teError_not_OK [simp]: "teError c d \<noteq> TokenOK r"
  by (simp add: teError_def)

lemma exchangeActor_Inr:
  "exchangeActor cr env rq = Inr ac \<Longrightarrow>
     (if rq_form rq ''actor_token'' = '''' then ac = None
      else \<exists>a. cr_parse cr (env_now env) (rq_form rq ''actor_token'') = Some a \<and> ac = Some a)"
  by (cases ac) (auto simp: exchangeActor_def split: if_splits option.splits)

lemma exchangeActor_refusal: "exchangeActor cr env rq \<noteq> Inl (TokenOK r)"
  by (auto simp: exchangeActor_def split: option.splits)

lemma exchangeIssue_OK:
  "exchangeIssue cr env rq client sc ac = TokenOK resp \<Longrightarrow>
     tr_Scope resp = narrowScope (strOrEmpty sc ''scope'') (rq_form rq ''scope'')
     \<and> cr_sign cr (exchangeClaims env (strOrEmpty sc ''sub'')
          (firstNonEmptyStr [rq_form rq ''audience'', rq_form rq ''resource'', oc_ClientID client])
          (tr_Scope resp) sc ac client) = Some (tr_AccessToken resp)"
  by (auto simp: exchangeIssue_def Let_def split: option.splits)

lemma handleTokenExchangeGrant_OK:
  assumes "handleTokenExchangeGrant cr env rq s = TokenOK resp"
  shows "\<exists>client sc ac. authenticateExchangeClient env rq s = Some client
    \<and> containsString (oc_GrantTypes client) grantTypeTokenExchange
    \<and> cr_parse cr (env_now env) (rq_form rq ''subject_token'') = Some sc
    \<and> exchangeActor cr env rq = Inr ac \<and> exchangeIssue cr env rq client sc ac = TokenOK resp"
  using assms exchangeActor_refusal
  by (auto simp: handleTokenExchangeGrant_def split: if_splits option.splits sum.splits)

lemma exchangeClaims_fields:
  "strClaim (exchangeClaims env sub aud sc subj ac client) ''sub'' = Some sub"
  "strClaim (exchangeClaims env sub aud sc subj ac client) ''scope'' = Some sc"
  "exchangeClaims env sub aud sc subj None client ''act'' = None"
  "exchangeClaims env sub aud sc subj (Some a) client ''act'' = Some (actClaim subj a)"
  by (simp_all add: exchangeClaims_def strClaim_def copyClaims_def Let_def split: option.splits)

text \<open>
  C10: token exchange never escalates. A success comes from a registered client of the tenant that
  holds the token-exchange grant, for a valid subject token; the new token has the same subject and
  only scopes the subject token had. With an actor token it names the actor in the \<^verbatim>\<open>act\<close> claim and
  nests the chain the subject token carried; without one it has no \<^verbatim>\<open>act\<close> claim at all.
\<close>

theorem exchange_never_escalates:
  assumes "handleTokenExchangeGrant cr env rq s = TokenOK resp"
  shows "\<exists>o' client subj claims. rq_org rq = Some o' \<and> (org_ID o', client) \<in> set (os_clients s)
     \<and> grantTypeTokenExchange \<in> set (oc_GrantTypes client)
     \<and> cr_parse cr (env_now env) (rq_form rq ''subject_token'') = Some subj
     \<and> cr_sign cr claims = Some (tr_AccessToken resp)
     \<and> strClaim claims ''sub'' = Some (strOrEmpty subj ''sub'')
     \<and> strClaim claims ''scope'' = Some (tr_Scope resp)
     \<and> set (stringFields (tr_Scope resp)) \<subseteq> set (stringFields (strOrEmpty subj ''scope''))
     \<and> (if rq_form rq ''actor_token'' = '''' then claims ''act'' = None
        else \<exists>a. cr_parse cr (env_now env) (rq_form rq ''actor_token'') = Some a
               \<and> claims ''act'' = Some (actClaim subj a))"
proof -
  from handleTokenExchangeGrant_OK [OF assms] obtain client sc ac where
    c: "authenticateExchangeClient env rq s = Some client"
      "containsString (oc_GrantTypes client) grantTypeTokenExchange"
      "cr_parse cr (env_now env) (rq_form rq ''subject_token'') = Some sc"
    and ac: "exchangeActor cr env rq = Inr ac" and iss: "exchangeIssue cr env rq client sc ac = TokenOK resp"
    by blast
  note i = exchangeIssue_OK [OF iss]
  from authenticateExchangeClient_Some [OF c(1)] obtain o' where
    o': "rq_org rq = Some o'" "(org_ID o', client) \<in> set (os_clients s)" by blast
  let ?claims = "exchangeClaims env (strOrEmpty sc ''sub'')
         (firstNonEmptyStr [rq_form rq ''audience'', rq_form rq ''resource'', oc_ClientID client])
         (tr_Scope resp) sc ac client"
  have gt: "grantTypeTokenExchange \<in> set (oc_GrantTypes client)"
    using c(2) by (simp add: containsString_def list_ex_iff)
  have act: "if rq_form rq ''actor_token'' = '''' then ?claims ''act'' = None
        else \<exists>a. cr_parse cr (env_now env) (rq_form rq ''actor_token'') = Some a
               \<and> ?claims ''act'' = Some (actClaim sc a)"
    using exchangeActor_Inr [OF ac] exchangeClaims_fields(3,4) by (cases ac) (auto split: if_splits)
  have scope: "set (stringFields (tr_Scope resp)) \<subseteq> set (stringFields (strOrEmpty sc ''scope''))"
    using i narrowScope_subset by simp
  show ?thesis
    using o' gt c(3) i act scope exchangeClaims_fields(1,2) by blast
qed

definition demoExchangeClient :: OAuthClient where
  "demoExchangeClient = (demoClient ''app'' ''confidential'')\<lparr>oc_GrantTypes := [grantTypeTokenExchange]\<rparr>"

definition demoExchangeState :: oauth_state where
  "demoExchangeState = demoState\<lparr>os_clients := [(''acme'', demoExchangeClient)]\<rparr>"

definition demoExchangeRequest :: request where
  "demoExchangeRequest = demoCodeRequest\<lparr>rq_form := noParams(''client_id'' := ''app'',
     ''client_secret'' := ''s3cret'', ''subject_token'' := ''jwt'')\<rparr>"

theorem exchange_never_escalates_witness:
  "\<exists>resp. handleTokenExchangeGrant demoJwtCrypto demoEnv demoExchangeRequest demoExchangeState = TokenOK resp
     \<and> set (stringFields (tr_Scope resp)) \<subseteq> set (stringFields '''')"
proof -
  have auth: "authenticateExchangeClient demoEnv demoExchangeRequest demoExchangeState = Some demoExchangeClient"
    by (simp add: authenticateExchangeClient_def GetByClientID_def demoExchangeRequest_def demoCodeRequest_def
        demoOrg_def demoEnv_def demoExchangeState_def demoExchangeClient_def demoClient_def)
  have p: "cr_parse demoJwtCrypto (env_now demoEnv) (rq_form demoExchangeRequest ''subject_token'')
      = Some [''exp'' \<mapsto> CNum 2000, ''sub'' \<mapsto> CStr ''u1'', ''iat'' \<mapsto> CNum 1]"
    by (simp add: demoJwtCrypto_def demoEnv_def demoExchangeRequest_def second_def)
  have form: "rq_form demoExchangeRequest k = '''' \<longleftrightarrow> k \<notin> {''client_id'', ''client_secret'', ''subject_token''}" for k
    by (simp add: demoExchangeRequest_def noParams_def)
  have sg: "cr_sign demoJwtCrypto c = Some ''jwt''" for c
    by (simp add: demoJwtCrypto_def demoCrypto_def)
  have gt: "containsString (oc_GrantTypes demoExchangeClient) grantTypeTokenExchange"
    by (simp add: containsString_def demoExchangeClient_def)
  obtain resp where run: "handleTokenExchangeGrant demoJwtCrypto demoEnv demoExchangeRequest demoExchangeState
      = TokenOK resp"
    by (simp add: handleTokenExchangeGrant_def exchangeActor_def exchangeIssue_def auth gt p form sg Let_def)
  from exchange_never_escalates [OF run] p run show ?thesis
    by (auto simp: strOrEmpty_def strClaim_def)
qed

text \<open>
  Token exchange does not look at revocation. Its answer is the same whatever the blacklist and
  the user-wide cut-off in Redis say, so a revoked subject or actor token that has not expired is still
  exchanged for a fresh one.
\<close>

theorem exchange_ignores_revocation:
  "handleTokenExchangeGrant cr env rq (s\<lparr>os_keys := keys\<rparr>) = handleTokenExchangeGrant cr env rq s"
proof -
  have "os_clients (s\<lparr>os_keys := keys\<rparr>) = os_clients s" by simp
  then have "authenticateExchangeClient env rq (s\<lparr>os_keys := keys\<rparr>) = authenticateExchangeClient env rq s"
    unfolding authenticateExchangeClient_def by (rule arg_cong)
  then show ?thesis unfolding handleTokenExchangeGrant_def by (simp only:)
qed

end
