(* ===== verification/OAuth_Device.thy ===== *)
theory OAuth_Device
  imports OAuth_Exchange
begin

text \<open>
  The device authorization grant (\<^verbatim>\<open>internal/oauth/device_flow.go\<close>): issue of a device code and a user
  code, polling with back-off, the user's decision, and redemption.

  The rows of \<^verbatim>\<open>oauth_device_codes\<close> are \<open>os_devices\<close>; an insert that would break the primary key or
  one of the two unique indexes fails, as the database makes it. The stored hash of a device code is
  \<open>cr_sha256hex\<close>. \<open>rq_user\<close> is what \<^verbatim>\<open>currentUserID\<close> finds in the request context.
\<close>

section \<open>Codes\<close>

definition grantTypeDeviceCode :: string where
  "grantTypeDeviceCode = ''urn:ietf:params:oauth:grant-type:device_code''"

definition deviceCodeLifetime :: int where
  "deviceCodeLifetime = 10 * minute"

definition devicePollInterval :: int where
  "devicePollInterval = 5"

definition deviceUserCodeLength :: nat where
  "deviceUserCodeLength = 8"

definition deviceUserCodeAlphabet :: string where
  "deviceUserCodeAlphabet = ''ACDEFGHJKMNPQRTUVWXY''"

definition normalizeUserCode :: "string \<Rightarrow> string" where
  "normalizeUserCode inp =
     filter (\<lambda>r. \<not> (r = CHR ''-'' \<or> r = CHR '' '' \<or> byteOf r = 9 \<or> r = CHR ''_'')) (toUpper (trimSpace inp))"

definition formatUserCode :: "string \<Rightarrow> string" where
  "formatUserCode code =
     (if length code \<noteq> deviceUserCodeLength then code else take 4 code @ ''-'' @ drop 4 code)"

text \<open>The random draw is the list of indexes into the alphabet.\<close>

definition randomUserCode :: "nat list \<Rightarrow> string" where
  "randomUserCode draws = map (\<lambda>i. deviceUserCodeAlphabet ! (draws ! i mod length deviceUserCodeAlphabet))
     [0..<deviceUserCodeLength]"

definition deviceVerificationURI :: "env \<Rightarrow> Org \<Rightarrow> string" where
  "deviceVerificationURI env org =
     (let base0 = (if sc_publicBaseURL (env_config env) \<noteq> '''' then sc_publicBaseURL (env_config env)
                   else issuerForOrg env org);
          base = rev (dropWhile (\<lambda>c. c = CHR ''/'') (rev base0));
          base' = (if \<not> hasPrefix base ''http://'' \<and> \<not> hasPrefix base ''https://''
                   then ''http://localhost:3000'' else base)
      in base' @ ''/device'')"

section \<open>Issue\<close>

datatype device_response =
    DeviceError nat string
  | DeviceIssued string string string
  | DeviceInfo string string string string string int
  | DeviceDecided string

definition insertDevice :: "env \<Rightarrow> deviceCodeRecord \<Rightarrow> oauth_state \<Rightarrow> oauth_state option" where
  "insertDevice env r s =
     (if env_fails env ''insertDevice''
         \<or> list_ex (\<lambda>d. dc_ID d = dc_ID r \<or> dc_Hash d = dc_Hash r
              \<or> (dc_OrgID d = dc_OrgID r \<and> dc_UserCode d = dc_UserCode r)) (os_devices s)
      then None else Some (s\<lparr>os_devices := os_devices s @ [r]\<rparr>))"

text \<open>\<open>codes\<close> are the random candidates, one per attempt.\<close>

fun issueAttempts ::
    "env \<Rightarrow> deviceCodeRecord \<Rightarrow> string list \<Rightarrow> oauth_state \<Rightarrow> (string \<times> oauth_state) option" where
  "issueAttempts env r [] s = None"
| "issueAttempts env r (code # codes) s =
     (case insertDevice env (r\<lparr>dc_UserCode := code\<rparr>) s of
        Some s' \<Rightarrow> Some (code, s')
      | None \<Rightarrow> issueAttempts env r codes s)"

definition deviceAuthorizationChecks ::
    "env \<Rightarrow> request \<Rightarrow> oauth_state \<Rightarrow> device_response + (Org \<times> string)" where
  "deviceAuthorizationChecks env rq s =
     (case rq_org rq of
        None \<Rightarrow> Inl (DeviceError 400 ''invalid_request'')
      | Some o' \<Rightarrow>
          (case clientCredentials rq of
             None \<Rightarrow> Inl (DeviceError 400 ''invalid_request'')
           | Some (clientID, clientSecret) \<Rightarrow>
               (if clientID = '''' then Inl (DeviceError 400 ''invalid_request'')
                else (case GetByClientID env (rq_org rq) (os_clients s) clientID of
                        Inl _ \<Rightarrow> Inl (DeviceError 401 ''invalid_client'')
                      | Inr client \<Rightarrow>
                          (if oc_Type client = ''confidential'' \<and> oc_ClientSecret client \<noteq> clientSecret then
                             Inl (DeviceError 401 ''invalid_client'')
                           else if rq_form rq ''scope'' \<noteq> ''''
                                \<and> \<not> scopeAllowedForClient (Some client) (rq_form rq ''scope'') then
                             Inl (DeviceError 400 ''invalid_scope'')
                           else Inr (o', clientID))))))"

definition sweepDevices :: "env \<Rightarrow> string \<Rightarrow> oauth_state \<Rightarrow> oauth_state" where
  "sweepDevices env orgID s =
     (if env_fails env ''deviceSweep'' then s
      else s\<lparr>os_devices := deleteWhere (\<lambda>d. dc_OrgID d = orgID \<and> dc_ExpiresAt d < env_now env - hour)
                            (os_devices s)\<rparr>)"

definition newDevice :: "crypto \<Rightarrow> env \<Rightarrow> string \<Rightarrow> string \<Rightarrow> string \<Rightarrow> deviceCodeRecord" where
  "newDevice cr env orgID clientID scope =
     \<lparr>dc_ID = env_fresh env ''device_id'', dc_Hash = cr_sha256hex cr (env_fresh env ''device_code''),
      dc_UserCode = '''', dc_ClientID = clientID, dc_Scope = scope, dc_State = ''pending'',
      dc_UserID = None, dc_OrgID = orgID, dc_Interval = devicePollInterval, dc_LastPolledAt = None,
      dc_ConsumedAt = None, dc_ExpiresAt = env_now env + deviceCodeLifetime\<rparr>"

definition handleDeviceAuthorization ::
    "crypto \<Rightarrow> env \<Rightarrow> (nat \<Rightarrow> nat list) \<Rightarrow> request \<Rightarrow> oauth_state \<Rightarrow> device_response \<times> oauth_state" where
  "handleDeviceAuthorization cr env draws rq s =
     (case deviceAuthorizationChecks env rq s of
        Inl refusal \<Rightarrow> (refusal, s)
      | Inr (o', clientID) \<Rightarrow>
          (let s1 = sweepDevices env (org_ID o') s
           in if env_fails env ''randomUserCode'' then (DeviceError 500 ''server_error'', s1)
              else (case issueAttempts env (newDevice cr env (org_ID o') clientID (rq_form rq ''scope''))
                           (map (\<lambda>i. randomUserCode (draws i)) [0..<5]) s1 of
                      None \<Rightarrow> (DeviceError 500 ''server_error'', s1)
                    | Some (userCode, s2) \<Rightarrow>
                        (DeviceIssued (env_fresh env ''device_code'') (formatUserCode userCode)
                           (deviceVerificationURI env o'), s2))))"

section \<open>Polling\<close>

definition loadDeviceCodeByHash :: "env \<Rightarrow> string \<Rightarrow> string \<Rightarrow> oauth_state \<Rightarrow> oauth_error + deviceCodeRecord" where
  "loadDeviceCodeByHash env hash orgID s =
     (if env_fails env ''loadDeviceCode'' then Inl ErrDatabase
      else (case find (\<lambda>d. dc_Hash d = hash \<and> dc_OrgID d = orgID) (os_devices s) of
              None \<Rightarrow> Inl ErrNoRows | Some d \<Rightarrow> Inr d))"

definition updateDevice :: "string \<Rightarrow> (deviceCodeRecord \<Rightarrow> deviceCodeRecord) \<Rightarrow> oauth_state \<Rightarrow> oauth_state" where
  "updateDevice did f s = s\<lparr>os_devices := updateWhere (\<lambda>d. dc_ID d = did) f (os_devices s)\<rparr>"

text \<open>Answers whether the poll came too soon, and the interval the client should use.\<close>

definition throttleDevicePoll :: "env \<Rightarrow> deviceCodeRecord \<Rightarrow> oauth_state \<Rightarrow> (bool \<times> int) \<times> oauth_state" where
  "throttleDevicePoll env rec s =
     (let now = env_now env;
          touch = (if env_fails env ''devicePoll'' then s
                   else updateDevice (dc_ID rec) (\<lambda>d. d\<lparr>dc_LastPolledAt := Some now\<rparr>) s)
      in case dc_LastPolledAt rec of
           None \<Rightarrow> ((False, dc_Interval rec), touch)
         | Some t \<Rightarrow>
             (if dc_Interval rec * second \<le> now - t then ((False, dc_Interval rec), touch)
              else (let nxt = dc_Interval rec + devicePollInterval
                    in ((True, nxt),
                        if env_fails env ''devicePoll'' then s
                        else updateDevice (dc_ID rec)
                               (\<lambda>d. d\<lparr>dc_Interval := nxt, dc_LastPolledAt := Some now\<rparr>) s))))"

definition claimable :: "env \<Rightarrow> string \<Rightarrow> deviceCodeRecord \<Rightarrow> bool" where
  "claimable env did d \<longleftrightarrow> dc_ID d = did \<and> dc_ConsumedAt d = None \<and> dc_State d = ''approved''
     \<and> env_now env < dc_ExpiresAt d"

definition claimApprovedDeviceCode :: "env \<Rightarrow> string \<Rightarrow> oauth_state \<Rightarrow> (oauth_error + string) \<times> oauth_state" where
  "claimApprovedDeviceCode env did s =
     (if env_fails env ''claimDevice'' then (Inl ErrDatabase, s)
      else (let s1 = s\<lparr>os_devices := updateWhere (claimable env did)
                        (\<lambda>d. d\<lparr>dc_ConsumedAt := Some (env_now env)\<rparr>) (os_devices s)\<rparr>
            in case find (claimable env did) (os_devices s) of
                 None \<Rightarrow> (Inl ErrNoRows, s1)
               | Some d \<Rightarrow> (Inr (case dc_UserID d of None \<Rightarrow> '''' | Some u \<Rightarrow> u), s1)))"

definition issueDeviceTokens ::
    "crypto \<Rightarrow> env \<Rightarrow> Org option \<Rightarrow> string \<Rightarrow> OAuthClient \<Rightarrow> string \<Rightarrow> string \<Rightarrow> oauth_state
       \<Rightarrow> token_response \<times> oauth_state" where
  "issueDeviceTokens cr env org clientID client userID scope s =
     (case GenerateJWT (cr_sign cr) env org userID clientID scope (oc_AccessTokenLifetime client) '''' s of
        Inl _ \<Rightarrow> (TokenError 500 ''server_error'' '''', s)
      | Inr access \<Rightarrow>
          (let resp = tokenBody access client scope;
               resp1 = (if containsStr scope ''openid'' then
                          (case GenerateIDToken (cr_hmac cr) (cr_sign cr) env org userID clientID ''''
                                  (oc_AccessTokenLifetime client) '''' s of
                             Inl _ \<Rightarrow> resp | Inr t \<Rightarrow> resp\<lparr>tr_IDToken := t\<rparr>)
                        else resp)
           in if oc_AllowRefreshToken client \<and> containsStr scope ''offline_access'' then
                (case attachRefresh env org (newRefresh env clientID userID scope ''''
                         (oc_RefreshTokenLifetime client) '''') resp1 s of
                   (resp2, s1) \<Rightarrow> (TokenOK resp2, s1))
              else (TokenOK resp1, s)))"

text \<open>What follows once the poll is not too fast: the row is the one read before the throttle.\<close>

definition redeemDevice ::
    "crypto \<Rightarrow> env \<Rightarrow> Org option \<Rightarrow> OAuthClient \<Rightarrow> deviceCodeRecord \<Rightarrow> oauth_state
       \<Rightarrow> token_response \<times> oauth_state" where
  "redeemDevice cr env org client rec s =
     (if dc_State rec = ''denied'' then (TokenError 400 ''access_denied'' '''', s)
      else if dc_State rec \<noteq> ''approved'' then (TokenError 400 ''authorization_pending'' '''', s)
      else (case claimApprovedDeviceCode env (dc_ID rec) s of
              (Inl ErrNoRows, s1) \<Rightarrow> (TokenError 400 ''invalid_grant'' '''', s1)
            | (Inl _, s1) \<Rightarrow> (TokenError 500 ''server_error'' '''', s1)
            | (Inr userID, s1) \<Rightarrow>
                (if userID = '''' then (TokenError 500 ''server_error'' '''', s1)
                 else issueDeviceTokens cr env org (dc_ClientID rec) client userID (dc_Scope rec) s1)))"

definition pollChecks ::
    "crypto \<Rightarrow> env \<Rightarrow> request \<Rightarrow> oauth_state \<Rightarrow> token_response + (deviceCodeRecord \<times> OAuthClient)" where
  "pollChecks cr env rq s =
     (case rq_org rq of
        None \<Rightarrow> Inl (TokenError 400 ''invalid_request'' '''')
      | Some o' \<Rightarrow>
          (case clientCredentials rq of
             None \<Rightarrow> Inl oneMethod
           | Some (clientID, clientSecret) \<Rightarrow>
               (if rq_form rq ''device_code'' = '''' then
                  Inl (TokenError 400 ''invalid_request'' ''device_code is required'')
                else (case loadDeviceCodeByHash env (cr_sha256hex cr (rq_form rq ''device_code'')) (org_ID o') s of
                        Inl er \<Rightarrow> Inl (if er = ErrNoRows then TokenError 400 ''invalid_grant'' ''''
                                      else TokenError 500 ''server_error'' '''')
                      | Inr rec \<Rightarrow>
                          (if dc_ClientID rec \<noteq> clientID then Inl (TokenError 400 ''invalid_grant'' '''')
                           else (case GetByClientID env (rq_org rq) (os_clients s) clientID of
                                   Inl _ \<Rightarrow> Inl (TokenError 401 ''invalid_client'' '''')
                                 | Inr client \<Rightarrow>
                                     (if oc_Type client = ''confidential'' \<and> oc_ClientSecret client \<noteq> clientSecret then
                                        Inl (TokenError 401 ''invalid_client'' '''')
                                      else if dc_ConsumedAt rec \<noteq> None then
                                        Inl (TokenError 400 ''invalid_grant'' '''')
                                      else if dc_ExpiresAt rec < env_now env then
                                        Inl (TokenError 400 ''expired_token'' '''')
                                      else Inr (rec, client))))))))"

definition handleDeviceCodeGrant ::
    "crypto \<Rightarrow> env \<Rightarrow> request \<Rightarrow> oauth_state \<Rightarrow> token_response \<times> oauth_state" where
  "handleDeviceCodeGrant cr env rq s =
     (case pollChecks cr env rq s of
        Inl refusal \<Rightarrow> (refusal, s)
      | Inr (rec, client) \<Rightarrow>
          (case throttleDevicePoll env rec s of
             ((tooFast, _), s1) \<Rightarrow>
               (if tooFast then (TokenError 400 ''slow_down'' '''', s1)
                else redeemDevice cr env (rq_org rq) client rec s1)))"

section \<open>The user's side\<close>

definition decidable :: "env \<Rightarrow> string \<Rightarrow> string \<Rightarrow> deviceCodeRecord \<Rightarrow> bool" where
  "decidable env userCode orgID d \<longleftrightarrow> dc_UserCode d = userCode \<and> dc_OrgID d = orgID
     \<and> dc_State d = ''pending'' \<and> dc_ConsumedAt d = None \<and> env_now env < dc_ExpiresAt d"

definition decideDeviceCode ::
    "env \<Rightarrow> string \<Rightarrow> string \<Rightarrow> string \<Rightarrow> string \<Rightarrow> oauth_state \<Rightarrow> (oauth_error + string \<times> string) \<times> oauth_state" where
  "decideDeviceCode env normalizedUserCode orgID nxt userID s =
     (if env_fails env ''decideDevice'' then (Inl ErrDatabase, s)
      else (let s1 = s\<lparr>os_devices := updateWhere (decidable env normalizedUserCode orgID)
                        (\<lambda>d. d\<lparr>dc_State := nxt, dc_UserID := Some userID\<rparr>) (os_devices s)\<rparr>
            in case find (decidable env normalizedUserCode orgID) (os_devices s) of
                 None \<Rightarrow> (Inl ErrNoRows, s1)
               | Some d \<Rightarrow> (Inr (dc_ID d, dc_ClientID d), s1)))"

definition resolveUserCode :: "env \<Rightarrow> string \<Rightarrow> string \<Rightarrow> oauth_state \<Rightarrow> oauth_error + deviceCodeRecord" where
  "resolveUserCode env userCode orgID s =
     (let normalized = normalizeUserCode userCode in
      if normalized = '''' then Inl ErrNoRows
      else if env_fails env ''resolveUserCode'' then Inl ErrDatabase
      else (case find (\<lambda>d. dc_UserCode d = normalized \<and> dc_OrgID d = orgID) (os_devices s) of
              None \<Rightarrow> Inl ErrNoRows | Some d \<Rightarrow> Inr d))"

definition handleDeviceVerificationLookup :: "env \<Rightarrow> request \<Rightarrow> oauth_state \<Rightarrow> device_response" where
  "handleDeviceVerificationLookup env rq s =
     (case rq_org rq of
        None \<Rightarrow> DeviceError 400 ''invalid_request''
      | Some o' \<Rightarrow>
          (let userCode = (if rq_query rq ''user_code'' = '''' then rq_form rq ''user_code''
                           else rq_query rq ''user_code'')
           in case resolveUserCode env userCode (org_ID o') s of
                Inl ErrNoRows \<Rightarrow> DeviceError 404 ''invalid_user_code''
              | Inl _ \<Rightarrow> DeviceError 500 ''server_error''
              | Inr rec \<Rightarrow>
                  (if dc_ExpiresAt rec < env_now env \<or> dc_ConsumedAt rec \<noteq> None
                   then DeviceError 404 ''invalid_user_code''
                   else (let name = (case GetByClientID env (rq_org rq) (os_clients s) (dc_ClientID rec) of
                               Inr client \<Rightarrow> if oc_Name client \<noteq> '''' then oc_Name client else dc_ClientID rec
                             | Inl _ \<Rightarrow> dc_ClientID rec)
                         in DeviceInfo (formatUserCode (dc_UserCode rec)) (dc_ClientID rec) name
                              (dc_Scope rec) (dc_State rec) ((dc_ExpiresAt rec - env_now env) div second)))))"

text \<open>The body is the bound form or JSON (\<open>None\<close> when it does not bind): user code and decision.\<close>

definition handleDeviceVerificationDecision ::
    "env \<Rightarrow> request \<Rightarrow> (string \<times> bool) option \<Rightarrow> oauth_state \<Rightarrow> device_response \<times> oauth_state" where
  "handleDeviceVerificationDecision env rq body s =
     (case rq_org rq of
        None \<Rightarrow> (DeviceError 400 ''invalid_request'', s)
      | Some o' \<Rightarrow>
          (if rq_user rq = '''' then (DeviceError 401 ''login_required'', s)
           else (case body of
                   None \<Rightarrow> (DeviceError 400 ''invalid_request'', s)
                 | Some (userCode, approve) \<Rightarrow>
                     (let normalized = normalizeUserCode userCode;
                          nxt = (if approve then ''approved'' else ''denied'')
                      in if normalized = '''' then (DeviceError 400 ''invalid_request'', s)
                         else (case decideDeviceCode env normalized (org_ID o') nxt (rq_user rq) s of
                                 (Inl ErrNoRows, s1) \<Rightarrow> (DeviceError 404 ''invalid_user_code'', s1)
                               | (Inl _, s1) \<Rightarrow> (DeviceError 500 ''server_error'', s1)
                               | (Inr _, s1) \<Rightarrow> (DeviceDecided nxt, s1))))))"

section \<open>How the handlers change the table\<close>

lemma attachRefresh_devices [simp]: "os_devices (snd (attachRefresh env org t r s)) = os_devices s"
  by (auto simp: attachRefresh_def CreateRefreshToken_def Let_def split: option.splits)

lemma issueDeviceTokens_devices [simp]:
  "os_devices (snd (issueDeviceTokens cr env org cid client u sc s)) = os_devices s"
  by (auto simp: issueDeviceTokens_def Let_def split: sum.splits prod.splits)
     (metis attachRefresh_devices snd_conv)+

lemma loadDeviceCodeByHash_Inr:
  "loadDeviceCodeByHash env h oid s = Inr r \<Longrightarrow> r \<in> set (os_devices s) \<and> dc_Hash r = h \<and> dc_OrgID r = oid"
  by (auto simp: loadDeviceCodeByHash_def split: if_splits option.splits dest!: find_Some_mem)

lemma redeemDevice_preserves:
  assumes "Q (os_devices s)"
    and "Q (os_devices (snd (claimApprovedDeviceCode env (dc_ID r) s)))"
  shows "Q (os_devices (snd (redeemDevice cr env org client r s)))"
  using assms
  by (auto simp: redeemDevice_def split: prod.splits sum.splits oauth_error.splits)

lemma pollChecks_Inr:
  assumes "pollChecks cr env rq s = Inr (r, client)"
  shows "\<exists>o' sec. rq_org rq = Some o' \<and> r \<in> set (os_devices s) \<and> dc_OrgID r = org_ID o'
    \<and> dc_Hash r = cr_sha256hex cr (rq_form rq ''device_code'')
    \<and> clientCredentials rq = Some (dc_ClientID r, sec)
    \<and> GetByClientID env (Some o') (os_clients s) (dc_ClientID r) = Inr client
    \<and> (oc_Type client = ''confidential'' \<longrightarrow> oc_ClientSecret client = sec)
    \<and> dc_ConsumedAt r = None \<and> env_now env \<le> dc_ExpiresAt r"
  using assms
  by (auto simp: pollChecks_def split: option.splits sum.splits if_splits dest!: loadDeviceCodeByHash_Inr)

lemma pollChecks_refusal: "pollChecks cr env rq s \<noteq> Inl (TokenOK resp)"
  by (auto simp: pollChecks_def oneMethod_def split: option.splits sum.splits)

lemma poll_preserves:
  assumes "Q (os_devices s)"
    and "\<And>r. r \<in> set (os_devices s) \<Longrightarrow> Q (os_devices (snd (throttleDevicePoll env r s)))"
    and "\<And>t did. Q (os_devices t) \<Longrightarrow> Q (os_devices (snd (claimApprovedDeviceCode env did t)))"
  shows "Q (os_devices (snd (handleDeviceCodeGrant cr env rq s)))"
proof (cases "pollChecks cr env rq s")
  case (Inl a)
  with assms(1) show ?thesis by (simp add: handleDeviceCodeGrant_def)
next
  case (Inr b)
  obtain r client where b: "b = (r, client)" by (cases b)
  with Inr pollChecks_Inr have "r \<in> set (os_devices s)" by blast
  with assms(2) have q: "Q (os_devices (snd (throttleDevicePoll env r s)))" by blast
  obtain fast n s1 where t: "throttleDevicePoll env r s = ((fast, n), s1)" by (metis prod.exhaust)
  with q assms(3) have "Q (os_devices (snd (redeemDevice cr env (rq_org rq) client r s1)))"
    by (intro redeemDevice_preserves [where Q = Q]) simp_all
  with q t Inr b show ?thesis by (simp add: handleDeviceCodeGrant_def)
qed

lemma issueAttempts_Some:
  "issueAttempts env r codes s = Some (c, s') \<Longrightarrow> c \<in> set codes \<and> insertDevice env (r\<lparr>dc_UserCode := c\<rparr>) s = Some s'"
  by (induction codes) (auto split: option.splits)

lemma authorize_preserves:
  assumes "Q (os_devices s)" and "\<And>P rows. Q rows \<Longrightarrow> Q (deleteWhere P rows)"
    and "\<And>oid cid sc c t t'. Q (os_devices t) \<Longrightarrow>
           insertDevice env ((newDevice cr env oid cid sc)\<lparr>dc_UserCode := c\<rparr>) t = Some t' \<Longrightarrow> Q (os_devices t')"
  shows "Q (os_devices (snd (handleDeviceAuthorization cr env draws rq s)))"
proof (cases "deviceAuthorizationChecks env rq s")
  case (Inl a)
  with assms(1) show ?thesis by (simp add: handleDeviceAuthorization_def)
next
  case (Inr b)
  obtain o' cid where b: "b = (o', cid)" by (cases b)
  have "Q (os_devices (sweepDevices env (org_ID o') s))"
    using assms(1,2) by (simp add: sweepDevices_def)
  with Inr b show ?thesis
    by (auto simp: handleDeviceAuthorization_def Let_def split: option.splits
        dest!: issueAttempts_Some intro: assms(3))
qed

section \<open>The device table invariant\<close>

definition deviceRowOK :: "deviceCodeRecord \<Rightarrow> bool" where
  "deviceRowOK d \<longleftrightarrow> dc_State d \<in> {''pending'', ''approved'', ''denied''}
     \<and> (if dc_State d = ''pending'' then dc_UserID d = None else \<exists>u. dc_UserID d = Some u \<and> u \<noteq> '''')
     \<and> (dc_ConsumedAt d \<noteq> None \<longrightarrow> dc_State d = ''approved'')
     \<and> devicePollInterval \<le> dc_Interval d"

definition deviceRowsOK :: "deviceCodeRecord list \<Rightarrow> bool" where
  "deviceRowsOK rows \<longleftrightarrow> distinct (map dc_ID rows) \<and> distinct (map dc_Hash rows)
     \<and> distinct (map (\<lambda>d. (dc_OrgID d, dc_UserCode d)) rows) \<and> list_all deviceRowOK rows"

lemma deviceRowsOK_update:
  assumes "deviceRowsOK rows"
    and "\<And>d. dc_ID (f d) = dc_ID d \<and> dc_Hash (f d) = dc_Hash d \<and> dc_OrgID (f d) = dc_OrgID d
           \<and> dc_UserCode (f d) = dc_UserCode d"
    and "\<And>d. P d \<Longrightarrow> deviceRowOK d \<Longrightarrow> deviceRowOK (f d)"
  shows "deviceRowsOK (updateWhere P f rows)"
  using assms
  by (auto simp: deviceRowsOK_def map_updateWhere_key list_all_iff set_updateWhere)

lemma deviceRowsOK_delete: "deviceRowsOK rows \<Longrightarrow> deviceRowsOK (deleteWhere P rows)"
  by (simp add: deviceRowsOK_def distinct_map_deleteWhere list_all_iff)

lemma deviceRowsOK_insert:
  assumes "deviceRowsOK (os_devices t)"
    and "insertDevice env ((newDevice cr env' oid cid sc)\<lparr>dc_UserCode := c\<rparr>) t = Some t'"
  shows "deviceRowsOK (os_devices t')"
proof -
  let ?r = "(newDevice cr env' oid cid sc)\<lparr>dc_UserCode := c\<rparr>"
  from assms(2) have t': "t' = t\<lparr>os_devices := os_devices t @ [?r]\<rparr>"
    and new: "\<forall>d \<in> set (os_devices t). dc_ID d \<noteq> dc_ID ?r \<and> dc_Hash d \<noteq> dc_Hash ?r
        \<and> (dc_OrgID d, dc_UserCode d) \<noteq> (dc_OrgID ?r, dc_UserCode ?r)"
    by (auto simp: insertDevice_def list_ex_iff split: if_splits)
  have "deviceRowOK ?r" by (simp add: deviceRowOK_def newDevice_def)
  with assms(1) new show ?thesis
    by (auto simp: t' deviceRowsOK_def)
qed

lemma deviceRowsOK_throttle:
  assumes "deviceRowsOK (os_devices s)" and "r \<in> set (os_devices s)"
  shows "deviceRowsOK (os_devices (snd (throttleDevicePoll env r s)))"
proof -
  have "deviceRowOK r" using assms by (simp add: deviceRowsOK_def list_all_iff)
  then have "devicePollInterval \<le> dc_Interval r" by (simp add: deviceRowOK_def)
  with assms(1) show ?thesis
    by (auto simp: throttleDevicePoll_def updateDevice_def deviceRowOK_def devicePollInterval_def Let_def
        split: option.splits intro!: deviceRowsOK_update)
qed

lemma deviceRowsOK_claim:
  "deviceRowsOK (os_devices t) \<Longrightarrow> deviceRowsOK (os_devices (snd (claimApprovedDeviceCode env did t)))"
  by (auto simp: claimApprovedDeviceCode_def claimable_def deviceRowOK_def Let_def
      split: option.splits intro!: deviceRowsOK_update)

lemma decision_preserves:
  assumes "Q (os_devices s)"
    and "\<And>c oid nxt. nxt \<in> {''approved'', ''denied''} \<Longrightarrow> rq_user rq \<noteq> '''' \<Longrightarrow>
           Q (os_devices (snd (decideDeviceCode env c oid nxt (rq_user rq) s)))"
  shows "Q (os_devices (snd (handleDeviceVerificationDecision env rq body s)))"
proof (cases "rq_org rq = None \<or> rq_user rq = '''' \<or> body = None")
  case True
  with assms(1) show ?thesis by (auto simp: handleDeviceVerificationDecision_def split: option.splits)
next
  case False
  then obtain o' code approve where b: "rq_org rq = Some o'" "body = Some (code, approve)" "rq_user rq \<noteq> ''''"
    by auto
  let ?nxt = "if approve then ''approved'' else ''denied''"
  obtain res s1 where d: "decideDeviceCode env (normalizeUserCode code) (org_ID o') ?nxt (rq_user rq) s = (res, s1)"
    by fastforce
  have "Q (os_devices s1)"
    using assms(2) [of ?nxt "normalizeUserCode code" "org_ID o'"] b(3) by (simp add: d)
  with assms(1) b show ?thesis
    by (auto simp: handleDeviceVerificationDecision_def d Let_def split: sum.splits oauth_error.splits)
qed

lemma deviceRowsOK_decide:
  assumes "deviceRowsOK (os_devices s)" and "nxt \<in> {''approved'', ''denied''}" and "u \<noteq> ''''"
  shows "deviceRowsOK (os_devices (snd (decideDeviceCode env c oid nxt u s)))"
proof -
  have "deviceRowsOK (updateWhere (decidable env c oid) (\<lambda>d. d\<lparr>dc_State := nxt, dc_UserID := Some u\<rparr>) (os_devices s))"
    using assms by (intro deviceRowsOK_update) (auto simp: decidable_def deviceRowOK_def)
  with assms(1) show ?thesis by (simp add: decideDeviceCode_def Let_def split: option.splits)
qed

datatype device_op =
    DevAuthorize env "nat \<Rightarrow> nat list" request
  | DevPoll env request
  | DevDecide env request "(string \<times> bool) option"

fun deviceRun :: "crypto \<Rightarrow> device_op \<Rightarrow> oauth_state \<Rightarrow> oauth_state" where
  "deviceRun cr (DevAuthorize env draws rq) s = snd (handleDeviceAuthorization cr env draws rq s)"
| "deviceRun cr (DevPoll env rq) s = snd (handleDeviceCodeGrant cr env rq s)"
| "deviceRun cr (DevDecide env rq body) s = snd (handleDeviceVerificationDecision env rq body s)"

inductive device_step :: "crypto \<Rightarrow> oauth_state \<Rightarrow> oauth_state \<Rightarrow> bool" for cr where
  device_stepI: "device_step cr s (deviceRun cr op s)"

inductive_cases device_stepE: "device_step cr s t"

definition device_init :: "oauth_state \<Rightarrow> bool" where
  "device_init s \<longleftrightarrow> os_devices s = []"

lemma deviceRun_OK:
  assumes "deviceRowsOK (os_devices s)"
  shows "deviceRowsOK (os_devices (deviceRun cr op s))"
proof (cases op)
  case (DevAuthorize env draws rq)
  have "deviceRowsOK (os_devices (snd (handleDeviceAuthorization cr env draws rq s)))"
    using assms deviceRowsOK_delete deviceRowsOK_insert by (rule authorize_preserves [where Q = deviceRowsOK])
  with DevAuthorize show ?thesis by simp
next
  case (DevPoll env rq)
  have "deviceRowsOK (os_devices (snd (handleDeviceCodeGrant cr env rq s)))"
    using assms deviceRowsOK_throttle [OF assms] deviceRowsOK_claim
    by (rule poll_preserves [where Q = deviceRowsOK])
  with DevPoll show ?thesis by simp
next
  case (DevDecide env rq body)
  have "deviceRowsOK (os_devices (snd (handleDeviceVerificationDecision env rq body s)))"
    using assms deviceRowsOK_decide [OF assms] by (rule decision_preserves [where Q = deviceRowsOK])
  with DevDecide show ?thesis by simp
qed

interpretation dev: invariant_system device_init "device_step cr" "\<lambda>s. deviceRowsOK (os_devices s)" for cr
proof
  show "deviceRowsOK (os_devices s)" if "device_init s" for s
    using that by (simp add: device_init_def deviceRowsOK_def)
  show "deviceRowsOK (os_devices t)" if "deviceRowsOK (os_devices s)" "device_step cr s t" for s t
    using that by (auto elim!: device_stepE intro: deviceRun_OK)
qed

text \<open>
  In every reachable state of the device table, however requests, polls and decisions interleave,
  codes are unambiguous (row id, stored hash, and user code within a tenant are unique); a code is
  decided exactly when a user is bound to it; only an approved code was ever redeemed; and the polling
  interval never falls below its initial value.
\<close>

theorem device_table_invariant:
  assumes "reach device_init (device_step cr) s"
  shows "distinct (map dc_ID (os_devices s)) \<and> distinct (map dc_Hash (os_devices s))
     \<and> distinct (map (\<lambda>d. (dc_OrgID d, dc_UserCode d)) (os_devices s))
     \<and> (\<forall>d \<in> set (os_devices s). dc_State d \<in> {''pending'', ''approved'', ''denied''}
          \<and> (dc_State d = ''pending'' \<longleftrightarrow> dc_UserID d = None)
          \<and> (dc_ConsumedAt d \<noteq> None \<longrightarrow> dc_State d = ''approved'')
          \<and> devicePollInterval \<le> dc_Interval d)"
  using dev.reach_inv [OF assms] by (auto simp: deviceRowsOK_def list_all_iff deviceRowOK_def split: if_splits)

definition demoDeviceState :: oauth_state where
  "demoDeviceState = deviceRun demoCrypto (DevAuthorize demoEnv (\<lambda>_. replicate 8 0)
     (demoCodeRequest\<lparr>rq_form := (rq_form demoCodeRequest)(''scope'' := ''openid'')\<rparr>)) demoState"

theorem device_table_invariant_witness:
  "reach device_init (device_step demoCrypto) demoDeviceState
   \<and> distinct (map dc_Hash (os_devices demoDeviceState))"
proof -
  have "device_init demoState" by (simp add: device_init_def demoState_def)
  then have "reach device_init (device_step demoCrypto) demoDeviceState"
    unfolding demoDeviceState_def by (meson reach_init reach_step device_stepI)
  then show ?thesis using device_table_invariant by blast
qed

section \<open>Redemption\<close>

lemma claim_Inr:
  assumes "claimApprovedDeviceCode env did s = (Inr u, s')" and "u \<noteq> ''''"
  shows "\<exists>d \<in> set (os_devices s). claimable env did d \<and> dc_UserID d = Some u
    \<and> os_devices s' = updateWhere (claimable env did) (\<lambda>d. d\<lparr>dc_ConsumedAt := Some (env_now env)\<rparr>) (os_devices s)"
  using assms
  by (auto simp: claimApprovedDeviceCode_def Let_def split: if_splits option.splits dest!: find_Some_mem)

text \<open>Whatever the throttle decides, it changes at most the interval and the time of the last poll.\<close>

definition repolled :: "(int \<Rightarrow> int) \<Rightarrow> (int option \<Rightarrow> int option) \<Rightarrow> deviceCodeRecord \<Rightarrow> deviceCodeRecord" where
  "repolled g h d = d\<lparr>dc_Interval := g (dc_Interval d), dc_LastPolledAt := h (dc_LastPolledAt d)\<rparr>"

lemma throttle_rows:
  "\<exists>g h. os_devices (snd (throttleDevicePoll env r s))
       = updateWhere (\<lambda>d. dc_ID d = dc_ID r) (repolled g h) (os_devices s)"
proof -
  have same: "updateWhere P (repolled (\<lambda>x. x) (\<lambda>x. x)) (os_devices s) = os_devices s" for P
    unfolding updateWhere_def by (rule map_idI) (simp add: repolled_def)
  have touch: "repolled (\<lambda>x. x) (\<lambda>_. t) = (\<lambda>d. d\<lparr>dc_LastPolledAt := t\<rparr>)"
    and bump: "repolled (\<lambda>_. n) (\<lambda>_. t) = (\<lambda>d. d\<lparr>dc_Interval := n, dc_LastPolledAt := t\<rparr>)" for t n
    by (simp_all add: repolled_def fun_eq_iff)
  show ?thesis
  proof (cases "env_fails env ''devicePoll''")
    case True
    then have "os_devices (snd (throttleDevicePoll env r s)) = os_devices s"
      by (simp add: throttleDevicePoll_def Let_def split: option.splits)
    then show ?thesis by (metis same)
  next
    case False
    let ?P = "\<lambda>d. dc_ID d = dc_ID r" and ?t = "Some (env_now env)"
    have "os_devices (snd (throttleDevicePoll env r s)) = updateWhere ?P (repolled (\<lambda>x. x) (\<lambda>_. ?t)) (os_devices s)
      \<or> os_devices (snd (throttleDevicePoll env r s))
          = updateWhere ?P (repolled (\<lambda>_. dc_Interval r + devicePollInterval) (\<lambda>_. ?t)) (os_devices s)"
      using False by (simp add: throttleDevicePoll_def updateDevice_def touch bump Let_def split: option.splits)
    then show ?thesis by blast
  qed
qed

lemma issueDeviceTokens_OK:
  assumes "issueDeviceTokens cr env (Some o') cid client u sc s = (TokenOK resp, s')"
  shows "cr_sign cr (jwtClaims env o' u cid sc (oc_AccessTokenLifetime client) '''' s) = Some (tr_AccessToken resp)
    \<and> tr_Scope resp = sc"
  using assms
  by (auto simp: issueDeviceTokens_def GenerateJWT_def attachRefresh_def tokenBody_def Let_def
      split: option.splits if_splits sum.splits prod.splits)

lemma redeemDevice_OK:
  assumes "redeemDevice cr env org client r s = (TokenOK resp, s')"
  shows "dc_State r = ''approved'' \<and> (\<exists>u s1. claimApprovedDeviceCode env (dc_ID r) s = (Inr u, s1) \<and> u \<noteq> ''''
    \<and> issueDeviceTokens cr env org (dc_ClientID r) client u (dc_Scope r) s1 = (TokenOK resp, s'))"
  using assms
  by (auto simp: redeemDevice_def split: if_splits prod.splits sum.splits oauth_error.splits)

lemma handleDeviceCodeGrant_OK:
  assumes "handleDeviceCodeGrant cr env rq s = (TokenOK resp, s')"
  shows "\<exists>r client n s1. pollChecks cr env rq s = Inr (r, client) \<and> throttleDevicePoll env r s = ((False, n), s1)
    \<and> redeemDevice cr env (rq_org rq) client r s1 = (TokenOK resp, s')"
  using assms pollChecks_refusal
  by (auto simp: handleDeviceCodeGrant_def split: sum.splits prod.splits if_splits)

lemma claimed_is_polled_row:
  assumes ok: "deviceRowsOK rows" and r: "r \<in> set rows"
    and d: "d \<in> set (updateWhere (\<lambda>d. dc_ID d = dc_ID r) (repolled g h) rows)" and did: "dc_ID d = dc_ID r"
  shows "d = repolled g h r"
proof -
  from d obtain x where x: "x \<in> set rows" "d = (if dc_ID x = dc_ID r then repolled g h x else x)"
    by (auto simp: set_updateWhere)
  with did have "dc_ID x = dc_ID r" by (auto simp: repolled_def split: if_splits)
  with x r ok have "x = r" by (metis deviceRowsOK_def distinct_key_eq)
  with x show ?thesis by simp
qed

lemma handleDeviceCodeGrant_sound:
  assumes run: "handleDeviceCodeGrant cr env rq s = (TokenOK resp, s')" and ok: "deviceRowsOK (os_devices s)"
  shows "\<exists>o' r client sec u s1. rq_org rq = Some o' \<and> r \<in> set (os_devices s) \<and> dc_OrgID r = org_ID o'
     \<and> dc_Hash r = cr_sha256hex cr (rq_form rq ''device_code'')
     \<and> clientCredentials rq = Some (dc_ClientID r, sec)
     \<and> (org_ID o', client) \<in> set (os_clients s)
     \<and> (oc_Type client = ''confidential'' \<longrightarrow> oc_ClientSecret client = sec)
     \<and> dc_ConsumedAt r = None \<and> env_now env < dc_ExpiresAt r
     \<and> dc_State r = ''approved'' \<and> dc_UserID r = Some u \<and> u \<noteq> ''''
     \<and> cr_sign cr (jwtClaims env o' u (dc_ClientID r) (dc_Scope r) (oc_AccessTokenLifetime client) '''' s1)
         = Some (tr_AccessToken resp)
     \<and> tr_Scope resp = dc_Scope r
     \<and> (\<forall>d \<in> set (os_devices s'). dc_Hash d = dc_Hash r \<longrightarrow> dc_ConsumedAt d = Some (env_now env))"
proof -
  from handleDeviceCodeGrant_OK [OF run] obtain r client n s1 where
    chk: "pollChecks cr env rq s = Inr (r, client)" and thr: "throttleDevicePoll env r s = ((False, n), s1)"
    and red: "redeemDevice cr env (rq_org rq) client r s1 = (TokenOK resp, s')" by blast
  from pollChecks_Inr [OF chk] obtain o' sec where p: "rq_org rq = Some o'" "r \<in> set (os_devices s)"
    "dc_OrgID r = org_ID o'" "dc_Hash r = cr_sha256hex cr (rq_form rq ''device_code'')"
    "clientCredentials rq = Some (dc_ClientID r, sec)"
    "GetByClientID env (Some o') (os_clients s) (dc_ClientID r) = Inr client"
    "oc_Type client = ''confidential'' \<longrightarrow> oc_ClientSecret client = sec" "dc_ConsumedAt r = None" by blast
  from throttle_rows [of env r s] thr obtain g h where
    s1: "os_devices s1 = updateWhere (\<lambda>d. dc_ID d = dc_ID r) (repolled g h) (os_devices s)" by auto
  from redeemDevice_OK [OF red] obtain u s2 where st: "dc_State r = ''approved''"
    and cl: "claimApprovedDeviceCode env (dc_ID r) s1 = (Inr u, s2)" "u \<noteq> ''''"
    and iss: "issueDeviceTokens cr env (rq_org rq) (dc_ClientID r) client u (dc_Scope r) s2 = (TokenOK resp, s')"
    by blast
  from claim_Inr [OF cl] obtain d where d: "d \<in> set (os_devices s1)" "claimable env (dc_ID r) d" "dc_UserID d = Some u"
    and s2: "os_devices s2 = updateWhere (claimable env (dc_ID r)) (\<lambda>d. d\<lparr>dc_ConsumedAt := Some (env_now env)\<rparr>) (os_devices s1)"
    by blast
  have dr: "d = repolled g h r"
    using claimed_is_polled_row [OF ok p(2)] d(1,2) s1 by (simp add: claimable_def)
  have s': "os_devices s' = os_devices s2"
    using issueDeviceTokens_devices [of cr env "rq_org rq" "dc_ClientID r" client u "dc_Scope r" s2] iss by simp
  have used: "dc_ConsumedAt x = Some (env_now env)" if "x \<in> set (os_devices s')" "dc_Hash x = dc_Hash r" for x
  proof -
    from that(1) s' s2 obtain y where y: "y \<in> set (os_devices s1)"
      "x = (if claimable env (dc_ID r) y then y\<lparr>dc_ConsumedAt := Some (env_now env)\<rparr> else y)"
      by (auto simp: set_updateWhere)
    from y(1) s1 obtain z where z: "z \<in> set (os_devices s)" "y = (if dc_ID z = dc_ID r then repolled g h z else z)"
      by (auto simp: set_updateWhere)
    have "dc_Hash z = dc_Hash r" using that(2) y z by (auto simp: repolled_def split: if_splits)
    with z p(2) ok have "z = r" by (metis deviceRowsOK_def distinct_key_eq)
    with z dr have "y = d" by simp
    with y d(2) show ?thesis by simp
  qed
  have row: "env_now env < dc_ExpiresAt r" "dc_UserID r = Some u"
    using d(2,3) dr by (simp_all add: claimable_def repolled_def)
  have mem: "(org_ID o', client) \<in> set (os_clients s)" using GetByClientID_Inr [OF p(6)] by simp
  from issueDeviceTokens_OK [of cr env o' "dc_ClientID r" client u "dc_Scope r" s2 resp s'] iss p(1)
  have "cr_sign cr (jwtClaims env o' u (dc_ClientID r) (dc_Scope r) (oc_AccessTokenLifetime client) '''' s2)
         = Some (tr_AccessToken resp)" "tr_Scope resp = dc_Scope r" by simp_all
  with p st cl(2) row mem used show ?thesis by blast
qed

text \<open>
  What a redeemed device code proves. A poll that gets a token presented a code whose row belongs
  to the tenant and the authenticated client, had not expired and had not been redeemed; a signed-in
  user had approved it, and the access token is for that user with the scope of the code. Afterwards
  the row is marked redeemed.
\<close>

theorem device_grant_sound:
  assumes run: "handleDeviceCodeGrant cr env rq s = (TokenOK resp, s')" and ok: "deviceRowsOK (os_devices s)"
  shows "\<exists>o' r client sec u s1. rq_org rq = Some o' \<and> r \<in> set (os_devices s) \<and> dc_OrgID r = org_ID o'
     \<and> dc_Hash r = cr_sha256hex cr (rq_form rq ''device_code'')
     \<and> clientCredentials rq = Some (dc_ClientID r, sec)
     \<and> (org_ID o', client) \<in> set (os_clients s)
     \<and> (oc_Type client = ''confidential'' \<longrightarrow> oc_ClientSecret client = sec)
     \<and> dc_ConsumedAt r = None \<and> env_now env < dc_ExpiresAt r
     \<and> dc_State r = ''approved'' \<and> dc_UserID r = Some u \<and> u \<noteq> ''''
     \<and> cr_sign cr (jwtClaims env o' u (dc_ClientID r) (dc_Scope r) (oc_AccessTokenLifetime client) '''' s1)
         = Some (tr_AccessToken resp)
     \<and> tr_Scope resp = dc_Scope r
     \<and> (\<forall>d \<in> set (os_devices s'). dc_Hash d = dc_Hash r \<longrightarrow> dc_ConsumedAt d = Some (env_now env))"
  by (rule handleDeviceCodeGrant_sound [OF assms])

definition demoDevice :: deviceCodeRecord where
  "demoDevice = \<lparr>dc_ID = ''d1'', dc_Hash = ''dev'', dc_UserCode = ''ACDEFGHJ'', dc_ClientID = ''app'',
     dc_Scope = ''openid'', dc_State = ''approved'', dc_UserID = Some ''u1'', dc_OrgID = ''acme'',
     dc_Interval = 5, dc_LastPolledAt = None, dc_ConsumedAt = None, dc_ExpiresAt = 1100 * second\<rparr>"

definition demoApprovedState :: oauth_state where
  "demoApprovedState = demoState\<lparr>os_devices := [demoDevice]\<rparr>"

definition demoPoll :: request where
  "demoPoll = demoCodeRequest\<lparr>rq_form := noParams(''client_id'' := ''app'', ''client_secret'' := ''s3cret'',
     ''device_code'' := ''dev'')\<rparr>"

lemma demoPoll_granted: "\<exists>resp s'. handleDeviceCodeGrant demoCrypto demoEnv demoPoll demoApprovedState = (TokenOK resp, s')"
proof -
  have cc: "clientCredentials demoPoll = Some (''app'', ''s3cret'')"
    by (simp add: demoPoll_def demoCodeRequest_def clientCredentials_def basicClientAuth_def noParams_def Let_def)
  have gc: "GetByClientID demoEnv (rq_org demoPoll) (os_clients demoApprovedState) ''app''
      = Inr (demoClient ''app'' ''confidential'')"
    by (simp add: GetByClientID_def demoPoll_def demoCodeRequest_def demoOrg_def demoEnv_def demoApprovedState_def
        demoState_def demoClient_def)
  have pc: "pollChecks demoCrypto demoEnv demoPoll demoApprovedState
      = Inr (demoDevice, demoClient ''app'' ''confidential'')"
    using cc gc
    by (simp add: pollChecks_def loadDeviceCodeByHash_def demoPoll_def demoCodeRequest_def demoOrg_def demoEnv_def
        demoApprovedState_def demoDevice_def demoCrypto_def demoClient_def noParams_def second_def)
  have "\<exists>resp s'. redeemDevice demoCrypto demoEnv (rq_org demoPoll) (demoClient ''app'' ''confidential'') demoDevice
      (updateDevice ''d1'' (\<lambda>d. d\<lparr>dc_LastPolledAt := Some (env_now demoEnv)\<rparr>) demoApprovedState) = (TokenOK resp, s')"
    by (simp add: redeemDevice_def claimApprovedDeviceCode_def claimable_def updateDevice_def updateWhere_def
        demoDevice_def demoApprovedState_def demoEnv_def second_def issueDeviceTokens_def GenerateJWT_def
        demoPoll_def demoCodeRequest_def demoCrypto_def demoClient_def containsStr_def sublist_code Let_def)
  moreover have "throttleDevicePoll demoEnv demoDevice demoApprovedState = ((False, 5),
      updateDevice ''d1'' (\<lambda>d. d\<lparr>dc_LastPolledAt := Some (env_now demoEnv)\<rparr>) demoApprovedState)"
    by (simp add: throttleDevicePoll_def demoDevice_def demoEnv_def Let_def)
  ultimately show ?thesis by (simp add: handleDeviceCodeGrant_def pc)
qed

theorem device_grant_sound_witness:
  "\<exists>resp s'. handleDeviceCodeGrant demoCrypto demoEnv demoPoll demoApprovedState = (TokenOK resp, s')
     \<and> (\<exists>d \<in> set (os_devices demoApprovedState). dc_State d = ''approved'' \<and> tr_Scope resp = dc_Scope d)"
proof -
  obtain resp s' where run: "handleDeviceCodeGrant demoCrypto demoEnv demoPoll demoApprovedState = (TokenOK resp, s')"
    using demoPoll_granted by blast
  have "deviceRowsOK (os_devices demoApprovedState)"
    by (simp add: deviceRowsOK_def deviceRowOK_def demoApprovedState_def demoDevice_def devicePollInterval_def)
  from device_grant_sound [OF run this] run show ?thesis by blast
qed

section \<open>User codes\<close>

text \<open>What the device displays is read back as what was stored, with or without the separator.\<close>

lemma alphabet_chars: "c \<in> set deviceUserCodeAlphabet \<Longrightarrow>
    \<not> asciiSpace c \<and> toUpperChar c = c \<and> c \<noteq> CHR ''-'' \<and> c \<noteq> CHR '' '' \<and> byteOf c \<noteq> 9 \<and> c \<noteq> CHR ''_''"
  by (auto simp: deviceUserCodeAlphabet_def asciiSpace_def toUpperChar_def isLowerAscii_def byteOf_def)

lemma normalize_alphabet:
  assumes "set c \<subseteq> insert CHR ''-'' (set deviceUserCodeAlphabet)"
  shows "normalizeUserCode c = filter (\<lambda>x. x \<noteq> CHR ''-'') c"
proof -
  have nosp: "\<not> asciiSpace x" "toUpperChar x = x" "x = CHR ''-'' \<or> (x \<noteq> CHR '' '' \<and> byteOf x \<noteq> 9 \<and> x \<noteq> CHR ''_'')"
    if "x \<in> set c" for x
    using assms that alphabet_chars [of x] by (auto simp: asciiSpace_def toUpperChar_def isLowerAscii_def byteOf_def)
  have none: "dropWhile asciiSpace xs = xs" if "set xs \<subseteq> set c" for xs
    using that nosp(1) by (cases xs) auto
  have "trimSpace c = c" by (simp add: trimSpace_def none)
  moreover have "toUpper c = c" using nosp by (simp add: toUpper_def map_idI)
  ultimately show ?thesis using nosp by (auto simp: normalizeUserCode_def intro!: filter_cong)
qed

lemma format_normalize:
  assumes "set c \<subseteq> set deviceUserCodeAlphabet"
  shows "normalizeUserCode (formatUserCode c) = c" and "normalizeUserCode c = c"
proof -
  have nd: "CHR ''-'' \<notin> set c" using assms alphabet_chars by blast
  then have f: "filter (\<lambda>x. x \<noteq> CHR ''-'') xs = xs" if "set xs \<subseteq> set c" for xs
    using that by (induction xs) auto
  show "normalizeUserCode c = c" using assms by (subst normalize_alphabet) (auto simp: f)
  have "set (formatUserCode c) \<subseteq> insert CHR ''-'' (set deviceUserCodeAlphabet)"
    using assms by (auto simp: formatUserCode_def dest: in_set_takeD in_set_dropD)
  then have "normalizeUserCode (formatUserCode c) = filter (\<lambda>x. x \<noteq> CHR ''-'') (formatUserCode c)"
    by (rule normalize_alphabet)
  also have "\<dots> = c"
    unfolding formatUserCode_def using f [OF set_take_subset, of 4] f [OF set_drop_subset, of 4] f [OF order_refl]
    by (simp only: filter_append filter.simps append_Nil append_take_drop_id split: if_splits) simp
  finally show "normalizeUserCode (formatUserCode c) = c" .
qed

lemma randomUserCode_alphabet: "set (randomUserCode draws) \<subseteq> set deviceUserCodeAlphabet"
proof -
  have "deviceUserCodeAlphabet ! (i mod length deviceUserCodeAlphabet) \<in> set deviceUserCodeAlphabet" for i
    by (rule nth_mem) (simp add: deviceUserCodeAlphabet_def)
  then show ?thesis by (auto simp: randomUserCode_def)
qed

text \<open>
  User codes survive transcription. Whatever code the random draw gives, it has eight characters of
  the unambiguous alphabet, and both the displayed form with its separator and the bare form normalise
  to the stored code.
\<close>

theorem user_code_roundtrip:
  "length (randomUserCode draws) = deviceUserCodeLength
   \<and> set (randomUserCode draws) \<subseteq> set deviceUserCodeAlphabet
   \<and> normalizeUserCode (formatUserCode (randomUserCode draws)) = randomUserCode draws
   \<and> normalizeUserCode (randomUserCode draws) = randomUserCode draws"
proof (intro conjI)
  show "length (randomUserCode draws) = deviceUserCodeLength" by (simp add: randomUserCode_def)
qed (use randomUserCode_alphabet format_normalize in blast)+

end
