(* ===== verification/OAuth_Endpoint.thy ===== *)
theory OAuth_Endpoint
  imports OAuth_Device
begin

text \<open>
  The token endpoint as a whole (\<^verbatim>\<open>handleToken\<close> of \<^verbatim>\<open>internal/oauth/service.go\<close>), and what holds of
  any sequence of requests to it: an authorization code, a rotating refresh token and a device code are
  each good for one token response.

  A random token is drawn fresh: a request whose draw would equal the token under study is left out of
  the sequences (\<open>codeUse\<close>, \<open>refreshUse\<close>, \<open>deviceUse\<close>).
\<close>

definition handleToken ::
    "crypto \<Rightarrow> env \<Rightarrow> string \<Rightarrow> request \<Rightarrow> oauth_state \<Rightarrow> token_response \<times> oauth_state" where
  "handleToken cr env meth rq s =
     (if meth = ''OPTIONS'' then (TokenNoContent, s)
      else (let grantType = rq_form rq ''grant_type'' in
        if grantType = ''authorization_code'' then handleAuthorizationCodeGrant cr env rq s
        else if grantType = ''refresh_token'' then handleRefreshTokenGrant cr env rq s
        else if grantType = ''client_credentials'' then handleClientCredentialsGrant cr env rq s
        else if grantType = grantTypeTokenExchange then (handleTokenExchangeGrant cr env rq s, s)
        else if grantType = grantTypeDeviceCode then handleDeviceCodeGrant cr env rq s
        else (TokenError 400 ''unsupported_grant_type'' '''', s)))"

text \<open>One request to the endpoint.\<close>

type_synonym token_op = "env \<times> string \<times> request"

definition okFor :: "bool \<Rightarrow> token_response \<Rightarrow> TokenResponse option" where
  "okFor relevant resp = (case resp of TokenOK r \<Rightarrow> if relevant then Some r else None | _ \<Rightarrow> None)"

section \<open>Authorization codes are single use\<close>

definition presentsCode :: "string \<Rightarrow> string \<Rightarrow> string \<Rightarrow> request \<Rightarrow> bool" where
  "presentsCode code orgID meth rq \<longleftrightarrow> meth \<noteq> ''OPTIONS'' \<and> rq_form rq ''grant_type'' = ''authorization_code''
     \<and> rq_form rq ''code'' = code \<and> map_option org_ID (rq_org rq) = Some orgID"

definition codeUse ::
    "crypto \<Rightarrow> string \<Rightarrow> string \<Rightarrow> token_op \<Rightarrow> oauth_state \<Rightarrow> oauth_state \<times> TokenResponse option" where
  "codeUse cr code orgID op s = (case op of (env, meth, rq) \<Rightarrow>
     (case handleToken cr env meth rq s of
        (resp, s') \<Rightarrow> (s', okFor (presentsCode code orgID meth rq) resp)))"

lemma handleRefreshTokenReuse_codes [simp]: "os_codes (handleRefreshTokenReuse env org t s) = os_codes s"
  by (auto simp: handleRefreshTokenReuse_def revokeRefreshTokenFamily_def RevokeRefreshToken_def Let_def
      split: option.splits)

lemma refreshChecks_codes: "refreshChecks env rq s = (r, s') \<Longrightarrow> os_codes s' = os_codes s"
  by (auto simp: refreshChecks_def split: option.splits sum.splits if_splits bool.splits)

lemma refreshClaim_codes: "refreshClaim env rq t s = (r, s') \<Longrightarrow> os_codes s' = os_codes s"
  by (auto simp: refreshClaim_def markRefreshTokenRotated_def Let_def split: option.splits if_splits)

lemma refreshFinish_codes: "refreshFinish cr env rq t c b s = (r, s') \<Longrightarrow> os_codes s' = os_codes s"
  by (auto simp: refreshFinish_def Let_def split: if_splits prod.splits)
     (metis attachRefresh_keeps(1) snd_conv)+

lemma handleRefreshTokenGrant_codes: "handleRefreshTokenGrant cr env rq s = (r, s') \<Longrightarrow> os_codes s' = os_codes s"
  by (auto simp: handleRefreshTokenGrant_def
      dest!: refreshChecks_codes refreshClaim_codes refreshFinish_codes
      split: prod.splits sum.splits if_splits option.splits)

lemma handleDeviceCodeGrant_codes:
  assumes "handleDeviceCodeGrant cr env rq s = (r, s')"
  shows "os_codes s' = os_codes s"
proof -
  have thr: "os_codes (snd (throttleDevicePoll env d t)) = os_codes t" for d t
    by (simp add: throttleDevicePoll_def updateDevice_def Let_def split: option.splits)
  have cl: "os_codes (snd (claimApprovedDeviceCode env i t)) = os_codes t" for i t
    by (simp add: claimApprovedDeviceCode_def Let_def split: option.splits)
  have iss: "os_codes (snd (issueDeviceTokens cr env org c client u sc t)) = os_codes t" for org c client u sc t
    by (auto simp: issueDeviceTokens_def Let_def split: sum.splits prod.splits)
       (metis attachRefresh_keeps(1) snd_conv)+
  have "os_codes (snd (redeemDevice cr env org client d t)) = os_codes t" for org client d t
    using cl [of "dc_ID d" t] iss
    by (auto simp: redeemDevice_def split: prod.splits sum.splits oauth_error.splits)
  with assms thr show ?thesis
    by (auto simp: handleDeviceCodeGrant_def split: sum.splits prod.splits if_splits) (metis snd_conv)+
qed

lemma handleClientCredentialsGrant_state: "snd (handleClientCredentialsGrant cr env rq s) = s"
  by (simp add: handleClientCredentialsGrant_def split: option.splits sum.splits)

lemma ConsumeAuthorizationCode_removes:
  "set (os_codes (snd (ConsumeAuthorizationCode env org code s))) \<subseteq> set (os_codes s)"
  by (auto simp: ConsumeAuthorizationCode_def Let_def split: option.splits)

lemma handleAuthorizationCodeGrant_codes:
  assumes "handleAuthorizationCodeGrant cr env rq s = (r, s')"
  shows "set (os_codes s') \<subseteq> set (os_codes s)"
proof -
  obtain res s1 where c: "ConsumeAuthorizationCode env (rq_org rq) (rq_form rq ''code'') s = (res, s1)" by fastforce
  have sub: "set (os_codes s1) \<subseteq> set (os_codes s)"
    using ConsumeAuthorizationCode_removes [of env "rq_org rq" "rq_form rq ''code''" s] c by simp
  have iss: "os_codes t' = os_codes t" if "issueCodeTokens cr env org cid client ac t = (x, t')"
    for org cid client ac t x t'
    using issueCodeTokens_keeps(1) [of cr env org cid client ac t] that by simp
  have "s' = s \<or> os_codes s' = os_codes s1"
    using assms c
    by (auto simp: handleAuthorizationCodeGrant_def dest!: iss split: option.splits sum.splits prod.splits)
  with sub show ?thesis by auto
qed

lemma handleToken_codes:
  assumes "handleToken cr env meth rq s = (r, s')"
  shows "set (os_codes s') \<subseteq> set (os_codes s)"
  using assms handleClientCredentialsGrant_state [of cr env rq s]
  by (auto simp: handleToken_def Let_def split: if_splits
      dest: handleAuthorizationCodeGrant_codes handleRefreshTokenGrant_codes handleDeviceCodeGrant_codes)

definition codeSpent :: "string \<Rightarrow> string \<Rightarrow> oauth_state \<Rightarrow> bool" where
  "codeSpent code orgID s \<longleftrightarrow> list_all (\<lambda>r. \<not> codeMatches code orgID r) (os_codes s)"

lemma codeUse_OK:
  assumes "codeUse cr code orgID (env, meth, rq) s = (s', Some r)"
  shows "codeSpent code orgID s' \<and> \<not> codeSpent code orgID s"
proof -
  from assms have run: "handleAuthorizationCodeGrant cr env rq s = (TokenOK r, s')"
    and p: "rq_form rq ''code'' = code" "map_option org_ID (rq_org rq) = Some orgID"
    by (auto simp: codeUse_def okFor_def presentsCode_def handleToken_def Let_def
        split: prod.splits token_response.splits if_splits)
  from handleAuthorizationCodeGrant_OK [OF run] obtain cid c client s1
    where con: "ConsumeAuthorizationCode env (rq_org rq) code s = (Inr c, s1)"
    and iss: "issueCodeTokens cr env (rq_org rq) cid client c s1 = (r, s')" using p(1) by blast
  from ConsumeAuthorizationCode_Inr [OF con] p(2)
  have "(orgID, c) \<in> set (os_codes s)" "ac_Code c = code"
    and s1: "os_codes s1 = deleteWhere (codeMatches code orgID) (os_codes s)" by auto
  moreover have "os_codes s' = os_codes s1"
    using issueCodeTokens_keeps(1) [of cr env "rq_org rq" cid client c s1] iss by simp
  ultimately show ?thesis by (force simp: codeSpent_def list_all_iff codeMatches_def)
qed

interpretation code: single_use "codeUse cr code orgID" "\<lambda>_. True" "codeSpent code orgID" for cr code orgID
proof
  fix s s' :: oauth_state and op out r
  show "codeSpent code orgID s'" if "codeUse cr code orgID op s = (s', Some r)"
    using that codeUse_OK by (cases op) blast
  show "out = None \<and> codeSpent code orgID s'"
    if "codeSpent code orgID s" "codeUse cr code orgID op s = (s', out)"
  proof
    obtain env meth rq where op: "op = (env, meth, rq)" by (cases op)
    show "out = None"
      using that codeUse_OK [of cr code orgID env meth rq s s'] by (cases out) (auto simp: op)
    have "set (os_codes s') \<subseteq> set (os_codes s)"
      using that(2) by (auto simp: op codeUse_def dest!: handleToken_codes split: prod.splits)
    with that(1) show "codeSpent code orgID s'" by (auto simp: codeSpent_def list_all_iff)
  qed
qed simp

text \<open>
  C1: an authorization code is redeemed at most once. Whatever requests reach the token endpoint, in
  whatever order and from whichever clients, at most one of them gets tokens for a given code of a
  tenant.
\<close>

theorem authorization_code_single_use:
  "length (runGrants (codeUse cr code orgID) ops s) \<le> 1"
  by (rule code.at_most_one_grant) simp

section \<open>Rotating refresh tokens are single use\<close>

text \<open>
  A property of the refresh-token table that the statements of the endpoint keep: marking rows used or
  revoked, and adding a row with a freshly drawn token.
\<close>

locale refresh_table_property =
  fixes Q :: "RefreshToken list \<Rightarrow> bool"
    and fresh :: string
  assumes used: "Q rows \<Longrightarrow> Q (updateWhere P (\<lambda>r. r\<lparr>rt_UsedAt := Some t\<rparr>) rows)"
    and revoked: "Q rows \<Longrightarrow> Q (updateWhere P (\<lambda>r. r\<lparr>rt_RevokedAt := Some t\<rparr>) rows)"
    and added: "Q rows \<Longrightarrow> rt_Token r = fresh \<Longrightarrow> Q (rows @ [r])"
begin

lemma attachRefresh_Q:
  "Q (os_refresh s) \<Longrightarrow> rt_Token t = fresh \<Longrightarrow> Q (os_refresh (snd (attachRefresh env org t r s)))"
  by (auto simp: attachRefresh_def CreateRefreshToken_def Let_def split: option.splits intro!: added)

lemma newRefresh_token: "env_fresh env ''refresh_token'' = fresh \<Longrightarrow> rt_Token (newRefresh env c u sc i l f) = fresh"
  by (simp add: newRefresh_def)

lemma handleRefreshTokenReuse_Q:
  "Q (os_refresh s) \<Longrightarrow> Q (os_refresh (handleRefreshTokenReuse env org t s))"
  by (auto simp: handleRefreshTokenReuse_def revokeRefreshTokenFamily_def RevokeRefreshToken_def Let_def
      split: option.splits intro: revoked)

lemma refreshChecks_Q: "Q (os_refresh s) \<Longrightarrow> refreshChecks env rq s = (r, s') \<Longrightarrow> Q (os_refresh s')"
  by (auto simp: refreshChecks_def handleRefreshTokenReuse_Q
      split: option.splits sum.splits if_splits bool.splits)

lemma refreshClaim_Q: "Q (os_refresh s) \<Longrightarrow> refreshClaim env rq t s = (r, s') \<Longrightarrow> Q (os_refresh s')"
  by (auto simp: refreshClaim_def markRefreshTokenRotated_def Let_def
      split: option.splits if_splits intro!: handleRefreshTokenReuse_Q used)

lemma refreshFinish_Q:
  assumes "Q (os_refresh s)" and "env_fresh env ''refresh_token'' = fresh"
  shows "Q (os_refresh (snd (refreshFinish cr env rq t c b s)))"
  using assms(1) attachRefresh_Q [OF assms(1) newRefresh_token [OF assms(2)]]
  by (simp add: refreshFinish_def Let_def split_beta)

lemma handleRefreshTokenGrant_Q:
  assumes "Q (os_refresh s)" and "env_fresh env ''refresh_token'' = fresh"
  shows "Q (os_refresh (snd (handleRefreshTokenGrant cr env rq s)))"
proof -
  obtain res s1 where chk: "refreshChecks env rq s = (res, s1)" by fastforce
  have q1: "Q (os_refresh s1)" using refreshChecks_Q [OF assms(1) chk] .
  show ?thesis
  proof (cases res)
    case (Inl a)
    with chk q1 show ?thesis by (simp add: handleRefreshTokenGrant_def)
  next
    case (Inr b)
    obtain token client where b: "b = (token, client)" by (cases b)
    obtain o2 s2 where cl: "refreshClaim env rq token s1 = (o2, s2)" by fastforce
    have q2: "Q (os_refresh s2)" using refreshClaim_Q [OF q1 cl] .
    have fin: "Q (os_refresh (snd (refreshFinish cr env rq token client rot t)))" if "Q (os_refresh t)" for rot t
      using that assms(2) by (rule refreshFinish_Q)
    show ?thesis using chk Inr b cl q2 fin [OF q1] fin [OF q2]
      by (simp add: handleRefreshTokenGrant_def split: option.splits)
  qed
qed

lemma handleAuthorizationCodeGrant_Q:
  assumes "Q (os_refresh s)" and "env_fresh env ''refresh_token'' = fresh"
  shows "Q (os_refresh (snd (handleAuthorizationCodeGrant cr env rq s)))"
proof -
  have con: "os_refresh s1 = os_refresh s" if "ConsumeAuthorizationCode env (rq_org rq) c s = (x, s1)" for c x s1
    using that by (auto simp: ConsumeAuthorizationCode_def Let_def split: option.splits if_splits)
  have iss: "Q (os_refresh (snd (issueCodeTokens cr env org cid client ac t)))" if "Q (os_refresh t)"
    for org cid client ac t
  proof -
    have "Q (os_refresh (snd (codeSession env org (ac_Code ac) (ac_UserID ac) cid t)))" using that by simp
    with attachRefresh_Q [OF this newRefresh_token [OF assms(2)]] show ?thesis
      by (simp add: issueCodeTokens_def Let_def split_beta)
  qed
  obtain x s1 where c: "ConsumeAuthorizationCode env (rq_org rq) (rq_form rq ''code'') s = (x, s1)" by fastforce
  have q1: "Q (os_refresh s1)" using con [OF c] assms(1) by simp
  show ?thesis
    using assms(1) q1 iss [OF q1]
    by (simp add: handleAuthorizationCodeGrant_def c split_beta split: option.splits sum.splits)
qed

lemma issueDeviceTokens_Q:
  assumes "Q (os_refresh s)" and "env_fresh env ''refresh_token'' = fresh"
  shows "Q (os_refresh (snd (issueDeviceTokens cr env org c client u sc s)))"
  using assms(1) attachRefresh_Q [OF assms(1) newRefresh_token [OF assms(2)]]
  by (simp add: issueDeviceTokens_def Let_def split_beta split: sum.splits)

lemma handleDeviceCodeGrant_Q:
  assumes "Q (os_refresh s)" and "env_fresh env ''refresh_token'' = fresh"
  shows "Q (os_refresh (snd (handleDeviceCodeGrant cr env rq s)))"
proof -
  have thr: "os_refresh (snd (throttleDevicePoll env d t)) = os_refresh t" for d t
    by (simp add: throttleDevicePoll_def updateDevice_def Let_def split: option.splits)
  have cl: "os_refresh (snd (claimApprovedDeviceCode env i t)) = os_refresh t" for i t
    by (simp add: claimApprovedDeviceCode_def Let_def split: option.splits)
  have red: "Q (os_refresh (snd (redeemDevice cr env org client d t)))" if "Q (os_refresh t)" for org client d t
    using cl [of "dc_ID d" t] that issueDeviceTokens_Q [OF _ assms(2)]
    by (auto simp: redeemDevice_def split: prod.splits sum.splits oauth_error.splits)
  show ?thesis
  proof (cases "pollChecks cr env rq s")
    case (Inl a)
    with assms(1) show ?thesis by (simp add: handleDeviceCodeGrant_def)
  next
    case (Inr b)
    obtain d client where b: "b = (d, client)" by (cases b)
    obtain fast n s1 where t: "throttleDevicePoll env d s = ((fast, n), s1)" by (metis prod.exhaust)
    then have "os_refresh s1 = os_refresh s" using thr [of d s] by simp
    with red assms(1) Inr b t show ?thesis by (simp add: handleDeviceCodeGrant_def)
  qed
qed

lemma handleToken_Q:
  assumes "Q (os_refresh s)" and "env_fresh env ''refresh_token'' = fresh"
  shows "Q (os_refresh (snd (handleToken cr env meth rq s)))"
  using handleAuthorizationCodeGrant_Q [OF assms] handleRefreshTokenGrant_Q [OF assms]
    handleDeviceCodeGrant_Q [OF assms] assms(1)
  by (simp add: handleToken_def Let_def handleClientCredentialsGrant_state)

end

text \<open>Every stored copy of the token carries the scope that makes the grant rotate; every copy is used.\<close>

definition refreshOffline :: "string \<Rightarrow> string \<Rightarrow> RefreshToken list \<Rightarrow> bool" where
  "refreshOffline tok orgID rows \<longleftrightarrow>
     (\<forall>r \<in> set rows. tokenIs tok orgID r \<longrightarrow> containsStr (rt_Scope r) ''offline_access'')"

definition refreshSpent :: "string \<Rightarrow> string \<Rightarrow> RefreshToken list \<Rightarrow> bool" where
  "refreshSpent tok orgID rows \<longleftrightarrow> (\<forall>r \<in> set rows. tokenIs tok orgID r \<longrightarrow> rt_UsedAt r \<noteq> None)"

interpretation offline: refresh_table_property "\<lambda>rows. fresh = tok \<or> refreshOffline tok orgID rows" fresh
  for fresh tok orgID
  by unfold_locales (auto simp: refreshOffline_def set_updateWhere tokenIs_def)

interpretation spent: refresh_table_property "\<lambda>rows. fresh = tok \<or> refreshSpent tok orgID rows" fresh
  for fresh tok orgID
  by unfold_locales (auto simp: refreshSpent_def set_updateWhere tokenIs_def)

definition rotatingClient :: "env \<Rightarrow> request \<Rightarrow> oauth_state \<Rightarrow> bool" where
  "rotatingClient env rq s =
     (case clientCredentials rq of
        None \<Rightarrow> False
      | Some (cid, _) \<Rightarrow> (case GetByClientID env (rq_org rq) (os_clients s) cid of
                            Inl _ \<Rightarrow> False | Inr client \<Rightarrow> oc_AllowRefreshToken client))"

definition presentsRefresh :: "string \<Rightarrow> string \<Rightarrow> env \<Rightarrow> string \<Rightarrow> request \<Rightarrow> oauth_state \<Rightarrow> bool" where
  "presentsRefresh tok orgID env meth rq s \<longleftrightarrow> meth \<noteq> ''OPTIONS'' \<and> rq_form rq ''grant_type'' = ''refresh_token''
     \<and> rq_form rq ''refresh_token'' = tok \<and> map_option org_ID (rq_org rq) = Some orgID
     \<and> rotatingClient env rq s"

definition refreshUse ::
    "crypto \<Rightarrow> string \<Rightarrow> string \<Rightarrow> token_op \<Rightarrow> oauth_state \<Rightarrow> oauth_state \<times> TokenResponse option" where
  "refreshUse cr tok orgID op s = (case op of (env, meth, rq) \<Rightarrow>
     (if env_fresh env ''refresh_token'' = tok then (s, None)
      else (case handleToken cr env meth rq s of
              (resp, s') \<Rightarrow> (s', okFor (presentsRefresh tok orgID env meth rq s) resp))))"

lemma refreshUse_state:
  assumes "refreshUse cr tok orgID (env, meth, rq) s = (s', out)"
  shows "s' = s \<or> (env_fresh env ''refresh_token'' \<noteq> tok \<and> s' = snd (handleToken cr env meth rq s))"
  using assms by (auto simp: refreshUse_def split: prod.splits if_splits)

lemma refreshUse_keeps:
  assumes "refreshUse cr tok orgID op s = (s', out)"
  shows "refreshOffline tok orgID (os_refresh s) \<Longrightarrow> refreshOffline tok orgID (os_refresh s')"
    and "refreshSpent tok orgID (os_refresh s) \<Longrightarrow> refreshSpent tok orgID (os_refresh s')"
proof -
  obtain env meth rq where op: "op = (env, meth, rq)" by (cases op)
  note st = refreshUse_state [OF assms [unfolded op]]
  show "refreshOffline tok orgID (os_refresh s')" if "refreshOffline tok orgID (os_refresh s)"
    using st that offline.handleToken_Q [of "env_fresh env ''refresh_token''" tok orgID s env cr meth rq] by auto
  show "refreshSpent tok orgID (os_refresh s')" if "refreshSpent tok orgID (os_refresh s)"
    using st that spent.handleToken_Q [of "env_fresh env ''refresh_token''" tok orgID s env cr meth rq] by auto
qed

lemma refreshUse_OK:
  assumes "refreshUse cr tok orgID op s = (s', Some resp)" and "refreshOffline tok orgID (os_refresh s)"
  shows "refreshSpent tok orgID (os_refresh s') \<and> \<not> refreshSpent tok orgID (os_refresh s)"
proof -
  obtain env meth rq where op: "op = (env, meth, rq)" by (cases op)
  from assms(1) have run: "handleRefreshTokenGrant cr env rq s = (TokenOK resp, s')"
    and p: "rq_form rq ''refresh_token'' = tok" "map_option org_ID (rq_org rq) = Some orgID"
      "rotatingClient env rq s" "env_fresh env ''refresh_token'' \<noteq> tok"
    by (auto simp: op refreshUse_def okFor_def presentsRefresh_def handleToken_def Let_def
        split: prod.splits token_response.splits if_splits)
  obtain token client s1 where chk: "refreshChecks env rq s = (Inr (token, client), s1)"
    using run refreshChecks_refusal
    by (auto simp: handleRefreshTokenGrant_def split: prod.splits sum.splits)
  from refreshChecks_Inr [OF chk] p(3) have allow: "oc_AllowRefreshToken client"
    and get: "GetRefreshToken env (rq_org rq) tok s = Inr token" and unused: "rt_UsedAt token = None"
    and s1: "os_refresh s1 = os_refresh s"
    by (auto simp: rotatingClient_def p(1))
  from GetRefreshToken_Inr [OF get] p(2) obtain o' where o': "rq_org rq = Some o'" "org_ID o' = orgID"
    and mem: "token \<in> set (os_refresh s)" "tokenIs tok orgID token" by auto
  have rot: "rotates token client" using allow mem assms(2) by (simp add: rotates_def refreshOffline_def)
  obtain s2 where cm: "refreshClaim env rq token s1 = (None, s2)"
    and fin: "refreshFinish cr env rq token client True s2 = (TokenOK resp, s')"
    using run chk rot refreshClaim_refusal
    by (auto simp: handleRefreshTokenGrant_def split: prod.splits option.splits)
  have "refreshSpent tok orgID (os_refresh s2)"
    using refreshClaim_None [OF cm o'(1)] s1 p(1) o'(2)
    by (auto simp: refreshSpent_def set_updateWhere tokenIs_def)
  then have "refreshSpent tok orgID (os_refresh s')"
    using spent.refreshFinish_Q [of "env_fresh env ''refresh_token''" tok orgID s2 env cr rq token client True] fin p(4)
    by simp
  with mem unused show ?thesis by (auto simp: refreshSpent_def)
qed

interpretation refresh: single_use "refreshUse cr tok orgID" "\<lambda>s. refreshOffline tok orgID (os_refresh s)"
    "\<lambda>s. refreshSpent tok orgID (os_refresh s)" for cr tok orgID
proof
  fix s s' :: oauth_state and op out r
  show "refreshOffline tok orgID (os_refresh s')"
    if "refreshOffline tok orgID (os_refresh s)" "refreshUse cr tok orgID op s = (s', out)"
    using that refreshUse_keeps(1) by blast
  show "refreshSpent tok orgID (os_refresh s')"
    if "refreshOffline tok orgID (os_refresh s)" "refreshUse cr tok orgID op s = (s', Some r)"
    using that refreshUse_OK by blast
  show "out = None \<and> refreshSpent tok orgID (os_refresh s')"
    if "refreshOffline tok orgID (os_refresh s)" "refreshSpent tok orgID (os_refresh s)"
      "refreshUse cr tok orgID op s = (s', out)"
    using that refreshUse_OK [of cr tok orgID op s s'] refreshUse_keeps(2) by (cases out) blast+
qed

text \<open>
  C2: a rotating refresh token is exchanged at most once. Whatever requests reach the token endpoint,
  at most one of them, made by a client that rotates, gets tokens for a given refresh token with the
  offline scope; every later use of it is refused.
\<close>

theorem refresh_token_single_use:
  assumes "refreshOffline tok orgID (os_refresh s)"
  shows "length (runGrants (refreshUse cr tok orgID) ops s) \<le> 1"
  using assms by (rule refresh.at_most_one_grant)

theorem refresh_token_single_use_witness:
  "length (runGrants (refreshUse demoCrypto ''r1'' ''acme'')
     [(demoEnv, ''POST'', demoRefreshRequest), (demoEnv, ''POST'', demoRefreshRequest)] demoRefreshState) \<le> 1"
  by (rule refresh_token_single_use)
     (simp add: refreshOffline_def demoRefreshState_def demoRefresh_def containsStr_def sublist_code)

section \<open>Device codes are single use\<close>

definition deviceSpent :: "string \<Rightarrow> oauth_state \<Rightarrow> bool" where
  "deviceSpent hash s \<longleftrightarrow> (\<forall>d \<in> set (os_devices s). dc_Hash d = hash \<longrightarrow> dc_ConsumedAt d \<noteq> None)"

fun deviceUse ::
    "crypto \<Rightarrow> string \<Rightarrow> device_op \<Rightarrow> oauth_state \<Rightarrow> oauth_state \<times> TokenResponse option" where
  "deviceUse cr hash (DevAuthorize env draws rq) s =
     (if cr_sha256hex cr (env_fresh env ''device_code'') = hash then (s, None)
      else (deviceRun cr (DevAuthorize env draws rq) s, None))"
| "deviceUse cr hash (DevPoll env rq) s =
     (case handleDeviceCodeGrant cr env rq s of
        (resp, s') \<Rightarrow> (s', okFor (cr_sha256hex cr (rq_form rq ''device_code'') = hash) resp))"
| "deviceUse cr hash (DevDecide env rq body) s = (deviceRun cr (DevDecide env rq body) s, None)"

definition rowsSpent :: "string \<Rightarrow> deviceCodeRecord list \<Rightarrow> bool" where
  "rowsSpent hash rows \<longleftrightarrow> (\<forall>d \<in> set rows. dc_Hash d = hash \<longrightarrow> dc_ConsumedAt d \<noteq> None)"

lemma deviceSpent_rows: "deviceSpent hash s \<longleftrightarrow> rowsSpent hash (os_devices s)"
  by (simp add: deviceSpent_def rowsSpent_def)

lemma rowsSpent_update:
  assumes "rowsSpent hash rows" and "\<And>d. dc_Hash (f d) = dc_Hash d"
    and "\<And>d. dc_ConsumedAt d \<noteq> None \<Longrightarrow> dc_ConsumedAt (f d) \<noteq> None"
  shows "rowsSpent hash (updateWhere P f rows)"
  using assms by (fastforce simp: rowsSpent_def set_updateWhere)

lemma rowsSpent_poll:
  assumes "rowsSpent hash (os_devices s)"
  shows "rowsSpent hash (os_devices (snd (handleDeviceCodeGrant cr env rq s)))"
  using assms
proof (rule poll_preserves [where Q = "rowsSpent hash"])
  show "rowsSpent hash (os_devices (snd (throttleDevicePoll env r s)))" if "r \<in> set (os_devices s)" for r
  proof -
    obtain g h where "os_devices (snd (throttleDevicePoll env r s))
        = updateWhere (\<lambda>d. dc_ID d = dc_ID r) (repolled g h) (os_devices s)" using throttle_rows by blast
    with rowsSpent_update [OF assms, of "repolled g h"] show ?thesis by (simp add: repolled_def)
  qed
  show "rowsSpent hash (os_devices (snd (claimApprovedDeviceCode env did t)))" if "rowsSpent hash (os_devices t)" for t did
    using that rowsSpent_update [OF that, of "\<lambda>d. d\<lparr>dc_ConsumedAt := Some (env_now env)\<rparr>"]
    by (simp add: claimApprovedDeviceCode_def Let_def split: option.splits)
qed

lemma rowsSpent_authorize:
  assumes "rowsSpent hash (os_devices s)" and "cr_sha256hex cr (env_fresh env ''device_code'') \<noteq> hash"
  shows "rowsSpent hash (os_devices (snd (handleDeviceAuthorization cr env draws rq s)))"
  using assms(1)
proof (rule authorize_preserves [where Q = "rowsSpent hash"])
  show "rowsSpent hash (deleteWhere P rows)" if "rowsSpent hash rows" for P rows
    using that by (simp add: rowsSpent_def)
  show "rowsSpent hash (os_devices t')"
    if "rowsSpent hash (os_devices t)"
      "insertDevice env ((newDevice cr env oid cid sc)\<lparr>dc_UserCode := c\<rparr>) t = Some t'" for oid cid sc c t t'
    using that assms(2) by (auto simp: insertDevice_def rowsSpent_def newDevice_def split: if_splits)
qed

lemma rowsSpent_decide:
  assumes "rowsSpent hash (os_devices s)"
  shows "rowsSpent hash (os_devices (snd (handleDeviceVerificationDecision env rq body s)))"
  using assms
proof (rule decision_preserves [where Q = "rowsSpent hash"])
  show "rowsSpent hash (os_devices (snd (decideDeviceCode env c oid nxt (rq_user rq) s)))" for c oid nxt
    using assms rowsSpent_update [OF assms, of "\<lambda>d. d\<lparr>dc_State := nxt, dc_UserID := Some (rq_user rq)\<rparr>"]
    by (simp add: decideDeviceCode_def Let_def split: option.splits)
qed

lemma deviceUse_state:
  "deviceUse cr hash op s = (s', out) \<Longrightarrow> s' = s \<or> s' = deviceRun cr op s"
  by (cases op) (auto split: if_splits prod.splits)

lemma deviceUse_spent:
  assumes "deviceSpent hash s" and "deviceUse cr hash op s = (s', out)"
  shows "deviceSpent hash s'"
  using assms rowsSpent_poll [of hash s] rowsSpent_authorize [of hash s] rowsSpent_decide [of hash s]
  by (cases op) (auto simp: deviceSpent_rows split: if_splits prod.splits, metis snd_conv)

lemma deviceUse_OK:
  assumes "deviceUse cr hash op s = (s', Some r)" and "deviceRowsOK (os_devices s)"
  shows "deviceSpent hash s' \<and> \<not> deviceSpent hash s"
proof -
  from assms(1) obtain env rq where run: "handleDeviceCodeGrant cr env rq s = (TokenOK r, s')"
    and h: "cr_sha256hex cr (rq_form rq ''device_code'') = hash"
    by (cases op) (auto simp: okFor_def split: if_splits prod.splits token_response.splits)
  from handleDeviceCodeGrant_sound [OF run assms(2)] h show ?thesis
    by (auto simp: deviceSpent_def)
qed

interpretation device: single_use "deviceUse cr hash" "\<lambda>s. deviceRowsOK (os_devices s)" "deviceSpent hash"
  for cr hash
proof
  fix s s' :: oauth_state and op out r
  show "deviceRowsOK (os_devices s')"
    if "deviceRowsOK (os_devices s)" "deviceUse cr hash op s = (s', out)"
    using that deviceUse_state deviceRun_OK by metis
  show "deviceSpent hash s'"
    if "deviceRowsOK (os_devices s)" "deviceUse cr hash op s = (s', Some r)"
    using that deviceUse_OK by blast
  show "out = None \<and> deviceSpent hash s'"
    if "deviceRowsOK (os_devices s)" "deviceSpent hash s" "deviceUse cr hash op s = (s', out)"
    using that deviceUse_OK [of cr hash op s s'] deviceUse_spent by (cases out) blast+
qed

text \<open>
  C3: a device code is redeemed at most once. Starting from an empty device table, any interleaving of
  device requests, polls and user decisions yields at most one token response for a given device code.
\<close>

theorem device_code_single_use:
  assumes "reach device_init (device_step cr) s"
  shows "length (runGrants (deviceUse cr hash) ops s) \<le> 1"
  using dev.reach_inv [OF assms] by (rule device.at_most_one_grant)

theorem device_code_single_use_witness:
  "length (runGrants (deviceUse demoCrypto ''dev'') [DevPoll demoEnv demoPoll, DevPoll demoEnv demoPoll] demoState) \<le> 1"
  by (rule device_code_single_use [OF reach_init]) (simp add: device_init_def demoState_def)

end
