(* ===== verification/Descent.thy ===== *)
theory Descent
  imports Go_Prelude
begin

text \<open>
  Recursive descent with fuel. The repository has two hand-written parsers of the same shape (SCIM
  filters and access policies): a chain of operands joined by a keyword at each precedence level, and
  a nested call inside parentheses. This theory has the loop both share, and the three facts a
  fuel-indexed parser needs of its parts: a success consumes input (\<open>shrinks\<close>), inputs below a size
  are answered (\<open>answersBelow\<close>), and more fuel does not change an answer (\<open>agrees\<close>).
\<close>

type_synonym ('e, 'a, 's) parser = "'s \<Rightarrow> 'e + ('a \<times> 's)"

text \<open>\<open>next\<close> looks for the keyword: \<open>Inr\<close> continues behind it, \<open>Inl\<close> leaves the loop.\<close>

fun chainLoop ::
    "'e \<Rightarrow> ('s \<Rightarrow> 's + 's) \<Rightarrow> ('a \<Rightarrow> 'a \<Rightarrow> 'a) \<Rightarrow> ('e, 'a, 's) parser \<Rightarrow> nat \<Rightarrow> 'a \<Rightarrow> ('e, 'a, 's) parser" where
  "chainLoop oof nxt combine operand 0 left s = Inl oof"
| "chainLoop oof nxt combine operand (Suc k) left s =
     (case nxt s of
        Inl s0 \<Rightarrow> Inr (left, s0)
      | Inr s1 \<Rightarrow>
          (case operand s1 of
             Inl e \<Rightarrow> Inl e
           | Inr (right, s2) \<Rightarrow> chainLoop oof nxt combine operand k (combine left right) s2))"

definition chain ::
    "'e \<Rightarrow> ('s \<Rightarrow> 's + 's) \<Rightarrow> ('a \<Rightarrow> 'a \<Rightarrow> 'a) \<Rightarrow> ('e, 'a, 's) parser \<Rightarrow> nat \<Rightarrow> ('e, 'a, 's) parser" where
  "chain oof nxt combine operand k s =
     (case operand s of
        Inl e \<Rightarrow> Inl e
      | Inr (left, s1) \<Rightarrow> chainLoop oof nxt combine operand k left s1)"

definition shrinks :: "('s \<Rightarrow> nat) \<Rightarrow> ('e, 'a, 's) parser \<Rightarrow> bool" where
  "shrinks sz p \<longleftrightarrow> (\<forall>s a s'. p s = Inr (a, s') \<longrightarrow> sz s' < sz s)"

definition answersBelow :: "('s \<Rightarrow> nat) \<Rightarrow> 'e \<Rightarrow> nat \<Rightarrow> ('e, 'a, 's) parser \<Rightarrow> bool" where
  "answersBelow sz oof m p \<longleftrightarrow> (\<forall>s. sz s < m \<longrightarrow> p s \<noteq> Inl oof)"

definition agrees :: "'e \<Rightarrow> ('e, 'a, 's) parser \<Rightarrow> ('e, 'a, 's) parser \<Rightarrow> bool" where
  "agrees oof p q \<longleftrightarrow> (\<forall>s. p s \<noteq> Inl oof \<longrightarrow> q s = p s)"

definition yields :: "('a \<Rightarrow> bool) \<Rightarrow> ('e, 'a, 's) parser \<Rightarrow> bool" where
  "yields P p \<longleftrightarrow> (\<forall>s a s'. p s = Inr (a, s') \<longrightarrow> P a)"

lemma shrinksD: "shrinks sz p \<Longrightarrow> p s = Inr (a, s') \<Longrightarrow> sz s' < sz s"
  by (auto simp: shrinks_def)

lemma yieldsD: "yields P p \<Longrightarrow> p s = Inr (a, s') \<Longrightarrow> P a"
  by (auto simp: yields_def)

lemmas parser_splits = sum.splits option.splits prod.splits

lemma agrees_case:
  "agrees oof p q \<Longrightarrow> (case p s of Inl e \<Rightarrow> Inl e | Inr x \<Rightarrow> f x) \<noteq> Inl oof \<Longrightarrow>
     (case q s of Inl e \<Rightarrow> Inl e | Inr x \<Rightarrow> f x) = (case p s of Inl e \<Rightarrow> Inl e | Inr x \<Rightarrow> f x)"
  by (cases "p s = Inl oof") (auto simp: agrees_def)

lemma chainLoop_agrees:
  "agrees oof p q \<Longrightarrow> chainLoop oof nxt c p k l s \<noteq> Inl oof \<Longrightarrow>
     chainLoop oof nxt c q (Suc k) l s = chainLoop oof nxt c p k l s"
proof (induction k arbitrary: l s)
  case 0
  then show ?case by simp
next
  case (Suc k)
  show ?case
  proof (cases "nxt s")
    case (Inl s0)
    then show ?thesis by simp
  next
    case (Inr s1)
    then have "p s1 \<noteq> Inl oof" using Suc.prems(2) by auto
    then have "q s1 = p s1" using Suc.prems(1) by (simp add: agrees_def)
    then show ?thesis
      using Suc Inr by (auto split: parser_splits simp del: chainLoop.simps(2)
          simp: chainLoop.simps(2) [of oof nxt c p k] chainLoop.simps(2) [of oof nxt c q "Suc k"])
  qed
qed

lemma chain_agrees:
  assumes "agrees oof p q"
  shows "agrees oof (chain oof nxt c p k) (chain oof nxt c q (Suc k))"
  unfolding agrees_def
proof (intro allI impI)
  fix s assume ne: "chain oof nxt c p k s \<noteq> Inl oof"
  then have "p s \<noteq> Inl oof" by (auto simp: chain_def)
  then have "q s = p s" using assms by (simp add: agrees_def)
  then show "chain oof nxt c q (Suc k) s = chain oof nxt c p k s"
    using ne chainLoop_agrees [OF assms] by (cases "p s") (auto simp: chain_def)
qed

lemma chainLoop_yields:
  assumes p: "yields P p" and c: "\<And>l r. P l \<Longrightarrow> P r \<Longrightarrow> P (c l r)"
  shows "P l \<Longrightarrow> chainLoop oof nxt c p k l s = Inr (a, s') \<Longrightarrow> P a"
proof (induction k arbitrary: l s)
  case 0
  then show ?case by simp
next
  case (Suc k)
  show ?case
  proof (cases "nxt s")
    case (Inl s0)
    then show ?thesis using Suc.prems by simp
  next
    case (Inr s1)
    with Suc.prems obtain x s2 where "p s1 = Inr (x, s2)" "chainLoop oof nxt c p k (c l x) s2 = Inr (a, s')"
      by (auto split: parser_splits)
    then show ?thesis using Suc.IH Suc.prems(1) c yieldsD [OF p] by blast
  qed
qed

lemma chain_yields:
  assumes p: "yields P p" and c: "\<And>l r. P l \<Longrightarrow> P r \<Longrightarrow> P (c l r)"
  shows "yields P (chain oof nxt c p k)"
  unfolding yields_def
proof (intro allI impI)
  fix s a s' assume "chain oof nxt c p k s = Inr (a, s')"
  then obtain l s1 where "p s = Inr (l, s1)" "chainLoop oof nxt c p k l s1 = Inr (a, s')"
    by (auto simp: chain_def split: parser_splits)
  then show "P a" using chainLoop_yields [where c = c and P = P, OF p] c yieldsD [OF p] by blast
qed

text \<open>The contract of the keyword test: it never gives input back, and finding the keyword consumes it.\<close>

locale keyword_chain =
  fixes sz :: "'s \<Rightarrow> nat" and nxt :: "'s \<Rightarrow> 's + 's"
  assumes leaves: "nxt s = Inl s0 \<Longrightarrow> sz s0 \<le> sz s"
    and continues: "nxt s = Inr s1 \<Longrightarrow> sz s1 < sz s"
begin

lemma loop_size:
  "shrinks sz p \<Longrightarrow> chainLoop oof nxt c p k l s = Inr (a, s') \<Longrightarrow> sz s' \<le> sz s"
proof (induction k arbitrary: l s)
  case 0
  then show ?case by simp
next
  case (Suc k)
  show ?case
  proof (cases "nxt s")
    case (Inl s0)
    then show ?thesis using Suc.prems leaves by auto
  next
    case (Inr s1)
    with Suc.prems obtain x s2 where p: "p s1 = Inr (x, s2)" and "chainLoop oof nxt c p k (c l x) s2 = Inr (a, s')"
      by (auto split: parser_splits)
    then have "sz s' \<le> sz s2" using Suc.IH Suc.prems(1) by blast
    then show ?thesis using shrinksD [OF Suc.prems(1) p] continues [OF Inr] by linarith
  qed
qed

lemma shrinks_chain: "shrinks sz p \<Longrightarrow> shrinks sz (chain oof nxt c p k)"
  unfolding shrinks_def [of sz "chain oof nxt c p k"]
proof (intro allI impI)
  fix s a s' assume p: "shrinks sz p" and "chain oof nxt c p k s = Inr (a, s')"
  then obtain l s1 where "p s = Inr (l, s1)" "chainLoop oof nxt c p k l s1 = Inr (a, s')"
    by (auto simp: chain_def split: parser_splits)
  then show "sz s' < sz s" using loop_size [OF p] shrinksD [OF p] by fastforce
qed

lemma loop_answers:
  assumes p: "shrinks sz p" "answersBelow sz oof (Suc m) p"
  shows "sz s < k \<Longrightarrow> sz s \<le> m \<Longrightarrow> chainLoop oof nxt c p k l s \<noteq> Inl oof"
proof (induction k arbitrary: l s)
  case 0
  then show ?case by simp
next
  case (Suc k)
  show ?case
  proof (cases "nxt s")
    case (Inl s0)
    then show ?thesis by simp
  next
    case (Inr s1)
    have s1: "sz s1 < sz s" using continues [OF Inr] .
    then have "p s1 \<noteq> Inl oof" using p(2) Suc.prems by (simp add: answersBelow_def)
    moreover have "chainLoop oof nxt c p k (c l x) s2 \<noteq> Inl oof" if "p s1 = Inr (x, s2)" for x s2
      using Suc.IH [of s2 "c l x"] Suc.prems s1 shrinksD [OF p(1) that] by linarith
    ultimately show ?thesis using Inr by (auto split: parser_splits)
  qed
qed

lemma answers_chain:
  assumes p: "shrinks sz p" "answersBelow sz oof (Suc k) p"
  shows "answersBelow sz oof (Suc k) (chain oof nxt c p k)"
  unfolding answersBelow_def
proof (intro allI impI)
  fix s assume s: "sz s < Suc k"
  have "p s \<noteq> Inl oof" using p(2) s by (simp add: answersBelow_def)
  moreover have "chainLoop oof nxt c p k l s1 \<noteq> Inl oof" if "p s = Inr (l, s1)" for l s1
    using loop_answers [OF p, of s1 k] shrinksD [OF p(1) that] s by fastforce
  ultimately show "chain oof nxt c p k s \<noteq> Inl oof" by (auto simp: chain_def split: parser_splits)
qed

end

text \<open>
  The contract of a fuel-indexed parser: one more unit of fuel never changes an answer that is not
  the out-of-fuel error, a success never gives input back, and a fuel above a bound that depends on
  the remaining input never runs out.
\<close>

locale fuel_parser =
  fixes p :: "nat \<Rightarrow> ('e, 'a, 's) parser"
    and oof :: 'e
    and rest :: "'s \<Rightarrow> nat"
    and bound :: "'s \<Rightarrow> nat"
  assumes fuel_mono: "p n s \<noteq> Inl oof \<Longrightarrow> p (Suc n) s = p n s"
    and consumes: "p n s = Inr (a, s') \<Longrightarrow> rest s' \<le> rest s"
    and enough: "bound s \<le> n \<Longrightarrow> p n s \<noteq> Inl oof"
begin

lemma fuel_irrelevant: "p n s \<noteq> Inl oof \<Longrightarrow> n \<le> m \<Longrightarrow> p m s = p n s"
proof (induction m)
  case 0
  then show ?case by simp
next
  case (Suc m)
  then show ?case using fuel_mono by (metis le_Suc_eq)
qed

lemma same_answer: "bound s \<le> n \<Longrightarrow> bound s \<le> m \<Longrightarrow> p n s = p m s"
  by (metis enough fuel_irrelevant nat_le_linear)

end

text \<open>A parser built from one that shrinks, answers and agrees meets that contract.\<close>

lemma fuel_parserI:
  assumes "\<And>k. agrees oof (p k) (p (Suc k))" "\<And>k. shrinks sz (p k)" "\<And>k. answersBelow sz oof k (p k)"
  shows "fuel_parser p oof sz (\<lambda>s. Suc (sz s))"
proof
  show "p n s \<noteq> Inl oof \<Longrightarrow> p (Suc n) s = p n s" for n s
    using assms(1) [of n] by (simp add: agrees_def)
  show "p n s = Inr (a, s') \<Longrightarrow> sz s' \<le> sz s" for n s a s'
    using shrinksD [OF assms(2)] by (metis less_imp_le)
  show "Suc (sz s) \<le> n \<Longrightarrow> p n s \<noteq> Inl oof" for n s
    using assms(3) [of n] by (simp add: answersBelow_def)
qed

end
