(* ===== verification/Scim_Filter.thy ===== *)
theory Scim_Filter
  imports Descent
begin

text \<open>
  SCIM filter expressions, \<^verbatim>\<open>internal/identity/scim_filter.go\<close>: the recursive-descent parser of
  RFC 7644 filters, their translation into a parameterised SQL condition, and the in-memory
  evaluation against a user or a group.

  The parser's state (input and position) is the rest of the input; \<open>n\<close> is the length of the whole
  input, so the position an error reports is \<open>n\<close> minus the length of the rest. The mutually recursive
  functions take fuel; the interpretations of \<open>fuel_parser\<close> show that the fuel \<open>Parse\<close> provides is
  never used up, and the parser's answers satisfy the fuel-free equations of the source.
  \<^verbatim>\<open>strconv.ParseFloat\<close> is a parameter: only the bound argument depends on it.
\<close>

section \<open>Expressions\<close>

datatype FilterOperator =
    OpEqual | OpNotEqual | OpContains | OpStartsWith | OpEndsWith | OpPresent
  | OpGreaterThan | OpGreaterEq | OpLessThan | OpLessEq

text \<open>The Go struct has an operator and pointers of which the operator says which are set.\<close>

datatype FilterExpression =
    FCompare FilterOperator string string
  | FAnd FilterExpression FilterExpression
  | FOr FilterExpression FilterExpression
  | FNot FilterExpression

fun operatorText :: "FilterOperator \<Rightarrow> string" where
  "operatorText OpEqual = ''eq''"
| "operatorText OpNotEqual = ''ne''"
| "operatorText OpContains = ''co''"
| "operatorText OpStartsWith = ''sw''"
| "operatorText OpEndsWith = ''ew''"
| "operatorText OpPresent = ''pr''"
| "operatorText OpGreaterThan = ''gt''"
| "operatorText OpGreaterEq = ''ge''"
| "operatorText OpLessThan = ''lt''"
| "operatorText OpLessEq = ''le''"

fun filterString :: "FilterExpression \<Rightarrow> string" where
  "filterString (FAnd l r) = ''('' @ filterString l @ '' and '' @ filterString r @ '')''"
| "filterString (FOr l r) = ''('' @ filterString l @ '' or '' @ filterString r @ '')''"
| "filterString (FNot e) = ''not ('' @ filterString e @ '')''"
| "filterString (FCompare op f v) = f @ '' '' @ operatorText op @ '' '' @ v"

datatype filter_error =
    UnexpectedCharacter nat char
  | ExpectedParenAfterNot
  | ExpectedCloseAfterNot
  | ExpectedClose
  | ExpectedAttribute nat
  | EndInOperator
  | InvalidOperator nat
  | EndInValue
  | ExpectedValue nat
  | ExpectedQuote nat
  | UnterminatedString
  | OutOfRange
  | OutOfFuel
  | InvalidField string

section \<open>Scanning\<close>

definition skipWhitespace :: "string \<Rightarrow> string" where
  "skipWhitespace r = dropWhile latin1Space r"

definition consumeKeyword :: "string \<Rightarrow> string \<Rightarrow> string option" where
  "consumeKeyword keyword r =
     (if length r < length keyword then None
      else if toLower (take (length keyword) r) \<noteq> keyword then None
      else Some (drop (length keyword) r))"

definition consumeParen :: "char \<Rightarrow> string \<Rightarrow> string option" where
  "consumeParen expected r =
     (case r of [] \<Rightarrow> None | c # cs \<Rightarrow> if c \<noteq> expected then None else Some cs)"

definition attributeChar :: "char \<Rightarrow> bool" where
  "attributeChar c \<longleftrightarrow> latin1Letter c \<or> isDigitAscii c \<or> c \<in> {CHR ''_'', CHR ''-'', CHR ''.''}"

definition parseAttributeName :: "nat \<Rightarrow> string \<Rightarrow> filter_error + (string \<times> string)" where
  "parseAttributeName n r =
     (let r0 = skipWhitespace r; f = takeWhile attributeChar r0
      in if f = [] then Inl (ExpectedAttribute (n - length r0))
         else Inr (f, dropWhile attributeChar r0))"

definition parseOperator :: "nat \<Rightarrow> string \<Rightarrow> filter_error + (FilterOperator \<times> string)" where
  "parseOperator n r =
     (if length r < 2 then Inl EndInOperator
      else (case find (\<lambda>op. operatorText op = take 2 r)
                   [OpEqual, OpNotEqual, OpContains, OpStartsWith, OpEndsWith, OpGreaterThan, OpGreaterEq,
                    OpLessThan, OpLessEq, OpPresent] of
              None \<Rightarrow> Inl (InvalidOperator (n - length r))
            | Some op \<Rightarrow> Inr (op, drop 2 r)))"

text \<open>The loop after the opening quote; the accumulator is the value read so far, reversed. A backslash
  that is not the last character is kept together with the character after it.\<close>

fun quotedScan :: "string \<Rightarrow> string \<Rightarrow> filter_error + (string \<times> string)" where
  "quotedScan acc [] = Inl UnterminatedString"
| "quotedScan acc [c] =
     (if c = CHR 0x22 then Inr (rev acc, []) else Inl UnterminatedString)"
| "quotedScan acc (c # d # cs) =
     (if c = CHR 0x5C then quotedScan (d # c # acc) cs
      else if c = CHR 0x22 then Inr (rev acc, d # cs)
      else quotedScan (c # acc) (d # cs))"

definition parseQuotedString :: "nat \<Rightarrow> string \<Rightarrow> filter_error + (string \<times> string)" where
  "parseQuotedString n r =
     (case r of
        [] \<Rightarrow> Inl OutOfRange
      | c # cs \<Rightarrow> if c \<noteq> CHR 0x22 then Inl (ExpectedQuote (n - length r)) else quotedScan [] cs)"

text \<open>The unquoted value stops before a space, a closing parenthesis, or what looks like a logical
  operator, wherever in a word that is.\<close>

definition logicalAhead :: "string \<Rightarrow> bool" where
  "logicalAhead r \<longleftrightarrow> 3 \<le> length r \<and>
     (let remaining = toLower r
      in hasPrefix remaining ''and '' \<or> hasPrefix remaining ''or ''
         \<or> hasPrefix remaining ''and)'' \<or> hasPrefix remaining ''or)'')"

fun unquotedScan :: "string \<Rightarrow> string \<times> string" where
  "unquotedScan [] = ([], [])"
| "unquotedScan (c # cs) =
     (if latin1Space c \<or> c = CHR '')'' \<or> logicalAhead (c # cs) then ([], c # cs)
      else (case unquotedScan cs of (v, r) \<Rightarrow> (c # v, r)))"

definition parseValue :: "nat \<Rightarrow> string \<Rightarrow> filter_error + (string \<times> string)" where
  "parseValue n r =
     (case skipWhitespace r of
        [] \<Rightarrow> Inl EndInValue
      | c # cs \<Rightarrow>
          (if c = CHR 0x22 then parseQuotedString n (c # cs)
           else (case unquotedScan (c # cs) of
                   (v, r') \<Rightarrow> if v = [] then Inl (ExpectedValue (n - length (c # cs))) else Inr (v, r'))))"

definition parseComparison :: "nat \<Rightarrow> string \<Rightarrow> filter_error + (FilterExpression \<times> string)" where
  "parseComparison n r =
     (case parseAttributeName n r of
        Inl e \<Rightarrow> Inl e
      | Inr (field, r1) \<Rightarrow>
          (case parseOperator n (skipWhitespace r1) of
             Inl e \<Rightarrow> Inl e
           | Inr (operator, r2) \<Rightarrow>
               (if operator = OpPresent then Inr (FCompare operator field '''', skipWhitespace r2)
                else (case parseValue n (skipWhitespace r2) of
                        Inl e \<Rightarrow> Inl e
                      | Inr (v, r3) \<Rightarrow> Inr (FCompare operator field v, r3)))))"

section \<open>The recursive descent\<close>

text \<open>
  One definition per method. \<open>parseOr\<close> is the nested call of the two methods that read a parenthesised
  expression; the recursion is tied in \<open>parseOrExpression\<close>, whose fuel bounds the nesting of
  parentheses and the number of operands of a chain.
\<close>

type_synonym filter_parser = "(filter_error, FilterExpression, string) parser"

definition parsePrimaryExpression ::
    "nat \<Rightarrow> filter_parser \<Rightarrow> filter_parser" where
  "parsePrimaryExpression n parseOr r =
     (let r0 = skipWhitespace r in
      case consumeParen CHR ''('' r0 of
        None \<Rightarrow> parseComparison n r0
      | Some r1 \<Rightarrow>
          (case parseOr r1 of
             Inl e \<Rightarrow> Inl e
           | Inr (expr, r2) \<Rightarrow>
               (case consumeParen CHR '')'' (skipWhitespace r2) of
                  None \<Rightarrow> Inl ExpectedClose
                | Some r3 \<Rightarrow> Inr (expr, r3))))"

definition parseNotExpression ::
    "nat \<Rightarrow> filter_parser \<Rightarrow> filter_parser" where
  "parseNotExpression n parseOr r =
     (let r0 = skipWhitespace r in
      case consumeKeyword ''not'' r0 of
        None \<Rightarrow> parsePrimaryExpression n parseOr r0
      | Some r1 \<Rightarrow>
          (case consumeParen CHR ''('' (skipWhitespace r1) of
             None \<Rightarrow> Inl ExpectedParenAfterNot
           | Some r2 \<Rightarrow>
               (case parseOr r2 of
                  Inl e \<Rightarrow> Inl e
                | Inr (expr, r3) \<Rightarrow>
                    (case consumeParen CHR '')'' (skipWhitespace r3) of
                       None \<Rightarrow> Inl ExpectedCloseAfterNot
                     | Some r4 \<Rightarrow> Inr (FNot expr, r4)))))"

text \<open>The condition of the two loops: skip spaces and look for the keyword.\<close>

definition keywordNext :: "string \<Rightarrow> string \<Rightarrow> string + string" where
  "keywordNext keyword r =
     (let r0 = skipWhitespace r in
      case consumeKeyword keyword r0 of None \<Rightarrow> Inl r0 | Some r1 \<Rightarrow> Inr r1)"

definition parseAndExpression :: "nat \<Rightarrow> nat \<Rightarrow> filter_parser \<Rightarrow> filter_parser" where
  "parseAndExpression n k parseOr =
     chain OutOfFuel (keywordNext ''and'') FAnd (parseNotExpression n parseOr) k"

fun parseOrExpression :: "nat \<Rightarrow> nat \<Rightarrow> filter_parser" where
  "parseOrExpression n 0 r = Inl OutOfFuel"
| "parseOrExpression n (Suc k) r =
     chain OutOfFuel (keywordNext ''or'') FOr (parseAndExpression n k (parseOrExpression n k)) k r"

definition filterFuel :: "string \<Rightarrow> nat" where
  "filterFuel r = Suc (length r)"

text \<open>\<open>Parse\<close> on the trimmed input; \<open>None\<close> is the nil expression of an empty filter.\<close>

definition Parse :: "string \<Rightarrow> filter_error + FilterExpression option" where
  "Parse input =
     (if input = [] then Inr None
      else (case parseOrExpression (length input) (filterFuel input) input of
              Inl e \<Rightarrow> Inl e
            | Inr (expr, r) \<Rightarrow>
                (case skipWhitespace r of
                   [] \<Rightarrow> Inr (Some expr)
                 | c # cs \<Rightarrow> Inl (UnexpectedCharacter (length input - length (c # cs)) c))))"

definition ParseFilter :: "string \<Rightarrow> filter_error + FilterExpression option" where
  "ParseFilter input = (if input = [] then Inr None else Parse (trimSpace input))"

section \<open>Translation to SQL\<close>

text \<open>A bound argument is the number a comparison value denotes, or the text itself.\<close>

datatype 'f sqlArg = ArgText string | ArgNumber 'f

record 'f SQLFilter =
  WhereClause :: string
  Args :: "'f sqlArg list"

record 'f sqlFilterBuilder =
  sb_args :: "'f sqlArg list"
  sb_paramIndex :: nat

definition addArg :: "'f sqlArg \<Rightarrow> 'f sqlFilterBuilder \<Rightarrow> string \<times> 'f sqlFilterBuilder" where
  "addArg arg b =
     (''$'' @ dec (sb_paramIndex b),
      b\<lparr>sb_args := sb_args b @ [arg], sb_paramIndex := sb_paramIndex b + 1\<rparr>)"

definition jsonArrayColumns :: "string \<Rightarrow> bool" where
  "jsonArrayColumns = (\<lambda>_. False)"

definition isArrayField :: "(string \<rightharpoonup> string) \<Rightarrow> string \<Rightarrow> bool" where
  "isArrayField validFields field =
     (case validFields field of None \<Rightarrow> False | Some column \<Rightarrow> jsonArrayColumns column)"

definition quoteSQL :: "string \<Rightarrow> string" where
  "quoteSQL s = [CHR 0x27] @ s @ [CHR 0x27]"

definition getColumnName :: "(string \<rightharpoonup> string) \<Rightarrow> string \<Rightarrow> string option" where
  "getColumnName validFields field =
     (case validFields field of
        Some column \<Rightarrow> Some column
      | None \<Rightarrow>
          (case splitOn CHR ''.'' field of
             [attr, sub] \<Rightarrow>
               (case validFields attr of
                  Some column \<Rightarrow> Some (column @ ''->>'' @ quoteSQL sub)
                | None \<Rightarrow> None)
           | _ \<Rightarrow> None))"

definition orderedArg :: "(string \<Rightarrow> 'f option) \<Rightarrow> string \<Rightarrow> 'f sqlArg" where
  "orderedArg parseFloat v = (case parseFloat v of Some num \<Rightarrow> ArgNumber num | None \<Rightarrow> ArgText v)"

text \<open>A condition \<^verbatim>\<open>pre placeholder post\<close> around one new argument.\<close>

definition withArg ::
    "string \<Rightarrow> 'f sqlArg \<Rightarrow> string \<Rightarrow> 'f sqlFilterBuilder \<Rightarrow> filter_error + (string \<times> 'f sqlFilterBuilder)" where
  "withArg pre arg post b = (case addArg arg b of (placeholder, b') \<Rightarrow> Inr (pre @ placeholder @ post, b'))"

definition buildComparison ::
    "(string \<Rightarrow> 'f option) \<Rightarrow> (string \<rightharpoonup> string) \<Rightarrow> FilterOperator \<Rightarrow> string \<Rightarrow> string \<Rightarrow> 'f sqlFilterBuilder
       \<Rightarrow> filter_error + (string \<times> 'f sqlFilterBuilder)" where
  "buildComparison parseFloat validFields operator field v b =
     (case getColumnName validFields field of
        None \<Rightarrow> Inl (InvalidField field)
      | Some column \<Rightarrow>
          (case operator of
             OpEqual \<Rightarrow>
               (if isArrayField validFields field then withArg (column @ ''::jsonb ? '') (ArgText v) '''' b
                else withArg (column @ '' = '') (ArgText v) '''' b)
           | OpNotEqual \<Rightarrow>
               (if isArrayField validFields field
                then withArg (''NOT ('' @ column @ ''::jsonb ? '') (ArgText v) '')'' b
                else withArg (column @ '' != '') (ArgText v) '''' b)
           | OpContains \<Rightarrow> withArg (column @ '' ILIKE '') (ArgText (''%'' @ v @ ''%'')) '''' b
           | OpStartsWith \<Rightarrow> withArg (column @ '' ILIKE '') (ArgText (v @ ''%'')) '''' b
           | OpEndsWith \<Rightarrow> withArg (column @ '' ILIKE '') (ArgText (''%'' @ v)) '''' b
           | OpPresent \<Rightarrow>
               (if isArrayField validFields field
                then Inr (''jsonb_array_length('' @ column @ ''::jsonb) > 0'', b)
                else Inr (column @ '' IS NOT NULL'', b))
           | OpGreaterThan \<Rightarrow> withArg (column @ '' > '') (orderedArg parseFloat v) '''' b
           | OpGreaterEq \<Rightarrow> withArg (column @ '' >= '') (orderedArg parseFloat v) '''' b
           | OpLessThan \<Rightarrow> withArg (column @ '' < '') (orderedArg parseFloat v) '''' b
           | OpLessEq \<Rightarrow> withArg (column @ '' <= '') (orderedArg parseFloat v) '''' b))"

fun buildFilter ::
    "(string \<Rightarrow> 'f option) \<Rightarrow> (string \<rightharpoonup> string) \<Rightarrow> FilterExpression \<Rightarrow> 'f sqlFilterBuilder
       \<Rightarrow> filter_error + (string \<times> 'f sqlFilterBuilder)" where
  "buildFilter pf vf (FAnd l r) b =
     (case buildFilter pf vf l b of
        Inl e \<Rightarrow> Inl e
      | Inr (left, b1) \<Rightarrow>
          (case buildFilter pf vf r b1 of
             Inl e \<Rightarrow> Inl e
           | Inr (right, b2) \<Rightarrow> Inr (''('' @ left @ '' AND '' @ right @ '')'', b2)))"
| "buildFilter pf vf (FOr l r) b =
     (case buildFilter pf vf l b of
        Inl e \<Rightarrow> Inl e
      | Inr (left, b1) \<Rightarrow>
          (case buildFilter pf vf r b1 of
             Inl e \<Rightarrow> Inl e
           | Inr (right, b2) \<Rightarrow> Inr (''('' @ left @ '' OR '' @ right @ '')'', b2)))"
| "buildFilter pf vf (FNot e) b =
     (case buildFilter pf vf e b of
        Inl er \<Rightarrow> Inl er
      | Inr (child, b1) \<Rightarrow> Inr (''(NOT '' @ child @ '')'', b1))"
| "buildFilter pf vf (FCompare operator field v) b = buildComparison pf vf operator field v b"

definition FilterToSQLFrom ::
    "(string \<Rightarrow> 'f option) \<Rightarrow> FilterExpression option \<Rightarrow> (string \<rightharpoonup> string) \<Rightarrow> int \<Rightarrow> filter_error + 'f SQLFilter" where
  "FilterToSQLFrom parseFloat expr validFields startIndex =
     (case expr of
        None \<Rightarrow> Inr \<lparr>WhereClause = '''', Args = []\<rparr>
      | Some e \<Rightarrow>
          (let start = (if startIndex < 1 then 1 else startIndex)
           in case buildFilter parseFloat validFields e \<lparr>sb_args = [], sb_paramIndex = nat start\<rparr> of
                Inl er \<Rightarrow> Inl er
              | Inr (clause, b) \<Rightarrow> Inr \<lparr>WhereClause = clause, Args = sb_args b\<rparr>))"

definition FilterToSQL ::
    "(string \<Rightarrow> 'f option) \<Rightarrow> FilterExpression option \<Rightarrow> (string \<rightharpoonup> string) \<Rightarrow> filter_error + 'f SQLFilter" where
  "FilterToSQL parseFloat expr validFields = FilterToSQLFrom parseFloat expr validFields 1"

definition GetUserFieldMapping :: "string \<rightharpoonup> string" where
  "GetUserFieldMapping = map_of
     [(''id'', ''id''), (''userName'', ''username''), (''username'', ''username''),
      (''emails'', ''email''), (''emails.value'', ''email''), (''userName.value'', ''username''),
      (''active'', ''enabled''), (''externalId'', ''external_id''),
      (''name.givenName'', ''first_name''), (''name.familyName'', ''last_name''),
      (''displayName'', ''(COALESCE(first_name, '' @ quoteSQL '''' @ '') || '' @ quoteSQL '' ''
         @ '' || COALESCE(last_name, '' @ quoteSQL '''' @ ''))''),
      (''title'', ''job_title''), (''department'', ''department''),
      (''created'', ''created_at''), (''meta.created'', ''created_at''),
      (''updated'', ''updated_at''), (''meta.updated'', ''updated_at'')]"

definition GetGroupFieldMapping :: "string \<rightharpoonup> string" where
  "GetGroupFieldMapping = map_of
     [(''id'', ''id''), (''displayName'', ''name''), (''externalId'', ''external_id''),
      (''created'', ''created_at''), (''meta.created'', ''created_at''),
      (''updated'', ''updated_at''), (''meta.updated'', ''updated_at'')]"

section \<open>In-memory evaluation\<close>

text \<open>The attributes the evaluator reads; a pointer is an option.\<close>

record SCIMName =
  sn_GivenName :: "string option"
  sn_FamilyName :: "string option"

record SCIMUser =
  su_ID :: string
  su_ExternalID :: "string option"
  su_UserName :: string
  su_Name :: "SCIMName option"
  su_DisplayName :: "string option"
  su_NickName :: "string option"
  su_Title :: "string option"
  su_UserType :: "string option"
  su_Active :: "bool option"

record SCIMGroup =
  sg_ID :: string
  sg_ExternalID :: "string option"
  sg_DisplayName :: string

definition deref :: "string option \<Rightarrow> string" where
  "deref p = (case p of Some v \<Rightarrow> v | None \<Rightarrow> '''')"

definition getUserFieldValue :: "SCIMUser \<Rightarrow> string \<Rightarrow> string" where
  "getUserFieldValue user field =
     (if field = ''id'' \<or> field = ''Id'' then su_ID user
      else if field = ''userName'' then su_UserName user
      else if field = ''displayName'' then deref (su_DisplayName user)
      else if field = ''externalId'' then deref (su_ExternalID user)
      else if field = ''name.givenName'' then
        (case su_Name user of Some nm \<Rightarrow> deref (sn_GivenName nm) | None \<Rightarrow> '''')
      else if field = ''name.familyName'' then
        (case su_Name user of Some nm \<Rightarrow> deref (sn_FamilyName nm) | None \<Rightarrow> '''')
      else if field = ''nickName'' then deref (su_NickName user)
      else if field = ''title'' then deref (su_Title user)
      else if field = ''userType'' then deref (su_UserType user)
      else if field = ''active'' then
        (case su_Active user of Some True \<Rightarrow> ''true'' | Some False \<Rightarrow> ''false'' | None \<Rightarrow> '''')
      else '''')"

definition getGroupFieldValue :: "SCIMGroup \<Rightarrow> string \<Rightarrow> string" where
  "getGroupFieldValue grp field =
     (if field = ''id'' \<or> field = ''Id'' then sg_ID grp
      else if field = ''displayName'' then sg_DisplayName grp
      else if field = ''externalId'' then deref (sg_ExternalID grp)
      else '''')"

definition getStringValue :: "string \<Rightarrow> SCIMUser option \<Rightarrow> SCIMGroup option \<Rightarrow> string" where
  "getStringValue field user grp =
     (case user of
        Some u \<Rightarrow> getUserFieldValue u field
      | None \<Rightarrow> (case grp of Some g \<Rightarrow> getGroupFieldValue g field | None \<Rightarrow> ''''))"

text \<open>Go compares strings byte by byte.\<close>

fun bytesLess :: "string \<Rightarrow> string \<Rightarrow> bool" where
  "bytesLess [] ys \<longleftrightarrow> ys \<noteq> []"
| "bytesLess (x # xs) [] \<longleftrightarrow> False"
| "bytesLess (x # xs) (y # ys) \<longleftrightarrow> byteOf x < byteOf y \<or> (x = y \<and> bytesLess xs ys)"

definition compareValues :: "string \<Rightarrow> string \<Rightarrow> SCIMUser option \<Rightarrow> SCIMGroup option \<Rightarrow> int" where
  "compareValues field v user grp =
     (let fieldValue = getStringValue field user grp
      in if fieldValue = v then 0 else if bytesLess fieldValue v then -1 else 1)"

fun evaluateExpression :: "FilterExpression \<Rightarrow> SCIMUser option \<Rightarrow> SCIMGroup option \<Rightarrow> bool" where
  "evaluateExpression (FAnd l r) user grp \<longleftrightarrow>
     evaluateExpression l user grp \<and> evaluateExpression r user grp"
| "evaluateExpression (FOr l r) user grp \<longleftrightarrow>
     evaluateExpression l user grp \<or> evaluateExpression r user grp"
| "evaluateExpression (FNot e) user grp \<longleftrightarrow> \<not> evaluateExpression e user grp"
| "evaluateExpression (FCompare operator field v) user grp \<longleftrightarrow>
     (case operator of
        OpEqual \<Rightarrow> compareValues field v user grp = 0
      | OpNotEqual \<Rightarrow> compareValues field v user grp \<noteq> 0
      | OpContains \<Rightarrow> containsStr (getStringValue field user grp) v
      | OpStartsWith \<Rightarrow> hasPrefix (getStringValue field user grp) v
      | OpEndsWith \<Rightarrow> hasSuffix (getStringValue field user grp) v
      | OpPresent \<Rightarrow> getStringValue field user grp \<noteq> ''''
      | _ \<Rightarrow> False)"

definition EvaluateFilter :: "FilterExpression option \<Rightarrow> SCIMUser \<Rightarrow> bool" where
  "EvaluateFilter expr user =
     (case expr of None \<Rightarrow> True | Some e \<Rightarrow> evaluateExpression e (Some user) None)"

definition EvaluateGroupFilter :: "FilterExpression option \<Rightarrow> SCIMGroup \<Rightarrow> bool" where
  "EvaluateGroupFilter expr grp =
     (case expr of None \<Rightarrow> True | Some e \<Rightarrow> evaluateExpression e None (Some grp))"

section \<open>Fuel\<close>

lemma skipWhitespace_le: "length (skipWhitespace r) \<le> length r"
  by (simp add: skipWhitespace_def length_dropWhile_le)

lemma consumeKeyword_length: "consumeKeyword kw r = Some r' \<Longrightarrow> length r = length kw + length r'"
  by (auto simp: consumeKeyword_def split: if_splits)

lemma consumeParen_length: "consumeParen c r = Some r' \<Longrightarrow> length r = Suc (length r')"
  by (auto simp: consumeParen_def split: list.splits if_splits)

lemma skip_Paren_length: "consumeParen c (skipWhitespace r) = Some r' \<Longrightarrow> length r' < length r"
  using skipWhitespace_le [of r] by (auto dest!: consumeParen_length)

lemma skip_Keyword_length:
  "consumeKeyword kw (skipWhitespace r) = Some r' \<Longrightarrow> length kw + length r' \<le> length r"
  using skipWhitespace_le [of r] by (auto dest!: consumeKeyword_length)

lemma quotedScan_length: "quotedScan acc r = Inr (v, r') \<Longrightarrow> length r' < length r"
  by (induction acc r rule: quotedScan.induct) (fastforce split: if_splits)+

lemma quotedScan_fuel [simp]: "quotedScan acc r \<noteq> Inl OutOfFuel"
  by (induction acc r rule: quotedScan.induct) auto

lemma unquotedScan_append: "unquotedScan r = (v, r') \<Longrightarrow> r = v @ r'"
  by (induction r arbitrary: v r') (auto split: if_splits prod.splits)

lemma parseValue_length: "parseValue n r = Inr (v, r') \<Longrightarrow> length r' < length r"
  using skipWhitespace_le [of r]
  by (fastforce simp: parseValue_def parseQuotedString_def split: list.splits if_splits prod.splits
      dest: quotedScan_length unquotedScan_append)

lemma parseAttributeName_length: "parseAttributeName n r = Inr (f, r') \<Longrightarrow> length r' \<le> length r"
  using skipWhitespace_le [of r] length_dropWhile_le [of attributeChar "skipWhitespace r"]
  by (auto simp: parseAttributeName_def Let_def split: if_splits)

lemma parseOperator_length: "parseOperator n r = Inr (op, r') \<Longrightarrow> length r' < length r"
  by (auto simp: parseOperator_def split: if_splits option.splits)

lemma parseComparison_shrinks: "shrinks length (parseComparison n)"
  unfolding shrinks_def
proof (intro allI impI)
  fix r e r' assume "parseComparison n r = Inr (e, r')"
  then obtain f r1 op r2 where "parseAttributeName n r = Inr (f, r1)"
    and "parseOperator n (skipWhitespace r1) = Inr (op, r2)"
    and "r' = skipWhitespace r2 \<or> (\<exists>v. parseValue n (skipWhitespace r2) = Inr (v, r'))"
    by (auto simp: parseComparison_def split: sum.splits if_splits)
  then show "length r' < length r"
    using parseAttributeName_length [of n r f r1] parseOperator_length [of n "skipWhitespace r1" op r2]
      parseValue_length [of n "skipWhitespace r2" _ r'] skipWhitespace_le [of r1] skipWhitespace_le [of r2]
    by fastforce
qed

lemma scan_fuel [simp]:
  "parseAttributeName n r \<noteq> Inl OutOfFuel" "parseOperator n r \<noteq> Inl OutOfFuel" "parseValue n r \<noteq> Inl OutOfFuel"
  by (auto simp: parseAttributeName_def Let_def parseOperator_def split: option.splits)
     (auto simp: parseValue_def parseQuotedString_def split: list.splits prod.splits if_splits)

lemma parseComparison_fuel [simp]: "parseComparison n r \<noteq> Inl OutOfFuel"
proof -
  have "parseAttributeName n r \<noteq> Inl e \<or> e \<noteq> OutOfFuel" "parseOperator n r' \<noteq> Inl e \<or> e \<noteq> OutOfFuel"
    "parseValue n r' \<noteq> Inl e \<or> e \<noteq> OutOfFuel" for r' e
    using scan_fuel by blast+
  then show ?thesis
    by (auto simp: parseComparison_def split: sum.splits)
qed

lemma parsePrimary_shrinks: "shrinks length p \<Longrightarrow> shrinks length (parsePrimaryExpression n p)"
  unfolding shrinks_def
proof (intro allI impI)
  fix r e r' assume p: "\<forall>r a r'. p r = Inr (a, r') \<longrightarrow> length r' < length r"
    and e: "parsePrimaryExpression n p r = Inr (e, r')"
  show "length r' < length r"
  proof (cases "consumeParen CHR ''('' (skipWhitespace r)")
    case None
    with e have "length r' < length (skipWhitespace r)"
      using parseComparison_shrinks [of n] by (simp add: parsePrimaryExpression_def shrinks_def)
    then show ?thesis using skipWhitespace_le [of r] by linarith
  next
    case (Some r1)
    with e obtain r2 where "p r1 = Inr (e, r2)" "consumeParen CHR '')'' (skipWhitespace r2) = Some r'"
      by (auto simp: parsePrimaryExpression_def split: parser_splits)
    with p Some show ?thesis by (meson skip_Paren_length less_trans)
  qed
qed

lemma parseNot_shrinks:
  assumes "shrinks length p"
  shows "shrinks length (parseNotExpression n p)"
  unfolding shrinks_def
proof (intro allI impI)
  fix r e r' assume e: "parseNotExpression n p r = Inr (e, r')"
  show "length r' < length r"
  proof (cases "consumeKeyword ''not'' (skipWhitespace r)")
    case None
    with e have "length r' < length (skipWhitespace r)"
      using parsePrimary_shrinks [OF assms, of n] by (simp add: parseNotExpression_def shrinks_def)
    then show ?thesis using skipWhitespace_le [of r] by linarith
  next
    case (Some r1)
    with e obtain r2 e' r3 where "consumeParen CHR ''('' (skipWhitespace r1) = Some r2"
      "p r2 = Inr (e', r3)" "consumeParen CHR '')'' (skipWhitespace r3) = Some r'"
      by (auto simp: parseNotExpression_def split: parser_splits)
    with assms Some show ?thesis
      by (fastforce simp: shrinks_def dest!: skip_Paren_length skip_Keyword_length)
  qed
qed

lemma keywordNext_chain:
  assumes "kw \<noteq> []"
  shows "keyword_chain length (keywordNext kw)"
proof
  show "keywordNext kw s = Inl s0 \<Longrightarrow> length s0 \<le> length s" for s s0
    using skipWhitespace_le [of s] by (auto simp: keywordNext_def Let_def split: option.splits)
  show "keywordNext kw s = Inr s1 \<Longrightarrow> length s1 < length s" for s s1
    using assms skip_Keyword_length [of kw s s1] by (cases kw) (auto simp: keywordNext_def Let_def split: option.splits)
qed

interpretation filter_and: keyword_chain length "keywordNext ''and''"
  by (rule keywordNext_chain) simp

interpretation filter_or: keyword_chain length "keywordNext ''or''"
  by (rule keywordNext_chain) simp

lemma parseAnd_shrinks: "shrinks length p \<Longrightarrow> shrinks length (parseAndExpression n k p)"
  unfolding parseAndExpression_def by (intro filter_and.shrinks_chain parseNot_shrinks)

lemma parseOr_shrinks: "shrinks length (parseOrExpression n k)"
proof (induction k)
  case 0
  then show ?case by (simp add: shrinks_def)
next
  case (Suc k)
  then have "shrinks length (chain OutOfFuel (keywordNext ''or'') FOr (parseAndExpression n k (parseOrExpression n k)) k)"
    by (intro filter_or.shrinks_chain parseAnd_shrinks)
  then show ?case by (simp add: shrinks_def)
qed

lemma parsePrimary_answers:
  "answersBelow length OutOfFuel m p \<Longrightarrow> answersBelow length OutOfFuel (Suc m) (parsePrimaryExpression n p)"
  by (fastforce simp: answersBelow_def parsePrimaryExpression_def Let_def split: parser_splits
      dest: skip_Paren_length)

lemma parseNot_answers:
  assumes "answersBelow length OutOfFuel m p"
  shows "answersBelow length OutOfFuel (Suc m) (parseNotExpression n p)"
  unfolding answersBelow_def
proof (intro allI impI)
  fix r :: string assume r: "length r < Suc m"
  show "parseNotExpression n p r \<noteq> Inl OutOfFuel"
  proof (cases "consumeKeyword ''not'' (skipWhitespace r)")
    case None
    then show ?thesis
      using parsePrimary_answers [OF assms, of n] r skipWhitespace_le [of r]
      by (simp add: parseNotExpression_def answersBelow_def)
  next
    case (Some r1)
    have "p r2 \<noteq> Inl OutOfFuel" if "consumeParen CHR ''('' (skipWhitespace r1) = Some r2" for r2
      using assms r skip_Keyword_length [OF Some] skip_Paren_length [OF that] by (simp add: answersBelow_def)
    then show ?thesis using Some by (auto simp: parseNotExpression_def split: parser_splits)
  qed
qed

lemma parseAnd_answers:
  "shrinks length p \<Longrightarrow> answersBelow length OutOfFuel k p \<Longrightarrow>
     answersBelow length OutOfFuel (Suc k) (parseAndExpression n k p)"
  unfolding parseAndExpression_def
  by (intro filter_and.answers_chain parseNot_shrinks parseNot_answers)

lemma parseOr_answers: "answersBelow length OutOfFuel k (parseOrExpression n k)"
proof (induction k)
  case 0
  then show ?case by (simp add: answersBelow_def)
next
  case (Suc k)
  then have "answersBelow length OutOfFuel (Suc k)
      (chain OutOfFuel (keywordNext ''or'') FOr (parseAndExpression n k (parseOrExpression n k)) k)"
    by (intro filter_or.answers_chain parseAnd_shrinks parseAnd_answers parseOr_shrinks)
  then show ?case by (simp add: answersBelow_def)
qed

lemma parsePrimary_agrees:
  "agrees OutOfFuel p q \<Longrightarrow> agrees OutOfFuel (parsePrimaryExpression n p) (parsePrimaryExpression n q)"
  unfolding agrees_def [of _ "parsePrimaryExpression n p"] parsePrimaryExpression_def Let_def
  by (simp split: option.split) (blast intro: agrees_case)

lemma parseNot_agrees:
  "agrees OutOfFuel p q \<Longrightarrow> agrees OutOfFuel (parseNotExpression n p) (parseNotExpression n q)"
  unfolding agrees_def [of _ "parseNotExpression n p"] parseNotExpression_def Let_def
  using parsePrimary_agrees [of p q n]
  by (simp add: agrees_def [of _ "parsePrimaryExpression n p"] split: option.split) (blast intro: agrees_case)

lemma parseAnd_agrees:
  "agrees OutOfFuel p q \<Longrightarrow> agrees OutOfFuel (parseAndExpression n k p) (parseAndExpression n (Suc k) q)"
  unfolding parseAndExpression_def by (intro chain_agrees parseNot_agrees)

lemma parseOr_agrees: "agrees OutOfFuel (parseOrExpression n k) (parseOrExpression n (Suc k))"
proof (induction k)
  case 0
  then show ?case by (simp add: agrees_def)
next
  case (Suc k)
  have "parseOrExpression n (Suc m) = chain OutOfFuel (keywordNext ''or'') FOr (parseAndExpression n m (parseOrExpression n m)) m" for m
    by (rule ext) simp
  then show ?case using chain_agrees [OF parseAnd_agrees [OF Suc]] by metis
qed

interpretation scim: fuel_parser "parseOrExpression n" OutOfFuel length "\<lambda>s. Suc (length s)" for n :: nat
  by (intro fuel_parserI parseOr_agrees parseOr_shrinks parseOr_answers)

text \<open>
  C13: the filter parser always returns. Whatever the filter, the fuel the model gives the recursive
  descent is not used up, and any larger amount gives the same answer: the loops and the recursion of
  the parser end on every input.
\<close>

theorem ParseFilter_terminates:
  "ParseFilter input \<noteq> Inl OutOfFuel
   \<and> parseOrExpression n (filterFuel r + m) r = parseOrExpression n (filterFuel r) r"
proof
  have "parseOrExpression (length i) (filterFuel i) i \<noteq> Inl e \<or> e \<noteq> OutOfFuel" for i e
    using scim.enough [of i "filterFuel i" "length i"] by (auto simp: filterFuel_def)
  then show "ParseFilter input \<noteq> Inl OutOfFuel"
    by (auto simp: ParseFilter_def Parse_def split: parser_splits list.splits)
  show "parseOrExpression n (filterFuel r + m) r = parseOrExpression n (filterFuel r) r"
    by (rule scim.same_answer) (auto simp: filterFuel_def)
qed

section \<open>Printing and parsing\<close>

text \<open>The values the printer writes so that the parser reads them back: no quote is printed, so a value
  has neither spaces nor a closing parenthesis, does not start with a quote, and does not end like a
  logical operator. An attribute name may not start like \<^verbatim>\<open>not\<close>.\<close>

definition plainChar :: "char \<Rightarrow> bool" where
  "plainChar c \<longleftrightarrow> \<not> latin1Space c \<and> c \<noteq> CHR '')''"

definition plainValue :: "string \<Rightarrow> bool" where
  "plainValue v \<longleftrightarrow> v \<noteq> [] \<and> list_all plainChar v \<and> hd v \<noteq> CHR 0x22
     \<and> \<not> hasSuffix (toLower v) ''and'' \<and> \<not> hasSuffix (toLower v) ''or''"

fun printable :: "FilterExpression \<Rightarrow> bool" where
  "printable (FAnd l r) \<longleftrightarrow> printable l \<and> printable r"
| "printable (FOr l r) \<longleftrightarrow> printable l \<and> printable r"
| "printable (FNot e) \<longleftrightarrow> printable e"
| "printable (FCompare op f v) \<longleftrightarrow> f \<noteq> [] \<and> list_all attributeChar f \<and> \<not> hasPrefix (toLower f) ''not''
     \<and> (if op = OpPresent then v = [] else plainValue v)"

definition stops :: "string \<Rightarrow> bool" where
  "stops t \<longleftrightarrow> t = [] \<or> hd t = CHR '' '' \<or> hd t = CHR '')''"

lemma latin1Space_facts [simp]:
  "latin1Space CHR '' ''" "\<not> latin1Space CHR ''(''" "\<not> latin1Space CHR '')''" "\<not> latin1Space CHR ''n''"
  "\<not> latin1Space CHR ''a''" "\<not> latin1Space CHR ''o''"
  by (simp_all add: latin1Space_def byteOf_def)

lemma attributeChar_space: "attributeChar c \<Longrightarrow> \<not> latin1Space c"
  by (auto simp: attributeChar_def latin1Space_def latin1Letter_def isUpperAscii_def isLowerAscii_def
      isDigitAscii_def byteOf_def)

lemma attributeChar_paren: "attributeChar c \<Longrightarrow> c \<noteq> CHR ''('' \<and> c \<noteq> CHR '')'' \<and> c \<noteq> CHR '' ''"
  by (auto simp: attributeChar_def latin1Letter_def isUpperAscii_def isLowerAscii_def isDigitAscii_def
      byteOf_def)

lemma toLowerChar_fixed: "\<not> isLowerAscii (toLowerChar c) \<Longrightarrow> toLowerChar c = c"
  by (auto simp: toLowerChar_def isUpperAscii_def isLowerAscii_def byteOf_def split: if_splits)

lemma toLower_simps [simp]: "toLower [] = []" "toLower (c # s) = toLowerChar c # toLower s"
  "toLower (s @ t) = toLower s @ toLower t"
  by (simp_all add: toLower_def)

lemma toLowerChar_delims [simp]:
  "toLowerChar CHR '' '' = CHR '' ''" "toLowerChar CHR '')'' = CHR '')''" "toLowerChar CHR ''('' = CHR ''(''"
  "toLowerChar CHR ''n'' = CHR ''n''" "toLowerChar CHR ''o'' = CHR ''o''" "toLowerChar CHR ''t'' = CHR ''t''"
  "toLowerChar CHR ''a'' = CHR ''a''" "toLowerChar CHR ''d'' = CHR ''d''" "toLowerChar CHR ''r'' = CHR ''r''"
  by (simp_all add: toLowerChar_def isUpperAscii_def byteOf_def)

lemma keyword_spans:
  assumes "list_all isLowerAscii kw" "\<not> isLowerAscii d" "\<forall>c\<in>set w. c \<noteq> d" "stops t"
    and "prefix (kw @ [d]) (toLower (w @ t))"
  shows "toLower w = kw"
  using assms
proof (induction kw arbitrary: w)
  case Nil
  then show ?case by (cases w) (auto dest: toLowerChar_fixed)
next
  case (Cons k ks)
  show ?case
  proof (cases w)
    case Nil
    then have "toLowerChar (hd t) = k" "t \<noteq> []" using Cons.prems(5) by (cases t; simp)+
    then have "isLowerAscii CHR '' '' \<or> isLowerAscii CHR '')''"
      using Cons.prems(1,4) by (auto simp: stops_def)
    then show ?thesis by (simp add: isLowerAscii_def byteOf_def)
  next
    case (Cons c w')
    then show ?thesis using Cons.IH [of w'] Cons.prems by simp
  qed
qed

lemma keywords_lower [simp]:
  "list_all isLowerAscii ''and''" "list_all isLowerAscii ''or''" "\<not> isLowerAscii CHR '' ''" "\<not> isLowerAscii CHR '')''"
  by (simp_all add: isLowerAscii_def byteOf_def)

lemma plain_not_logical:
  assumes "list_all plainChar w" "stops t" "\<not> hasSuffix (toLower w) ''and''" "\<not> hasSuffix (toLower w) ''or''"
  shows "\<not> logicalAhead (w @ t)"
proof
  assume "logicalAhead (w @ t)"
  then have "prefix (''and'' @ '' '') (toLower (w @ t)) \<or> prefix (''or'' @ '' '') (toLower (w @ t))
      \<or> prefix (''and'' @ '')'') (toLower (w @ t)) \<or> prefix (''or'' @ '')'') (toLower (w @ t))"
    by (simp add: logicalAhead_def hasPrefix_def Let_def)
  moreover have "\<forall>c\<in>set w. c \<noteq> CHR '' ''" "\<forall>c\<in>set w. c \<noteq> CHR '')''"
    using assms(1) latin1Space_facts(1) unfolding list_all_iff plainChar_def by blast+
  ultimately have "toLower w = ''and'' \<or> toLower w = ''or''"
    using keyword_spans [of "''and''" "CHR '' ''" w t] keyword_spans [of "''or''" "CHR '' ''" w t]
      keyword_spans [of "''and''" "CHR '')''" w t] keyword_spans [of "''or''" "CHR '')''" w t] assms(2)
    by (simp only: keywords_lower simp_thms) blast
  then show False using assms(3,4) by (auto simp: hasSuffix_def)
qed

lemma unquotedScan_plain:
  "list_all plainChar v \<Longrightarrow> stops t \<Longrightarrow> \<not> hasSuffix (toLower v) ''and'' \<Longrightarrow> \<not> hasSuffix (toLower v) ''or''
     \<Longrightarrow> unquotedScan (v @ t) = (v, t)"
proof (induction v)
  case Nil
  then show ?case by (cases t) (auto simp: stops_def)
next
  case (Cons c v)
  have "\<not> logicalAhead ((c # v) @ t)" by (rule plain_not_logical) (use Cons.prems in auto)
  moreover have "\<not> hasSuffix (toLower v) ''and''" "\<not> hasSuffix (toLower v) ''or''"
    using Cons.prems(3,4) by (auto simp: hasSuffix_def suffix_ConsI)
  ultimately show ?case using Cons by (auto simp: plainChar_def)
qed

lemma skipWhitespace_head: "r = [] \<or> \<not> latin1Space (hd r) \<Longrightarrow> skipWhitespace r = r"
  by (cases r) (auto simp: skipWhitespace_def)

lemma skipWhitespace_simps [simp]:
  "skipWhitespace [] = []" "skipWhitespace (CHR '' '' # r) = skipWhitespace r"
  "skipWhitespace (skipWhitespace r) = skipWhitespace r"
  by (simp_all add: skipWhitespace_def)

lemma attribute_head:
  assumes "f \<noteq> []" "list_all attributeChar f"
  shows "attributeChar (hd (f @ r))" "skipWhitespace (f @ r) = f @ r"
  using assms attributeChar_space [of "hd f"] by (cases f; auto simp: skipWhitespace_def)+

lemma parseAttributeName_string:
  assumes "f \<noteq> []" "list_all attributeChar f"
  shows "parseAttributeName n (f @ CHR '' '' # r) = Inr (f, CHR '' '' # r)"
proof -
  have stop: "\<not> attributeChar CHR '' ''" using attributeChar_paren by blast
  have "takeWhile attributeChar (f @ CHR '' '' # r) = f" "dropWhile attributeChar (f @ CHR '' '' # r) = CHR '' '' # r"
    using assms(2) stop by (induction f) auto
  then show ?thesis using assms attribute_head(2) [OF assms, of "CHR '' '' # r"]
    by (simp add: parseAttributeName_def)
qed

lemma operatorText_head: "\<not> latin1Space (hd (operatorText op @ r))" "length (operatorText op) = 2"
  by (cases op; simp add: latin1Space_def byteOf_def)+

lemma parseOperator_string: "parseOperator n (operatorText op @ r) = Inr (op, r)"
  by (cases op) (simp_all add: parseOperator_def)

lemma parseComparison_string:
  assumes p: "printable (FCompare op f v)" and t: "stops t"
  shows "\<exists>r'. parseComparison n (filterString (FCompare op f v) @ t) = Inr (FCompare op f v, r')
           \<and> skipWhitespace r' = skipWhitespace t"
proof -
  have f: "f \<noteq> []" "list_all attributeChar f" using p by simp_all
  have op: "skipWhitespace (operatorText op' @ r) = operatorText op' @ r" for op' r
    using operatorText_head(1) by (intro skipWhitespace_head) blast
  note read = parseComparison_def parseAttributeName_string [OF f] op parseOperator_string
  show ?thesis
  proof (cases "op = OpPresent")
    case True
    then show ?thesis using p by (simp add: read del: operatorText.simps)
  next
    case False
    then have v: "plainValue v" using p by simp
    then obtain c v' where cv: "v = c # v'" by (cases v) (auto simp: plainValue_def)
    have "skipWhitespace (v @ t) = v @ t"
      using v cv by (intro skipWhitespace_head) (auto simp: plainValue_def plainChar_def)
    moreover have "unquotedScan (v @ t) = (v, t)"
      using v t unquotedScan_plain by (simp add: plainValue_def)
    ultimately have "parseValue n (skipWhitespace (v @ t)) = Inr (v, t)"
      using v cv by (simp add: parseValue_def plainValue_def)
    then show ?thesis using False by (simp add: read del: operatorText.simps)
  qed
qed

lemma prefix_stop:
  assumes "\<not> prefix kw (toLower f)" "list_all isLowerAscii kw"
  shows "toLower (take (length kw) (f @ CHR '' '' # r)) \<noteq> kw"
proof
  assume eq: "toLower (take (length kw) (f @ CHR '' '' # r)) = kw"
  show False
  proof (cases "length kw \<le> length f")
    case True
    then have "kw = take (length kw) (toLower f)" using eq by (simp add: toLower_def take_map)
    then show False using assms(1) take_is_prefix by metis
  next
    case False
    then have "CHR '' '' \<in> set kw"
      using eq by (cases "length kw - length f") (auto simp: toLower_def)
    then show False using assms(2) keywords_lower(3) by (auto simp: list_all_iff)
  qed
qed

lemma keyword_absent:
  "f \<noteq> [] \<Longrightarrow> list_all attributeChar f \<Longrightarrow> \<not> hasPrefix (toLower f) ''not'' \<Longrightarrow>
     consumeKeyword ''not'' (f @ CHR '' '' # r) = None"
  using prefix_stop [of "''not''" f r]
  by (simp add: consumeKeyword_def hasPrefix_def isLowerAscii_def byteOf_def)

lemma keyword_delim [simp]:
  "consumeKeyword ''not'' (CHR ''('' # r) = None" "consumeKeyword ''and'' (CHR '')'' # r) = None"
  "consumeKeyword ''or'' (CHR '')'' # r) = None" "consumeKeyword ''and'' [] = None" "consumeKeyword ''or'' [] = None"
  "consumeKeyword ''and'' (CHR ''o'' # r) = None"
  "consumeKeyword ''not'' (CHR ''n'' # CHR ''o'' # CHR ''t'' # r) = Some r"
  "consumeKeyword ''and'' (CHR ''a'' # CHR ''n'' # CHR ''d'' # r) = Some r"
  "consumeKeyword ''or'' (CHR ''o'' # CHR ''r'' # r) = Some r"
  by (simp_all add: consumeKeyword_def)

lemma paren_delim [simp]: "consumeParen c (c # r) = Some r"
  by (simp add: consumeParen_def)

lemma skipWhitespace_delim [simp]:
  "skipWhitespace (CHR ''('' # r) = CHR ''('' # r" "skipWhitespace (CHR '')'' # r) = CHR '')'' # r"
  "skipWhitespace (CHR ''n'' # r) = CHR ''n'' # r" "skipWhitespace (CHR ''a'' # r) = CHR ''a'' # r"
  "skipWhitespace (CHR ''o'' # r) = CHR ''o'' # r"
  by (simp_all add: skipWhitespace_def)

lemma parseNot_space: "parseNotExpression n p (CHR '' '' # r) = parseNotExpression n p r"
  by (simp add: parseNotExpression_def)

lemma parsePrimary_comparison:
  assumes "printable (FCompare op f v)" "stops t"
  shows "\<exists>r'. parseNotExpression n p (filterString (FCompare op f v) @ t) = Inr (FCompare op f v, r')
           \<and> skipWhitespace r' = skipWhitespace t"
proof -
  let ?r = "operatorText op @ CHR '' '' # v @ t"
  have f: "f \<noteq> []" "list_all attributeChar f" "\<not> hasPrefix (toLower f) ''not''" using assms(1) by simp_all
  have "consumeParen CHR ''('' (f @ CHR '' '' # ?r) = None"
    using f attributeChar_paren by (cases f) (auto simp: consumeParen_def)
  then have "parseNotExpression n p (f @ CHR '' '' # ?r) = parseComparison n (f @ CHR '' '' # ?r)"
    using f by (simp add: parseNotExpression_def parsePrimaryExpression_def attribute_head(2) keyword_absent)
  then show ?thesis using parseComparison_string [OF assms, of n] by (simp del: printable.simps)
qed

text \<open>The text between the parentheses of a printed conjunction, disjunction or negation.\<close>

lemma parseOr_single:
  assumes "parseNotExpression n (parseOrExpression n (Suc k)) r = Inr (e, r1)"
    and "skipWhitespace r1 = u" and "u = [] \<or> hd u = CHR '')''"
  shows "parseOrExpression n (Suc (Suc k)) r = Inr (e, u)"
proof -
  have "consumeKeyword ''and'' u = None" "consumeKeyword ''or'' u = None" "skipWhitespace u = u"
    using assms(3) by (cases u; auto)+
  then show ?thesis using assms(1,2) by (simp add: parseAndExpression_def chain_def keywordNext_def)
qed

lemma parseOr_and:
  assumes "parseNotExpression n (parseOrExpression n (Suc (Suc k))) r = Inr (e1, r1)"
    and "skipWhitespace r1 = ''and '' @ r2"
    and "parseNotExpression n (parseOrExpression n (Suc (Suc k))) r2 = Inr (e2, r3)"
    and "skipWhitespace r3 = CHR '')'' # t"
  shows "parseOrExpression n (Suc (Suc (Suc k))) r = Inr (FAnd e1 e2, CHR '')'' # t)"
  using assms by (simp add: parseAndExpression_def chain_def keywordNext_def parseNot_space del: parseOrExpression.simps
      add: parseOrExpression.simps(2) [of n "Suc (Suc k)" r])

lemma parseOr_or:
  assumes "parseNotExpression n (parseOrExpression n (Suc (Suc k))) r = Inr (e1, r1)"
    and "skipWhitespace r1 = ''or '' @ r2"
    and "parseNotExpression n (parseOrExpression n (Suc (Suc k))) r2 = Inr (e2, r3)"
    and "skipWhitespace r3 = CHR '')'' # t"
  shows "parseOrExpression n (Suc (Suc (Suc k))) r = Inr (FOr e1 e2, CHR '')'' # t)"
  using assms by (simp add: parseAndExpression_def chain_def keywordNext_def parseNot_space del: parseOrExpression.simps
      add: parseOrExpression.simps(2) [of n "Suc (Suc k)" r])

lemma parseNot_parens:
  "parseOrExpression n k r = Inr (e, CHR '')'' # t) \<Longrightarrow>
     parseNotExpression n (parseOrExpression n k) (CHR ''('' # r) = Inr (e, t)"
  "parseOrExpression n k r = Inr (e, CHR '')'' # t) \<Longrightarrow>
     parseNotExpression n (parseOrExpression n k) (''not ('' @ r) = Inr (FNot e, t)"
  by (simp_all add: parseNotExpression_def parsePrimaryExpression_def)

declare parseOrExpression.simps [simp del]

lemma stops_delims [simp]: "stops []" "stops (CHR '' '' # r)" "stops (CHR '')'' # r)"
  by (simp_all add: stops_def)

lemma parseNot_string:
  "printable e \<Longrightarrow> stops t \<Longrightarrow> length (filterString e) \<le> k \<Longrightarrow>
     \<exists>r'. parseNotExpression n (parseOrExpression n k) (filterString e @ t) = Inr (e, r')
        \<and> skipWhitespace r' = skipWhitespace t"
proof (induction e arbitrary: t k)
  case (FCompare op f v)
  then show ?case using parsePrimary_comparison by blast
next
  case (FAnd l r)
  obtain k' where k: "k = Suc (Suc (Suc k'))" using FAnd.prems(3) by (cases k; cases "k - 1"; cases "k - 2") auto
  have "length (filterString l) \<le> Suc (Suc k')" "length (filterString r) \<le> Suc (Suc k')"
    using FAnd.prems(3) k by auto
  from FAnd.IH(1) [OF _ _ this(1), of "'' and '' @ filterString r @ '')'' @ t"]
    FAnd.IH(2) [OF _ _ this(2), of "'')'' @ t"] FAnd.prems
  obtain r1 r3 where "parseNotExpression n (parseOrExpression n (Suc (Suc k')))
      (filterString l @ '' and '' @ filterString r @ '')'' @ t) = Inr (l, r1)"
    "skipWhitespace r1 = ''and '' @ filterString r @ '')'' @ t"
    "parseNotExpression n (parseOrExpression n (Suc (Suc k'))) (filterString r @ '')'' @ t) = Inr (r, r3)"
    "skipWhitespace r3 = CHR '')'' # t"
    by auto
  from parseNot_parens(1) [OF parseOr_and [OF this]] show ?case by (simp add: k)
next
  case (FOr l r)
  obtain k' where k: "k = Suc (Suc (Suc k'))" using FOr.prems(3) by (cases k; cases "k - 1"; cases "k - 2") auto
  have "length (filterString l) \<le> Suc (Suc k')" "length (filterString r) \<le> Suc (Suc k')"
    using FOr.prems(3) k by auto
  from FOr.IH(1) [OF _ _ this(1), of "'' or '' @ filterString r @ '')'' @ t"]
    FOr.IH(2) [OF _ _ this(2), of "'')'' @ t"] FOr.prems
  obtain r1 r3 where "parseNotExpression n (parseOrExpression n (Suc (Suc k')))
      (filterString l @ '' or '' @ filterString r @ '')'' @ t) = Inr (l, r1)"
    "skipWhitespace r1 = ''or '' @ filterString r @ '')'' @ t"
    "parseNotExpression n (parseOrExpression n (Suc (Suc k'))) (filterString r @ '')'' @ t) = Inr (r, r3)"
    "skipWhitespace r3 = CHR '')'' # t"
    by auto
  from parseNot_parens(1) [OF parseOr_or [OF this]] show ?case by (simp add: k)
next
  case (FNot e)
  obtain k' where k: "k = Suc (Suc k')" using FNot.prems(3) by (cases k; cases "k - 1") auto
  have "length (filterString e) \<le> Suc k'" using FNot.prems(3) k by simp
  from FNot.IH [OF _ _ this, of "'')'' @ t"] FNot.prems
  obtain r1 where "parseNotExpression n (parseOrExpression n (Suc k')) (filterString e @ '')'' @ t) = Inr (e, r1)"
    "skipWhitespace r1 = CHR '')'' # t"
    by auto
  from parseNot_parens(2) [OF parseOr_single [OF this]] show ?case by (simp add: k)
qed

lemma trimSpace_fixed:
  assumes "s = [] \<or> \<not> asciiSpace (hd s) \<and> \<not> asciiSpace (last s)"
  shows "trimSpace s = s"
proof -
  have "xs = [] \<or> \<not> asciiSpace (hd xs) \<Longrightarrow> dropWhile asciiSpace xs = xs" for xs by (cases xs) auto
  from this [of s] this [of "rev s"] show ?thesis using assms by (auto simp: trimSpace_def hd_rev)
qed

lemma asciiSpace_latin1: "\<not> latin1Space c \<Longrightarrow> \<not> asciiSpace c"
  by (simp add: latin1Space_def asciiSpace_def)

lemma filterString_ends:
  assumes "printable e"
  shows "filterString e \<noteq> []" "\<not> asciiSpace (hd (filterString e))"
    "(\<nexists>f v. e = FCompare OpPresent f v) \<Longrightarrow> \<not> asciiSpace (last (filterString e))"
proof -
  show ne: "filterString e \<noteq> []" using assms by (cases e) auto
  show "\<not> asciiSpace (hd (filterString e))"
  proof (cases e)
    case (FCompare op f v)
    then show ?thesis using assms attributeChar_space asciiSpace_latin1 by (cases f) auto
  qed (simp_all add: asciiSpace_def byteOf_def)
  show "\<not> asciiSpace (last (filterString e))" if "\<nexists>f v. e = FCompare OpPresent f v"
  proof (cases e)
    case (FCompare op f v)
    then have "v \<noteq> []" "plainChar (last v)" using assms that
      by (auto simp: plainValue_def list_all_iff split: if_splits)
    then show ?thesis using FCompare asciiSpace_latin1 by (simp add: plainChar_def)
  qed (simp_all add: asciiSpace_def byteOf_def)
qed

lemma Parse_string:
  assumes "printable e" "parseNotExpression n (parseOrExpression n (length s)) s = Inr (e, r')"
    "skipWhitespace r' = []" "2 \<le> length s" "n = length s"
  shows "Parse s = Inr (Some e)"
proof -
  obtain k where k: "length s = Suc k" using assms(4) by (cases "length s") auto
  have "parseOrExpression n (Suc (length s)) s = Inr (e, [])"
    unfolding k by (rule parseOr_single) (use assms k in auto)
  then show ?thesis using assms(4,5) by (auto simp: Parse_def filterFuel_def)
qed

lemma Parse_present:
  assumes "printable (FCompare OpPresent f v)"
  shows "Parse (f @ '' pr'') = Inr (Some (FCompare OpPresent f v))"
proof -
  let ?s = "f @ '' pr''" let ?n = "length ?s"
  have f: "f \<noteq> []" "list_all attributeChar f" "\<not> hasPrefix (toLower f) ''not''" "v = []" using assms by simp_all
  have "consumeParen CHR ''('' ?s = None" using f attributeChar_paren by (cases f) (auto simp: consumeParen_def)
  moreover have "skipWhitespace ''pr'' = ''pr''" by (simp add: skipWhitespace_def latin1Space_def byteOf_def)
  ultimately have "parseNotExpression ?n (parseOrExpression ?n ?n) ?s = Inr (FCompare OpPresent f v, [])"
    using f parseOperator_string [of ?n OpPresent "[]"] parseAttributeName_string [OF f(1,2), of ?n "''pr''"]
    by (simp add: parseNotExpression_def parsePrimaryExpression_def parseComparison_def
        attribute_head(2) keyword_absent)
  then show ?thesis by (intro Parse_string) (use assms in auto)
qed



text \<open>
  A keyword is recognised inside a word. A filter on an attribute whose name starts with
  \<^verbatim>\<open>not\<close>, in any case (\<^verbatim>\<open>notes\<close>, \<^verbatim>\<open>NotBefore\<close>), is refused, because the parser takes the
  first three characters for the operator and then misses the parenthesis.
\<close>

theorem attribute_like_not_refused:
  assumes "list_all attributeChar f" "hasPrefix (toLower f) ''not''"
  shows "ParseFilter (f @ '' eq '' @ [CHR 0x22] @ v @ [CHR 0x22]) = Inl ExpectedParenAfterNot"
proof -
  let ?s = "f @ '' eq '' @ [CHR 0x22] @ v @ [CHR 0x22]"
  obtain a b c f' where f: "f = a # b # c # f'" "toLowerChar a = CHR ''n''" "toLowerChar b = CHR ''o''" "toLowerChar c = CHR ''t''"
    using assms(2) by (cases f; cases "tl f"; cases "tl (tl f)") (auto simp: hasPrefix_def)
  have head: "\<not> latin1Space a" "attributeChar a" using assms(1) f attributeChar_space by auto
  then have "trimSpace ?s = ?s"
    using f asciiSpace_latin1 [of a] by (intro trimSpace_fixed) (auto simp: asciiSpace_def byteOf_def)
  moreover have "consumeKeyword ''not'' (skipWhitespace ?s) = Some (f' @ '' eq '' @ [CHR 0x22] @ v @ [CHR 0x22])"
    using f head by (simp add: skipWhitespace_def consumeKeyword_def)
  moreover have "consumeParen CHR ''('' (skipWhitespace (f' @ '' eq '' @ [CHR 0x22] @ v @ [CHR 0x22])) = None"
  proof (cases f')
    case Nil
    then show ?thesis by (simp add: skipWhitespace_def consumeParen_def latin1Space_def byteOf_def)
  next
    case (Cons d f'')
    then have "attributeChar d" using assms(1) f by simp
    then show ?thesis using Cons attributeChar_space attributeChar_paren
      by (auto simp: skipWhitespace_def consumeParen_def)
  qed
  ultimately have "parseNotExpression n p ?s = Inl ExpectedParenAfterNot" "trimSpace ?s = ?s" "?s \<noteq> []" for n p
    by (simp_all add: parseNotExpression_def)
  then show ?thesis
    unfolding ParseFilter_def Parse_def filterFuel_def
    by (simp add: parseAndExpression_def chain_def parseOrExpression.simps)
qed

theorem attribute_like_not_refused_witness:
  "ParseFilter (''Notes eq '' @ [CHR 0x22] @ ''x'' @ [CHR 0x22]) = Inl ExpectedParenAfterNot"
proof -
  have "list_all attributeChar ''Notes''" by code_simp
  moreover have "hasPrefix (toLower ''Notes'') ''not''" by code_simp
  ultimately show ?thesis using attribute_like_not_refused [of "''Notes''" "''x''"] by simp
qed

section \<open>The SQL condition\<close>

text \<open>Another expression of the same shape: the values are replaced.\<close>

fun mapValues :: "(string \<Rightarrow> string) \<Rightarrow> FilterExpression \<Rightarrow> FilterExpression" where
  "mapValues g (FAnd l r) = FAnd (mapValues g l) (mapValues g r)"
| "mapValues g (FOr l r) = FOr (mapValues g l) (mapValues g r)"
| "mapValues g (FNot e) = FNot (mapValues g e)"
| "mapValues g (FCompare op f v) = FCompare op f (g v)"

text \<open>The arguments an expression binds, left to right.\<close>

fun boundArgs :: "(string \<Rightarrow> 'f option) \<Rightarrow> FilterExpression \<Rightarrow> 'f sqlArg list" where
  "boundArgs pf (FAnd l r) = boundArgs pf l @ boundArgs pf r"
| "boundArgs pf (FOr l r) = boundArgs pf l @ boundArgs pf r"
| "boundArgs pf (FNot e) = boundArgs pf e"
| "boundArgs pf (FCompare op f v) =
     (if op = OpPresent then []
      else if op = OpContains then [ArgText (''%'' @ v @ ''%'')]
      else if op = OpStartsWith then [ArgText (v @ ''%'')]
      else if op = OpEndsWith then [ArgText (''%'' @ v)]
      else if op \<in> {OpEqual, OpNotEqual} then [ArgText v]
      else [orderedArg pf v])"

fun fieldsOf :: "FilterExpression \<Rightarrow> string list" where
  "fieldsOf (FAnd l r) = fieldsOf l @ fieldsOf r"
| "fieldsOf (FOr l r) = fieldsOf l @ fieldsOf r"
| "fieldsOf (FNot e) = fieldsOf e"
| "fieldsOf (FCompare op f v) = [f]"

lemma boundArgs_mapValues [simp]: "length (boundArgs pf (mapValues g e)) = length (boundArgs pf e)"
  by (induction e) auto

lemma buildComparison_Inr:
  assumes "buildComparison pf vf op f v b = Inr (w, b')"
  shows "b' = b\<lparr>sb_args := sb_args b @ boundArgs pf (FCompare op f v),
                sb_paramIndex := sb_paramIndex b + length (boundArgs pf (FCompare op f v))\<rparr>"
    and "sb_paramIndex c = sb_paramIndex b \<Longrightarrow> \<exists>c'. buildComparison pf vf op f v' c = Inr (w, c')"
  using assms
  by (cases op; auto simp: buildComparison_def withArg_def addArg_def split: option.splits if_splits)+

lemma buildFilter_args:
  "buildFilter pf vf e b = Inr (w, b') \<Longrightarrow>
     b' = b\<lparr>sb_args := sb_args b @ boundArgs pf e, sb_paramIndex := sb_paramIndex b + length (boundArgs pf e)\<rparr>"
proof (induction e arbitrary: b w b')
  case (FCompare op f v)
  then show ?case using buildComparison_Inr(1) [of pf vf op f v b w b'] by simp
next
  case (FNot e)
  then show ?case by (fastforce split: sum.splits)
qed (fastforce split: sum.splits)+

lemma buildFilter_clause:
  "buildFilter pf vf e b = Inr (w, b') \<Longrightarrow> sb_paramIndex c = sb_paramIndex b \<Longrightarrow>
     \<exists>c'. buildFilter pf vf (mapValues g e) c = Inr (w, c')"
proof (induction e arbitrary: b w b' c)
  case (FCompare op f v)
  then show ?case using buildComparison_Inr(2) [of pf vf op f v b w b' c "g v"] by simp
next
  case (FNot e)
  then show ?case by (fastforce split: sum.splits)
next
  case (FAnd l r)
  then obtain w1 b1 w2 where l: "buildFilter pf vf l b = Inr (w1, b1)" and r: "buildFilter pf vf r b1 = Inr (w2, b')"
    and w: "w = ''('' @ w1 @ '' AND '' @ w2 @ '')''"
    by (auto split: sum.splits)
  obtain c1 where c1: "buildFilter pf vf (mapValues g l) c = Inr (w1, c1)" using FAnd.IH(1) [OF l FAnd.prems(2)] by blast
  then have "sb_paramIndex c1 = sb_paramIndex b1"
    using buildFilter_args [OF l] buildFilter_args [OF c1] FAnd.prems(2) by simp
  then show ?case using FAnd.IH(2) [OF r] c1 w by fastforce
next
  case (FOr l r)
  then obtain w1 b1 w2 where l: "buildFilter pf vf l b = Inr (w1, b1)" and r: "buildFilter pf vf r b1 = Inr (w2, b')"
    and w: "w = ''('' @ w1 @ '' OR '' @ w2 @ '')''"
    by (auto split: sum.splits)
  obtain c1 where c1: "buildFilter pf vf (mapValues g l) c = Inr (w1, c1)" using FOr.IH(1) [OF l FOr.prems(2)] by blast
  then have "sb_paramIndex c1 = sb_paramIndex b1"
    using buildFilter_args [OF l] buildFilter_args [OF c1] FOr.prems(2) by simp
  then show ?case using FOr.IH(2) [OF r] c1 w by fastforce
qed

text \<open>Attribute names of a parsed filter have attribute characters only.\<close>

definition cleanFields :: "FilterExpression \<Rightarrow> bool" where
  "cleanFields e \<longleftrightarrow> (\<forall>f\<in>set (fieldsOf e). f \<noteq> [] \<and> list_all attributeChar f)"

lemma cleanFields_simps [simp]:
  "cleanFields (FAnd l r) \<longleftrightarrow> cleanFields l \<and> cleanFields r"
  "cleanFields (FOr l r) \<longleftrightarrow> cleanFields l \<and> cleanFields r"
  "cleanFields (FNot e) \<longleftrightarrow> cleanFields e"
  by (auto simp: cleanFields_def)

lemma parseComparison_clean: "yields cleanFields (parseComparison n)"
  by (auto simp: yields_def cleanFields_def parseComparison_def parseAttributeName_def Let_def list_all_iff
      split: sum.splits if_splits dest: set_takeWhileD)

lemma parsePrimary_clean: "yields cleanFields p \<Longrightarrow> yields cleanFields (parsePrimaryExpression n p)"
  using parseComparison_clean [of n]
  by (fastforce simp: yields_def parsePrimaryExpression_def Let_def split: parser_splits)

lemma parseNot_clean: "yields cleanFields p \<Longrightarrow> yields cleanFields (parseNotExpression n p)"
  using parsePrimary_clean [of p n]
  by (fastforce simp: yields_def parseNotExpression_def Let_def split: parser_splits)

lemma parseAnd_clean: "yields cleanFields p \<Longrightarrow> yields cleanFields (parseAndExpression n k p)"
  unfolding parseAndExpression_def by (intro chain_yields parseNot_clean) auto

lemma parseOr_clean: "yields cleanFields (parseOrExpression n k)"
proof (induction k)
  case 0
  then show ?case by (simp add: yields_def parseOrExpression.simps)
next
  case (Suc k)
  have "yields cleanFields (chain OutOfFuel (keywordNext ''or'') FOr (parseAndExpression n k (parseOrExpression n k)) k)"
    by (intro chain_yields parseAnd_clean Suc) auto
  then show ?case by (simp add: yields_def parseOrExpression.simps)
qed

text \<open>
  C12: a filter cannot inject SQL. When a filter string is parsed and translated, the text of the
  condition does not depend on the values in the filter: another filter of the same shape gives
  literally the same text. The values are bound as arguments, in order, one for each placeholder, and
  what does enter the text, the attribute names, consists of letters, digits, underscore, dash and dot.
\<close>

theorem filter_sql_parameterised:
  assumes "ParseFilter input = Inr (Some e)"
    and "FilterToSQLFrom pf (Some e) vf start = Inr q"
  shows "Args q = boundArgs pf e
     \<and> (\<exists>args'. FilterToSQLFrom pf (Some (mapValues g e)) vf start = Inr \<lparr>WhereClause = WhereClause q, Args = args'\<rparr>)
     \<and> (\<forall>f\<in>set (fieldsOf e). f \<noteq> [] \<and> list_all attributeChar f)"
proof -
  obtain r where "parseOrExpression (length (trimSpace input)) (filterFuel (trimSpace input)) (trimSpace input) = Inr (e, r)"
    using assms(1) by (auto simp: ParseFilter_def Parse_def split: if_splits parser_splits list.splits)
  then have "cleanFields e" by (rule yieldsD [OF parseOr_clean])
  moreover obtain w b where b: "buildFilter pf vf e \<lparr>sb_args = [], sb_paramIndex = nat (if start < 1 then 1 else start)\<rparr> = Inr (w, b)"
    and q: "q = \<lparr>WhereClause = w, Args = sb_args b\<rparr>"
    using assms(2) by (auto simp: FilterToSQLFrom_def Let_def split: parser_splits)
  moreover obtain c' where "buildFilter pf vf (mapValues g e) \<lparr>sb_args = [], sb_paramIndex = nat (if start < 1 then 1 else start)\<rparr> = Inr (w, c')"
    using buildFilter_clause [OF b] by blast
  ultimately show ?thesis
    using buildFilter_args [OF b] by (simp add: FilterToSQLFrom_def Let_def cleanFields_def)
qed

theorem filter_sql_parameterised_witness:
  "let e = FCompare OpEqual ''userName'' ''bob'';
       q = \<lparr>WhereClause = ''username = $3'', Args = [ArgText ''bob''] :: unit sqlArg list\<rparr>
   in FilterToSQLFrom (\<lambda>_. None) (Some e) GetUserFieldMapping 3 = Inr q
      \<and> Args q = boundArgs (\<lambda>_. None) e
      \<and> (\<exists>args'. FilterToSQLFrom (\<lambda>_. None) (Some (mapValues (\<lambda>v. ''x OR 1=1'') e)) GetUserFieldMapping 3
             = Inr \<lparr>WhereClause = WhereClause q, Args = args' :: unit sqlArg list\<rparr>)"
proof -
  let ?e = "FCompare OpEqual ''userName'' ''bob''"
  have parse: "ParseFilter ''userName eq bob'' = Inr (Some ?e)" by code_simp
  have sql: "FilterToSQLFrom (\<lambda>_. None :: unit option) (Some ?e) GetUserFieldMapping 3
      = Inr \<lparr>WhereClause = ''username = $3'', Args = [ArgText ''bob'']\<rparr>"
    by code_simp
  show ?thesis
    using filter_sql_parameterised [OF parse sql, of "\<lambda>v. ''x OR 1=1''"] sql by (simp only: Let_def simp_thms)
qed

end
