(* ===== verification/Policy_Dsl.thy ===== *)
theory Policy_Dsl
  imports Descent
begin

text \<open>
  The inline access-policy language, \<^verbatim>\<open>internal/access/policy_dsl.go\<close>: tokenizer, recursive-descent
  parser and evaluator.

  Floating-point numbers (\<open>floatOps\<close>: \<^verbatim>\<open>strconv.ParseFloat\<close>, the \<^verbatim>\<open>%v\<close> format, conversion and
  comparison) and regular expressions (\<^verbatim>\<open>regexp.Compile\<close>: \<open>None\<close> for an invalid pattern) are
  parameters. The source tokenizes runes and the model bytes; outside quoted strings only ASCII is
  accepted, so the tokens of a valid UTF-8 text are the same. Positions in messages are left out.
\<close>

section \<open>Values and contexts\<close>

record 'f floatOps =
  fo_parse :: "string \<Rightarrow> 'f option"
  fo_print :: "'f \<Rightarrow> string"
  fo_ofInt :: "int \<Rightarrow> 'f"
  fo_less :: "'f \<Rightarrow> 'f \<Rightarrow> bool"
  fo_le :: "'f \<Rightarrow> 'f \<Rightarrow> bool"

type_synonym regexps = "string \<Rightarrow> (string \<Rightarrow> bool) option"

record 'f PolicyContext =
  pc_UserEmail :: string
  pc_UserRoles :: "string list"
  pc_RequestIP :: string
  pc_DeviceTrusted :: bool
  pc_PostureScore :: 'f
  pc_TimeHour :: int
  pc_GeoCountry :: string
  pc_RiskScore :: int
  pc_RequestMethod :: string
  pc_RequestPath :: string

text \<open>The dynamic types an \<^verbatim>\<open>interface{}\<close> value has here.\<close>

datatype 'f pval = VNil | VStr string | VNum 'f | VBool bool | VList "string list"

datatype 'f PolicyNode =
    andNode "'f PolicyNode" "'f PolicyNode"
  | orNode "'f PolicyNode" "'f PolicyNode"
  | notNode "'f PolicyNode"
  | comparisonNode string string "'f pval"

datatype policy_error =
    MatchesNeedsString | PatternTooLong nat | InvalidPattern string | UnknownOperator string
  | InNeedsArray | LeftNotNumeric string | RightNotNumeric string
  | EmptyPolicy | UnterminatedQuote | UnexpectedChar char | UnexpectedToken string
  | MissingParen | ExpectedVariable string | ExpectedOperator string | ExpectedLiteral string
  | ExpectedArrayString string | ExpectedBracket string | MissingBracket
  | PolicyOutOfFuel

section \<open>Evaluation\<close>

definition formatBool :: "bool \<Rightarrow> string" where
  "formatBool b = (if b then ''true'' else ''false'')"

fun formatV :: "'f floatOps \<Rightarrow> 'f pval \<Rightarrow> string" where
  "formatV fo VNil = ''<nil>''"
| "formatV fo (VStr s) = s"
| "formatV fo (VNum x) = fo_print fo x"
| "formatV fo (VBool b) = formatBool b"
| "formatV fo (VList xs) = ''['' @ joinWith '' '' xs @ '']''"

definition resolveVariable :: "'f floatOps \<Rightarrow> string \<Rightarrow> 'f PolicyContext \<Rightarrow> 'f pval" where
  "resolveVariable fo name ctx =
     (if name = ''user.email'' then VStr (pc_UserEmail ctx)
      else if name = ''user.roles'' then VList (pc_UserRoles ctx)
      else if name = ''request.ip'' then VStr (pc_RequestIP ctx)
      else if name = ''device.trusted'' then VBool (pc_DeviceTrusted ctx)
      else if name = ''device.posture_score'' then VNum (pc_PostureScore ctx)
      else if name = ''time.hour'' then VNum (fo_ofInt fo (pc_TimeHour ctx))
      else if name = ''geo.country'' then VStr (pc_GeoCountry ctx)
      else if name = ''session.risk_score'' then VNum (fo_ofInt fo (pc_RiskScore ctx))
      else if name = ''request.method'' then VStr (pc_RequestMethod ctx)
      else if name = ''request.path'' then VStr (pc_RequestPath ctx)
      else VNil)"

definition evalIn :: "'f floatOps \<Rightarrow> 'f pval \<Rightarrow> 'f pval \<Rightarrow> policy_error + bool" where
  "evalIn fo left right =
     (case right of
        VList arr \<Rightarrow>
          (case left of
             VList leftArr \<Rightarrow> Inr (list_ex (\<lambda>lv. list_ex (\<lambda>rv. lv = rv) arr) leftArr)
           | _ \<Rightarrow> Inr (list_ex (\<lambda>rv. formatV fo left = rv) arr))
      | _ \<Rightarrow> Inl InNeedsArray)"

fun toFloat64 :: "'f floatOps \<Rightarrow> 'f pval \<Rightarrow> 'f option" where
  "toFloat64 fo (VNum x) = Some x"
| "toFloat64 fo (VBool b) = Some (fo_ofInt fo (if b then 1 else 0))"
| "toFloat64 fo (VStr s) = fo_parse fo s"
| "toFloat64 fo v = None"

definition evalNumericComparison ::
    "'f floatOps \<Rightarrow> 'f pval \<Rightarrow> string \<Rightarrow> 'f pval \<Rightarrow> policy_error + bool" where
  "evalNumericComparison fo left op right =
     (case toFloat64 fo left of
        None \<Rightarrow> Inl (LeftNotNumeric op)
      | Some lf \<Rightarrow>
          (case toFloat64 fo right of
             None \<Rightarrow> Inl (RightNotNumeric op)
           | Some rf \<Rightarrow>
               Inr (if op = ''>'' then fo_less fo rf lf
                    else if op = ''<'' then fo_less fo lf rf
                    else if op = ''>='' then fo_le fo rf lf
                    else if op = ''<='' then fo_le fo lf rf
                    else False)))"

definition orderingOp :: "string \<Rightarrow> bool" where
  "orderingOp op \<longleftrightarrow> op \<in> {''>'', ''<'', ''>='', ''<=''}"

definition compareValues ::
    "'f floatOps \<Rightarrow> regexps \<Rightarrow> 'f pval \<Rightarrow> string \<Rightarrow> 'f pval \<Rightarrow> policy_error + bool" where
  "compareValues fo rx left op right =
     (if op = ''=='' then Inr (formatV fo left = formatV fo right)
      else if op = ''!='' then Inr (formatV fo left \<noteq> formatV fo right)
      else if op = ''in'' then evalIn fo left right
      else if op = ''not_in'' then (case evalIn fo left right of Inl e \<Rightarrow> Inl e | Inr b \<Rightarrow> Inr (\<not> b))
      else if op = ''contains'' then Inr (containsStr (formatV fo left) (formatV fo right))
      else if op = ''matches'' then
        (case right of
           VStr pattern \<Rightarrow>
             (if 200 < length pattern then Inl (PatternTooLong (length pattern))
              else (case rx pattern of
                      None \<Rightarrow> Inl (InvalidPattern pattern)
                    | Some re \<Rightarrow> Inr (re (formatV fo left))))
         | _ \<Rightarrow> Inl MatchesNeedsString)
      else if orderingOp op then evalNumericComparison fo left op right
      else Inl (UnknownOperator op))"

fun Evaluate :: "'f floatOps \<Rightarrow> regexps \<Rightarrow> 'f PolicyNode \<Rightarrow> 'f PolicyContext \<Rightarrow> policy_error + bool" where
  "Evaluate fo rx (andNode l r) ctx =
     (case Evaluate fo rx l ctx of
        Inl e \<Rightarrow> Inl e
      | Inr b \<Rightarrow> if \<not> b then Inr False else Evaluate fo rx r ctx)"
| "Evaluate fo rx (orNode l r) ctx =
     (case Evaluate fo rx l ctx of
        Inl e \<Rightarrow> Inl e
      | Inr b \<Rightarrow> if b then Inr True else Evaluate fo rx r ctx)"
| "Evaluate fo rx (notNode n) ctx =
     (case Evaluate fo rx n ctx of Inl e \<Rightarrow> Inl e | Inr b \<Rightarrow> Inr (\<not> b))"
| "Evaluate fo rx (comparisonNode variable operator v) ctx =
     compareValues fo rx (resolveVariable fo variable ctx) operator v"

section \<open>Tokenizer\<close>

datatype token =
    tokEOF | tokAND | tokOR | tokNOT | tokLParen | tokRParen
  | tokOperator string | tokString string | tokNumber string | tokBool string | tokVariable string
  | tokLBracket | tokRBracket | tokComma

fun tokenVal :: "token \<Rightarrow> string" where
  "tokenVal tokEOF = ''''"
| "tokenVal tokAND = ''AND''"
| "tokenVal tokOR = ''OR''"
| "tokenVal tokNOT = ''NOT''"
| "tokenVal tokLParen = ''(''"
| "tokenVal tokRParen = '')''"
| "tokenVal (tokOperator v) = v"
| "tokenVal (tokString v) = v"
| "tokenVal (tokNumber v) = v"
| "tokenVal (tokBool v) = v"
| "tokenVal (tokVariable v) = v"
| "tokenVal tokLBracket = ''[''"
| "tokenVal tokRBracket = '']''"
| "tokenVal tokComma = '',''"

definition isWordChar :: "char \<Rightarrow> bool" where
  "isWordChar c \<longleftrightarrow> isLowerAscii c \<or> isUpperAscii c \<or> isDigitAscii c \<or> c = CHR ''_''"

definition inWord :: "char \<Rightarrow> bool" where
  "inWord c \<longleftrightarrow> isWordChar c \<or> c = CHR ''.'' \<or> c = CHR ''_'' \<or> c = CHR ''-''"

text \<open>The text up to the closing quote, and the rest behind it; a backslash hides the next character.\<close>

fun quoteScan :: "string \<Rightarrow> string \<Rightarrow> (string \<times> string) option" where
  "quoteScan acc [] = None"
| "quoteScan acc (c # cs) =
     (if c = CHR 0x22 then Some (rev acc, cs)
      else if c = CHR 0x5C then (case cs of [] \<Rightarrow> None | d # ds \<Rightarrow> quoteScan (d # c # acc) ds)
      else quoteScan (c # acc) cs)"

text \<open>\<^verbatim>\<open>strings.ReplaceAll\<close> of a backslash and a quote by the quote.\<close>

fun unescapeQuotes :: "string \<Rightarrow> string" where
  "unescapeQuotes (c # d # cs) =
     (if c = CHR 0x5C \<and> d = CHR 0x22 then CHR 0x22 # unescapeQuotes cs else c # unescapeQuotes (d # cs))"
| "unescapeQuotes cs = cs"

definition wordToken :: "'f floatOps \<Rightarrow> string \<Rightarrow> token" where
  "wordToken fo word =
     (let up = toUpper word in
      if up = ''AND'' then tokAND
      else if up = ''OR'' then tokOR
      else if up = ''NOT'' then tokNOT
      else if up = ''TRUE'' then tokBool ''true''
      else if up = ''FALSE'' then tokBool ''false''
      else if up \<in> {''IN'', ''NOT_IN'', ''CONTAINS'', ''MATCHES''} then tokOperator (toLower word)
      else (case fo_parse fo word of Some _ \<Rightarrow> tokNumber word | None \<Rightarrow> tokVariable word))"

definition bracketToken :: "char \<Rightarrow> token option" where
  "bracketToken c =
     (if c = CHR ''('' then Some tokLParen
      else if c = CHR '')'' then Some tokRParen
      else if c = CHR ''['' then Some tokLBracket
      else if c = CHR '']'' then Some tokRBracket
      else if c = CHR '','' then Some tokComma
      else None)"

definition isBlank :: "char \<Rightarrow> bool" where
  "isBlank c \<longleftrightarrow> c \<in> {CHR '' '', CHR 0x09, CHR 0x0A, CHR 0x0D}"

definition twoCharOperator :: "char \<Rightarrow> string \<Rightarrow> bool" where
  "twoCharOperator c cs \<longleftrightarrow> cs \<noteq> [] \<and> [c, hd cs] \<in> {''=='', ''!='', ''>='', ''<=''}"

text \<open>One round of the loop: the token read, if any, and the rest of the input.\<close>

definition nextToken :: "'f floatOps \<Rightarrow> char \<Rightarrow> string \<Rightarrow> policy_error + (token option \<times> string)" where
  "nextToken fo c cs =
     (if isBlank c then Inr (None, cs)
      else (case bracketToken c of
              Some t \<Rightarrow> Inr (Some t, cs)
            | None \<Rightarrow>
                (if c = CHR 0x22 then
                   (case quoteScan [] cs of
                      None \<Rightarrow> Inl UnterminatedQuote
                    | Some (v, rest) \<Rightarrow> Inr (Some (tokString (unescapeQuotes v)), rest))
                 else if twoCharOperator c cs then
                   Inr (Some (tokOperator [c, hd cs]), tl cs)
                 else if c = CHR ''>'' \<or> c = CHR ''<'' then Inr (Some (tokOperator [c]), cs)
                 else if isWordChar c \<or> c = CHR ''-'' \<or> c = CHR ''.'' then
                   Inr (Some (wordToken fo (c # takeWhile inWord cs)), dropWhile inWord cs)
                 else Inl (UnexpectedChar c))))"

lemma quoteScan_length: "quoteScan acc cs = Some (v, rest) \<Longrightarrow> length rest < length cs"
  by (induction acc cs rule: quoteScan.induct) (fastforce split: if_splits list.splits)+

lemma nextToken_length:
  assumes "nextToken fo c cs = Inr (t, rest)"
  shows "length rest \<le> length cs"
proof -
  have "quoteScan [] cs = Some (v, rest) \<Longrightarrow> length rest \<le> length cs" for v
    using quoteScan_length [of "[]" cs v rest] by simp
  then show ?thesis
    using assms unfolding nextToken_def
    by (auto simp: length_dropWhile_le split: if_split_asm option.split_asm)
qed

function tokenize :: "'f floatOps \<Rightarrow> string \<Rightarrow> policy_error + token list" where
  "tokenize fo [] = Inr [tokEOF]"
| "tokenize fo (c # cs) =
     (case nextToken fo c cs of
        Inl e \<Rightarrow> Inl e
      | Inr (t, rest) \<Rightarrow>
          (case tokenize fo rest of
             Inl e \<Rightarrow> Inl e
           | Inr ts \<Rightarrow> Inr (case t of None \<Rightarrow> ts | Some tok \<Rightarrow> tok # ts)))"
  by pat_completeness auto
termination
  by (relation "measure (\<lambda>(_, s). length s)") (auto dest: nextToken_length)

section \<open>Parser\<close>

text \<open>The parser's state is the rest of the tokens; past the end there is the end token.\<close>

definition peek :: "token list \<Rightarrow> token" where
  "peek ts = (case ts of [] \<Rightarrow> tokEOF | t # _ \<Rightarrow> t)"

type_synonym 'f policy_parser = "(policy_error, 'f PolicyNode, token list) parser"

fun arrayLoop :: "string list \<Rightarrow> token list \<Rightarrow> policy_error + (string list \<times> token list)" where
  "arrayLoop arr [] = Inl (ExpectedArrayString [])"
| "arrayLoop arr (t # ts) =
     (case t of
        tokString v \<Rightarrow>
          (if peek ts = tokComma then arrayLoop (arr @ [v]) (tl ts)
           else if peek ts \<noteq> tokRBracket then Inl MissingBracket
           else Inr (arr @ [v], tl ts))
      | _ \<Rightarrow> Inl (ExpectedArrayString (tokenVal t)))"

definition parseArray :: "token list \<Rightarrow> policy_error + (string list \<times> token list)" where
  "parseArray ts =
     (if peek ts \<noteq> tokLBracket then Inl (ExpectedBracket (tokenVal (peek ts)))
      else if peek (tl ts) = tokRBracket then Inr ([], tl (tl ts))
      else arrayLoop [] (tl ts))"

definition parseValue :: "'f floatOps \<Rightarrow> token list \<Rightarrow> policy_error + ('f pval \<times> token list)" where
  "parseValue fo ts =
     (case peek ts of
        tokString v \<Rightarrow> Inr (VStr v, tl ts)
      | tokNumber v \<Rightarrow> Inr (VNum (case fo_parse fo v of Some f \<Rightarrow> f | None \<Rightarrow> fo_ofInt fo 0), tl ts)
      | tokBool v \<Rightarrow> Inr (VBool (v = ''true''), tl ts)
      | tokLBracket \<Rightarrow> (case parseArray ts of Inl e \<Rightarrow> Inl e | Inr (arr, r) \<Rightarrow> Inr (VList arr, r))
      | t \<Rightarrow> Inl (ExpectedLiteral (tokenVal t)))"

definition parseComparison :: "'f floatOps \<Rightarrow> 'f policy_parser" where
  "parseComparison fo ts =
     (case peek ts of
        tokVariable variable \<Rightarrow>
          (case peek (tl ts) of
             tokOperator operator \<Rightarrow>
               (case parseValue fo (tl (tl ts)) of
                  Inl e \<Rightarrow> Inl e
                | Inr (v, r) \<Rightarrow> Inr (comparisonNode variable operator v, r))
           | t \<Rightarrow> Inl (ExpectedOperator (tokenVal t)))
      | t \<Rightarrow> Inl (ExpectedVariable (tokenVal t)))"

definition parsePrimary :: "'f floatOps \<Rightarrow> 'f policy_parser \<Rightarrow> 'f policy_parser" where
  "parsePrimary fo parseOr ts =
     (if peek ts = tokLParen then
        (case parseOr (tl ts) of
           Inl e \<Rightarrow> Inl e
         | Inr (node, r) \<Rightarrow> if peek r \<noteq> tokRParen then Inl MissingParen else Inr (node, tl r))
      else parseComparison fo ts)"

fun parseNotExpr :: "'f floatOps \<Rightarrow> 'f policy_parser \<Rightarrow> 'f policy_parser" where
  "parseNotExpr fo parseOr [] = parsePrimary fo parseOr []"
| "parseNotExpr fo parseOr (t # ts) =
     (if t = tokNOT then
        (case parseNotExpr fo parseOr ts of
           Inl e \<Rightarrow> Inl e
         | Inr (child, r) \<Rightarrow> Inr (notNode child, r))
      else parsePrimary fo parseOr (t # ts))"

definition tokenNext :: "token \<Rightarrow> token list \<Rightarrow> token list + token list" where
  "tokenNext t ts = (if peek ts = t then Inr (tl ts) else Inl ts)"

definition parseAndExpr :: "'f floatOps \<Rightarrow> nat \<Rightarrow> 'f policy_parser \<Rightarrow> 'f policy_parser" where
  "parseAndExpr fo k parseOr =
     chain PolicyOutOfFuel (tokenNext tokAND) andNode (parseNotExpr fo parseOr) k"

fun parseOrExpr :: "'f floatOps \<Rightarrow> nat \<Rightarrow> 'f policy_parser" where
  "parseOrExpr fo 0 ts = Inl PolicyOutOfFuel"
| "parseOrExpr fo (Suc k) ts =
     chain PolicyOutOfFuel (tokenNext tokOR) orNode (parseAndExpr fo k (parseOrExpr fo k)) k ts"

definition ParsePolicy :: "'f floatOps \<Rightarrow> string \<Rightarrow> policy_error + 'f PolicyNode" where
  "ParsePolicy fo expr =
     (let expr = trimSpace expr in
      if expr = [] then Inl EmptyPolicy
      else (case tokenize fo expr of
              Inl e \<Rightarrow> Inl e
            | Inr tokens \<Rightarrow>
                (case parseOrExpr fo (Suc (length tokens)) tokens of
                   Inl e \<Rightarrow> Inl e
                 | Inr (node, r) \<Rightarrow>
                     if peek r \<noteq> tokEOF then Inl (UnexpectedToken (tokenVal (peek r))) else Inr node)))"

definition EvaluatePolicyString ::
    "'f floatOps \<Rightarrow> regexps \<Rightarrow> string \<Rightarrow> 'f PolicyContext \<Rightarrow> policy_error + bool" where
  "EvaluatePolicyString fo rx expr ctx =
     (case ParsePolicy fo expr of Inl e \<Rightarrow> Inl e | Inr node \<Rightarrow> Evaluate fo rx node ctx)"

definition ValidatePolicy :: "'f floatOps \<Rightarrow> string \<Rightarrow> policy_error option" where
  "ValidatePolicy fo expr = (case ParsePolicy fo expr of Inl e \<Rightarrow> Some e | Inr _ \<Rightarrow> None)"

section \<open>Fuel\<close>

lemma peek_length: "peek ts = t \<Longrightarrow> t \<noteq> tokEOF \<Longrightarrow> length (tl ts) < length ts"
  by (auto simp: peek_def split: list.splits)

lemma arrayLoop_length: "arrayLoop arr ts = Inr (a, r) \<Longrightarrow> length r < length ts"
proof (induction arr ts rule: arrayLoop.induct)
  case (2 arr t ts)
  then obtain v where t: "t = tokString v" by (auto split: token.splits)
  show ?case
  proof (cases "peek ts = tokComma")
    case True
    then have "length r < length (tl ts)" using 2 t by simp
    then show ?thesis by simp
  next
    case False
    then have "r = tl ts" using 2(2) t by (simp split: if_splits)
    then show ?thesis by simp
  qed
qed simp

lemma parseArray_length: "parseArray ts = Inr (a, r) \<Longrightarrow> length r < length ts"
  using arrayLoop_length [of "[]" "tl ts" a r] peek_length [of ts tokLBracket]
  by (auto simp: parseArray_def split: if_splits)

lemma policy_parseValue_length: "parseValue fo ts = Inr (v, r) \<Longrightarrow> length r < length ts"
  using parseArray_length [of ts _ r] peek_length [of ts]
  by (auto simp: parseValue_def split: token.splits sum.splits)

lemma policy_parseComparison_shrinks: "shrinks length (parseComparison fo)"
  unfolding shrinks_def
proof (intro allI impI)
  fix ts n r assume "parseComparison fo ts = Inr (n, r)"
  then obtain v where "parseValue fo (tl (tl ts)) = Inr (v, r)"
    by (auto simp: parseComparison_def split: token.splits sum.splits)
  then have "length r < length (tl (tl ts))" by (rule policy_parseValue_length)
  then show "length r < length ts" by simp
qed

lemma policy_parsePrimary_shrinks: "shrinks length p \<Longrightarrow> shrinks length (parsePrimary fo p)"
  unfolding shrinks_def [of _ "parsePrimary fo p"]
proof (intro allI impI)
  fix ts n r assume p: "shrinks length p" and e: "parsePrimary fo p ts = Inr (n, r)"
  show "length r < length ts"
  proof (cases "peek ts = tokLParen")
    case True
    with e obtain r1 where "p (tl ts) = Inr (n, r1)" "r = tl r1"
      by (auto simp: parsePrimary_def split: parser_splits if_splits)
    then show ?thesis using shrinksD [OF p] by fastforce
  next
    case False
    then show ?thesis using e shrinksD [OF policy_parseComparison_shrinks] by (simp add: parsePrimary_def)
  qed
qed

lemma policy_parseNot_shrinks:
  assumes "shrinks length p"
  shows "shrinks length (parseNotExpr fo p)"
proof -
  have "parseNotExpr fo p ts = Inr (n, r) \<Longrightarrow> length r < length ts" for ts n r
  proof (induction ts arbitrary: n)
    case Nil
    then show ?case using shrinksD [OF policy_parsePrimary_shrinks [OF assms]] by fastforce
  next
    case (Cons t ts)
    then show ?case using shrinksD [OF policy_parsePrimary_shrinks [OF assms], of fo "t # ts" n r]
      by (fastforce split: if_splits parser_splits)
  qed
  then show ?thesis by (auto simp: shrinks_def)
qed

lemma tokenNext_chain: "t \<noteq> tokEOF \<Longrightarrow> keyword_chain length (tokenNext t)"
  by unfold_locales (auto simp: tokenNext_def peek_def split: if_splits list.splits)

interpretation policy_and: keyword_chain length "tokenNext tokAND"
  by (rule tokenNext_chain) simp

interpretation policy_or: keyword_chain length "tokenNext tokOR"
  by (rule tokenNext_chain) simp

lemma policy_parseAnd_shrinks: "shrinks length p \<Longrightarrow> shrinks length (parseAndExpr fo k p)"
  unfolding parseAndExpr_def by (intro policy_and.shrinks_chain policy_parseNot_shrinks)

lemma parseOrExpr_Suc:
  "parseOrExpr fo (Suc k) = chain PolicyOutOfFuel (tokenNext tokOR) orNode (parseAndExpr fo k (parseOrExpr fo k)) k"
  by (rule ext) simp

lemma policy_parseOr_shrinks: "shrinks length (parseOrExpr fo k)"
proof (induction k)
  case 0
  then show ?case by (simp add: shrinks_def)
next
  case (Suc k)
  then show ?case unfolding parseOrExpr_Suc by (intro policy_or.shrinks_chain policy_parseAnd_shrinks)
qed

lemma arrayLoop_fuel: "arrayLoop arr ts \<noteq> Inl PolicyOutOfFuel"
  by (induction arr ts rule: arrayLoop.induct) (auto split: token.splits)

lemma parseValue_fuel: "parseValue fo ts \<noteq> Inl PolicyOutOfFuel"
  using arrayLoop_fuel [of "[]" "tl ts"]
  by (auto simp: parseValue_def parseArray_def split: token.splits sum.splits if_splits)

lemma policy_parseComparison_fuel: "parseComparison fo ts \<noteq> Inl PolicyOutOfFuel"
  using parseValue_fuel [of fo "tl (tl ts)"]
  by (auto simp: parseComparison_def split: token.splits sum.splits)

lemma policy_parsePrimary_answers:
  assumes "answersBelow length PolicyOutOfFuel m p"
  shows "answersBelow length PolicyOutOfFuel (Suc m) (parsePrimary fo p)"
  unfolding answersBelow_def
proof (intro allI impI)
  fix ts :: "token list" assume "length ts < Suc m"
  then have "peek ts = tokLParen \<Longrightarrow> p (tl ts) \<noteq> Inl PolicyOutOfFuel"
    using assms peek_length [of ts tokLParen] by (simp add: answersBelow_def)
  then show "parsePrimary fo p ts \<noteq> Inl PolicyOutOfFuel"
    using policy_parseComparison_fuel [of fo ts] by (auto simp: parsePrimary_def split: parser_splits)
qed

lemma policy_parseNot_answers:
  assumes "answersBelow length PolicyOutOfFuel m p"
  shows "answersBelow length PolicyOutOfFuel (Suc m) (parseNotExpr fo p)"
proof -
  note prim = policy_parsePrimary_answers [OF assms, of fo, unfolded answersBelow_def, rule_format]
  have "length ts < Suc m \<Longrightarrow> parseNotExpr fo p ts \<noteq> Inl PolicyOutOfFuel" for ts
  proof (induction ts)
    case Nil
    then show ?case using prim [of "[]"] by simp
  next
    case (Cons t ts)
    then show ?case using prim [of "t # ts"] by (auto split: parser_splits)
  qed
  then show ?thesis by (simp add: answersBelow_def)
qed

lemma policy_parseOr_answers: "answersBelow length PolicyOutOfFuel k (parseOrExpr fo k)"
proof (induction k)
  case 0
  then show ?case by (simp add: answersBelow_def)
next
  case (Suc k)
  then show ?case
    unfolding parseOrExpr_Suc parseAndExpr_def
    by (intro policy_or.answers_chain policy_and.answers_chain policy_and.shrinks_chain
        policy_parseNot_shrinks policy_parseNot_answers policy_parseOr_shrinks)
qed

lemma policy_parsePrimary_agrees:
  "agrees PolicyOutOfFuel p q \<Longrightarrow> agrees PolicyOutOfFuel (parsePrimary fo p) (parsePrimary fo q)"
  unfolding agrees_def [of _ "parsePrimary fo p"] parsePrimary_def
  by (simp split: if_split) (blast intro: agrees_case)

lemma policy_parseNot_agrees:
  assumes "agrees PolicyOutOfFuel p q"
  shows "agrees PolicyOutOfFuel (parseNotExpr fo p) (parseNotExpr fo q)"
proof -
  note prim = policy_parsePrimary_agrees [OF assms, of fo, unfolded agrees_def, rule_format]
  have "parseNotExpr fo p ts \<noteq> Inl PolicyOutOfFuel \<Longrightarrow> parseNotExpr fo q ts = parseNotExpr fo p ts" for ts
  proof (induction ts)
    case Nil
    then show ?case using prim [of "[]"] by simp
  next
    case (Cons t ts)
    then show ?case using prim [of "t # ts"]
      by (cases "parseNotExpr fo p ts = Inl PolicyOutOfFuel") auto
  qed
  then show ?thesis by (simp add: agrees_def)
qed

lemma policy_parseOr_agrees: "agrees PolicyOutOfFuel (parseOrExpr fo k) (parseOrExpr fo (Suc k))"
proof (induction k)
  case 0
  then show ?case by (simp add: agrees_def)
next
  case (Suc k)
  have "agrees PolicyOutOfFuel (parseAndExpr fo k (parseOrExpr fo k)) (parseAndExpr fo (Suc k) (parseOrExpr fo (Suc k)))"
    unfolding parseAndExpr_def by (intro chain_agrees policy_parseNot_agrees Suc)
  from chain_agrees [OF this] show ?case using parseOrExpr_Suc by metis
qed

interpretation policy: fuel_parser "parseOrExpr fo" PolicyOutOfFuel length "\<lambda>ts. Suc (length ts)"
  for fo :: "'f floatOps"
  by (intro fuel_parserI policy_parseOr_agrees policy_parseOr_shrinks policy_parseOr_answers)

declare parseOrExpr.simps [simp del]

text \<open>
  Parsing a policy always returns. The tokenizer consumes a character in every round, and the
  descent over the tokens never uses up the fuel the model gives it; more fuel gives the same answer.
\<close>

theorem ParsePolicy_terminates:
  "ParsePolicy fo expr \<noteq> Inl PolicyOutOfFuel
   \<and> parseOrExpr fo (Suc (length ts) + m) ts = parseOrExpr fo (Suc (length ts)) ts"
proof
  have tok: "tokenize fo s \<noteq> Inl PolicyOutOfFuel" for s
  proof (induction fo s rule: tokenize.induct)
    case (2 fo c cs)
    have "nextToken fo c cs \<noteq> Inl PolicyOutOfFuel" by (auto simp: nextToken_def split: option.splits)
    with 2 show ?case by (auto split: parser_splits)
  qed simp
  have "parseOrExpr fo (Suc (length ts)) ts \<noteq> Inl PolicyOutOfFuel" for ts
    by (rule policy.enough) simp
  then show "ParsePolicy fo expr \<noteq> Inl PolicyOutOfFuel"
    using tok [of "trimSpace expr"] by (auto simp: ParsePolicy_def Let_def split: parser_splits)
  show "parseOrExpr fo (Suc (length ts) + m) ts = parseOrExpr fo (Suc (length ts)) ts"
    by (rule policy.same_answer) auto
qed

section \<open>Typing\<close>

text \<open>The static conditions under which a comparison has a value in every context: what its operator
  demands of the literal and, for the ordering operators, of the variable.\<close>

definition numericVariable :: "string \<Rightarrow> bool" where
  "numericVariable x \<longleftrightarrow> x \<in> {''device.trusted'', ''device.posture_score'', ''time.hour'', ''session.risk_score''}"

definition typedLiteral :: "'f floatOps \<Rightarrow> regexps \<Rightarrow> bool \<Rightarrow> string \<Rightarrow> 'f pval \<Rightarrow> bool" where
  "typedLiteral fo rx leftNumeric op v =
     (if op = ''=='' \<or> op = ''!='' \<or> op = ''contains'' then True
      else if op = ''in'' \<or> op = ''not_in'' then (case v of VList _ \<Rightarrow> True | _ \<Rightarrow> False)
      else if op = ''matches'' then (case v of VStr p \<Rightarrow> length p \<le> 200 \<and> rx p \<noteq> None | _ \<Rightarrow> False)
      else if orderingOp op then leftNumeric \<and> toFloat64 fo v \<noteq> None
      else False)"

definition typedComparison :: "'f floatOps \<Rightarrow> regexps \<Rightarrow> string \<Rightarrow> string \<Rightarrow> 'f pval \<Rightarrow> bool" where
  "typedComparison fo rx x op v = typedLiteral fo rx (numericVariable x) op v"

fun wellTyped :: "'f floatOps \<Rightarrow> regexps \<Rightarrow> 'f PolicyNode \<Rightarrow> bool" where
  "wellTyped fo rx (andNode l r) \<longleftrightarrow> wellTyped fo rx l \<and> wellTyped fo rx r"
| "wellTyped fo rx (orNode l r) \<longleftrightarrow> wellTyped fo rx l \<and> wellTyped fo rx r"
| "wellTyped fo rx (notNode n) \<longleftrightarrow> wellTyped fo rx n"
| "wellTyped fo rx (comparisonNode x op v) \<longleftrightarrow> typedComparison fo rx x op v"

text \<open>What a policy means, by the connectives of the logic.\<close>

fun holds :: "'f floatOps \<Rightarrow> regexps \<Rightarrow> 'f PolicyContext \<Rightarrow> 'f PolicyNode \<Rightarrow> bool" where
  "holds fo rx ctx (andNode l r) \<longleftrightarrow> holds fo rx ctx l \<and> holds fo rx ctx r"
| "holds fo rx ctx (orNode l r) \<longleftrightarrow> holds fo rx ctx l \<or> holds fo rx ctx r"
| "holds fo rx ctx (notNode n) \<longleftrightarrow> \<not> holds fo rx ctx n"
| "holds fo rx ctx (comparisonNode x op v) \<longleftrightarrow> compareValues fo rx (resolveVariable fo x ctx) op v = Inr True"

lemma numericVariable_float: "numericVariable x \<Longrightarrow> toFloat64 fo (resolveVariable fo x ctx) \<noteq> None"
  by (auto simp: numericVariable_def resolveVariable_def)

lemma evalNumeric_Inr:
  "(\<exists>b. evalNumericComparison fo l op r = Inr b) \<longleftrightarrow> toFloat64 fo l \<noteq> None \<and> toFloat64 fo r \<noteq> None"
  by (auto simp: evalNumericComparison_def split: option.splits)

lemma evalIn_Inr: "(\<exists>b. evalIn fo l r = Inr b) \<longleftrightarrow> (case r of VList _ \<Rightarrow> True | _ \<Rightarrow> False)"
  by (cases r; cases l) (auto simp: evalIn_def)

lemma compareValues_Inr:
  "(\<exists>b. compareValues fo rx l op v = Inr b) \<longleftrightarrow> typedLiteral fo rx (toFloat64 fo l \<noteq> None) op v"
proof -
  have neg: "(\<exists>b. (case evalIn fo l v of Inl e \<Rightarrow> Inl e | Inr b \<Rightarrow> Inr (\<not> b)) = Inr b) \<longleftrightarrow> (\<exists>b. evalIn fo l v = Inr b)"
    by (cases "evalIn fo l v") auto
  have pat: "(\<exists>b. (case v of VStr p \<Rightarrow> if 200 < length p then Inl (PatternTooLong (length p))
        else (case rx p of None \<Rightarrow> Inl (InvalidPattern p) | Some re \<Rightarrow> Inr (re (formatV fo l)))
      | _ \<Rightarrow> Inl MatchesNeedsString) = Inr b) \<longleftrightarrow> (case v of VStr p \<Rightarrow> length p \<le> 200 \<and> rx p \<noteq> None | _ \<Rightarrow> False)"
    by (auto split: pval.split option.split)
  consider "op = ''==''" | "op = ''!=''" | "op = ''contains''" | "op = ''in''" | "op = ''not_in''" | "op = ''matches''"
    | "op \<noteq> ''==''" "op \<noteq> ''!=''" "op \<noteq> ''contains''" "op \<noteq> ''in''" "op \<noteq> ''not_in''" "op \<noteq> ''matches''"
    by blast
  then show ?thesis
    by cases (simp_all add: compareValues_def typedLiteral_def evalIn_Inr neg pat evalNumeric_Inr)
qed

lemma typedLiteral_mono: "typedLiteral fo rx b op v \<Longrightarrow> (b \<Longrightarrow> b') \<Longrightarrow> typedLiteral fo rx b' op v"
  by (cases b; simp add: typedLiteral_def split: if_split_asm; blast)

lemma typed_compares:
  assumes "typedComparison fo rx x op v"
  shows "\<exists>b. compareValues fo rx (resolveVariable fo x ctx) op v = Inr b"
  unfolding compareValues_Inr
  by (rule typedLiteral_mono [OF assms [unfolded typedComparison_def]]) (rule numericVariable_float)

lemma Evaluate_holds: "wellTyped fo rx node \<Longrightarrow> Evaluate fo rx node ctx = Inr (holds fo rx ctx node)"
proof (induction node)
  case (comparisonNode x op v)
  then obtain b where "compareValues fo rx (resolveVariable fo x ctx) op v = Inr b" using typed_compares by fastforce
  then show ?case by (cases b) simp_all
qed auto

text \<open>A context whose string fields are all one text that is no number.\<close>

definition wordContext :: "string \<Rightarrow> 'f \<Rightarrow> 'f PolicyContext" where
  "wordContext w f = \<lparr>pc_UserEmail = w, pc_UserRoles = [], pc_RequestIP = w, pc_DeviceTrusted = False,
     pc_PostureScore = f, pc_TimeHour = 0, pc_GeoCountry = w, pc_RiskScore = 0, pc_RequestMethod = w,
     pc_RequestPath = w\<rparr>"

lemma word_not_numeric:
  "fo_parse fo w = None \<Longrightarrow> \<not> numericVariable x \<Longrightarrow> toFloat64 fo (resolveVariable fo x (wordContext w f)) = None"
  by (auto simp: numericVariable_def resolveVariable_def wordContext_def)

text \<open>
  C15: typing of policies. A well-typed policy has a value in every context, and it is the one the
  connectives of the logic give: short-circuit evaluation changes nothing. For a single comparison the
  conditions are exact (as soon as some text is not a number): it has a value in every context if and
  only if it is well typed. \<^verbatim>\<open>ValidatePolicy\<close> checks the syntax only and does not enforce them.
\<close>

theorem policy_type_safety:
  assumes "fo_parse fo w = None"
  shows "(wellTyped fo rx node \<longrightarrow> Evaluate fo rx node ctx = Inr (holds fo rx ctx node))
     \<and> ((\<forall>c. \<exists>b. Evaluate fo rx (comparisonNode x op v) c = Inr b) \<longleftrightarrow> wellTyped fo rx (comparisonNode x op v))"
proof (intro conjI impI iffI)
  assume all: "\<forall>c. \<exists>b. Evaluate fo rx (comparisonNode x op v) c = Inr b"
  then have "\<exists>b. compareValues fo rx (resolveVariable fo x (wordContext w (fo_ofInt fo 0))) op v = Inr b" by simp
  then have "typedLiteral fo rx (toFloat64 fo (resolveVariable fo x (wordContext w (fo_ofInt fo 0))) \<noteq> None) op v"
    unfolding compareValues_Inr .
  then show "wellTyped fo rx (comparisonNode x op v)"
    unfolding wellTyped.simps typedComparison_def
  proof (rule typedLiteral_mono)
    show "numericVariable x" if "toFloat64 fo (resolveVariable fo x (wordContext w (fo_ofInt fo 0))) \<noteq> None"
      using that word_not_numeric [OF assms, where x = x and f = "fo_ofInt fo 0"] by (rule contrapos_np)
  qed
qed (use Evaluate_holds in \<open>blast+\<close>)

definition demoFloats :: "int floatOps" where
  "demoFloats = \<lparr>fo_parse = (\<lambda>s. if s \<noteq> [] \<and> list_all isDigitAscii s then Some (int (undec s)) else None),
     fo_print = (\<lambda>i. dec (nat i)), fo_ofInt = id, fo_less = (<), fo_le = (\<le>)\<rparr>"

definition demoContext :: "int PolicyContext" where
  "demoContext = \<lparr>pc_UserEmail = ''eve@example.com'', pc_UserRoles = [''non-admin''], pc_RequestIP = ''10.0.0.7'',
     pc_DeviceTrusted = True, pc_PostureScore = 80, pc_TimeHour = 9, pc_GeoCountry = ''TR'', pc_RiskScore = 20,
     pc_RequestMethod = ''GET'', pc_RequestPath = ''/reports''\<rparr>"

theorem policy_type_safety_witness:
  "let node = andNode (comparisonNode ''session.risk_score'' ''<'' (VNum 50)) (comparisonNode ''device.trusted'' ''=='' (VBool True))
   in ParsePolicy demoFloats ''session.risk_score < 50 and device.trusted == true'' = Inr node
      \<and> wellTyped demoFloats (\<lambda>_. None) node
      \<and> Evaluate demoFloats (\<lambda>_. None) node demoContext = Inr True"
proof -
  let ?node = "andNode (comparisonNode ''session.risk_score'' ''<'' (VNum 50)) (comparisonNode ''device.trusted'' ''=='' (VBool True))"
  have "ParsePolicy demoFloats ''session.risk_score < 50 and device.trusted == true'' = Inr ?node" by code_simp
  moreover have typed: "wellTyped demoFloats (\<lambda>_. None) ?node"
    by (simp add: typedComparison_def typedLiteral_def orderingOp_def numericVariable_def)
  moreover have "holds demoFloats (\<lambda>_. None) demoContext ?node" by code_simp
  ultimately show ?thesis
    using policy_type_safety [of demoFloats "''x''" "\<lambda>_. None" ?node demoContext] typed
    by (simp add: demoFloats_def isDigitAscii_def byteOf_def)
qed

text \<open>
  What the textual comparison lets through. A variable the evaluator does not know is compared as
  the text \<^verbatim>\<open><nil>\<close>, so a mistyped name makes \<^verbatim>\<open>!=\<close> and \<^verbatim>\<open>not_in\<close> hold for everybody; and
  \<^verbatim>\<open>contains\<close> on a list is a substring test on its printed form, so a role is matched by any
  part of another role's name.
\<close>

theorem policy_coercions_grant:
  assumes "resolveVariable fo x ctx = VNil" and "formatV fo v \<noteq> ''<nil>''" and "''<nil>'' \<notin> set xs"
    and "role \<in> set (pc_UserRoles ctx)" and "containsStr role part"
  shows "Evaluate fo rx (comparisonNode x ''!='' v) ctx = Inr True
     \<and> Evaluate fo rx (comparisonNode x ''not_in'' (VList xs)) ctx = Inr True
     \<and> Evaluate fo rx (comparisonNode ''user.roles'' ''contains'' (VStr part)) ctx = Inr True"
proof (intro conjI)
  show "Evaluate fo rx (comparisonNode x ''!='' v) ctx = Inr True"
    using assms(1,2) by (auto simp: compareValues_def)
  show "Evaluate fo rx (comparisonNode x ''not_in'' (VList xs)) ctx = Inr True"
    using assms(1,3) by (auto simp: compareValues_def evalIn_def list_ex_iff)
  have "sublist role (joinWith '' '' rs)" if "role \<in> set rs" for rs
    using that
  proof (induction rs)
    case (Cons w rs)
    show ?case
    proof (cases rs)
      case Nil
      then show ?thesis using Cons.prems by simp
    next
      case (Cons v ws)
      have tail: "sublist (joinWith '' '' rs) ((w @ '' '') @ joinWith '' '' rs)" by (rule sublist_append_leftI)
      have "sublist role (w @ '' '' @ joinWith '' '' rs)"
      proof (cases "role = w")
        case True
        then show ?thesis by (simp only: sublist_append_rightI)
      next
        case False
        then have "sublist role (joinWith '' '' rs)" using Cons.prems Cons.IH by simp
        from sublist_order.order_trans [OF this tail] show ?thesis by simp
      qed
      then show ?thesis using Cons by simp
    qed
  qed simp
  then have "sublist part (''['' @ joinWith '' '' (pc_UserRoles ctx) @ '']'')"
    using assms(4,5) by (meson containsStr_def sublist_order.order_trans sublist_appendI)
  then show "Evaluate fo rx (comparisonNode ''user.roles'' ''contains'' (VStr part)) ctx = Inr True"
    by (simp add: compareValues_def resolveVariable_def containsStr_def)
qed

theorem policy_coercions_grant_witness:
  "EvaluatePolicyString demoFloats (\<lambda>_. None) (''user.rolez != '' @ [CHR 0x22] @ ''guest'' @ [CHR 0x22]) demoContext = Inr True
   \<and> Evaluate demoFloats (\<lambda>_. None) (comparisonNode ''user.roles'' ''contains'' (VStr ''admin'')) demoContext = Inr True"
proof -
  have "ParsePolicy demoFloats (''user.rolez != '' @ [CHR 0x22] @ ''guest'' @ [CHR 0x22])
      = Inr (comparisonNode ''user.rolez'' ''!='' (VStr ''guest''))"
    by code_simp
  moreover have "containsStr ''non-admin'' ''admin''"
    by (simp add: containsStr_def sublist_def) (rule exI [of _ "''non-''"], simp)
  ultimately show ?thesis
    using policy_coercions_grant [of demoFloats "''user.rolez''" demoContext "VStr ''guest''" "[]" "''non-admin''" "''admin''" "\<lambda>_. None"]
    by (simp add: EvaluatePolicyString_def resolveVariable_def demoContext_def)
qed

end
