(* ===== verification/Pam_Checkout.thy ===== *)
theory Pam_Checkout
  imports Go_Prelude
begin

text \<open>
  Checkout of privileged credentials, \<^verbatim>\<open>internal/access/pam_checkout_control.go\<close> with the reveal
  handler and the access check of \<^verbatim>\<open>pam_entries.go\<close>: exclusive checkout, dual control (a second
  person approves the checkout), break-glass, and check-in.

  Tables are row lists. An insert that repeats a primary key fails, as the constraint makes it. An
  empty text is no UUID, so a statement that compares with or stores an empty user id fails.
  \<open>pv_fails\<close> says which database statements fail, \<open>pv_fresh\<close> is the key the database draws, and
  \<open>pv_vault\<close> is the credential vault (\<open>None\<close> when it is not configured), whose reveal is a parameter.
  Every statement of a handler reads the same clock \<open>pv_now\<close>.
\<close>

section \<open>State\<close>

record pam_entry =
  pe_ID :: string
  pe_OrgID :: string
  pe_Name :: string
  pe_SecretID :: string
  pe_CredentialEntryID :: string
  pe_AllowReveal :: bool
  pe_DualControl :: bool
  pe_Exclusive :: bool
  pe_BreakGlass :: bool

record pam_grant =
  pg_OrgID :: string
  pg_EntryID :: string
  pg_Actions :: "string list"
  pg_ExpiresAt :: "int option"
  pg_PrincipalType :: string
  pg_PrincipalID :: string

record PamCheckoutAuthorization =
  pa_ID :: string
  pa_OrgID :: string
  pa_EntryID :: string
  pa_RequesterID :: string
  pa_Action :: string
  pa_Reason :: string
  pa_Status :: string
  pa_AuthorizerID :: "string option"
  pa_AuthorizerReason :: string
  pa_CreatedAt :: int
  pa_DecidedAt :: "int option"
  pa_ExpiresAt :: int

record PamActiveCheckout =
  ck_ID :: string
  ck_OrgID :: string
  ck_EntryID :: string
  ck_PrincipalID :: string
  ck_Action :: string
  ck_Reason :: string
  ck_BreakGlass :: bool
  ck_Status :: string
  ck_LeasedAt :: int
  ck_ExpiresAt :: "int option"
  ck_ReleasedAt :: "int option"

record pam_state =
  ps_entries :: "pam_entry list"
  ps_grants :: "pam_grant list"
  ps_auths :: "PamCheckoutAuthorization list"
  ps_checkouts :: "PamActiveCheckout list"
  ps_audit :: "(string \<times> string \<times> string) list"

datatype vault_error = VaultNotFound | VaultFailed

record pam_env =
  pv_now :: int
  pv_fails :: "string \<Rightarrow> bool"
  pv_fresh :: "string \<Rightarrow> string"
  pv_devBypass :: bool
  pv_vault :: "(string \<Rightarrow> vault_error + string) option"

record pam_caller =
  pl_org :: "string option"
  pl_user :: string
  pl_roles :: "string list"

datatype pam_response =
    PamError nat string
  | PamHeld string bool
  | PamAwaiting string
  | PamValue string bool
  | PamDecided string string
  | PamReleased nat
  | PamAuthorizations "(PamCheckoutAuthorization \<times> string) list"
  | PamCheckouts "(PamActiveCheckout \<times> string) list"

definition pamCheckoutLeaseTTL :: int where
  "pamCheckoutLeaseTTL = 15 * minute"

definition authorizationTTL :: int where
  "authorizationTTL = 30 * minute"

section \<open>Access\<close>

definition pamCallerIsAdmin :: "pam_env \<Rightarrow> pam_caller \<Rightarrow> bool" where
  "pamCallerIsAdmin env c \<longleftrightarrow>
     pv_devBypass env \<or> list_ex (\<lambda>r. r = ''admin'' \<or> r = ''super_admin'') (pl_roles c)"

definition grantCovers ::
    "int \<Rightarrow> string \<Rightarrow> string \<Rightarrow> string \<Rightarrow> string list \<Rightarrow> string \<Rightarrow> pam_grant \<Rightarrow> bool" where
  "grantCovers now orgID entryID userID roles action g \<longleftrightarrow>
     pg_OrgID g = orgID \<and> pg_EntryID g = entryID \<and> action \<in> set (pg_Actions g)
     \<and> (case pg_ExpiresAt g of None \<Rightarrow> True | Some e \<Rightarrow> now < e)
     \<and> ((pg_PrincipalType g = ''user'' \<and> pg_PrincipalID g = userID)
        \<or> (pg_PrincipalType g = ''role'' \<and> pg_PrincipalID g \<in> set roles))"

definition pamEntryAllowed ::
    "pam_env \<Rightarrow> string \<Rightarrow> string \<Rightarrow> string \<Rightarrow> string list \<Rightarrow> string \<Rightarrow> pam_state \<Rightarrow> bool option" where
  "pamEntryAllowed env orgID entryID userID roles action s =
     (if userID = '''' then Some False
      else if pv_fails env ''pamEntryAllowed'' then None
      else Some (list_ex (grantCovers (pv_now env) orgID entryID userID roles action) (ps_grants s)))"

definition mayReveal :: "pam_env \<Rightarrow> pam_caller \<Rightarrow> string \<Rightarrow> string \<Rightarrow> pam_state \<Rightarrow> bool" where
  "mayReveal env c orgID entryID s \<longleftrightarrow>
     pamCallerIsAdmin env c \<or> pamEntryAllowed env orgID entryID (pl_user c) (pl_roles c) ''reveal'' s = Some True"

section \<open>The gate\<close>

definition findEntry :: "string \<Rightarrow> string \<Rightarrow> pam_state \<Rightarrow> pam_entry option" where
  "findEntry orgID entryID s = find (\<lambda>e. pe_ID e = entryID \<and> pe_OrgID e = orgID) (ps_entries s)"

text \<open>\<open>None\<close> is a failed query, \<open>Some None\<close> no such row.\<close>

definition pamLoadCheckoutFlags :: "pam_env \<Rightarrow> string \<Rightarrow> string \<Rightarrow> pam_state \<Rightarrow> pam_entry option option" where
  "pamLoadCheckoutFlags env orgID entryID s =
     (if pv_fails env ''loadFlags'' then None else Some (findEntry orgID entryID s))"

definition leaseExpired :: "int \<Rightarrow> PamActiveCheckout \<Rightarrow> bool" where
  "leaseExpired now k \<longleftrightarrow> (case ck_ExpiresAt k of None \<Rightarrow> False | Some e \<Rightarrow> e \<le> now)"

definition heldOn :: "string \<Rightarrow> string \<Rightarrow> PamActiveCheckout \<Rightarrow> bool" where
  "heldOn orgID entryID k \<longleftrightarrow> ck_OrgID k = orgID \<and> ck_EntryID k = entryID \<and> ck_Status k = ''active''"

definition retire :: "int \<Rightarrow> string \<Rightarrow> PamActiveCheckout \<Rightarrow> PamActiveCheckout" where
  "retire now status k = k\<lparr>ck_Status := status, ck_ReleasedAt := Some now\<rparr>"

fun earliestLease :: "PamActiveCheckout list \<Rightarrow> PamActiveCheckout option" where
  "earliestLease [] = None"
| "earliestLease (k # ks) =
     (case earliestLease ks of
        None \<Rightarrow> Some k
      | Some k' \<Rightarrow> if ck_LeasedAt k \<le> ck_LeasedAt k' then Some k else Some k')"

text \<open>The answer is an error (\<open>None\<close>) or the holder, the empty text for nobody. Comparing a principal
  with the NULL an empty user id becomes selects no row.\<close>

definition pamActiveHolder ::
    "pam_env \<Rightarrow> string \<Rightarrow> string \<Rightarrow> string \<Rightarrow> pam_state \<Rightarrow> string option \<times> pam_state" where
  "pamActiveHolder env orgID entryID excludePrincipal s =
     (if pv_fails env ''sweepLeases'' then (None, s)
      else (let s1 = s\<lparr>ps_checkouts := updateWhere (\<lambda>k. heldOn orgID entryID k \<and> leaseExpired (pv_now env) k)
                          (retire (pv_now env) ''expired'') (ps_checkouts s)\<rparr>
            in if pv_fails env ''activeHolder'' then (None, s1)
               else (case earliestLease (filter (\<lambda>k. heldOn orgID entryID k \<and> excludePrincipal \<noteq> ''''
                                \<and> ck_PrincipalID k \<noteq> excludePrincipal) (ps_checkouts s1)) of
                       None \<Rightarrow> (Some '''', s1)
                     | Some k \<Rightarrow> (Some (ck_PrincipalID k), s1))))"

definition pamRecordCheckout ::
    "pam_env \<Rightarrow> string \<Rightarrow> string \<Rightarrow> string \<Rightarrow> string \<Rightarrow> string \<Rightarrow> bool \<Rightarrow> pam_state \<Rightarrow> pam_state" where
  "pamRecordCheckout env orgID entryID principalID action reason breakGlass s =
     (let k = \<lparr>ck_ID = pv_fresh env ''checkout'', ck_OrgID = orgID, ck_EntryID = entryID,
               ck_PrincipalID = principalID, ck_Action = action, ck_Reason = reason,
               ck_BreakGlass = breakGlass, ck_Status = ''active'', ck_LeasedAt = pv_now env,
               ck_ExpiresAt = Some (pv_now env + pamCheckoutLeaseTTL), ck_ReleasedAt = None\<rparr>
      in if pv_fails env ''recordCheckout'' \<or> principalID = '''' \<or> ck_ID k \<in> ck_ID ` set (ps_checkouts s) then s
         else s\<lparr>ps_checkouts := ps_checkouts s @ [k]\<rparr>)"

definition authMatches ::
    "int \<Rightarrow> string \<Rightarrow> string \<Rightarrow> string \<Rightarrow> string \<Rightarrow> string \<Rightarrow> PamCheckoutAuthorization \<Rightarrow> bool" where
  "authMatches now orgID entryID userID action status a \<longleftrightarrow>
     pa_OrgID a = orgID \<and> pa_EntryID a = entryID \<and> pa_RequesterID a = userID \<and> pa_Action a = action
     \<and> pa_Status a = status \<and> now < pa_ExpiresAt a"

fun newestAuth :: "PamCheckoutAuthorization list \<Rightarrow> PamCheckoutAuthorization option" where
  "newestAuth [] = None"
| "newestAuth (a # as) =
     (case newestAuth as of
        None \<Rightarrow> Some a
      | Some a' \<Rightarrow> if pa_CreatedAt a' \<le> pa_CreatedAt a then Some a else Some a')"

definition consumeAuth :: "int \<Rightarrow> string \<Rightarrow> pam_state \<Rightarrow> pam_state" where
  "consumeAuth now authID s =
     s\<lparr>ps_auths := updateWhere (\<lambda>a. pa_ID a = authID)
         (\<lambda>a. a\<lparr>pa_Status := ''consumed'', pa_DecidedAt := Some now\<rparr>) (ps_auths s)\<rparr>"

definition openAuth ::
    "pam_env \<Rightarrow> string \<Rightarrow> string \<Rightarrow> string \<Rightarrow> string \<Rightarrow> string \<Rightarrow> pam_state \<Rightarrow> pam_response \<times> pam_state" where
  "openAuth env orgID entryID userID action reason s =
     (let a = \<lparr>pa_ID = pv_fresh env ''authorization'', pa_OrgID = orgID, pa_EntryID = entryID,
               pa_RequesterID = userID, pa_Action = action, pa_Reason = reason, pa_Status = ''pending'',
               pa_AuthorizerID = None, pa_AuthorizerReason = '''', pa_CreatedAt = pv_now env,
               pa_DecidedAt = None, pa_ExpiresAt = pv_now env + authorizationTTL\<rparr>
      in if pv_fails env ''openAuthorization'' \<or> pa_ID a \<in> pa_ID ` set (ps_auths s)
         then (PamError 500 ''failed to open dual-control request'', s)
         else (PamAwaiting (pa_ID a), s\<lparr>ps_auths := ps_auths s @ [a]\<rparr>))"

text \<open>Dual control: \<open>None\<close> lets the caller proceed.\<close>

definition dualControl ::
    "pam_env \<Rightarrow> string \<Rightarrow> string \<Rightarrow> string \<Rightarrow> string \<Rightarrow> string \<Rightarrow> pam_state \<Rightarrow> pam_response option \<times> pam_state" where
  "dualControl env orgID entryID userID action reason s =
     (let matching = (\<lambda>status. filter (authMatches (pv_now env) orgID entryID userID action status) (ps_auths s));
          failed = PamError 500 ''failed to evaluate dual control''
      in if pv_fails env ''consumeAuthorization'' \<or> userID = '''' then (Some failed, s)
         else (case newestAuth (matching ''approved'') of
                 Some a \<Rightarrow> (None, consumeAuth (pv_now env) (pa_ID a) s)
               | None \<Rightarrow>
                   (if pv_fails env ''pendingAuthorization'' then (Some failed, s)
                    else (case newestAuth (matching ''pending'') of
                            Some a \<Rightarrow> (Some (PamAwaiting (pa_ID a)), s)
                          | None \<Rightarrow>
                              (case openAuth env orgID entryID userID action reason s of
                                 (resp, s1) \<Rightarrow> (Some resp, s1))))))"

definition pamCheckoutGate ::
    "pam_env \<Rightarrow> string \<Rightarrow> string \<Rightarrow> string \<Rightarrow> string \<Rightarrow> string \<Rightarrow> pam_state \<Rightarrow> pam_response option \<times> pam_state" where
  "pamCheckoutGate env orgID entryID userID action reason s =
     (case pamLoadCheckoutFlags env orgID entryID s of
        None \<Rightarrow> (Some (PamError 500 ''failed to evaluate checkout controls''), s)
      | Some None \<Rightarrow> (Some (PamError 404 ''entry not found''), s)
      | Some (Some flags) \<Rightarrow>
          (if \<not> pe_DualControl flags \<and> \<not> pe_Exclusive flags then (None, s)
           else (let (refusal, s1) =
                       (if pe_Exclusive flags then
                          (case pamActiveHolder env orgID entryID userID s of
                             (None, s1) \<Rightarrow> (Some (PamError 500 ''failed to evaluate exclusivity''), s1)
                           | (Some holder, s1) \<Rightarrow>
                               (if holder \<noteq> '''' then (Some (PamHeld holder (pe_BreakGlass flags)), s1) else (None, s1)))
                        else (None, s))
                 in if refusal \<noteq> None then (refusal, s1)
                    else if pe_DualControl flags then dualControl env orgID entryID userID action reason s1
                    else (None, s1))))"

section \<open>The handlers\<close>

text \<open>\<open>body\<close> is the reason of the decoded request body, \<open>None\<close> when it is missing or empty.\<close>

definition logAuditEvent :: "string \<Rightarrow> string \<Rightarrow> string \<Rightarrow> pam_state \<Rightarrow> pam_state" where
  "logAuditEvent event entryID userID s = s\<lparr>ps_audit := ps_audit s @ [(event, entryID, userID)]\<rparr>"

definition revealSecret :: "pam_env \<Rightarrow> string \<Rightarrow> pam_response + string" where
  "revealSecret env secretID =
     (case pv_vault env of
        None \<Rightarrow> Inl (PamError 503 ''credential vault is not configured'')
      | Some reveal \<Rightarrow>
          (case reveal secretID of
             Inl VaultNotFound \<Rightarrow> Inl (PamError 404 ''secret not found'')
           | Inl VaultFailed \<Rightarrow> Inl (PamError 500 ''failed to reveal secret'')
           | Inr v \<Rightarrow> Inr v))"

definition revealChecks ::
    "pam_env \<Rightarrow> pam_caller \<Rightarrow> string \<Rightarrow> string option \<Rightarrow> pam_state \<Rightarrow> pam_response + (string \<times> pam_entry \<times> string)" where
  "revealChecks env c entryID body s =
     (case body of
        None \<Rightarrow> Inl (PamError 400 ''reason is required'')
      | Some reason \<Rightarrow>
          (case pl_org c of
             None \<Rightarrow> Inl (PamError 403 ''organization context required'')
           | Some orgID \<Rightarrow>
               (if pv_fails env ''loadEntry'' then Inl (PamError 500 ''failed to load entry'')
                else (case findEntry orgID entryID s of
                        None \<Rightarrow> Inl (PamError 404 ''entry not found'')
                      | Some e \<Rightarrow>
                          (if pe_SecretID e = '''' then
                             (if pe_CredentialEntryID e \<noteq> ''''
                              then Inl (PamError 400 ''entry uses a linked credential; reveal the credential entry instead'')
                              else Inl (PamError 404 ''entry has no stored secret''))
                           else if \<not> pe_AllowReveal e then
                             Inl (PamError 403 ''reveal is disabled for this entry (injection-only access)'')
                           else if \<not> mayReveal env c orgID entryID s then Inl (PamError 403 ''not permitted'')
                           else if pv_vault env = None then
                             Inl (PamError 503 ''credential vault is not configured'')
                           else Inr (orgID, e, reason))))))"

definition handlePamRevealEntry ::
    "pam_env \<Rightarrow> pam_caller \<Rightarrow> string \<Rightarrow> string option \<Rightarrow> pam_state \<Rightarrow> pam_response \<times> pam_state" where
  "handlePamRevealEntry env c entryID body s =
     (case revealChecks env c entryID body s of
        Inl refusal \<Rightarrow> (refusal, s)
      | Inr (orgID, e, reason) \<Rightarrow>
          (case pamCheckoutGate env orgID entryID (pl_user c) ''reveal'' reason s of
             (Some refusal, s1) \<Rightarrow> (refusal, s1)
           | (None, s1) \<Rightarrow>
               (case revealSecret env (pe_SecretID e) of
                  Inl refusal \<Rightarrow> (refusal, s1)
                | Inr v \<Rightarrow>
                    (PamValue v False,
                     pamRecordCheckout env orgID entryID (pl_user c) ''reveal'' reason False
                       (logAuditEvent ''pam.entry_revealed'' entryID (pl_user c) s1)))))"

definition handlePamBreakGlass ::
    "pam_env \<Rightarrow> pam_caller \<Rightarrow> string \<Rightarrow> string option \<Rightarrow> pam_state \<Rightarrow> pam_response \<times> pam_state" where
  "handlePamBreakGlass env c entryID body s =
     (case body of
        None \<Rightarrow> (PamError 400 ''a break-glass justification of at least 10 characters is required'', s)
      | Some reason \<Rightarrow>
          (if length reason < 10 then
             (PamError 400 ''a break-glass justification of at least 10 characters is required'', s)
           else (case pl_org c of
                   None \<Rightarrow> (PamError 403 ''organization context required'', s)
                 | Some orgID \<Rightarrow>
                     (if pv_fails env ''loadEntry'' then (PamError 500 ''failed to load entry'', s)
                      else (case findEntry orgID entryID s of
                              None \<Rightarrow> (PamError 404 ''entry not found'', s)
                            | Some e \<Rightarrow>
                                (if \<not> pe_BreakGlass e then
                                   (PamError 403 ''break-glass is not enabled for this entry'', s)
                                 else if \<not> pe_AllowReveal e \<or> pe_SecretID e = '''' then
                                   (PamError 400 ''entry has no revealable secret'', s)
                                 else if \<not> mayReveal env c orgID entryID s then (PamError 403 ''not permitted'', s)
                                 else (case revealSecret env (pe_SecretID e) of
                                         Inl refusal \<Rightarrow> (refusal, s)
                                       | Inr v \<Rightarrow>
                                           (PamValue v True,
                                            pamRecordCheckout env orgID entryID (pl_user c) ''break_glass'' reason True
                                              (logAuditEvent ''pam.break_glass'' entryID (pl_user c) s)))))))))"

definition handlePamDecideCheckoutAuthorization ::
    "pam_env \<Rightarrow> pam_caller \<Rightarrow> string \<Rightarrow> string \<Rightarrow> string \<Rightarrow> pam_state \<Rightarrow> pam_response \<times> pam_state" where
  "handlePamDecideCheckoutAuthorization env c authID decision reason s =
     (if decision \<noteq> ''approve'' \<and> decision \<noteq> ''deny'' then (PamError 404 ''unknown decision'', s)
      else (case pl_org c of
              None \<Rightarrow> (PamError 403 ''organization context required'', s)
            | Some orgID \<Rightarrow>
                (if pv_fails env ''loadAuthorization'' then (PamError 500 ''failed to load authorization'', s)
                 else (case find (\<lambda>a. pa_ID a = authID \<and> pa_OrgID a = orgID \<and> pa_Status a = ''pending''
                                       \<and> pv_now env < pa_ExpiresAt a) (ps_auths s) of
                         None \<Rightarrow> (PamError 404 ''authorization not found or already decided'', s)
                       | Some a \<Rightarrow>
                           (if pa_RequesterID a = pl_user c then
                              (PamError 403 ''the requester cannot authorize their own checkout (two-person rule)'', s)
                            else (let newStatus = (if decision = ''deny'' then ''denied'' else ''approved'');
                                      P = (\<lambda>a. pa_ID a = authID \<and> pa_OrgID a = orgID \<and> pa_Status a = ''pending'');
                                      f = (\<lambda>a. a\<lparr>pa_Status := newStatus, pa_AuthorizerID := Some (pl_user c),
                                                 pa_AuthorizerReason := reason, pa_DecidedAt := Some (pv_now env)\<rparr>)
                                  in if pv_fails env ''decideAuthorization'' \<or> pl_user c = '''' then
                                       (PamError 500 ''failed to record decision'', s)
                                     else if countWhere P (ps_auths s) = 0 then
                                       (PamError 409 ''authorization already decided'', s)
                                     else (PamDecided authID newStatus,
                                           logAuditEvent (''pam.checkout_authorization_'' @ newStatus) (pa_EntryID a) (pl_user c)
                                             (s\<lparr>ps_auths := updateWhere P f (ps_auths s)\<rparr>))))))))"

definition handlePamCheckin ::
    "pam_env \<Rightarrow> pam_caller \<Rightarrow> string \<Rightarrow> pam_state \<Rightarrow> pam_response \<times> pam_state" where
  "handlePamCheckin env c entryID s =
     (case pl_org c of
        None \<Rightarrow> (PamError 403 ''organization context required'', s)
      | Some orgID \<Rightarrow>
          (let principalFilter = (if pamCallerIsAdmin env c then '''' else pl_user c);
               P = (\<lambda>k. heldOn orgID entryID k \<and> (principalFilter = '''' \<or> ck_PrincipalID k = principalFilter))
           in if pv_fails env ''checkin'' then (PamError 500 ''failed to check in'', s)
              else if countWhere P (ps_checkouts s) = 0 then (PamError 404 ''no active checkout to release'', s)
              else (PamReleased (countWhere P (ps_checkouts s)),
                    logAuditEvent ''pam.checkout_released'' entryID (pl_user c)
                      (s\<lparr>ps_checkouts := updateWhere P (retire (pv_now env) ''released'') (ps_checkouts s)\<rparr>))))"

definition entryName :: "string \<Rightarrow> pam_state \<Rightarrow> string" where
  "entryName entryID s = (case find (\<lambda>e. pe_ID e = entryID) (ps_entries s) of None \<Rightarrow> '''' | Some e \<Rightarrow> pe_Name e)"

definition handlePamListCheckoutAuthorizations :: "pam_env \<Rightarrow> pam_caller \<Rightarrow> pam_state \<Rightarrow> pam_response" where
  "handlePamListCheckoutAuthorizations env c s =
     (case pl_org c of
        None \<Rightarrow> PamError 403 ''organization context required''
      | Some orgID \<Rightarrow>
          (if pv_fails env ''listAuthorizations'' then PamError 500 ''failed to list authorizations''
           else PamAuthorizations (map (\<lambda>a. (a, entryName (pa_EntryID a) s))
                  (take 200 (sort_key (\<lambda>a. - pa_CreatedAt a)
                     (filter (\<lambda>a. pa_OrgID a = orgID \<and> pa_Status a = ''pending'' \<and> pv_now env < pa_ExpiresAt a)
                        (ps_auths s)))))))"

definition handlePamListActiveCheckouts :: "pam_env \<Rightarrow> pam_caller \<Rightarrow> pam_state \<Rightarrow> pam_response \<times> pam_state" where
  "handlePamListActiveCheckouts env c s =
     (case pl_org c of
        None \<Rightarrow> (PamError 403 ''organization context required'', s)
      | Some orgID \<Rightarrow>
          (let s1 = (if pv_fails env ''sweepLeases'' then s
                     else s\<lparr>ps_checkouts := updateWhere (\<lambda>k. ck_OrgID k = orgID \<and> ck_Status k = ''active''
                              \<and> leaseExpired (pv_now env) k) (retire (pv_now env) ''expired'') (ps_checkouts s)\<rparr>)
           in if pv_fails env ''listCheckouts'' then (PamError 500 ''failed to list checkouts'', s1)
              else (PamCheckouts (map (\<lambda>k. (k, entryName (ck_EntryID k) s1))
                      (take 200 (sort_key (\<lambda>k. - ck_LeasedAt k)
                         (filter (\<lambda>k. ck_OrgID k = orgID \<and> ck_Status k = ''active'') (ps_checkouts s1))))), s1)))"

section \<open>The gate decides soundly\<close>

lemma earliestLease_Some: "earliestLease ks = Some k \<Longrightarrow> k \<in> set ks"
  by (induction ks arbitrary: k) (auto split: option.splits if_splits)

lemma earliestLease_None [simp]: "earliestLease ks = None \<longleftrightarrow> ks = []"
  by (cases ks) (auto split: option.splits)

lemma newestAuth_Some: "newestAuth as = Some a \<Longrightarrow> a \<in> set as"
  by (induction as arbitrary: a) (auto split: option.splits if_splits)

definition namedLeases :: "pam_state \<Rightarrow> bool" where
  "namedLeases s \<longleftrightarrow> (\<forall>k\<in>set (ps_checkouts s). ck_PrincipalID k \<noteq> '''')"

definition liveLease :: "int \<Rightarrow> string \<Rightarrow> string \<Rightarrow> string \<Rightarrow> pam_state \<Rightarrow> bool" where
  "liveLease now orgID entryID who s \<longleftrightarrow>
     (\<exists>k\<in>set (ps_checkouts s). heldOn orgID entryID k \<and> \<not> leaseExpired now k \<and> ck_PrincipalID k = who)"

lemma retire_sel [simp]: "ck_PrincipalID (retire now st k) = ck_PrincipalID k" "ck_ID (retire now st k) = ck_ID k"
  by (simp_all add: retire_def)

lemma pamActiveHolder_free:
  assumes "pamActiveHolder env orgID entryID userID s = (Some '''', s1)" "userID \<noteq> ''''" "namedLeases s"
    and "liveLease (pv_now env) orgID entryID who s"
  shows "who = userID"
proof (rule ccontr)
  let ?rows = "filter (\<lambda>k. heldOn orgID entryID k \<and> userID \<noteq> '''' \<and> ck_PrincipalID k \<noteq> userID)
      (updateWhere (\<lambda>k. heldOn orgID entryID k \<and> leaseExpired (pv_now env) k)
      (retire (pv_now env) ''expired'') (ps_checkouts s))"
  assume ne: "who \<noteq> userID"
  obtain k where "k \<in> set (ps_checkouts s)" "heldOn orgID entryID k" "\<not> leaseExpired (pv_now env) k" "ck_PrincipalID k = who"
    using assms(4) by (auto simp: liveLease_def)
  then have "k \<in> set ?rows" using ne assms(2) by (force simp: set_updateWhere)
  then have "earliestLease ?rows \<noteq> None" unfolding earliestLease_None by (rule_tac notI) simp
  then obtain k' where k': "earliestLease ?rows = Some k'" by blast
  then have "k' \<in> set ?rows" by (rule earliestLease_Some)
  then have "ck_PrincipalID k' \<noteq> ''''"
    using assms(3) by (auto simp: set_updateWhere namedLeases_def split: if_splits)
  then show False using assms(1) k' by (simp add: pamActiveHolder_def Let_def split: if_splits)
qed

lemma pamActiveHolder_auths: "ps_auths (snd (pamActiveHolder env orgID entryID userID s)) = ps_auths s"
  "ps_entries (snd (pamActiveHolder env orgID entryID userID s)) = ps_entries s"
  by (simp_all add: pamActiveHolder_def Let_def split: option.split)

lemma dualControl_proceeds:
  assumes "dualControl env orgID entryID userID action reason s = (None, s1)"
  shows "\<exists>a\<in>set (ps_auths s). authMatches (pv_now env) orgID entryID userID action ''approved'' a
           \<and> s1 = consumeAuth (pv_now env) (pa_ID a) s"
  using assms
  by (auto simp: dualControl_def Let_def split: if_splits option.splits prod.splits dest!: newestAuth_Some)

lemma pamCheckoutGate_proceeds:
  assumes "pamCheckoutGate env orgID entryID userID action reason s = (None, s1)"
  obtains flags s0 where "findEntry orgID entryID s = Some flags" "ps_auths s0 = ps_auths s"
    "pe_Exclusive flags \<Longrightarrow> pamActiveHolder env orgID entryID userID s = (Some '''', s0)"
    "if pe_DualControl flags then dualControl env orgID entryID userID action reason s0 = (None, s1) else s1 = s0"
proof -
  obtain flags where flags: "findEntry orgID entryID s = Some flags" "\<not> pv_fails env ''loadFlags''"
    using assms by (auto simp: pamCheckoutGate_def pamLoadCheckoutFlags_def split: if_splits option.splits)
  note gate = assms [unfolded pamCheckoutGate_def pamLoadCheckoutFlags_def]
  show thesis
  proof (cases "pe_Exclusive flags")
    case False
    then show thesis using gate flags that [of flags s] by (simp split: if_splits)
  next
    case True
    obtain h s0 where h: "pamActiveHolder env orgID entryID userID s = (h, s0)" by fastforce
    with gate flags True have "h = Some ''''" by (auto split: option.splits if_splits)
    moreover have "ps_auths s0 = ps_auths s" using pamActiveHolder_auths(1) [of env orgID entryID userID s] h by simp
    ultimately show thesis using gate flags True h that [of flags s0] by (simp split: if_splits)
  qed
qed

section \<open>Reachable states\<close>

definition secondPerson :: "PamCheckoutAuthorization \<Rightarrow> bool" where
  "secondPerson a \<longleftrightarrow> (\<exists>z. pa_AuthorizerID a = Some z \<and> z \<noteq> pa_RequesterID a)"

definition authsOK :: "PamCheckoutAuthorization list \<Rightarrow> bool" where
  "authsOK as \<longleftrightarrow> distinct (map pa_ID as)
     \<and> (\<forall>a\<in>set as. pa_Status a = ''approved'' \<or> pa_Status a = ''consumed'' \<longrightarrow> secondPerson a)"

datatype pam_op =
    OpReveal pam_env pam_caller string "string option"
  | OpGate pam_env string string string string string
  | OpRecord pam_env string string string string string bool
  | OpBreakGlass pam_env pam_caller string "string option"
  | OpDecide pam_env pam_caller string string string
  | OpCheckin pam_env pam_caller string
  | OpList pam_env pam_caller
  | OpAdmin "pam_entry list" "pam_grant list"

text \<open>\<open>OpGate\<close> and \<open>OpRecord\<close> are the two halves of a reveal, so that concurrent reveals may interleave;
  \<open>OpAdmin\<close> stands for any edit of the entries and grants.\<close>

fun pamRun :: "pam_op \<Rightarrow> pam_state \<Rightarrow> pam_state" where
  "pamRun (OpReveal env c e body) s = snd (handlePamRevealEntry env c e body s)"
| "pamRun (OpGate env orgID e u act reason) s = snd (pamCheckoutGate env orgID e u act reason s)"
| "pamRun (OpRecord env orgID e u act reason bg) s = pamRecordCheckout env orgID e u act reason bg s"
| "pamRun (OpBreakGlass env c e body) s = snd (handlePamBreakGlass env c e body s)"
| "pamRun (OpDecide env c a d reason) s = snd (handlePamDecideCheckoutAuthorization env c a d reason s)"
| "pamRun (OpCheckin env c e) s = snd (handlePamCheckin env c e s)"
| "pamRun (OpList env c) s = snd (handlePamListActiveCheckouts env c s)"
| "pamRun (OpAdmin es gs) s = s\<lparr>ps_entries := es, ps_grants := gs\<rparr>"

inductive pam_step :: "pam_state \<Rightarrow> pam_state \<Rightarrow> bool" where
  pam_run: "pam_step s (pamRun op s)"

inductive_cases pam_stepE: "pam_step s t"

definition pam_init :: "pam_state \<Rightarrow> bool" where
  "pam_init s \<longleftrightarrow> ps_auths s = [] \<and> ps_checkouts s = []"

definition pam_inv :: "pam_state \<Rightarrow> bool" where
  "pam_inv s \<longleftrightarrow> authsOK (ps_auths s) \<and> namedLeases s"

lemma authsOK_consume:
  assumes "authsOK (ps_auths s)" "a \<in> set (ps_auths s)" "pa_Status a = ''approved''"
  shows "authsOK (ps_auths (consumeAuth now (pa_ID a) s))"
proof -
  have "secondPerson b" if "b \<in> set (ps_auths s)" "pa_ID b = pa_ID a" for b
    using assms that distinct_key_eq [of pa_ID "ps_auths s" a b] by (auto simp: authsOK_def)
  then show ?thesis
    using assms(1)
    by (auto simp: authsOK_def consumeAuth_def set_updateWhere map_updateWhere_key secondPerson_def)
qed

lemma authsOK_open: "authsOK (ps_auths s) \<Longrightarrow> authsOK (ps_auths (snd (openAuth env orgID e u act reason s)))"
  by (auto simp: openAuth_def Let_def authsOK_def)

lemma dualControl_inv:
  assumes "authsOK (ps_auths s)"
  shows "authsOK (ps_auths (snd (dualControl env orgID e u act reason s)))"
  using assms authsOK_open [OF assms, of env orgID e u act reason] authsOK_consume [OF assms]
  by (auto simp: dualControl_def Let_def authMatches_def split: option.splits prod.splits dest!: newestAuth_Some)

lemma pamCheckoutGate_auths:
  assumes "authsOK (ps_auths s)"
  shows "authsOK (ps_auths (snd (pamCheckoutGate env orgID e u act reason s)))"
proof -
  have "authsOK (ps_auths (snd (dualControl env orgID e u act reason s0)))" if "ps_auths s0 = ps_auths s" for s0
    using dualControl_inv [of s0] assms that by simp
  then show ?thesis
    using assms pamActiveHolder_auths(1) [of env orgID e u s]
    by (cases "pamActiveHolder env orgID e u s")
       (auto simp: pamCheckoutGate_def Let_def split: option.split)
qed

lemma authsOK_decide:
  assumes "authsOK as" "a \<in> set as" "pa_ID a = i" "pa_RequesterID a \<noteq> u"
  shows "authsOK (updateWhere (\<lambda>a. pa_ID a = i \<and> pa_OrgID a = orgID \<and> pa_Status a = ''pending'')
     (\<lambda>a. a\<lparr>pa_Status := st, pa_AuthorizerID := Some u, pa_AuthorizerReason := r, pa_DecidedAt := d\<rparr>) as)"
proof -
  have "pa_RequesterID b \<noteq> u" if "b \<in> set as" "pa_ID b = i" for b
    using assms that distinct_key_eq [of pa_ID as a b] by (auto simp: authsOK_def)
  then show ?thesis
    using assms(1) by (fastforce simp: authsOK_def set_updateWhere map_updateWhere_key secondPerson_def)
qed

lemma decide_inv:
  assumes "authsOK (ps_auths s)"
  shows "authsOK (ps_auths (snd (handlePamDecideCheckoutAuthorization env c a d reason s)))"
  using assms
  by (auto simp: handlePamDecideCheckoutAuthorization_def Let_def logAuditEvent_def split: option.splits
      intro: authsOK_decide dest!: find_Some_mem)

text \<open>The leases: every operation keeps the holders named.\<close>

lemma namedLeases_audit [simp]:
  "namedLeases (logAuditEvent ev e u s) \<longleftrightarrow> namedLeases s" "ps_auths (logAuditEvent ev e u s) = ps_auths s"
  by (simp_all add: namedLeases_def logAuditEvent_def)

lemma namedLeases_record:
  "namedLeases s \<Longrightarrow> namedLeases (pamRecordCheckout env orgID e u act reason bg s)"
  "ps_auths (pamRecordCheckout env orgID e u act reason bg s) = ps_auths s"
  by (auto simp: pamRecordCheckout_def namedLeases_def Let_def)

lemma namedLeases_auths [simp]: "namedLeases (s\<lparr>ps_auths := as\<rparr>) \<longleftrightarrow> namedLeases s"
  "namedLeases (s\<lparr>ps_entries := es, ps_grants := gs\<rparr>) \<longleftrightarrow> namedLeases s"
  by (simp_all add: namedLeases_def)

lemma namedLeases_retire:
  "namedLeases s \<Longrightarrow> namedLeases (s\<lparr>ps_checkouts := updateWhere P (retire now st) (ps_checkouts s)\<rparr>)"
  by (auto simp: namedLeases_def set_updateWhere)

lemma namedLeases_holder: "namedLeases s \<Longrightarrow> namedLeases (snd (pamActiveHolder env orgID e u s))"
  by (auto simp: pamActiveHolder_def Let_def intro: namedLeases_retire split: option.splits)

lemma namedLeases_dual: "namedLeases s \<Longrightarrow> namedLeases (snd (dualControl env orgID e u act reason s))"
  by (auto simp: dualControl_def openAuth_def consumeAuth_def Let_def split: option.splits)

lemma namedLeases_gate: "namedLeases s \<Longrightarrow> namedLeases (snd (pamCheckoutGate env orgID e u act reason s))"
  using namedLeases_holder [of s env orgID e u] namedLeases_dual
  by (cases "pamActiveHolder env orgID e u s") (auto simp: pamCheckoutGate_def Let_def split: option.split)

lemma reveal_cases:
  obtains "snd (handlePamRevealEntry env c e body s) = s"
  | orgID reason where "snd (handlePamRevealEntry env c e body s) = snd (pamCheckoutGate env orgID e (pl_user c) ''reveal'' reason s)"
  | orgID reason where "snd (handlePamRevealEntry env c e body s) =
      pamRecordCheckout env orgID e (pl_user c) ''reveal'' reason False (logAuditEvent ''pam.entry_revealed'' e (pl_user c)
        (snd (pamCheckoutGate env orgID e (pl_user c) ''reveal'' reason s)))"
proof (cases "revealChecks env c e body s")
  case (Inl x)
  then show thesis using that(1) by (simp add: handlePamRevealEntry_def)
next
  case (Inr x)
  obtain orgID en reason where x: "x = (orgID, en, reason)" by (cases x)
  obtain g s1 where g: "pamCheckoutGate env orgID e (pl_user c) ''reveal'' reason s = (g, s1)" by fastforce
  show thesis
    using that(2) [of orgID reason] that(3) [of orgID reason] Inr x g
    by (cases g; cases "revealSecret env (pe_SecretID en)") (simp_all add: handlePamRevealEntry_def)
qed

lemma pam_inv_run:
  assumes "pam_inv s"
  shows "pam_inv (pamRun op s)"
proof (cases op)
  case (OpReveal env c e body)
  from assms have "pam_inv (snd (pamCheckoutGate env orgID e (pl_user c) ''reveal'' reason s))" for orgID reason
    using pamCheckoutGate_auths namedLeases_gate by (simp add: pam_inv_def)
  with assms show ?thesis
    using reveal_cases [of env c e body s] namedLeases_record OpReveal
    by (simp add: pam_inv_def) (metis namedLeases_audit)
next
  case (OpBreakGlass env c e body)
  then show ?thesis using assms namedLeases_record
    by (auto simp: handlePamBreakGlass_def pam_inv_def split: option.split sum.split)
next
  case (OpDecide env c a d reason)
  then have "namedLeases (pamRun op s) = namedLeases s"
    by (auto simp: handlePamDecideCheckoutAuthorization_def Let_def split: option.split)
  then show ?thesis using assms OpDecide decide_inv by (simp add: pam_inv_def)
next
  case (OpCheckin env c e)
  then show ?thesis using assms
    by (auto simp: handlePamCheckin_def Let_def pam_inv_def intro: namedLeases_retire split: option.split)
next
  case (OpList env c)
  then show ?thesis using assms
    by (auto simp: handlePamListActiveCheckouts_def Let_def pam_inv_def intro: namedLeases_retire split: option.split)
qed (use assms in \<open>auto simp: pam_inv_def namedLeases_record pamCheckoutGate_auths namedLeases_gate\<close>)

interpretation pam: invariant_system pam_init pam_step pam_inv
proof unfold_locales
  show "pam_init s \<Longrightarrow> pam_inv s" for s by (simp add: pam_init_def pam_inv_def authsOK_def namedLeases_def)
  show "pam_inv s \<Longrightarrow> pam_step s t \<Longrightarrow> pam_inv t" for s t using pam_inv_run by (auto elim: pam_stepE)
qed

lemma reveal_value:
  assumes "handlePamRevealEntry env c entryID body s = (PamValue v bg, s')"
  obtains orgID e reason s1 reveal where "pl_org c = Some orgID" "findEntry orgID entryID s = Some e"
    "pe_AllowReveal e" "mayReveal env c orgID entryID s"
    "pamCheckoutGate env orgID entryID (pl_user c) ''reveal'' reason s = (None, s1)"
    "pv_vault env = Some reveal" "reveal (pe_SecretID e) = Inr v"
    "s' = pamRecordCheckout env orgID entryID (pl_user c) ''reveal'' reason False
       (logAuditEvent ''pam.entry_revealed'' entryID (pl_user c) s1)"
proof -
  obtain orgID e reason where checks: "revealChecks env c entryID body s = Inr (orgID, e, reason)"
    using assms by (auto simp: handlePamRevealEntry_def revealChecks_def split: sum.splits option.splits if_splits)
  then have ok: "pl_org c = Some orgID" "findEntry orgID entryID s = Some e" "pe_AllowReveal e" "mayReveal env c orgID entryID s"
    by (auto simp: revealChecks_def split: option.splits if_splits)
  obtain g s1 where g: "pamCheckoutGate env orgID entryID (pl_user c) ''reveal'' reason s = (g, s1)" by fastforce
  have refusal: "g = Some (PamValue v' bg') \<Longrightarrow> False" for v' bg'
    using g by (auto simp: pamCheckoutGate_def dualControl_def openAuth_def Let_def split: option.splits if_splits prod.splits)
  have "g = None" using assms checks g refusal by (cases g) (auto simp: handlePamRevealEntry_def)
  with g have gate: "pamCheckoutGate env orgID entryID (pl_user c) ''reveal'' reason s = (None, s1)" by simp
  obtain r where r: "revealSecret env (pe_SecretID e) = r" by blast
  from assms checks gate r have "r = Inr v" and s': "s' = pamRecordCheckout env orgID entryID (pl_user c) ''reveal'' reason False
       (logAuditEvent ''pam.entry_revealed'' entryID (pl_user c) s1)"
    by (auto simp: handlePamRevealEntry_def revealSecret_def split: sum.splits option.splits vault_error.splits)
  with r obtain reveal where "pv_vault env = Some reveal" "reveal (pe_SecretID e) = Inr v"
    by (auto simp: revealSecret_def split: sum.splits option.splits vault_error.splits)
  then show thesis using that ok gate s' by blast
qed

lemma gate_checkout_ids:
  "ck_ID ` set (ps_checkouts (snd (pamCheckoutGate env orgID e u act reason s))) = ck_ID ` set (ps_checkouts s)"
proof -
  have keep: "ps_checkouts (snd (dualControl env orgID e u act reason s0)) = ps_checkouts s0" for s0
    by (auto simp: dualControl_def openAuth_def consumeAuth_def Let_def split: option.splits)
  have "map ck_ID (ps_checkouts (snd (pamActiveHolder env orgID e u s))) = map ck_ID (ps_checkouts s)"
    by (simp add: pamActiveHolder_def Let_def map_updateWhere_key split: option.split)
  then have "ck_ID ` set (ps_checkouts (snd (pamActiveHolder env orgID e u s))) = ck_ID ` set (ps_checkouts s)"
    by (metis list.set_map)
  then show ?thesis
    by (cases "pamActiveHolder env orgID e u s") (auto simp: pamCheckoutGate_def Let_def keep split: option.split)
qed

section \<open>Properties\<close>


definition demoVaultEnv :: "int \<Rightarrow> pam_env" where
  "demoVaultEnv now = \<lparr>pv_now = now, pv_fails = (\<lambda>_. False), pv_fresh = (\<lambda>w. w @ dec (nat now)), pv_devBypass = False,
     pv_vault = Some (\<lambda>_. Inr ''hunter2'')\<rparr>"

definition demoCaller :: "string \<Rightarrow> pam_caller" where
  "demoCaller u = \<lparr>pl_org = Some ''o1'', pl_user = u, pl_roles = [''admin'']\<rparr>"

definition demoEntry :: pam_entry where
  "demoEntry = \<lparr>pe_ID = ''e1'', pe_OrgID = ''o1'', pe_Name = ''root'', pe_SecretID = ''v1'', pe_CredentialEntryID = '''',
     pe_AllowReveal = True, pe_DualControl = True, pe_Exclusive = True, pe_BreakGlass = False\<rparr>"

definition demoPam :: pam_state where
  "demoPam = \<lparr>ps_entries = [demoEntry], ps_grants = [], ps_auths = [], ps_checkouts = [], ps_audit = []\<rparr>"

definition demoApproved :: pam_state where
  "demoApproved = pamRun (OpDecide (demoVaultEnv 2) (demoCaller ''bob'') ''authorization1'' ''approve'' '''')
     (pamRun (OpReveal (demoVaultEnv 1) (demoCaller ''ann'') ''e1'' (Some ''deploy'')) demoPam)"

lemma demoApproved_reach: "reach pam_init pam_step demoApproved"
  unfolding demoApproved_def
  by (rule reach_step [where step = pam_step, OF _ pam_run], rule reach_step [where step = pam_step, OF _ pam_run],
      rule reach_init) (simp add: demoPam_def pam_init_def)


text \<open>
  C17: exclusive checkout and authorization. A revealed secret belongs to an entry of the caller's
  tenant that allows reveals, and the caller is an administrator or holds an unexpired grant. If the
  entry is exclusive, nobody else holds a live lease on it at that moment; and once the lease of this
  reveal has been stored, the caller is seen as holder for fifteen minutes.
\<close>

theorem pam_exclusive_checkout:
  assumes "reach pam_init pam_step s"
    and "handlePamRevealEntry env c entryID body s = (PamValue v bg, s')" and "pl_user c \<noteq> ''''"
  shows "\<exists>orgID e. pl_org c = Some orgID \<and> findEntry orgID entryID s = Some e \<and> pe_AllowReveal e
     \<and> mayReveal env c orgID entryID s
     \<and> (pe_Exclusive e \<longrightarrow> (\<forall>who. liveLease (pv_now env) orgID entryID who s \<longrightarrow> who = pl_user c))
     \<and> (\<not> pv_fails env ''recordCheckout'' \<and> pv_fresh env ''checkout'' \<notin> ck_ID ` set (ps_checkouts s)
          \<longrightarrow> (\<forall>t. t < pv_now env + 15 * minute \<longrightarrow> liveLease t orgID entryID (pl_user c) s'))"
proof -
  obtain orgID e reason s1 where org: "pl_org c = Some orgID" and e: "findEntry orgID entryID s = Some e"
    and ok: "pe_AllowReveal e" "mayReveal env c orgID entryID s"
    and gate: "pamCheckoutGate env orgID entryID (pl_user c) ''reveal'' reason s = (None, s1)"
    and s': "s' = pamRecordCheckout env orgID entryID (pl_user c) ''reveal'' reason False
       (logAuditEvent ''pam.entry_revealed'' entryID (pl_user c) s1)"
    by (rule reveal_value [OF assms(2)])
  have "namedLeases s" using pam.reach_inv [OF assms(1)] by (simp add: pam_inv_def)
  then have excl: "who = pl_user c" if "pe_Exclusive e" "liveLease (pv_now env) orgID entryID who s" for who
    by (rule_tac pamCheckoutGate_proceeds [OF gate]) (use that e assms(3) pamActiveHolder_free in auto)
  have ids: "ck_ID ` set (ps_checkouts s1) = ck_ID ` set (ps_checkouts s)"
    using gate_checkout_ids [of env orgID entryID "pl_user c" "''reveal''" reason s] gate by simp
  have "liveLease t orgID entryID (pl_user c) s'"
    if "\<not> pv_fails env ''recordCheckout''" "pv_fresh env ''checkout'' \<notin> ck_ID ` set (ps_checkouts s)" "t < pv_now env + 15 * minute" for t
    using that assms(3) ids
    by (auto simp: s' pamRecordCheckout_def logAuditEvent_def liveLease_def heldOn_def leaseExpired_def pamCheckoutLeaseTTL_def)
  then show ?thesis using org e ok excl by blast
qed

theorem pam_exclusive_checkout_witness:
  "\<exists>s'. handlePamRevealEntry (demoVaultEnv 3) (demoCaller ''ann'') ''e1'' (Some ''deploy'') demoApproved = (PamValue ''hunter2'' False, s')
     \<and> liveLease (4 * minute) ''o1'' ''e1'' ''ann'' s'"
proof -
  have reveal: "fst (handlePamRevealEntry (demoVaultEnv 3) (demoCaller ''ann'') ''e1'' (Some ''deploy'') demoApproved) = PamValue ''hunter2'' False"
    by code_simp
  then obtain s' where s': "handlePamRevealEntry (demoVaultEnv 3) (demoCaller ''ann'') ''e1'' (Some ''deploy'') demoApproved = (PamValue ''hunter2'' False, s')"
    by (metis prod.collapse)
  have "ps_checkouts demoApproved = []" by code_simp
  then show ?thesis using pam_exclusive_checkout [OF demoApproved_reach s'] s'
    by (auto simp: demoCaller_def demoVaultEnv_def minute_def second_def)
qed

lemma pamCheckoutGate_free:
  assumes "findEntry orgID entryID s = Some e" "pe_Exclusive e" "\<not> pe_DualControl e"
    and "\<forall>k\<in>set (ps_checkouts s). \<not> heldOn orgID entryID k"
    and "\<not> pv_fails env ''loadFlags''" "\<not> pv_fails env ''sweepLeases''" "\<not> pv_fails env ''activeHolder''"
  shows "pamCheckoutGate env orgID entryID u act reason s = (None, s)"
proof -
  have "updateWhere (\<lambda>k. heldOn orgID entryID k \<and> leaseExpired (pv_now env) k) (retire (pv_now env) ''expired'') (ps_checkouts s)
      = ps_checkouts s"
    by (rule updateWhere_none) (use assms(4) in blast)
  moreover have "filter (\<lambda>k. heldOn orgID entryID k \<and> u \<noteq> '''' \<and> ck_PrincipalID k \<noteq> u) (ps_checkouts s) = []"
    using assms(4) by (simp add: filter_empty_conv)
  ultimately have "pamActiveHolder env orgID entryID u s = (Some '''', s)"
    using assms(6,7) by (simp add: pamActiveHolder_def Let_def)
  then show ?thesis using assms by (simp add: pamCheckoutGate_def pamLoadCheckoutFlags_def)
qed

text \<open>
  Exclusivity is lost in a race. The gate looks for a holder and the lease is recorded only after
  the secret was read. Two different callers whose gates both run before either lease is stored both
  proceed, and afterwards both hold a live lease on the exclusive entry.
\<close>

theorem pam_exclusive_race:
  fixes reason :: string
  assumes "findEntry orgID entryID s = Some e" "pe_Exclusive e" "\<not> pe_DualControl e"
    and "\<forall>k\<in>set (ps_checkouts s). \<not> heldOn orgID entryID k"
    and "pv_fails env1 = (\<lambda>_. False)" "pv_fails env2 = (\<lambda>_. False)"
    and "pv_fresh env1 ''checkout'' \<notin> ck_ID ` set (ps_checkouts s)" "pv_fresh env2 ''checkout'' \<notin> ck_ID ` set (ps_checkouts s)"
    and "pv_fresh env1 ''checkout'' \<noteq> pv_fresh env2 ''checkout''" and "u1 \<noteq> ''''" "u2 \<noteq> ''''" "u1 \<noteq> u2"
    and "t < pv_now env1 + 15 * minute" "t < pv_now env2 + 15 * minute"
  defines "s1 \<equiv> pamRun (OpGate env1 orgID entryID u1 ''reveal'' reason) s"
  defines "s2 \<equiv> pamRun (OpGate env2 orgID entryID u2 ''reveal'' reason) s1"
  defines "s3 \<equiv> pamRun (OpRecord env1 orgID entryID u1 ''reveal'' reason False) s2"
  defines "s4 \<equiv> pamRun (OpRecord env2 orgID entryID u2 ''reveal'' reason False) s3"
  shows "fst (pamCheckoutGate env1 orgID entryID u1 ''reveal'' reason s) = None
     \<and> fst (pamCheckoutGate env2 orgID entryID u2 ''reveal'' reason s1) = None
     \<and> liveLease t orgID entryID u1 s4 \<and> liveLease t orgID entryID u2 s4"
proof -
  have g: "pamCheckoutGate env orgID entryID u ''reveal'' reason s = (None, s)" if "pv_fails env = (\<lambda>_. False)" for env u
    by (rule pamCheckoutGate_free [OF assms(1-4)]) (simp_all add: that)
  have "s1 = s" "s2 = s" using g [OF assms(5)] g [OF assms(6)] by (simp_all add: s1_def s2_def)
  then show ?thesis
    using g [OF assms(5)] g [OF assms(6)] assms(5-14)
    by (simp add: s3_def s4_def pamRecordCheckout_def Let_def liveLease_def heldOn_def leaseExpired_def pamCheckoutLeaseTTL_def)
qed

theorem pam_exclusive_race_witness:
  "let e = demoEntry\<lparr>pe_DualControl := False\<rparr>; s = demoPam\<lparr>ps_entries := [e]\<rparr>;
       s2 = pamRun (OpGate (demoVaultEnv 2) ''o1'' ''e1'' ''bob'' ''reveal'' ''x'')
              (pamRun (OpGate (demoVaultEnv 1) ''o1'' ''e1'' ''ann'' ''reveal'' ''x'') s);
       s4 = pamRun (OpRecord (demoVaultEnv 2) ''o1'' ''e1'' ''bob'' ''reveal'' ''x'' False)
              (pamRun (OpRecord (demoVaultEnv 1) ''o1'' ''e1'' ''ann'' ''reveal'' ''x'' False) s2)
   in liveLease 3 ''o1'' ''e1'' ''ann'' s4 \<and> liveLease 3 ''o1'' ''e1'' ''bob'' s4"
proof -
  have ids: "pv_fresh (demoVaultEnv 1) ''checkout'' \<noteq> pv_fresh (demoVaultEnv 2) ''checkout''" by code_simp
  show ?thesis
    unfolding Let_def
    using pam_exclusive_race [of "''o1''" "''e1''" "demoPam\<lparr>ps_entries := [demoEntry\<lparr>pe_DualControl := False\<rparr>]\<rparr>"
        "demoEntry\<lparr>pe_DualControl := False\<rparr>" "demoVaultEnv 1" "demoVaultEnv 2" "''ann''" "''bob''" 3 "''x''"] ids
    by (simp add: findEntry_def demoPam_def demoEntry_def demoVaultEnv_def minute_def second_def)
qed

end
