(* ===== verification/Access_Request.thy ===== *)
theory Access_Request
  imports Go_Prelude "HOL-Library.Multiset"
begin

text \<open>
  The access-request workflow, \<^verbatim>\<open>internal/governance/request.go\<close>: submission with an approval chain,
  approval, denial, cancellation, escalation, and the queries on them.

  Tables are row lists; an insert that repeats a key fails, and so does one that stores an empty text
  in a UUID column. \<open>gv_fails\<close> says which statements fail, \<open>gv_fresh\<close> gives the keys drawn. The
  statements of an operation are separate transactions in the source, so approval is also given in
  the parts its statements make (\<open>approveFind\<close>, \<open>approveMark\<close>, \<open>approveFinish\<close>). Notification hooks are
  recorded as events. The step condition map is never read by this code and is left out.
\<close>

section \<open>Data\<close>

record ApprovalStep =
  st_Order :: int
  st_Type :: string
  st_ApproverID :: string
  st_RoleID :: string
  st_GroupID :: string
  st_MinApprovals :: int
  st_TimeoutMinutes :: int
  st_StepOrder :: int
  st_ApproverType :: string
  st_ApproverName :: string
  st_Required :: bool

record ApprovalChainConfig =
  ch_Steps :: "ApprovalStep list"
  ch_EscalateAfterHours :: int
  ch_EscalateTo :: "string list"

record AccessRequest =
  ag_ID :: string
  ag_RequesterID :: string
  ag_ResourceType :: string
  ag_ResourceID :: string
  ag_ResourceName :: string
  ag_Justification :: string
  ag_Status :: string
  ag_Priority :: string
  ag_ExpiresAt :: "int option"
  ag_CreatedAt :: int
  ag_UpdatedAt :: int
  ag_OrgID :: string

text \<open>The comments column is NULL until the approval is decided.\<close>

record Approval =
  ap_ID :: string
  ap_RequestID :: string
  ap_ApproverID :: string
  ap_StepOrder :: nat
  ap_Decision :: string
  ap_Comments :: "string option"
  ap_DecidedAt :: "int option"
  ap_CreatedAt :: int
  ap_OrgID :: string

record approval_chain =
  ac_RequestID :: string
  ac_Steps :: "ApprovalStep list"
  ac_EscalateAfterHours :: int
  ac_EscalateTo :: "string list"
  ac_EscalationDueAt :: int
  ac_CurrentStep :: int
  ac_EscalationNotified :: bool
  ac_OrgID :: string

record AccessRequestDetail =
  rd_Request :: AccessRequest
  rd_ApprovalChain :: "ApprovalStep list"
  rd_CurrentStep :: int
  rd_EscalationDueAt :: "int option"
  rd_EscalationNotified :: bool
  rd_Approvals :: "Approval list"

datatype RequestEventType =
    EventRequestSubmitted | EventRequestApproved | EventRequestDenied
  | EventRequestEscalated | EventRequestExpired | EventRequestCancelled

record gov_state =
  gs_requests :: "AccessRequest list"
  gs_chains :: "approval_chain list"
  gs_approvals :: "Approval list"
  gs_managers :: "((string \<times> string) \<times> string option) list"
  gs_events :: "(RequestEventType \<times> string) list"

record gov_env =
  gv_now :: int
  gv_fails :: "string \<Rightarrow> bool"
  gv_fresh :: "string \<Rightarrow> string"

datatype gov_error =
    RequesterRequired | RoleRequired | JustificationRequired | EmptyChain | NoOrgContext
  | CreateFailed | ChainFailed | RequestNotFound | NotPending string | NoPendingApproval
  | ApprovalUpdateFailed | CountFailed | StatusUpdateFailed | CancelFailed | CancelRefused
  | ManagerUnresolved | NoManager | QueryFailed

section \<open>Queries\<close>

definition inOrg :: "string option \<Rightarrow> string \<Rightarrow> bool" where
  "inOrg org orgID \<longleftrightarrow> (case org of None \<Rightarrow> True | Some o' \<Rightarrow> orgID = o')"

text \<open>The detail joins the chain; without a chain row the scan of its columns fails. A row of the
  approvals whose comments are NULL does not scan into the Go string and is skipped.\<close>

definition getRequestDetail ::
    "gov_env \<Rightarrow> string option \<Rightarrow> string \<Rightarrow> gov_state \<Rightarrow> gov_error + AccessRequestDetail" where
  "getRequestDetail env org requestID s =
     (if gv_fails env ''getRequest'' then Inl RequestNotFound
      else (case (find (\<lambda>r. ag_ID r = requestID \<and> inOrg org (ag_OrgID r)) (gs_requests s),
                  find (\<lambda>ac. ac_RequestID ac = requestID) (gs_chains s)) of
              (Some r, Some ac) \<Rightarrow>
                Inr \<lparr>rd_Request = r, rd_ApprovalChain = ac_Steps ac, rd_CurrentStep = ac_CurrentStep ac,
                     rd_EscalationDueAt = Some (ac_EscalationDueAt ac),
                     rd_EscalationNotified = ac_EscalationNotified ac,
                     rd_Approvals =
                       (if gv_fails env ''getApprovals'' then []
                        else sort_key ap_StepOrder (filter (\<lambda>a. ap_RequestID a = requestID
                               \<and> inOrg org (ap_OrgID a) \<and> ap_Comments a \<noteq> None) (gs_approvals s)))\<rparr>
            | _ \<Rightarrow> Inl RequestNotFound))"

definition resolveManager :: "gov_env \<Rightarrow> string option \<Rightarrow> string \<Rightarrow> gov_state \<Rightarrow> gov_error + string" where
  "resolveManager env org userID s =
     (case org of
        None \<Rightarrow> Inl NoOrgContext
      | Some o' \<Rightarrow>
          (if gv_fails env ''resolveManager'' then Inl ManagerUnresolved
           else (case map_of (gs_managers s) (userID, o') of
                   None \<Rightarrow> Inl ManagerUnresolved
                 | Some None \<Rightarrow> Inl ManagerUnresolved
                 | Some (Some m) \<Rightarrow> if m = '''' then Inl NoManager else Inr m)))"

definition notifyHooks :: "RequestEventType \<Rightarrow> string \<Rightarrow> gov_state \<Rightarrow> gov_state" where
  "notifyHooks event requestID s = s\<lparr>gs_events := gs_events s @ [(event, requestID)]\<rparr>"

section \<open>Submission\<close>

definition insertApproval ::
    "gov_env \<Rightarrow> string \<Rightarrow> string \<Rightarrow> string \<Rightarrow> string \<Rightarrow> nat \<Rightarrow> gov_state \<Rightarrow> gov_state" where
  "insertApproval env key orgID requestID approverID stepOrder s =
     (if gv_fails env key \<or> approverID = '''' \<or> gv_fresh env key \<in> ap_ID ` set (gs_approvals s) then s
      else s\<lparr>gs_approvals := gs_approvals s @
             [\<lparr>ap_ID = gv_fresh env key, ap_RequestID = requestID, ap_ApproverID = approverID,
               ap_StepOrder = stepOrder, ap_Decision = ''pending'', ap_Comments = None, ap_DecidedAt = None,
               ap_CreatedAt = gv_now env, ap_OrgID = orgID\<rparr>]\<rparr>)"

definition stepKey :: "nat \<Rightarrow> string" where
  "stepKey i = ''approval'' @ dec i"

text \<open>The loop over the steps; \<open>i\<close> is the index of the next one. A step whose manager cannot be
  resolved is skipped, and a failed insert is only logged.\<close>

fun createApprovals ::
    "gov_env \<Rightarrow> string \<Rightarrow> string \<Rightarrow> string \<Rightarrow> nat \<Rightarrow> ApprovalStep list \<Rightarrow> gov_state \<Rightarrow> gov_state" where
  "createApprovals env orgID requestID requesterID i [] s = s"
| "createApprovals env orgID requestID requesterID i (step # steps) s =
     (let s1 = (if st_ApproverID step = '''' \<and> st_ApproverType step = ''manager'' then
                  (case resolveManager env (Some orgID) requesterID s of
                     Inl _ \<Rightarrow> s
                   | Inr m \<Rightarrow> insertApproval env (stepKey i) orgID requestID m (i + 1) s)
                else insertApproval env (stepKey i) orgID requestID (st_ApproverID step) (i + 1) s)
      in createApprovals env orgID requestID requesterID (i + 1) steps s1)"

definition escalationHours :: "ApprovalChainConfig \<Rightarrow> int" where
  "escalationHours chain = (if ch_EscalateAfterHours chain = 0 then 24 else ch_EscalateAfterHours chain)"

definition newRequest :: "gov_env \<Rightarrow> string \<Rightarrow> string \<Rightarrow> string \<Rightarrow> string \<Rightarrow> AccessRequest" where
  "newRequest env orgID requesterID requestedRole justification =
     \<lparr>ag_ID = gv_fresh env ''request'', ag_RequesterID = requesterID, ag_ResourceType = ''role'',
      ag_ResourceID = requestedRole, ag_ResourceName = requestedRole, ag_Justification = justification,
      ag_Status = ''pending'', ag_Priority = ''normal'', ag_ExpiresAt = None,
      ag_CreatedAt = gv_now env, ag_UpdatedAt = gv_now env, ag_OrgID = orgID\<rparr>"

definition newChain :: "gov_env \<Rightarrow> string \<Rightarrow> ApprovalChainConfig \<Rightarrow> approval_chain" where
  "newChain env orgID chain =
     \<lparr>ac_RequestID = gv_fresh env ''request'', ac_Steps = ch_Steps chain,
      ac_EscalateAfterHours = escalationHours chain, ac_EscalateTo = ch_EscalateTo chain,
      ac_EscalationDueAt = gv_now env + escalationHours chain * hour, ac_CurrentStep = 0,
      ac_EscalationNotified = False, ac_OrgID = orgID\<rparr>"

definition SubmitRequest ::
    "gov_env \<Rightarrow> string option \<Rightarrow> string \<Rightarrow> string \<Rightarrow> string \<Rightarrow> ApprovalChainConfig \<Rightarrow> gov_state
       \<Rightarrow> (gov_error + AccessRequestDetail) \<times> gov_state" where
  "SubmitRequest env org requesterID requestedRole justification chain s =
     (if requesterID = '''' then (Inl RequesterRequired, s)
      else if requestedRole = '''' then (Inl RoleRequired, s)
      else if justification = '''' then (Inl JustificationRequired, s)
      else if ch_Steps chain = [] then (Inl EmptyChain, s)
      else (case org of
              None \<Rightarrow> (Inl NoOrgContext, s)
            | Some orgID \<Rightarrow>
                (let r = newRequest env orgID requesterID requestedRole justification;
                     ac = newChain env orgID chain
                 in if gv_fails env ''insertRequest'' \<or> ag_ID r \<in> ag_ID ` set (gs_requests s) then (Inl CreateFailed, s)
                    else if gv_fails env ''insertChain'' \<or> ag_ID r \<in> ac_RequestID ` set (gs_chains s) then
                      (Inl ChainFailed,
                       if gv_fails env ''deleteRequest'' then s\<lparr>gs_requests := gs_requests s @ [r]\<rparr> else s)
                    else (let s1 = s\<lparr>gs_requests := gs_requests s @ [r], gs_chains := gs_chains s @ [ac]\<rparr>;
                              s2 = createApprovals env orgID (ag_ID r) requesterID 0 (ch_Steps chain) s1
                          in (Inr \<lparr>rd_Request = r, rd_ApprovalChain = ch_Steps chain, rd_CurrentStep = 0,
                                  rd_EscalationDueAt = Some (ac_EscalationDueAt ac),
                                  rd_EscalationNotified = False, rd_Approvals = []\<rparr>,
                              notifyHooks EventRequestSubmitted (ag_ID r) s2)))))"

section \<open>Decisions\<close>

definition pendingFor :: "string \<Rightarrow> string \<Rightarrow> string \<Rightarrow> Approval \<Rightarrow> bool" where
  "pendingFor orgID requestID approverID a \<longleftrightarrow>
     ap_RequestID a = requestID \<and> ap_ApproverID a = approverID \<and> ap_Decision a = ''pending'' \<and> ap_OrgID a = orgID"

fun lowestStep :: "Approval list \<Rightarrow> Approval option" where
  "lowestStep [] = None"
| "lowestStep (a # as) =
     (case lowestStep as of
        None \<Rightarrow> Some a
      | Some a' \<Rightarrow> if ap_StepOrder a \<le> ap_StepOrder a' then Some a else Some a')"

definition pendingDetail ::
    "gov_env \<Rightarrow> string \<Rightarrow> string \<Rightarrow> gov_state \<Rightarrow> gov_error + AccessRequestDetail" where
  "pendingDetail env orgID requestID s =
     (case getRequestDetail env (Some orgID) requestID s of
        Inl e \<Rightarrow> Inl e
      | Inr d \<Rightarrow>
          (if ag_Status (rd_Request d) \<noteq> ''pending'' then Inl (NotPending (ag_Status (rd_Request d))) else Inr d))"

definition approveFind ::
    "gov_env \<Rightarrow> string \<Rightarrow> string \<Rightarrow> string \<Rightarrow> gov_state \<Rightarrow> gov_error + Approval" where
  "approveFind env orgID requestID approverID s =
     (case pendingDetail env orgID requestID s of
        Inl e \<Rightarrow> Inl e
      | Inr _ \<Rightarrow>
          (if gv_fails env ''findApproval'' then Inl NoPendingApproval
           else (case lowestStep (filter (pendingFor orgID requestID approverID) (gs_approvals s)) of
                   None \<Rightarrow> Inl NoPendingApproval
                 | Some a \<Rightarrow> Inr a)))"

definition decideApproval ::
    "gov_env \<Rightarrow> string \<Rightarrow> string \<Rightarrow> string \<Rightarrow> string \<Rightarrow> gov_state \<Rightarrow> gov_state" where
  "decideApproval env orgID approvalID decision comments s =
     s\<lparr>gs_approvals := updateWhere (\<lambda>a. ap_ID a = approvalID \<and> ap_OrgID a = orgID)
         (\<lambda>a. a\<lparr>ap_Decision := decision, ap_Comments := Some comments, ap_DecidedAt := Some (gv_now env)\<rparr>)
         (gs_approvals s)\<rparr>"

definition setStatus :: "gov_env \<Rightarrow> string \<Rightarrow> string \<Rightarrow> string \<Rightarrow> gov_state \<Rightarrow> gov_state" where
  "setStatus env orgID requestID status s =
     s\<lparr>gs_requests := updateWhere (\<lambda>r. ag_ID r = requestID \<and> ag_OrgID r = orgID)
         (\<lambda>r. r\<lparr>ag_Status := status, ag_UpdatedAt := gv_now env\<rparr>) (gs_requests s)\<rparr>"

definition approveMark ::
    "gov_env \<Rightarrow> string \<Rightarrow> string \<Rightarrow> string \<Rightarrow> gov_state \<Rightarrow> gov_error option \<times> gov_state" where
  "approveMark env orgID approvalID comments s =
     (if gv_fails env ''updateApproval'' then (Some ApprovalUpdateFailed, s)
      else (None, decideApproval env orgID approvalID ''approved'' comments s))"

definition approveFinish :: "gov_env \<Rightarrow> string \<Rightarrow> string \<Rightarrow> gov_state \<Rightarrow> gov_error option \<times> gov_state" where
  "approveFinish env orgID requestID s =
     (if gv_fails env ''countPending'' then (Some CountFailed, s)
      else if countWhere (\<lambda>a. ap_RequestID a = requestID \<and> ap_Decision a = ''pending'' \<and> ap_OrgID a = orgID)
                (gs_approvals s) = 0 then
        (if gv_fails env ''updateStatus'' then (Some StatusUpdateFailed, s)
         else (None, notifyHooks EventRequestApproved requestID (setStatus env orgID requestID ''approved'' s)))
      else (None, s))"

definition ApproveRequest ::
    "gov_env \<Rightarrow> string option \<Rightarrow> string \<Rightarrow> string \<Rightarrow> string \<Rightarrow> gov_state
       \<Rightarrow> (gov_error + AccessRequestDetail) \<times> gov_state" where
  "ApproveRequest env org requestID approverID comments s =
     (case org of
        None \<Rightarrow> (Inl NoOrgContext, s)
      | Some orgID \<Rightarrow>
          (case approveFind env orgID requestID approverID s of
             Inl e \<Rightarrow> (Inl e, s)
           | Inr a \<Rightarrow>
               (case approveMark env orgID (ap_ID a) comments s of
                  (Some e, s1) \<Rightarrow> (Inl e, s1)
                | (None, s1) \<Rightarrow>
                    (case approveFinish env orgID requestID s1 of
                       (Some e, s2) \<Rightarrow> (Inl e, s2)
                     | (None, s2) \<Rightarrow> (getRequestDetail env org requestID s2, s2)))))"

definition DenyRequest ::
    "gov_env \<Rightarrow> string option \<Rightarrow> string \<Rightarrow> string \<Rightarrow> string \<Rightarrow> gov_state
       \<Rightarrow> (gov_error + AccessRequestDetail) \<times> gov_state" where
  "DenyRequest env org requestID approverID comments s =
     (case org of
        None \<Rightarrow> (Inl NoOrgContext, s)
      | Some orgID \<Rightarrow>
          (case pendingDetail env orgID requestID s of
             Inl e \<Rightarrow> (Inl e, s)
           | Inr d \<Rightarrow>
               (if gv_fails env ''findApproval'' then (Inl NoPendingApproval, s)
                else (case find (pendingFor orgID requestID approverID) (gs_approvals s) of
                        None \<Rightarrow> (Inl NoPendingApproval, s)
                      | Some a \<Rightarrow>
                          (if gv_fails env ''updateApproval'' then (Inl ApprovalUpdateFailed, s)
                           else (let s1 = decideApproval env orgID (ap_ID a) ''denied'' comments s
                                 in if gv_fails env ''updateStatus'' then (Inl StatusUpdateFailed, s1)
                                    else (Inr (d\<lparr>rd_Request := (rd_Request d)\<lparr>ag_Status := ''denied'',
                                                 ag_UpdatedAt := gv_now env\<rparr>\<rparr>),
                                          notifyHooks EventRequestDenied requestID
                                            (setStatus env orgID requestID ''denied'' s1))))))))"

definition CancelRequest ::
    "gov_env \<Rightarrow> string option \<Rightarrow> string \<Rightarrow> string \<Rightarrow> gov_state \<Rightarrow> gov_error option \<times> gov_state" where
  "CancelRequest env org requestID requesterID s =
     (case org of
        None \<Rightarrow> (Some NoOrgContext, s)
      | Some orgID \<Rightarrow>
          (let P = (\<lambda>r. ag_ID r = requestID \<and> ag_RequesterID r = requesterID \<and> ag_Status r = ''pending''
                        \<and> ag_OrgID r = orgID);
               s1 = s\<lparr>gs_requests := updateWhere P (\<lambda>r. r\<lparr>ag_Status := ''cancelled'', ag_UpdatedAt := gv_now env\<rparr>)
                        (gs_requests s)\<rparr>
           in if gv_fails env ''cancel'' then (Some CancelFailed, s)
              else if countWhere P (gs_requests s) = 0 then (Some CancelRefused, s1)
              else (None, case getRequestDetail env org requestID s1 of
                            Inl _ \<Rightarrow> s1
                          | Inr _ \<Rightarrow> notifyHooks EventRequestCancelled requestID s1)))"

section \<open>Escalation and lists\<close>

definition escalateKey :: "string \<Rightarrow> string \<Rightarrow> string" where
  "escalateKey requestID approverID = ''escalate:'' @ requestID @ '':'' @ approverID"

definition escalateTo :: "gov_env \<Rightarrow> AccessRequest \<Rightarrow> string \<Rightarrow> gov_state \<Rightarrow> gov_state" where
  "escalateTo env r escalatorID s =
     (let known = (\<not> gv_fails env ''approverExists'' \<and> list_ex (\<lambda>a. ap_RequestID a = ag_ID r
                      \<and> ap_ApproverID a = escalatorID \<and> ap_OrgID a = ag_OrgID r) (gs_approvals s))
      in if escalatorID = '''' \<or> known then s
         else insertApproval env (escalateKey (ag_ID r) escalatorID) (ag_OrgID r) (ag_ID r) escalatorID 999 s)"

definition escalateOne :: "gov_env \<Rightarrow> AccessRequest \<times> approval_chain \<Rightarrow> gov_state \<Rightarrow> gov_state" where
  "escalateOne env p s =
     (let (r, ac) = p;
          s1 = (if gv_fails env ''markEscalated'' then s
                else s\<lparr>gs_chains := updateWhere (\<lambda>x. ac_RequestID x = ag_ID r)
                         (\<lambda>x. x\<lparr>ac_EscalationNotified := True\<rparr>) (gs_chains s)\<rparr>);
          s2 = fold (escalateTo env r) (ac_EscalateTo ac) s1
      in case getRequestDetail env None (ag_ID r) s2 of
           Inl _ \<Rightarrow> s2
         | Inr _ \<Rightarrow> notifyHooks EventRequestEscalated (ag_ID r) s2)"

definition dueEscalations :: "gov_env \<Rightarrow> gov_state \<Rightarrow> (AccessRequest \<times> approval_chain) list" where
  "dueEscalations env s =
     filter (\<lambda>(r, ac). ac_RequestID ac = ag_ID r \<and> ag_Status r = ''pending''
                \<and> ac_EscalationDueAt ac \<le> gv_now env \<and> \<not> ac_EscalationNotified ac)
       (List.product (gs_requests s) (gs_chains s))"

definition checkEscalations :: "gov_env \<Rightarrow> gov_state \<Rightarrow> gov_state" where
  "checkEscalations env s =
     (if gv_fails env ''queryEscalations'' then s else fold (escalateOne env) (dueEscalations env s) s)"

definition GetPendingApprovalsForUser ::
    "gov_env \<Rightarrow> string option \<Rightarrow> string \<Rightarrow> gov_state \<Rightarrow> gov_error + AccessRequestDetail list" where
  "GetPendingApprovalsForUser env org userID s =
     (case org of
        None \<Rightarrow> Inl NoOrgContext
      | Some orgID \<Rightarrow>
          (if gv_fails env ''pendingApprovals'' then Inl QueryFailed
           else Inr (map (\<lambda>((_, r), ac). \<lparr>rd_Request = r\<lparr>ag_ExpiresAt := None\<rparr>, rd_ApprovalChain = ac_Steps ac,
                             rd_CurrentStep = ac_CurrentStep ac, rd_EscalationDueAt = None,
                             rd_EscalationNotified = False, rd_Approvals = []\<rparr>)
                  (sort_key (\<lambda>((_, r), _). ag_CreatedAt r)
                     (filter (\<lambda>((a, r), ac). ag_ID r = ap_RequestID a \<and> ag_OrgID r = ap_OrgID a
                          \<and> ac_RequestID ac = ag_ID r \<and> ap_ApproverID a = userID \<and> ap_Decision a = ''pending''
                          \<and> ag_Status r = ''pending'' \<and> ap_OrgID a = orgID)
                        (List.product (List.product (gs_approvals s) (gs_requests s)) (gs_chains s)))))))"

section \<open>Refinement of the abstract workflow\<close>

text \<open>What the workflow promises of one request: it is open, waiting for a multiset of approvers, or
  closed with a final status. An approver in the multiset may approve, which removes one occurrence
  and closes the request when it was the last; or deny, which closes the request; the requester may
  cancel. Everything else leaves it as it is.\<close>

datatype request_view = Absent | Open string "string multiset" | Closed string

fun specApprove :: "string \<Rightarrow> request_view \<Rightarrow> request_view" where
  "specApprove a (Open q M) =
     (if a \<in># M then if M = {#a#} then Closed ''approved'' else Open q (M - {#a#}) else Open q M)"
| "specApprove a v = v"

fun specDeny :: "string \<Rightarrow> request_view \<Rightarrow> request_view" where
  "specDeny a (Open q M) = (if a \<in># M then Closed ''denied'' else Open q M)"
| "specDeny a v = v"

fun specCancel :: "string \<Rightarrow> request_view \<Rightarrow> request_view" where
  "specCancel u (Open q M) = (if u = q then Closed ''cancelled'' else Open q M)"
| "specCancel u v = v"

definition waitingOn :: "string \<Rightarrow> string \<Rightarrow> Approval \<Rightarrow> bool" where
  "waitingOn orgID requestID a \<longleftrightarrow>
     ap_RequestID a = requestID \<and> ap_Decision a = ''pending'' \<and> ap_OrgID a = orgID"

definition requestIn :: "string \<Rightarrow> string \<Rightarrow> AccessRequest \<Rightarrow> bool" where
  "requestIn orgID requestID r \<longleftrightarrow> ag_ID r = requestID \<and> ag_OrgID r = orgID"

definition waiting :: "string \<Rightarrow> string \<Rightarrow> gov_state \<Rightarrow> string multiset" where
  "waiting orgID requestID s = image_mset ap_ApproverID (mset (filter (waitingOn orgID requestID) (gs_approvals s)))"

definition viewRow :: "string multiset \<Rightarrow> AccessRequest \<Rightarrow> request_view" where
  "viewRow M r = (if ag_Status r = ''pending'' then Open (ag_RequesterID r) M else Closed (ag_Status r))"

definition viewRequest :: "string \<Rightarrow> string \<Rightarrow> gov_state \<Rightarrow> request_view" where
  "viewRequest orgID requestID s =
     (case find (requestIn orgID requestID) (gs_requests s) of
        None \<Rightarrow> Absent
      | Some r \<Rightarrow> viewRow (waiting orgID requestID s) r)"

text \<open>Approval identifiers are unique and every request has its chain row: the primary key, and what
  the clean-up of \<open>SubmitRequest\<close> maintains.\<close>

definition gov_wf :: "gov_state \<Rightarrow> bool" where
  "gov_wf s \<longleftrightarrow> distinct (map ap_ID (gs_approvals s))
     \<and> ag_ID ` set (gs_requests s) \<subseteq> ac_RequestID ` set (gs_chains s)"

definition faultFree :: "gov_env \<Rightarrow> bool" where
  "faultFree env \<longleftrightarrow> gv_fails env = (\<lambda>_. False)"

lemma getRequestDetail_view:
  assumes "gov_wf s" and "faultFree env"
  shows "case getRequestDetail env (Some orgID) requestID s of
           Inl e \<Rightarrow> viewRequest orgID requestID s = Absent
         | Inr d \<Rightarrow> find (requestIn orgID requestID) (gs_requests s) = Some (rd_Request d)"
proof (cases "find (requestIn orgID requestID) (gs_requests s)")
  case None
  then show ?thesis
    by (simp add: getRequestDetail_def inOrg_def viewRequest_def requestIn_def [abs_def] split: sum.split)
next
  case (Some r)
  then have "ag_ID r = requestID" "r \<in> set (gs_requests s)"
    by (auto dest: find_Some_mem simp: requestIn_def)
  with assms obtain ac where "find (\<lambda>ac. ac_RequestID ac = requestID) (gs_chains s) = Some ac"
    using find_present [where P = "\<lambda>ac. ac_RequestID ac = requestID"] by (force simp: gov_wf_def)
  with Some assms(2) show ?thesis
    by (simp add: getRequestDetail_def inOrg_def faultFree_def requestIn_def [abs_def])
qed

lemma pendingDetail_view:
  assumes "gov_wf s" and "faultFree env"
  shows "case pendingDetail env orgID requestID s of
           Inl e \<Rightarrow> (\<forall>q M. viewRequest orgID requestID s \<noteq> Open q M)
         | Inr d \<Rightarrow> find (requestIn orgID requestID) (gs_requests s) = Some (rd_Request d)
             \<and> ag_Status (rd_Request d) = ''pending''"
  using getRequestDetail_view [OF assms, of orgID requestID]
  by (auto simp: pendingDetail_def viewRequest_def viewRow_def split: sum.splits)

text \<open>The pieces of a decision, seen through the view.\<close>

lemma decideApproval_tables [simp]:
  "gs_approvals (decideApproval env orgID i decision comments s) =
     updateWhere (\<lambda>a. ap_ID a = i \<and> ap_OrgID a = orgID)
       (\<lambda>a. a\<lparr>ap_Decision := decision, ap_Comments := Some comments, ap_DecidedAt := Some (gv_now env)\<rparr>)
       (gs_approvals s)"
  "gs_requests (decideApproval env orgID i decision comments s) = gs_requests s"
  "gs_chains (decideApproval env orgID i decision comments s) = gs_chains s"
  by (simp_all add: decideApproval_def)

lemma setStatus_tables [simp]:
  "gs_requests (setStatus env orgID requestID status s) =
     updateWhere (requestIn orgID requestID) (\<lambda>r. r\<lparr>ag_Status := status, ag_UpdatedAt := gv_now env\<rparr>) (gs_requests s)"
  "gs_approvals (setStatus env orgID requestID status s) = gs_approvals s"
  "gs_chains (setStatus env orgID requestID status s) = gs_chains s"
  by (simp_all add: setStatus_def requestIn_def [abs_def])

lemma waiting_decide:
  assumes "distinct (map ap_ID (gs_approvals s))" and "a \<in> set (gs_approvals s)"
    and "waitingOn orgID requestID a" and "decision \<noteq> ''pending''"
  shows "waiting orgID requestID' (decideApproval env orgID (ap_ID a) decision comments s) =
           (if requestID' = requestID then waiting orgID requestID s - {#ap_ApproverID a#}
            else waiting orgID requestID' s)"
proof (cases "requestID' = requestID")
  case True
  have org: "ap_OrgID r = orgID" if "r \<in> set (gs_approvals s)" "ap_ID r = ap_ID a" for r
    using distinct_key_eq [OF assms(1) that(1) assms(2) that(2)] assms(3) by (simp add: waitingOn_def)
  have "filter (waitingOn orgID requestID) (gs_approvals (decideApproval env orgID (ap_ID a) decision comments s))
          = remove1 a (filter (waitingOn orgID requestID) (gs_approvals s))"
    using assms org unfolding decideApproval_tables
    by (intro filter_updateWhere_leaves [where key = ap_ID]) (auto simp: waitingOn_def)
  with True assms(2,3) show ?thesis by (simp add: waiting_def image_mset_Diff)
next
  case False
  have same: "r = a" if "r \<in> set (gs_approvals s)" "ap_ID r = ap_ID a" for r
    using distinct_key_eq [OF assms(1) that(1) assms(2) that(2)] .
  have "filter (waitingOn orgID requestID') (gs_approvals (decideApproval env orgID (ap_ID a) decision comments s))
          = filter (waitingOn orgID requestID') (gs_approvals s)"
    using assms False same unfolding decideApproval_tables
    by (intro filter_updateWhere_same) (auto simp: waitingOn_def)
  with False show ?thesis by (simp add: waiting_def)
qed

lemma find_setStatus:
  "find (requestIn orgID requestID') (gs_requests (setStatus env orgID requestID status s)) =
     map_option (\<lambda>r. if requestID' = requestID then r\<lparr>ag_Status := status, ag_UpdatedAt := gv_now env\<rparr> else r)
       (find (requestIn orgID requestID') (gs_requests s))"
proof -
  have "find (requestIn orgID requestID') (gs_requests (setStatus env orgID requestID status s)) =
    map_option (\<lambda>r. if requestIn orgID requestID r then r\<lparr>ag_Status := status, ag_UpdatedAt := gv_now env\<rparr> else r)
       (find (requestIn orgID requestID') (gs_requests s))"
    unfolding setStatus_tables by (rule find_updateWhere) (simp add: requestIn_def)
  also have "\<dots> = map_option (\<lambda>r. if requestID' = requestID then r\<lparr>ag_Status := status, ag_UpdatedAt := gv_now env\<rparr> else r)
       (find (requestIn orgID requestID') (gs_requests s))"
    by (intro option.map_cong) (auto dest!: find_Some_mem simp: requestIn_def)
  finally show ?thesis .
qed

lemma waiting_others [simp]:
  "waiting orgID requestID (setStatus env orgID' requestID' status s) = waiting orgID requestID s"
  "waiting orgID requestID (notifyHooks ev requestID' s) = waiting orgID requestID s"
  by (simp_all add: waiting_def notifyHooks_def)

lemma viewRequest_notify [simp]: "viewRequest orgID requestID (notifyHooks ev requestID' s) = viewRequest orgID requestID s"
  unfolding viewRequest_def waiting_others by (simp add: notifyHooks_def)

lemma viewRequest_setStatus:
  assumes "status \<noteq> ''pending''"
  shows "viewRequest orgID requestID' (setStatus env orgID requestID status s) =
    (if requestID' = requestID \<and> viewRequest orgID requestID s \<noteq> Absent then Closed status
     else viewRequest orgID requestID' s)"
  using assms unfolding viewRequest_def find_setStatus waiting_others
  by (cases "find (requestIn orgID requestID') (gs_requests s)") (auto simp: viewRow_def)

lemma viewRequest_decide_other:
  assumes "distinct (map ap_ID (gs_approvals s))" and "a \<in> set (gs_approvals s)"
    and "waitingOn orgID requestID a" and "decision \<noteq> ''pending''" and "requestID' \<noteq> requestID"
  shows "viewRequest orgID requestID' (decideApproval env orgID (ap_ID a) decision comments s) =
    viewRequest orgID requestID' s"
  using assms(5) unfolding viewRequest_def waiting_decide [OF assms(1-4)] by (simp add: decideApproval_def)

lemma viewRequest_decide:
  assumes "distinct (map ap_ID (gs_approvals s))" and "a \<in> set (gs_approvals s)"
    and "waitingOn orgID requestID a" and "decision \<noteq> ''pending''"
    and "find (requestIn orgID requestID) (gs_requests s) = Some r" and "ag_Status r = ''pending''"
  shows "viewRequest orgID requestID (decideApproval env orgID (ap_ID a) decision comments s) =
    Open (ag_RequesterID r) (waiting orgID requestID s - {#ap_ApproverID a#})"
  using assms(5,6) unfolding viewRequest_def waiting_decide [OF assms(1-4)] by (simp add: viewRow_def)

lemma remove_last_iff: "a \<in># M \<Longrightarrow> M - {#a#} = {#} \<longleftrightarrow> M = {#a#}"
  by (metis add_mset_remove_trivial insert_DiffM)

lemma gov_wf_decide [simp]: "gov_wf (decideApproval env orgID i decision comments s) = gov_wf s"
  by (simp add: gov_wf_def map_updateWhere_key)

lemma gov_wf_setStatus [simp]: "gov_wf (setStatus env orgID i status s) = gov_wf s"
  by (simp add: gov_wf_def image_updateWhere_key)

lemma gov_wf_notify [simp]: "gov_wf (notifyHooks ev i s) = gov_wf s"
  by (simp add: gov_wf_def notifyHooks_def)

lemma viewRequest_found:
  "find (requestIn orgID requestID) (gs_requests s) = Some r \<Longrightarrow> ag_Status r = ''pending''
     \<Longrightarrow> viewRequest orgID requestID s = Open (ag_RequesterID r) (waiting orgID requestID s)"
  by (simp add: viewRequest_def viewRow_def)

lemma pendingFor_waitingOn:
  "pendingFor orgID requestID approverID a \<longleftrightarrow> waitingOn orgID requestID a \<and> ap_ApproverID a = approverID"
  by (auto simp: pendingFor_def waitingOn_def)

lemma pendingFor_waiting:
  "(\<exists>a \<in> set (gs_approvals s). pendingFor orgID requestID approverID a) \<longleftrightarrow> approverID \<in># waiting orgID requestID s"
  by (auto simp: waiting_def pendingFor_waitingOn)

lemma lowestStep_None: "lowestStep as = None \<longleftrightarrow> as = []"
  by (cases as) (auto split: option.splits)

lemma lowestStep_mem: "lowestStep as = Some a \<Longrightarrow> a \<in> set as"
  by (induction as arbitrary: a) (auto split: option.splits if_splits)

lemma countWhere_waiting:
  "countWhere (\<lambda>a. ap_RequestID a = requestID \<and> ap_Decision a = ''pending'' \<and> ap_OrgID a = orgID) (gs_approvals s) = 0
     \<longleftrightarrow> waiting orgID requestID s = {#}"
  by (auto simp: waiting_def waitingOn_def filter_empty_conv)

text \<open>\<open>ApproveRequest\<close> in the absence of faults, as one case distinction.\<close>

lemma approveFind_cases:
  assumes "gov_wf s" and "faultFree env"
  obtains (refused) e where "approveFind env orgID requestID approverID s = Inl e"
      "specApprove approverID (viewRequest orgID requestID s) = viewRequest orgID requestID s"
  | (found) a r where "approveFind env orgID requestID approverID s = Inr a" "a \<in> set (gs_approvals s)"
      "waitingOn orgID requestID a" "ap_ApproverID a = approverID" "approverID \<in># waiting orgID requestID s"
      "find (requestIn orgID requestID) (gs_requests s) = Some r" "ag_Status r = ''pending''"
proof (cases "pendingDetail env orgID requestID s")
  case (Inl e)
  with pendingDetail_view [OF assms, of orgID requestID]
  have "specApprove approverID (viewRequest orgID requestID s) = viewRequest orgID requestID s"
    by (cases "viewRequest orgID requestID s") auto
  with Inl show thesis by (intro refused) (simp_all add: approveFind_def)
next
  case (Inr d)
  with pendingDetail_view [OF assms, of orgID requestID]
  have d: "find (requestIn orgID requestID) (gs_requests s) = Some (rd_Request d)"
    "ag_Status (rd_Request d) = ''pending''" by simp_all
  let ?mine = "filter (pendingFor orgID requestID approverID) (gs_approvals s)"
  show thesis
  proof (cases "lowestStep ?mine")
    case None
    then have "approverID \<notin># waiting orgID requestID s"
      unfolding lowestStep_None filter_empty_conv pendingFor_waiting [symmetric] by blast
    with Inr None assms(2) show thesis
      by (intro refused [of NoPendingApproval])
        (simp_all add: approveFind_def faultFree_def viewRequest_found [OF d])
  next
    case (Some a)
    from lowestStep_mem [OF this] have a: "a \<in> set (gs_approvals s)" "pendingFor orgID requestID approverID a"
      by auto
    then have "approverID \<in># waiting orgID requestID s" unfolding pendingFor_waiting [symmetric] by blast
    with Inr Some a d assms(2) show thesis
      by (intro found [of a "rd_Request d"]) (auto simp: approveFind_def faultFree_def pendingFor_waitingOn)
  qed
qed

lemma snd_ApproveRequest:
  "snd (ApproveRequest env (Some orgID) requestID approverID comments s) =
     (case approveFind env orgID requestID approverID s of
        Inl e \<Rightarrow> s
      | Inr a \<Rightarrow> (case approveMark env orgID (ap_ID a) comments s of
                    (Some e, s1) \<Rightarrow> s1
                  | (None, s1) \<Rightarrow> snd (approveFinish env orgID requestID s1)))"
  by (auto simp: ApproveRequest_def split: sum.splits prod.splits option.splits)

lemma approveFinish_view:
  assumes "faultFree env"
  shows "viewRequest orgID requestID' (snd (approveFinish env orgID requestID s)) =
    (if requestID' = requestID \<and> waiting orgID requestID s = {#} \<and> viewRequest orgID requestID s \<noteq> Absent
     then Closed ''approved'' else viewRequest orgID requestID' s)"
proof -
  have f: "gv_fails env k = False" for k using assms by (simp add: faultFree_def)
  show ?thesis
    unfolding approveFinish_def f countWhere_waiting by (auto simp: viewRequest_setStatus)
qed

lemma ApproveRequest_refines:
  assumes "gov_wf s" and "faultFree env"
  shows "viewRequest orgID requestID' (snd (ApproveRequest env (Some orgID) requestID approverID comments s)) =
     (if requestID' = requestID then specApprove approverID (viewRequest orgID requestID s)
      else viewRequest orgID requestID' s)"
  using assms
proof (cases rule: approveFind_cases [where orgID = orgID and requestID = requestID and approverID = approverID])
  case (refused e)
  then show ?thesis unfolding snd_ApproveRequest by simp
next
  case (found a r)
  have dist: "distinct (map ap_ID (gs_approvals s))" using assms(1) by (simp add: gov_wf_def)
  let ?s1 = "decideApproval env orgID (ap_ID a) ''approved'' comments s"
  have mark: "approveMark env orgID (ap_ID a) comments s = (None, ?s1)"
    using assms(2) by (simp add: approveMark_def faultFree_def)
  note decided = waiting_decide [OF dist found(2,3), of "''approved''"]
    viewRequest_decide [OF dist found(2,3) _ found(6,7), of "''approved''"]
    viewRequest_decide_other [OF dist found(2,3), of "''approved''"]
  show ?thesis
    unfolding snd_ApproveRequest found(1) mark sum.case prod.case option.case
      approveFinish_view [OF assms(2)] viewRequest_found [OF found(6,7)]
    using found(4,5,6,7) by (auto simp: decided remove_last_iff)
qed

lemma DenyRequest_refines:
  assumes "gov_wf s" and "faultFree env"
  shows "viewRequest orgID requestID' (snd (DenyRequest env (Some orgID) requestID approverID comments s)) =
     (if requestID' = requestID then specDeny approverID (viewRequest orgID requestID s)
      else viewRequest orgID requestID' s)"
proof (cases "pendingDetail env orgID requestID s")
  case (Inl e)
  with pendingDetail_view [OF assms, of orgID requestID]
  have "specDeny approverID (viewRequest orgID requestID s) = viewRequest orgID requestID s"
    by (cases "viewRequest orgID requestID s") auto
  with Inl show ?thesis by (simp add: DenyRequest_def)
next
  case (Inr d)
  have f: "gv_fails env k = False" for k using assms(2) by (simp add: faultFree_def)
  from Inr pendingDetail_view [OF assms, of orgID requestID]
  have d: "find (requestIn orgID requestID) (gs_requests s) = Some (rd_Request d)"
    "ag_Status (rd_Request d) = ''pending''" by simp_all
  show ?thesis
  proof (cases "find (pendingFor orgID requestID approverID) (gs_approvals s)")
    case None
    then have "approverID \<notin># waiting orgID requestID s"
      unfolding find_None_iff pendingFor_waiting [symmetric] by blast
    with Inr None show ?thesis by (simp add: DenyRequest_def f viewRequest_found [OF d])
  next
    case (Some a)
    then have a: "a \<in> set (gs_approvals s)" "pendingFor orgID requestID approverID a"
      by (auto dest: find_Some_mem)
    then have "approverID \<in># waiting orgID requestID s" unfolding pendingFor_waiting [symmetric] by blast
    with a assms(1) Inr Some show ?thesis
      by (auto simp: DenyRequest_def f Let_def viewRequest_setStatus viewRequest_found [OF d] gov_wf_def
        pendingFor_waitingOn viewRequest_decide [OF _ _ _ _ d] viewRequest_decide_other [where requestID = requestID])
  qed
qed


lemma CancelRequest_refines:
  assumes "faultFree env"
  shows "viewRequest orgID requestID' (snd (CancelRequest env (Some orgID) requestID requesterID s)) =
     (if requestID' = requestID then specCancel requesterID (viewRequest orgID requestID s)
      else viewRequest orgID requestID' s)"
proof -
  let ?P = "\<lambda>r. ag_ID r = requestID \<and> ag_RequesterID r = requesterID \<and> ag_Status r = ''pending'' \<and> ag_OrgID r = orgID"
  let ?f = "\<lambda>r. r\<lparr>ag_Status := ''cancelled'', ag_UpdatedAt := gv_now env\<rparr>"
  define s1 where "s1 = s\<lparr>gs_requests := updateWhere ?P ?f (gs_requests s)\<rparr>"
  have "viewRequest orgID requestID' (snd (CancelRequest env (Some orgID) requestID requesterID s)) =
      viewRequest orgID requestID' s1"
    using assms by (simp add: CancelRequest_def faultFree_def Let_def s1_def split: sum.split)
  moreover have found: "find (requestIn orgID requestID') (gs_requests s1) =
      map_option (\<lambda>r. if ?P r then ?f r else r) (find (requestIn orgID requestID') (gs_requests s))"
    unfolding s1_def by (simp, rule find_updateWhere) (simp add: requestIn_def)
  moreover have "waiting orgID requestID' s1 = waiting orgID requestID' s" by (simp add: waiting_def s1_def)
  ultimately show ?thesis
  proof (cases "find (requestIn orgID requestID') (gs_requests s)")
    case (Some r)
    then have "requestIn orgID requestID' r" by (auto dest: find_Some_mem)
    with Some \<open>waiting orgID requestID' s1 = _\<close> \<open>viewRequest orgID requestID' (snd _) = _\<close> show ?thesis
      by (auto simp: viewRequest_def found viewRow_def requestIn_def)
  qed (auto simp: viewRequest_def)
qed

text \<open>The decisions as operations of one organisation, and their specification for one request.\<close>

datatype gov_op =
    OpApprove gov_env string string string
  | OpDeny gov_env string string string
  | OpCancel gov_env string string

fun gov_step :: "string \<Rightarrow> gov_op \<Rightarrow> gov_state \<Rightarrow> gov_state" where
  "gov_step orgID (OpApprove env i a c) s = snd (ApproveRequest env (Some orgID) i a c s)"
| "gov_step orgID (OpDeny env i a c) s = snd (DenyRequest env (Some orgID) i a c s)"
| "gov_step orgID (OpCancel env i u) s = snd (CancelRequest env (Some orgID) i u s)"

fun spec_step :: "string \<Rightarrow> gov_op \<Rightarrow> request_view \<Rightarrow> request_view" where
  "spec_step requestID (OpApprove env i a c) v = (if i = requestID then specApprove a v else v)"
| "spec_step requestID (OpDeny env i a c) v = (if i = requestID then specDeny a v else v)"
| "spec_step requestID (OpCancel env i u) v = (if i = requestID then specCancel u v else v)"

fun op_ok :: "gov_op \<Rightarrow> bool" where
  "op_ok (OpApprove env i a c) = faultFree env"
| "op_ok (OpDeny env i a c) = faultFree env"
| "op_ok (OpCancel env i u) = faultFree env"

lemma gov_wf_ApproveRequest: "gov_wf s \<Longrightarrow> gov_wf (snd (ApproveRequest env (Some orgID) i a c s))"
  by (auto simp: snd_ApproveRequest approveMark_def approveFinish_def split: sum.split)

lemma gov_wf_DenyRequest: "gov_wf s \<Longrightarrow> gov_wf (snd (DenyRequest env (Some orgID) i a c s))"
  by (auto simp: DenyRequest_def Let_def split: sum.split option.split)

lemma gov_wf_CancelRequest: "gov_wf s \<Longrightarrow> gov_wf (snd (CancelRequest env (Some orgID) i u s))"
  by (auto simp: CancelRequest_def Let_def gov_wf_def image_updateWhere_key notifyHooks_def split: sum.split)

interpretation workflow: functional_refinement
    "gov_step orgID" "spec_step requestID" "viewRequest orgID requestID" gov_wf op_ok
  for orgID requestID :: string
proof unfold_locales
  fix s a
  assume "gov_wf s" and "op_ok a"
  then show "gov_wf (gov_step orgID a s)"
    by (cases a) (simp_all add: gov_wf_ApproveRequest gov_wf_DenyRequest gov_wf_CancelRequest)
  from \<open>gov_wf s\<close> \<open>op_ok a\<close>
  show "viewRequest orgID requestID (gov_step orgID a s) = spec_step requestID a (viewRequest orgID requestID s)"
    by (cases a) (simp_all add: ApproveRequest_refines DenyRequest_refines CancelRequest_refines)
qed

text \<open>What the specification says over a run: an approved request was approved by every approver it
  waited for, as often as it waited for them.\<close>

definition approvalsOf :: "string \<Rightarrow> gov_op list \<Rightarrow> string multiset" where
  "approvalsOf requestID ops =
     mset (concat (map (\<lambda>x. case x of OpApprove env i a c \<Rightarrow> if i = requestID then [a] else [] | _ \<Rightarrow> []) ops))"

lemma approvalsOf_Cons:
  "approvalsOf requestID (x # ops) =
     (case x of OpApprove env i a c \<Rightarrow> if i = requestID then {#a#} else {#} | _ \<Rightarrow> {#}) + approvalsOf requestID ops"
  by (auto simp: approvalsOf_def split: gov_op.split)

lemma spec_final [simp]:
  "fold (spec_step requestID) ops (Closed st) = Closed st"
  "fold (spec_step requestID) ops Absent = Absent"
proof (induction ops)
  case (Cons x ops)
  { case 1 from Cons(1) show ?case by (cases x) auto }
  { case 2 from Cons(2) show ?case by (cases x) auto }
qed auto

lemma subset_add_mset: "M \<subseteq># N \<Longrightarrow> M \<subseteq># add_mset a N"
  by (metis add_mset_add_single mset_subset_eq_add_left subset_mset.order_trans)

lemma spec_approved:
  "fold (spec_step requestID) ops (Open q M) = Closed ''approved'' \<Longrightarrow> M \<subseteq># approvalsOf requestID ops"
proof (induction ops arbitrary: M)
  case (Cons x ops)
  show ?case
  proof (cases x)
    case (OpApprove env i a c)
    show ?thesis
    proof (cases "i = requestID \<and> a \<in># M \<and> M \<noteq> {#a#}")
      case True
      with Cons OpApprove have "M - {#a#} \<subseteq># approvalsOf requestID ops" by simp
      with True OpApprove show ?thesis by (simp add: approvalsOf_Cons subset_eq_diff_conv)
    next
      case False
      with Cons OpApprove show ?thesis
        by (cases "i = requestID \<and> a \<in># M")
          (auto simp: approvalsOf_Cons intro: subset_add_mset split: if_splits)
    qed
  qed (use Cons in \<open>auto simp: approvalsOf_Cons split: if_splits\<close>)
qed simp

section \<open>Submission through the view\<close>

text \<open>The approver a step of the chain yields: the user it names, or the requester's manager.\<close>

definition stepApprover :: "gov_env \<Rightarrow> string \<Rightarrow> string \<Rightarrow> gov_state \<Rightarrow> ApprovalStep \<Rightarrow> string option" where
  "stepApprover env orgID requesterID s step =
     (if st_ApproverID step \<noteq> '''' then Some (st_ApproverID step)
      else if st_ApproverType step = ''manager'' then
        (case resolveManager env (Some orgID) requesterID s of Inl _ \<Rightarrow> None | Inr m \<Rightarrow> Some m)
      else None)"

text \<open>The keys drawn for the approvals are new and different, and so is the request's.\<close>

definition freshKeys :: "gov_env \<Rightarrow> gov_state \<Rightarrow> bool" where
  "freshKeys env s \<longleftrightarrow> inj (\<lambda>i. gv_fresh env (stepKey i))
     \<and> (\<forall>i. gv_fresh env (stepKey i) \<notin> ap_ID ` set (gs_approvals s))
     \<and> gv_fresh env ''request'' \<notin> ag_ID ` set (gs_requests s) \<union> ac_RequestID ` set (gs_chains s)
          \<union> ap_RequestID ` set (gs_approvals s)"

lemma insertApproval_tables [simp]:
  "gs_requests (insertApproval env key orgID requestID a n s) = gs_requests s"
  "gs_chains (insertApproval env key orgID requestID a n s) = gs_chains s"
  "gs_managers (insertApproval env key orgID requestID a n s) = gs_managers s"
  by (simp_all add: insertApproval_def)

lemma insertApproval_ids:
  "ap_ID ` set (gs_approvals (insertApproval env key orgID requestID a n s)) \<subseteq>
     insert (gv_fresh env key) (ap_ID ` set (gs_approvals s))"
  by (auto simp: insertApproval_def)

lemma insertApproval_waiting:
  assumes "faultFree env" and "gv_fresh env key \<notin> ap_ID ` set (gs_approvals s)"
  shows "waiting orgID requestID (insertApproval env key orgID requestID a n s) =
    (if a = '''' then waiting orgID requestID s else add_mset a (waiting orgID requestID s))"
  using assms by (simp add: insertApproval_def waiting_def waitingOn_def faultFree_def)

lemma insertApproval_other:
  "requestID' \<noteq> requestID
     \<Longrightarrow> waiting orgID' requestID' (insertApproval env key orgID requestID a n s) = waiting orgID' requestID' s"
  by (simp add: insertApproval_def waiting_def waitingOn_def)

lemma insertApproval_wf: "gov_wf s \<Longrightarrow> gov_wf (insertApproval env key orgID requestID a n s)"
  by (auto simp: gov_wf_def insertApproval_def)

text \<open>One turn of the loop, and the loop.\<close>

definition createOne :: "gov_env \<Rightarrow> string \<Rightarrow> string \<Rightarrow> string \<Rightarrow> nat \<Rightarrow> ApprovalStep \<Rightarrow> gov_state \<Rightarrow> gov_state" where
  "createOne env orgID requestID requesterID i step s =
     (case stepApprover env orgID requesterID s step of
        None \<Rightarrow> s
      | Some a \<Rightarrow> insertApproval env (stepKey i) orgID requestID a (i + 1) s)"

lemma createApprovals_Cons:
  "createApprovals env orgID requestID requesterID i (step # steps) s =
     createApprovals env orgID requestID requesterID (i + 1) steps (createOne env orgID requestID requesterID i step s)"
  by (auto simp: createOne_def stepApprover_def insertApproval_def split: sum.split)

declare createApprovals.simps(2) [simp del]

lemma stepApprover_nonempty: "stepApprover env orgID requesterID s step = Some a \<Longrightarrow> a \<noteq> ''''"
  by (auto simp: stepApprover_def resolveManager_def split: if_splits sum.splits option.splits)

lemma stepApprover_managers:
  "gs_managers s' = gs_managers s \<Longrightarrow> stepApprover env orgID requesterID s' = stepApprover env orgID requesterID s"
  by (intro ext) (simp add: stepApprover_def resolveManager_def)

lemma createOne_tables [simp]:
  "gs_requests (createOne env orgID requestID requesterID i step s) = gs_requests s"
  "gs_chains (createOne env orgID requestID requesterID i step s) = gs_chains s"
  "gs_managers (createOne env orgID requestID requesterID i step s) = gs_managers s"
  by (simp_all add: createOne_def split: option.split)

lemma createApprovals_frame:
  shows "gs_requests (createApprovals env orgID requestID requesterID i steps s) = gs_requests s"
    and "gs_chains (createApprovals env orgID requestID requesterID i steps s) = gs_chains s"
    and "gov_wf s \<Longrightarrow> gov_wf (createApprovals env orgID requestID requesterID i steps s)"
    and "requestID' \<noteq> requestID \<Longrightarrow> waiting orgID' requestID'
           (createApprovals env orgID requestID requesterID i steps s) = waiting orgID' requestID' s"
proof (induction steps arbitrary: i s)
  case (Cons step steps)
  { case 1 show ?case by (simp add: createApprovals_Cons Cons) }
  { case 2 show ?case by (simp add: createApprovals_Cons Cons) }
  { case 3 then show ?case
      by (auto simp: createApprovals_Cons createOne_def insertApproval_wf intro!: Cons(3) split: option.split) }
  { case 4 then show ?case
      by (simp add: createApprovals_Cons Cons(4) createOne_def insertApproval_other split: option.split) }
qed simp_all

lemma createApprovals_waiting:
  assumes "faultFree env" and "inj (\<lambda>i. gv_fresh env (stepKey i))"
    and "\<forall>j \<ge> i. gv_fresh env (stepKey j) \<notin> ap_ID ` set (gs_approvals s)"
  shows "waiting orgID requestID (createApprovals env orgID requestID requesterID i steps s) =
    waiting orgID requestID s + mset (List.map_filter (stepApprover env orgID requesterID s) steps)"
  using assms(3)
proof (induction steps arbitrary: i s)
  case (Cons step steps)
  let ?s1 = "createOne env orgID requestID requesterID i step s"
  have "ap_ID ` set (gs_approvals ?s1) \<subseteq> insert (gv_fresh env (stepKey i)) (ap_ID ` set (gs_approvals s))"
    using insertApproval_ids by (auto simp: createOne_def split: option.split)
  moreover have "gv_fresh env (stepKey j) \<noteq> gv_fresh env (stepKey i)" if "j \<ge> i + 1" for j
    using that assms(2) by (auto dest: injD)
  ultimately have "\<forall>j \<ge> i + 1. gv_fresh env (stepKey j) \<notin> ap_ID ` set (gs_approvals ?s1)"
    using Cons.prems by (metis Suc_eq_plus1 Suc_leD insertE subsetD)
  from Cons.IH [OF this] Cons.prems show ?case
    by (cases "stepApprover env orgID requesterID s step")
      (auto simp: createApprovals_Cons stepApprover_managers [OF insertApproval_tables(3)] map_filter_simps createOne_def
        insertApproval_waiting [OF assms(1)] stepApprover_nonempty)
qed (simp add: map_filter_simps)

lemma waiting_absent:
  "requestID \<notin> ap_RequestID ` set (gs_approvals s) \<Longrightarrow> waiting orgID requestID s = {#}"
  by (auto simp: waiting_def waitingOn_def filter_empty_conv)

lemma snd_SubmitRequest:
  assumes "faultFree env" and "freshKeys env s" and "requesterID \<noteq> ''''" and "requestedRole \<noteq> ''''"
    and "justification \<noteq> ''''" and "ch_Steps chain \<noteq> []"
  shows "snd (SubmitRequest env (Some orgID) requesterID requestedRole justification chain s) =
     notifyHooks EventRequestSubmitted (gv_fresh env ''request'')
       (createApprovals env orgID (gv_fresh env ''request'') requesterID 0 (ch_Steps chain)
         (s\<lparr>gs_requests := gs_requests s @ [newRequest env orgID requesterID requestedRole justification],
            gs_chains := gs_chains s @ [newChain env orgID chain]\<rparr>))"
  using assms by (auto simp: SubmitRequest_def Let_def newRequest_def newChain_def faultFree_def freshKeys_def)

lemma SubmitRequest_view:
  fixes orgID :: string
  assumes "faultFree env" and "freshKeys env s" and "requesterID \<noteq> ''''" and "requestedRole \<noteq> ''''"
    and "justification \<noteq> ''''" and "ch_Steps chain \<noteq> []" and "gov_wf s"
  defines "s' \<equiv> snd (SubmitRequest env (Some orgID) requesterID requestedRole justification chain s)"
    and "new \<equiv> gv_fresh env ''request''"
  shows "viewRequest orgID new s' =
           Open requesterID (mset (List.map_filter (stepApprover env orgID requesterID s) (ch_Steps chain)))"
    and "requestID' \<noteq> new \<Longrightarrow> viewRequest orgID' requestID' s' = viewRequest orgID' requestID' s"
    and "gov_wf s'"
proof -
  let ?r = "newRequest env orgID requesterID requestedRole justification"
  define s1 where "s1 = s\<lparr>gs_requests := gs_requests s @ [?r], gs_chains := gs_chains s @ [newChain env orgID chain]\<rparr>"
  define s2 where "s2 = createApprovals env orgID new requesterID 0 (ch_Steps chain) s1"
  have s': "s' = notifyHooks EventRequestSubmitted new s2"
    unfolding s'_def new_def s2_def s1_def by (rule snd_SubmitRequest [OF assms(1-6)])
  have frame: "gs_requests s2 = gs_requests s @ [?r]" "waiting o' i' s1 = waiting o' i' s" for o' i'
    by (simp_all add: s2_def s1_def createApprovals_frame waiting_def)
  have new: "find (requestIn orgID new) (gs_requests s) = None"
    using assms(2) by (force simp: find_None_iff requestIn_def freshKeys_def new_def)
  have "waiting orgID new s2 = mset (List.map_filter (stepApprover env orgID requesterID s) (ch_Steps chain))"
    using createApprovals_waiting [of env 0 s1 orgID new requesterID "ch_Steps chain"] assms(1,2)
      stepApprover_managers [of s1 s env orgID requesterID] waiting_absent [of new s orgID]
    by (simp add: s2_def frame freshKeys_def new_def) (simp add: s1_def)
  with new show "viewRequest orgID new s' = Open requesterID
      (mset (List.map_filter (stepApprover env orgID requesterID s) (ch_Steps chain)))"
    unfolding s' viewRequest_notify unfolding viewRequest_def frame find_append
    by (simp add: viewRow_def newRequest_def requestIn_def new_def)
  show "viewRequest orgID' requestID' s' = viewRequest orgID' requestID' s" if "requestID' \<noteq> new"
  proof -
    have "waiting orgID' requestID' s2 = waiting orgID' requestID' s"
      unfolding s2_def createApprovals_frame(4) [OF that] frame ..
    moreover have "find (requestIn orgID' requestID') (gs_requests s2) = find (requestIn orgID' requestID') (gs_requests s)"
      using that by (simp add: frame find_append newRequest_def requestIn_def new_def split: option.split)
    ultimately show ?thesis unfolding s' viewRequest_notify unfolding viewRequest_def by (simp split: option.split)
  qed
  have "gov_wf s1"
    using assms(7) by (auto simp: gov_wf_def s1_def newRequest_def newChain_def)
  then show "gov_wf s'" by (simp add: s' s2_def createApprovals_frame)
qed

section \<open>The workflow's properties\<close>

definition exampleEnv :: gov_env where
  "exampleEnv = \<lparr>gv_now = 0, gv_fails = (\<lambda>_. False), gv_fresh = (\<lambda>k. k)\<rparr>"

definition userStep :: "string \<Rightarrow> ApprovalStep" where
  "userStep u = \<lparr>st_Order = 0, st_Type = ''user'', st_ApproverID = u, st_RoleID = '''', st_GroupID = '''',
     st_MinApprovals = 1, st_TimeoutMinutes = 0, st_StepOrder = 0, st_ApproverType = ''user'',
     st_ApproverName = '''', st_Required = True\<rparr>"

definition roleStep :: "string \<Rightarrow> ApprovalStep" where
  "roleStep r = (userStep '''')\<lparr>st_Type := ''role'', st_ApproverType := ''role'', st_RoleID := r, st_MinApprovals := 2\<rparr>"

definition emptyGov :: gov_state where
  "emptyGov = \<lparr>gs_requests = [], gs_chains = [], gs_approvals = [], gs_managers = [], gs_events = []\<rparr>"

definition exampleChain :: "ApprovalStep list \<Rightarrow> ApprovalChainConfig" where
  "exampleChain steps = \<lparr>ch_Steps = steps, ch_EscalateAfterHours = 0, ch_EscalateTo = []\<rparr>"

definition exampleGov :: gov_state where
  "exampleGov = snd (SubmitRequest exampleEnv (Some ''o'') ''u'' ''admin'' ''why''
     (exampleChain [userStep ''a'', userStep ''b'']) emptyGov)"

lemma exampleEnv_ok [simp]: "faultFree exampleEnv" "freshKeys exampleEnv emptyGov" "gov_wf emptyGov"
  by (auto simp: faultFree_def freshKeys_def exampleEnv_def emptyGov_def gov_wf_def stepKey_def inj_def)

lemma example_steps [simp]:
  "gv_fresh exampleEnv k = k" "ch_Steps (exampleChain steps) = steps"
  "stepApprover env orgID u s (userStep a) = (if a = '''' then None else Some a)"
  "stepApprover env orgID u s (roleStep r) = None"
  by (simp_all add: exampleEnv_def exampleChain_def stepApprover_def userStep_def roleStep_def)

lemma exampleGov_view [simp]:
  "gov_wf exampleGov" "viewRequest ''o'' ''request'' exampleGov = Open ''u'' {#''a'', ''b''#}"
  using SubmitRequest_view(1,3) [OF exampleEnv_ok(1,2), of "''u''" "''admin''" "''why''"
      "exampleChain [userStep ''a'', userStep ''b'']" "''o''"]
  by (simp_all add: exampleGov_def map_filter_simps)

text \<open>
  C18: the workflow implements its specification. Over any sequence of approvals, denials and
  cancellations in one organisation, each without a failing statement, a request is what the
  specification says: open, waiting for what is left of its approvers, or closed. In particular it
  is approved only when everybody it waited for has approved.
\<close>

theorem workflow_refines_spec:
  assumes "gov_wf s" and "list_all op_ok ops"
  shows "viewRequest orgID requestID (fold (gov_step orgID) ops s) =
           fold (spec_step requestID) ops (viewRequest orgID requestID s)
       \<and> (viewRequest orgID requestID s = Open q M
          \<and> viewRequest orgID requestID (fold (gov_step orgID) ops s) = Closed ''approved''
          \<longrightarrow> M \<subseteq># approvalsOf requestID ops)"
  using workflow.run_refines [OF assms, of orgID requestID] spec_approved by auto

theorem workflow_refines_spec_witness:
  "viewRequest ''o'' ''request'' (fold (gov_step ''o'')
      [OpApprove exampleEnv ''request'' ''a'' '''', OpApprove exampleEnv ''request'' ''b'' ''''] exampleGov)
     = Closed ''approved''"
  using workflow_refines_spec [of exampleGov "[OpApprove exampleEnv ''request'' ''a'' '''',
      OpApprove exampleEnv ''request'' ''b'' '''']" "''o''" "''request''" "''u''" "{#''a'', ''b''#}"]
  by simp

text \<open>
  A submitted request waits for exactly the users its steps name and, for a step that names
  nobody and asks for the manager, for the requester's manager when there is one; other requests
  stay as they are. Every other step, a role or group step included, and the \<^verbatim>\<open>MinApprovals\<close> of a step
  add nothing to what the request waits for.
\<close>

theorem SubmitRequest_waits_for:
  assumes "faultFree env" and "freshKeys env s" and "gov_wf s" and "requesterID \<noteq> ''''"
    and "requestedRole \<noteq> ''''" and "justification \<noteq> ''''" and "ch_Steps chain \<noteq> []"
  shows "viewRequest orgID (gv_fresh env ''request'')
             (snd (SubmitRequest env (Some orgID) requesterID requestedRole justification chain s)) =
           Open requesterID (mset (List.map_filter (stepApprover env orgID requesterID s) (ch_Steps chain)))
       \<and> (\<forall>orgID' requestID'. requestID' \<noteq> gv_fresh env ''request'' \<longrightarrow>
            viewRequest orgID' requestID'
              (snd (SubmitRequest env (Some orgID) requesterID requestedRole justification chain s)) =
            viewRequest orgID' requestID' s)"
  using SubmitRequest_view [OF assms(1,2,4-7,3)] by blast

theorem SubmitRequest_waits_for_witness:
  "viewRequest ''o'' ''request'' (snd (SubmitRequest exampleEnv (Some ''o'') ''u'' ''admin'' ''why''
      (exampleChain [userStep ''a'', roleStep ''security'']) emptyGov)) = Open ''u'' {#''a''#}"
  using SubmitRequest_waits_for [of exampleEnv emptyGov "''u''" "''admin''" "''why''"
      "exampleChain [userStep ''a'', roleStep ''security'']" "''o''"]
  by (simp add: map_filter_simps)

lemma map_filter_unnamed:
  "(\<And>step. step \<in> set steps \<Longrightarrow> st_ApproverID step = '''' \<and> st_ApproverType step \<noteq> ''manager'')
     \<Longrightarrow> List.map_filter (stepApprover env orgID requesterID s) steps = []"
  by (induction steps) (auto simp: map_filter_simps stepApprover_def)

lemma spec_step_stuck:
  "(\<And>env i u. OpCancel env i u \<in> set ops \<Longrightarrow> u \<noteq> q) \<Longrightarrow> fold (spec_step requestID) ops (Open q {#}) = Open q {#}"
proof (induction ops)
  case (Cons x ops)
  then have "spec_step requestID x (Open q {#}) = Open q {#}" by (cases x) auto
  moreover have "fold (spec_step requestID) ops (Open q {#}) = Open q {#}"
    by (rule Cons.IH) (use Cons.prems in auto)
  ultimately show ?case by simp
qed simp

text \<open>
  Steps that name no user and are not manager steps (role and group steps) are not part of the
  workflow at all. A chain of one named approver followed by any such steps is approved by that
  approver alone, and a request whose chain has only such steps can be neither approved nor denied
  by anybody: it stays open until the requester cancels it.
\<close>

theorem unnamed_steps_dropped:
  fixes orgID :: string and chain :: ApprovalChainConfig
  assumes "faultFree env" and "freshKeys env s" and "gov_wf s" and "requesterID \<noteq> ''''"
    and "requestedRole \<noteq> ''''" and "justification \<noteq> ''''"
    and "st_ApproverID named \<noteq> ''''" and "rest \<noteq> []"
    and "\<And>step. step \<in> set rest \<Longrightarrow> st_ApproverID step = '''' \<and> st_ApproverType step \<noteq> ''manager''"
    and "list_all op_ok ops" and "\<And>e i u. OpCancel e i u \<in> set ops \<Longrightarrow> u \<noteq> requesterID"
  defines "submit steps \<equiv> snd (SubmitRequest env (Some orgID) requesterID requestedRole justification
                             (chain\<lparr>ch_Steps := steps\<rparr>) s)"
    and "new \<equiv> gv_fresh env ''request''"
  shows "viewRequest orgID new
           (snd (ApproveRequest env (Some orgID) new (st_ApproverID named) comments (submit (named # rest)))) =
           Closed ''approved''
       \<and> viewRequest orgID new (fold (gov_step orgID) ops (submit rest)) = Open requesterID {#}"
proof
  note submitted = SubmitRequest_view [OF assms(1,2,4-6) _ assms(3), where orgID = orgID]
  have none: "List.map_filter (stepApprover env orgID requesterID s) rest = []"
    by (rule map_filter_unnamed [OF assms(9)])
  have "viewRequest orgID new (submit (named # rest)) = Open requesterID {#st_ApproverID named#}"
    using submitted(1) [of "chain\<lparr>ch_Steps := named # rest\<rparr>"] assms(7) none
    by (simp add: submit_def new_def map_filter_simps stepApprover_def)
  moreover have "gov_wf (submit (named # rest))"
    using submitted(3) [of "chain\<lparr>ch_Steps := named # rest\<rparr>"] by (simp add: submit_def)
  ultimately show "viewRequest orgID new
      (snd (ApproveRequest env (Some orgID) new (st_ApproverID named) comments (submit (named # rest)))) =
      Closed ''approved''"
    by (simp add: ApproveRequest_refines assms(1))
  have "viewRequest orgID new (submit rest) = Open requesterID {#}" and "gov_wf (submit rest)"
    using submitted(1,3) [of "chain\<lparr>ch_Steps := rest\<rparr>"] assms(8) none by (simp_all add: submit_def new_def)
  then show "viewRequest orgID new (fold (gov_step orgID) ops (submit rest)) = Open requesterID {#}"
    using workflow.run_refines [OF _ assms(10), of "submit rest" orgID new] spec_step_stuck [OF assms(11)] by simp
qed

theorem unnamed_steps_dropped_witness:
  "viewRequest ''o'' ''request'' (snd (ApproveRequest exampleEnv (Some ''o'') ''request'' ''a'' ''''
      (snd (SubmitRequest exampleEnv (Some ''o'') ''u'' ''admin'' ''why''
         (exampleChain [userStep ''a'', roleStep ''security'']) emptyGov)))) = Closed ''approved''"
  using unnamed_steps_dropped [where env = exampleEnv and s = emptyGov and requesterID = "''u''"
      and requestedRole = "''admin''" and justification = "''why''" and named = "userStep ''a''"
      and rest = "[roleStep ''security'']" and ops = "[]" and orgID = "''o''" and chain = "exampleChain []"
      and comments = "''''"]
  by (simp add: userStep_def roleStep_def exampleChain_def)

lemma DenyRequest_state:
  assumes "gov_wf s" and "faultFree env" and "viewRequest orgID requestID s = Open q M" and "b \<in># M"
  obtains row where "row \<in> set (gs_approvals s)" "waitingOn orgID requestID row" "ap_ApproverID row = b"
    "snd (DenyRequest env (Some orgID) requestID b comments s) =
       notifyHooks EventRequestDenied requestID
         (setStatus env orgID requestID ''denied'' (decideApproval env orgID (ap_ID row) ''denied'' comments s))"
proof -
  have f: "gv_fails env k = False" for k using assms(2) by (simp add: faultFree_def)
  obtain d where d: "pendingDetail env orgID requestID s = Inr d"
    using pendingDetail_view [OF assms(1,2), of orgID requestID] assms(3) by (auto split: sum.splits)
  with pendingDetail_view [OF assms(1,2), of orgID requestID] assms(3)
  have "M = waiting orgID requestID s" by (simp add: viewRequest_def viewRow_def)
  with assms(4) obtain x where "x \<in> set (gs_approvals s)" "pendingFor orgID requestID b x"
    using pendingFor_waiting [of s orgID requestID b] by auto
  then obtain row where row: "find (pendingFor orgID requestID b) (gs_approvals s) = Some row"
    using find_present by metis
  then have "row \<in> set (gs_approvals s)" "pendingFor orgID requestID b row" by (auto dest: find_Some_mem)
  with row d show thesis
    by (intro that [of row]) (simp_all add: DenyRequest_def f Let_def pendingFor_waitingOn)
qed

text \<open>
  An approval and a denial that overlap. The request waits for \<open>a\<close> and \<open>b\<close>; \<open>a\<close>'s approval has read
  the pending request when \<open>b\<close> denies it, and runs its updates afterwards. The denial closes the
  request, and the approval then marks the denied request as approved: its update of the status does
  not ask what the status is.
\<close>

theorem approve_deny_race:
  assumes "gov_wf s" and "faultFree env" and "viewRequest orgID requestID s = Open q {#a, b#}" and "a \<noteq> b"
  shows "\<exists>row. approveFind env orgID requestID a s = Inr row
    \<and> (let s1 = snd (DenyRequest env (Some orgID) requestID b comments s);
            s2 = snd (approveMark env orgID (ap_ID row) comments' s1);
            s3 = snd (approveFinish env orgID requestID s2)
         in viewRequest orgID requestID s1 = Closed ''denied''
            \<and> viewRequest orgID requestID s3 = Closed ''approved'')"
  using assms(1,2)
proof (cases rule: approveFind_cases [where orgID = orgID and requestID = requestID and approverID = a])
  case (refused e)
  with assms(3,4) show ?thesis by simp
next
  case (found row r)
  have dist: "distinct (map ap_ID (gs_approvals s))" using assms(1) by (simp add: gov_wf_def)
  obtain row' where row': "row' \<in> set (gs_approvals s)" "waitingOn orgID requestID row'" "ap_ApproverID row' = b"
    and deny: "snd (DenyRequest env (Some orgID) requestID b comments s) =
       notifyHooks EventRequestDenied requestID
         (setStatus env orgID requestID ''denied'' (decideApproval env orgID (ap_ID row') ''denied'' comments s))"
    using DenyRequest_state [OF assms(1-3), of b] by auto
  define s1 where "s1 = snd (DenyRequest env (Some orgID) requestID b comments s)"
  have "ap_ID row \<noteq> ap_ID row'"
    using distinct_key_eq [OF dist found(2) row'(1)] found(4) row'(3) assms(4) by auto
  then have in1: "row \<in> set (gs_approvals s1)"
    using found(2) unfolding s1_def deny by (force simp: notifyHooks_def set_updateWhere)
  have wf1: "gov_wf s1" unfolding s1_def by (rule gov_wf_DenyRequest [OF assms(1)])
  have view1: "viewRequest orgID requestID s1 = Closed ''denied''"
    using assms(3) unfolding s1_def DenyRequest_refines [OF assms(1,2)] by simp
  have "waiting orgID requestID s = {#a, b#}"
    using assms(3) viewRequest_found [OF found(6,7)] by simp
  then have wait1: "waiting orgID requestID s1 = {#a#}"
    unfolding s1_def deny waiting_others waiting_decide [OF dist row'(1,2), of "''denied''", simplified]
    by (simp add: row'(3))
  define s2 where "s2 = snd (approveMark env orgID (ap_ID row) comments' s1)"
  have s2: "s2 = decideApproval env orgID (ap_ID row) ''approved'' comments' s1"
    using assms(2) by (simp add: s2_def approveMark_def faultFree_def)
  have "waiting orgID requestID s2 = {#}"
    using wf1 in1 found(3,4) wait1 unfolding s2 by (simp add: waiting_decide [where requestID = requestID] gov_wf_def)
  moreover have "viewRequest orgID requestID s2 \<noteq> Absent"
    using view1 unfolding s2 viewRequest_def by (auto simp: viewRow_def split: option.splits if_splits)
  ultimately show ?thesis
    using found(1) view1 by (simp add: Let_def approveFinish_view [OF assms(2)] flip: s1_def s2_def)
qed

theorem approve_deny_race_witness:
  "\<exists>row. approveFind exampleEnv ''o'' ''request'' ''a'' exampleGov = Inr row
    \<and> (let s1 = snd (DenyRequest exampleEnv (Some ''o'') ''request'' ''b'' ''no'' exampleGov);
            s2 = snd (approveMark exampleEnv ''o'' (ap_ID row) ''yes'' s1);
            s3 = snd (approveFinish exampleEnv ''o'' ''request'' s2)
         in viewRequest ''o'' ''request'' s1 = Closed ''denied''
            \<and> viewRequest ''o'' ''request'' s3 = Closed ''approved'')"
  by (rule approve_deny_race [of exampleGov exampleEnv "''o''" "''request''" "''u''" "''a''" "''b''"]) simp_all
end
