(* ===== verification/Sql_Guard.thy ===== *)
theory Sql_Guard
  imports Go_Prelude
begin

text \<open>
  The statement policy of the database proxy, \<^verbatim>\<open>internal/access/dbproxy/policy.go\<close>: the lexical scanner,
  the split of a text into statements, their classification and the check.

  The scanner keeps the text and a byte position, as in the source; the loops that walk it are
  functions with a termination proof, since every token moves the position forward. The lexical
  helpers work on the text that is left at a position.
\<close>

section \<open>The scanner\<close>

datatype tokKind = TokEOF | TokWord | TokQuoted | TokPunct

record sqlScanner =
  sc_s :: string
  sc_i :: nat
  sc_depth :: nat
  sc_word :: string

definition newSQLScanner :: "string \<Rightarrow> sqlScanner" where
  "newSQLScanner s = \<lparr>sc_s = s, sc_i = 0, sc_depth = 0, sc_word = ''''\<rparr>"

definition isWordStart :: "char \<Rightarrow> bool" where
  "isWordStart c \<longleftrightarrow> c = CHR ''_'' \<or> isLowerAscii c \<or> isUpperAscii c"

definition isWordChar :: "char \<Rightarrow> bool" where
  "isWordChar c \<longleftrightarrow> isWordStart c \<or> isDigitAscii c \<or> c = CHR ''$''"

definition startsWith :: "char \<Rightarrow> string \<Rightarrow> bool" where
  "startsWith c s \<longleftrightarrow> (case s of [] \<Rightarrow> False | x # _ \<Rightarrow> x = c)"

text \<open>The text after a block comment whose \<open>d\<close> openings are not closed yet; the comments nest.\<close>

fun blockComment :: "nat \<Rightarrow> string \<Rightarrow> string" where
  "blockComment d [] = []"
| "blockComment d (c # cs) =
     (if d = 0 then c # cs
      else if c = CHR ''/'' \<and> startsWith CHR ''*'' cs then blockComment (d + 1) (tl cs)
      else if c = CHR ''*'' \<and> startsWith CHR ''/'' cs then blockComment (d - 1) (tl cs)
      else blockComment d cs)"

text \<open>The text after the closing quote \<open>q\<close>; a doubled quote does not close.\<close>

fun quoteEnd :: "char \<Rightarrow> string \<Rightarrow> string" where
  "quoteEnd q [] = []"
| "quoteEnd q (c # cs) =
     (if c = q then if startsWith q cs then quoteEnd q (tl cs) else cs
      else quoteEnd q cs)"

definition isTagChar :: "char \<Rightarrow> bool" where
  "isTagChar c \<longleftrightarrow> c = CHR ''_'' \<or> isLowerAscii c \<or> isUpperAscii c \<or> isDigitAscii c"

text \<open>The opening tag of a dollar quote, given the text after the first dollar.\<close>

definition dollarTag :: "string \<Rightarrow> string option" where
  "dollarTag cs =
     (if cs \<noteq> [] \<and> isDigitAscii (hd cs) then None
      else if startsWith CHR ''$'' (dropWhile isTagChar cs)
           then Some (CHR ''$'' # takeWhile isTagChar cs @ ''$'') else None)"

text \<open>The text after the first occurrence of a tag, or nothing when it does not occur.\<close>

fun afterFirst :: "string \<Rightarrow> string \<Rightarrow> string" where
  "afterFirst tag [] = []"
| "afterFirst tag (c # cs) =
     (if hasPrefix (c # cs) tag then drop (length tag) (c # cs) else afterFirst tag cs)"

lemma startsWith_tl [dest]: "startsWith c s \<Longrightarrow> length (tl s) < length s"
  by (cases s) (auto simp: startsWith_def)

lemma length_blockComment: "length (blockComment d s) \<le> length s"
  by (induction d s rule: blockComment.induct) auto

lemma length_quoteEnd: "length (quoteEnd q s) \<le> length s"
  by (induction q s rule: quoteEnd.induct) (auto dest: startsWith_tl)

lemma length_afterFirst: "length (afterFirst tag s) \<le> length s"
  by (induction tag s rule: afterFirst.induct) auto

text \<open>Blanks, line comments and block comments before the next token.\<close>

function skipBlank :: "string \<Rightarrow> string" where
  "skipBlank [] = []"
| "skipBlank (c # cs) =
     (if asciiSpace c then skipBlank cs
      else if c = CHR ''-'' \<and> startsWith CHR ''-'' cs then skipBlank (dropWhile (\<lambda>x. x \<noteq> CHR 0x0A) cs)
      else if c = CHR ''/'' \<and> startsWith CHR ''*'' cs then skipBlank (blockComment 1 (tl cs))
      else c # cs)"
  by pat_completeness auto

termination
proof (relation "measure length", goal_cases)
  case (3 c cs)
  then show ?case using length_dropWhile_le [of "\<lambda>x. x \<noteq> CHR 0x0A" cs] by simp
next
  case (4 c cs)
  then show ?case using length_blockComment [of 1 "tl cs"] by (auto dest: startsWith_tl)
qed simp_all

text \<open>The token at the head of a text that starts with neither a blank nor a comment: its kind and
  the text after it.\<close>

definition tokenAt :: "string \<Rightarrow> tokKind \<times> string" where
  "tokenAt r =
     (case r of
        [] \<Rightarrow> (TokEOF, [])
      | c # cs \<Rightarrow>
          if c = CHR 0x27 \<or> c = CHR 0x22 then (TokQuoted, quoteEnd c cs)
          else if c = CHR ''$'' then
            (case dollarTag cs of
               Some tag \<Rightarrow> (TokQuoted, afterFirst tag (drop (length tag - 1) cs))
             | None \<Rightarrow> (TokPunct, cs))
          else if isWordStart c then (TokWord, dropWhile isWordChar r)
          else (TokPunct, cs))"

text \<open>One token: its kind, its position and the scanner after it.\<close>

definition scannerNext :: "sqlScanner \<Rightarrow> tokKind \<times> nat \<times> sqlScanner" where
  "scannerNext sc =
     (let n = length (sc_s sc);
          r = skipBlank (drop (sc_i sc) (sc_s sc));
          (kind, rest) = tokenAt r;
          sc1 = sc\<lparr>sc_i := n - length rest\<rparr>
      in (kind, n - length r,
          case kind of
            TokEOF \<Rightarrow> sc1
          | TokQuoted \<Rightarrow> sc1
          | TokWord \<Rightarrow> sc1\<lparr>sc_word := toUpper (take (length r - length rest) r)\<rparr>
          | TokPunct \<Rightarrow> (if hd r = CHR ''('' then sc1\<lparr>sc_depth := sc_depth sc + 1\<rparr>
                         else if hd r = CHR '')'' then sc1\<lparr>sc_depth := sc_depth sc - 1\<rparr>
                         else sc1)))"

text \<open>Every token but the end moves the position forward, and the text stays.\<close>

lemma length_skipBlank: "length (skipBlank s) \<le> length s"
proof (induction s rule: skipBlank.induct)
  case (2 c cs)
  have "length (dropWhile (\<lambda>x. x \<noteq> CHR 0x0A) cs) \<le> length cs" by (rule length_dropWhile_le)
  moreover have "length (blockComment 1 (tl cs)) \<le> length cs"
    using length_blockComment [of 1 "tl cs"] by simp
  ultimately show ?case using 2 by auto
qed simp

lemma tokenAt_shorter:
  assumes "tokenAt r = (kind, rest)" and "kind \<noteq> TokEOF"
  shows "length rest < length r"
proof (cases r)
  case (Cons c cs)
  have "length (dropWhile isWordChar (c # cs)) < length (c # cs)" if "isWordStart c"
    using that length_dropWhile_le [of isWordChar cs] by (simp add: isWordChar_def)
  moreover have "length (afterFirst tag (drop k cs)) \<le> length cs" for tag k
    using length_afterFirst [of tag "drop k cs"] by simp
  ultimately show ?thesis
    using assms Cons length_quoteEnd [of _ cs]
    by (auto simp: tokenAt_def less_Suc_eq_le split: if_splits option.splits)
qed (use assms in \<open>simp add: tokenAt_def\<close>)

lemma tokenAt_EOF: "tokenAt r = (TokEOF, rest) \<longleftrightarrow> r = [] \<and> rest = []"
  by (auto simp: tokenAt_def split: list.splits if_splits option.splits)

lemma scannerNext_cases:
  assumes "scannerNext sc = (kind, pos, sc')"
  obtains (stop) "kind = TokEOF" "pos = length (sc_s sc)" "sc' = sc\<lparr>sc_i := length (sc_s sc)\<rparr>"
      "skipBlank (drop (sc_i sc) (sc_s sc)) = []"
  | (token) rest where "kind \<noteq> TokEOF" "tokenAt (skipBlank (drop (sc_i sc) (sc_s sc))) = (kind, rest)"
      "length rest < length (skipBlank (drop (sc_i sc) (sc_s sc)))"
      "pos = length (sc_s sc) - length (skipBlank (drop (sc_i sc) (sc_s sc)))"
      "sc_i sc' = length (sc_s sc) - length rest" "sc_s sc' = sc_s sc"
proof (cases "tokenAt (skipBlank (drop (sc_i sc) (sc_s sc)))")
  case (Pair k rest)
  show thesis
  proof (cases "k = TokEOF")
    case True
    with Pair have "skipBlank (drop (sc_i sc) (sc_s sc)) = []" "rest = []" by (auto simp: tokenAt_EOF)
    with True Pair assms show thesis by (intro stop) (auto simp: scannerNext_def Let_def)
  next
    case False
    with Pair assms tokenAt_shorter [OF Pair] show thesis
      by (intro token) (auto simp: scannerNext_def Let_def split: tokKind.splits if_splits)
  qed
qed

lemma scannerNext_bounds:
  assumes "scannerNext sc = (kind, pos, sc')" and "kind \<noteq> TokEOF"
  shows "sc_i sc \<le> pos \<and> pos < sc_i sc' \<and> sc_i sc' \<le> length (sc_s sc) \<and> sc_s sc' = sc_s sc"
  using assms(1)
proof (cases rule: scannerNext_cases)
  case (token rest)
  let ?r = "skipBlank (drop (sc_i sc) (sc_s sc))"
  have "length ?r \<le> length (sc_s sc) - sc_i sc" using length_skipBlank [of "drop (sc_i sc) (sc_s sc)"] by simp
  with token show ?thesis by auto
qed (use assms(2) in auto)

lemmas scannerNext_progress =
  scannerNext_bounds [THEN conjunct1]
  scannerNext_bounds [THEN conjunct2, THEN conjunct1]
  scannerNext_bounds [THEN conjunct2, THEN conjunct2, THEN conjunct1]
  scannerNext_bounds [THEN conjunct2, THEN conjunct2, THEN conjunct2]

definition remaining :: "sqlScanner \<Rightarrow> nat" where
  "remaining sc = length (sc_s sc) - sc_i sc"

lemma scannerNext_remaining:
  "scannerNext sc = (kind, pos, sc') \<Longrightarrow> kind \<noteq> TokEOF \<Longrightarrow> remaining sc' < remaining sc"
  using scannerNext_bounds [of sc kind pos sc'] by (auto simp: remaining_def)


section \<open>Keywords, statements and classes\<close>

function nextKeyword :: "nat \<Rightarrow> sqlScanner \<Rightarrow> string option \<times> sqlScanner" where
  "nextKeyword depth sc =
     (case scannerNext sc of (kind, pos, sc') \<Rightarrow>
        if kind = TokEOF then (None, sc')
        else if kind = TokWord \<and> sc_depth sc' = depth then (Some (sc_word sc'), sc')
        else nextKeyword depth sc')"
  by pat_completeness auto

termination
  by (relation "measure (\<lambda>(_, sc). remaining sc)") (auto dest: scannerNext_remaining [OF sym])

declare nextKeyword.simps [simp del]

definition peekKeyword :: "nat \<Rightarrow> sqlScanner \<Rightarrow> string option" where
  "peekKeyword depth sc = fst (nextKeyword depth sc)"

text \<open>Consuming tokens while the depth is positive, after an opening parenthesis.\<close>

function closeGroup :: "sqlScanner \<Rightarrow> sqlScanner" where
  "closeGroup sc =
     (if sc_depth sc = 0 then sc
      else (case scannerNext sc of (kind, pos, sc') \<Rightarrow> if kind = TokEOF then sc' else closeGroup sc'))"
  by pat_completeness auto

termination
  by (relation "measure remaining") (auto dest: scannerNext_remaining [OF sym])

declare closeGroup.simps [simp del]

definition skipParenGroup :: "sqlScanner \<Rightarrow> sqlScanner" where
  "skipParenGroup sc =
     (case scannerNext sc of (kind, pos, sc') \<Rightarrow>
        if kind \<noteq> TokPunct \<or> length (sc_s sc') \<le> pos \<or> sc_s sc' ! pos \<noteq> CHR ''('' then sc
        else closeGroup sc')"

text \<open>The words \<^verbatim>\<open>ANALYZE\<close> and \<^verbatim>\<open>VERBOSE\<close> after \<^verbatim>\<open>EXPLAIN\<close>.\<close>

lemma nextKeyword_progress:
  "nextKeyword depth sc = (Some w, sc') \<Longrightarrow> remaining sc' < remaining sc"
proof (induction depth sc arbitrary: w sc' rule: nextKeyword.induct)
  case (1 depth sc)
  obtain kind pos sc1 where t: "scannerNext sc = (kind, pos, sc1)" by (cases "scannerNext sc")
  show ?case
  proof (cases "kind = TokEOF \<or> (kind = TokWord \<and> sc_depth sc1 = depth)")
    case True
    with 1(2) t show ?thesis
      by (auto simp: nextKeyword.simps [of depth sc] dest: scannerNext_remaining split: if_splits)
  next
    case False
    with 1(2) t have "nextKeyword depth sc1 = (Some w, sc')" by (auto simp: nextKeyword.simps [of depth sc])
    with 1(1) [OF t [symmetric]] False have "remaining sc' < remaining sc1" by auto
    also have "\<dots> < remaining sc" using scannerNext_remaining [OF t] False by simp
    finally show ?thesis .
  qed
qed

function skipExplainWords :: "sqlScanner \<Rightarrow> sqlScanner" where
  "skipExplainWords sc =
     (case nextKeyword 0 sc of
        (None, _) \<Rightarrow> sc
      | (Some w, sc') \<Rightarrow> if w = ''ANALYZE'' \<or> w = ''VERBOSE'' then skipExplainWords sc' else sc)"
  by pat_completeness auto

termination
  by (relation "measure remaining") (auto dest: nextKeyword_progress [OF sym])

declare skipExplainWords.simps [simp del]

definition writeWords :: "string list" where
  "writeWords = [''INSERT'', ''UPDATE'', ''DELETE'', ''MERGE'']"

definition mainWords :: "string list" where
  "mainWords = [''SELECT'', ''TABLE'', ''VALUES'']"

text \<open>The scan of everything after \<^verbatim>\<open>WITH\<close>, at every depth.\<close>

function classifyWith :: "string \<Rightarrow> sqlScanner \<Rightarrow> string \<times> bool" where
  "classifyWith mainClass sc =
     (case scannerNext sc of (kind, pos, sc') \<Rightarrow>
        if kind = TokEOF then (if mainClass \<noteq> '''' then (mainClass, True) else (''WITH'', False))
        else if kind \<noteq> TokWord then classifyWith mainClass sc'
        else if sc_word sc' \<in> set writeWords then (sc_word sc', False)
        else if sc_word sc' \<in> set mainWords \<and> sc_depth sc' = 0 \<and> mainClass = ''''
             then classifyWith (sc_word sc') sc'
        else classifyWith mainClass sc')"
  by pat_completeness auto

termination
  by (relation "measure (\<lambda>(_, sc). remaining sc)") (auto dest: scannerNext_remaining [OF sym])

declare classifyWith.simps [simp del]

text \<open>The direction of \<^verbatim>\<open>COPY\<close>.\<close>

function classifyCopy :: "sqlScanner \<Rightarrow> string \<times> bool" where
  "classifyCopy sc =
     (case nextKeyword 0 sc of
        (None, _) \<Rightarrow> (''COPY'', False)
      | (Some w, sc') \<Rightarrow>
          if w = ''TO'' then (''COPY'', True) else if w = ''FROM'' then (''COPY'', False) else classifyCopy sc')"
  by pat_completeness auto

termination
  by (relation "measure remaining") (auto dest: nextKeyword_progress [OF sym])

declare classifyCopy.simps [simp del]

text \<open>\<^verbatim>\<open>DECLARE\<close> is a key of the source's map with the value false.\<close>

definition readOnlyClasses :: "string list" where
  "readOnlyClasses =
     [''SELECT'', ''SHOW'', ''VALUES'', ''TABLE'', ''FETCH'', ''MOVE'', ''CLOSE'', ''SET'', ''RESET'', ''BEGIN'',
      ''START'', ''COMMIT'', ''END'', ''ROLLBACK'', ''ABORT'', ''SAVEPOINT'', ''RELEASE'', ''DEALLOCATE'', ''DISCARD'']"

lemma closeGroup_remaining: "remaining (closeGroup sc) \<le> remaining sc"
proof (induction sc rule: closeGroup.induct)
  case (1 sc)
  obtain kind pos sc1 where t: "scannerNext sc = (kind, pos, sc1)" by (cases "scannerNext sc")
  have "remaining sc1 \<le> remaining sc"
    using t by (cases rule: scannerNext_cases) (use scannerNext_remaining [OF t] in \<open>auto simp: remaining_def\<close>)
  moreover have "remaining (closeGroup sc1) \<le> remaining sc1" if "sc_depth sc \<noteq> 0" "kind \<noteq> TokEOF"
    using 1 that t by simp
  ultimately show ?case using t by (auto simp: closeGroup.simps [of sc])
qed

lemma skipParenGroup_remaining: "remaining (skipParenGroup sc) \<le> remaining sc"
proof -
  obtain kind pos sc1 where t: "scannerNext sc = (kind, pos, sc1)" by (cases "scannerNext sc")
  then show ?thesis
    using closeGroup_remaining [of sc1] scannerNext_remaining [OF t] by (auto simp: skipParenGroup_def)
qed

lemma skipExplainWords_remaining: "remaining (skipExplainWords sc) \<le> remaining sc"
proof (induction sc rule: skipExplainWords.induct)
  case (1 sc)
  then show ?case
    by (auto simp: skipExplainWords.simps [of sc] dest: nextKeyword_progress split: prod.split option.split)
      (metis le_trans less_imp_le nextKeyword_progress)+
qed

function classifyFrom :: "sqlScanner \<Rightarrow> string \<times> bool" where
  "classifyFrom sc =
     (case nextKeyword 0 sc of
        (None, _) \<Rightarrow> ('''', False)
      | (Some w, sc') \<Rightarrow>
          if w = ''EXPLAIN'' then classifyFrom (skipExplainWords (skipParenGroup sc'))
          else if w = ''WITH'' then classifyWith '''' sc'
          else if w = ''COPY'' then classifyCopy sc'
          else (w, w \<in> set readOnlyClasses))"
  by pat_completeness auto

termination
proof (relation "measure remaining", simp)
  fix sc w' sc' w
  assume "(w', sc') = nextKeyword 0 sc" and "w' = Some w"
  then have "remaining sc' < remaining sc" by (auto dest: nextKeyword_progress [OF sym])
  then show "(skipExplainWords (skipParenGroup sc'), sc) \<in> measure remaining"
    using skipExplainWords_remaining [of "skipParenGroup sc'"] skipParenGroup_remaining [of sc'] by simp
qed

declare classifyFrom.simps [simp del]

definition classifyStatement :: "string \<Rightarrow> string \<times> bool" where
  "classifyStatement stmt = classifyFrom (newSQLScanner stmt)"

function splitLoop :: "nat \<Rightarrow> sqlScanner \<Rightarrow> string list" where
  "splitLoop start sc =
     (case scannerNext sc of (kind, pos, sc') \<Rightarrow>
        if kind = TokEOF then [drop start (sc_s sc)]
        else if kind = TokPunct \<and> sc_s sc ! pos = CHR '';'' \<and> sc_depth sc' = 0
             then take (pos - start) (drop start (sc_s sc)) # splitLoop (pos + 1) sc'
        else splitLoop start sc')"
  by pat_completeness auto

termination
  by (relation "measure (\<lambda>(_, sc). remaining sc)") (auto dest: scannerNext_remaining [OF sym])

declare splitLoop.simps [simp del]

definition splitStatements :: "string \<Rightarrow> string list" where
  "splitStatements sql = splitLoop 0 (newSQLScanner sql)"

section \<open>The policy\<close>

record StatementPolicy =
  sp_ReadOnly :: bool
  sp_Deny :: "string list"

datatype policy_refusal = DeniedClass string | NotReadOnly string

fun checkStatements :: "StatementPolicy \<Rightarrow> string list \<Rightarrow> policy_refusal option" where
  "checkStatements p [] = None"
| "checkStatements p (stmt # stmts) =
     (case classifyStatement stmt of (cls, readOnly) \<Rightarrow>
        if cls = '''' then checkStatements p stmts
        else if cls \<in> (\<lambda>d. toUpper (trimSpace d)) ` set (sp_Deny p) then Some (DeniedClass cls)
        else if sp_ReadOnly p \<and> \<not> readOnly then Some (NotReadOnly cls)
        else checkStatements p stmts)"

definition Check :: "StatementPolicy option \<Rightarrow> string \<Rightarrow> policy_refusal option" where
  "Check p sql = (case p of None \<Rightarrow> None | Some p' \<Rightarrow> checkStatements p' (splitStatements sql))"

section \<open>What the split keeps\<close>

lemma splitLoop_not_Nil: "splitLoop start sc \<noteq> []"
  by (induction start sc rule: splitLoop.induct) (subst splitLoop.simps, auto split: prod.split)

lemma joinWith_Cons: "ws \<noteq> [] \<Longrightarrow> joinWith sep (w # ws) = w @ sep @ joinWith sep ws"
  by (cases ws) auto

lemma drop_split_at:
  assumes "start \<le> pos" and "pos < length s" and "s ! pos = c"
  shows "take (pos - start) (drop start s) @ [c] @ drop (Suc pos) s = drop start s"
proof -
  have "drop pos s = c # drop (Suc pos) s" using assms by (metis Cons_nth_drop_Suc)
  moreover have "drop start s = take (pos - start) (drop start s) @ drop pos s"
    using assms(1) by (metis append_take_drop_id drop_drop le_add_diff_inverse2)
  ultimately show ?thesis by simp
qed

lemma joinWith_splitLoop:
  "start \<le> sc_i sc \<Longrightarrow> joinWith '';'' (splitLoop start sc) = drop start (sc_s sc)"
proof (induction start sc rule: splitLoop.induct)
  case (1 start sc)
  obtain kind pos sc1 where t: "scannerNext sc = (kind, pos, sc1)" by (cases "scannerNext sc")
  consider (stop) "kind = TokEOF"
    | (cut) "kind \<noteq> TokEOF" "kind = TokPunct \<and> sc_s sc ! pos = CHR '';'' \<and> sc_depth sc1 = 0"
    | (more) "kind \<noteq> TokEOF" "\<not> (kind = TokPunct \<and> sc_s sc ! pos = CHR '';'' \<and> sc_depth sc1 = 0)"
    by blast
  then show ?case
  proof cases
    case stop
    with t show ?thesis by (simp add: splitLoop.simps [of start sc])
  next
    case cut
    note b = scannerNext_bounds [OF t cut(1)]
    with 1(1) [OF t [symmetric] refl cut] have "joinWith '';'' (splitLoop (pos + 1) sc1) = drop (pos + 1) (sc_s sc)"
      by simp
    with cut t b 1(3) drop_split_at [of start pos "sc_s sc" "CHR '';''"] show ?thesis
      by (simp add: splitLoop.simps [of start sc] joinWith_Cons splitLoop_not_Nil)
  next
    case more
    note b = scannerNext_bounds [OF t more(1)]
    with more 1(2) [OF t [symmetric] refl more] 1(3) have "joinWith '';'' (splitLoop start sc1) = drop start (sc_s sc)"
      by simp
    with more t show ?thesis by (auto simp: splitLoop.simps [of start sc])
  qed
qed

text \<open>
  The split into statements loses nothing: joined by semicolons again, the statements are the
  text that was given.
\<close>

theorem splitStatements_join: "joinWith '';'' (splitStatements sql) = sql"
  by (simp add: splitStatements_def joinWith_splitLoop newSQLScanner_def)

section \<open>What an accepted text cannot contain\<close>

text \<open>The keyword a statement is classified by, with \<^verbatim>\<open>EXPLAIN\<close> removed, and the scanner after it; and
  all the words that follow a scanner position, at every depth.\<close>

function explained :: "sqlScanner \<Rightarrow> (string \<times> sqlScanner) option" where
  "explained sc =
     (case nextKeyword 0 sc of
        (None, _) \<Rightarrow> None
      | (Some w, sc') \<Rightarrow>
          if w = ''EXPLAIN'' then explained (skipExplainWords (skipParenGroup sc')) else Some (w, sc'))"
  by pat_completeness auto

termination
proof (relation "measure remaining", simp)
  fix sc w' sc' w
  assume "(w', sc') = nextKeyword 0 sc" and "w' = Some w"
  then have "remaining sc' < remaining sc" by (auto dest: nextKeyword_progress [OF sym])
  then show "(skipExplainWords (skipParenGroup sc'), sc) \<in> measure remaining"
    using skipExplainWords_remaining [of "skipParenGroup sc'"] skipParenGroup_remaining [of sc'] by simp
qed

declare explained.simps [simp del]

function scanWords :: "sqlScanner \<Rightarrow> string list" where
  "scanWords sc =
     (case scannerNext sc of (kind, pos, sc') \<Rightarrow>
        if kind = TokEOF then []
        else if kind = TokWord then sc_word sc' # scanWords sc' else scanWords sc')"
  by pat_completeness auto

termination
  by (relation "measure remaining") (auto dest: scannerNext_remaining [OF sym])

declare scanWords.simps [simp del]

lemma classifyFrom_explained:
  "classifyFrom sc =
     (case explained sc of
        None \<Rightarrow> ('''', False)
      | Some (w, sc') \<Rightarrow>
          if w = ''WITH'' then classifyWith '''' sc'
          else if w = ''COPY'' then classifyCopy sc'
          else (w, w \<in> set readOnlyClasses))"
proof (induction sc rule: classifyFrom.induct)
  case (1 sc)
  obtain k sc1 where k: "nextKeyword 0 sc = (k, sc1)" by (cases "nextKeyword 0 sc")
  show ?case
  proof (cases "k = Some ''EXPLAIN''")
    case True
    with 1 [OF k [symmetric] True refl] k show ?thesis
      by (simp add: classifyFrom.simps [of sc] explained.simps [of sc])
  next
    case False
    with k show ?thesis
      by (cases k) (simp_all add: classifyFrom.simps [of sc] explained.simps [of sc])
  qed
qed

lemma classifyWith_reads:
  "classifyWith m sc = (cls, True) \<Longrightarrow> set (scanWords sc) \<inter> set writeWords = {}"
proof (induction m sc rule: classifyWith.induct)
  case (1 m sc)
  obtain kind pos sc1 where t: "scannerNext sc = (kind, pos, sc1)" by (cases "scannerNext sc")
  consider (stop) "kind = TokEOF" | (other) "kind \<noteq> TokEOF" "kind \<noteq> TokWord"
    | (change) "kind = TokWord" "sc_word sc1 \<in> set writeWords"
    | (main) "kind = TokWord" "sc_word sc1 \<notin> set writeWords"
        "sc_word sc1 \<in> set mainWords \<and> sc_depth sc1 = 0 \<and> m = ''''"
    | (word) "kind = TokWord" "sc_word sc1 \<notin> set writeWords"
        "\<not> (sc_word sc1 \<in> set mainWords \<and> sc_depth sc1 = 0 \<and> m = '''')"
    by blast
  then show ?case
  proof cases
    case stop with t show ?thesis by (simp add: scanWords.simps [of sc])
  next
    case other
    with 1(1) [OF t [symmetric] refl other] 1(4) t show ?thesis
      by (simp add: classifyWith.simps [of m sc] scanWords.simps [of sc])
  next
    case change
    with 1(4) t show ?thesis by (simp add: classifyWith.simps [of m sc])
  next
    case main
    with 1(2) [OF t [symmetric] refl _ _ main(2,3)] 1(4) t show ?thesis
      by (simp add: classifyWith.simps [of _ sc] scanWords.simps [of sc])
  next
    case word
    with 1(3) [OF t [symmetric] refl _ _ word(2,3)] 1(4) t show ?thesis
      by (auto simp: classifyWith.simps [of m sc] scanWords.simps [of sc])
  qed
qed

lemma checkStatements_None:
  "checkStatements p stmts = None \<Longrightarrow> stmt \<in> set stmts \<Longrightarrow> classifyStatement stmt = (cls, ro) \<Longrightarrow> cls \<noteq> ''''
     \<Longrightarrow> cls \<notin> (\<lambda>d. toUpper (trimSpace d)) ` set (sp_Deny p) \<and> (sp_ReadOnly p \<longrightarrow> ro)"
  by (induction stmts) (auto split: prod.splits if_splits)

lemma scannerNext_word:
  assumes "scannerNext sc = (TokWord, pos, sc')"
  shows "sc_word sc' \<noteq> ''''"
  using assms
proof (cases rule: scannerNext_cases)
  case (token rest)
  with assms show ?thesis
    by (auto simp: scannerNext_def Let_def toUpper_def)
qed auto

lemma nextKeyword_nonempty: "nextKeyword depth sc = (Some w, sc') \<Longrightarrow> w \<noteq> ''''"
proof (induction depth sc rule: nextKeyword.induct)
  case (1 depth sc)
  obtain kind pos sc1 where t: "scannerNext sc = (kind, pos, sc1)" by (cases "scannerNext sc")
  with 1 scannerNext_word [of sc pos sc1] show ?case
    by (auto simp: nextKeyword.simps [of depth sc] split: if_splits)
qed

lemma explained_nonempty: "explained sc = Some (w, sc') \<Longrightarrow> w \<noteq> ''''"
proof (induction sc rule: explained.induct)
  case (1 sc)
  obtain k sc1 where k: "nextKeyword 0 sc = (k, sc1)" by (cases "nextKeyword 0 sc")
  with 1 nextKeyword_nonempty [of 0 sc w sc1] show ?case
    by (cases k) (auto simp: explained.simps [of sc] split: if_splits)
qed

lemma writeWords_nonempty: "[] \<notin> set writeWords" "[] \<notin> set mainWords"
  by (simp_all add: writeWords_def mainWords_def)

lemma classifyWith_nonempty: "fst (classifyWith m sc) \<noteq> ''''"
proof (induction m sc rule: classifyWith.induct)
  case (1 m sc)
  obtain kind pos sc1 where t: "scannerNext sc = (kind, pos, sc1)" by (cases "scannerNext sc")
  with 1 writeWords_nonempty show ?case
    by (auto simp: classifyWith.simps [of m sc])
qed

lemma classifyCopy_class: "fst (classifyCopy sc) = ''COPY''"
proof (induction sc rule: classifyCopy.induct)
  case (1 sc)
  obtain k sc1 where k: "nextKeyword 0 sc = (k, sc1)" by (cases "nextKeyword 0 sc")
  with 1 show ?case by (cases k) (auto simp: classifyCopy.simps [of sc])
qed


definition readOnlyPolicy :: StatementPolicy where
  "readOnlyPolicy = \<lparr>sp_ReadOnly = True, sp_Deny = []\<rparr>"


definition parenthesised :: string where
  "parenthesised = ''(with d as (delete from t returning 1) select 1)''"

definition copyDelete :: string where
  "copyDelete = ''copy (delete from t returning 1) to stdout''"

definition selectInto :: string where
  "selectInto = ''select * into t2 from t''"

definition escapeString :: string where
  "escapeString = ''select E'' @ [CHR 0x27, CHR 0x5C, CHR 0x27, CHR 0x27] @ ''; delete from t; --'' @ [CHR 0x27]"

lemma underblock_classes:
  "splitStatements parenthesised = [parenthesised]" "classifyStatement parenthesised = ('''', False)"
  "splitStatements copyDelete = [copyDelete]" "classifyStatement copyDelete = (''COPY'', True)"
  "splitStatements selectInto = [selectInto]" "classifyStatement selectInto = (''SELECT'', True)"
  "splitStatements escapeString = [escapeString]" "classifyStatement escapeString = (''SELECT'', True)"
  by code_simp+

text \<open>
  The guard also accepts writes, under every policy that does not deny \<^verbatim>\<open>SELECT\<close> and \<^verbatim>\<open>COPY\<close>: a statement
  in parentheses has no top-level keyword and is taken for an empty one, also when it deletes rows
  in a \<^verbatim>\<open>WITH\<close>; a \<^verbatim>\<open>COPY\<close> of a deleting query counts as an export; \<^verbatim>\<open>SELECT ... INTO\<close> creates a table; and
  after an escape string that ends in a backslash and two quotes the scanner believes itself inside
  the string, so that the statements behind it are not seen.
\<close>

theorem Check_underblocks:
  assumes "{''SELECT'', ''COPY''} \<inter> (\<lambda>d. toUpper (trimSpace d)) ` set (sp_Deny p) = {}"
  shows "Check (Some p) parenthesised = None \<and> Check (Some p) copyDelete = None
       \<and> Check (Some p) selectInto = None \<and> Check (Some p) escapeString = None"
  using assms by (simp add: Check_def underblock_classes)

theorem Check_underblocks_witness:
  "Check (Some readOnlyPolicy) parenthesised = None \<and> Check (Some readOnlyPolicy) escapeString = None"
  using Check_underblocks [of readOnlyPolicy] by (simp add: readOnlyPolicy_def)

end
