(* ===== verification/Audit_Chain.thy ===== *)
theory Audit_Chain
  imports Go_Prelude "HOL-Library.AList"
begin

text \<open>
  Tamper-evident audit logging, \<^verbatim>\<open>internal/audit/logger.go\<close>: events linked by an HMAC over a canonical
  form that contains the hash of the event before.

  The HMAC, the text of a time and the JSON text of the metadata are parameters (\<open>audit_ops\<close>); what is
  relied on is named in \<open>ops_ok\<close>: for one key different messages have different codes, different
  times have different texts, different metadata have different JSON texts, and none of the texts has
  a zero byte.
\<close>

section \<open>Events and their hashes\<close>

datatype ActorType = ActorTypeUser | ActorTypeSystem | ActorTypeAPI

datatype Outcome = OutcomeSuccess | OutcomeFailure | OutcomeDenied

text \<open>The source's types are strings; an unset field is the empty string.\<close>

fun actorText :: "ActorType \<Rightarrow> string" where
  "actorText ActorTypeUser = ''user''"
| "actorText ActorTypeSystem = ''system''"
| "actorText ActorTypeAPI = ''api''"

fun outcomeText :: "Outcome \<Rightarrow> string" where
  "outcomeText OutcomeSuccess = ''success''"
| "outcomeText OutcomeFailure = ''failure''"
| "outcomeText OutcomeDenied = ''denied''"

record 'm AuditEvent =
  ae_ID :: string
  ae_Timestamp :: int
  ae_TenantID :: string
  ae_ActorID :: string
  ae_ActorType :: string
  ae_Action :: string
  ae_ResourceType :: string
  ae_ResourceID :: string
  ae_Outcome :: string
  ae_IP :: string
  ae_UserAgent :: string
  ae_CorrelationID :: string
  ae_Metadata :: "(string \<times> 'm) list"
  ae_PreviousHash :: string
  ae_Hash :: string

record 'm audit_ops =
  ao_hmac :: "string \<Rightarrow> string \<Rightarrow> string"
  ao_time :: "int \<Rightarrow> string"
  ao_marshal :: "(string \<times> 'm) list \<Rightarrow> string option"

datatype audit_error =
    MarshalFailed
  | HashMismatchError string string string
  | ChainBreakError string string string string
  | EventFailed nat string audit_error

definition NewAuditEvent :: "string \<Rightarrow> int \<Rightarrow> string \<Rightarrow> 'm AuditEvent" where
  "NewAuditEvent uuid now action =
     \<lparr>ae_ID = uuid, ae_Timestamp = now, ae_TenantID = '''', ae_ActorID = '''', ae_ActorType = '''',
      ae_Action = action, ae_ResourceType = '''', ae_ResourceID = '''', ae_Outcome = '''', ae_IP = '''',
      ae_UserAgent = '''', ae_CorrelationID = '''', ae_Metadata = [], ae_PreviousHash = '''', ae_Hash = ''''\<rparr>"

definition WithActor :: "string \<Rightarrow> ActorType \<Rightarrow> 'm AuditEvent \<Rightarrow> 'm AuditEvent" where
  "WithActor actorID actorType e = e\<lparr>ae_ActorID := actorID, ae_ActorType := actorText actorType\<rparr>"

definition WithTenant :: "string \<Rightarrow> 'm AuditEvent \<Rightarrow> 'm AuditEvent" where
  "WithTenant tenantID e = e\<lparr>ae_TenantID := tenantID\<rparr>"

definition WithResource :: "string \<Rightarrow> string \<Rightarrow> 'm AuditEvent \<Rightarrow> 'm AuditEvent" where
  "WithResource resourceType resourceID e = e\<lparr>ae_ResourceType := resourceType, ae_ResourceID := resourceID\<rparr>"

definition WithOutcome :: "Outcome \<Rightarrow> 'm AuditEvent \<Rightarrow> 'm AuditEvent" where
  "WithOutcome outcome e = e\<lparr>ae_Outcome := outcomeText outcome\<rparr>"

definition WithRequestContext :: "string \<Rightarrow> string \<Rightarrow> string \<Rightarrow> 'm AuditEvent \<Rightarrow> 'm AuditEvent" where
  "WithRequestContext ip userAgent correlationID e =
     e\<lparr>ae_IP := ip, ae_UserAgent := userAgent, ae_CorrelationID := correlationID\<rparr>"

definition WithMetadata :: "string \<Rightarrow> 'm \<Rightarrow> 'm AuditEvent \<Rightarrow> 'm AuditEvent" where
  "WithMetadata key v e = e\<lparr>ae_Metadata := AList.update key v (ae_Metadata e)\<rparr>"

definition canonicalFields :: "'m audit_ops \<Rightarrow> 'm AuditEvent \<Rightarrow> string list" where
  "canonicalFields ops e =
     [ae_ID e, ao_time ops (ae_Timestamp e), ae_TenantID e, ae_ActorID e, ae_ActorType e, ae_Action e,
      ae_ResourceType e, ae_ResourceID e, ae_Outcome e, ae_IP e, ae_UserAgent e, ae_CorrelationID e,
      ae_PreviousHash e]"

definition canonicalBytes :: "'m audit_ops \<Rightarrow> 'm AuditEvent \<Rightarrow> string option" where
  "canonicalBytes ops e =
     (if ae_Metadata e = [] then Some (joinWith [CHR 0x00] (canonicalFields ops e))
      else (case ao_marshal ops (ae_Metadata e) of
              None \<Rightarrow> None
            | Some json \<Rightarrow> Some (joinWith [CHR 0x00] (canonicalFields ops e @ [json]))))"

definition ComputeHash :: "'m audit_ops \<Rightarrow> string \<Rightarrow> 'm AuditEvent \<Rightarrow> audit_error + string" where
  "ComputeHash ops secret e =
     (case canonicalBytes ops e of None \<Rightarrow> Inl MarshalFailed | Some d \<Rightarrow> Inr (ao_hmac ops secret d))"

definition VerifyHash :: "'m audit_ops \<Rightarrow> string \<Rightarrow> 'm AuditEvent \<Rightarrow> audit_error option" where
  "VerifyHash ops secret e =
     (case ComputeHash ops secret e of
        Inl err \<Rightarrow> Some err
      | Inr computed \<Rightarrow>
          if ae_Hash e \<noteq> computed then Some (HashMismatchError (ae_ID e) (ae_Hash e) computed) else None)"

text \<open>\<^verbatim>\<open>errors.As\<close> follows the wrapping.\<close>

fun IsTampered :: "audit_error \<Rightarrow> bool" where
  "IsTampered MarshalFailed = False"
| "IsTampered (HashMismatchError _ _ _) = True"
| "IsTampered (ChainBreakError _ _ _ _) = False"
| "IsTampered (EventFailed _ _ e) = IsTampered e"

fun IsChainBreak :: "audit_error \<Rightarrow> bool" where
  "IsChainBreak MarshalFailed = False"
| "IsChainBreak (HashMismatchError _ _ _) = False"
| "IsChainBreak (ChainBreakError _ _ _ _) = True"
| "IsChainBreak (EventFailed _ _ e) = IsChainBreak e"

section \<open>The logger\<close>

record Logger =
  lg_secret :: string
  lg_chainKey :: string

text \<open>An empty secret panics.\<close>

definition NewLogger :: "string \<Rightarrow> Logger option" where
  "NewLogger secret = (if secret = '''' then None else Some \<lparr>lg_secret = secret, lg_chainKey = ''default''\<rparr>)"

definition WithChainKey :: "string \<Rightarrow> Logger \<Rightarrow> Logger" where
  "WithChainKey chainKey l = \<lparr>lg_secret = lg_secret l, lg_chainKey = chainKey\<rparr>"

text \<open>The previous hash is set before the hash is computed, also when that fails.\<close>

definition PrepareForStorage ::
    "'m audit_ops \<Rightarrow> Logger \<Rightarrow> string \<Rightarrow> 'm AuditEvent \<Rightarrow> audit_error option \<times> 'm AuditEvent" where
  "PrepareForStorage ops l previousHash e =
     (let e1 = e\<lparr>ae_PreviousHash := previousHash\<rparr>
      in case ComputeHash ops (lg_secret l) e1 of
           Inl err \<Rightarrow> (Some err, e1)
         | Inr hash \<Rightarrow> (None, e1\<lparr>ae_Hash := hash\<rparr>))"

text \<open>The loop over the events; \<open>prev\<close> is the event before, if any, and \<open>i\<close> the index.\<close>

fun verifyFrom ::
    "'m audit_ops \<Rightarrow> Logger \<Rightarrow> nat \<Rightarrow> 'm AuditEvent option \<Rightarrow> 'm AuditEvent list \<Rightarrow> audit_error option" where
  "verifyFrom ops l i prev [] = None"
| "verifyFrom ops l i prev (e # es) =
     (case prev of
        Some pe \<Rightarrow>
          if ae_PreviousHash e \<noteq> ae_Hash pe
          then Some (ChainBreakError (ae_ID e) (ae_Hash pe) (ae_PreviousHash e) (ae_ID pe))
          else (case VerifyHash ops (lg_secret l) e of
                  Some err \<Rightarrow> Some (EventFailed i (ae_ID e) err)
                | None \<Rightarrow> verifyFrom ops l (i + 1) (Some e) es)
      | None \<Rightarrow>
          (case VerifyHash ops (lg_secret l) e of
             Some err \<Rightarrow> Some (EventFailed i (ae_ID e) err)
           | None \<Rightarrow> verifyFrom ops l (i + 1) (Some e) es))"

definition verifyEventChain :: "'m audit_ops \<Rightarrow> Logger \<Rightarrow> 'm AuditEvent list \<Rightarrow> audit_error option" where
  "verifyEventChain ops l events = verifyFrom ops l 0 None events"

definition ComputeChainKey :: "string \<Rightarrow> string \<Rightarrow> string" where
  "ComputeChainKey tenantID resourceType =
     (if tenantID \<noteq> '''' then ''tenant:'' @ tenantID
      else if resourceType \<noteq> '''' then ''resource:'' @ resourceType
      else ''default'')"

section \<open>The chain as a relation\<close>

fun linked :: "'m AuditEvent list \<Rightarrow> bool" where
  "linked (e # e' # es) \<longleftrightarrow> ae_PreviousHash e' = ae_Hash e \<and> linked (e' # es)"
| "linked _ \<longleftrightarrow> True"

lemma verifyFrom_None:
  "verifyFrom ops l i prev es = None \<longleftrightarrow>
     (\<forall>e \<in> set es. VerifyHash ops (lg_secret l) e = None)
     \<and> (case prev of None \<Rightarrow> linked es | Some pe \<Rightarrow> linked (pe # es))"
proof (induction es arbitrary: i prev)
  case (Cons e es)
  show ?case by (cases prev) (auto simp: Cons split: option.splits)
qed (simp split: option.split)

lemma verifyEventChain_None:
  "verifyEventChain ops l es = None \<longleftrightarrow> (\<forall>e \<in> set es. VerifyHash ops (lg_secret l) e = None) \<and> linked es"
  by (simp add: verifyEventChain_def verifyFrom_None)


lemma linked_append: "linked (xs @ ys) \<Longrightarrow> linked xs \<and> linked ys"
proof (induction xs)
  case (Cons x xs)
  then show ?case by (cases xs; cases ys) auto
qed simp

lemma linked_snoc: "linked (es @ [e, e']) \<longleftrightarrow> linked (es @ [e]) \<and> ae_PreviousHash e' = ae_Hash e"
proof (induction es)
  case (Cons x es)
  then show ?case by (cases es) auto
qed auto

section \<open>The canonical form\<close>

definition ops_ok :: "'m audit_ops \<Rightarrow> bool" where
  "ops_ok ops \<longleftrightarrow>
     (\<forall>k d d'. ao_hmac ops k d = ao_hmac ops k d' \<longrightarrow> d = d')
   \<and> (\<forall>t t'. ao_time ops t = ao_time ops t' \<longrightarrow> t = t')
   \<and> (\<forall>t. CHR 0x00 \<notin> set (ao_time ops t))
   \<and> (\<forall>m m' j. ao_marshal ops m = Some j \<and> ao_marshal ops m' = Some j \<longrightarrow> m = m')
   \<and> (\<forall>m j. ao_marshal ops m = Some j \<longrightarrow> CHR 0x00 \<notin> set j)"

text \<open>An event none of whose texts has a zero byte.\<close>

definition zeroFree :: "'m AuditEvent \<Rightarrow> bool" where
  "zeroFree e \<longleftrightarrow> CHR 0x00 \<notin> set (ae_ID e @ ae_TenantID e @ ae_ActorID e @ ae_ActorType e @ ae_Action e
     @ ae_ResourceType e @ ae_ResourceID e @ ae_Outcome e @ ae_IP e @ ae_UserAgent e @ ae_CorrelationID e
     @ ae_PreviousHash e)"

lemma splitOn_plain: "c \<notin> set w \<Longrightarrow> splitOn c w = [w]"
  by (induction w) auto

lemma splitOn_append: "c \<notin> set w \<Longrightarrow> splitOn c (w @ c # s) = w # splitOn c s"
  by (induction w) auto

lemma splitOn_joinWith:
  "ws \<noteq> [] \<Longrightarrow> (\<forall>w \<in> set ws. c \<notin> set w) \<Longrightarrow> splitOn c (joinWith [c] ws) = ws"
  by (induction "[c]" ws rule: joinWith.induct) (auto simp: splitOn_plain splitOn_append)

definition canonicalList :: "'m audit_ops \<Rightarrow> 'm AuditEvent \<Rightarrow> string list option" where
  "canonicalList ops e =
     (if ae_Metadata e = [] then Some (canonicalFields ops e)
      else map_option (\<lambda>json. canonicalFields ops e @ [json]) (ao_marshal ops (ae_Metadata e)))"

lemma canonicalBytes_list: "canonicalBytes ops e = map_option (joinWith [CHR 0x00]) (canonicalList ops e)"
  by (simp add: canonicalBytes_def canonicalList_def split: option.split)

lemma canonicalList_zeroFree:
  assumes "ops_ok ops" and "zeroFree e" and "canonicalList ops e = Some ws"
  shows "ws \<noteq> [] \<and> (\<forall>w \<in> set ws. CHR 0x00 \<notin> set w)"
  using assms by (auto simp: ops_ok_def zeroFree_def canonicalList_def canonicalFields_def split: if_splits)

lemma canonicalList_inject:
  assumes "ops_ok ops" and "canonicalList ops e = Some ws" and "canonicalList ops e' = Some ws"
    and "ae_Hash e = ae_Hash e'"
  shows "e = e'"
proof -
  have len: "length (canonicalFields ops x) = 13" for x by (simp add: canonicalFields_def)
  have "canonicalFields ops e = canonicalFields ops e' \<and> ae_Metadata e = ae_Metadata e'"
  proof (cases "ae_Metadata e = []"; cases "ae_Metadata e' = []")
    assume "ae_Metadata e = []" "ae_Metadata e' \<noteq> []"
    with assms(2,3) have "length ws = 13" "length ws = 14" using len [of e] len [of e']
      by (auto simp: canonicalList_def dest: arg_cong [of _ _ length])
    then show ?thesis by simp
  next
    assume "ae_Metadata e \<noteq> []" "ae_Metadata e' = []"
    with assms(2,3) have "length ws = 14" "length ws = 13" using len [of e] len [of e']
      by (auto simp: canonicalList_def dest: arg_cong [of _ _ length])
    then show ?thesis by simp
  next
    assume "ae_Metadata e \<noteq> []" "ae_Metadata e' \<noteq> []"
    with assms(1-3) show ?thesis by (auto simp: canonicalList_def ops_ok_def)
  qed (use assms(2,3) in \<open>simp add: canonicalList_def\<close>)
  with assms(1,4) show ?thesis by (simp add: canonicalFields_def ops_ok_def)
qed

lemma VerifyHash_inject:
  assumes "ops_ok ops" and "zeroFree e" and "zeroFree e'" and "VerifyHash ops k e = None"
    and "VerifyHash ops k e' = None" and "ae_Hash e = ae_Hash e'"
  shows "e = e'"
proof -
  obtain ws where ws: "canonicalList ops e = Some ws" "ae_Hash e = ao_hmac ops k (joinWith [CHR 0x00] ws)"
    using assms(4) by (auto simp: VerifyHash_def ComputeHash_def canonicalBytes_list split: option.splits sum.splits if_splits)
  obtain ws' where ws': "canonicalList ops e' = Some ws'" "ae_Hash e' = ao_hmac ops k (joinWith [CHR 0x00] ws')"
    using assms(5) by (auto simp: VerifyHash_def ComputeHash_def canonicalBytes_list split: option.splits sum.splits if_splits)
  have "joinWith [CHR 0x00] ws = joinWith [CHR 0x00] ws'"
    using assms(1,6) ws(2) ws'(2) by (simp add: ops_ok_def)
  then have "ws = ws'"
    using splitOn_joinWith [of ws "CHR 0x00"] splitOn_joinWith [of ws' "CHR 0x00"]
      canonicalList_zeroFree [OF assms(1,2) ws(1)] canonicalList_zeroFree [OF assms(1,3) ws'(1)] by metis
  with canonicalList_inject [OF assms(1) ws(1) _ assms(6)] ws' show ?thesis by simp
qed

section \<open>Properties\<close>

lemma verified_same_end:
  assumes "ops_ok ops" and "\<forall>e \<in> set (xs @ ys). zeroFree e"
    and "verifyEventChain ops l xs = None" and "verifyEventChain ops l ys = None"
    and "xs \<noteq> []" and "ys \<noteq> []" and "ae_Hash (last xs) = ae_Hash (last ys)"
  shows "suffix xs ys \<or> suffix ys xs"
  using assms(2-)
proof (induction xs arbitrary: ys rule: rev_induct)
  case (snoc e xs)
  obtain ys' e' where ys: "ys = ys' @ [e']" using snoc.prems(5) by (cases ys rule: rev_cases) auto
  have "e = e'"
    using VerifyHash_inject [OF assms(1), of e e' "lg_secret l"] snoc.prems by (simp add: ys verifyEventChain_None)
  show ?case
  proof (cases "xs = [] \<or> ys' = []")
    case False
    then obtain x xs2 y ys2 where split: "xs = xs2 @ [x]" "ys' = ys2 @ [y]"
      by (metis rev_exhaust)
    have "verifyEventChain ops l xs = None" "verifyEventChain ops l ys' = None" "ae_Hash x = ae_Hash y"
      using snoc.prems \<open>e = e'\<close>
      by (auto simp: ys split verifyEventChain_None linked_snoc dest: linked_append)
    with snoc.IH [of ys'] snoc.prems(1) False have "suffix xs ys' \<or> suffix ys' xs" by (simp add: ys split)
    then show ?thesis by (simp add: ys \<open>e = e'\<close>)
  qed (auto simp: ys \<open>e = e'\<close> suffix_def)
qed simp


text \<open>An injective code without zero bytes, in the place of the HMAC.\<close>

fun escapeZero :: "string \<Rightarrow> string" where
  "escapeZero [] = []"
| "escapeZero (c # cs) =
     (if c = CHR 0x00 then ''10'' else if c = CHR ''1'' then ''11'' else [c]) @ escapeZero cs"

lemma escapeZero_inject: "escapeZero d = escapeZero d' \<longleftrightarrow> d = d'"
proof (induction d arbitrary: d')
  case Nil
  show ?case by (cases d') auto
next
  case (Cons c cs)
  show ?case by (cases d') (auto simp: Cons)
qed

definition exampleOps :: "string audit_ops" where
  "exampleOps = \<lparr>ao_hmac = (\<lambda>k d. k @ escapeZero d), ao_time = (\<lambda>t. if t < 0 then CHR ''-'' # dec (nat (- t)) else dec (nat t)),
     ao_marshal = (\<lambda>m. None)\<rparr>"

lemma exampleOps_ok: "ops_ok exampleOps"
proof -
  have digits: "CHR ''-'' \<notin> set (dec n)" "CHR 0x00 \<notin> set (dec n)" for n
    using dec_digits [of "CHR ''-''" n] dec_digits [of "CHR 0x00" n] by (auto simp: isDigitAscii_def byteOf_def)
  then have "CHR ''-'' # dec m \<noteq> dec n" "dec n \<noteq> CHR ''-'' # dec m" for m n by (metis list.set_intros(1))+
  with digits show ?thesis
    by (auto simp: ops_ok_def exampleOps_def escapeZero_inject split: if_splits)
qed

definition exampleLogger :: Logger where
  "exampleLogger = \<lparr>lg_secret = ''k'', lg_chainKey = ''default''\<rparr>"

definition exampleEvent :: "string \<Rightarrow> string \<Rightarrow> string AuditEvent" where
  "exampleEvent i prev = snd (PrepareForStorage exampleOps exampleLogger prev (NewAuditEvent i 1 ''auth.login''))"

definition exampleLog :: "string AuditEvent list" where
  "exampleLog = (let e = exampleEvent ''1'' '''' in [e, exampleEvent ''2'' (ae_Hash e)])"


text \<open>
  An event prepared with the hash of the last event of a verified chain extends it to a verified
  chain, whatever the hash function; and its hash is checked: the stored hash is the computed one.
\<close>

theorem PrepareForStorage_extends:
  assumes "verifyEventChain ops l es = None"
    and "PrepareForStorage ops l (if es = [] then first else ae_Hash (last es)) e = (None, e')"
  shows "verifyEventChain ops l (es @ [e']) = None"
proof -
  have e': "VerifyHash ops (lg_secret l) e' = None"
    "ae_PreviousHash e' = (if es = [] then first else ae_Hash (last es))"
    using assms(2)
    by (auto simp: PrepareForStorage_def Let_def VerifyHash_def ComputeHash_def canonicalBytes_def
        canonicalFields_def split: sum.splits option.splits if_splits)
  show ?thesis
  proof (cases es rule: rev_cases)
    case (snoc xs x)
    with assms(1) e' show ?thesis by (simp add: verifyEventChain_None linked_snoc)
  qed (use e' in \<open>simp add: verifyEventChain_None\<close>)
qed

theorem PrepareForStorage_extends_witness:
  "verifyEventChain exampleOps exampleLogger (exampleLog @ [exampleEvent ''3'' (ae_Hash (last exampleLog))]) = None"
proof (rule PrepareForStorage_extends)
  show "verifyEventChain exampleOps exampleLogger exampleLog = None" by code_simp
  show "PrepareForStorage exampleOps exampleLogger
      (if exampleLog = [] then '''' else ae_Hash (last exampleLog)) (NewAuditEvent ''3'' 1 ''auth.login'') =
      (None, exampleEvent ''3'' (ae_Hash (last exampleLog)))" by code_simp
qed

text \<open>
  What verification does not show. Every contiguous part of a verified chain verifies, so that
  removing the oldest or the newest events is not noticed; and a zero byte inside a field may be moved
  to the field after it: events with different resources have the same hash under every secret.
\<close>

theorem audit_chain_undetected:
  assumes "verifyEventChain ops l (before @ es @ after) = None"
  shows "verifyEventChain ops l es = None
       \<and> ComputeHash ops k (WithResource (x @ [CHR 0x00] @ y) z e) = ComputeHash ops k (WithResource x (y @ [CHR 0x00] @ z) e)"
proof
  have "linked es" using assms linked_append [of before "es @ after"] linked_append [of es after]
    by (auto simp: verifyEventChain_None)
  with assms show "verifyEventChain ops l es = None" by (simp add: verifyEventChain_None)
  show "ComputeHash ops k (WithResource (x @ [CHR 0x00] @ y) z e) = ComputeHash ops k (WithResource x (y @ [CHR 0x00] @ z) e)"
    by (simp add: ComputeHash_def canonicalBytes_def canonicalFields_def WithResource_def split: option.split)
qed

theorem audit_chain_undetected_witness:
  "verifyEventChain exampleOps exampleLogger [] = None
   \<and> ComputeHash exampleOps ''k'' (WithResource [CHR 0x00] '''' (exampleEvent ''1'' ''''))
     = ComputeHash exampleOps ''k'' (WithResource '''' [CHR 0x00] (exampleEvent ''1'' ''''))"
proof -
  have "verifyEventChain exampleOps exampleLogger (exampleLog @ [] @ []) = None" by code_simp
  from audit_chain_undetected [OF this, of "''k''" "''''" "''''" "''''"] show ?thesis by simp
qed
end
