(* ===== verification/Append_Store.thy ===== *)
theory Append_Store
  imports Go_Prelude
begin

text \<open>
  The append-only stores of \<^verbatim>\<open>pkg/storage/append_only.go\<close>, in a file and in memory.

  The file system is a map from paths to contents. \<open>fails\<close> says which system calls fail. Reading the
  \<^verbatim>\<open>checksum\<close> field of a JSON entry is the parameter \<open>checksum\<close>. A panic is the error \<open>StorePanic\<close>.
\<close>

type_synonym file_system = "string \<rightharpoonup> string"

type_synonym failing = "string \<Rightarrow> bool"

datatype store_error =
    StorePanic | MkdirFailed | CreateFailed | OpenFailed | WriteFailed | SyncFailed | CloseFailed
  | ReadFailed | StatFailed

record FileAppendOnlyStore =
  fa_filePath :: string
  fa_lastHash :: string
  fa_loaded :: bool

section \<open>The file store\<close>

definition newline :: char where
  "newline = CHR 0x0A"

definition getFileName :: "string \<Rightarrow> string" where
  "getFileName path = rev (takeWhile (\<lambda>c. c \<noteq> CHR ''/'') (rev path))"

text \<open>The slice that gives the directory panics for a path without a slash.\<close>

definition initFile :: "failing \<Rightarrow> string \<Rightarrow> file_system \<Rightarrow> store_error + file_system" where
  "initFile fails path fs =
     (if fails ''stat'' \<or> fs path \<noteq> None then Inr fs
      else if length path < length (''/'' @ getFileName path) then Inl StorePanic
      else (let dir = take (length path - length (''/'' @ getFileName path)) path
            in if dir = '''' \<or> fails ''mkdir'' then Inl MkdirFailed
               else if fails ''create'' then Inl CreateFailed
               else Inr (fs(path \<mapsto> ''''))))"

text \<open>The loop of \<^verbatim>\<open>splitLines\<close>; \<open>cur\<close> is the current line, reversed.\<close>

fun splitLinesFrom :: "string \<Rightarrow> string \<Rightarrow> string list" where
  "splitLinesFrom cur [] = (if cur = [] then [] else [rev cur])"
| "splitLinesFrom cur (c # cs) =
     (if c = newline then rev cur # splitLinesFrom [] cs else splitLinesFrom (c # cur) cs)"

definition splitLines :: "string \<Rightarrow> string list" where
  "splitLines data = splitLinesFrom [] data"

definition readAllUnsafe :: "failing \<Rightarrow> string \<Rightarrow> file_system \<Rightarrow> store_error + string list" where
  "readAllUnsafe fails path fs =
     (if fails ''read'' then Inl ReadFailed
      else (case fs path of None \<Rightarrow> Inl ReadFailed | Some d \<Rightarrow> Inr (filter (\<lambda>line. line \<noteq> []) (splitLines d))))"

definition loadLastHash ::
    "(string \<Rightarrow> string option) \<Rightarrow> failing \<Rightarrow> file_system \<Rightarrow> FileAppendOnlyStore \<Rightarrow> FileAppendOnlyStore" where
  "loadLastHash checksum fails fs st =
     (if fa_loaded st then st
      else st\<lparr>fa_loaded := True,
              fa_lastHash := (case readAllUnsafe fails (fa_filePath st) fs of
                                Inl _ \<Rightarrow> ''''
                              | Inr es \<Rightarrow> if es = [] then ''''
                                         else (case checksum (last es) of None \<Rightarrow> '''' | Some h \<Rightarrow> h))\<rparr>)"

definition NewFileAppendOnlyStore ::
    "(string \<Rightarrow> string option) \<Rightarrow> failing \<Rightarrow> string \<Rightarrow> file_system
       \<Rightarrow> (store_error + FileAppendOnlyStore) \<times> file_system" where
  "NewFileAppendOnlyStore checksum fails path fs =
     (case initFile fails path fs of
        Inl e \<Rightarrow> (Inl e, fs)
      | Inr fs' \<Rightarrow> (Inr (loadLastHash checksum fails fs' \<lparr>fa_filePath = path, fa_lastHash = '''', fa_loaded = False\<rparr>), fs'))"

text \<open>The file is created when it is missing; a failure to sync or to close is reported although the
  data is written.\<close>

definition fileAppend ::
    "failing \<Rightarrow> FileAppendOnlyStore \<Rightarrow> string \<Rightarrow> file_system \<Rightarrow> store_error option \<times> file_system" where
  "fileAppend fails st data fs =
     (let path = fa_filePath st; old = (case fs path of None \<Rightarrow> '''' | Some d \<Rightarrow> d);
          written = fs(path \<mapsto> old @ data @ [newline])
      in if fails ''open'' then (Some OpenFailed, fs)
         else if fails ''write'' then (Some WriteFailed, fs(path \<mapsto> old))
         else if fails ''sync'' then (Some SyncFailed, written)
         else if fails ''close'' then (Some CloseFailed, written)
         else (None, written))"

definition ReadAll :: "failing \<Rightarrow> FileAppendOnlyStore \<Rightarrow> file_system \<Rightarrow> store_error + string list" where
  "ReadAll fails st fs = readAllUnsafe fails (fa_filePath st) fs"

definition GetLastHash ::
    "(string \<Rightarrow> string option) \<Rightarrow> failing \<Rightarrow> file_system \<Rightarrow> FileAppendOnlyStore \<Rightarrow> string \<times> FileAppendOnlyStore" where
  "GetLastHash checksum fails fs st = (let st' = loadLastHash checksum fails fs st in (fa_lastHash st', st'))"

definition GetSize :: "failing \<Rightarrow> FileAppendOnlyStore \<Rightarrow> file_system \<Rightarrow> store_error + nat" where
  "GetSize fails st fs =
     (if fails ''stat'' then Inl StatFailed
      else (case fs (fa_filePath st) of None \<Rightarrow> Inl StatFailed | Some d \<Rightarrow> Inr (length d)))"

definition GetEntryCount :: "failing \<Rightarrow> FileAppendOnlyStore \<Rightarrow> file_system \<Rightarrow> store_error + nat" where
  "GetEntryCount fails st fs =
     (case ReadAll fails st fs of Inl e \<Rightarrow> Inl e | Inr es \<Rightarrow> Inr (length es))"

fun writeEntries :: "failing \<Rightarrow> nat \<Rightarrow> string \<Rightarrow> string list \<Rightarrow> bool \<times> string" where
  "writeEntries fails i acc [] = (True, acc)"
| "writeEntries fails i acc (e # es) =
     (if fails (''write'' @ dec i) then (False, acc) else writeEntries fails (i + 1) (acc @ e @ [newline]) es)"

definition Compact ::
    "failing \<Rightarrow> FileAppendOnlyStore \<Rightarrow> string \<Rightarrow> file_system \<Rightarrow> store_error option \<times> file_system" where
  "Compact fails st newPath fs =
     (case readAllUnsafe fails (fa_filePath st) fs of
        Inl e \<Rightarrow> (Some e, fs)
      | Inr es \<Rightarrow>
          (if fails ''create'' then (Some CreateFailed, fs)
           else (case writeEntries fails 0 '''' es of
                   (False, d) \<Rightarrow> (Some WriteFailed, fs(newPath \<mapsto> d))
                 | (True, d) \<Rightarrow> (if fails ''sync'' then Some SyncFailed else None, fs(newPath \<mapsto> d)))))"

section \<open>The store in memory\<close>

record MemoryAppendOnlyStore =
  ma_entries :: "string list"
  ma_lastHash :: string

definition NewMemoryAppendOnlyStore :: MemoryAppendOnlyStore where
  "NewMemoryAppendOnlyStore = \<lparr>ma_entries = [], ma_lastHash = ''''\<rparr>"

definition memAppend :: "(string \<Rightarrow> string option) \<Rightarrow> string \<Rightarrow> MemoryAppendOnlyStore \<Rightarrow> MemoryAppendOnlyStore" where
  "memAppend checksum data m =
     m\<lparr>ma_entries := ma_entries m @ [data],
       ma_lastHash := (case checksum data of None \<Rightarrow> ma_lastHash m | Some h \<Rightarrow> h)\<rparr>"

definition memClear :: "MemoryAppendOnlyStore \<Rightarrow> MemoryAppendOnlyStore" where
  "memClear m = m\<lparr>ma_entries := [], ma_lastHash := ''''\<rparr>"

section \<open>Lines\<close>

definition noFault :: failing where
  "noFault = (\<lambda>_. False)"

text \<open>The entries a piece of data becomes when it is read back.\<close>

definition entriesOf :: "string \<Rightarrow> string list" where
  "entriesOf d = filter (\<lambda>line. line \<noteq> []) (splitLines d)"

definition complete :: "string \<Rightarrow> bool" where
  "complete s \<longleftrightarrow> s = '''' \<or> last s = newline"

lemma splitLinesFrom_append:
  "complete s \<Longrightarrow> s \<noteq> '''' \<Longrightarrow> splitLinesFrom cur (s @ t) = splitLinesFrom cur s @ splitLinesFrom [] t"
proof (induction s arbitrary: cur)
  case (Cons c s)
  show ?case
  proof (cases "s = ''''")
    case False
    with Cons have "complete s" by (simp add: complete_def)
    with Cons False show ?thesis by simp
  qed (use Cons.prems in \<open>simp add: complete_def\<close>)
qed simp

lemma entriesOf_append: "complete s \<Longrightarrow> entriesOf (s @ t) = entriesOf s @ entriesOf t"
  by (cases "s = ''''") (simp_all add: entriesOf_def splitLines_def splitLinesFrom_append)

lemma splitLinesFrom_newline: "splitLinesFrom cur (s @ [newline]) =
    (if complete s \<and> (s \<noteq> '''' \<or> cur = '''') then splitLinesFrom cur s @ [[]] else splitLinesFrom cur s)"
  by (induction s arbitrary: cur) (auto simp: complete_def)

lemma entriesOf_newline: "entriesOf (s @ [newline]) = entriesOf s"
  by (simp add: entriesOf_def splitLines_def splitLinesFrom_newline)

lemma splitLinesFrom_plain: "newline \<notin> set s \<Longrightarrow> splitLinesFrom cur s = (if cur = [] \<and> s = [] then [] else [rev cur @ s])"
  by (induction s arbitrary: cur) auto

lemma entriesOf_plain: "newline \<notin> set d \<Longrightarrow> d \<noteq> '''' \<Longrightarrow> entriesOf d = [d]"
  by (simp add: entriesOf_def splitLines_def splitLinesFrom_plain)

lemma complete_append [simp]: "complete (s @ d @ [newline])" "complete (s @ [newline])"
  by (simp_all add: complete_def)

lemma readAllUnsafe_noFault:
  "readAllUnsafe noFault path fs = (case fs path of None \<Rightarrow> Inl ReadFailed | Some d \<Rightarrow> Inr (entriesOf d))"
  by (simp add: readAllUnsafe_def noFault_def entriesOf_def split: option.split)

lemma fileAppend_noFault:
  "fileAppend noFault st d fs =
     (None, fs(fa_filePath st \<mapsto> (case fs (fa_filePath st) of None \<Rightarrow> '''' | Some old \<Rightarrow> old) @ d @ [newline]))"
  by (simp add: fileAppend_def noFault_def Let_def)


section \<open>Properties\<close>

definition appendAll :: "FileAppendOnlyStore \<Rightarrow> string list \<Rightarrow> file_system \<Rightarrow> file_system" where
  "appendAll st ds fs = fold (\<lambda>d fs. snd (fileAppend noFault st d fs)) ds fs"

lemma appendAll_content:
  assumes "fs (fa_filePath st) = Some old" and "complete old"
  shows "\<exists>new. appendAll st ds fs (fa_filePath st) = Some new \<and> complete new
           \<and> entriesOf new = entriesOf old @ concat (map entriesOf ds)"
  using assms
proof (induction ds arbitrary: fs old)
  case (Cons d ds)
  let ?fs = "snd (fileAppend noFault st d fs)"
  have "?fs (fa_filePath st) = Some (old @ d @ [newline])" using Cons.prems by (simp add: fileAppend_noFault)
  then show ?case
    using Cons.IH [of ?fs "old @ d @ [newline]"] Cons.prems(2) by (simp add: appendAll_def entriesOf_append entriesOf_newline)
qed (simp add: appendAll_def)

lemma concat_entriesOf_plain:
  "(\<And>d. d \<in> set ds \<Longrightarrow> newline \<notin> set d \<and> d \<noteq> '''') \<Longrightarrow> concat (map entriesOf ds) = ds"
  by (induction ds) (auto simp: entriesOf_plain)

lemma memAppend_entries: "ma_entries (fold (memAppend checksum) ds m) = ma_entries m @ ds"
  by (induction ds arbitrary: m) (simp_all add: memAppend_def)

lemma writeEntries_noFault:
  "writeEntries noFault i acc es = (True, acc @ concat (map (\<lambda>e. e @ [newline]) es))"
  by (induction es arbitrary: i acc) (simp_all add: noFault_def)

lemma entriesOf_written: "(\<And>e. e \<in> set es \<Longrightarrow> newline \<notin> set e \<and> e \<noteq> '''') \<Longrightarrow>
    entriesOf (concat (map (\<lambda>e. e @ [newline]) es)) = es"
proof (induction es)
  case (Cons e es)
  then have "entriesOf (concat (map (\<lambda>e. e @ [newline]) es)) = es" "entriesOf e = [e]"
    by (auto simp: entriesOf_plain)
  then show ?case
    using entriesOf_append [OF complete_append(2), of e "concat (map (\<lambda>e. e @ [newline]) es)"]
    by (simp add: entriesOf_newline)
qed (simp add: entriesOf_def splitLines_def)

lemma splitLinesFrom_lines: "newline \<notin> set cur \<Longrightarrow> line \<in> set (splitLinesFrom cur s) \<Longrightarrow> newline \<notin> set line"
proof (induction s arbitrary: cur)
  case (Cons c s)
  show ?case using Cons.prems Cons.IH [of "[]"] Cons.IH [of "c # cur"] by (auto split: if_splits)
qed (auto split: if_splits)

lemma entriesOf_entries: "e \<in> set (entriesOf d) \<Longrightarrow> newline \<notin> set e \<and> e \<noteq> ''''"
  using splitLinesFrom_lines [of "''''" e d] by (auto simp: entriesOf_def splitLines_def)

text \<open>
  Reading back. What is appended to a complete file comes back after what was there, cut at line
  breaks; entries without line breaks come back as they were given, in order, as from the store in
  memory; and a compacted copy reads as the original.
\<close>

theorem append_read_back:
  assumes "fs (fa_filePath st) = Some old" and "complete old"
  shows "ReadAll noFault st (appendAll st ds fs) = Inr (entriesOf old @ concat (map entriesOf ds))
       \<and> ((\<forall>d \<in> set ds. newline \<notin> set d \<and> d \<noteq> '''') \<and> old = '''' \<longrightarrow>
            ReadAll noFault st (appendAll st ds fs)
              = Inr (ma_entries (fold (memAppend checksum) ds NewMemoryAppendOnlyStore)))
       \<and> ReadAll noFault (st\<lparr>fa_filePath := new\<rparr>) (snd (Compact noFault st new (appendAll st ds fs)))
           = ReadAll noFault st (appendAll st ds fs)"
proof -
  obtain c where c: "appendAll st ds fs (fa_filePath st) = Some c"
    "entriesOf c = entriesOf old @ concat (map entriesOf ds)"
    using appendAll_content [where fs = fs and st = st and old = old and ds = ds] assms by blast
  have plain: "concat (map entriesOf ds) = ds" if "\<forall>d \<in> set ds. newline \<notin> set d \<and> d \<noteq> ''''"
    using concat_entriesOf_plain that by blast
  have read: "ReadAll noFault st (appendAll st ds fs) = Inr (entriesOf old @ concat (map entriesOf ds))"
    using c by (simp add: ReadAll_def readAllUnsafe_noFault)
  have "snd (Compact noFault st new (appendAll st ds fs)) =
      (appendAll st ds fs)(new \<mapsto> concat (map (\<lambda>e. e @ [newline]) (entriesOf c)))"
    using c(1) by (simp add: Compact_def readAllUnsafe_noFault writeEntries_noFault) (simp add: noFault_def)
  then have "ReadAll noFault (st\<lparr>fa_filePath := new\<rparr>) (snd (Compact noFault st new (appendAll st ds fs))) = Inr (entriesOf c)"
    using entriesOf_written [of "entriesOf c"] entriesOf_entries by (simp add: ReadAll_def readAllUnsafe_noFault)
  moreover have "entriesOf '''' = []" by (simp add: entriesOf_def splitLines_def)
  ultimately show ?thesis
    using read plain c(2) by (simp add: memAppend_entries NewMemoryAppendOnlyStore_def)
qed

definition exampleStore :: FileAppendOnlyStore where
  "exampleStore = \<lparr>fa_filePath = ''/var/a'', fa_lastHash = '''', fa_loaded = True\<rparr>"

theorem append_read_back_witness:
  "ReadAll noFault exampleStore (appendAll exampleStore [''x'', ''y''] [''/var/a'' \<mapsto> '''']) = Inr [''x'', ''y'']"
proof -
  have "[''/var/a'' \<mapsto> ''''] (fa_filePath exampleStore) = Some ''''" by (simp add: exampleStore_def)
  moreover have "complete ''''" by (simp add: complete_def)
  ultimately have "ReadAll noFault exampleStore (appendAll exampleStore [''x'', ''y''] [''/var/a'' \<mapsto> ''''])
      = Inr (entriesOf '''' @ concat (map entriesOf [''x'', ''y'']))"
    using append_read_back [where old = "''''"] by blast
  then show ?thesis by (simp add: entriesOf_def splitLines_def newline_def)
qed

text \<open>
  The last hash of a file store is the one found when the store was opened: appending never
  changes it, while the store in memory keeps it up to date. A writer that links each entry to the
  last hash links all of them to the same one.
\<close>

theorem file_last_hash_stale:
  assumes "NewFileAppendOnlyStore checksum fails path fs = (Inr st, fs')"
  shows "fst (GetLastHash checksum fails' (appendAll st ds fs') st) = fst (GetLastHash checksum fails fs' st)
       \<and> (checksum d = Some h \<longrightarrow> ma_lastHash (memAppend checksum d m) = h)"
  using assms
  by (auto simp: NewFileAppendOnlyStore_def GetLastHash_def loadLastHash_def Let_def memAppend_def
      split: sum.splits if_splits)

definition exampleChecksum :: "string \<Rightarrow> string option" where
  "exampleChecksum d = Some d"

theorem file_last_hash_stale_witness:
  "fst (GetLastHash exampleChecksum noFault (appendAll exampleStore [''x''] [''/var/a'' \<mapsto> '''']) exampleStore) = ''''
   \<and> ma_lastHash (memAppend exampleChecksum ''x'' NewMemoryAppendOnlyStore) = ''x''"
proof -
  have "NewFileAppendOnlyStore exampleChecksum noFault ''/var/a'' Map.empty = (Inr exampleStore, [''/var/a'' \<mapsto> ''''])"
    by (simp add: NewFileAppendOnlyStore_def initFile_def noFault_def getFileName_def loadLastHash_def
        readAllUnsafe_def splitLines_def exampleStore_def)
  from file_last_hash_stale [OF this, of noFault "[''x'']" "''x''" "''x''" NewMemoryAppendOnlyStore] show ?thesis
    by (simp add: exampleChecksum_def GetLastHash_def loadLastHash_def exampleStore_def)
qed
end
