(* ===== verification/Guac_Session.thy ===== *)
theory Guac_Session
  imports Go_Prelude
begin

text \<open>
  Brokered remote sessions: the connect handler of \<^verbatim>\<open>internal/access/guacamole.go\<close>, the approval of
  sessions in \<^verbatim>\<open>guacamole_sessions.go\<close> and the moderation of sessions (four eyes) in
  \<^verbatim>\<open>moderated_sessions.go\<close>.

  Tables are row lists; an insert that repeats a primary key fails. The request, moderation and
  session tables are under row-level security, so a statement of a request sees and changes only the
  rows of the caller's organisation; the table of connections is not. \<open>ge_fails\<close> says which
  statements and remote calls fail, \<open>ge_fresh\<close> gives the keys drawn, \<open>ge_vault\<close> is the vault's
  \<^verbatim>\<open>Use\<close> (\<open>None\<close> when no vault is configured) and \<open>ge_secretType\<close> the type column of a secret. The
  calls that change the Guacamole server are recorded. The URL handed to the browser is left out.
\<close>

section \<open>State\<close>

record GuacConnection =
  gc_ID :: string
  gc_RouteID :: string
  gc_ConnectionID :: string
  gc_SecretID :: string
  gc_InjectUsername :: string
  gc_RequireApproval :: bool
  gc_RecordSession :: bool
  gc_RequireModerator :: bool

record GuacSessionRequest =
  gr_ID :: string
  gr_OrgID :: string
  gr_ConnectionID :: string
  gr_RequesterID :: string
  gr_Reason :: string
  gr_Status :: string
  gr_ApproverID :: "string option"
  gr_DecidedAt :: "int option"
  gr_ExpiresAt :: "int option"
  gr_CreatedAt :: int

record ModerationSession =
  md_ID :: string
  md_OrgID :: string
  md_ConnectionID :: string
  md_RequesterID :: string
  md_Reason :: string
  md_Status :: string
  md_ModeratorID :: "string option"
  md_ActiveConnID :: "string option"
  md_JoinedAt :: "int option"
  md_EndedAt :: "int option"
  md_ExpiresAt :: "int option"
  md_CreatedAt :: int

record guac_state =
  gs_connections :: "GuacConnection list"
  gs_routes :: "(string \<times> string) list"
  gs_requests :: "GuacSessionRequest list"
  gs_moderation :: "ModerationSession list"
  gs_sessions :: "(string \<times> string \<times> string \<times> string option \<times> string) list"
  gs_pushed :: "(string \<times> (string \<times> string) list) list"
  gs_terminated :: "string list"
  gs_audit :: "(string \<times> string) list"

record guac_env =
  ge_now :: int
  ge_fails :: "string \<Rightarrow> bool"
  ge_fresh :: "string \<Rightarrow> string"
  ge_configured :: bool
  ge_vault :: "(string \<Rightarrow> string option) option"
  ge_secretType :: "string \<Rightarrow> string"
  ge_secretExists :: "string \<Rightarrow> string \<Rightarrow> bool"
  ge_recordingPath :: string
  ge_devBypass :: bool

record guac_caller =
  gl_org :: "string option"
  gl_user :: string
  gl_roles :: "string list"

datatype guac_response =
    GuacError nat string
  | GuacRequested string
  | GuacDecided string string
  | GuacRequests "GuacSessionRequest list"
  | GuacModeration string string bool
  | GuacModerationState string "string option"
  | GuacPending "ModerationSession list"
  | ModerationRequired
  | GuacConnected string string
  | GuacUpdated

definition moderationWaitWindow :: int where
  "moderationWaitWindow = 15 * minute"

definition auditGuac :: "string \<Rightarrow> string \<Rightarrow> guac_state \<Rightarrow> guac_state" where
  "auditGuac event i s = s\<lparr>gs_audit := gs_audit s @ [(event, i)]\<rparr>"

definition unexpired :: "int \<Rightarrow> int option \<Rightarrow> bool" where
  "unexpired now e \<longleftrightarrow> (case e of None \<Rightarrow> True | Some t \<Rightarrow> now < t)"

definition requireAdminRole :: "guac_env \<Rightarrow> guac_caller \<Rightarrow> bool" where
  "requireAdminRole env c \<longleftrightarrow>
     ge_devBypass env \<or> list_ex (\<lambda>r. r = ''admin'' \<or> r = ''super_admin'') (gl_roles c)"

section \<open>Approval before the session\<close>

definition connectionOfRoute :: "string \<Rightarrow> guac_state \<Rightarrow> GuacConnection option" where
  "connectionOfRoute routeID s = find (\<lambda>g. gc_RouteID g = routeID) (gs_connections s)"

definition connectionInOrg :: "string \<Rightarrow> string \<Rightarrow> guac_state \<Rightarrow> GuacConnection option" where
  "connectionInOrg routeID orgID s =
     (if (routeID, orgID) \<in> set (gs_routes s) then connectionOfRoute routeID s else None)"

definition handleRequestGuacSession ::
    "guac_env \<Rightarrow> guac_caller \<Rightarrow> string \<Rightarrow> string \<Rightarrow> guac_state \<Rightarrow> guac_response \<times> guac_state" where
  "handleRequestGuacSession env c routeID reason s =
     (case gl_org c of
        None \<Rightarrow> (GuacError 403 ''organization context required'', s)
      | Some orgID \<Rightarrow>
          (if ge_fails env ''lookupConnection'' then (GuacError 500 ''failed to look up connection'', s)
           else (case connectionInOrg routeID orgID s of
                   None \<Rightarrow> (GuacError 404 ''guacamole connection not found for this route'', s)
                 | Some g \<Rightarrow>
                     (let i = ge_fresh env ''request''
                      in if ge_fails env ''insertRequest'' \<or> gl_user c = '''' \<or> i \<in> gr_ID ` set (gs_requests s)
                         then (GuacError 500 ''failed to create session request'', s)
                         else (GuacRequested i, auditGuac ''guacamole.session_requested'' i
                                (s\<lparr>gs_requests := gs_requests s @
                                   [\<lparr>gr_ID = i, gr_OrgID = orgID, gr_ConnectionID = gc_ID g,
                                     gr_RequesterID = gl_user c, gr_Reason = reason, gr_Status = ''pending'',
                                     gr_ApproverID = None, gr_DecidedAt = None,
                                     gr_ExpiresAt = Some (ge_now env + hour), gr_CreatedAt = ge_now env\<rparr>]\<rparr>))))))"

definition decideGuacSession ::
    "guac_env \<Rightarrow> guac_caller \<Rightarrow> string \<Rightarrow> string \<Rightarrow> string \<Rightarrow> guac_state \<Rightarrow> guac_response \<times> guac_state" where
  "decideGuacSession env c requestID newStatus auditAction s =
     (case gl_org c of
        None \<Rightarrow> (GuacError 403 ''organization context required'', s)
      | Some orgID \<Rightarrow>
          (let P = (\<lambda>r. gr_ID r = requestID \<and> gr_OrgID r = orgID \<and> gr_Status r = ''pending'')
           in if ge_fails env ''decide'' \<or> gl_user c = '''' then (GuacError 500 ''failed to update session request'', s)
              else if countWhere P (gs_requests s) = 0
                then (GuacError 404 ''session request not found or not in pending state'', s)
              else (GuacDecided requestID newStatus, auditGuac auditAction requestID
                     (s\<lparr>gs_requests := updateWhere P
                          (\<lambda>r. r\<lparr>gr_Status := newStatus, gr_ApproverID := Some (gl_user c),
                                gr_DecidedAt := Some (ge_now env)\<rparr>) (gs_requests s)\<rparr>))))"

definition handleApproveGuacSession ::
    "guac_env \<Rightarrow> guac_caller \<Rightarrow> string \<Rightarrow> guac_state \<Rightarrow> guac_response \<times> guac_state" where
  "handleApproveGuacSession env c requestID s =
     decideGuacSession env c requestID ''approved'' ''guacamole.session_approved'' s"

definition handleDenyGuacSession ::
    "guac_env \<Rightarrow> guac_caller \<Rightarrow> string \<Rightarrow> guac_state \<Rightarrow> guac_response \<times> guac_state" where
  "handleDenyGuacSession env c requestID s =
     decideGuacSession env c requestID ''denied'' ''guacamole.session_denied'' s"

definition handleListGuacSessionRequests :: "guac_env \<Rightarrow> guac_caller \<Rightarrow> guac_state \<Rightarrow> guac_response" where
  "handleListGuacSessionRequests env c s =
     (case gl_org c of
        None \<Rightarrow> GuacError 403 ''organization context required''
      | Some orgID \<Rightarrow>
          if ge_fails env ''listRequests'' then GuacError 500 ''failed to list session requests''
          else GuacRequests (rev (sort_key gr_CreatedAt
                 (filter (\<lambda>r. gr_OrgID r = orgID \<and> gr_Status r = ''pending'') (gs_requests s)))))"

text \<open>The newest row of a selection.\<close>

fun newestRequest :: "GuacSessionRequest list \<Rightarrow> GuacSessionRequest option" where
  "newestRequest [] = None"
| "newestRequest (r # rs) =
     (case newestRequest rs of
        None \<Rightarrow> Some r
      | Some r' \<Rightarrow> if gr_CreatedAt r \<ge> gr_CreatedAt r' then Some r else Some r')"

definition consumable :: "int \<Rightarrow> string \<Rightarrow> string \<Rightarrow> string \<Rightarrow> GuacSessionRequest \<Rightarrow> bool" where
  "consumable now orgID connectionID userID r \<longleftrightarrow>
     gr_OrgID r = orgID \<and> gr_ConnectionID r = connectionID \<and> gr_RequesterID r = userID
     \<and> gr_Status r = ''approved'' \<and> unexpired now (gr_ExpiresAt r)"

text \<open>\<open>None\<close> is a failed statement.\<close>

definition checkAndConsumeApproval ::
    "guac_env \<Rightarrow> string \<Rightarrow> string \<Rightarrow> string \<Rightarrow> guac_state \<Rightarrow> bool option \<times> guac_state" where
  "checkAndConsumeApproval env orgID connectionID userID s =
     (if ge_fails env ''consume'' \<or> userID = '''' then (None, s)
      else (case newestRequest (filter (consumable (ge_now env) orgID connectionID userID) (gs_requests s)) of
              None \<Rightarrow> (Some False, s)
            | Some r \<Rightarrow> (Some True,
                s\<lparr>gs_requests := updateWhere (\<lambda>x. gr_ID x = gr_ID r \<and> gr_OrgID x = orgID)
                     (\<lambda>x. x\<lparr>gr_Status := ''consumed''\<rparr>) (gs_requests s)\<rparr>)))"

section \<open>Moderation\<close>

definition checkModerationActive :: "guac_env \<Rightarrow> string \<Rightarrow> string \<Rightarrow> string \<Rightarrow> guac_state \<Rightarrow> bool option" where
  "checkModerationActive env orgID connectionID requesterID s =
     (if ge_fails env ''moderationActive'' \<or> requesterID = '''' then None
      else Some (list_ex (\<lambda>m. md_OrgID m = orgID \<and> md_ConnectionID m = connectionID
                   \<and> md_RequesterID m = requesterID \<and> md_Status m = ''active'') (gs_moderation s)))"

fun newestModeration :: "ModerationSession list \<Rightarrow> ModerationSession option" where
  "newestModeration [] = None"
| "newestModeration (r # rs) =
     (case newestModeration rs of
        None \<Rightarrow> Some r
      | Some r' \<Rightarrow> if md_CreatedAt r \<ge> md_CreatedAt r' then Some r else Some r')"

text \<open>\<open>routeID\<close> is \<open>None\<close> when the body does not bind.\<close>

definition handleRequestModeration ::
    "guac_env \<Rightarrow> guac_caller \<Rightarrow> string option \<Rightarrow> string \<Rightarrow> guac_state \<Rightarrow> guac_response \<times> guac_state" where
  "handleRequestModeration env c routeID reason s =
     (case routeID of
        None \<Rightarrow> (GuacError 400 ''route_id is required'', s)
      | Some route \<Rightarrow>
          (case gl_org c of
             None \<Rightarrow> (GuacError 403 ''organization context required'', s)
           | Some orgID \<Rightarrow>
               if gl_user c = '''' then (GuacError 401 ''authentication required'', s)
               else if ge_fails env ''lookupConnection'' then (GuacError 404 ''no Guacamole connection for this route'', s)
               else (case connectionOfRoute route s of
                       None \<Rightarrow> (GuacError 404 ''no Guacamole connection for this route'', s)
                     | Some g \<Rightarrow>
                         if ge_fails env ''lookupModeration'' then (GuacError 500 ''failed to open moderation request'', s)
                         else (case newestModeration (filter (\<lambda>m. md_OrgID m = orgID \<and> md_ConnectionID m = gc_ID g
                                        \<and> md_RequesterID m = gl_user c \<and> (md_Status m = ''pending'' \<or> md_Status m = ''active'')
                                        \<and> unexpired (ge_now env) (md_ExpiresAt m)) (gs_moderation s)) of
                                 Some m \<Rightarrow> (GuacModeration (md_ID m) (md_Status m) True, s)
                               | None \<Rightarrow>
                                   (let i = ge_fresh env ''moderation''
                                    in if ge_fails env ''insertModeration'' \<or> i \<in> md_ID ` set (gs_moderation s)
                                       then (GuacError 500 ''failed to open moderation request'', s)
                                       else (GuacModeration i ''pending'' False,
                                             auditGuac ''pam.moderation.requested'' i
                                               (s\<lparr>gs_moderation := gs_moderation s @
                                                  [\<lparr>md_ID = i, md_OrgID = orgID, md_ConnectionID = gc_ID g,
                                                    md_RequesterID = gl_user c, md_Reason = reason,
                                                    md_Status = ''pending'', md_ModeratorID = None,
                                                    md_ActiveConnID = None, md_JoinedAt = None, md_EndedAt = None,
                                                    md_ExpiresAt = Some (ge_now env + moderationWaitWindow),
                                                    md_CreatedAt = ge_now env\<rparr>]\<rparr>)))))))"

definition handleGetModerationStatus ::
    "guac_env \<Rightarrow> guac_caller \<Rightarrow> string \<Rightarrow> guac_state \<Rightarrow> guac_response \<times> guac_state" where
  "handleGetModerationStatus env c i s =
     (case gl_org c of
        None \<Rightarrow> (GuacError 403 ''organization context required'', s)
      | Some orgID \<Rightarrow>
          if ge_fails env ''getModeration'' then (GuacError 500 ''failed to load moderation session'', s)
          else (case find (\<lambda>m. md_ID m = i \<and> md_OrgID m = orgID) (gs_moderation s) of
                  None \<Rightarrow> (GuacError 404 ''moderation session not found'', s)
                | Some m \<Rightarrow>
                    if md_Status m = ''pending'' \<and> (case md_ExpiresAt m of None \<Rightarrow> False | Some t \<Rightarrow> t < ge_now env)
                    then (GuacModerationState ''expired'' (md_ModeratorID m),
                          if ge_fails env ''expireModeration'' then s
                          else s\<lparr>gs_moderation := updateWhere (\<lambda>x. md_ID x = i \<and> md_OrgID x = orgID \<and> md_Status x = ''pending'')
                                  (\<lambda>x. x\<lparr>md_Status := ''expired'', md_EndedAt := Some (ge_now env)\<rparr>) (gs_moderation s)\<rparr>)
                    else (GuacModerationState (md_Status m) (md_ModeratorID m), s)))"

definition handleListPendingModeration :: "guac_env \<Rightarrow> guac_caller \<Rightarrow> guac_state \<Rightarrow> guac_response" where
  "handleListPendingModeration env c s =
     (case gl_org c of
        None \<Rightarrow> GuacError 403 ''organization context required''
      | Some orgID \<Rightarrow>
          if ge_fails env ''listModeration'' then GuacError 500 ''failed to list pending moderation''
          else GuacPending (sort_key md_CreatedAt (filter (\<lambda>m. md_OrgID m = orgID \<and> md_Status m = ''pending''
                 \<and> unexpired (ge_now env) (md_ExpiresAt m)) (gs_moderation s))))"

definition joinable :: "int \<Rightarrow> string \<Rightarrow> string \<Rightarrow> string \<Rightarrow> ModerationSession \<Rightarrow> bool" where
  "joinable now orgID i moderatorID m \<longleftrightarrow>
     md_ID m = i \<and> md_OrgID m = orgID \<and> md_Status m = ''pending'' \<and> unexpired now (md_ExpiresAt m)
     \<and> md_RequesterID m \<noteq> moderatorID"

definition handleJoinModeration ::
    "guac_env \<Rightarrow> guac_caller \<Rightarrow> string \<Rightarrow> guac_state \<Rightarrow> guac_response \<times> guac_state" where
  "handleJoinModeration env c i s =
     (case gl_org c of
        None \<Rightarrow> (GuacError 403 ''organization context required'', s)
      | Some orgID \<Rightarrow>
          if gl_user c = '''' then (GuacError 401 ''authentication required'', s)
          else if ge_fails env ''join'' then (GuacError 500 ''failed to join moderation'', s)
          else if countWhere (joinable (ge_now env) orgID i (gl_user c)) (gs_moderation s) = 0
            then (GuacError 409 ''request is not pending, already claimed, expired, or you are the requester'', s)
          else (GuacModerationState ''active'' (Some (gl_user c)), auditGuac ''pam.moderation.joined'' i
                 (s\<lparr>gs_moderation := updateWhere (joinable (ge_now env) orgID i (gl_user c))
                      (\<lambda>m. m\<lparr>md_Status := ''active'', md_ModeratorID := Some (gl_user c),
                            md_JoinedAt := Some (ge_now env)\<rparr>) (gs_moderation s)\<rparr>)))"

definition handleEndModeration ::
    "guac_env \<Rightarrow> guac_caller \<Rightarrow> string \<Rightarrow> guac_state \<Rightarrow> guac_response \<times> guac_state" where
  "handleEndModeration env c i s =
     (case gl_org c of
        None \<Rightarrow> (GuacError 403 ''organization context required'', s)
      | Some orgID \<Rightarrow>
          (let P = (\<lambda>m. md_ID m = i \<and> md_OrgID m = orgID \<and> (md_Status m = ''pending'' \<or> md_Status m = ''active''))
           in if ge_fails env ''endModeration'' then (GuacError 500 ''failed to end moderation'', s)
              else (case find P (gs_moderation s) of
                      None \<Rightarrow> (GuacError 409 ''moderation session is not active'', s)
                    | Some m \<Rightarrow>
                        (let s1 = s\<lparr>gs_moderation := updateWhere P
                                     (\<lambda>x. x\<lparr>md_Status := ''ended'', md_EndedAt := Some (ge_now env)\<rparr>) (gs_moderation s)\<rparr>;
                             s2 = (case md_ActiveConnID m of
                                     None \<Rightarrow> s1
                                   | Some a \<Rightarrow> if a = '''' \<or> \<not> ge_configured env \<or> ge_fails env ''terminate'' then s1
                                               else s1\<lparr>gs_terminated := gs_terminated s1 @ [a]\<rparr>)
                         in (GuacModerationState ''ended'' (md_ModeratorID m), auditGuac ''pam.moderation.ended'' i s2)))))"

section \<open>Connecting\<close>

definition buildInjectedParams ::
    "string \<Rightarrow> string \<Rightarrow> string \<Rightarrow> bool \<Rightarrow> string \<Rightarrow> string \<Rightarrow> (string \<times> string) list" where
  "buildInjectedParams secretType injectUsername cred record_on recordingPath recordingName =
     (if cred \<noteq> '''' then
        (if injectUsername \<noteq> '''' then [(''username'', injectUsername)] else []) @
        [(if secretType = ''ssh_key'' then ''private-key'' else ''password'', cred)]
      else []) @
     (if record_on then [(''recording-path'', recordingPath), (''recording-name'', recordingName),
                      (''recording-include-keys'', ''true'')] else [])"

definition recordGuacSession ::
    "guac_env \<Rightarrow> string \<Rightarrow> string \<Rightarrow> string \<Rightarrow> string \<Rightarrow> guac_state \<Rightarrow> guac_state" where
  "recordGuacSession env orgID connectionID userID recordingPath s =
     (if ge_fails env ''insertSession'' then s
      else s\<lparr>gs_sessions := gs_sessions s @
             [(ge_fresh env ''session'', orgID, connectionID, if userID = '''' then None else Some userID, recordingPath)]\<rparr>)"

text \<open>The two gates: \<open>None\<close> lets the session through.\<close>

definition connectGates ::
    "guac_env \<Rightarrow> guac_caller \<Rightarrow> string \<Rightarrow> GuacConnection \<Rightarrow> guac_state \<Rightarrow> guac_response option \<times> guac_state" where
  "connectGates env c orgID g s =
     (let (approval, s1) = (if gc_RequireApproval g then checkAndConsumeApproval env orgID (gc_ID g) (gl_user c) s
                            else (Some True, s))
      in if approval \<noteq> Some True then (Some (GuacError 403 ''session requires approval''), s1)
         else if gc_RequireModerator g then
           (case checkModerationActive env orgID (gc_ID g) (gl_user c) s1 of
              None \<Rightarrow> (Some (GuacError 403 ''session requires an active moderator''), s1)
            | Some False \<Rightarrow> (Some ModerationRequired, s1)
            | Some True \<Rightarrow> (None, s1))
         else (None, s1))"

text \<open>The credential that is injected: \<open>None\<close> when the vault refuses it.\<close>

definition connectCredential :: "guac_env \<Rightarrow> GuacConnection \<Rightarrow> (string \<times> string) option" where
  "connectCredential env g =
     (case ge_vault env of
        None \<Rightarrow> Some ('''', '''')
      | Some use \<Rightarrow>
          if gc_SecretID g = '''' then Some ('''', '''')
          else (case use (gc_SecretID g) of
                  None \<Rightarrow> None
                | Some cred \<Rightarrow> Some (cred, if ge_fails env ''secretType'' then '''' else ge_secretType env (gc_SecretID g))))"

definition recordingName :: "guac_env \<Rightarrow> GuacConnection \<Rightarrow> string" where
  "recordingName env g = gc_ConnectionID g @ ''-'' @ dec (nat (ge_now env div 1000000))"

definition connectSession ::
    "guac_env \<Rightarrow> guac_caller \<Rightarrow> string \<Rightarrow> string \<Rightarrow> GuacConnection \<Rightarrow> guac_state \<Rightarrow> guac_response \<times> guac_state" where
  "connectSession env c orgID routeID g s =
     (case connectCredential env g of
        None \<Rightarrow> (GuacError 403 ''credential unavailable'', s)
      | Some (cred, secretType) \<Rightarrow>
          (let params = buildInjectedParams secretType (gc_InjectUsername g) cred (gc_RecordSession g)
                          (ge_recordingPath env) (recordingName env g);
               s1 = (if gc_SecretID g \<noteq> '''' \<and> ge_vault env \<noteq> None
                     then auditGuac ''guacamole_credential_injected'' routeID s else s);
               s2 = (if gc_RecordSession g
                     then recordGuacSession env orgID (gc_ID g) (gl_user c)
                            (ge_recordingPath env @ ''/'' @ recordingName env g) s1 else s1)
           in if params = [] then (GuacConnected (gc_ConnectionID g) routeID, s2)
              else if ge_fails env ''updateConnection'' then (GuacError 500 ''prepare session'', s2)
              else (GuacConnected (gc_ConnectionID g) routeID,
                    s2\<lparr>gs_pushed := gs_pushed s2 @ [(gc_ConnectionID g, params)]\<rparr>)))"

definition handleGuacamoleConnect ::
    "guac_env \<Rightarrow> guac_caller \<Rightarrow> string \<Rightarrow> guac_state \<Rightarrow> guac_response \<times> guac_state" where
  "handleGuacamoleConnect env c routeID s =
     (if \<not> ge_configured env then (GuacError 503 ''Guacamole is not configured'', s)
      else (case gl_org c of
              None \<Rightarrow> (GuacError 403 ''organization context required'', s)
            | Some orgID \<Rightarrow>
                if ge_fails env ''loadConnection'' then (GuacError 404 ''no Guacamole connection found for this route'', s)
                else (case connectionOfRoute routeID s of
                        None \<Rightarrow> (GuacError 404 ''no Guacamole connection found for this route'', s)
                      | Some g \<Rightarrow>
                          (case connectGates env c orgID g s of
                             (Some refusal, s1) \<Rightarrow> (refusal, s1)
                           | (None, s1) \<Rightarrow> connectSession env c orgID routeID g s1))))"

definition handleSetGuacCredential ::
    "guac_env \<Rightarrow> guac_caller \<Rightarrow> string \<Rightarrow> (string \<times> string \<times> bool \<times> bool) option \<Rightarrow> guac_state
       \<Rightarrow> guac_response \<times> guac_state" where
  "handleSetGuacCredential env c routeID body s =
     (case body of
        None \<Rightarrow> (GuacError 400 ''invalid body'', s)
      | Some (secretID, injectUsername, requireApproval, recordSession) \<Rightarrow>
          (case gl_org c of
             None \<Rightarrow> (GuacError 403 ''organization context required'', s)
           | Some orgID \<Rightarrow>
               if ge_fails env ''lookupRoute'' then (GuacError 500 ''failed to look up connection'', s)
               else if connectionInOrg routeID orgID s = None
                 then (GuacError 404 ''guacamole connection not found for this route'', s)
               else if secretID \<noteq> '''' \<and> ge_fails env ''lookupSecret'' then (GuacError 500 ''failed to validate vault secret'', s)
               else if secretID \<noteq> '''' \<and> \<not> ge_secretExists env orgID secretID then (GuacError 400 ''vault secret not found'', s)
               else if ge_fails env ''updateCredential'' then (GuacError 500 ''failed to update connection credential'', s)
               else (GuacUpdated, auditGuac ''guacamole_credential_set'' routeID
                      (s\<lparr>gs_connections := updateWhere (\<lambda>g. gc_RouteID g = routeID)
                           (\<lambda>g. g\<lparr>gc_SecretID := secretID, gc_InjectUsername := injectUsername,
                                 gc_RequireApproval := requireApproval, gc_RecordSession := recordSession\<rparr>)
                           (gs_connections s)\<rparr>))))"


section \<open>The system of handlers\<close>

datatype guac_op =
    OpRequest guac_env guac_caller string string
  | OpDecide guac_env guac_caller string bool
  | OpModerate guac_env guac_caller "string option" string
  | OpStatus guac_env guac_caller string
  | OpJoin guac_env guac_caller string
  | OpEnd guac_env guac_caller string
  | OpConnect guac_env guac_caller string
  | OpCredential guac_env guac_caller string "(string \<times> string \<times> bool \<times> bool) option"
  | OpProvision "GuacConnection list" "(string \<times> string) list"

text \<open>Deciding, joining and setting credentials are behind the admin role; connections and routes
  are provisioned elsewhere, in any way.\<close>

fun guacRun :: "guac_op \<Rightarrow> guac_state \<Rightarrow> guac_state" where
  "guacRun (OpRequest env c route reason) s = snd (handleRequestGuacSession env c route reason s)"
| "guacRun (OpDecide env c i approve) s =
     (if \<not> requireAdminRole env c then s
      else if approve then snd (handleApproveGuacSession env c i s) else snd (handleDenyGuacSession env c i s))"
| "guacRun (OpModerate env c route reason) s = snd (handleRequestModeration env c route reason s)"
| "guacRun (OpStatus env c i) s = snd (handleGetModerationStatus env c i s)"
| "guacRun (OpJoin env c i) s = (if requireAdminRole env c then snd (handleJoinModeration env c i s) else s)"
| "guacRun (OpEnd env c i) s = snd (handleEndModeration env c i s)"
| "guacRun (OpConnect env c route) s = snd (handleGuacamoleConnect env c route s)"
| "guacRun (OpCredential env c route body) s =
     (if requireAdminRole env c then snd (handleSetGuacCredential env c route body s) else s)"
| "guacRun (OpProvision conns routes) s = s\<lparr>gs_connections := conns, gs_routes := routes\<rparr>"

definition guac_init :: "guac_state \<Rightarrow> bool" where
  "guac_init s \<longleftrightarrow> gs_requests s = [] \<and> gs_moderation s = [] \<and> gs_terminated s = []"

inductive guac_step :: "guac_state \<Rightarrow> guac_state \<Rightarrow> bool" where
  guac_step: "guac_step s (guacRun op s)"

inductive_cases guac_stepE: "guac_step s t"

definition moderationOK :: "ModerationSession \<Rightarrow> bool" where
  "moderationOK m \<longleftrightarrow> md_Status m \<in> {''pending'', ''active'', ''ended'', ''expired''} \<and> md_ActiveConnID m = None
     \<and> (md_Status m = ''active'' \<longrightarrow> (\<exists>z. md_ModeratorID m = Some z \<and> z \<noteq> md_RequesterID m))"

definition requestOK :: "GuacSessionRequest \<Rightarrow> bool" where
  "requestOK r \<longleftrightarrow> (gr_Status r = ''approved'' \<longrightarrow> gr_ApproverID r \<noteq> None)"

definition guac_inv :: "guac_state \<Rightarrow> bool" where
  "guac_inv s \<longleftrightarrow> distinct (map gr_ID (gs_requests s)) \<and> distinct (map md_ID (gs_moderation s))
     \<and> (\<forall>m \<in> set (gs_moderation s). moderationOK m) \<and> (\<forall>r \<in> set (gs_requests s). requestOK r)
     \<and> gs_terminated s = []"

lemma auditGuac_inv [simp]: "guac_inv (auditGuac ev i s) = guac_inv s"
  by (simp add: guac_inv_def auditGuac_def)

lemma guac_inv_moderation:
  assumes "guac_inv s" and "\<And>m. md_ID (f m) = md_ID m" and "\<And>m. P m \<Longrightarrow> moderationOK m \<Longrightarrow> moderationOK (f m)"
  shows "guac_inv (s\<lparr>gs_moderation := updateWhere P f (gs_moderation s)\<rparr>)"
  using assms by (auto simp: guac_inv_def map_updateWhere_key set_updateWhere)

lemma guac_inv_requests:
  assumes "guac_inv s" and "\<And>r. gr_ID (f r) = gr_ID r" and "\<And>r. P r \<Longrightarrow> requestOK (f r)"
  shows "guac_inv (s\<lparr>gs_requests := updateWhere P f (gs_requests s)\<rparr>)"
  using assms by (auto simp: guac_inv_def map_updateWhere_key set_updateWhere)

lemma guac_inv_decide:
  "guac_inv s \<Longrightarrow> guac_inv (snd (decideGuacSession env c i st ev s))"
  by (auto simp: decideGuacSession_def Let_def requestOK_def intro!: guac_inv_requests split: option.split)

lemma guac_inv_consume:
  "guac_inv s \<Longrightarrow> guac_inv (snd (checkAndConsumeApproval env orgID g u s))"
  by (auto simp: checkAndConsumeApproval_def requestOK_def intro!: guac_inv_requests split: option.split)

lemma guac_inv_gates: "guac_inv s \<Longrightarrow> guac_inv (snd (connectGates env c orgID g s))"
  using guac_inv_consume [of s env orgID "gc_ID g" "gl_user c"]
  by (auto simp: connectGates_def split: prod.split option.split bool.split)

lemma guac_inv_session: "guac_inv s \<Longrightarrow> guac_inv (snd (connectSession env c orgID route g s))"
  by (auto simp: connectSession_def Let_def recordGuacSession_def auditGuac_def guac_inv_def split: option.split)

lemma guac_inv_connect: "guac_inv s \<Longrightarrow> guac_inv (snd (handleGuacamoleConnect env c route s))"
  using guac_inv_gates guac_inv_session
  by (auto simp: handleGuacamoleConnect_def split: option.split prod.split) (metis snd_conv)+

lemma guac_inv_end: "guac_inv s \<Longrightarrow> guac_inv (snd (handleEndModeration env c i s))"
proof -
  assume inv: "guac_inv s"
  have "md_ActiveConnID m = None" if "find P (gs_moderation s) = Some m" for P m
    using inv find_Some_mem [OF that] by (simp add: guac_inv_def moderationOK_def)
  with inv show ?thesis
    by (auto simp: handleEndModeration_def Let_def moderationOK_def intro!: guac_inv_moderation split: option.split)
qed

lemma guac_inv_run: "guac_inv s \<Longrightarrow> guac_inv (guacRun op s)"
proof (induction op s rule: guacRun.induct)
  case (1 env c route reason s)
  then show ?case
    by (auto simp: handleRequestGuacSession_def Let_def guac_inv_def requestOK_def auditGuac_def split: option.split)
next
  case (3 env c route reason s)
  then show ?case
    by (auto simp: handleRequestModeration_def Let_def guac_inv_def moderationOK_def auditGuac_def split: option.split)
next
  case (4 env c i s)
  then show ?case
    by (auto simp: handleGetModerationStatus_def moderationOK_def intro!: guac_inv_moderation split: option.split)
next
  case (5 env c i s)
  then show ?case
    by (auto simp: handleJoinModeration_def moderationOK_def joinable_def intro!: guac_inv_moderation split: option.split)
next
  case (8 env c route body s)
  then show ?case
    by (auto simp: handleSetGuacCredential_def guac_inv_def auditGuac_def split: option.split)
qed (auto simp: handleApproveGuacSession_def handleDenyGuacSession_def guac_inv_decide guac_inv_connect guac_inv_end
    guac_inv_def [of "_\<lparr>gs_connections := _, gs_routes := _\<rparr>"] simp flip: guac_inv_def)

interpretation guac: invariant_system guac_init guac_step guac_inv
proof unfold_locales
  show "guac_init s \<Longrightarrow> guac_inv s" for s by (simp add: guac_init_def guac_inv_def)
  show "guac_inv s \<Longrightarrow> guac_step s t \<Longrightarrow> guac_inv t" for s t using guac_inv_run by (auto elim: guac_stepE)
qed

section \<open>Properties\<close>

lemma connect_success:
  assumes "handleGuacamoleConnect env c route s = (GuacConnected conn r, s')"
  obtains orgID g s1 where "gl_org c = Some orgID" "connectionOfRoute route s = Some g"
    "connectGates env c orgID g s = (None, s1)" "connectSession env c orgID route g s1 = (GuacConnected conn r, s')"
proof -
  obtain orgID g where g: "gl_org c = Some orgID" "connectionOfRoute route s = Some g"
    using assms by (auto simp: handleGuacamoleConnect_def split: if_splits option.splits)
  obtain ref s1 where gates: "connectGates env c orgID g s = (ref, s1)" by (cases "connectGates env c orgID g s")
  have "ref \<noteq> Some (GuacConnected conn r)"
    using gates by (auto simp: connectGates_def split: prod.splits if_splits option.splits bool.splits)
  with assms g gates have "ref = None" by (cases ref) (auto simp: handleGuacamoleConnect_def split: if_splits)
  with assms g gates show thesis by (intro that) (auto simp: handleGuacamoleConnect_def split: if_splits)
qed

lemma consume_moderation: "gs_moderation (snd (checkAndConsumeApproval env orgID g u s)) = gs_moderation s"
  by (simp add: checkAndConsumeApproval_def split: option.split)

lemma gates_moderated:
  assumes "connectGates env c orgID g s = (None, s1)" and "gc_RequireModerator g"
  obtains m where "m \<in> set (gs_moderation s)" "md_OrgID m = orgID" "md_ConnectionID m = gc_ID g"
    "md_RequesterID m = gl_user c" "md_Status m = ''active''"
proof -
  have "checkModerationActive env orgID (gc_ID g) (gl_user c) s1 = Some True"
    using assms by (auto simp: connectGates_def split: prod.splits if_splits option.splits bool.splits)
  moreover have "gs_moderation s1 = gs_moderation s"
    using assms(1) consume_moderation [of env orgID "gc_ID g" "gl_user c" s]
    by (auto simp: connectGates_def split: prod.splits if_splits option.splits bool.splits)
  ultimately show thesis using that by (auto simp: checkModerationActive_def list_ex_iff split: if_splits)
qed

text \<open>
  C21: four eyes. In every state the handlers can reach, a session on a connection that requires a
  moderator starts only when somebody else has joined as the moderator of this caller's request for
  this connection, in the caller's organisation.
\<close>

theorem moderated_connect_four_eyes:
  assumes "reach guac_init guac_step s"
    and "handleGuacamoleConnect env c route s = (GuacConnected conn r, s')"
    and "connectionOfRoute route s = Some g" and "gc_RequireModerator g"
  shows "\<exists>m z. m \<in> set (gs_moderation s) \<and> md_Status m = ''active'' \<and> md_ConnectionID m = gc_ID g
           \<and> md_RequesterID m = gl_user c \<and> gl_org c = Some (md_OrgID m)
           \<and> md_ModeratorID m = Some z \<and> z \<noteq> gl_user c"
proof -
  obtain orgID s1 where c: "gl_org c = Some orgID" "connectGates env c orgID g s = (None, s1)"
    using connect_success [OF assms(2)] assms(3) by (metis option.inject)
  obtain m where "m \<in> set (gs_moderation s)" "md_OrgID m = orgID" "md_ConnectionID m = gc_ID g"
    "md_RequesterID m = gl_user c" "md_Status m = ''active''"
    using gates_moderated [OF c(2) assms(4)] by blast
  moreover have "guac_inv s" using guac.reach_inv [OF assms(1)] .
  ultimately show ?thesis using c(1) by (force simp: guac_inv_def moderationOK_def)
qed

definition exampleConnection :: GuacConnection where
  "exampleConnection = \<lparr>gc_ID = ''g'', gc_RouteID = ''r'', gc_ConnectionID = ''1'', gc_SecretID = '''',
     gc_InjectUsername = '''', gc_RequireApproval = True, gc_RecordSession = False, gc_RequireModerator = True\<rparr>"

definition exampleGuacEnv :: guac_env where
  "exampleGuacEnv = \<lparr>ge_now = 0, ge_fails = (\<lambda>_. False), ge_fresh = (\<lambda>k. k), ge_configured = True, ge_vault = None,
     ge_secretType = (\<lambda>_. ''''), ge_secretExists = (\<lambda>_ _. True), ge_recordingPath = '''', ge_devBypass = False\<rparr>"

definition exampleUser :: "string \<Rightarrow> guac_caller" where
  "exampleUser u = \<lparr>gl_org = Some ''o'', gl_user = u, gl_roles = [''admin'']\<rparr>"

definition emptyGuac :: guac_state where
  "emptyGuac = \<lparr>gs_connections = [exampleConnection], gs_routes = [(''r'', ''o'')], gs_requests = [], gs_moderation = [],
     gs_sessions = [], gs_pushed = [], gs_terminated = [], gs_audit = []\<rparr>"

definition approvedGuac :: guac_state where
  "approvedGuac = fold guacRun
     [OpRequest exampleGuacEnv (exampleUser ''u'') ''r'' ''why'', OpDecide exampleGuacEnv (exampleUser ''a'') ''request'' True]
     emptyGuac"

definition moderatedGuac :: guac_state where
  "moderatedGuac = fold guacRun
     [OpModerate exampleGuacEnv (exampleUser ''u'') (Some ''r'') ''why'', OpJoin exampleGuacEnv (exampleUser ''m'') ''moderation'']
     approvedGuac"

lemma reach_fold: "reach guac_init guac_step s \<Longrightarrow> reach guac_init guac_step (fold guacRun ops s)"
  by (induction ops arbitrary: s) (auto intro: reach_step guac_step)

lemma reach_example: "reach guac_init guac_step approvedGuac" "reach guac_init guac_step moderatedGuac"
proof -
  show "reach guac_init guac_step approvedGuac"
    unfolding approvedGuac_def by (intro reach_fold reach_init) (simp add: guac_init_def emptyGuac_def)
  then show "reach guac_init guac_step moderatedGuac"
    unfolding moderatedGuac_def by (rule reach_fold)
qed

theorem moderated_connect_four_eyes_witness:
  "\<exists>m z. m \<in> set (gs_moderation moderatedGuac) \<and> md_Status m = ''active'' \<and> md_ConnectionID m = gc_ID exampleConnection
     \<and> md_RequesterID m = gl_user (exampleUser ''u'') \<and> gl_org (exampleUser ''u'') = Some (md_OrgID m)
     \<and> md_ModeratorID m = Some z \<and> z \<noteq> gl_user (exampleUser ''u'')"
proof (rule moderated_connect_four_eyes [OF reach_example(2)])
  show "handleGuacamoleConnect exampleGuacEnv (exampleUser ''u'') ''r'' moderatedGuac =
      (GuacConnected ''1'' ''r'', snd (handleGuacamoleConnect exampleGuacEnv (exampleUser ''u'') ''r'' moderatedGuac))"
    by code_simp
  show "connectionOfRoute ''r'' moderatedGuac = Some exampleConnection" by code_simp
  show "gc_RequireModerator exampleConnection" by code_simp
qed

lemma newestRequest_mem: "newestRequest rs = Some r \<Longrightarrow> r \<in> set rs"
  by (induction rs arbitrary: r) (auto split: option.splits if_splits)

lemma consume_True:
  assumes "checkAndConsumeApproval env orgID g u s = (Some True, s1)"
  obtains r where "r \<in> set (gs_requests s)" "consumable (ge_now env) orgID g u r"
    "gs_requests s1 = updateWhere (\<lambda>x. gr_ID x = gr_ID r \<and> gr_OrgID x = orgID) (\<lambda>x. x\<lparr>gr_Status := ''consumed''\<rparr>) (gs_requests s)"
proof -
  obtain r where r: "newestRequest (filter (consumable (ge_now env) orgID g u) (gs_requests s)) = Some r"
    using assms by (auto simp: checkAndConsumeApproval_def split: if_splits option.splits)
  from newestRequest_mem [OF this] assms r show thesis
    by (intro that [of r]) (auto simp: checkAndConsumeApproval_def split: if_splits)
qed

text \<open>
  An approval opens one session. A session on a connection that requires approval starts only
  against an unexpired request of the caller for this connection that somebody approved, and uses it
  up.
\<close>

theorem approved_connect_consumes:
  assumes "reach guac_init guac_step s"
    and "handleGuacamoleConnect env c route s = (GuacConnected conn r, s')"
    and "connectionOfRoute route s = Some g" and "gc_RequireApproval g"
  shows "\<exists>q. q \<in> set (gs_requests s) \<and> gl_org c = Some (gr_OrgID q) \<and> gr_ConnectionID q = gc_ID g
           \<and> gr_RequesterID q = gl_user c \<and> gr_Status q = ''approved'' \<and> gr_ApproverID q \<noteq> None
           \<and> unexpired (ge_now env) (gr_ExpiresAt q)
           \<and> (\<forall>x \<in> set (gs_requests s'). gr_ID x = gr_ID q \<longrightarrow> gr_Status x = ''consumed'')"
proof -
  obtain orgID s1 where c: "gl_org c = Some orgID" "connectGates env c orgID g s = (None, s1)"
    "connectSession env c orgID route g s1 = (GuacConnected conn r, s')"
    using connect_success [OF assms(2)] assms(3) by (metis option.inject)
  have inv: "guac_inv s" using guac.reach_inv [OF assms(1)] .
  have "checkAndConsumeApproval env orgID (gc_ID g) (gl_user c) s = (Some True, s1)"
    using c(2) assms(4) by (auto simp: connectGates_def split: prod.splits if_splits option.splits bool.splits)
  then obtain q where q: "q \<in> set (gs_requests s)" "consumable (ge_now env) orgID (gc_ID g) (gl_user c) q"
    and upd: "gs_requests s1 = updateWhere (\<lambda>x. gr_ID x = gr_ID q \<and> gr_OrgID x = orgID)
      (\<lambda>x. x\<lparr>gr_Status := ''consumed''\<rparr>) (gs_requests s)"
    using consume_True by blast
  have same: "x = q" if "x \<in> set (gs_requests s)" "gr_ID x = gr_ID q" for x
    using distinct_key_eq [of gr_ID "gs_requests s"] inv that q(1) by (auto simp: guac_inv_def)
  have "gs_requests s' = gs_requests s1"
    using c(3) by (auto simp: connectSession_def Let_def recordGuacSession_def auditGuac_def split: option.splits if_splits)
  then have "\<forall>x \<in> set (gs_requests s'). gr_ID x = gr_ID q \<longrightarrow> gr_Status x = ''consumed''"
    using same q(2) by (auto simp: upd set_updateWhere consumable_def)
  moreover have "gr_ApproverID q \<noteq> None"
    using inv q by (auto simp: guac_inv_def requestOK_def consumable_def)
  ultimately show ?thesis using q c(1) by (auto simp: consumable_def)
qed

theorem approved_connect_consumes_witness:
  "\<exists>q. q \<in> set (gs_requests moderatedGuac) \<and> gl_org (exampleUser ''u'') = Some (gr_OrgID q)
     \<and> gr_ConnectionID q = gc_ID exampleConnection
     \<and> gr_RequesterID q = gl_user (exampleUser ''u'') \<and> gr_Status q = ''approved'' \<and> gr_ApproverID q \<noteq> None
     \<and> unexpired (ge_now exampleGuacEnv) (gr_ExpiresAt q)
     \<and> (\<forall>x \<in> set (gs_requests (snd (handleGuacamoleConnect exampleGuacEnv (exampleUser ''u'') ''r'' moderatedGuac))).
          gr_ID x = gr_ID q \<longrightarrow> gr_Status x = ''consumed'')"
proof (rule approved_connect_consumes [OF reach_example(2)])
  show "handleGuacamoleConnect exampleGuacEnv (exampleUser ''u'') ''r'' moderatedGuac =
      (GuacConnected ''1'' ''r'', snd (handleGuacamoleConnect exampleGuacEnv (exampleUser ''u'') ''r'' moderatedGuac))"
    by code_simp
  show "connectionOfRoute ''r'' moderatedGuac = Some exampleConnection" by code_simp
  show "gc_RequireApproval exampleConnection" by code_simp
qed

text \<open>
  The approval is spent before the moderation gate is asked. On a connection that requires both,
  connecting before a moderator has joined is refused and the approval is gone, so that the caller
  needs a new one although no session has started.
\<close>

theorem approval_spent_without_session:
  assumes "reach guac_init guac_step s" and "gl_org c = Some orgID" and "ge_configured env"
    and "\<not> ge_fails env ''loadConnection''" and "\<not> ge_fails env ''consume''" and "\<not> ge_fails env ''moderationActive''"
    and "connectionOfRoute route s = Some g" and "gc_RequireApproval g" and "gc_RequireModerator g"
    and "gl_user c \<noteq> ''''" and "filter (consumable (ge_now env) orgID (gc_ID g) (gl_user c)) (gs_requests s) = [q]"
    and "checkModerationActive env orgID (gc_ID g) (gl_user c) s = Some False"
  shows "\<exists>s'. handleGuacamoleConnect env c route s = (ModerationRequired, s')
     \<and> filter (consumable (ge_now env) orgID (gc_ID g) (gl_user c)) (gs_requests s') = []"
proof -
  let ?P = "consumable (ge_now env) orgID (gc_ID g) (gl_user c)"
  let ?s1 = "s\<lparr>gs_requests := updateWhere (\<lambda>x. gr_ID x = gr_ID q \<and> gr_OrgID x = orgID)
     (\<lambda>x. x\<lparr>gr_Status := ''consumed''\<rparr>) (gs_requests s)\<rparr>"
  have "checkAndConsumeApproval env orgID (gc_ID g) (gl_user c) s = (Some True, ?s1)"
    using assms(5,10,11) by (simp add: checkAndConsumeApproval_def)
  moreover have "checkModerationActive env orgID (gc_ID g) (gl_user c) ?s1 = Some False"
    using assms(12) by (simp add: checkModerationActive_def split: if_splits)
  ultimately have "handleGuacamoleConnect env c route s = (ModerationRequired, ?s1)"
    using assms(2-4,7-9) by (simp add: handleGuacamoleConnect_def connectGates_def)
  moreover have "filter ?P (gs_requests ?s1) = []"
  proof -
    have only: "{x \<in> set (gs_requests s). ?P x} = {q}" using assms(11) by (metis list.set(1) list.set(2) set_filter)
    then have "?P q" by blast
    with only show ?thesis by (auto simp: filter_empty_conv set_updateWhere consumable_def)
  qed
  ultimately show ?thesis by blast
qed

theorem approval_spent_without_session_witness:
  "\<exists>s'. handleGuacamoleConnect exampleGuacEnv (exampleUser ''u'') ''r'' approvedGuac = (ModerationRequired, s')
     \<and> filter (consumable (ge_now exampleGuacEnv) ''o'' (gc_ID exampleConnection) (gl_user (exampleUser ''u''))) (gs_requests s') = []"
  by (rule approval_spent_without_session [OF reach_example(1), where q = "hd (gs_requests approvedGuac)"]; code_simp)

lemma updateWhere_keeps: "m \<in> set rows \<Longrightarrow> \<not> P m \<Longrightarrow> m \<in> set (updateWhere P f rows)"
  by (force simp: set_updateWhere)

lemma gates_keep_moderation: "gs_moderation (snd (connectGates env c orgID g s)) = gs_moderation s"
  using consume_moderation [of env orgID "gc_ID g" "gl_user c" s]
  by (auto simp: connectGates_def split: prod.split option.split bool.split)

lemma connect_keeps_moderation: "gs_moderation (snd (handleGuacamoleConnect env c route s)) = gs_moderation s"
proof -
  have session: "gs_moderation (snd (connectSession env c orgID route g s0)) = gs_moderation s0" for orgID g s0
    by (auto simp: connectSession_def Let_def recordGuacSession_def auditGuac_def split: option.split)
  show ?thesis
    using gates_keep_moderation session
    by (auto simp: handleGuacamoleConnect_def split: option.split prod.split) (metis snd_conv)+
qed

text \<open>
  A joined moderator counts as present for ever. Whatever the handlers do, at whatever time, a
  moderation row stays active until somebody ends that very row; starting sessions does not use it
  up, and it has no expiry. Nor does ending it stop a session: no handler stores the identifier of
  the running connection, so that nothing is ever terminated.
\<close>

theorem moderation_outlives_moderator:
  assumes "reach guac_init guac_step s" and "m \<in> set (gs_moderation s)" and "md_Status m = ''active''"
    and "\<And>env c. op \<noteq> OpEnd env c (md_ID m)"
  shows "m \<in> set (gs_moderation (guacRun op s)) \<and> gs_terminated (guacRun op s) = []"
proof
  show "gs_terminated (guacRun op s) = []"
    using guac_inv_run [OF guac.reach_inv [OF assms(1)]] by (simp add: guac_inv_def)
  show "m \<in> set (gs_moderation (guacRun op s))"
  proof (cases op)
    case (OpEnd env c i)
    with assms(4) have "i \<noteq> md_ID m" by auto
    with OpEnd assms(2) show ?thesis
      by (auto simp: handleEndModeration_def Let_def auditGuac_def intro!: updateWhere_keeps split: option.split)
  next
    case (OpJoin env c i)
    with assms(2,3) show ?thesis
      by (auto simp: handleJoinModeration_def auditGuac_def joinable_def intro!: updateWhere_keeps split: option.split)
  next
    case (OpStatus env c i)
    with assms(2,3) show ?thesis
      by (auto simp: handleGetModerationStatus_def intro!: updateWhere_keeps split: option.split)
  next
    case (OpModerate env c route reason)
    with assms(2) show ?thesis
      by (auto simp: handleRequestModeration_def Let_def auditGuac_def split: option.split)
  qed (use assms(2) in \<open>auto simp: connect_keeps_moderation handleRequestGuacSession_def decideGuacSession_def
      handleApproveGuacSession_def handleDenyGuacSession_def handleSetGuacCredential_def Let_def auditGuac_def
      split: option.split\<close>)
qed

theorem moderation_outlives_moderator_witness:
  "hd (gs_moderation moderatedGuac) \<in> set (gs_moderation
     (guacRun (OpConnect (exampleGuacEnv\<lparr>ge_now := 1000 * hour\<rparr>) (exampleUser ''u'') ''r'') moderatedGuac))
   \<and> gs_terminated (guacRun (OpConnect (exampleGuacEnv\<lparr>ge_now := 1000 * hour\<rparr>) (exampleUser ''u'') ''r'') moderatedGuac) = []"
proof (rule moderation_outlives_moderator [OF reach_example(2)])
  show "hd (gs_moderation moderatedGuac) \<in> set (gs_moderation moderatedGuac)" by code_simp
  show "md_Status (hd (gs_moderation moderatedGuac)) = ''active''" by code_simp
qed simp

text \<open>
  The connect handler does not look at the organisation of the route. A route whose connection
  asks for neither approval nor a moderator opens for a caller of every organisation, with the
  stored credential injected.
\<close>

theorem connect_crosses_tenants:
  assumes "connectionOfRoute route s = Some g" and "\<not> gc_RequireApproval g" and "\<not> gc_RequireModerator g"
    and "ge_configured env" and "ge_fails env = (\<lambda>_. False)" and "gl_org c = Some orgID"
    and "ge_vault env = Some use" and "gc_SecretID g \<noteq> ''''" and "use (gc_SecretID g) = Some cred" and "cred \<noteq> ''''"
  shows "\<exists>s' params. handleGuacamoleConnect env c route s = (GuacConnected (gc_ConnectionID g) route, s')
      \<and> gs_pushed s' = gs_pushed s @ [(gc_ConnectionID g, params)] \<and> cred \<in> snd ` set params"
  using assms
  by (auto simp: handleGuacamoleConnect_def connectGates_def connectSession_def connectCredential_def
      buildInjectedParams_def recordGuacSession_def auditGuac_def Let_def)

definition foreignGuac :: guac_state where
  "foreignGuac = emptyGuac\<lparr>gs_connections := [exampleConnection\<lparr>gc_RequireApproval := False, gc_RequireModerator := False,
     gc_SecretID := ''k''\<rparr>], gs_routes := [(''r'', ''other'')]\<rparr>"

theorem connect_crosses_tenants_witness:
  "\<exists>s' params. handleGuacamoleConnect (exampleGuacEnv\<lparr>ge_vault := Some (\<lambda>_. Some ''pw'')\<rparr>) (exampleUser ''u'') ''r'' foreignGuac
        = (GuacConnected ''1'' ''r'', s')
      \<and> gs_pushed s' = gs_pushed foreignGuac @ [(''1'', params)] \<and> ''pw'' \<in> snd ` set params"
  using connect_crosses_tenants [where route = "''r''" and s = foreignGuac
      and g = "exampleConnection\<lparr>gc_RequireApproval := False, gc_RequireModerator := False, gc_SecretID := ''k''\<rparr>"
      and env = "exampleGuacEnv\<lparr>ge_vault := Some (\<lambda>_. Some ''pw'')\<rparr>" and c = "exampleUser ''u''"
      and orgID = "''o''" and use = "\<lambda>_. Some ''pw''" and cred = "''pw''"]
  by (simp add: foreignGuac_def emptyGuac_def exampleConnection_def exampleGuacEnv_def exampleUser_def connectionOfRoute_def)
end
