(* ===== verification/Pwhash.thy ===== *)
theory Pwhash
  imports Go_Prelude
begin

text \<open>
  Password hashes, after \<^verbatim>\<open>internal/common/pwhash/pwhash.go\<close>: the Argon2id cost parameters, the
  PHC string \<open>Hash\<close> writes, the parser \<open>decode\<close> of such strings, and \<open>Verify\<close>, which reads Argon2id
  and bcrypt hashes and says when a hash should be rewritten.

  Argon2 and bcrypt are packages outside the repository; they are the parameter \<open>kdf\<close>. The parts of
  Go's library that \<open>decode\<close> uses, \<^verbatim>\<open>fmt.Sscanf\<close> with \<^verbatim>\<open>%d\<close> and \<^verbatim>\<open>base64.RawStdEncoding\<close>, are
  modelled. The theorems: a written hash decodes to what was written, verifies exactly the passwords
  with the same derived key and asks for no rewrite; a rewrite is asked for exactly below the current
  cost; a stored hash with a zero cost is not reported as unreadable but makes the derivation panic.
\<close>

section \<open>Parameters\<close>

record Params =
  Memory :: "32 word"
  Iterations :: "32 word"
  Parallelism :: "8 word"
  SaltLength :: "32 word"
  KeyLength :: "32 word"

text \<open>\<open>init\<close> lowers the parallelism to the number of processors; it is 1, which no machine is below.\<close>

definition Default :: Params where
  "Default = \<lparr>Memory = 19456, Iterations = 2, Parallelism = 1, SaltLength = 16, KeyLength = 32\<rparr>"

definition weakerThanDefault :: "Params \<Rightarrow> bool" where
  "weakerThanDefault p \<longleftrightarrow>
     Memory p < Memory Default \<or> Iterations p < Iterations Default \<or> KeyLength p < KeyLength Default"

section \<open>The packages used\<close>

text \<open>\<^verbatim>\<open>bcrypt.CompareHashAndPassword\<close> returns no error, the mismatch error or another one.\<close>

datatype bcrypt_answer = BcryptMatch | BcryptMismatch | BcryptError

text \<open>\<open>idKey\<close> is \<^verbatim>\<open>argon2.IDKey\<close> (password, salt, iterations, memory, parallelism, key length);
  \<open>None\<close> is a panic.\<close>

record kdf =
  idKey :: "string \<Rightarrow> string \<Rightarrow> 32 word \<Rightarrow> 32 word \<Rightarrow> 8 word \<Rightarrow> 32 word \<Rightarrow> string option"
  argonVersion :: nat
  bcryptCompare :: "string \<Rightarrow> string \<Rightarrow> bcrypt_answer"

subsection \<open>Unpadded base64\<close>

definition b64Char :: "nat \<Rightarrow> char" where
  "b64Char n = char_of (if n < 26 then n + 65 else if n < 52 then n + 71 else if n < 62 then n - 4
     else if n = 62 then 43 else (47 :: nat))"

fun rawB64Encode :: "string \<Rightarrow> string" where
  "rawB64Encode [] = []"
| "rawB64Encode [a] = [b64Char (byteOf a div 4), b64Char (byteOf a mod 4 * 16)]"
| "rawB64Encode [a, b] =
     [b64Char (byteOf a div 4), b64Char (byteOf a mod 4 * 16 + byteOf b div 16),
      b64Char (byteOf b mod 16 * 4)]"
| "rawB64Encode (a # b # c # s) =
     b64Char (byteOf a div 4) # b64Char (byteOf a mod 4 * 16 + byteOf b div 16)
     # b64Char (byteOf b mod 16 * 4 + byteOf c div 64) # b64Char (byteOf c mod 64)
     # rawB64Encode s"

fun rawB64Groups :: "nat list \<Rightarrow> string option" where
  "rawB64Groups [] = Some []"
| "rawB64Groups [x] = None"
| "rawB64Groups [x, y] = Some [char_of (x * 4 + y div 16)]"
| "rawB64Groups [x, y, z] = Some [char_of (x * 4 + y div 16), char_of (y mod 16 * 16 + z div 4)]"
| "rawB64Groups (x # y # z # w # s) =
     map_option (\<lambda>r. char_of (x * 4 + y div 16) # char_of (y mod 16 * 16 + z div 4)
       # char_of (z mod 4 * 64 + w) # r) (rawB64Groups s)"

text \<open>Line breaks are skipped; any other character outside the alphabet is an error.\<close>

definition rawB64Decode :: "string \<Rightarrow> string option" where
  "rawB64Decode s =
     (let cs = filter (\<lambda>c. byteOf c \<noteq> 10 \<and> byteOf c \<noteq> 13) s in
      if list_all (\<lambda>c. b64Value c \<noteq> None) cs
      then rawB64Groups (map (\<lambda>c. the (b64Value c)) cs) else None)"

subsection \<open>Scanning\<close>

text \<open>\<^verbatim>\<open>fmt.Sscanf\<close>: a literal must be next in the input; \<^verbatim>\<open>%d\<close> skips blanks, refuses a line
  break and takes a run of digits and underscores, which \<^verbatim>\<open>strconv\<close> refuses when it has an
  underscore or is too large. A signed target takes a sign first. What follows the last verb is not
  looked at.\<close>

definition scanLit :: "string \<Rightarrow> string \<Rightarrow> string option" where
  "scanLit lit s = (if prefix lit s then Some (drop (length lit) s) else None)"

definition scanDigits :: "string \<Rightarrow> (nat \<times> string) option" where
  "scanDigits s =
     (let tok = takeWhile (\<lambda>c. isDigitAscii c \<or> c = CHR ''_'') s in
      if tok = [] \<or> CHR ''_'' \<in> set tok then None else Some (undec tok, drop (length tok) s))"

definition scanUint :: "nat \<Rightarrow> string \<Rightarrow> (nat \<times> string) option" where
  "scanUint bits s =
     (case scanDigits (dropWhile (\<lambda>c. byteOf c \<in> {9, 11, 12, 13, 32}) s) of
        Some (n, r) \<Rightarrow> (if n < 2 ^ bits then Some (n, r) else None)
      | None \<Rightarrow> None)"

definition scanInt :: "string \<Rightarrow> (int \<times> string) option" where
  "scanInt s =
     (let s = dropWhile (\<lambda>c. byteOf c \<in> {9, 11, 12, 13, 32}) s;
          neg = prefix ''-'' s;
          s = (if neg \<or> prefix ''+'' s then drop 1 s else s) in
      case scanDigits s of
        Some (n, r) \<Rightarrow>
          (let i = (if neg then - int n else int n) in
           if - (2 ^ 63) \<le> i \<and> i < 2 ^ 63 then Some (i, r) else None)
      | None \<Rightarrow> None)"

section \<open>Hashing and verifying\<close>

datatype pw_error = ErrUnknownFormat | ErrUnsupportedVersion int | ErrBcrypt

text \<open>\<open>salt\<close> is what \<^verbatim>\<open>rand.Read\<close> put into the salt buffer, \<open>None\<close> when it failed.\<close>

datatype hash_result = HashPanics | HashFails | Hashed string

definition phcString :: "kdf \<Rightarrow> Params \<Rightarrow> string \<Rightarrow> string \<Rightarrow> string" where
  "phcString k p salt key =
     ''$argon2id$v='' @ dec (argonVersion k) @ ''$m='' @ dec (unat (Memory p))
     @ '',t='' @ dec (unat (Iterations p)) @ '',p='' @ dec (unat (Parallelism p))
     @ ''$'' @ rawB64Encode salt @ ''$'' @ rawB64Encode key"

definition paramsHash :: "kdf \<Rightarrow> string option \<Rightarrow> Params \<Rightarrow> string \<Rightarrow> hash_result" where
  "paramsHash k rng p password =
     (case rng of
        None \<Rightarrow> HashFails
      | Some salt \<Rightarrow>
          (case idKey k password salt (Iterations p) (Memory p) (Parallelism p) (KeyLength p) of
             None \<Rightarrow> HashPanics
           | Some key \<Rightarrow> Hashed (phcString k p salt key)))"

definition pwHash :: "kdf \<Rightarrow> string option \<Rightarrow> string \<Rightarrow> hash_result" where
  "pwHash k rng password = paramsHash k rng Default password"

definition decode :: "kdf \<Rightarrow> string \<Rightarrow> pw_error + Params \<times> string \<times> string" where
  "decode k stored =
     (case splitOn CHR ''$'' stored of
        [_, alg, ver, cost, saltText, keyText] \<Rightarrow>
          (if alg \<noteq> ''argon2id'' then Inl ErrUnknownFormat
           else (case Option.bind (scanLit ''v='' ver) scanInt of
                   None \<Rightarrow> Inl ErrUnknownFormat
                 | Some (version, _) \<Rightarrow>
                     (if version \<noteq> int (argonVersion k) then Inl (ErrUnsupportedVersion version)
                      else (case Option.bind (scanLit ''m='' cost) (scanUint 32) of
                              None \<Rightarrow> Inl ErrUnknownFormat
                            | Some (m, r1) \<Rightarrow>
                      (case Option.bind (scanLit '',t='' r1) (scanUint 32) of
                              None \<Rightarrow> Inl ErrUnknownFormat
                            | Some (t, r2) \<Rightarrow>
                      (case Option.bind (scanLit '',p='' r2) (scanUint 8) of
                              None \<Rightarrow> Inl ErrUnknownFormat
                            | Some (par, _) \<Rightarrow>
                      (case (rawB64Decode saltText, rawB64Decode keyText) of
                         (Some salt, Some key) \<Rightarrow>
                           (if salt = [] \<or> key = [] then Inl ErrUnknownFormat
                            else Inr (\<lparr>Memory = of_nat m, Iterations = of_nat t,
                                       Parallelism = of_nat par,
                                       SaltLength = of_nat (length salt),
                                       KeyLength = of_nat (length key)\<rparr>, salt, key))
                       | _ \<Rightarrow> Inl ErrUnknownFormat)))))))
      | _ \<Rightarrow> Inl ErrUnknownFormat)"

datatype verify_result = Verified bool bool | Unreadable pw_error | VerifyPanics

definition Verify :: "kdf \<Rightarrow> string \<Rightarrow> string \<Rightarrow> verify_result" where
  "Verify k stored password =
     (if hasPrefix stored ''$argon2id$'' then
        (case decode k stored of
           Inl e \<Rightarrow> Unreadable e
         | Inr (p, salt, want) \<Rightarrow>
             (case idKey k password salt (Iterations p) (Memory p) (Parallelism p)
                     (of_nat (length want)) of
                None \<Rightarrow> VerifyPanics
              | Some got \<Rightarrow>
                  (if got \<noteq> want then Verified False False
                   else Verified True (weakerThanDefault p))))
      else if hasPrefix stored ''$2a$'' \<or> hasPrefix stored ''$2b$'' \<or> hasPrefix stored ''$2y$'' then
        (case bcryptCompare k stored password of
           BcryptMatch \<Rightarrow> Verified True True
         | BcryptMismatch \<Rightarrow> Verified False False
         | BcryptError \<Rightarrow> Unreadable ErrBcrypt)
      else Unreadable ErrUnknownFormat)"

definition IsArgon2id :: "string \<Rightarrow> bool" where
  "IsArgon2id stored \<longleftrightarrow> hasPrefix stored ''$argon2id$''"

section \<open>Facts about the codecs\<close>

lemma byteOf_char_of: "n < 256 \<Longrightarrow> byteOf (char_of n) = n"
  by (simp add: byteOf_def)

lemma char_of_byteOf [simp]: "char_of (byteOf c) = c"
  by (simp add: byteOf_def)

lemma b64Value_b64Char [simp]: "n < 64 \<Longrightarrow> b64Value (b64Char n) = Some n"
proof -
  assume "n < 64"
  then consider "n < 26" | "26 \<le> n" "n < 52" | "52 \<le> n" "n < 62" | "n = 62" | "n = 63" by linarith
  then show ?thesis
  proof cases
    case 4
    have "b64Value (b64Char 62) = Some 62" by code_simp
    with 4 show ?thesis by simp
  next
    case 5
    have "b64Value (b64Char 63) = Some 63" by code_simp
    with 5 show ?thesis by simp
  qed (auto simp: b64Value_def b64Char_def isUpperAscii_def isLowerAscii_def isDigitAscii_def
      byteOf_char_of)
qed

lemma b64Char_inject: "m < 64 \<Longrightarrow> n < 64 \<Longrightarrow> b64Char m = b64Char n \<Longrightarrow> m = n"
  by (metis b64Value_b64Char option.inject)

definition b64Digits :: "string \<Rightarrow> bool" where
  "b64Digits s \<longleftrightarrow> list_all (\<lambda>c. b64Value c \<noteq> None) s"

lemma b64Value_Some_byte: "b64Value c \<noteq> None \<Longrightarrow> byteOf c \<noteq> 10 \<and> byteOf c \<noteq> 13 \<and> c \<noteq> CHR ''$''"
  by (auto simp: b64Value_def isUpperAscii_def isLowerAscii_def isDigitAscii_def byteOf_def
      split: if_splits)

lemma byte_parts:
  "byteOf a div 4 < 64" "byteOf a mod 4 * 16 < 64" "byteOf a mod 4 * 16 + byteOf b div 16 < 64"
  "byteOf b mod 16 * 4 < 64" "byteOf b mod 16 * 4 + byteOf c div 64 < 64" "byteOf c mod 64 < 64"
  using byteOf_less [of a] byteOf_less [of b] byteOf_less [of c] by linarith+

lemma rawB64Encode_digits: "b64Digits (rawB64Encode s)"
  by (induction s rule: rawB64Encode.induct) (simp_all add: b64Digits_def byte_parts)

lemma split_join:
  "q < m \<Longrightarrow> (p * m + q) div m = p" "q < m \<Longrightarrow> (p * m + q) mod m = q" for p q m :: nat
  by simp_all

lemma byte_joins:
  "byteOf a div 4 * 4 + byteOf a mod 4 * 16 div 16 = byteOf a"
  "byteOf a div 4 * 4 + (byteOf a mod 4 * 16 + byteOf b div 16) div 16 = byteOf a"
  "(byteOf a mod 4 * 16 + byteOf b div 16) mod 16 * 16 + byteOf b mod 16 * 4 div 4 = byteOf b"
  "(byteOf a mod 4 * 16 + byteOf b div 16) mod 16 * 16 + (byteOf b mod 16 * 4 + byteOf c div 64) div 4
     = byteOf b"
  "(byteOf b mod 16 * 4 + byteOf c div 64) mod 4 * 64 + byteOf c mod 64 = byteOf c"
proof -
  have "byteOf b div 16 < 16" "byteOf c div 64 < 4"
    using byteOf_less [of b] byteOf_less [of c] by linarith+
  note joins = this [THEN split_join(1)] this [THEN split_join(2)]
  show "byteOf a div 4 * 4 + byteOf a mod 4 * 16 div 16 = byteOf a" by simp
  show "byteOf a div 4 * 4 + (byteOf a mod 4 * 16 + byteOf b div 16) div 16 = byteOf a"
    unfolding joins by simp
  show "(byteOf a mod 4 * 16 + byteOf b div 16) mod 16 * 16 + byteOf b mod 16 * 4 div 4 = byteOf b"
    unfolding joins by simp
  show "(byteOf a mod 4 * 16 + byteOf b div 16) mod 16 * 16
      + (byteOf b mod 16 * 4 + byteOf c div 64) div 4 = byteOf b"
    unfolding joins by simp
  show "(byteOf b mod 16 * 4 + byteOf c div 64) mod 4 * 64 + byteOf c mod 64 = byteOf c"
    unfolding joins by simp
qed

lemma rawB64Groups_encode:
  "rawB64Groups (map (\<lambda>c. the (b64Value c)) (rawB64Encode s)) = Some s"
proof (induction s rule: rawB64Encode.induct)
  case (2 a)
  show ?case
    unfolding rawB64Encode.simps list.map b64Value_b64Char [OF byte_parts(1)]
      b64Value_b64Char [OF byte_parts(2)] option.sel rawB64Groups.simps byte_joins char_of_byteOf ..
next
  case (3 a b)
  show ?case
    unfolding rawB64Encode.simps list.map b64Value_b64Char [OF byte_parts(1)]
      b64Value_b64Char [OF byte_parts(3)] b64Value_b64Char [OF byte_parts(4)] option.sel
      rawB64Groups.simps byte_joins char_of_byteOf ..
next
  case (4 a b c s)
  show ?case
    unfolding rawB64Encode.simps list.map b64Value_b64Char [OF byte_parts(1)]
      b64Value_b64Char [OF byte_parts(3)] b64Value_b64Char [OF byte_parts(5)]
      b64Value_b64Char [OF byte_parts(6)] option.sel rawB64Groups.simps byte_joins char_of_byteOf 4
      option.map ..
qed simp

lemma rawB64Decode_Encode [simp]: "rawB64Decode (rawB64Encode s) = Some s"
proof -
  have *: "\<forall>c \<in> set (rawB64Encode s). b64Value c \<noteq> None"
    using rawB64Encode_digits [of s] by (simp add: b64Digits_def list_all_iff)
  then have "filter (\<lambda>c. byteOf c \<noteq> 10 \<and> byteOf c \<noteq> 13) (rawB64Encode s) = rawB64Encode s"
    by (simp add: filter_id_conv b64Value_Some_byte)
  with * show ?thesis by (simp add: rawB64Decode_def list_all_iff rawB64Groups_encode)
qed

lemma rawB64Encode_no_dollar: "CHR ''$'' \<notin> set (rawB64Encode s)"
  using rawB64Encode_digits [of s] b64Value_Some_byte by (auto simp: b64Digits_def list_all_iff)

lemma dec_hd_digit: "\<exists>c cs. dec n = c # cs \<and> isDigitAscii c"
  using dec_not_Nil [of n] dec_digits [of _ n] by (cases "dec n") auto

lemma special_not_digit:
  "\<not> isDigitAscii CHR ''_''" "\<not> isDigitAscii CHR ''-''" "\<not> isDigitAscii CHR ''+''"
  "\<not> isDigitAscii CHR ''$''" "\<not> isDigitAscii CHR '',''"
  by code_simp+

lemma isDigit_not_special:
  "isDigitAscii c \<Longrightarrow> c \<noteq> CHR ''_'' \<and> c \<noteq> CHR ''-'' \<and> c \<noteq> CHR ''+'' \<and> c \<noteq> CHR ''$'' \<and> c \<noteq> CHR '',''
     \<and> byteOf c \<notin> {9, 11, 12, 13, 32}"
  by (auto simp: isDigitAscii_def byteOf_def)

lemma scanDigits_dec:
  assumes "r = [] \<or> \<not> isDigitAscii (hd r) \<and> hd r \<noteq> CHR ''_''"
  shows "scanDigits (dec n @ r) = Some (n, r)"
proof -
  have *: "\<forall>c \<in> set (dec n). isDigitAscii c \<or> c = CHR ''_''" using dec_digits by blast
  with assms have "takeWhile (\<lambda>c. isDigitAscii c \<or> c = CHR ''_'') (dec n @ r) = dec n"
    by (cases r) (auto simp: takeWhile_append)
  moreover have "CHR ''_'' \<notin> set (dec n)" using dec_digits isDigit_not_special by blast
  ultimately show ?thesis by (simp add: scanDigits_def)
qed

lemma dropWhile_blank_dec:
  "dropWhile (\<lambda>c. byteOf c \<in> {9, 11, 12, 13, 32}) (dec n @ r) = dec n @ r"
  using dec_hd_digit [of n] isDigit_not_special by fastforce

lemma scanUint_dec:
  assumes "r = [] \<or> \<not> isDigitAscii (hd r) \<and> hd r \<noteq> CHR ''_''" and "n < 2 ^ bits"
  shows "scanUint bits (dec n @ r) = Some (n, r)"
  unfolding scanUint_def dropWhile_blank_dec scanDigits_dec [OF assms(1)] using assms(2) by simp

lemma scanInt_dec:
  assumes "n < 2 ^ 63"
  shows "scanInt (dec n) = Some (int n, [])"
proof -
  have "\<not> prefix ''-'' (dec n)" "\<not> prefix ''+'' (dec n)"
    using dec_hd_digit [of n] special_not_digit by auto
  moreover have "dropWhile (\<lambda>c. byteOf c \<in> {9, 11, 12, 13, 32}) (dec n) = dec n"
    using dropWhile_blank_dec [of n "[]"] by simp
  moreover have "scanDigits (dec n) = Some (n, [])" using scanDigits_dec [of "[]" n] by simp
  moreover have "int n < 2 ^ 63" using assms by (metis of_nat_less_iff of_nat_numeral of_nat_power)
  ultimately show ?thesis unfolding scanInt_def Let_def by simp
qed

section \<open>Properties\<close>

lemma no_dollar_dec: "CHR ''$'' \<notin> set (dec n)"
  using dec_digits special_not_digit by blast

lemma phc_fields:
  "splitOn CHR ''$'' (phcString k p salt key) =
     [[], ''argon2id'', ''v='' @ dec (argonVersion k),
      ''m='' @ dec (unat (Memory p)) @ '',t='' @ dec (unat (Iterations p)) @ '',p=''
        @ dec (unat (Parallelism p)), rawB64Encode salt, rawB64Encode key]"
proof -
  let ?d = "CHR ''$''"
  let ?v = "''v='' @ dec (argonVersion k)"
  let ?c = "''m='' @ dec (unat (Memory p)) @ '',t='' @ dec (unat (Iterations p)) @ '',p=''
        @ dec (unat (Parallelism p))"
  have "phcString k p salt key =
      [] @ ?d # ''argon2id'' @ ?d # ?v @ ?d # ?c @ ?d # rawB64Encode salt @ ?d # rawB64Encode key"
    by (simp add: phcString_def)
  moreover have "?d \<notin> set ?v" "?d \<notin> set ?c" "?d \<notin> set ''argon2id''"
    by (simp_all add: no_dollar_dec)
  ultimately show ?thesis
    by (simp only: splitOn_append_sep splitOn_no_occurrence rawB64Encode_no_dollar list.set
        empty_iff not_False_eq_True)
qed

lemma scanLit_append [simp]: "scanLit lit (lit @ r) = Some r"
  by (simp add: scanLit_def)

text \<open>A written hash decodes to the parameters, salt and key it was written with.\<close>

lemma decode_phcString:
  assumes "argonVersion k < 2 ^ 63" and "salt \<noteq> []" and "key \<noteq> []"
  shows "decode k (phcString k p salt key) =
    Inr (p\<lparr>SaltLength := of_nat (length salt), KeyLength := of_nat (length key)\<rparr>, salt, key)"
proof -
  let ?r2 = "'',p='' @ dec (unat (Parallelism p))"
  let ?r1 = "'',t='' @ dec (unat (Iterations p)) @ ?r2"
  have m: "scanUint 32 (dec (unat (Memory p)) @ ?r1) = Some (unat (Memory p), ?r1)"
    by (rule scanUint_dec) (use special_not_digit unsigned_less [of "Memory p"] in simp_all)
  have t: "scanUint 32 (dec (unat (Iterations p)) @ ?r2) = Some (unat (Iterations p), ?r2)"
    by (rule scanUint_dec) (use special_not_digit unsigned_less [of "Iterations p"] in simp_all)
  have par: "scanUint 8 (dec (unat (Parallelism p))) = Some (unat (Parallelism p), [])"
    using scanUint_dec [of "[]" "unat (Parallelism p)" 8] unsigned_less [of "Parallelism p"] by simp
  have v: "scanInt (dec (argonVersion k)) = Some (int (argonVersion k), [])"
    using assms(1) by (rule scanInt_dec)
  show ?thesis
    unfolding decode_def phc_fields list.case scanLit_append bind.simps v m t par option.case prod.case
      simp_thms(6) not_True_eq_False if_False
    using assms(2,3) by simp
qed

lemma phcString_prefix: "hasPrefix (phcString k p salt key) ''$argon2id$''"
  by (simp add: hasPrefix_def phcString_def)

text \<open>What is relied on of the derivation: it returns as many bytes as it is asked for.\<close>

definition keyLengthLaw :: "kdf \<Rightarrow> bool" where
  "keyLengthLaw k \<longleftrightarrow>
     (\<forall>pw salt t m p n key. idKey k pw salt t m p n = Some key \<longrightarrow> length key = unat n)"

lemma pwHash_decodes:
  assumes "pwHash k (Some salt) password = Hashed stored"
    and "length salt = unat (SaltLength Default)" and "argonVersion k < 2 ^ 63"
    and "keyLengthLaw k"
  obtains key where "idKey k password salt (Iterations Default) (Memory Default) (Parallelism Default)
      (KeyLength Default) = Some key" and "decode k stored = Inr (Default, salt, key)"
    and "of_nat (length key) = KeyLength Default" and "hasPrefix stored ''$argon2id$''"
proof -
  from assms(1) obtain key where
    key: "idKey k password salt (Iterations Default) (Memory Default) (Parallelism Default)
      (KeyLength Default) = Some key" and stored: "stored = phcString k Default salt key"
    by (auto simp: pwHash_def paramsHash_def split: option.splits)
  from assms(4) key have len: "length key = 32" by (fastforce simp: keyLengthLaw_def Default_def)
  from assms(2) have slen: "length salt = 16" by (simp add: Default_def)
  from len slen have ne: "key \<noteq> []" "salt \<noteq> []" by auto
  have "decode k stored = Inr (Default, salt, key)"
    unfolding stored decode_phcString [OF assms(3) ne(2) ne(1)]
    by (simp add: len slen Default_def)
  moreover have "of_nat (length key) = KeyLength Default" by (simp add: len Default_def)
  ultimately show thesis using that key stored phcString_prefix by blast
qed

lemma Default_not_weaker [simp]: "\<not> weakerThanDefault Default"
  by (simp add: weakerThanDefault_def)

lemma pwHash_verifies:
  assumes "pwHash k (Some salt) password = Hashed stored"
    and "length salt = unat (SaltLength Default)" and "argonVersion k < 2 ^ 63"
    and "keyLengthLaw k"
  shows "Verify k stored password = Verified True False"
  by (rule pwHash_decodes [OF assms]) (simp_all add: Verify_def)

text \<open>
  A hash written by \<open>Hash\<close> verifies a password exactly when the derivation gives the same key for
  it, in particular the password it was written for, and never asks to be rewritten. The derivation
  is relied on to return as many bytes as it is asked for.
\<close>

theorem Hash_then_Verify:
  assumes "pwHash k (Some salt) password = Hashed stored"
    and "length salt = unat (SaltLength Default)" and "argonVersion k < 2 ^ 63"
    and "keyLengthLaw k"
  shows "IsArgon2id stored
    \<and> Verify k stored password = Verified True False
    \<and> (\<forall>other key'. idKey k other salt (Iterations Default) (Memory Default) (Parallelism Default)
          (KeyLength Default) = Some key' \<longrightarrow>
         Verify k stored other = Verified (Some key' = idKey k password salt (Iterations Default)
           (Memory Default) (Parallelism Default) (KeyLength Default)) False)"
  by (rule pwHash_decodes [OF assms]) (auto simp: Verify_def IsArgon2id_def)

text \<open>A rewrite is asked for only together with success, and exactly for a bcrypt hash or for an
  Argon2id hash written at a lower cost.\<close>

theorem needsRehash_iff:
  assumes "Verify k stored password = Verified ok rehash"
  shows "(rehash \<longrightarrow> ok) \<and> (ok \<longrightarrow> rehash = (\<not> IsArgon2id stored
     \<or> (\<exists>p salt key. decode k stored = Inr (p, salt, key) \<and> weakerThanDefault p)))"
  using assms unfolding Verify_def IsArgon2id_def
  by (auto split: if_splits sum.splits option.splits prod.splits bcrypt_answer.splits)

text \<open>
  A stored hash whose iteration count is zero is not reported as unreadable: \<open>decode\<close> accepts it, and
  the derivation, which refuses a count below one by panicking, takes the login request down.
\<close>

theorem zero_cost_hash_panics:
  assumes "\<And>pw slt m p n. idKey k pw slt 0 m p n = None"
    and "argonVersion k < 2 ^ 63" and "salt \<noteq> []" and "key \<noteq> []" and "Iterations p = 0"
  shows "Verify k (phcString k p salt key) password = VerifyPanics"
  using decode_phcString [OF assms(2-4), of p] assms(1,5)
  by (simp add: Verify_def phcString_prefix)

section \<open>Witnesses\<close>

text \<open>A derivation with the documented behaviour: it refuses a zero cost and returns the requested
  number of bytes.\<close>

definition demoKdf :: kdf where
  "demoKdf = \<lparr>idKey = (\<lambda>pw salt t m p n. if t = 0 \<or> p = 0 then None
       else Some (take (unat n) (pw @ replicate (unat n) CHR ''k''))),
     argonVersion = 19,
     bcryptCompare = (\<lambda>h pw. if h = ''$2a$10$'' @ pw then BcryptMatch else BcryptMismatch)\<rparr>"

definition demoSalt :: string where
  "demoSalt = ''0123456789abcdef''"

definition demoHash :: string where
  "demoHash = (case pwHash demoKdf (Some demoSalt) ''Secret1!'' of Hashed s \<Rightarrow> s | _ \<Rightarrow> [])"

lemma demoKdf_length: "keyLengthLaw demoKdf"
  by (auto simp: keyLengthLaw_def demoKdf_def split: if_splits)

lemma demoHash_hashed: "pwHash demoKdf (Some demoSalt) ''Secret1!'' = Hashed demoHash"
proof -
  have "\<exists>s. pwHash demoKdf (Some demoSalt) ''Secret1!'' = Hashed s"
    by (simp add: pwHash_def paramsHash_def demoKdf_def Default_def)
  then show ?thesis by (auto simp: demoHash_def)
qed

theorem Hash_then_Verify_witness:
  "Verify demoKdf demoHash ''Secret1!'' = Verified True False
   \<and> Verify demoKdf demoHash ''Secret2!'' = Verified False False"
proof -
  have salt: "length demoSalt = unat (SaltLength Default)" by (simp add: demoSalt_def Default_def)
  have ver: "argonVersion demoKdf < 2 ^ 63" by (simp add: demoKdf_def)
  have both: "IsArgon2id demoHash \<and> Verify demoKdf demoHash ''Secret1!'' = Verified True False
    \<and> (\<forall>other key'. idKey demoKdf other demoSalt (Iterations Default) (Memory Default)
          (Parallelism Default) (KeyLength Default) = Some key' \<longrightarrow>
         Verify demoKdf demoHash other = Verified (Some key' = idKey demoKdf ''Secret1!'' demoSalt
           (Iterations Default) (Memory Default) (Parallelism Default) (KeyLength Default)) False)"
    by (rule Hash_then_Verify [OF demoHash_hashed salt ver demoKdf_length])
  obtain key' where key': "idKey demoKdf ''Secret2!'' demoSalt (Iterations Default) (Memory Default)
      (Parallelism Default) (KeyLength Default) = Some key'"
    and "(Some key' = idKey demoKdf ''Secret1!'' demoSalt (Iterations Default) (Memory Default)
      (Parallelism Default) (KeyLength Default)) = False"
    by (simp add: demoKdf_def Default_def)
  with both [THEN conjunct2, THEN conjunct2, rule_format, OF key'] both [THEN conjunct2, THEN conjunct1]
  show ?thesis by (simp only: simp_thms)
qed

theorem needsRehash_iff_witness:
  "Verify demoKdf ''$2a$10$pw'' ''pw'' = Verified True True \<and> \<not> IsArgon2id ''$2a$10$pw''"
proof -
  have v: "Verify demoKdf ''$2a$10$pw'' ''pw'' = Verified True True"
    by (simp add: Verify_def hasPrefix_def demoKdf_def)
  have "\<not> IsArgon2id ''$2a$10$pw''" by (simp add: IsArgon2id_def hasPrefix_def)
  with v needsRehash_iff [OF v] show ?thesis by simp
qed

theorem zero_cost_hash_panics_witness:
  "Verify demoKdf (phcString demoKdf (Default\<lparr>Iterations := 0\<rparr>) ''s'' ''k'') ''pw'' = VerifyPanics"
  by (rule zero_cost_hash_panics) (simp_all add: demoKdf_def)

end
