(* ===== verification/Identity_Types.thy ===== *)
theory Identity_Types
  imports Pwhash
begin

text \<open>
  The state of the identity service (\<^verbatim>\<open>internal/identity\<close>) that authentication uses: the rows of
  \<^verbatim>\<open>users\<close>, \<^verbatim>\<open>mfa_totp\<close>, \<^verbatim>\<open>mfa_backup_codes\<close>, \<^verbatim>\<open>password_reset_tokens\<close>, \<^verbatim>\<open>sessions\<close> and
  \<^verbatim>\<open>oauth_refresh_tokens\<close>, the audit trail, the environment a request runs in, and the contract of a
  throttled credential check, which the password and the one-time-code check both promise.

  A request runs at one instant \<open>now\<close>. \<open>dbFails\<close> says which of its database statements fail. The
  organisation of the request is \<open>None\<close> when the context carries none. Nullable columns are options.
\<close>

section \<open>Rows\<close>

record UserRow =
  u_id :: string
  u_username :: string
  u_email :: string
  u_org :: string
  u_passwordHash :: "string option"
  u_enabled :: bool
  u_lockedUntil :: "int option"
  u_failedLoginCount :: nat
  u_lastFailedLoginAt :: "int option"
  u_lastLoginAt :: "int option"
  u_source :: "string option"
  u_directoryID :: "string option"
  u_passwordChangedAt :: "int option"
  u_passwordMustChange :: bool

record TotpRow =
  t_id :: string
  t_user :: string
  t_org :: string
  t_secret :: string
  t_enabled :: bool
  t_failedAttempts :: nat
  t_lastFailedAt :: "int option"
  t_lockedUntil :: "int option"
  t_lastUsedAt :: "int option"

record BackupRow =
  b_id :: string
  b_user :: string
  b_org :: string
  b_hash :: string
  b_used :: bool
  b_usedAt :: "int option"

record ResetRow =
  p_user :: string
  p_org :: string
  p_token :: string
  p_expiresAt :: int
  p_usedAt :: "int option"

record SessionRow =
  s_id :: string
  s_user :: string
  s_org :: string
  s_revoked :: bool

record AuditRow =
  a_action :: string
  a_outcome :: string
  a_actor :: string
  a_target :: string

record id_state =
  users :: "UserRow list"
  totps :: "TotpRow list"
  backups :: "BackupRow list"
  resets :: "ResetRow list"
  sessions :: "SessionRow list"
  revokedKeys :: "(string \<times> int) list"
  refreshTokens :: "(string \<times> string) list"
  audits :: "AuditRow list"

section \<open>Environment\<close>

text \<open>
  What lies outside the repository or is random: the directory connector (\<open>None\<close> when the service has
  none), the TOTP validator of \<^verbatim>\<open>pquerna/otp\<close> (code, secret, instant; \<open>None\<close> is an error), SHA-256
  as hexadecimal text, bcrypt hashing, the random bytes and the identifiers a request draws.
\<close>

record id_env =
  now :: int
  org :: "string option"
  dbFails :: "string \<Rightarrow> bool"
  actor :: string
  passwords :: kdf
  salt :: "string option"
  directoryAuth :: "(string \<Rightarrow> string \<Rightarrow> string \<Rightarrow> bool) option"
  lockoutThreshold :: "int option"
  lockoutDuration :: "int option"
  totpValid :: "string \<Rightarrow> string \<Rightarrow> int \<Rightarrow> bool option"
  sha256Hex :: "string \<Rightarrow> string"
  bcryptHash :: "string \<Rightarrow> string option"
  randomBytes :: "nat \<Rightarrow> string option"
  newID :: "nat \<Rightarrow> string"

datatype id_error =
    ErrNoOrgContext
  | ErrDatabase
  | ErrNoRows
  | ErrInvalidCredentials
  | ErrAccountLocked
  | ErrAccountDisabled
  | ErrUseSingleSignOn
  | ErrUserNotFound
  | ErrPasswordPolicy "string list"
  | ErrHashing
  | ErrTOTPInvalidCode
  | ErrTOTPNotEnabled
  | ErrTOTPLockedOut
  | ErrRandom
  | Panicked

definition inOrg :: "string \<Rightarrow> string \<Rightarrow> UserRow \<Rightarrow> bool" where
  "inOrg oid uid u \<longleftrightarrow> u_id u = uid \<and> u_org u = oid"

text \<open>The audit row is written in the background; a failed write is only logged.\<close>

definition auditIdentity ::
    "id_env \<Rightarrow> string \<Rightarrow> string \<Rightarrow> string \<Rightarrow> string \<Rightarrow> id_state \<Rightarrow> id_state" where
  "auditIdentity env action outcome act target st =
     (if dbFails env ''audit'' then st
      else st\<lparr>audits := audits st @ [\<lparr>a_action = action, a_outcome = outcome, a_actor = act,
                                     a_target = target\<rparr>]\<rparr>)"

text \<open>The actor of a request context.\<close>

definition actorIDFromContext :: "id_env \<Rightarrow> string" where
  "actorIDFromContext env = (if actor env \<noteq> [] then actor env else ''system'')"

lemma auditIdentity_fields [simp]:
  "users (auditIdentity env x y z w st) = users st"
  "totps (auditIdentity env x y z w st) = totps st"
  "backups (auditIdentity env x y z w st) = backups st"
  "resets (auditIdentity env x y z w st) = resets st"
  "sessions (auditIdentity env x y z w st) = sessions st"
  "revokedKeys (auditIdentity env x y z w st) = revokedKeys st"
  "refreshTokens (auditIdentity env x y z w st) = refreshTokens st"
  by (simp_all add: auditIdentity_def)

section \<open>Throttled credential checks\<close>

text \<open>
  The contract of a check that counts wrong guesses: while the lock holds a guess is refused unseen;
  otherwise it is examined, counted, and from the limit on each counted guess sets the lock anew.
  \<open>attempt\<close> answers whether the guess was examined. The client's theorem: however many guesses are
  made and however they are timed, those examined within a window are at most the limit plus one per
  lock period that fits into the window.
\<close>

fun examined :: "('e \<Rightarrow> 's \<Rightarrow> 's \<times> bool) \<Rightarrow> 'e list \<Rightarrow> 's \<Rightarrow> nat" where
  "examined f [] s = 0"
| "examined f (e # es) s = (case f e s of (s', seen) \<Rightarrow> (if seen then 1 else 0) + examined f es s')"

locale throttle =
  fixes attempt :: "'e \<Rightarrow> 's \<Rightarrow> 's \<times> bool"
    and time :: "'e \<Rightarrow> int"
    and wrong :: "'e \<Rightarrow> bool"
    and inv :: "'s \<Rightarrow> bool"
    and count :: "'s \<Rightarrow> nat"
    and lock :: "'s \<Rightarrow> int option"
    and limit :: nat
    and period :: int
  assumes keeps: "inv s \<Longrightarrow> wrong e \<Longrightarrow> attempt e s = (s', seen) \<Longrightarrow> inv s'"
    and locked: "\<lbrakk>inv s; wrong e; lock s = Some u; time e < u; attempt e s = (s', seen)\<rbrakk>
      \<Longrightarrow> \<not> seen \<and> count s' = count s \<and> lock s' = lock s"
    and counted: "\<lbrakk>inv s; wrong e; \<forall>u. lock s = Some u \<longrightarrow> u \<le> time e; attempt e s = (s', seen)\<rbrakk>
      \<Longrightarrow> seen \<and> count s' = Suc (count s)
        \<and> lock s' = (if limit \<le> Suc (count s) then Some (time e + period) else lock s)"
begin

text \<open>The examined guesses that still fit between \<open>t\<close> and \<open>t1\<close> once every one sets the lock.\<close>

definition slots :: "int \<Rightarrow> int \<Rightarrow> int" where
  "slots t1 t = (if t1 < t then 0 else (t1 - t) div period + 1)"

lemma slots_next: "0 < period \<Longrightarrow> t \<le> t1 \<Longrightarrow> 1 + slots t1 (t + period) = slots t1 t"
proof -
  assume period_pos: "0 < period" and "t \<le> t1"
  have "(t1 - t) div period = (t1 - (t + period)) div period + 1"
    using period_pos div_add_self2 [of period "t1 - (t + period)"] by (simp add: algebra_simps)
  moreover have "t1 < t + period \<Longrightarrow> (t1 - t) div period = 0"
    using \<open>t \<le> t1\<close> by (simp add: div_pos_pos_trivial)
  ultimately show ?thesis using \<open>t \<le> t1\<close> by (auto simp: slots_def)
qed

lemma slots_nonneg: "0 < period \<Longrightarrow> 0 \<le> slots t1 t"
  using pos_imp_zdiv_nonneg_iff [of period "t1 - t"] by (auto simp: slots_def)

lemma slots_anti: "0 < period \<Longrightarrow> t \<le> t' \<Longrightarrow> slots t1 t' \<le> slots t1 t"
  using slots_nonneg [of t1 t] by (auto simp: slots_def zdiv_mono1)

lemma div_anti: "0 < period \<Longrightarrow> t \<le> t' \<Longrightarrow> (t1 - t') div period \<le> (t1 - t) div period"
  by (simp add: zdiv_mono1)

definition budget :: "'s \<Rightarrow> int \<Rightarrow> int \<Rightarrow> int" where
  "budget s t0 t1 =
     (if limit \<le> count s
      then slots t1 (max t0 (case lock s of None \<Rightarrow> t0 | Some u \<Rightarrow> u))
      else int (limit - count s) + (t1 - t0) div period)"

lemma examined_budget:
  assumes period_pos: "0 < period" and "inv s" and "list_all wrong es" and "sorted (t0 # map time es)"
    and "\<forall>e \<in> set es. time e \<le> t1" and "t0 \<le> t1"
  shows "int (examined attempt es s) \<le> budget s t0 t1"
  using assms(2-)
proof (induction es arbitrary: s t0)
  case Nil
  then show ?case
    using period_pos by (auto simp: budget_def slots_nonneg pos_imp_zdiv_nonneg_iff)
next
  case (Cons e es)
  obtain s' seen where eq: "attempt e s = (s', seen)" by fastforce
  let ?t = "time e"
  from Cons.prems have t: "t0 \<le> ?t" "?t \<le> t1" and w: "wrong e" by auto
  from Cons.prems eq have "inv s'" using keeps by auto
  with Cons have IH: "int (examined attempt es s') \<le> budget s' ?t t1" by simp
  show ?case
  proof (cases "\<exists>u. lock s = Some u \<and> ?t < u")
    case True
    then obtain u where u: "lock s = Some u" "?t < u" by blast
    with locked [OF Cons.prems(1) w u(1,2) eq] have "\<not> seen" "count s' = count s" "lock s' = Some u"
      by auto
    with IH eq t u show ?thesis
      using div_anti [OF period_pos, of t0 ?t t1] by (auto simp: budget_def max_def)
  next
    case False
    then have "\<forall>u. lock s = Some u \<longrightarrow> u \<le> ?t" by force
    note c = counted [OF Cons.prems(1) w this eq]
    let ?u = "case lock s of None \<Rightarrow> t0 | Some u \<Rightarrow> u"
    have "max t0 ?u \<le> ?t" using False t by (auto split: option.split)
    then have anti: "slots t1 ?t \<le> slots t1 (max t0 ?u)" by (rule slots_anti [OF period_pos])
    show ?thesis
    proof (cases "limit \<le> Suc (count s)")
      case True
      with c have s': "seen" "count s' = Suc (count s)" "lock s' = Some (?t + period)" by auto
      with IH True have "int (examined attempt es s') \<le> slots t1 (?t + period)"
        using period_pos by (simp add: budget_def max_def)
      then have "int (examined attempt (e # es) s) \<le> slots t1 ?t"
        using slots_next [OF period_pos t(2)] eq s' by simp
      moreover have "slots t1 ?t \<le> budget s t0 t1"
        using True anti t div_anti [OF period_pos, of t0 ?t t1] by (auto simp: budget_def slots_def)
      ultimately show ?thesis by linarith
    next
      case False
      with c have s': "seen" "count s' = Suc (count s)" "lock s' = lock s" by auto
      with IH False eq show ?thesis
        using div_anti [OF period_pos t(1), of t1] by (simp add: budget_def of_nat_diff)
    qed
  qed
qed

lemma guess_bound:
  assumes period_pos: "0 < period" and "inv s" and "list_all wrong es" and "sorted (t0 # map time es)"
    and "\<forall>e \<in> set es. time e \<le> t1" and "t0 \<le> t1" and "count s < limit"
  shows "int (examined attempt es s) \<le> int (limit - count s) + (t1 - t0) div period"
  using examined_budget [OF assms(1-6)] assms(7) by (simp add: budget_def)

end

end
