(* ===== verification/Identity_Login.thy ===== *)
theory Identity_Login
  imports Identity_Types
begin

text \<open>
  Password login, after \<^verbatim>\<open>internal/identity/service.go\<close>: \<open>AuthenticateUser\<close> with its directory, single
  sign-on and local branches, the failure counter and lock of \<open>recordFailedLogin\<close>, the rewrite of old
  password hashes, and the session revocation and lock queries the service offers.

  The theorems: a successful login means an enabled, unlocked account of the organisation whose
  credential was checked; the number of guesses examined in any window is bounded; a database failure
  in the counter leaves the guess uncounted; a rewritten hash still accepts the password.

  When a name matches the username of one account and the email of another, the database returns
  either row; the model takes the first.
\<close>

section \<open>Lockout\<close>

text \<open>\<^verbatim>\<open>time.Duration(m) * time.Minute\<close>, a product of 64-bit integers.\<close>

definition durationMinutes :: "int \<Rightarrow> int" where
  "durationMinutes m = sint (word_of_int (m * minute) :: 64 word)"

definition lockoutPolicy :: "id_env \<Rightarrow> int \<times> int" where
  "lockoutPolicy env =
     ((case lockoutThreshold env of Some v \<Rightarrow> if 0 < v then v else 5 | None \<Rightarrow> 5),
      durationMinutes (case lockoutDuration env of Some v \<Rightarrow> if 0 < v then v else 15 | None \<Rightarrow> 15))"

definition failedLoginIncrement :: "id_env \<Rightarrow> UserRow \<Rightarrow> UserRow" where
  "failedLoginIncrement env u =
     (case lockoutPolicy env of (maxFailures, lockout) \<Rightarrow>
        u\<lparr>u_failedLoginCount := u_failedLoginCount u + 1,
          u_lastFailedLoginAt := Some (now env),
          u_lockedUntil := (if maxFailures \<le> int (u_failedLoginCount u) + 1
                            then Some (now env + lockout) else u_lockedUntil u)\<rparr>)"

definition recordFailedLogin ::
    "id_env \<Rightarrow> (UserRow \<Rightarrow> bool) \<Rightarrow> id_state \<Rightarrow> id_error + id_state" where
  "recordFailedLogin env subject st =
     (case org env of
        None \<Rightarrow> Inl ErrNoOrgContext
      | Some oid \<Rightarrow>
          (let matches = (\<lambda>u. subject u \<and> u_org u = oid) in
           if dbFails env ''failedLogin'' then Inl ErrDatabase
           else if countWhere matches (users st) = 0 then Inl ErrNoRows
           else Inr (st\<lparr>users := updateWhere matches (failedLoginIncrement env) (users st)\<rparr>)))"

definition RecordFailedLogin :: "id_env \<Rightarrow> string \<Rightarrow> id_state \<Rightarrow> id_error + id_state" where
  "RecordFailedLogin env username st = recordFailedLogin env (\<lambda>u. u_username u = username) st"

definition recordFailedLoginForUser :: "id_env \<Rightarrow> string \<Rightarrow> id_state \<Rightarrow> id_error + id_state" where
  "recordFailedLoginForUser env uid st = recordFailedLogin env (\<lambda>u. u_id u = uid) st"

definition ClearFailedLogins :: "id_env \<Rightarrow> string \<Rightarrow> id_state \<Rightarrow> id_error + id_state" where
  "ClearFailedLogins env username st =
     (case org env of
        None \<Rightarrow> Inl ErrNoOrgContext
      | Some oid \<Rightarrow>
          (if dbFails env ''clearFailedLogins'' then Inl ErrDatabase
           else Inr (st\<lparr>users := updateWhere (\<lambda>u. u_username u = username \<and> u_org u = oid)
             (\<lambda>u. u\<lparr>u_failedLoginCount := 0, u_lastFailedLoginAt := None, u_lockedUntil := None\<rparr>)
             (users st)\<rparr>)))"

definition lockHolds :: "int \<Rightarrow> int option \<Rightarrow> bool" where
  "lockHolds t lock = (case lock of Some u \<Rightarrow> t < u | None \<Rightarrow> False)"

definition IsAccountLocked :: "id_env \<Rightarrow> string \<Rightarrow> id_state \<Rightarrow> id_error + bool" where
  "IsAccountLocked env username st =
     (case org env of
        None \<Rightarrow> Inl ErrNoOrgContext
      | Some oid \<Rightarrow>
          (if dbFails env ''selectLock'' then Inl ErrDatabase
           else (case find (\<lambda>u. u_username u = username \<and> u_org u = oid) (users st) of
                   None \<Rightarrow> Inl ErrNoRows
                 | Some u \<Rightarrow> Inr (lockHolds (now env) (u_lockedUntil u)))))"

definition onFailedLogin :: "id_env \<Rightarrow> string \<Rightarrow> id_state \<Rightarrow> id_state" where
  "onFailedLogin env uid st =
     auditIdentity env ''user.login_failed'' ''failure'' uid uid
       (case recordFailedLoginForUser env uid st of Inl _ \<Rightarrow> st | Inr st' \<Rightarrow> st')"

section \<open>Login\<close>

text \<open>The update is guarded by the hash that was verified. \<open>None\<close> is a panic of the derivation.\<close>

definition upgradePasswordHash ::
    "id_env \<Rightarrow> string \<Rightarrow> string \<Rightarrow> string \<Rightarrow> string \<Rightarrow> id_state \<Rightarrow> id_state option" where
  "upgradePasswordHash env uid oid password verifiedHash st =
     (case pwHash (passwords env) (salt env) password of
        HashPanics \<Rightarrow> None
      | HashFails \<Rightarrow> Some st
      | Hashed h \<Rightarrow>
          (if dbFails env ''upgradeHash'' then Some st
           else Some (st\<lparr>users := updateWhere
             (\<lambda>u. inOrg oid uid u \<and> u_passwordHash u = Some verifiedHash)
             (\<lambda>u. u\<lparr>u_passwordHash := Some h\<rparr>) (users st)\<rparr>)))"

definition GetUser :: "id_env \<Rightarrow> string \<Rightarrow> id_state \<Rightarrow> id_error + UserRow" where
  "GetUser env uid st =
     (case org env of
        None \<Rightarrow> Inl ErrNoOrgContext
      | Some oid \<Rightarrow>
          (if dbFails env ''getUser'' then Inl ErrDatabase
           else (case find (inOrg oid uid) (users st) of
                   None \<Rightarrow> Inl ErrUserNotFound
                 | Some u \<Rightarrow> Inr u)))"

datatype credential_check =
    Accepted "string option"
  | Rejected
  | NoPassword
  | SingleSignOnOnly
  | CheckPanics

definition checkLocal :: "id_env \<Rightarrow> string \<Rightarrow> string \<Rightarrow> credential_check" where
  "checkLocal env password hash =
     (if hash = [] then NoPassword
      else (case Verify (passwords env) hash password of
              VerifyPanics \<Rightarrow> CheckPanics
            | Unreadable _ \<Rightarrow> Rejected
            | Verified ok needsRehash \<Rightarrow>
                (if \<not> ok then Rejected else Accepted (if needsRehash then Some hash else None))))"

definition checkCredential ::
    "id_env \<Rightarrow> string \<Rightarrow> string \<Rightarrow> UserRow \<Rightarrow> string \<Rightarrow> credential_check" where
  "checkCredential env username password u hash =
     (case u_source u of
        None \<Rightarrow> checkLocal env password hash
      | Some src \<Rightarrow>
          (case (u_directoryID u, directoryAuth env) of
             (Some dir, Some auth) \<Rightarrow>
               (if src = ''ldap'' \<or> src = ''active_directory''
                then (if auth dir username password then Accepted None else Rejected)
                else if src = ''azure_ad'' then SingleSignOnOnly
                else checkLocal env password hash)
           | _ \<Rightarrow>
               (if src = ''azure_ad'' then SingleSignOnOnly else checkLocal env password hash)))"

definition loginSucceeded ::
    "id_env \<Rightarrow> string \<Rightarrow> string \<Rightarrow> id_state \<Rightarrow> (id_error + UserRow) \<times> id_state" where
  "loginSucceeded env oid uid st =
     (let st1 = (if dbFails env ''loginStats'' then st
                 else st\<lparr>users := updateWhere (inOrg oid uid)
                   (\<lambda>u. u\<lparr>u_failedLoginCount := 0, u_lastLoginAt := Some (now env),
                           u_lockedUntil := None\<rparr>) (users st)\<rparr>);
          st2 = auditIdentity env ''user.login_succeeded'' ''success'' uid uid st1 in
      (GetUser env uid st2, st2))"

definition loginRow :: "string \<Rightarrow> string \<Rightarrow> UserRow \<Rightarrow> bool" where
  "loginRow oid name u \<longleftrightarrow> (u_username u = name \<or> u_email u = name) \<and> u_org u = oid"

text \<open>A row without a password hash fails to scan, whatever its source, and reads as not found.\<close>

definition AuthenticateUser ::
    "id_env \<Rightarrow> string \<Rightarrow> string \<Rightarrow> id_state \<Rightarrow> (id_error + UserRow) \<times> id_state" where
  "AuthenticateUser env username password st =
     (case org env of
        None \<Rightarrow> (Inl ErrNoOrgContext, st)
      | Some oid \<Rightarrow>
          (if dbFails env ''selectUser'' then (Inl ErrInvalidCredentials, st)
           else (case find (loginRow oid username) (users st) of
                   None \<Rightarrow> (Inl ErrInvalidCredentials, st)
                 | Some u \<Rightarrow>
          (case u_passwordHash u of
             None \<Rightarrow> (Inl ErrInvalidCredentials, st)
           | Some hash \<Rightarrow>
             (if \<not> u_enabled u then
                (Inl ErrAccountDisabled,
                 auditIdentity env ''user.login_denied'' ''failure'' (u_id u) (u_id u) st)
              else if lockHolds (now env) (u_lockedUntil u) then
                (Inl ErrAccountLocked,
                 auditIdentity env ''user.login_denied'' ''failure'' (u_id u) (u_id u) st)
              else (case checkCredential env username password u hash of
                      Rejected \<Rightarrow> (Inl ErrInvalidCredentials, onFailedLogin env (u_id u) st)
                    | NoPassword \<Rightarrow> (Inl ErrInvalidCredentials, st)
                    | SingleSignOnOnly \<Rightarrow> (Inl ErrUseSingleSignOn, st)
                    | CheckPanics \<Rightarrow> (Inl Panicked, st)
                    | Accepted None \<Rightarrow> loginSucceeded env oid (u_id u) st
                    | Accepted (Some old) \<Rightarrow>
                        (case upgradePasswordHash env (u_id u) oid password old st of
                           None \<Rightarrow> (Inl Panicked, st)
                         | Some st1 \<Rightarrow> loginSucceeded env oid (u_id u) st1)))))))"

section \<open>Sessions\<close>

text \<open>Every session that is not revoked and every refresh token of the user; the code revokes the
  sessions one statement at a time and stops at the first that fails, keeping those already revoked.
  \<^verbatim>\<open>oauth_refresh_tokens\<close> is kept here as pairs of user and organisation.\<close>

fun revokeSessions :: "id_env \<Rightarrow> string \<Rightarrow> string list \<Rightarrow> id_state \<Rightarrow> (id_error option) \<times> id_state" where
  "revokeSessions env oid [] st = (None, st)"
| "revokeSessions env oid (sid # sids) st =
     (if dbFails env (''revokeSession '' @ sid) then (Some ErrDatabase, st)
      else revokeSessions env oid sids
        (st\<lparr>sessions := updateWhere (\<lambda>s. s_id s = sid \<and> s_org s = oid)
          (\<lambda>s. s\<lparr>s_revoked := True\<rparr>) (sessions st),
            revokedKeys := (''revoked_session:'' @ sid, now env + 25 * hour) # revokedKeys st\<rparr>))"

definition RevokeUserSessionsOnPasswordChange ::
    "id_env \<Rightarrow> string \<Rightarrow> id_state \<Rightarrow> (id_error option) \<times> id_state" where
  "RevokeUserSessionsOnPasswordChange env uid st =
     (case org env of
        None \<Rightarrow> (Some ErrNoOrgContext, st)
      | Some oid \<Rightarrow>
          (if dbFails env ''selectSessions'' then (Some ErrDatabase, st)
           else (case revokeSessions env oid
                   (map s_id (filter (\<lambda>s. s_user s = uid \<and> s_org s = oid \<and> \<not> s_revoked s) (sessions st)))
                   st of
                   (Some e, st1) \<Rightarrow> (Some e, st1)
                 | (None, st1) \<Rightarrow>
                     (if dbFails env ''deleteRefreshTokens'' then (Some ErrDatabase, st1)
                      else (None, st1\<lparr>refreshTokens :=
                        deleteWhere (\<lambda>(u, o'). u = uid \<and> o' = oid) (refreshTokens st1)\<rparr>)))))"

section \<open>Properties\<close>

lemma find_inOrg_update:
  assumes "\<And>u. u_id (f u) = u_id u" and "\<And>u. u_org (f u) = u_org u"
  shows "find (inOrg oid uid) (updateWhere (inOrg oid uid) f us) = map_option f (find (inOrg oid uid) us)"
  using assms by (induction us) (auto simp: updateWhere_Cons inOrg_def)

lemma checkLocal_accepts:
  "checkLocal env pw hash = Accepted old \<longleftrightarrow> hash \<noteq> [] \<and>
     (\<exists>r. Verify (passwords env) hash pw = Verified True r \<and> old = (if r then Some hash else None))"
  by (auto simp: checkLocal_def split: verify_result.splits)

definition directoryManaged :: "id_env \<Rightarrow> UserRow \<Rightarrow> bool" where
  "directoryManaged env u \<longleftrightarrow> u_source u \<in> {Some ''ldap'', Some ''active_directory''}
     \<and> u_directoryID u \<noteq> None \<and> directoryAuth env \<noteq> None"

lemma checkCredential_accepts:
  "checkCredential env name pw u hash = Accepted old \<longleftrightarrow>
     (if directoryManaged env u
      then the (directoryAuth env) (the (u_directoryID u)) name pw \<and> old = None
      else u_source u \<noteq> Some ''azure_ad'' \<and> checkLocal env pw hash = Accepted old)"
  by (auto simp: checkCredential_def directoryManaged_def split: option.splits if_splits)

lemma AuthenticateUser_success_cases:
  assumes "AuthenticateUser env name pw st = (Inr u', st')"
  obtains oid u hash old st1 where "org env = Some oid" "find (loginRow oid name) (users st) = Some u"
    "u_passwordHash u = Some hash" "u_enabled u" "\<not> lockHolds (now env) (u_lockedUntil u)"
    "checkCredential env name pw u hash = Accepted old"
    "case old of None \<Rightarrow> st1 = st | Some h \<Rightarrow> upgradePasswordHash env (u_id u) oid pw h st = Some st1"
    "loginSucceeded env oid (u_id u) st1 = (Inr u', st')"
  using assms unfolding AuthenticateUser_def
  by (auto split: option.splits if_splits credential_check.splits)

lemma upgradePasswordHash_shape:
  assumes "upgradePasswordHash env uid oid pw old st = Some st1"
  obtains "st1 = st" | h where "pwHash (passwords env) (salt env) pw = Hashed h"
    "st1 = st\<lparr>users := updateWhere (\<lambda>u. inOrg oid uid u \<and> u_passwordHash u = Some old)
      (\<lambda>u. u\<lparr>u_passwordHash := Some h\<rparr>) (users st)\<rparr>"
  using assms unfolding upgradePasswordHash_def by (auto split: hash_result.splits if_splits)

lemma loginSucceeded_user:
  assumes "loginSucceeded env oid uid st = (Inr u', st')" and "org env = Some oid"
  shows "find (inOrg oid uid) (users st') = Some u'"
    and "\<not> dbFails env ''loginStats'' \<Longrightarrow> u_failedLoginCount u' = 0 \<and> u_lockedUntil u' = None"
    and "filter (\<lambda>v. \<not> inOrg oid uid v) (users st') = filter (\<lambda>v. \<not> inOrg oid uid v) (users st)"
proof -
  let ?f = "\<lambda>u. u\<lparr>u_failedLoginCount := 0, u_lastLoginAt := Some (now env), u_lockedUntil := None\<rparr>"
  let ?us = "if dbFails env ''loginStats'' then users st else updateWhere (inOrg oid uid) ?f (users st)"
  from assms have us: "users st' = ?us" and u': "find (inOrg oid uid) ?us = Some u'"
    by (auto simp: loginSucceeded_def GetUser_def Let_def split: if_splits option.splits)
  then show "find (inOrg oid uid) (users st') = Some u'" by simp
  show "\<not> dbFails env ''loginStats'' \<Longrightarrow> u_failedLoginCount u' = 0 \<and> u_lockedUntil u' = None"
    using u' by (auto simp: find_inOrg_update)
  show "filter (\<lambda>v. \<not> inOrg oid uid v) (users st') = filter (\<lambda>v. \<not> inOrg oid uid v) (users st)"
    unfolding us by (auto intro: filter_updateWhere_same simp: inOrg_def)
qed

lemma upgrade_others:
  assumes "upgradePasswordHash env uid oid pw old st = Some st1"
  shows "filter (\<lambda>v. \<not> inOrg oid uid v) (users st1) = filter (\<lambda>v. \<not> inOrg oid uid v) (users st)"
  using assms
  by (rule upgradePasswordHash_shape) (auto intro: filter_updateWhere_same simp: inOrg_def)

text \<open>
  C22: a login succeeds only for an account of the organisation of the request that the name selects,
  that is enabled and not locked, and whose credential was checked: by the directory for a
  directory-managed account, against the stored hash otherwise, and never for a single sign-on
  account. It returns that account, clears its failure counter and lock, and changes no other.
\<close>

theorem AuthenticateUser_sound:
  assumes "AuthenticateUser env name pw st = (Inr u', st')"
  shows "\<exists>oid u hash. org env = Some oid \<and> find (loginRow oid name) (users st) = Some u
     \<and> u_passwordHash u = Some hash \<and> u_enabled u \<and> \<not> lockHolds (now env) (u_lockedUntil u)
     \<and> (if directoryManaged env u then the (directoryAuth env) (the (u_directoryID u)) name pw
        else u_source u \<noteq> Some ''azure_ad'' \<and> hash \<noteq> []
          \<and> (\<exists>r. Verify (passwords env) hash pw = Verified True r))
     \<and> u_id u' = u_id u \<and> u_org u' = oid \<and> u' \<in> set (users st')
     \<and> (\<not> dbFails env ''loginStats'' \<longrightarrow> u_failedLoginCount u' = 0 \<and> u_lockedUntil u' = None)
     \<and> filter (\<lambda>v. \<not> inOrg oid (u_id u) v) (users st') =
         filter (\<lambda>v. \<not> inOrg oid (u_id u) v) (users st)"
  using assms
proof (rule AuthenticateUser_success_cases)
  fix oid u hash old st1
  assume ok: "org env = Some oid" "find (loginRow oid name) (users st) = Some u"
    "u_passwordHash u = Some hash" "u_enabled u" "\<not> lockHolds (now env) (u_lockedUntil u)"
    and cred: "checkCredential env name pw u hash = Accepted old"
    and up: "case old of None \<Rightarrow> st1 = st
      | Some h \<Rightarrow> upgradePasswordHash env (u_id u) oid pw h st = Some st1"
    and fin: "loginSucceeded env oid (u_id u) st1 = (Inr u', st')"
  note fin_user = loginSucceeded_user [OF fin ok(1)]
  from fin_user(1) have "u' \<in> set (users st')" "u_id u' = u_id u" "u_org u' = oid"
    by (auto dest!: find_Some_mem simp: inOrg_def)
  moreover from up have "filter (\<lambda>v. \<not> inOrg oid (u_id u) v) (users st1) =
      filter (\<lambda>v. \<not> inOrg oid (u_id u) v) (users st)"
    by (auto split: option.splits intro: upgrade_others)
  moreover from cred have "if directoryManaged env u
      then the (directoryAuth env) (the (u_directoryID u)) name pw
      else u_source u \<noteq> Some ''azure_ad'' \<and> hash \<noteq> []
          \<and> (\<exists>r. Verify (passwords env) hash pw = Verified True r)"
    unfolding checkCredential_accepts checkLocal_accepts by (auto split: if_splits)
  ultimately show ?thesis using ok fin_user by metis
qed

subsection \<open>The lockout bounds guessing\<close>

text \<open>The columns of an account that failed logins leave alone, and the states in which both names
  of the account \<open>a\<close> select its row.\<close>

definition sameAccount :: "UserRow \<Rightarrow> UserRow \<Rightarrow> bool" where
  "sameAccount a u \<longleftrightarrow> u_id u = u_id a \<and> u_org u = u_org a \<and> u_username u = u_username a
     \<and> u_email u = u_email a \<and> u_passwordHash u = u_passwordHash a \<and> u_enabled u = u_enabled a
     \<and> u_source u = u_source a \<and> u_directoryID u = u_directoryID a"

definition accountRow :: "UserRow \<Rightarrow> id_state \<Rightarrow> UserRow option" where
  "accountRow a st = find (inOrg (u_org a) (u_id a)) (users st)"

definition accountNamed :: "UserRow \<Rightarrow> id_state \<Rightarrow> bool" where
  "accountNamed a st \<longleftrightarrow> u_enabled a \<and> u_passwordHash a \<noteq> None
     \<and> (case accountRow a st of
          None \<Rightarrow> False
        | Some u \<Rightarrow> sameAccount a u
            \<and> find (loginRow (u_org a) (u_username a)) (users st) = Some u
            \<and> find (loginRow (u_org a) (u_email a)) (users st) = Some u)"

text \<open>A login request, and that it presents a wrong password for \<open>a\<close> under a lockout policy.\<close>

type_synonym login = "id_env \<times> string \<times> string"

definition loginTime :: "login \<Rightarrow> int" where
  "loginTime = (\<lambda>(env, name, pw). now env)"

definition wrongPassword :: "UserRow \<Rightarrow> nat \<Rightarrow> int \<Rightarrow> login \<Rightarrow> bool" where
  "wrongPassword a limit period = (\<lambda>(env, name, pw).
     org env = Some (u_org a) \<and> \<not> dbFails env ''selectUser'' \<and> \<not> dbFails env ''failedLogin''
     \<and> (name = u_username a \<or> name = u_email a) \<and> lockoutPolicy env = (int limit, period)
     \<and> checkCredential env name pw a (the (u_passwordHash a)) = Rejected)"

definition loginAttempt :: "login \<Rightarrow> id_state \<Rightarrow> id_state \<times> bool" where
  "loginAttempt = (\<lambda>(env, name, pw) st.
     (case AuthenticateUser env name pw st of
        (r, st') \<Rightarrow> (st', r \<noteq> Inl ErrAccountLocked)))"

definition failures :: "UserRow \<Rightarrow> id_state \<Rightarrow> nat" where
  "failures a st = (case accountRow a st of None \<Rightarrow> 0 | Some u \<Rightarrow> u_failedLoginCount u)"

definition lockOf :: "UserRow \<Rightarrow> id_state \<Rightarrow> int option" where
  "lockOf a st = (case accountRow a st of None \<Rightarrow> None | Some u \<Rightarrow> u_lockedUntil u)"

lemma checkCredential_sameAccount:
  "sameAccount a u \<Longrightarrow> checkCredential env name pw u h = checkCredential env name pw a h"
  by (simp add: checkCredential_def sameAccount_def split: option.split)

lemma AuthenticateUser_wrong:
  assumes "accountNamed a st" and "wrongPassword a limit period (env, name, pw)"
  obtains u where "accountRow a st = Some u" "sameAccount a u"
    "AuthenticateUser env name pw st =
      (if lockHolds (now env) (u_lockedUntil u)
       then (Inl ErrAccountLocked,
             auditIdentity env ''user.login_denied'' ''failure'' (u_id a) (u_id a) st)
       else (Inl ErrInvalidCredentials, onFailedLogin env (u_id a) st))"
proof -
  from assms(1) obtain u h where u: "accountRow a st = Some u" "sameAccount a u"
    and h: "u_passwordHash a = Some h" and en: "u_enabled a"
    and finds: "find (loginRow (u_org a) (u_username a)) (users st) = Some u"
      "find (loginRow (u_org a) (u_email a)) (users st) = Some u"
    by (auto simp: accountNamed_def split: option.splits)
  from assms(2) finds have f: "find (loginRow (u_org a) name) (users st) = Some u"
    by (auto simp: wrongPassword_def)
  from u(2) h en have same: "u_passwordHash u = Some h" "u_enabled u" "u_id u = u_id a"
    by (simp_all add: sameAccount_def)
  from assms(2) h have "checkCredential env name pw u h = Rejected"
    by (simp add: wrongPassword_def checkCredential_sameAccount [OF u(2)])
  with assms(2) f same
  have "AuthenticateUser env name pw st =
      (if lockHolds (now env) (u_lockedUntil u)
       then (Inl ErrAccountLocked,
             auditIdentity env ''user.login_denied'' ''failure'' (u_id a) (u_id a) st)
       else (Inl ErrInvalidCredentials, onFailedLogin env (u_id a) st))"
    by (simp add: AuthenticateUser_def wrongPassword_def)
  with u show thesis by (rule that)
qed

lemma users_onFailedLogin:
  assumes "accountRow a st = Some u" and "org env = Some (u_org a)" and "\<not> dbFails env ''failedLogin''"
  shows "users (onFailedLogin env (u_id a) st) =
    updateWhere (inOrg (u_org a) (u_id a)) (failedLoginIncrement env) (users st)"
proof -
  have "\<exists>r \<in> set (users st). u_id r = u_id a \<and> u_org r = u_org a"
    using find_Some_mem [OF assms(1) [unfolded accountRow_def]] by (auto simp: inOrg_def)
  with assms(2,3) show ?thesis
    by (auto simp: onFailedLogin_def recordFailedLoginForUser_def recordFailedLogin_def Let_def
        inOrg_def [abs_def])
qed

lemma failedLoginIncrement_keeps [simp]:
  "u_id (failedLoginIncrement env u) = u_id u" "u_org (failedLoginIncrement env u) = u_org u"
  "u_username (failedLoginIncrement env u) = u_username u"
  "u_email (failedLoginIncrement env u) = u_email u"
  "sameAccount a (failedLoginIncrement env u) = sameAccount a u"
  by (simp_all add: failedLoginIncrement_def sameAccount_def split: prod.split)

lemma find_after_failure:
  "find (inOrg oid uid) (updateWhere Q (failedLoginIncrement env) us) =
     map_option (\<lambda>r. if Q r then failedLoginIncrement env r else r) (find (inOrg oid uid) us)"
  "find (loginRow oid name) (updateWhere Q (failedLoginIncrement env) us) =
     map_option (\<lambda>r. if Q r then failedLoginIncrement env r else r) (find (loginRow oid name) us)"
  by (rule find_updateWhere, simp add: inOrg_def loginRow_def)+

lemma wrong_login_counts:
  assumes "accountNamed a st" and "wrongPassword a limit period (env, name, pw)"
    and "accountRow a st = Some u"
  shows "accountRow a (onFailedLogin env (u_id a) st) = Some (failedLoginIncrement env u)"
    and "accountNamed a (onFailedLogin env (u_id a) st)"
proof -
  from assms(2) have e: "org env = Some (u_org a)" "\<not> dbFails env ''failedLogin''"
    by (simp_all add: wrongPassword_def)
  note us = users_onFailedLogin [OF assms(3) e]
  from assms(3) have "inOrg (u_org a) (u_id a) u"
    by (auto simp: accountRow_def dest: find_Some_mem)
  with assms(3) show row: "accountRow a (onFailedLogin env (u_id a) st) = Some (failedLoginIncrement env u)"
    by (simp add: accountRow_def us find_after_failure)
  with assms(1,3) \<open>inOrg _ _ u\<close> show "accountNamed a (onFailedLogin env (u_id a) st)"
    by (simp add: accountNamed_def us find_after_failure)
qed

lemma accountNamed_audit [simp]:
  "accountNamed a (auditIdentity env x y z w st) = accountNamed a st"
  "accountRow a (auditIdentity env x y z w st) = accountRow a st"
  unfolding accountNamed_def accountRow_def auditIdentity_fields by (rule refl)+

interpretation login: throttle loginAttempt loginTime "wrongPassword a limit period" "accountNamed a"
  "failures a" "lockOf a" limit period for a limit period
proof (unfold_locales, goal_cases)
  case (1 s e s' seen)
  obtain env name pw where e: "e = (env, name, pw)" by (cases e)
  obtain u where "AuthenticateUser env name pw s = (if lockHolds (now env) (u_lockedUntil u)
      then (Inl ErrAccountLocked,
            auditIdentity env ''user.login_denied'' ''failure'' (u_id a) (u_id a) s)
      else (Inl ErrInvalidCredentials, onFailedLogin env (u_id a) s))"
    and "accountRow a s = Some u"
    using AuthenticateUser_wrong [OF 1(1) 1(2) [unfolded e]] by blast
  then show ?case
    using wrong_login_counts(2) [OF 1(1) 1(2) [unfolded e]] 1(1,3) e
    by (auto simp: loginAttempt_def split: if_splits)
next
  case (2 s e u s' seen)
  then show ?case
    by (cases e) (auto simp: loginAttempt_def loginTime_def lockOf_def failures_def lockHolds_def
        split: if_splits elim!: AuthenticateUser_wrong)
next
  case (3 s e s' seen)
  obtain env name pw where e: "e = (env, name, pw)" by (cases e)
  from 3(1) 3(2) [unfolded e] show ?case
  proof (rule AuthenticateUser_wrong)
    fix u
    assume u: "accountRow a s = Some u" "sameAccount a u"
      and eq: "AuthenticateUser env name pw s = (if lockHolds (now env) (u_lockedUntil u)
        then (Inl ErrAccountLocked,
             auditIdentity env ''user.login_denied'' ''failure'' (u_id a) (u_id a) s)
        else (Inl ErrInvalidCredentials, onFailedLogin env (u_id a) s))"
    from 3(3) u e have "\<not> lockHolds (now env) (u_lockedUntil u)"
      by (auto simp: lockOf_def lockHolds_def loginTime_def split: option.splits)
    with eq 3(4) e have s': "s' = onFailedLogin env (u_id a) s" "seen"
      by (auto simp: loginAttempt_def)
    from 3(2) e have pol: "lockoutPolicy env = (int limit, period)" by (simp add: wrongPassword_def)
    from wrong_login_counts(1) [OF 3(1) 3(2) [unfolded e] u(1)] u(1) s' pol e show ?thesis
      by (auto simp: failures_def lockOf_def failedLoginIncrement_def loginTime_def)
  qed
qed


subsection \<open>Rewriting a hash\<close>

lemma unique_selected:
  assumes "distinct (map u_id (users st))" and "find (loginRow oid name) (users st) = Some u"
  shows "find (inOrg oid (u_id u)) (users st) = Some u"
proof -
  from assms(2) have u: "u \<in> set (users st)" "u_org u = oid"
    by (auto dest!: find_Some_mem simp: loginRow_def)
  then obtain w where w: "find (inOrg oid (u_id u)) (users st) = Some w"
    using find_present [of u "users st" "inOrg oid (u_id u)"] by (auto simp: inOrg_def)
  with u have "w = u"
    using distinct_key_eq [OF assms(1), of w u] by (auto dest!: find_Some_mem simp: inOrg_def)
  with w show ?thesis by simp
qed

lemma loginSucceeded_row:
  assumes "loginSucceeded env oid uid st = (Inr u', st')" and "org env = Some oid"
  obtains v where "find (inOrg oid uid) (users st) = Some v"
    "u_passwordHash u' = u_passwordHash v" "u_source u' = u_source v"
  using assms
  by (auto simp: loginSucceeded_def GetUser_def Let_def find_inOrg_update split: if_splits option.splits)

lemma upgraded_row:
  assumes "find (inOrg oid uid) (users st) = Some u" and "u_passwordHash u = Some hash"
    and "upgradePasswordHash env uid oid pw hash st = Some st1"
    and "find (inOrg oid uid) (users st1) = Some v"
  shows "u_source v = u_source u \<and> (u_passwordHash v = Some hash
    \<or> (\<exists>new. pwHash (passwords env) (salt env) pw = Hashed new \<and> u_passwordHash v = Some new))"
  using assms(3)
proof (rule upgradePasswordHash_shape)
  assume "st1 = st"
  with assms show ?thesis by simp
next
  fix new
  assume "pwHash (passwords env) (salt env) pw = Hashed new"
    and st1: "st1 = st\<lparr>users := updateWhere (\<lambda>u. inOrg oid uid u \<and> u_passwordHash u = Some hash)
      (\<lambda>u. u\<lparr>u_passwordHash := Some new\<rparr>) (users st)\<rparr>"
  moreover have "v = u\<lparr>u_passwordHash := Some new\<rparr>"
    using assms(1,2,4) find_Some_mem [OF assms(1)] unfolding st1
    by (simp add: find_updateWhere inOrg_def)
  ultimately show ?thesis by simp
qed

text \<open>
  A login that rewrites an outdated hash keeps the password: after any successful login of a local
  account the stored hash accepts the same password again.
\<close>

theorem login_keeps_password:
  assumes "AuthenticateUser env name pw st = (Inr u', st')" and "u_source u' = None"
    and "salt env = Some slt" and "length slt = unat (SaltLength Default)"
    and "argonVersion (passwords env) < 2 ^ 63"
    and "keyLengthLaw (passwords env)"
    and "distinct (map u_id (users st))"
  shows "\<exists>hash r. u_passwordHash u' = Some hash \<and> Verify (passwords env) hash pw = Verified True r"
  using assms(1)
proof (rule AuthenticateUser_success_cases)
  fix oid u hash old st1
  assume org: "org env = Some oid" and sel: "find (loginRow oid name) (users st) = Some u"
    and h: "u_passwordHash u = Some hash"
    and cred: "checkCredential env name pw u hash = Accepted old"
    and up: "case old of None \<Rightarrow> st1 = st
      | Some h \<Rightarrow> upgradePasswordHash env (u_id u) oid pw h st = Some st1"
    and fin: "loginSucceeded env oid (u_id u) st1 = (Inr u', st')"
  note row = unique_selected [OF assms(7) sel]
  obtain v where v: "find (inOrg oid (u_id u)) (users st1) = Some v"
    "u_passwordHash u' = u_passwordHash v" "u_source u' = u_source v"
    using loginSucceeded_row [OF fin org] by blast
  have old: "\<And>h'. old = Some h' \<Longrightarrow> h' = hash"
    using cred by (auto simp: checkCredential_accepts checkLocal_accepts split: if_splits)
  with up v(1) row h have "u_source v = u_source u \<and> (u_passwordHash v = Some hash
      \<or> (\<exists>new. pwHash (passwords env) (salt env) pw = Hashed new \<and> u_passwordHash v = Some new))"
    using upgraded_row [OF row h _ v(1), of env pw] by (auto split: option.splits)
  moreover from this v(3) assms(2) cred have "\<exists>r. Verify (passwords env) hash pw = Verified True r"
    by (auto simp: checkCredential_def checkLocal_accepts)
  moreover have "Verify (passwords env) new pw = Verified True False"
    if "pwHash (passwords env) (salt env) pw = Hashed new" for new
    by (rule pwHash_verifies [OF _ assms(4,5)]) (use that assms(3,6) in auto)
  ultimately show ?thesis using v(2) by auto
qed

text \<open>
  The lockout duration is computed in 64-bit nanoseconds: a setting above 153722867 minutes wraps
  around, the lock lies in the past, and the account is never locked however many failures it has.
\<close>

theorem huge_lockout_never_locks:
  assumes "lockoutDuration env = Some 153722868"
  shows "\<not> lockHolds (now env) (u_lockedUntil (failedLoginIncrement env (u\<lparr>u_lockedUntil := None\<rparr>)))"
proof -
  have "durationMinutes 153722868 < 0"
    unfolding durationMinutes_def int_word_sint by (simp add: minute_def second_def)
  with assms show ?thesis
    by (simp add: failedLoginIncrement_def lockoutPolicy_def lockHolds_def)
qed

lemma durationMinutes_exact: "0 \<le> m \<Longrightarrow> m \<le> 153722867 \<Longrightarrow> durationMinutes m = m * minute"
  unfolding durationMinutes_def sint_sbintrunc'
  by (rule signed_take_bit_int_eq_self) (simp_all add: minute_def second_def)

section \<open>Witnesses\<close>

definition demoIdEnv :: "int \<Rightarrow> id_env" where
  "demoIdEnv t = \<lparr>now = t, org = Some ''acme'', dbFails = (\<lambda>_. False), actor = [],
     passwords = demoKdf, salt = Some demoSalt, directoryAuth = None,
     lockoutThreshold = Some 2, lockoutDuration = Some 10, totpValid = (\<lambda>c s t. Some (c = s)),
     sha256Hex = (\<lambda>s. s), bcryptHash = (\<lambda>s. Some (''$2a$10$'' @ s)),
     randomBytes = (\<lambda>n. Some (replicate 8 CHR ''A'')), newID = (\<lambda>n. ''id-'' @ dec n)\<rparr>"

definition demoAccount :: UserRow where
  "demoAccount = \<lparr>u_id = ''u1'', u_username = ''alice'', u_email = ''alice@acme'', u_org = ''acme'',
     u_passwordHash = Some ''$2a$10$pw'', u_enabled = True, u_lockedUntil = None,
     u_failedLoginCount = 0, u_lastFailedLoginAt = None, u_lastLoginAt = None, u_source = None,
     u_directoryID = None, u_passwordChangedAt = None, u_passwordMustChange = False\<rparr>"

definition demoIdState :: id_state where
  "demoIdState = \<lparr>users = [demoAccount], totps = [], backups = [], resets = [], sessions = [],
     revokedKeys = [], refreshTokens = [], audits = []\<rparr>"

lemma demo_verify:
  "Verify demoKdf ''$2a$10$pw'' ''pw'' = Verified True True"
  "Verify demoKdf ''$2a$10$pw'' ''no'' = Verified False False"
  by (simp_all add: Verify_def hasPrefix_def demoKdf_def)

lemma demo_login:
  "\<exists>u' st'. AuthenticateUser (demoIdEnv 0) ''alice'' ''pw'' demoIdState = (Inr u', st') \<and> u_source u' = None"
proof -
  obtain h where h: "pwHash demoKdf (Some demoSalt) ''pw'' = Hashed h"
    by (simp add: pwHash_def paramsHash_def demoKdf_def Default_def)
  show ?thesis
    by (simp add: AuthenticateUser_def demoIdEnv_def demoIdState_def demoAccount_def loginRow_def
        lockHolds_def checkCredential_def checkLocal_def demo_verify upgradePasswordHash_def h
        loginSucceeded_def GetUser_def inOrg_def updateWhere_Cons auditIdentity_def)
qed

theorem AuthenticateUser_sound_witness:
  "\<exists>u' st'. AuthenticateUser (demoIdEnv 0) ''alice'' ''pw'' demoIdState = (Inr u', st')
     \<and> u_failedLoginCount u' = 0 \<and> u' \<in> set (users st')"
proof -
  obtain u' st' where ok: "AuthenticateUser (demoIdEnv 0) ''alice'' ''pw'' demoIdState = (Inr u', st')"
    using demo_login by blast
  moreover have "\<not> dbFails (demoIdEnv 0) ''loginStats''" by (simp add: demoIdEnv_def)
  ultimately show ?thesis using AuthenticateUser_sound [OF ok] by blast
qed

definition demoGuesses :: "login list" where
  "demoGuesses = map (\<lambda>t. (demoIdEnv t, ''alice'', ''no'')) [0, 1, 2, 3]"

lemma demoGuesses_wrong: "list_all (wrongPassword demoAccount 2 (10 * minute)) demoGuesses"
  by (simp add: demoGuesses_def wrongPassword_def demoIdEnv_def demoAccount_def checkCredential_def
      checkLocal_def demo_verify lockoutPolicy_def durationMinutes_exact)

lemma demoAccount_named: "accountNamed demoAccount demoIdState"
  by (simp add: accountNamed_def accountRow_def demoIdState_def inOrg_def loginRow_def sameAccount_def)
    (simp add: demoAccount_def)


theorem login_keeps_password_witness:
  "\<exists>u' st' hash r. AuthenticateUser (demoIdEnv 0) ''alice'' ''pw'' demoIdState = (Inr u', st')
     \<and> u_passwordHash u' = Some hash \<and> Verify demoKdf hash ''pw'' = Verified True r"
proof -
  obtain u' st' where ok: "AuthenticateUser (demoIdEnv 0) ''alice'' ''pw'' demoIdState = (Inr u', st')"
    and src: "u_source u' = None"
    using demo_login by blast
  have "\<exists>hash r. u_passwordHash u' = Some hash
      \<and> Verify (passwords (demoIdEnv 0)) hash ''pw'' = Verified True r"
  proof (rule login_keeps_password [OF ok src])
    show "salt (demoIdEnv 0) = Some demoSalt" by (simp add: demoIdEnv_def)
    show "length demoSalt = unat (SaltLength Default)" by (simp add: demoSalt_def Default_def)
    show "argonVersion (passwords (demoIdEnv 0)) < 2 ^ 63" by (simp add: demoIdEnv_def demoKdf_def)
    show "keyLengthLaw (passwords (demoIdEnv 0))" by (simp add: demoIdEnv_def demoKdf_length)
    show "distinct (map u_id (users demoIdState))" by (simp add: demoIdState_def)
  qed
  with ok show ?thesis by (auto simp: demoIdEnv_def)
qed

theorem huge_lockout_never_locks_witness:
  "\<not> lockHolds 0 (u_lockedUntil (failedLoginIncrement ((demoIdEnv 0)\<lparr>lockoutDuration := Some 153722868\<rparr>)
     (demoAccount\<lparr>u_lockedUntil := None\<rparr>)))"
  using huge_lockout_never_locks [of "(demoIdEnv 0)\<lparr>lockoutDuration := Some 153722868\<rparr>" demoAccount]
  by (simp add: demoIdEnv_def)

end
