(* ===== verification/Identity_Mfa.thy ===== *)
theory Identity_Mfa
  imports Identity_Login
begin

text \<open>
  Second factors, after \<^verbatim>\<open>internal/identity/service.go\<close>: one-time passwords with their attempt limit
  (\<open>EnrollTOTP\<close>, \<open>VerifyTOTP\<close>, \<open>recordFailedTOTP\<close>, \<open>DisableTOTP\<close>, \<open>GetTOTPStatus\<close>) and backup codes
  (\<open>GenerateBackupCodes\<close>, \<open>ValidateBackupCode\<close>).

  The validation of a backup code is a read followed by a guarded update; \<open>validateFrom\<close> takes the
  rows that were read as an argument, so that a request may act on rows read before other requests
  ran. The theorems: wrong one-time codes are examined at a bounded rate; enrolment is all or nothing;
  a backup code is accepted at most once in every interleaving; a generated code is accepted; an
  accepted one-time code is accepted again while it is valid; every generation adds to the live codes.
\<close>

section \<open>One-time passwords\<close>

definition validateTOTPWithSkew :: "id_env \<Rightarrow> string \<Rightarrow> string \<Rightarrow> bool" where
  "validateTOTPWithSkew env code secret =
     (case totpValid env (trimSpace code) secret (now env) of None \<Rightarrow> False | Some valid \<Rightarrow> valid)"

definition totpOf :: "string \<Rightarrow> string \<Rightarrow> TotpRow \<Rightarrow> bool" where
  "totpOf oid uid t \<longleftrightarrow> t_user t = uid \<and> t_org t = oid"

text \<open>The deletion and the insertion are one transaction.\<close>

definition EnrollTOTP ::
    "id_env \<Rightarrow> string \<Rightarrow> string \<Rightarrow> string \<Rightarrow> id_state \<Rightarrow> (id_error option) \<times> id_state" where
  "EnrollTOTP env uid secret code st =
     (if \<not> validateTOTPWithSkew env code secret then (Some ErrTOTPInvalidCode, st)
      else (case org env of
              None \<Rightarrow> (Some ErrNoOrgContext, st)
            | Some oid \<Rightarrow>
                (if dbFails env ''begin'' \<or> dbFails env ''deleteTOTP'' \<or> dbFails env ''insertTOTP''
                    \<or> dbFails env ''commit'' then (Some ErrDatabase, st)
                 else (None, auditIdentity env ''mfa.totp_enrolled'' ''success''
                   (actorIDFromContext env) uid
                   (st\<lparr>totps := deleteWhere (totpOf oid uid) (totps st)
                     @ [\<lparr>t_id = newID env 0, t_user = uid, t_org = oid, t_secret = secret,
                          t_enabled = True, t_failedAttempts = 0, t_lastFailedAt = None,
                          t_lockedUntil = None, t_lastUsedAt = None\<rparr>]\<rparr>)))))"

definition totpMaxAttempts :: nat where
  "totpMaxAttempts = 5"

definition totpLockoutDuration :: int where
  "totpLockoutDuration = 15 * minute"

definition failedTOTPIncrement :: "id_env \<Rightarrow> TotpRow \<Rightarrow> TotpRow" where
  "failedTOTPIncrement env t =
     t\<lparr>t_failedAttempts := t_failedAttempts t + 1, t_lastFailedAt := Some (now env),
       t_lockedUntil := (if totpMaxAttempts \<le> t_failedAttempts t + 1
                         then Some (now env + totpLockoutDuration) else t_lockedUntil t)\<rparr>"

definition recordFailedTOTP :: "id_env \<Rightarrow> string \<Rightarrow> string \<Rightarrow> id_state \<Rightarrow> id_state" where
  "recordFailedTOTP env uid oid st =
     (if dbFails env ''failedTOTP'' then st
      else st\<lparr>totps := updateWhere (totpOf oid uid) (failedTOTPIncrement env) (totps st)\<rparr>)"

definition VerifyTOTP ::
    "id_env \<Rightarrow> string \<Rightarrow> string \<Rightarrow> id_state \<Rightarrow> (id_error + bool) \<times> id_state" where
  "VerifyTOTP env uid code st =
     (case org env of
        None \<Rightarrow> (Inl ErrNoOrgContext, st)
      | Some oid \<Rightarrow>
          (if dbFails env ''selectTOTP'' then (Inl ErrDatabase, st)
           else (case find (totpOf oid uid) (totps st) of
                   None \<Rightarrow> (Inl ErrNoRows, st)
                 | Some t \<Rightarrow>
                     (if \<not> t_enabled t then (Inl ErrTOTPNotEnabled, st)
                      else if lockHolds (now env) (t_lockedUntil t) then (Inl ErrTOTPLockedOut, st)
                      else if validateTOTPWithSkew env code (t_secret t) then
                        (Inr True,
                         if dbFails env ''clearTOTP'' then st
                         else st\<lparr>totps := updateWhere (totpOf oid uid)
                           (\<lambda>t. t\<lparr>t_lastUsedAt := Some (now env), t_failedAttempts := 0,
                                   t_lastFailedAt := None, t_lockedUntil := None\<rparr>) (totps st)\<rparr>)
                      else (Inr False, recordFailedTOTP env uid oid st)))))"

definition DisableTOTP :: "id_env \<Rightarrow> string \<Rightarrow> id_state \<Rightarrow> (id_error option) \<times> id_state" where
  "DisableTOTP env uid st =
     (case org env of
        None \<Rightarrow> (Some ErrNoOrgContext, st)
      | Some oid \<Rightarrow>
          (if dbFails env ''disableTOTP'' then (Some ErrDatabase, st)
           else (None, auditIdentity env ''mfa.totp_disabled'' ''success'' (actorIDFromContext env) uid
             (st\<lparr>totps := updateWhere (totpOf oid uid) (\<lambda>t. t\<lparr>t_enabled := False\<rparr>) (totps st)\<rparr>))))"

text \<open>The enabled flag of the status; without a row the factor counts as disabled.\<close>

definition GetTOTPStatus :: "id_env \<Rightarrow> string \<Rightarrow> id_state \<Rightarrow> id_error + bool" where
  "GetTOTPStatus env uid st =
     (case org env of
        None \<Rightarrow> Inl ErrNoOrgContext
      | Some oid \<Rightarrow>
          (if dbFails env ''selectTOTP'' then Inr False
           else (case find (totpOf oid uid) (totps st) of
                   None \<Rightarrow> Inr False
                 | Some t \<Rightarrow> Inr (t_enabled t))))"

section \<open>Backup codes\<close>

text \<open>The first eight characters of the base32 encoding of eight random bytes: five bytes of it.\<close>

definition b32Char :: "nat \<Rightarrow> char" where
  "b32Char n = char_of (if n < 26 then n + 65 else n + (24 :: nat))"

fun backupCodeText :: "string \<Rightarrow> string" where
  "backupCodeText (a # b # c # d # e # s) =
     map b32Char [byteOf a div 8, byteOf a mod 8 * 4 + byteOf b div 64, byteOf b div 2 mod 32,
       byteOf b mod 2 * 16 + byteOf c div 16, byteOf c mod 16 * 2 + byteOf d div 128,
       byteOf d div 4 mod 32, byteOf d mod 4 * 8 + byteOf e div 32, byteOf e mod 32]"
| "backupCodeText _ = []"

text \<open>The loop of \<open>GenerateBackupCodes\<close> inside its transaction; the row identifier is a primary key,
  so an insertion with a used identifier fails.\<close>

fun generateCodes ::
    "id_env \<Rightarrow> string \<Rightarrow> string \<Rightarrow> nat list \<Rightarrow> BackupRow list
      \<Rightarrow> id_error + string list \<times> BackupRow list" where
  "generateCodes env oid uid [] rows = Inr ([], rows)"
| "generateCodes env oid uid (i # is) rows =
     (case randomBytes env i of
        None \<Rightarrow> Inl ErrRandom
      | Some bytes \<Rightarrow>
          (let code = backupCodeText bytes in
           case bcryptHash env code of
             None \<Rightarrow> Inl ErrHashing
           | Some h \<Rightarrow>
               (if dbFails env ''insertBackup'' \<or> newID env i \<in> b_id ` set rows then Inl ErrDatabase
                else (case generateCodes env oid uid is
                        (rows @ [\<lparr>b_id = newID env i, b_user = uid, b_org = oid, b_hash = h,
                                   b_used = False, b_usedAt = None\<rparr>]) of
                        Inl e \<Rightarrow> Inl e
                      | Inr (codes, rows') \<Rightarrow> Inr (code # codes, rows')))))"

definition backupCount :: "int \<Rightarrow> int" where
  "backupCount count = (if count \<le> 0 \<or> 20 < count then 10 else count)"

definition GenerateBackupCodes ::
    "id_env \<Rightarrow> string \<Rightarrow> int \<Rightarrow> id_state \<Rightarrow> (id_error + string list) \<times> id_state" where
  "GenerateBackupCodes env uid count st =
     (case org env of
        None \<Rightarrow> (Inl ErrNoOrgContext, st)
      | Some oid \<Rightarrow>
          (if dbFails env ''begin'' then (Inl ErrDatabase, st)
           else (case generateCodes env oid uid [0..<nat (backupCount count)] (backups st) of
                   Inl e \<Rightarrow> (Inl e, st)
                 | Inr (codes, rows) \<Rightarrow>
                     (if dbFails env ''commit'' then (Inl ErrDatabase, st)
                      else (Inr codes, auditIdentity env ''mfa.backup_codes_generated'' ''success''
                        (actorIDFromContext env) uid (st\<lparr>backups := rows\<rparr>))))))"

definition backupCodeMatches :: "id_env \<Rightarrow> string \<Rightarrow> string \<Rightarrow> string \<Rightarrow> bool" where
  "backupCodeMatches env storedHash candidate legacyHex =
     (if hasPrefix storedHash ''$2'' then bcryptCompare (passwords env) storedHash candidate = BcryptMatch
      else storedHash = legacyHex)"

definition unusedCodes :: "string \<Rightarrow> string \<Rightarrow> id_state \<Rightarrow> BackupRow list" where
  "unusedCodes oid uid st = filter (\<lambda>b. b_user b = uid \<and> \<not> b_used b \<and> b_org b = oid) (backups st)"

definition claimBackupCode :: "id_env \<Rightarrow> string \<Rightarrow> string \<Rightarrow> id_state \<Rightarrow> bool \<times> id_state" where
  "claimBackupCode env oid bid st =
     (let unclaimed = (\<lambda>b. b_id b = bid \<and> b_org b = oid \<and> \<not> b_used b) in
      (countWhere unclaimed (backups st) = 1,
       st\<lparr>backups := updateWhere unclaimed (\<lambda>b. b\<lparr>b_used := True, b_usedAt := Some (now env)\<rparr>)
         (backups st)\<rparr>))"

definition matchingCode :: "id_env \<Rightarrow> string \<Rightarrow> BackupRow list \<Rightarrow> BackupRow option" where
  "matchingCode env code rows =
     (let candidate = toUpper (trimSpace code) in
      if candidate = [] then None
      else find (\<lambda>b. backupCodeMatches env (b_hash b) candidate (sha256Hex env candidate)) rows)"

definition validateFrom ::
    "BackupRow list \<Rightarrow> id_env \<Rightarrow> string \<Rightarrow> string \<Rightarrow> id_state \<Rightarrow> (id_error + bool) \<times> id_state" where
  "validateFrom rows env oid code st =
     (case matchingCode env code rows of
        None \<Rightarrow> (Inr False, st)
      | Some b \<Rightarrow>
          (if dbFails env ''claimBackup'' then (Inl ErrDatabase, st)
           else (case claimBackupCode env oid (b_id b) st of (ok, st') \<Rightarrow> (Inr ok, st'))))"

definition ValidateBackupCode ::
    "id_env \<Rightarrow> string \<Rightarrow> string \<Rightarrow> id_state \<Rightarrow> (id_error + bool) \<times> id_state" where
  "ValidateBackupCode env uid code st =
     (case org env of
        None \<Rightarrow> (Inl ErrNoOrgContext, st)
      | Some oid \<Rightarrow>
          (if toUpper (trimSpace code) = [] then (Inr False, st)
           else if dbFails env ''selectBackup'' then (Inl ErrDatabase, st)
           else validateFrom (unusedCodes oid uid st) env oid code st))"

definition GetRemainingBackupCodes :: "id_env \<Rightarrow> string \<Rightarrow> id_state \<Rightarrow> id_error + nat" where
  "GetRemainingBackupCodes env uid st =
     (case org env of
        None \<Rightarrow> Inl ErrNoOrgContext
      | Some oid \<Rightarrow>
          (if dbFails env ''countBackup'' then Inl ErrDatabase
           else Inr (countWhere (\<lambda>b. b_user b = uid \<and> \<not> b_used b \<and> b_org b = oid) (backups st))))"

section \<open>Properties of one-time passwords\<close>

type_synonym totp_login = "id_env \<times> string"

definition totpTime :: "totp_login \<Rightarrow> int" where
  "totpTime = (\<lambda>(env, code). now env)"

definition totpEnrolled :: "string \<Rightarrow> string \<Rightarrow> string \<Rightarrow> id_state \<Rightarrow> bool" where
  "totpEnrolled oid uid secret st =
     (case find (totpOf oid uid) (totps st) of
        None \<Rightarrow> False | Some t \<Rightarrow> t_enabled t \<and> t_secret t = secret)"

definition wrongCode :: "string \<Rightarrow> string \<Rightarrow> totp_login \<Rightarrow> bool" where
  "wrongCode oid secret = (\<lambda>(env, code).
     org env = Some oid \<and> \<not> dbFails env ''selectTOTP'' \<and> \<not> dbFails env ''failedTOTP''
     \<and> \<not> validateTOTPWithSkew env code secret)"

definition totpAttempt :: "string \<Rightarrow> totp_login \<Rightarrow> id_state \<Rightarrow> id_state \<times> bool" where
  "totpAttempt uid = (\<lambda>(env, code) st.
     (case VerifyTOTP env uid code st of (r, st') \<Rightarrow> (st', r \<noteq> Inl ErrTOTPLockedOut)))"

definition totpFailures :: "string \<Rightarrow> string \<Rightarrow> id_state \<Rightarrow> nat" where
  "totpFailures oid uid st =
     (case find (totpOf oid uid) (totps st) of None \<Rightarrow> 0 | Some t \<Rightarrow> t_failedAttempts t)"

definition totpLock :: "string \<Rightarrow> string \<Rightarrow> id_state \<Rightarrow> int option" where
  "totpLock oid uid st =
     (case find (totpOf oid uid) (totps st) of None \<Rightarrow> None | Some t \<Rightarrow> t_lockedUntil t)"

lemma find_after_wrong_code:
  "find (totpOf oid uid) (updateWhere (totpOf oid uid) (failedTOTPIncrement env) ts) =
     map_option (failedTOTPIncrement env) (find (totpOf oid uid) ts)"
  by (induction ts) (auto simp: updateWhere_Cons totpOf_def failedTOTPIncrement_def)

lemmas totp_attempt_defs = totpAttempt_def totpEnrolled_def wrongCode_def VerifyTOTP_def
  recordFailedTOTP_def totpFailures_def totpLock_def totpTime_def find_after_wrong_code

interpretation totp: throttle "totpAttempt uid" totpTime "wrongCode oid secret"
  "totpEnrolled oid uid secret" "totpFailures oid uid" "totpLock oid uid" totpMaxAttempts
  totpLockoutDuration for oid uid secret
proof (unfold_locales, goal_cases)
  case (1 s e s' seen)
  then show ?case
    by (auto simp: totp_attempt_defs failedTOTPIncrement_def split: option.splits if_splits)
next
  case (2 s e u s' seen)
  then show ?case
    by (auto simp: totp_attempt_defs lockHolds_def split: option.splits if_splits)
next
  case (3 s e s' seen)
  then show ?case
    by (auto simp: totp_attempt_defs lockHolds_def failedTOTPIncrement_def split: option.splits if_splits)
qed

text \<open>
  Wrong one-time codes are examined at a bounded rate: within a window at most five, less those
  already counted, plus one per quarter of an hour of the window; the others are refused unseen.
\<close>

theorem totp_guesses_bounded:
  assumes "totpEnrolled oid uid secret st" and "list_all (wrongCode oid secret) logins"
    and "sorted (t0 # map totpTime logins)" and "\<forall>l \<in> set logins. totpTime l \<le> t1" and "t0 \<le> t1"
    and "totpFailures oid uid st < 5"
  shows "int (examined (totpAttempt uid) logins st)
    \<le> 5 - int (totpFailures oid uid st) + (t1 - t0) div (15 * minute)"
  using totp.guess_bound [OF _ assms(1-5)] assms(6)
  by (simp add: totpLockoutDuration_def totpMaxAttempts_def of_nat_diff)

text \<open>
  Enrolment is all or nothing: it succeeds only with a valid code for the new secret, and then that
  secret alone counts, with no failures and no lock; otherwise nothing changes.
\<close>

theorem EnrollTOTP_atomic:
  "case EnrollTOTP env uid secret code st of
     (Some e, st') \<Rightarrow> st' = st
   | (None, st') \<Rightarrow> validateTOTPWithSkew env code secret \<and> (\<exists>oid. org env = Some oid
       \<and> totpEnrolled oid uid secret st' \<and> totpFailures oid uid st' = 0 \<and> totpLock oid uid st' = None
       \<and> filter (\<lambda>t. \<not> totpOf oid uid t) (totps st') = filter (\<lambda>t. \<not> totpOf oid uid t) (totps st)
       \<and> length (filter (totpOf oid uid) (totps st')) = 1)"
proof -
  have none: "find (totpOf oid uid) (deleteWhere (totpOf oid uid) ts) = None"
    "filter (totpOf oid uid) (deleteWhere (totpOf oid uid) ts) = []"
    "filter (\<lambda>t. \<not> totpOf oid uid t) (deleteWhere (totpOf oid uid) ts) = filter (\<lambda>t. \<not> totpOf oid uid t) ts"
    for oid ts
    by (auto simp: deleteWhere_def find_None_iff filter_empty_conv)
  have new: "totpOf oid uid \<lparr>t_id = i, t_user = uid, t_org = oid, t_secret = secret, t_enabled = True,
      t_failedAttempts = 0, t_lastFailedAt = None, t_lockedUntil = None, t_lastUsedAt = None\<rparr>" for oid i
    by (simp add: totpOf_def)
  show ?thesis
    unfolding EnrollTOTP_def
    by (auto simp: totpEnrolled_def totpFailures_def totpLock_def find_append none new
        split: option.split)
qed

text \<open>
  A one-time code is not used up: a code that was accepted is accepted again, by this or another
  request, as long as the validator still takes it.
\<close>

theorem totp_code_replayed:
  assumes "VerifyTOTP env uid code st = (Inr True, st')" and "org env' = org env"
    and "now env \<le> now env'" and "\<not> dbFails env' ''selectTOTP''"
    and "\<forall>secret. totpValid env' (trimSpace code) secret (now env') =
           totpValid env (trimSpace code) secret (now env)"
  shows "fst (VerifyTOTP env' uid code st') = Inr True"
proof -
  from assms(1) obtain oid t where org: "org env = Some oid"
    and t: "find (totpOf oid uid) (totps st) = Some t" "t_enabled t"
      "\<not> lockHolds (now env) (t_lockedUntil t)" "validateTOTPWithSkew env code (t_secret t)"
    and st': "st' = (if dbFails env ''clearTOTP'' then st
       else st\<lparr>totps := updateWhere (totpOf oid uid)
         (\<lambda>t. t\<lparr>t_lastUsedAt := Some (now env), t_failedAttempts := 0,
                 t_lastFailedAt := None, t_lockedUntil := None\<rparr>) (totps st)\<rparr>)"
    by (auto simp: VerifyTOTP_def split: option.splits if_splits)
  from t(3) assms(3) have "\<not> lockHolds (now env') (t_lockedUntil t)"
    by (auto simp: lockHolds_def split: option.splits)
  moreover from t(4) assms(5) have "validateTOTPWithSkew env' code (t_secret t)"
    by (simp add: validateTOTPWithSkew_def)
  moreover have "totpOf oid uid t" using t(1) by (auto dest: find_Some_mem)
  ultimately show ?thesis
    using org t assms(2,4) unfolding st'
    by (simp add: VerifyTOTP_def find_updateWhere totpOf_def lockHolds_def)
qed

section \<open>Properties of backup codes\<close>

subsection \<open>Generation\<close>

lemma generateCodes_shape:
  assumes "generateCodes env oid uid is rows = Inr (codes, rows')"
  obtains new where "rows' = rows @ new" "length new = length is" "length codes = length is"
    "list_all2 (\<lambda>c b. bcryptHash env c = Some (b_hash b) \<and> b_user b = uid \<and> b_org b = oid \<and> \<not> b_used b)
       codes new"
    "codes = map (\<lambda>i. backupCodeText (the (randomBytes env i))) is"
    "distinct (map b_id rows) \<Longrightarrow> distinct (map b_id rows')"
  using assms
proof (induction "is" arbitrary: rows codes rows' thesis)
  case Nil
  then show ?case by simp
next
  case (Cons i "is")
  from Cons.prems(2) obtain bytes h codes1 where
    bytes: "randomBytes env i = Some bytes" and h: "bcryptHash env (backupCodeText bytes) = Some h"
    and fresh: "newID env i \<notin> b_id ` set rows"
    and rest: "generateCodes env oid uid is (rows @ [\<lparr>b_id = newID env i, b_user = uid, b_org = oid,
      b_hash = h, b_used = False, b_usedAt = None\<rparr>]) = Inr (codes1, rows')"
    and codes: "codes = backupCodeText bytes # codes1"
    by (auto simp: Let_def split: option.splits if_splits sum.splits)
  show ?case
  proof (rule Cons.IH [OF _ rest], goal_cases)
    case (1 new)
    then show ?case
      using bytes h fresh codes
      by (intro Cons.prems(1) [of "\<lparr>b_id = newID env i, b_user = uid, b_org = oid,
        b_hash = h, b_used = False, b_usedAt = None\<rparr> # new"]) auto
  qed
qed

text \<open>
  A generation adds its codes to the live ones: nothing withdraws those generated before, so the
  number of accepted codes grows with every call.
\<close>

theorem GenerateBackupCodes_accumulates:
  assumes "GenerateBackupCodes env uid count st = (Inr codes, st')"
  shows "\<exists>oid. org env = Some oid \<and> length codes = nat (backupCount count)
    \<and> 1 \<le> length codes \<and> length codes \<le> 20
    \<and> unusedCodes oid uid st' =
        unusedCodes oid uid st @ drop (length (backups st)) (backups st')
    \<and> length (unusedCodes oid uid st') = length (unusedCodes oid uid st) + length codes"
proof -
  from assms obtain oid rows where org: "org env = Some oid"
    and gen: "generateCodes env oid uid [0..<nat (backupCount count)] (backups st) = Inr (codes, rows)"
    and st': "backups st' = rows"
    by (auto simp: GenerateBackupCodes_def split: option.splits if_splits sum.splits)
  from gen show ?thesis
  proof (rule generateCodes_shape)
    fix new
    assume rows: "rows = backups st @ new" and len: "length new = length [0..<nat (backupCount count)]"
      "length codes = length [0..<nat (backupCount count)]"
      and all: "list_all2 (\<lambda>c b. bcryptHash env c = Some (b_hash b) \<and> b_user b = uid \<and> b_org b = oid
        \<and> \<not> b_used b) codes new"
    from all have "\<forall>b \<in> set new. b_user b = uid \<and> \<not> b_used b \<and> b_org b = oid"
      by (auto simp: list_all2_conv_all_nth in_set_conv_nth)
    then have "filter (\<lambda>b. b_user b = uid \<and> \<not> b_used b \<and> b_org b = oid) new = new" by simp
    with org rows len st' show ?thesis by (auto simp: unusedCodes_def backupCount_def)
  qed
qed

subsection \<open>Validation\<close>

lemma b32Char_upper: "n < 32 \<Longrightarrow> toUpperChar (b32Char n) = b32Char n \<and> \<not> asciiSpace (b32Char n)"
  by (auto simp: b32Char_def toUpperChar_def isLowerAscii_def asciiSpace_def byteOf_char_of)

lemma b32_text:
  "list_all (\<lambda>n. n < 32) ns \<Longrightarrow> \<forall>c \<in> set (map b32Char ns). toUpperChar c = c \<and> \<not> asciiSpace c"
  by (auto simp: list_all_iff b32Char_upper)

lemma backupCodeText_chars:
  "\<forall>c \<in> set (backupCodeText bytes). toUpperChar c = c \<and> \<not> asciiSpace c"
proof (cases bytes rule: backupCodeText.cases)
  case (1 a b c d e s)
  note bytes = byteOf_less [of a] byteOf_less [of b] byteOf_less [of c] byteOf_less [of d]
    byteOf_less [of e]
  show ?thesis
    unfolding 1 backupCodeText.simps
    by (rule b32_text, simp only: list.pred_inject simp_thms, intro conjI) (use bytes in linarith)+
qed auto

lemma dropWhile_none: "\<forall>c \<in> set s. \<not> P c \<Longrightarrow> dropWhile P s = s"
  by (cases s) auto

lemma trimSpace_id: "\<forall>c \<in> set s. \<not> asciiSpace c \<Longrightarrow> trimSpace s = s"
  by (simp add: trimSpace_def dropWhile_none)

lemma backupCodeText_normal: "toUpper (trimSpace (backupCodeText bytes)) = backupCodeText bytes"
  using backupCodeText_chars [of bytes]
  by (simp add: trimSpace_id toUpper_def map_idI)

lemma claim_live:
  assumes "distinct (map b_id (backups st))" and "b \<in> set (backups st)" and "\<not> b_used b"
  shows "fst (claimBackupCode env (b_org b) (b_id b) st)"
proof -
  have "filter (\<lambda>x. b_id x = b_id b \<and> b_org x = b_org b \<and> \<not> b_used x) (backups st) =
      filter (\<lambda>x. b_org x = b_org b \<and> \<not> b_used x) (filter (\<lambda>x. b_id x = b_id b) (backups st))"
    by (simp add: filter_filter conj_commute)
  then show ?thesis
    using filter_unique_key [OF assms(1,2)] assms(3) by (simp add: claimBackupCode_def countWhere_def)
qed

text \<open>
  A generated code is accepted, also typed with blanks around it or in lower case. bcrypt is relied on
  to match the text a hash was made from and to write its prefix.
\<close>

theorem generated_code_accepted:
  assumes "GenerateBackupCodes env uid count st = (Inr codes, st')" and "code \<in> set codes"
    and "toUpper (trimSpace input) = code" and "code \<noteq> []"
    and "org env' = org env" and "passwords env' = passwords env"
    and "\<not> dbFails env' ''selectBackup''" and "\<not> dbFails env' ''claimBackup''"
    and "distinct (map b_id (backups st))"
    and "\<And>c h. bcryptHash env c = Some h \<Longrightarrow>
      hasPrefix h ''$2'' \<and> bcryptCompare (passwords env) h c = BcryptMatch"
  shows "fst (ValidateBackupCode env' uid input st') = Inr True"
proof -
  from assms(1) obtain oid rows where org: "org env = Some oid"
    and gen: "generateCodes env oid uid [0..<nat (backupCount count)] (backups st) = Inr (codes, rows)"
    and st': "backups st' = rows"
    by (auto simp: GenerateBackupCodes_def split: option.splits if_splits sum.splits)
  from gen show ?thesis
  proof (rule generateCodes_shape)
    fix new
    assume rows: "rows = backups st @ new" and all: "list_all2 (\<lambda>c b. bcryptHash env c = Some (b_hash b)
        \<and> b_user b = uid \<and> b_org b = oid \<and> \<not> b_used b) codes new"
      and dist: "distinct (map b_id (backups st)) \<Longrightarrow> distinct (map b_id rows)"
    from assms(2) obtain i where i: "i < length codes" "code = codes ! i"
      by (auto simp: in_set_conv_nth)
    from all i obtain b where b: "b \<in> set new" "bcryptHash env code = Some (b_hash b)"
        "b_user b = uid" "b_org b = oid" "\<not> b_used b"
      using that [of "new ! i"] by (simp add: list_all2_conv_all_nth)
    let ?m = "\<lambda>b. backupCodeMatches env' (b_hash b) code (sha256Hex env' code)"
    have "b \<in> set (unusedCodes oid uid st')" "?m b"
      using b assms(6) assms(10) [OF b(2)] rows st' by (auto simp: unusedCodes_def backupCodeMatches_def)
    then obtain m where m: "find ?m (unusedCodes oid uid st') = Some m"
      using find_present [of b _ ?m] by blast
    then have live: "m \<in> set (backups st')" "\<not> b_used m" "b_org m = oid"
      by (auto dest!: find_Some_mem simp: unusedCodes_def)
    have "fst (claimBackupCode env' oid (b_id m) st')"
      using claim_live [of st' m env'] live dist assms(9) st' by simp
    with m assms(3-5,7,8) org show ?thesis
      by (auto simp: ValidateBackupCode_def validateFrom_def matchingCode_def Let_def split: prod.split)
  qed
qed

subsection \<open>Single use\<close>

text \<open>
  The requests that touch backup codes: a validation acting on rows read at any earlier time, and a
  generation. \<open>backupUse bid\<close> is a request together with whether it was accepted for the row \<open>bid\<close>.
\<close>

datatype backup_op =
    ValidateOp id_env string string "BackupRow list"
  | GenerateOp id_env string int

fun backupUse :: "string \<Rightarrow> backup_op \<Rightarrow> id_state \<Rightarrow> id_state \<times> unit option" where
  "backupUse bid (ValidateOp env oid code rows) st =
     (case validateFrom rows env oid code st of (r, st') \<Rightarrow>
        (st', if r = Inr True \<and> map_option b_id (matchingCode env code rows) = Some bid
              then Some () else None))"
| "backupUse bid (GenerateOp env uid count) st = (snd (GenerateBackupCodes env uid count st), None)"

definition codesKeyed :: "id_state \<Rightarrow> bool" where
  "codesKeyed st \<longleftrightarrow> distinct (map b_id (backups st))"

definition codeUsed :: "string \<Rightarrow> id_state \<Rightarrow> bool" where
  "codeUsed bid st \<longleftrightarrow> (\<exists>b \<in> set (backups st). b_id b = bid \<and> b_used b)"

lemma claim_keyed [simp]: "codesKeyed (snd (claimBackupCode env oid bid st)) = codesKeyed st"
  by (simp add: claimBackupCode_def codesKeyed_def map_updateWhere_key Let_def)

lemma claim_uses: "fst (claimBackupCode env oid bid st) \<Longrightarrow> codeUsed bid (snd (claimBackupCode env oid bid st))"
  unfolding claimBackupCode_def codeUsed_def Let_def
  by (auto simp: countWhere_def set_updateWhere filter_eq_Cons_iff length_Suc_conv)

lemma claim_keeps_used:
  "codeUsed bid st \<Longrightarrow> codeUsed bid (snd (claimBackupCode env oid bid' st))"
  unfolding claimBackupCode_def codeUsed_def Let_def by (force simp: set_updateWhere)

lemma used_not_claimed:
  assumes "codesKeyed st" and "codeUsed bid st"
  shows "\<not> fst (claimBackupCode env oid bid st)"
proof -
  from assms have "\<forall>b \<in> set (backups st). b_id b = bid \<longrightarrow> b_used b"
    using distinct_key_eq [of b_id "backups st"] by (auto simp: codesKeyed_def codeUsed_def)
  then have "filter (\<lambda>b. b_id b = bid \<and> b_org b = oid \<and> \<not> b_used b) (backups st) = []"
    by (auto simp: filter_empty_conv)
  then show ?thesis by (simp add: claimBackupCode_def Let_def countWhere_def)
qed

lemma generate_keeps:
  assumes "codesKeyed st"
  shows "codesKeyed (snd (GenerateBackupCodes env uid count st))"
    and "codeUsed bid st \<Longrightarrow> codeUsed bid (snd (GenerateBackupCodes env uid count st))"
  using assms
  by (auto simp: GenerateBackupCodes_def codesKeyed_def codeUsed_def
      split: option.split sum.split elim!: generateCodes_shape)

lemma backupUse_validate:
  assumes "backupUse bid (ValidateOp env oid code rows) st = (st', out)"
  obtains "st' = st" "out = None"
  | b where "matchingCode env code rows = Some b" "st' = snd (claimBackupCode env oid (b_id b) st)"
      "out = (if fst (claimBackupCode env oid (b_id b) st) \<and> b_id b = bid then Some () else None)"
proof (cases "matchingCode env code rows")
  case None
  with assms show thesis by (intro that(1)) (simp_all add: validateFrom_def)
next
  case (Some b)
  obtain ok st1 where claim: "claimBackupCode env oid (b_id b) st = (ok, st1)" by fastforce
  show thesis
  proof (cases "dbFails env ''claimBackup''")
    case True
    with Some assms show thesis by (intro that(1)) (simp_all add: validateFrom_def)
  next
    case False
    with Some assms claim show thesis by (intro that(2) [OF Some]) (simp_all add: validateFrom_def)
  qed
qed

interpretation backup_code: single_use "backupUse bid" codesKeyed "codeUsed bid" for bid
proof (unfold_locales, goal_cases)
  case (1 s x s' out)
  then show ?case
    by (cases x) (auto elim!: backupUse_validate simp: generate_keeps simp del: backupUse.simps(1))
next
  case (2 s x s' r)
  then show ?case
    by (cases x) (auto elim!: backupUse_validate simp: claim_uses split: if_splits
        simp del: backupUse.simps(1))
next
  case (3 s x s' out)
  then show ?case
    by (cases x) (auto elim!: backupUse_validate simp: generate_keeps claim_keeps_used
        used_not_claimed simp del: backupUse.simps(1))
qed

text \<open>
  C24: a backup code is accepted at most once, whatever validations and generations run and however they
  interleave: a validation may act on rows it read before any of the others ran.
\<close>

theorem backup_code_single_use:
  "codesKeyed st \<Longrightarrow> length (runGrants (backupUse bid) ops st) \<le> 1"
  by (rule backup_code.at_most_one_grant)

section \<open>Witnesses\<close>

definition demoTotpState :: id_state where
  "demoTotpState = demoIdState\<lparr>totps := [\<lparr>t_id = ''t1'', t_user = ''u1'', t_org = ''acme'',
     t_secret = ''s'', t_enabled = True, t_failedAttempts = 3, t_lastFailedAt = None,
     t_lockedUntil = None, t_lastUsedAt = None\<rparr>]\<rparr>"

definition demoCodes :: "totp_login list" where
  "demoCodes = map (\<lambda>t. (demoIdEnv t, ''x'')) [0, 1, 2, 3]"

theorem totp_guesses_bounded_witness:
  "examined (totpAttempt ''u1'') demoCodes demoTotpState \<le> 2"
proof -
  have "totpEnrolled ''acme'' ''u1'' ''s'' demoTotpState"
    by (simp add: totpEnrolled_def demoTotpState_def totpOf_def)
  moreover have "list_all (wrongCode ''acme'' ''s'') demoCodes"
    by (simp add: demoCodes_def wrongCode_def demoIdEnv_def validateTOTPWithSkew_def trimSpace_def
        asciiSpace_def byteOf_def)
  moreover have "sorted (0 # map totpTime demoCodes)" "\<forall>l \<in> set demoCodes. totpTime l \<le> 3"
    by (simp_all add: demoCodes_def totpTime_def demoIdEnv_def)
  moreover have f: "totpFailures ''acme'' ''u1'' demoTotpState = 3"
    by (simp add: totpFailures_def demoTotpState_def totpOf_def)
  ultimately show ?thesis
    using totp_guesses_bounded [of "''acme''" "''u1''" "''s''" demoTotpState demoCodes 0 3]
    by (simp add: minute_def second_def)
qed

theorem totp_code_replayed_witness:
  "\<exists>st'. VerifyTOTP (demoIdEnv 0) ''u1'' ''s'' demoTotpState = (Inr True, st')
     \<and> fst (VerifyTOTP (demoIdEnv 29) ''u1'' ''s'' st') = Inr True"
proof -
  obtain st' where ok: "VerifyTOTP (demoIdEnv 0) ''u1'' ''s'' demoTotpState = (Inr True, st')"
    by (simp add: VerifyTOTP_def demoIdEnv_def demoTotpState_def totpOf_def lockHolds_def
        validateTOTPWithSkew_def trimSpace_def asciiSpace_def byteOf_def)
  moreover have "fst (VerifyTOTP (demoIdEnv 29) ''u1'' ''s'' st') = Inr True"
    by (rule totp_code_replayed [OF ok]) (simp_all add: demoIdEnv_def)
  ultimately show ?thesis by blast
qed

lemma demo_code: "backupCodeText (replicate 8 CHR ''A'') = ''IFAUCQKB''"
  by code_simp

lemma demo_generate:
  "\<exists>st'. GenerateBackupCodes (demoIdEnv 0) ''u1'' 1 demoIdState = (Inr [''IFAUCQKB''], st')"
proof -
  have one: "[0..<nat (backupCount 1)] = [0]" by (simp add: backupCount_def)
  obtain rows where gen: "generateCodes (demoIdEnv 0) ''acme'' ''u1'' [0] [] = Inr ([''IFAUCQKB''], rows)"
    by (simp add: demoIdEnv_def demo_code Let_def del: backupCodeText.simps)
  have env: "org (demoIdEnv 0) = Some ''acme''" "\<not> dbFails (demoIdEnv 0) ''begin''"
    "\<not> dbFails (demoIdEnv 0) ''commit''" "backups demoIdState = []"
    by (simp_all add: demoIdEnv_def demoIdState_def)
  show ?thesis
    by (simp add: GenerateBackupCodes_def one env gen del: generateCodes.simps)
qed

theorem GenerateBackupCodes_accumulates_witness:
  "\<exists>codes st'. GenerateBackupCodes (demoIdEnv 0) ''u1'' 1 demoIdState = (Inr codes, st')
     \<and> length (unusedCodes ''acme'' ''u1'' st') = 1"
proof -
  obtain st' where ok: "GenerateBackupCodes (demoIdEnv 0) ''u1'' 1 demoIdState = (Inr [''IFAUCQKB''], st')"
    using demo_generate by blast
  moreover have "org (demoIdEnv 0) = Some ''acme''" "unusedCodes ''acme'' ''u1'' demoIdState = []"
    by (simp_all add: demoIdEnv_def unusedCodes_def demoIdState_def)
  ultimately show ?thesis using GenerateBackupCodes_accumulates [OF ok] by auto
qed

theorem generated_code_accepted_witness:
  "\<exists>st'. GenerateBackupCodes (demoIdEnv 0) ''u1'' 1 demoIdState = (Inr [''IFAUCQKB''], st')
     \<and> fst (ValidateBackupCode (demoIdEnv 9) ''u1'' ''ifaucqkb'' st') = Inr True"
proof -
  obtain st' where ok: "GenerateBackupCodes (demoIdEnv 0) ''u1'' 1 demoIdState = (Inr [''IFAUCQKB''], st')"
    using demo_generate by blast
  have "fst (ValidateBackupCode (demoIdEnv 9) ''u1'' ''ifaucqkb'' st') = Inr True"
  proof (rule generated_code_accepted [OF ok])
    show "toUpper (trimSpace ''ifaucqkb'') = ''IFAUCQKB''" by code_simp
    show "hasPrefix h ''$2'' \<and> bcryptCompare (passwords (demoIdEnv 0)) h c = BcryptMatch"
      if "bcryptHash (demoIdEnv 0) c = Some h" for c h
      using that by (auto simp: demoIdEnv_def demoKdf_def hasPrefix_def)
  qed (simp_all add: demoIdEnv_def demoIdState_def)
  with ok show ?thesis by blast
qed

theorem backup_code_single_use_witness:
  "length (runGrants (backupUse ''id-0'')
     [GenerateOp (demoIdEnv 0) ''u1'' 1, ValidateOp (demoIdEnv 1) ''acme'' ''IFAUCQKB'' []] demoIdState) \<le> 1"
  by (rule backup_code_single_use) (simp add: codesKeyed_def demoIdState_def)

end
