(* ===== verification/Identity_Password.thy ===== *)
theory Identity_Password
  imports Identity_Login
begin

text \<open>
  Passwords and their reset, after \<^verbatim>\<open>internal/identity/passwords.go\<close> and the handlers of
  \<^verbatim>\<open>internal/identity/service.go\<close>: the policy check over the code points of the password, \<open>SetPassword\<close>
  and \<open>UpdatePassword\<close>, the forgotten-password and reset handlers with their single-use tokens, and the
  handlers by which a user or an administrator sets a password.

  The theorems: the policy accepts exactly the passwords with enough bytes and one character of each
  class; a reset happens exactly for a live token of the organisation, changes one account, spends the
  token and leaves a hash that accepts the new password; a token is honoured once; the reset leaves
  sessions, refresh tokens, locks and the other tokens of the user alone; the reply of the
  forgotten-password handler gives away directory accounts; a user's own change is recorded as an
  administrator's.
\<close>

section \<open>Password policy\<close>

text \<open>
  \<^verbatim>\<open>for _, ch := range password\<close>: the code points of the UTF-8 text; a byte that starts no well-formed
  sequence reads as U+FFFD.
\<close>

definition contByte :: "nat \<Rightarrow> bool" where
  "contByte b \<longleftrightarrow> 128 \<le> b \<and> b \<le> 191"

text \<open>The range of the second byte after a first byte, as the sequence is restricted to the shortest
  encoding of a code point that is no surrogate.\<close>

definition secondByteOK :: "nat \<Rightarrow> nat \<Rightarrow> bool" where
  "secondByteOK a b \<longleftrightarrow>
     (if a = 224 then 160 \<le> b \<and> b \<le> 191
      else if a = 237 then 128 \<le> b \<and> b \<le> 159
      else if a = 240 then 144 \<le> b \<and> b \<le> 191
      else if a = 244 then 128 \<le> b \<and> b \<le> 143
      else contByte b)"

text \<open>The first code point and how many bytes it takes.\<close>

definition decodeRune :: "nat list \<Rightarrow> nat \<times> nat" where
  "decodeRune s =
     (case s of
        [] \<Rightarrow> (65533, 0)
      | a # r \<Rightarrow>
          (if a < 128 then (a, 1)
           else if 194 \<le> a \<and> a \<le> 223 then
             (case r of
                b # _ \<Rightarrow> if contByte b then (a mod 32 * 64 + b mod 64, 2) else (65533, 1)
              | [] \<Rightarrow> (65533, 1))
           else if 224 \<le> a \<and> a \<le> 239 then
             (case r of
                b # c # _ \<Rightarrow>
                  if secondByteOK a b \<and> contByte c
                  then (a mod 16 * 4096 + b mod 64 * 64 + c mod 64, 3) else (65533, 1)
              | _ \<Rightarrow> (65533, 1))
           else if 240 \<le> a \<and> a \<le> 244 then
             (case r of
                b # c # d # _ \<Rightarrow>
                  if secondByteOK a b \<and> contByte c \<and> contByte d
                  then (a mod 8 * 262144 + b mod 64 * 4096 + c mod 64 * 64 + d mod 64, 4)
                  else (65533, 1)
              | _ \<Rightarrow> (65533, 1))
           else (65533, 1)))"

lemma decodeRune_width: "0 < snd (decodeRune (a # r))"
  by (auto simp: decodeRune_def split: list.split)

function runes :: "nat list \<Rightarrow> nat list" where
  "runes [] = []"
| "runes (a # r) = fst (decodeRune (a # r)) # runes (drop (snd (decodeRune (a # r))) (a # r))"
  by pat_completeness auto
termination
  by (relation "measure length") (simp_all add: decodeRune_width)

datatype rune_class = Upper | Lower | Digit | Special | Other

text \<open>
  The branch of the \<^verbatim>\<open>switch\<close> a code point takes. Below 256 the classes are those of the Latin-1
  tables of Go's \<^verbatim>\<open>unicode\<close> package (punctuation and symbols are \<open>Special\<close>); \<open>table\<close> gives them above.
\<close>

definition runeClass :: "(nat \<Rightarrow> rune_class) \<Rightarrow> nat \<Rightarrow> rune_class" where
  "runeClass table r =
     (if 256 \<le> r then table r
      else if 65 \<le> r \<and> r \<le> 90 \<or> 192 \<le> r \<and> r \<le> 222 \<and> r \<noteq> 215 then Upper
      else if 97 \<le> r \<and> r \<le> 122 \<or> r = 181 \<or> 223 \<le> r \<and> r \<noteq> 247 then Lower
      else if 48 \<le> r \<and> r \<le> 57 then Digit
      else if 33 \<le> r \<and> r \<le> 47 \<or> 58 \<le> r \<and> r \<le> 64 \<or> 91 \<le> r \<and> r \<le> 96 \<or> 123 \<le> r \<and> r \<le> 126
        \<or> 161 \<le> r \<and> r \<le> 169 \<or> r \<in> {171, 172, 174, 175, 176, 177, 180, 182, 183, 184, 187, 191, 215, 247}
        then Special
      else Other)"

definition ValidatePasswordPolicyChecks :: "(nat \<Rightarrow> rune_class) \<Rightarrow> string \<Rightarrow> string list" where
  "ValidatePasswordPolicyChecks table password =
     (let classes = map (runeClass table) (runes (map byteOf password)) in
      (if length password < 8 then [''password must be at least 8 characters long''] else [])
      @ (if Upper \<notin> set classes then [''password must contain at least one uppercase letter''] else [])
      @ (if Lower \<notin> set classes then [''password must contain at least one lowercase letter''] else [])
      @ (if Digit \<notin> set classes then [''password must contain at least one digit''] else [])
      @ (if Special \<notin> set classes
         then [''password must contain at least one special character''] else []))"

definition ValidatePasswordPolicy :: "(nat \<Rightarrow> rune_class) \<Rightarrow> string \<Rightarrow> id_error option" where
  "ValidatePasswordPolicy table password =
     (let violations = ValidatePasswordPolicyChecks table password in
      if violations = [] then None else Some (ErrPasswordPolicy violations))"

section \<open>Setting a password\<close>

definition storePassword :: "id_env \<Rightarrow> string \<Rightarrow> string \<Rightarrow> string \<Rightarrow> UserRow list \<Rightarrow> UserRow list" where
  "storePassword env oid uid hash us = updateWhere (inOrg oid uid)
     (\<lambda>u. u\<lparr>u_passwordHash := Some hash, u_passwordChangedAt := Some (now env),
             u_passwordMustChange := False\<rparr>) us"

text \<open>Both functions check the policy, hash and store; they differ in the audit record.\<close>

definition setPasswordAudited ::
    "(string \<Rightarrow> string) \<Rightarrow> (nat \<Rightarrow> rune_class) \<Rightarrow> id_env \<Rightarrow> string \<Rightarrow> string \<Rightarrow> id_state
      \<Rightarrow> (id_error option) \<times> id_state" where
  "setPasswordAudited action table env uid password st =
     (case ValidatePasswordPolicy table password of
        Some e \<Rightarrow> (Some e, st)
      | None \<Rightarrow>
          (case org env of
             None \<Rightarrow> (Some ErrNoOrgContext, st)
           | Some oid \<Rightarrow>
               (case pwHash (passwords env) (salt env) password of
                  HashPanics \<Rightarrow> (Some Panicked, st)
                | HashFails \<Rightarrow> (Some ErrHashing, st)
                | Hashed hash \<Rightarrow>
                    (if dbFails env ''setPassword'' then (Some ErrDatabase, st)
                     else (None, auditIdentity env (action (actorIDFromContext env)) ''success''
                       (actorIDFromContext env) uid
                       (st\<lparr>users := storePassword env oid uid hash (users st)\<rparr>))))))"

definition UpdatePassword ::
    "(nat \<Rightarrow> rune_class) \<Rightarrow> id_env \<Rightarrow> string \<Rightarrow> string \<Rightarrow> id_state \<Rightarrow> (id_error option) \<times> id_state" where
  "UpdatePassword table env uid password st =
     setPasswordAudited (\<lambda>_. ''user.password_changed'') table env uid password st"

definition SetPassword ::
    "(nat \<Rightarrow> rune_class) \<Rightarrow> id_env \<Rightarrow> string \<Rightarrow> string \<Rightarrow> id_state \<Rightarrow> (id_error option) \<times> id_state" where
  "SetPassword table env uid password st =
     setPasswordAudited (\<lambda>act. if act = uid then ''user.password_changed''
        else ''user.password_set_by_admin'') table env uid password st"

definition CheckPasswordExpiry :: "id_env \<Rightarrow> string \<Rightarrow> id_state \<Rightarrow> id_error + bool" where
  "CheckPasswordExpiry env uid st =
     (case org env of
        None \<Rightarrow> Inl ErrNoOrgContext
      | Some oid \<Rightarrow>
          (if dbFails env ''selectExpiry'' then Inl ErrDatabase
           else (case find (inOrg oid uid) (users st) of
                   None \<Rightarrow> Inl ErrNoRows
                 | Some u \<Rightarrow>
                     Inr (u_passwordMustChange u
                       \<or> (case u_passwordChangedAt u of
                            None \<Rightarrow> False
                          | Some t \<Rightarrow> 90 * 24 * hour < now env - t)))))"

section \<open>Handlers\<close>

datatype id_response =
    Reply int string
  | ReplyNote int string string
  | ReplyList int string "string list"

definition directorySources :: "string set" where
  "directorySources = {''ldap'', ''active_directory'', ''azure_ad''}"

definition forgotMessage :: string where
  "forgotMessage = ''If an account with that email exists, a password reset link has been sent.''"

text \<open>A failing random source leaves the buffer as allocated; the error is not looked at.\<close>

definition drawToken :: "id_env \<Rightarrow> string" where
  "drawToken env =
     hexText (case randomBytes env 0 of Some bytes \<Rightarrow> bytes | None \<Rightarrow> replicate 32 (char_of (0 :: nat)))"

definition deadToken :: "id_env \<Rightarrow> string \<Rightarrow> ResetRow \<Rightarrow> bool" where
  "deadToken env oid r \<longleftrightarrow> (p_expiresAt r < now env \<or> p_usedAt r \<noteq> None) \<and> p_org r = oid"

text \<open>\<open>email\<close> is \<open>None\<close> when the body does not bind; the middle component is the mail that is sent: the
  address and the token. The token column is unique.\<close>

definition handleForgotPassword ::
    "bool \<Rightarrow> id_env \<Rightarrow> string option \<Rightarrow> id_state \<Rightarrow> id_response \<times> (string \<times> string) option \<times> id_state" where
  "handleForgotPassword hasMailer env email st =
     (case email of
        None \<Rightarrow> (Reply 400 ''email is required'', None, st)
      | Some mail \<Rightarrow>
          (case org env of
             None \<Rightarrow> (Reply 200 forgotMessage, None, st)
           | Some oid \<Rightarrow>
               (let st1 = (if dbFails env ''cleanupTokens'' then st
                           else st\<lparr>resets := deleteWhere (deadToken env oid) (resets st)\<rparr>) in
                case (if dbFails env ''selectUser'' then None
                      else find (\<lambda>u. u_email u = mail \<and> u_enabled u \<and> u_org u = oid) (users st1)) of
                  None \<Rightarrow> (Reply 200 forgotMessage, None, st1)
                | Some u \<Rightarrow>
                    (if u_source u \<in> Some ` directorySources then
                       (ReplyNote 200 forgotMessage
                          (if u_source u = Some ''azure_ad''
                           then ''This account is managed by Azure Active Directory. Use the Azure AD portal or your organization's self-service password reset.''
                           else ''This account is managed by Active Directory. Please contact your administrator to reset your password.''), None, st1)
                     else
                       (let token = drawToken env in
                        if dbFails env ''insertToken'' \<or> token \<in> p_token ` set (resets st1)
                        then (Reply 200 forgotMessage, None, st1)
                        else (Reply 200 forgotMessage, if hasMailer then Some (mail, token) else None,
                          st1\<lparr>resets := resets st1 @ [\<lparr>p_user = u_id u, p_org = oid, p_token = token,
                            p_expiresAt = now env + hour, p_usedAt = None\<rparr>]\<rparr>))))))"

definition liveToken :: "id_env \<Rightarrow> string \<Rightarrow> string \<Rightarrow> ResetRow \<Rightarrow> bool" where
  "liveToken env oid token r \<longleftrightarrow>
     p_token r = token \<and> p_org r = oid \<and> now env < p_expiresAt r \<and> p_usedAt r = None"

text \<open>Claiming the token and writing the password are one transaction.\<close>

definition handleResetPassword ::
    "(nat \<Rightarrow> rune_class) \<Rightarrow> id_env \<Rightarrow> (string \<times> string) option \<Rightarrow> id_state \<Rightarrow> id_response \<times> id_state" where
  "handleResetPassword table env body st =
     (case body of
        None \<Rightarrow> (Reply 400 ''token and password are required'', st)
      | Some (token, password) \<Rightarrow>
          (if ValidatePasswordPolicyChecks table password \<noteq> []
           then (ReplyList 400 ''password_policy_violation''
                   (ValidatePasswordPolicyChecks table password), st)
           else (case org env of
                   None \<Rightarrow> (Reply 400 ''Invalid or expired reset token'', st)
                 | Some oid \<Rightarrow>
                     (case pwHash (passwords env) (salt env) password of
                        HashPanics \<Rightarrow> (Reply 500 ''panic'', st)
                      | HashFails \<Rightarrow> (Reply 500 ''Failed to process password'', st)
                      | Hashed hash \<Rightarrow>
                          (if dbFails env ''begin'' then (Reply 500 ''Failed to reset password'', st)
                           else (case (if dbFails env ''claimToken'' then None
                                       else find (liveToken env oid token) (resets st)) of
                                   None \<Rightarrow> (Reply 400 ''Invalid or expired reset token'', st)
                                 | Some r \<Rightarrow>
                                     (if dbFails env ''writePassword'' \<or> dbFails env ''commit''
                                      then (Reply 500 ''Failed to update password'', st)
                                      else (Reply 200 ''Password has been reset successfully'',
                                        auditIdentity env ''user.password_reset'' ''success''
                                          (p_user r) (p_user r)
                                          (st\<lparr>resets := updateWhere (liveToken env oid token)
                                               (\<lambda>r. r\<lparr>p_usedAt := Some (now env)\<rparr>) (resets st),
                                             users := updateWhere (inOrg oid (p_user r))
                                               (\<lambda>u. u\<lparr>u_passwordHash := Some hash,
                                                       u_passwordChangedAt := Some (now env)\<rparr>)
                                               (users st)\<rparr>)))))))))"

text \<open>\<open>dirChange\<close> is the password change of the directory connector (directory, user, old, new). The
  request context carries no actor: the handler does not put one into it.\<close>

definition handleChangePassword ::
    "(string \<Rightarrow> string \<Rightarrow> string \<Rightarrow> string \<Rightarrow> bool) \<Rightarrow> (nat \<Rightarrow> rune_class) \<Rightarrow> id_env \<Rightarrow> string
      \<Rightarrow> (string \<times> string) option \<Rightarrow> id_state \<Rightarrow> id_response \<times> id_state" where
  "handleChangePassword dirChange table env uid body st =
     (if uid = [] then (Reply 401 ''unauthenticated'', st)
      else (case body of
              None \<Rightarrow> (Reply 400 ''invalid body'', st)
            | Some (current, new) \<Rightarrow>
                (case org env of
                   None \<Rightarrow> (Reply 500 ''failed to verify password'', st)
                 | Some oid \<Rightarrow>
                     (case (if dbFails env ''selectUser'' then None else find (inOrg oid uid) (users st)) of
                        None \<Rightarrow> (Reply 500 ''failed to verify password'', st)
                      | Some u \<Rightarrow>
                          (case u_passwordHash u of
                             None \<Rightarrow> (Reply 500 ''failed to verify password'', st)
                           | Some hash \<Rightarrow>
                               (if u_source u = Some ''azure_ad''
                                then (Reply 400 ''Password is managed by Azure Active Directory.'', st)
                                else if directoryManaged env u then
                                  (if \<not> dirChange (the (u_directoryID u)) (u_username u) current new
                                   then (Reply 400 ''directory password change failed'', st)
                                   else (Reply 200 ''password changed'',
                                     if dbFails env ''directoryChanged'' then st
                                     else st\<lparr>users := updateWhere (inOrg oid uid)
                                       (\<lambda>u. u\<lparr>u_passwordChangedAt := Some (now env),
                                               u_passwordMustChange := False\<rparr>) (users st)\<rparr>))
                                else (case Verify (passwords env) hash current of
                                        VerifyPanics \<Rightarrow> (Reply 500 ''panic'', st)
                                      | Unreadable _ \<Rightarrow> (Reply 400 ''current password is incorrect'', st)
                                      | Verified ok _ \<Rightarrow>
                                          (if \<not> ok then (Reply 400 ''current password is incorrect'', st)
                                           else (case SetPassword table (env\<lparr>actor := []\<rparr>) uid new st of
                                                   (Some e, st') \<Rightarrow> (Reply 500 ''internal server error'', st')
                                                 | (None, st') \<Rightarrow> (Reply 200 ''password changed'', st'))))))))))"

text \<open>\<open>parseUUID\<close> is the parser of the \<^verbatim>\<open>uuid\<close> package, giving the canonical text.\<close>

definition handleAdminSetPassword ::
    "(string \<Rightarrow> string option) \<Rightarrow> (nat \<Rightarrow> rune_class) \<Rightarrow> id_env \<Rightarrow> string \<Rightarrow> string option \<Rightarrow> id_state
      \<Rightarrow> id_response \<times> id_state" where
  "handleAdminSetPassword parseUUID table env rawID body st =
     (case parseUUID rawID of
        None \<Rightarrow> (Reply 400 ''user id must be a UUID'', st)
      | Some uid \<Rightarrow>
          (case body of
             None \<Rightarrow> (Reply 400 ''invalid body'', st)
           | Some password \<Rightarrow>
               (if length password < 8 then (Reply 400 ''password must be at least 8 characters'', st)
                else (case org env of
                        None \<Rightarrow> (Reply 404 ''User not found'', st)
                      | Some oid \<Rightarrow>
                          (case (if dbFails env ''selectUser'' then None
                                 else find (\<lambda>u. inOrg oid uid u \<and> u_enabled u) (users st)) of
                             None \<Rightarrow> (Reply 404 ''User not found'', st)
                           | Some u \<Rightarrow>
                               (if u_source u \<in> Some ` directorySources
                                then (Reply 400 ''Password for directory-managed users must be set via the directory; use reset-password instead.'', st)
                                else (case SetPassword table (env\<lparr>actor := []\<rparr>) uid password st of
                                        (Some e, st') \<Rightarrow> (Reply 500 ''failed to set password'', st')
                                      | (None, st') \<Rightarrow> (Reply 200 ''password set'', st'))))))))"

section \<open>Properties\<close>

subsection \<open>Policy\<close>

lemma runes_ascii: "list_all (\<lambda>b. b < 128) bs \<Longrightarrow> runes bs = bs"
  by (induction bs) (simp_all add: decodeRune_def)

text \<open>The special characters of ASCII.\<close>

definition asciiSpecial :: "char \<Rightarrow> bool" where
  "asciiSpecial c \<longleftrightarrow> 33 \<le> byteOf c \<and> byteOf c \<le> 126 \<and> \<not> isUpperAscii c \<and> \<not> isLowerAscii c
     \<and> \<not> isDigitAscii c"

lemma ascii_classes:
  assumes "byteOf c < 128"
  shows "runeClass table (byteOf c) = Upper \<longleftrightarrow> isUpperAscii c"
    and "runeClass table (byteOf c) = Lower \<longleftrightarrow> isLowerAscii c"
    and "runeClass table (byteOf c) = Digit \<longleftrightarrow> isDigitAscii c"
    and "runeClass table (byteOf c) = Special \<longleftrightarrow> asciiSpecial c"
  using assms
  by (auto simp: runeClass_def isUpperAscii_def isLowerAscii_def isDigitAscii_def asciiSpecial_def)

lemma guarded_message: "(if c then [x] else []) = [] \<longleftrightarrow> \<not> c" "(if c then None else Some e) = None \<longleftrightarrow> c"
  by simp_all

lemma policy_none:
  "ValidatePasswordPolicy table password = None \<longleftrightarrow> \<not> length password < 8
     \<and> (\<forall>k \<in> {Upper, Lower, Digit, Special}. k \<in> set (map (runeClass table) (runes (map byteOf password))))"
  unfolding ValidatePasswordPolicy_def ValidatePasswordPolicyChecks_def Let_def guarded_message
    append_is_Nil_conv by simp

text \<open>
  An ASCII password passes the policy exactly when it has at least eight characters, an upper-case and
  a lower-case letter, a digit and another printable character, whatever the Unicode tables say.
\<close>

theorem password_policy_exact:
  assumes "list_all (\<lambda>c. byteOf c < 128) password"
  shows "ValidatePasswordPolicy table password = None \<longleftrightarrow>
     8 \<le> length password \<and> list_ex isUpperAscii password \<and> list_ex isLowerAscii password
     \<and> list_ex isDigitAscii password \<and> list_ex asciiSpecial password"
proof -
  have runes: "runes (map byteOf password) = map byteOf password"
    using assms by (intro runes_ascii) (simp add: list_all_iff)
  have cls: "k \<in> set (map (runeClass table) (runes (map byteOf password))) \<longleftrightarrow>
      (\<exists>c \<in> set password. runeClass table (byteOf c) = k)" for k
    unfolding runes by auto
  have "Upper \<in> set (map (runeClass table) (runes (map byteOf password))) \<longleftrightarrow> list_ex isUpperAscii password"
    "Lower \<in> set (map (runeClass table) (runes (map byteOf password))) \<longleftrightarrow> list_ex isLowerAscii password"
    "Digit \<in> set (map (runeClass table) (runes (map byteOf password))) \<longleftrightarrow> list_ex isDigitAscii password"
    "Special \<in> set (map (runeClass table) (runes (map byteOf password))) \<longleftrightarrow> list_ex asciiSpecial password"
    unfolding cls using assms by (auto simp: list_ex_iff list_all_iff ascii_classes)
  then show ?thesis unfolding policy_none by (simp add: not_less del: set_map)
qed

text \<open>The limit of eight counts bytes: five characters are enough when two of them take three bytes
  each, although the message speaks of characters.\<close>

definition shortPassword :: string where
  "shortPassword = ''Aa1'' @ map char_of [226, 130, 172, 226, 130, 172 :: nat]"

theorem five_characters_pass:
  "table 8364 = Special \<Longrightarrow>
   length (runes (map byteOf shortPassword)) = 5 \<and> ValidatePasswordPolicy table shortPassword = None"
proof -
  have "map byteOf shortPassword = [65, 97, 49, 226, 130, 172, 226, 130, 172]"
    by (simp add: shortPassword_def byteOf_def)
  then have runes: "runes (map byteOf shortPassword) = [65, 97, 49, 8364, 8364]"
    by (simp add: decodeRune_def secondByteOK_def contByte_def)
  have len: "length shortPassword = 9" by (simp add: shortPassword_def)
  assume "table 8364 = Special"
  then show ?thesis
    unfolding policy_none by (simp add: runes len runeClass_def)
qed

subsection \<open>Reset\<close>

lemma reset_success_cases:
  assumes "handleResetPassword table env body st = (Reply 200 msg, st')"
  obtains token password oid hash r where "body = Some (token, password)"
    "ValidatePasswordPolicyChecks table password = []" "org env = Some oid"
    "pwHash (passwords env) (salt env) password = Hashed hash"
    "find (liveToken env oid token) (resets st) = Some r"
    "st' = auditIdentity env ''user.password_reset'' ''success'' (p_user r) (p_user r)
       (st\<lparr>resets := updateWhere (liveToken env oid token)
              (\<lambda>r. r\<lparr>p_usedAt := Some (now env)\<rparr>) (resets st),
           users := updateWhere (inOrg oid (p_user r))
              (\<lambda>u. u\<lparr>u_passwordHash := Some hash, u_passwordChangedAt := Some (now env)\<rparr>) (users st)\<rparr>)"
  using assms unfolding handleResetPassword_def
  by (simp split: option.splits if_splits hash_result.splits prod.splits)

text \<open>Every refusal leaves the state as it was.\<close>

lemma reset_refused_unchanged:
  assumes "handleResetPassword table env body st = (reply, st')" and "\<not> (\<exists>msg. reply = Reply 200 msg)"
  shows "st' = st"
  using assms unfolding handleResetPassword_def
  by (auto split: option.splits if_splits hash_result.splits prod.splits)

text \<open>
  C25: a reset succeeds only for a policy-conforming password and an unexpired, unused token of the
  organisation; it spends the token, changes the account the token was issued for and no other, and
  the stored hash accepts the new password. A refused reset changes nothing.
\<close>

theorem reset_sound:
  assumes "handleResetPassword table env body st = (Reply status msg, st')"
    and "salt env = Some slt" and "length slt = unat (SaltLength Default)"
    and "argonVersion (passwords env) < 2 ^ 63"
    and "keyLengthLaw (passwords env)"
  shows "if status = 200
    then \<exists>token password oid r. body = Some (token, password) \<and> org env = Some oid
      \<and> ValidatePasswordPolicy table password = None
      \<and> r \<in> set (resets st) \<and> liveToken env oid token r
      \<and> (\<forall>r' \<in> set (resets st'). \<not> liveToken env oid token r')
      \<and> filter (\<lambda>u. \<not> inOrg oid (p_user r) u) (users st') =
          filter (\<lambda>u. \<not> inOrg oid (p_user r) u) (users st)
      \<and> (\<forall>u \<in> set (users st'). inOrg oid (p_user r) u \<longrightarrow>
           (\<exists>hash. u_passwordHash u = Some hash
              \<and> Verify (passwords env) hash password = Verified True False))
    else st' = st"
proof (cases "status = 200")
  case True
  with assms(1) have "handleResetPassword table env body st = (Reply 200 msg, st')" by simp
  then show ?thesis
  proof (rule reset_success_cases)
    fix token password oid hash r
    assume body: "body = Some (token, password)" "ValidatePasswordPolicyChecks table password = []"
        "org env = Some oid"
      and hash: "pwHash (passwords env) (salt env) password = Hashed hash"
      and r: "find (liveToken env oid token) (resets st) = Some r"
      and st': "st' = auditIdentity env ''user.password_reset'' ''success'' (p_user r) (p_user r)
        (st\<lparr>resets := updateWhere (liveToken env oid token)
              (\<lambda>r. r\<lparr>p_usedAt := Some (now env)\<rparr>) (resets st),
           users := updateWhere (inOrg oid (p_user r))
              (\<lambda>u. u\<lparr>u_passwordHash := Some hash, u_passwordChangedAt := Some (now env)\<rparr>) (users st)\<rparr>)"
    have ok: "Verify (passwords env) hash password = Verified True False"
      by (rule pwHash_verifies [OF _ assms(3,4)]) (use hash assms(2,5) in auto)
    have rs: "resets st' = updateWhere (liveToken env oid token)
        (\<lambda>r. r\<lparr>p_usedAt := Some (now env)\<rparr>) (resets st)"
      and us: "users st' = updateWhere (inOrg oid (p_user r))
        (\<lambda>u. u\<lparr>u_passwordHash := Some hash, u_passwordChangedAt := Some (now env)\<rparr>) (users st)"
      unfolding st' by simp_all
    have spent: "\<forall>r' \<in> set (resets st'). \<not> liveToken env oid token r'"
      unfolding rs by (intro ballI, erule updateWhere_clears [rotated]) (simp add: liveToken_def)
    have others: "filter (\<lambda>u. \<not> inOrg oid (p_user r) u) (users st') =
        filter (\<lambda>u. \<not> inOrg oid (p_user r) u) (users st)"
      unfolding us by (auto intro: filter_updateWhere_same simp: inOrg_def)
    have verifies: "\<forall>u \<in> set (users st'). inOrg oid (p_user r) u \<longrightarrow> (\<exists>hash. u_passwordHash u = Some hash
              \<and> Verify (passwords env) hash password = Verified True False)"
      unfolding us
    proof (intro ballI impI)
      fix u
      assume "u \<in> set (updateWhere (inOrg oid (p_user r))
          (\<lambda>u. u\<lparr>u_passwordHash := Some hash, u_passwordChangedAt := Some (now env)\<rparr>) (users st))"
        and "inOrg oid (p_user r) u"
      then have "u_passwordHash u = Some hash" by (auto dest!: updateWhere_memD)
      with ok show "\<exists>hash. u_passwordHash u = Some hash
          \<and> Verify (passwords env) hash password = Verified True False" by blast
    qed
    have live: "r \<in> set (resets st)" "liveToken env oid token r"
      using find_Some_mem [OF r] by auto
    have policy: "ValidatePasswordPolicy table password = None"
      using body(2) by (simp add: ValidatePasswordPolicy_def)
    show ?thesis
      unfolding if_P [OF True]
      by (intro exI conjI) (rule body(1) body(3) policy live spent others verifies)+
  qed
next
  case False
  with reset_refused_unchanged [OF assms(1)] have "st' = st" by blast
  then show ?thesis unfolding if_not_P [OF False] .
qed

text \<open>
  A successful reset leaves everything that keeps an intruder in, or the owner out, as it was: the
  sessions and refresh tokens of the account, its failure counter and lock (a locked account stays
  locked against the new password), and every other outstanding reset token.
\<close>

theorem reset_leaves_sessions_and_lock:
  assumes "handleResetPassword table env body st = (Reply 200 msg, st')"
  shows "sessions st' = sessions st \<and> refreshTokens st' = refreshTokens st
    \<and> revokedKeys st' = revokedKeys st
    \<and> map (\<lambda>u. (u_id u, u_failedLoginCount u, u_lockedUntil u, u_passwordMustChange u)) (users st') =
      map (\<lambda>u. (u_id u, u_failedLoginCount u, u_lockedUntil u, u_passwordMustChange u)) (users st)
    \<and> (\<exists>token password. body = Some (token, password)
       \<and> filter (\<lambda>r. p_token r \<noteq> token) (resets st') = filter (\<lambda>r. p_token r \<noteq> token) (resets st))"
  using assms
proof (rule reset_success_cases)
  fix token password oid hash r
  assume body: "body = Some (token, password)"
    and st': "st' = auditIdentity env ''user.password_reset'' ''success'' (p_user r) (p_user r)
      (st\<lparr>resets := updateWhere (liveToken env oid token)
              (\<lambda>r. r\<lparr>p_usedAt := Some (now env)\<rparr>) (resets st),
           users := updateWhere (inOrg oid (p_user r))
              (\<lambda>u. u\<lparr>u_passwordHash := Some hash, u_passwordChangedAt := Some (now env)\<rparr>) (users st)\<rparr>)"
  have "filter (\<lambda>r. p_token r \<noteq> token) (resets st') = filter (\<lambda>r. p_token r \<noteq> token) (resets st)"
    unfolding st' by (auto intro: filter_updateWhere_same simp: liveToken_def)
  moreover have "sessions st' = sessions st" "refreshTokens st' = refreshTokens st"
    "revokedKeys st' = revokedKeys st"
    "map (\<lambda>u. (u_id u, u_failedLoginCount u, u_lockedUntil u, u_passwordMustChange u)) (users st') =
      map (\<lambda>u. (u_id u, u_failedLoginCount u, u_lockedUntil u, u_passwordMustChange u)) (users st)"
    unfolding st' by (simp_all add: map_updateWhere_key)
  ultimately show ?thesis using body by blast
qed

subsection \<open>Single use of a token\<close>

datatype reset_op =
    ForgotOp bool id_env "string option"
  | ResetOp "nat \<Rightarrow> rune_class" id_env "(string \<times> string) option"

text \<open>A request and, as its grant, whether it reset a password with the token \<open>token\<close>.\<close>

fun resetUse :: "string \<Rightarrow> reset_op \<Rightarrow> id_state \<Rightarrow> id_state \<times> unit option" where
  "resetUse token (ForgotOp m env email) st =
     (case handleForgotPassword m env email st of (_, _, st') \<Rightarrow> (st', None))"
| "resetUse token (ResetOp table env body) st =
     (case handleResetPassword table env body st of (reply, st') \<Rightarrow>
        (st', if (\<exists>msg. reply = Reply 200 msg) \<and> map_option fst body = Some token then Some () else None))"

definition tokensKeyed :: "id_state \<Rightarrow> bool" where
  "tokensKeyed st \<longleftrightarrow> distinct (map p_token (resets st))"

definition tokenSpent :: "string \<Rightarrow> id_state \<Rightarrow> bool" where
  "tokenSpent token st \<longleftrightarrow> (\<forall>r \<in> set (resets st). p_token r = token \<longrightarrow> p_usedAt r \<noteq> None)"

fun draws :: "reset_op \<Rightarrow> string option" where
  "draws (ForgotOp m env email) = Some (drawToken env)"
| "draws (ResetOp table env body) = None"

lemma forgot_tokens:
  assumes "handleForgotPassword m env email st = (reply, mail, st')"
  obtains P where "resets st' = deleteWhere P (resets st)"
  | P r where "resets st' = deleteWhere P (resets st) @ [r]" "p_token r = drawToken env"
      "drawToken env \<notin> p_token ` set (deleteWhere P (resets st))"
proof -
  have none: "deleteWhere (\<lambda>_. False) rs = rs" for rs :: "ResetRow list" by (simp add: deleteWhere_def)
  show thesis
  proof (cases "\<exists>m oid. email = Some m \<and> org env = Some oid")
    case False
    with assms have "resets st' = deleteWhere (\<lambda>_. False) (resets st)"
      by (auto simp: handleForgotPassword_def none split: option.splits)
    then show thesis by (rule that(1))
  next
    case True
    then obtain addr oid where e: "email = Some addr" "org env = Some oid" by blast
    define P where "P = (if dbFails env ''cleanupTokens'' then \<lambda>_. False else deadToken env oid)"
    define st1 where "st1 = (if dbFails env ''cleanupTokens'' then st
      else st\<lparr>resets := deleteWhere (deadToken env oid) (resets st)\<rparr>)"
    have rs: "resets st1 = deleteWhere P (resets st)" by (simp add: st1_def P_def none)
    from assms have "resets st' = resets st1 \<or> (\<exists>r. resets st' = resets st1 @ [r]
        \<and> p_token r = drawToken env \<and> drawToken env \<notin> p_token ` set (resets st1))"
      unfolding handleForgotPassword_def e Let_def option.case st1_def [symmetric]
      by (auto split: option.splits if_splits)
    then show thesis unfolding rs using that by blast
  qed
qed

lemma reset_use_shape:
  assumes "resetUse token (ResetOp table env body) st = (st', out)"
  obtains "st' = st" "out = None"
  | oid tok where "resets st' = updateWhere (liveToken env oid tok)
        (\<lambda>r. r\<lparr>p_usedAt := Some (now env)\<rparr>) (resets st)"
      "\<exists>r \<in> set (resets st). liveToken env oid tok r" "out = (if tok = token then Some () else None)"
proof -
  obtain reply st1 where eq: "handleResetPassword table env body st = (reply, st1)" by fastforce
  show thesis
  proof (cases "\<exists>msg. reply = Reply 200 msg")
    case False
    with reset_refused_unchanged [OF eq] eq assms show thesis by (intro that(1)) auto
  next
    case True
    with eq obtain msg where "handleResetPassword table env body st = (Reply 200 msg, st1)" by blast
    then show thesis
    proof (rule reset_success_cases)
      fix tok password oid hash r
      assume body: "body = Some (tok, password)" and r: "find (liveToken env oid tok) (resets st) = Some r"
        and st1: "st1 = auditIdentity env ''user.password_reset'' ''success'' (p_user r) (p_user r)
          (st\<lparr>resets := updateWhere (liveToken env oid tok)
              (\<lambda>r. r\<lparr>p_usedAt := Some (now env)\<rparr>) (resets st),
            users := updateWhere (inOrg oid (p_user r))
              (\<lambda>u. u\<lparr>u_passwordHash := Some hash, u_passwordChangedAt := Some (now env)\<rparr>) (users st)\<rparr>)"
      from assms eq True body have "st' = st1" "out = (if tok = token then Some () else None)" by auto
      with st1 find_Some_mem [OF r] show thesis by (intro that(2)) auto
    qed
  qed
qed

text \<open>The requests other than those that happen to draw the token \<open>token\<close> again.\<close>

definition resetUseFresh :: "string \<Rightarrow> reset_op \<Rightarrow> id_state \<Rightarrow> id_state \<times> unit option" where
  "resetUseFresh token op st = (if draws op = Some token then (st, None) else resetUse token op st)"

lemma forgot_use:
  assumes "resetUse token (ForgotOp m env email) st = (st', out)"
  obtains reply mail where "handleForgotPassword m env email st = (reply, mail, st')" "out = None"
  using assms by (auto split: prod.splits)

lemma forgot_keeps:
  assumes "handleForgotPassword m env email st = (reply, mail, st')" and "tokensKeyed st"
  shows "tokensKeyed st'"
    and "drawToken env \<noteq> token \<Longrightarrow> tokenSpent token st \<Longrightarrow> tokenSpent token st'"
  using assms
  by (auto elim!: forgot_tokens simp: tokensKeyed_def tokenSpent_def distinct_map_deleteWhere)

lemma claim_keeps:
  assumes rs: "resets st' = updateWhere (liveToken env oid tok) (\<lambda>r. r\<lparr>p_usedAt := Some (now env)\<rparr>) (resets st)"
    and key: "tokensKeyed st"
  shows "tokensKeyed st'" and "tokenSpent token st \<Longrightarrow> tokenSpent token st'"
    and "\<exists>r \<in> set (resets st). liveToken env oid tok r \<Longrightarrow> tokenSpent tok st'"
proof -
  show "tokensKeyed st'" using key by (simp add: tokensKeyed_def rs map_updateWhere_key)
  show "tokenSpent token st \<Longrightarrow> tokenSpent token st'"
    unfolding tokenSpent_def rs by (auto dest!: updateWhere_memD)
  assume "\<exists>r \<in> set (resets st). liveToken env oid tok r"
  then obtain r where r: "r \<in> set (resets st)" "liveToken env oid tok r" by blast
  have "liveToken env oid tok x" if "x \<in> set (resets st)" "p_token x = tok" for x
    using distinct_key_eq [OF key [unfolded tokensKeyed_def] that(1) r(1)] r that
    by (simp add: liveToken_def)
  then show "tokenSpent tok st'"
    unfolding tokenSpent_def rs by (auto dest!: updateWhere_memD)
qed

lemma live_not_spent: "liveToken env oid tok r \<Longrightarrow> r \<in> set (resets st) \<Longrightarrow> \<not> tokenSpent tok st"
  by (auto simp: tokenSpent_def liveToken_def)

interpretation reset_token: single_use "resetUseFresh token" tokensKeyed "tokenSpent token" for token
proof (unfold_locales, goal_cases)
  case (1 s x s' out)
  then show ?case
    by (cases x) (auto simp: resetUseFresh_def claim_keeps forgot_keeps simp del: resetUse.simps
        split: if_splits elim!: forgot_use reset_use_shape)
next
  case (2 s x s' r)
  show ?case
  proof (cases x)
    case (ForgotOp m env email)
    with 2 show ?thesis
      by (auto simp: resetUseFresh_def simp del: resetUse.simps split: if_splits elim!: forgot_use)
  next
    case (ResetOp table env body)
    with 2(2) have "resetUse token (ResetOp table env body) s = (s', Some r)"
      by (simp add: resetUseFresh_def del: resetUse.simps)
    then show ?thesis
      by (rule reset_use_shape) (use claim_keeps(3) [OF _ 2(1)] in \<open>auto split: if_splits\<close>)
  qed
next
  case (3 s x s' out)
  then show ?case
    by (cases x) (auto simp: resetUseFresh_def claim_keeps forgot_keeps dest: live_not_spent
        simp del: resetUse.simps split: if_splits elim!: forgot_use reset_use_shape)
qed

text \<open>
  A reset token is honoured at most once over any sequence of forgotten-password and reset requests,
  as long as the random source does not draw the same token again.
\<close>

theorem reset_token_single_use:
  assumes "tokensKeyed st" and "\<forall>op \<in> set ops. draws op \<noteq> Some token"
  shows "length (runGrants (resetUse token) ops st) \<le> 1"
proof -
  have "runGrants (resetUse token) ops st = runGrants (resetUseFresh token) ops st"
    using assms(2) by (intro runGrants_cong) (simp add: resetUseFresh_def)
  then show ?thesis using reset_token.at_most_one_grant [OF assms(1), of token ops] by simp
qed

subsection \<open>What the handlers give away\<close>

text \<open>
  The forgotten-password reply is meant to be the same whether or not an account exists, but it names
  the directory for an enabled directory account, and no other reply carries a note.
\<close>

theorem forgot_reveals_directory_accounts:
  assumes "org env = Some oid" and "\<not> dbFails env ''selectUser''"
  shows "(\<exists>note mail' st'. handleForgotPassword m env (Some mail) st =
            (ReplyNote 200 forgotMessage note, mail', st')) \<longleftrightarrow>
    (\<exists>u. find (\<lambda>u. u_email u = mail \<and> u_enabled u \<and> u_org u = oid) (users st) = Some u
       \<and> u_source u \<in> Some ` directorySources)"
proof -
  have "find P (users (if dbFails env ''cleanupTokens'' then st
      else st\<lparr>resets := deleteWhere (deadToken env oid) (resets st)\<rparr>)) = find P (users st)" for P
    by simp
  then show ?thesis
    unfolding handleForgotPassword_def Let_def option.case assms(1) if_not_P [OF assms(2)]
    by (simp split: option.split)
qed

text \<open>
  A user who changes the own password is recorded as an administrator: the context of the request
  carries no actor, so the audit row says the system set the password.
\<close>

theorem own_change_audited_as_admin:
  assumes "handleChangePassword dirChange table env uid body st = (Reply 200 msg, st')"
    and "audits st' \<noteq> audits st" and "uid \<noteq> ''system''"
  shows "audits st' = audits st @ [\<lparr>a_action = ''user.password_set_by_admin'', a_outcome = ''success'',
      a_actor = ''system'', a_target = uid\<rparr>]"
proof -
  have set: "audits st'' = audits st \<or> audits st'' = audits st @ [\<lparr>a_action = ''user.password_set_by_admin'',
      a_outcome = ''success'', a_actor = ''system'', a_target = uid\<rparr>]"
    if "SetPassword table (env\<lparr>actor := []\<rparr>) uid pw st = (None, st'')" for pw st''
    using that not_sym [OF assms(3)]
    unfolding SetPassword_def setPasswordAudited_def actorIDFromContext_def auditIdentity_def
    by (auto split: option.splits hash_result.splits if_splits)
  from assms(1) have "audits st' = audits st
      \<or> (\<exists>pw. SetPassword table (env\<lparr>actor := []\<rparr>) uid pw st = (None, st'))"
    unfolding handleChangePassword_def
    by (auto split: if_splits option.splits prod.splits verify_result.splits)
  with set assms(2) show ?thesis by blast
qed

section \<open>Witnesses\<close>

definition noTable :: "nat \<Rightarrow> rune_class" where
  "noTable r = (if r = 8364 then Special else Other)"

theorem password_policy_exact_witness:
  "ValidatePasswordPolicy noTable ''Secret1!'' = None"
proof -
  have "list_all (\<lambda>c. byteOf c < 128) ''Secret1!''" by (simp add: byteOf_def)
  from password_policy_exact [OF this, of noTable] show ?thesis
    by (simp add: isUpperAscii_def isLowerAscii_def isDigitAscii_def asciiSpecial_def byteOf_def)
qed

theorem five_characters_pass_witness: "ValidatePasswordPolicy noTable shortPassword = None"
  using five_characters_pass [of noTable] by (simp add: noTable_def)

definition demoReset :: ResetRow where
  "demoReset = \<lparr>p_user = ''u1'', p_org = ''acme'', p_token = ''tok'', p_expiresAt = 100, p_usedAt = None\<rparr>"

definition demoResetState :: id_state where
  "demoResetState = demoIdState\<lparr>resets := [demoReset]\<rparr>"

lemma secret_policy: "ValidatePasswordPolicyChecks noTable ''Secret1!'' = []"
proof -
  have bytes: "map byteOf ''Secret1!'' = [83, 101, 99, 114, 101, 116, 49, 33]" by (simp add: byteOf_def)
  have "runes (map byteOf ''Secret1!'') = [83, 101, 99, 114, 101, 116, 49, 33]"
    unfolding bytes by (rule runes_ascii) simp
  then have "ValidatePasswordPolicy noTable ''Secret1!'' = None"
    unfolding policy_none by (simp add: runeClass_def del: map_eq_conv list.map)
  then show ?thesis unfolding ValidatePasswordPolicy_def Let_def guarded_message .
qed

lemma demo_reset:
  "\<exists>msg st'. handleResetPassword noTable (demoIdEnv 5) (Some (''tok'', ''Secret1!'')) demoResetState =
     (Reply 200 msg, st')"
proof -
  obtain h where h: "pwHash demoKdf (Some demoSalt) ''Secret1!'' = Hashed h"
    by (simp add: pwHash_def paramsHash_def demoKdf_def Default_def)
  have env: "org (demoIdEnv 5) = Some ''acme''" "passwords (demoIdEnv 5) = demoKdf"
    "salt (demoIdEnv 5) = Some demoSalt" "\<And>x. \<not> dbFails (demoIdEnv 5) x"
    by (simp_all add: demoIdEnv_def)
  have "find (liveToken (demoIdEnv 5) ''acme'' ''tok'') (resets demoResetState) = Some demoReset"
    by (simp add: demoResetState_def liveToken_def) (simp add: demoReset_def demoIdEnv_def)
  then show ?thesis by (simp add: handleResetPassword_def secret_policy env h)
qed

theorem reset_sound_witness:
  "\<exists>msg st'. handleResetPassword noTable (demoIdEnv 5) (Some (''tok'', ''Secret1!'')) demoResetState =
     (Reply 200 msg, st') \<and> (\<forall>r \<in> set (resets st'). \<not> liveToken (demoIdEnv 5) ''acme'' ''tok'' r)"
proof -
  obtain msg st' where ok: "handleResetPassword noTable (demoIdEnv 5) (Some (''tok'', ''Secret1!''))
      demoResetState = (Reply 200 msg, st')"
    using demo_reset by blast
  have *: "salt (demoIdEnv 5) = Some demoSalt" "length demoSalt = unat (SaltLength Default)"
    "argonVersion (passwords (demoIdEnv 5)) < 2 ^ 63" "org (demoIdEnv 5) = Some ''acme''"
    by (simp_all add: demoIdEnv_def demoSalt_def Default_def demoKdf_def)
  have "keyLengthLaw (passwords (demoIdEnv 5))" by (simp add: demoIdEnv_def demoKdf_length)
  from reset_sound [OF ok *(1-3) this, unfolded if_P [OF refl]] ok *(4) show ?thesis by auto
qed

theorem reset_leaves_sessions_and_lock_witness:
  "\<exists>msg st'. handleResetPassword noTable (demoIdEnv 5) (Some (''tok'', ''Secret1!'')) demoResetState =
     (Reply 200 msg, st') \<and> sessions st' = sessions demoResetState"
proof -
  obtain msg st' where ok: "handleResetPassword noTable (demoIdEnv 5) (Some (''tok'', ''Secret1!''))
      demoResetState = (Reply 200 msg, st')"
    using demo_reset by blast
  with reset_leaves_sessions_and_lock [OF ok] show ?thesis by blast
qed

theorem reset_token_single_use_witness:
  "length (runGrants (resetUse ''tok'')
     [ResetOp noTable (demoIdEnv 5) (Some (''tok'', ''Secret1!'')),
      ResetOp noTable (demoIdEnv 6) (Some (''tok'', ''Secret2!''))] demoResetState) \<le> 1"
  by (rule reset_token_single_use) (simp_all add: tokensKeyed_def demoResetState_def)

definition demoDirectoryState :: id_state where
  "demoDirectoryState = demoIdState\<lparr>users := [demoAccount\<lparr>u_source := Some ''ldap''\<rparr>]\<rparr>"

theorem forgot_reveals_directory_accounts_witness:
  "\<exists>note mail st'. handleForgotPassword True (demoIdEnv 0) (Some ''alice@acme'') demoDirectoryState =
     (ReplyNote 200 forgotMessage note, mail, st')"
proof -
  have "org (demoIdEnv 0) = Some ''acme''" "\<not> dbFails (demoIdEnv 0) ''selectUser''"
    by (simp_all add: demoIdEnv_def)
  from forgot_reveals_directory_accounts [OF this, of True "''alice@acme''" demoDirectoryState]
  show ?thesis by (simp add: demoDirectoryState_def demoAccount_def directorySources_def)
qed

theorem own_change_audited_as_admin_witness:
  "\<exists>msg st'. handleChangePassword (\<lambda>_ _ _ _. False) noTable (demoIdEnv 0) ''u1''
       (Some (''pw'', ''Secret1!'')) demoIdState = (Reply 200 msg, st')
     \<and> audits st' = [\<lparr>a_action = ''user.password_set_by_admin'', a_outcome = ''success'',
         a_actor = ''system'', a_target = ''u1''\<rparr>]"
proof -
  obtain h where h: "pwHash demoKdf (Some demoSalt) ''Secret1!'' = Hashed h"
    by (simp add: pwHash_def paramsHash_def demoKdf_def Default_def)
  have none: "audits demoIdState = []" by (simp add: demoIdState_def)
  obtain msg st' where ok: "handleChangePassword (\<lambda>_ _ _ _. False) noTable (demoIdEnv 0) ''u1''
       (Some (''pw'', ''Secret1!'')) demoIdState = (Reply 200 msg, st')" and "audits st' \<noteq> []"
    by (simp add: handleChangePassword_def demoIdEnv_def demoIdState_def demoAccount_def inOrg_def
        directoryManaged_def demo_verify SetPassword_def setPasswordAudited_def
        ValidatePasswordPolicy_def secret_policy h auditIdentity_def Let_def)
  with own_change_audited_as_admin [OF ok] none show ?thesis by auto
qed

end
