(* ===== verification/Access_Proxy.thy ===== *)
theory Access_Proxy
  imports Policy_Dsl
begin

text \<open>
  The access proxy, after \<^verbatim>\<open>internal/access/service.go\<close>, \<^verbatim>\<open>context_evaluator.go\<close>,
  \<^verbatim>\<open>route_group_authz.go\<close> and \<^verbatim>\<open>device_trust.go\<close>: the route a request selects by its host, cookie and
  bearer sessions with their idle timeout, logout and revocation, the context of a request and its
  evaluation, and the two decision handlers \<open>handleProxy\<close> and \<open>handleAuthDecide\<close> composed of them.

  Sessions live twice: as rows of \<^verbatim>\<open>proxy_sessions\<close> and as blobs in Redis under the hash of the
  cookie; only the blobs are read when a request is authenticated. The JSON of a blob is kept decoded.

  The theorems: a request is let through only after every check of its route; the verdict is a
  function of the state on arrival; logout and idleness end a session and twelve hours end every
  session, while a revocation by an administrator does not; the country list of a route and the
  user-agent check are without effect; which routes a host selects.
\<close>

section \<open>Data\<close>

record ProxyRoute =
  pr_ID :: string
  pr_Name :: string
  pr_FromURL :: string
  pr_ToURL :: string
  pr_RequireAuth :: bool
  pr_AllowedRoles :: "string list"
  pr_AllowedGroups :: "string list"
  pr_PolicyIDs :: "string list"
  pr_IdleTimeout :: int
  pr_Enabled :: bool
  pr_Priority :: int
  pr_PostureCheckIDs :: "string list"
  pr_InlinePolicy :: string
  pr_RequireDeviceTrust :: bool
  pr_AllowedCountries :: "string list"
  pr_MaxRiskScore :: int
  pr_CustomHeaders :: "(string \<times> string) list"

text \<open>A row of \<^verbatim>\<open>proxy_routes\<close>: a JSON column is the list its decoding
  leaves, \<open>None\<close> when it is null or no list.\<close>

record RouteRow =
  rr_route :: ProxyRoute
  rr_org :: string
  rr_roles :: "string list option"
  rr_groups :: "string list option"
  rr_policies :: "string list option"
  rr_posture :: "string list option"
  rr_countries :: "string list option"

record ProxySession =
  ps_ID :: string
  ps_UserID :: string
  ps_UserAgent :: string
  ps_Email :: string
  ps_Name :: string
  ps_Roles :: "string list"
  ps_LastActiveAt :: "int option"
  ps_RiskScore :: int
  ps_DeviceTrusted :: bool

text \<open>The blob in Redis; the times are Unix seconds.\<close>

record SessionBlob =
  sb_id :: string
  sb_user :: string
  sb_email :: string
  sb_name :: string
  sb_roles :: "string list"
  sb_expires :: int
  sb_lastActive :: int

record SessionDbRow =
  sr_id :: string
  sr_user :: string
  sr_token :: string
  sr_org :: string
  sr_expires :: int
  sr_lastActive :: int
  sr_revoked :: bool

record KnownDevice =
  kd_id :: string
  kd_user :: string
  kd_fingerprint :: string
  kd_trusted :: bool

record TrustRequest =
  tr_user :: string
  tr_device :: string
  tr_fingerprint :: string
  tr_pending :: bool

record proxy_state =
  px_routes :: "RouteRow list"
  px_blobs :: "SessionBlob redis"
  px_rows :: "SessionDbRow list"
  px_geo :: "(string \<times> string \<times> string \<times> int) list"
  px_threats :: "(string \<times> string \<times> bool) list"
  px_devices :: "KnownDevice list"
  px_trustRequests :: "TrustRequest list"
  px_memberships :: "(string \<times> string) list"
  px_groupCache :: "string \<Rightarrow> (string list \<times> int) option"
  px_stepups :: "string redis"
  px_audits :: "(string \<times> string) list"

text \<open>The answer of the governance service to one policy question: no answer, another status, or the
  decision with its step-up flag.\<close>

datatype policy_answer = NoAnswer | Status int | Decision bool bool

text \<open>
  The request and what lies outside the code: the token hash, the verifier of bearer tokens (giving
  subject, email, name and roles), the governance service, the posture evaluation of the overlay
  (\<open>None\<close> without overlay; per user \<open>None\<close> without identity or on error, otherwise the outcome of each
  check), the device fingerprint, the hour of an instant, and the float operations of the policies.
\<close>

record 'f proxy_env =
  pe_now :: int
  pe_org :: "string option"
  pe_fails :: "string \<Rightarrow> bool"
  pe_host :: string
  pe_clientIP :: string
  pe_userAgent :: string
  pe_cookie :: string
  pe_authorization :: string
  pe_method :: string
  pe_path :: string
  pe_header :: "string \<Rightarrow> string"
  pe_hash :: "string \<Rightarrow> string"
  pe_bearer :: "string \<Rightarrow> (string \<times> string \<times> string \<times> string list) option"
  pe_governance :: "string \<Rightarrow> ProxySession \<Rightarrow> policy_answer"
  pe_posture :: "(string \<Rightarrow> (bool \<times> bool list) option) option"
  pe_fingerprint :: "string \<Rightarrow> string \<Rightarrow> string"
  pe_hour :: "int \<Rightarrow> int"
  pe_floats :: "'f floatOps"
  pe_ratio :: "nat \<Rightarrow> nat \<Rightarrow> 'f"
  pe_regexps :: regexps
  pe_newID :: string
  pe_newToken :: string
  pe_parsesURL :: "string \<Rightarrow> bool"

definition auditProxy :: "'f proxy_env \<Rightarrow> string \<Rightarrow> string \<Rightarrow> proxy_state \<Rightarrow> proxy_state" where
  "auditProxy env action target st =
     (if pe_fails env ''audit'' then st else st\<lparr>px_audits := px_audits st @ [(action, target)]\<rparr>)"

section \<open>Routes\<close>

text \<open>\<^verbatim>\<open>LIKE\<close> with its wildcards and the backslash as escape.\<close>

function (sequential) like :: "string \<Rightarrow> string \<Rightarrow> bool" where
  "like [] s = (s = [])"
| "like (c # p) s =
     (if c = CHR ''%'' then like p s \<or> (case s of [] \<Rightarrow> False | _ # t \<Rightarrow> like (c # p) t)
      else if c = CHR ''_'' then (case s of [] \<Rightarrow> False | _ # t \<Rightarrow> like p t)
      else if byteOf c = 92 \<and> p \<noteq> [] then (case s of [] \<Rightarrow> False | x # t \<Rightarrow> x = hd p \<and> like (tl p) t)
      else (case s of [] \<Rightarrow> False | x # t \<Rightarrow> x = c \<and> like p t))"
  by pat_completeness auto
termination
  by (relation "measures [\<lambda>(p, s). length p + length s]") auto

fun highestPriority :: "RouteRow list \<Rightarrow> RouteRow option" where
  "highestPriority [] = None"
| "highestPriority (r # rs) =
     (case highestPriority rs of
        None \<Rightarrow> Some r
      | Some b \<Rightarrow> if pr_Priority (rr_route r) < pr_Priority (rr_route b) then Some b else Some r)"

definition jsonList :: "string list option \<Rightarrow> string list" where
  "jsonList v = (case v of None \<Rightarrow> [] | Some l \<Rightarrow> l)"

definition scanRoute :: "RouteRow \<Rightarrow> ProxyRoute" where
  "scanRoute r = (rr_route r)\<lparr>pr_AllowedRoles := jsonList (rr_roles r),
     pr_AllowedGroups := jsonList (rr_groups r), pr_PolicyIDs := jsonList (rr_policies r),
     pr_PostureCheckIDs := jsonList (rr_posture r), pr_AllowedCountries := jsonList (rr_countries r)\<rparr>"

definition routeMatches :: "string \<Rightarrow> RouteRow \<Rightarrow> bool" where
  "routeMatches host r \<longleftrightarrow> like (''%'' @ host @ ''%'') (pr_FromURL (rr_route r)) \<and> pr_Enabled (rr_route r)"

definition findRouteByHost :: "'f proxy_env \<Rightarrow> string \<Rightarrow> proxy_state \<Rightarrow> ProxyRoute option" where
  "findRouteByHost env host st =
     (if pe_fails env ''selectRoute'' then None
      else map_option scanRoute (highestPriority (filter (routeMatches host) (px_routes st))))"

section \<open>Sessions\<close>

definition unixTime :: "int \<Rightarrow> int" where
  "unixTime t = t div second"

definition defaultOrg :: string where
  "defaultOrg = ''00000000-0000-0000-0000-000000000010''"

definition blobKey :: "'f proxy_env \<Rightarrow> string \<Rightarrow> string" where
  "blobKey env token = ''proxy_session:'' @ pe_hash env token"

text \<open>The row is inserted and the blob stored for twelve hours; the second component is the cookie.\<close>

definition createSession ::
    "'f proxy_env \<Rightarrow> string \<times> string \<times> string \<times> string list \<Rightarrow> proxy_state \<Rightarrow> (string option) \<times> proxy_state" where
  "createSession env claims st =
     (case claims of (sub, email, name, roles) \<Rightarrow>
        let expiresAt = pe_now env + 12 * hour in
        if pe_fails env ''insertSession'' then (None, st)
        else (Some (pe_newToken env),
          st\<lparr>px_rows := px_rows st @ [\<lparr>sr_id = pe_newID env, sr_user = sub,
               sr_token = pe_hash env (pe_newToken env),
               sr_org = (case pe_org env of None \<Rightarrow> defaultOrg | Some oid \<Rightarrow> oid),
               sr_expires = expiresAt, sr_lastActive = pe_now env, sr_revoked = False\<rparr>],
             px_blobs := (if pe_fails env ''redisSet'' then px_blobs st
               else redisSetEx (pe_now env) (12 * hour) (blobKey env (pe_newToken env))
                 \<lparr>sb_id = pe_newID env, sb_user = sub, sb_email = email, sb_name = name,
                   sb_roles = roles, sb_expires = unixTime expiresAt,
                   sb_lastActive = unixTime (pe_now env)\<rparr> (px_blobs st))\<rparr>))"

definition readBlob :: "'f proxy_env \<Rightarrow> proxy_state \<Rightarrow> SessionBlob option" where
  "readBlob env st =
     (if pe_cookie env = [] \<or> pe_fails env ''redisGet'' then None
      else redisGet (pe_now env) (px_blobs st) (blobKey env (pe_cookie env)))"

text \<open>The user agent of the session is not restored.\<close>

definition getSessionFromRequest :: "'f proxy_env \<Rightarrow> proxy_state \<Rightarrow> ProxySession option" where
  "getSessionFromRequest env st =
     (case readBlob env st of
        None \<Rightarrow> None
      | Some b \<Rightarrow>
          (if sb_expires b < unixTime (pe_now env) then None
           else Some \<lparr>ps_ID = sb_id b, ps_UserID = sb_user b, ps_UserAgent = [], ps_Email = sb_email b,
             ps_Name = sb_name b, ps_Roles = sb_roles b,
             ps_LastActiveAt = (if 0 < sb_lastActive b then Some (sb_lastActive b * second) else None),
             ps_RiskScore = 0, ps_DeviceTrusted = False\<rparr>))"

definition isIdleExpired :: "ProxyRoute \<Rightarrow> ProxySession \<Rightarrow> int \<Rightarrow> bool" where
  "isIdleExpired route session now \<longleftrightarrow>
     0 < pr_IdleTimeout route
     \<and> (case ps_LastActiveAt session of
          None \<Rightarrow> False
        | Some t \<Rightarrow> pr_IdleTimeout route * second < now - t)"

definition getSessionFromBearer :: "'f proxy_env \<Rightarrow> ProxySession option" where
  "getSessionFromBearer env =
     (if \<not> hasPrefix (pe_authorization env) ''Bearer '' then None
      else (case pe_bearer env (drop 7 (pe_authorization env)) of
              None \<Rightarrow> None
            | Some (sub, email, name, roles) \<Rightarrow>
                Some \<lparr>ps_ID = [], ps_UserID = sub, ps_UserAgent = [], ps_Email = email, ps_Name = name,
                  ps_Roles = roles, ps_LastActiveAt = None, ps_RiskScore = 0, ps_DeviceTrusted = False\<rparr>))"

text \<open>The time-to-live of the blob is kept; without one it is set to twelve hours.\<close>

definition updateSessionActivity :: "'f proxy_env \<Rightarrow> ProxySession \<Rightarrow> proxy_state \<Rightarrow> proxy_state" where
  "updateSessionActivity env session st =
     (if (case ps_LastActiveAt session of Some t \<Rightarrow> pe_now env - t < 30 * second | None \<Rightarrow> False) then st
      else
        (let st1 = (if pe_fails env ''touchSession'' then st
                    else st\<lparr>px_rows := updateWhere (\<lambda>r. sr_id r = ps_ID session)
                      (\<lambda>r. r\<lparr>sr_lastActive := pe_now env\<rparr>) (px_rows st)\<rparr>) in
         case readBlob env st1 of
           None \<Rightarrow> st1
         | Some b \<Rightarrow>
             (if pe_fails env ''redisSet'' then st1
              else st1\<lparr>px_blobs := redisSetEx (pe_now env)
                (case px_blobs st1 (blobKey env (pe_cookie env)) of
                   Some (_, Some e) \<Rightarrow> if 0 < e - pe_now env then e - pe_now env else 12 * hour
                 | _ \<Rightarrow> 12 * hour)
                (blobKey env (pe_cookie env)) (b\<lparr>sb_lastActive := unixTime (pe_now env)\<rparr>)
                (px_blobs st1)\<rparr>)))"

definition revokeIdleProxySession :: "'f proxy_env \<Rightarrow> ProxySession \<Rightarrow> proxy_state \<Rightarrow> proxy_state" where
  "revokeIdleProxySession env session st =
     (let st1 = (if pe_cookie env = [] \<or> pe_fails env ''redisDel'' then st
                 else st\<lparr>px_blobs := redisDel (blobKey env (pe_cookie env)) (px_blobs st)\<rparr>) in
      if ps_ID session = [] \<or> pe_fails env ''revokeRow'' then st1
      else st1\<lparr>px_rows := updateWhere (\<lambda>r. sr_id r = ps_ID session) (\<lambda>r. r\<lparr>sr_revoked := True\<rparr>)
             (px_rows st1)\<rparr>)"

text \<open>Revocation by an administrator: the row is marked, and a Redis key made of the session's
  identifier is deleted.\<close>

definition handleRevokeSession :: "'f proxy_env \<Rightarrow> string \<Rightarrow> proxy_state \<Rightarrow> int \<times> proxy_state" where
  "handleRevokeSession env sid st =
     (case pe_org env of
        None \<Rightarrow> (403, st)
      | Some oid \<Rightarrow>
          (if pe_fails env ''revokeRow'' then (500, st)
           else (200,
             st\<lparr>px_rows := updateWhere (\<lambda>r. sr_id r = sid \<and> sr_org r = oid)
                 (\<lambda>r. r\<lparr>sr_revoked := True\<rparr>) (px_rows st),
               px_blobs := (if pe_fails env ''redisDel'' then px_blobs st
                            else redisDel (''proxy_session:'' @ sid) (px_blobs st))\<rparr>)))"

definition handleLogout :: "'f proxy_env \<Rightarrow> proxy_state \<Rightarrow> proxy_state" where
  "handleLogout env st =
     (if pe_cookie env = [] \<or> pe_fails env ''selectSession'' then st
      else (case find (\<lambda>r. sr_token r = pe_hash env (pe_cookie env)) (px_rows st) of
              None \<Rightarrow> st
            | Some row \<Rightarrow>
                st\<lparr>px_rows := (if pe_fails env ''revokeRow'' then px_rows st
                     else updateWhere (\<lambda>r. sr_id r = sr_id row) (\<lambda>r. r\<lparr>sr_revoked := True\<rparr>) (px_rows st)),
                   px_blobs := (if pe_fails env ''redisDel'' then px_blobs st
                     else redisDel (blobKey env (pe_cookie env)) (px_blobs st))\<rparr>))"

section \<open>Roles and groups\<close>

definition hasAnyRole :: "string list \<Rightarrow> string list \<Rightarrow> bool" where
  "hasAnyRole userRoles requiredRoles \<longleftrightarrow> list_ex (\<lambda>r. r \<in> set userRoles) requiredRoles"

definition groupCacheTTL :: int where
  "groupCacheTTL = 30 * second"

definition loadGroupNames :: "'f proxy_env \<Rightarrow> string \<Rightarrow> proxy_state \<Rightarrow> string list \<times> proxy_state" where
  "loadGroupNames env uid st =
     (if pe_fails env ''selectGroups'' then ([], st)
      else (let names = map snd (filter (\<lambda>(u, g). u = uid) (px_memberships st)) in
            (names, st\<lparr>px_groupCache := (px_groupCache st)(uid \<mapsto> (names, pe_now env))\<rparr>)))"

definition userGroupNames :: "'f proxy_env \<Rightarrow> string \<Rightarrow> proxy_state \<Rightarrow> string list \<times> proxy_state" where
  "userGroupNames env uid st =
     (if uid = [] then ([], st)
      else (case px_groupCache st uid of
              Some (names, at) \<Rightarrow>
                (if pe_now env - at < groupCacheTTL then (names, st)
                 else loadGroupNames env uid st)
            | None \<Rightarrow> loadGroupNames env uid st))"

definition routeGroupsAllow :: "string list \<Rightarrow> string list \<Rightarrow> bool" where
  "routeGroupsAllow allowedGroups userGroups \<longleftrightarrow>
     allowedGroups = [] \<or> list_ex (\<lambda>w. list_ex (\<lambda>h. w = h) userGroups) allowedGroups"

section \<open>The context of a request\<close>

record AccessContext =
  ac_Session :: ProxySession
  ac_Route :: ProxyRoute
  ac_ClientIP :: string
  ac_UserAgent :: string
  ac_GeoCountry :: string
  ac_IPThreatType :: string
  ac_IPBlocked :: bool
  ac_DeviceTrusted :: bool
  ac_Posture :: "nat \<times> nat"
  ac_Timestamp :: int
  ac_OriginalMethod :: string
  ac_OriginalURI :: string

record AccessDecision =
  ad_Allowed :: bool
  ad_Reason :: string
  ad_StepUpRequired :: bool
  ad_RiskScore :: int

definition localAddress :: "string \<Rightarrow> bool" where
  "localAddress ip \<longleftrightarrow> ip \<in> {[], ''127.0.0.1'', ''::1''}"

text \<open>A miss of the cache returns at once: the country is empty there, so the call of the location
  service that follows in the code is never made.\<close>

definition lookupIPGeo :: "'f proxy_env \<Rightarrow> string \<Rightarrow> proxy_state \<Rightarrow> string \<times> string" where
  "lookupIPGeo env ip st =
     (if localAddress ip then ([], [])
      else if pe_fails env ''selectGeo'' then ([], [])
      else (case find (\<lambda>(a, country, city, at). a = ip \<and> pe_now env - 24 * hour < at) (px_geo st) of
              Some (_, country, city, _) \<Rightarrow> (country, city)
            | None \<Rightarrow> ([], [])))"

definition checkIPThreat :: "'f proxy_env \<Rightarrow> string \<Rightarrow> proxy_state \<Rightarrow> string \<times> bool" where
  "checkIPThreat env ip st =
     (if localAddress ip \<or> pe_fails env ''selectThreat'' then ([], False)
      else (case find (\<lambda>(a, threat, active). a = ip) (px_threats st) of
              None \<Rightarrow> ([], False)
            | Some (_, threat, active) \<Rightarrow> (threat, active)))"

definition deviceTrusted :: "'f proxy_env \<Rightarrow> string \<Rightarrow> proxy_state \<Rightarrow> bool" where
  "deviceTrusted env uid st =
     (if uid = [] \<or> pe_fails env ''selectDevice'' then False
      else (case find (\<lambda>d. kd_user d = uid
                  \<and> kd_fingerprint d = pe_fingerprint env (pe_clientIP env) (pe_userAgent env))
               (px_devices st) of
              None \<Rightarrow> False
            | Some d \<Rightarrow> kd_trusted d))"

definition ensureDeviceTrustRequest :: "'f proxy_env \<Rightarrow> string \<Rightarrow> proxy_state \<Rightarrow> proxy_state" where
  "ensureDeviceTrustRequest env uid st =
     (let fp = pe_fingerprint env (pe_clientIP env) (pe_userAgent env) in
      if uid = [] \<or> pe_fails env ''selectDevice'' then st
      else (case find (\<lambda>d. kd_user d = uid \<and> kd_fingerprint d = fp) (px_devices st) of
              None \<Rightarrow> st
            | Some d \<Rightarrow>
                (if pe_fails env ''selectTrustRequest''
                    \<or> list_ex (\<lambda>t. tr_user t = uid \<and> tr_fingerprint t = fp \<and> tr_pending t)
                        (px_trustRequests st)
                    \<or> pe_fails env ''insertTrustRequest'' then st
                 else st\<lparr>px_trustRequests := px_trustRequests st @
                   [\<lparr>tr_user = uid, tr_device = kd_id d, tr_fingerprint = fp, tr_pending = True\<rparr>]\<rparr>)))"

text \<open>The posture score as passed checks out of all; 1 out of 1 when the evaluation says passed.\<close>

definition postureScore :: "'f proxy_env \<Rightarrow> ProxyRoute \<Rightarrow> string \<Rightarrow> nat \<times> nat" where
  "postureScore env route uid =
     (case pe_posture env of
        None \<Rightarrow> (0, 1)
      | Some evaluate \<Rightarrow>
          (if pr_PostureCheckIDs route = [] then (0, 1)
           else (case evaluate uid of
                   None \<Rightarrow> (0, 1)
                 | Some (passed, results) \<Rightarrow>
                     (if passed then (1, 1)
                      else if results = [] then (0, 1)
                      else (length (filter (\<lambda>b. b) results), length results)))))"

text \<open>Building the context does not fail; it marks the session and may file a trust request.\<close>

definition buildAccessContext ::
    "'f proxy_env \<Rightarrow> ProxyRoute \<Rightarrow> ProxySession \<Rightarrow> proxy_state \<Rightarrow> AccessContext \<times> proxy_state" where
  "buildAccessContext env route session st =
     (let ip = pe_clientIP env;
          trusted = deviceTrusted env (ps_UserID session) st;
          session' = session\<lparr>ps_DeviceTrusted := trusted\<rparr> in
      (\<lparr>ac_Session = session', ac_Route = route, ac_ClientIP = ip, ac_UserAgent = pe_userAgent env,
        ac_GeoCountry = fst (lookupIPGeo env ip st),
        ac_IPThreatType = fst (checkIPThreat env ip st), ac_IPBlocked = snd (checkIPThreat env ip st),
        ac_DeviceTrusted = trusted, ac_Posture = postureScore env route (ps_UserID session),
        ac_Timestamp = pe_now env, ac_OriginalMethod = [], ac_OriginalURI = []\<rparr>,
       if \<not> trusted \<and> pr_RequireDeviceTrust route
       then ensureDeviceTrustRequest env (ps_UserID session) st else st))"

definition extractBrowserFamily :: "string \<Rightarrow> string" where
  "extractBrowserFamily ua =
     (let lower = toLower ua; has = containsStr lower in
      if has ''edg/'' \<or> has ''edga/'' \<or> has ''edgios/'' then ''edge''
      else if has ''opr/'' \<or> has ''opera'' then ''opera''
      else if has ''firefox/'' then ''firefox''
      else if has ''chrome/'' \<and> has ''safari/'' then ''chrome''
      else if has ''safari/'' \<and> \<not> has ''chrome/'' then ''safari''
      else if has ''curl/'' then ''curl''
      else [])"

definition extractOSFamily :: "string \<Rightarrow> string" where
  "extractOSFamily ua =
     (let lower = toLower ua; has = containsStr lower in
      if has ''windows'' then ''windows''
      else if has ''iphone'' \<or> has ''ipad'' then ''ios''
      else if has ''macintosh'' \<or> has ''mac os'' then ''macos''
      else if has ''android'' then ''android''
      else if has ''linux'' then ''linux''
      else if has ''chromeos'' \<or> has ''cros'' then ''chromeos''
      else [])"

definition isMajorUAChange :: "string \<Rightarrow> string \<Rightarrow> bool" where
  "isMajorUAChange original current \<longleftrightarrow>
     (extractBrowserFamily original \<noteq> [] \<and> extractBrowserFamily current \<noteq> []
        \<and> extractBrowserFamily original \<noteq> extractBrowserFamily current)
     \<or> (extractOSFamily original \<noteq> [] \<and> extractOSFamily current \<noteq> []
        \<and> extractOSFamily original \<noteq> extractOSFamily current)"

definition denied :: "string \<Rightarrow> bool \<Rightarrow> int \<Rightarrow> AccessDecision" where
  "denied reason stepUp risk =
     \<lparr>ad_Allowed = False, ad_Reason = reason, ad_StepUpRequired = stepUp, ad_RiskScore = risk\<rparr>"

definition countryListed :: "AccessContext \<Rightarrow> bool" where
  "countryListed ac \<longleftrightarrow>
     list_ex (\<lambda>c. toLower c = toLower (ac_GeoCountry ac)) (pr_AllowedCountries (ac_Route ac))"

definition userAgentRisk :: "AccessContext \<Rightarrow> int" where
  "userAgentRisk ac =
     (let old = ps_UserAgent (ac_Session ac); new = ac_UserAgent ac in
      if old \<noteq> [] \<and> new \<noteq> [] \<and> new \<noteq> old then (if isMajorUAChange old new then 35 else 10) else 0)"

definition contextRisk :: "AccessContext \<Rightarrow> int" where
  "contextRisk ac =
     min 100 ((if ac_IPThreatType ac \<noteq> [] then 30 else 0) + userAgentRisk ac
       + (if ac_DeviceTrusted ac then 0 else 15)
       + (if pr_PostureCheckIDs (ac_Route ac) \<noteq> [] \<and> 2 * fst (ac_Posture ac) < snd (ac_Posture ac)
          then 25 else 0))"

definition policyContext :: "'f proxy_env \<Rightarrow> AccessContext \<Rightarrow> 'f PolicyContext" where
  "policyContext env ac =
     \<lparr>pc_UserEmail = ps_Email (ac_Session ac), pc_UserRoles = ps_Roles (ac_Session ac),
      pc_RequestIP = ac_ClientIP ac, pc_DeviceTrusted = ac_DeviceTrusted ac,
      pc_PostureScore = pe_ratio env (fst (ac_Posture ac)) (snd (ac_Posture ac)),
      pc_TimeHour = pe_hour env (ac_Timestamp ac), pc_GeoCountry = ac_GeoCountry ac,
      pc_RiskScore = contextRisk ac, pc_RequestMethod = ac_OriginalMethod ac,
      pc_RequestPath = ac_OriginalURI ac\<rparr>"

definition evaluateAccessContext :: "'f proxy_env \<Rightarrow> AccessContext \<Rightarrow> AccessDecision" where
  "evaluateAccessContext env ac =
     (let route = ac_Route ac in
      if ac_IPBlocked ac then
        denied (''access denied: IP '' @ ac_ClientIP ac @ '' is blocked (threat type: ''
          @ ac_IPThreatType ac @ '')'') False 100
      else if pr_AllowedCountries route \<noteq> [] \<and> ac_GeoCountry ac \<noteq> [] \<and> \<not> countryListed ac then
        denied (''access denied: country '' @ ac_GeoCountry ac @ '' not in allowed list'') False 80
      else if pr_RequireDeviceTrust route \<and> \<not> ac_DeviceTrusted ac then
        denied ''access denied: device is not trusted'' True 70
      else if pr_PostureCheckIDs route \<noteq> [] \<and> fst (ac_Posture ac) = 0 then
        denied ''access denied: device posture check failed'' True 75
      else if 0 < pr_MaxRiskScore route \<and> pr_MaxRiskScore route < contextRisk ac then
        denied (''access denied: risk score '' @ dec (nat (contextRisk ac)) @ '' exceeds maximum ''
          @ dec (nat (pr_MaxRiskScore route))) True (contextRisk ac)
      else if pr_InlinePolicy route \<noteq> [] then
        (case EvaluatePolicyString (pe_floats env) (pe_regexps env) (pr_InlinePolicy route)
                (policyContext env ac) of
           Inl e \<Rightarrow> denied ''access denied: policy evaluation error'' False (contextRisk ac)
         | Inr allowed \<Rightarrow>
             (if \<not> allowed then denied ''access denied: inline policy denied'' False (contextRisk ac)
              else \<lparr>ad_Allowed = True, ad_Reason = [], ad_StepUpRequired = False,
                     ad_RiskScore = contextRisk ac\<rparr>))
      else \<lparr>ad_Allowed = True, ad_Reason = [], ad_StepUpRequired = False,
             ad_RiskScore = contextRisk ac\<rparr>)"

text \<open>\<open>None\<close> is an error; the second component of a decision says that a step-up was asked for.\<close>

fun evaluatePolicies :: "'f proxy_env \<Rightarrow> ProxySession \<Rightarrow> string list \<Rightarrow> (bool \<times> bool) option" where
  "evaluatePolicies env session [] = Some (True, False)"
| "evaluatePolicies env session (p # ps) =
     (case pe_governance env p session of
        NoAnswer \<Rightarrow> None
      | Status code \<Rightarrow> None
      | Decision allowed stepUp \<Rightarrow>
          (if \<not> allowed then Some (False, stepUp) else evaluatePolicies env session ps))"

section \<open>Handlers\<close>

datatype proxy_outcome =
    NoRoute
  | RouteDisabled
  | LoginRedirect
  | Refused string bool
  | BadUpstream
  | Forwarded ProxyRoute "ProxySession option" "string \<Rightarrow> string"

definition authenticateProxy ::
    "'f proxy_env \<Rightarrow> ProxyRoute \<Rightarrow> proxy_state \<Rightarrow> ProxySession option \<times> proxy_state" where
  "authenticateProxy env route st =
     (case getSessionFromRequest env st of
        None \<Rightarrow> (getSessionFromBearer env, st)
      | Some session \<Rightarrow>
          (if isIdleExpired route session (pe_now env)
           then (getSessionFromBearer env,
                 auditProxy env ''proxy_session_idle_expired'' (pr_ID route)
                   (revokeIdleProxySession env session st))
           else (Some session, st)))"

text \<open>The role and group checks; \<open>True\<close> lets the request pass.\<close>

definition rolesAllow ::
    "'f proxy_env \<Rightarrow> ProxyRoute \<Rightarrow> ProxySession \<Rightarrow> proxy_state \<Rightarrow> bool \<times> proxy_state" where
  "rolesAllow env route session st =
     (if pr_AllowedRoles route \<noteq> [] \<and> \<not> hasAnyRole (ps_Roles session) (pr_AllowedRoles route)
      then (False, auditProxy env ''proxy_access_denied'' (pr_ID route) st)
      else if pr_AllowedGroups route = [] then (True, st)
      else (case userGroupNames env (ps_UserID session) st of
              (names, st1) \<Rightarrow>
                (if routeGroupsAllow (pr_AllowedGroups route) names then (True, st1)
                 else (False, auditProxy env ''proxy_access_denied'' (pr_ID route) st1))))"

definition identityHeaders :: "ProxySession option \<Rightarrow> (string \<Rightarrow> string) \<Rightarrow> string \<Rightarrow> string" where
  "identityHeaders session hs =
     (case session of
        None \<Rightarrow> hs
      | Some s \<Rightarrow> hs(''X-Forwarded-User'' := ps_UserID s, ''X-Forwarded-Email'' := ps_Email s,
                     ''X-Forwarded-Name'' := ps_Name s,
                     ''X-Forwarded-Roles'' := joinWith '','' (ps_Roles s)))"

text \<open>The headers of the request as the director leaves them; custom header names are in canonical form.\<close>

definition proxyHeaders :: "'f proxy_env \<Rightarrow> ProxyRoute \<Rightarrow> ProxySession option \<Rightarrow> string \<Rightarrow> string" where
  "proxyHeaders env route session =
     fold (\<lambda>(k, v) hs. hs(k := v)) (pr_CustomHeaders route)
       ((identityHeaders session (pe_header env))
          (''X-Forwarded-For'' := pe_clientIP env, ''X-Forwarded-Proto'' := ''http'',
           ''X-Real-Ip'' := pe_clientIP env))"

definition forwardProxy ::
    "'f proxy_env \<Rightarrow> ProxyRoute \<Rightarrow> ProxySession option \<Rightarrow> proxy_state \<Rightarrow> proxy_outcome \<times> proxy_state" where
  "forwardProxy env route session st =
     (if \<not> pe_parsesURL env (pr_ToURL route) then (BadUpstream, st)
      else (Forwarded route session (proxyHeaders env route session),
            if session = None then st else auditProxy env ''proxy_access_allowed'' (pr_ID route) st))"

definition handleProxy :: "'f proxy_env \<Rightarrow> proxy_state \<Rightarrow> proxy_outcome \<times> proxy_state" where
  "handleProxy env st =
     (case findRouteByHost env (pe_host env) st of
        None \<Rightarrow> (NoRoute, st)
      | Some route \<Rightarrow>
          (if \<not> pr_Enabled route then (RouteDisabled, st)
           else if \<not> pr_RequireAuth route then forwardProxy env route None st
           else (case authenticateProxy env route st of
                   (None, st1) \<Rightarrow> (LoginRedirect, st1)
                 | (Some session, st1) \<Rightarrow>
          (case rolesAllow env route session st1 of
             (False, st2) \<Rightarrow> (Refused ''insufficient permissions'' False, st2)
           | (True, st2) \<Rightarrow>
          (case buildAccessContext env route session st2 of
             (ac, st3) \<Rightarrow>
          (let decision = evaluateAccessContext env ac;
               session' = (ac_Session ac)\<lparr>ps_RiskScore := ad_RiskScore decision\<rparr> in
           if \<not> ad_Allowed decision then
             (Refused (ad_Reason decision) (ad_StepUpRequired decision),
              auditProxy env ''proxy_access_denied'' (pr_ID route) st3)
           else (case evaluatePolicies env session' (pr_PolicyIDs route) of
                   None \<Rightarrow> (Refused ''policy evaluation failed'' False, st3)
                 | Some (False, stepUp) \<Rightarrow>
                     (Refused ''access denied by policy'' stepUp,
                      auditProxy env ''proxy_access_denied'' (pr_ID route) st3)
                 | Some (True, _) \<Rightarrow>
                     forwardProxy env route (Some session')
                       (updateSessionActivity env session' st3))))))))"

text \<open>The forward-auth handler: the host and the request line come from headers, a pending step-up is
  checked, and no request is forwarded: a 200 carries the identity headers.\<close>

definition decideHost :: "'f proxy_env \<Rightarrow> string" where
  "decideHost env = (if pe_header env ''X-Forwarded-Host'' \<noteq> [] then pe_header env ''X-Forwarded-Host''
     else pe_header env ''Host'')"

definition decideMethod :: "'f proxy_env \<Rightarrow> string" where
  "decideMethod env = (if pe_header env ''X-Forwarded-Method'' \<noteq> [] then pe_header env ''X-Forwarded-Method''
     else pe_method env)"

definition decideHeaders :: "ProxyRoute \<Rightarrow> ProxySession \<Rightarrow> int \<Rightarrow> string \<Rightarrow> string" where
  "decideHeaders route session risk =
     (identityHeaders (Some session) (\<lambda>_. []))
       (''X-Forwarded-Route'' := pr_Name route, ''X-Risk-Score'' := dec (nat risk))"

definition handleAuthDecide :: "'f proxy_env \<Rightarrow> proxy_state \<Rightarrow> proxy_outcome \<times> proxy_state" where
  "handleAuthDecide env st =
     (case findRouteByHost env (decideHost env) st of
        None \<Rightarrow> (NoRoute, st)
      | Some route \<Rightarrow>
          (if \<not> pr_Enabled route then (RouteDisabled, st)
           else if \<not> pr_RequireAuth route then
             (Forwarded route None ((\<lambda>_. [])(''X-Forwarded-Route'' := pr_Name route)), st)
           else (case authenticateProxy env route st of
                   (None, st1) \<Rightarrow> (LoginRedirect, st1)
                 | (Some session, st1) \<Rightarrow>
          (if \<not> pe_fails env ''redisGet''
              \<and> redisGet (pe_now env) (px_stepups st1) (''stepup_required:'' @ ps_ID session) = Some ''true''
           then (Refused ''step-up authentication required'' True, st1)
           else (case rolesAllow env route session st1 of
             (False, st2) \<Rightarrow> (Refused ''insufficient permissions'' False, st2)
           | (True, st2) \<Rightarrow>
          (case buildAccessContext env route session st2 of
             (ac, st3) \<Rightarrow>
          (let ac' = ac\<lparr>ac_OriginalMethod := decideMethod env,
                        ac_OriginalURI := pe_header env ''X-Forwarded-Uri''\<rparr>;
               decision = evaluateAccessContext env ac' in
           if \<not> ad_Allowed decision then
             (Refused (ad_Reason decision) (ad_StepUpRequired decision),
              auditProxy env ''proxy_access_denied'' (pr_ID route) st3)
           else (case evaluatePolicies env (ac_Session ac) (pr_PolicyIDs route) of
                   None \<Rightarrow> (Refused ''policy evaluation failed'' False, st3)
                 | Some (False, stepUp) \<Rightarrow> (Refused ''access denied by governance policy'' stepUp, st3)
                 | Some (True, _) \<Rightarrow>
                     (Forwarded route (Some (ac_Session ac))
                        (decideHeaders route (ac_Session ac) (ad_RiskScore decision)),
                      auditProxy env ''proxy_access_allowed'' (pr_ID route)
                        (updateSessionActivity env (ac_Session ac) st3))))))))))"

section \<open>Properties\<close>

subsection \<open>Risk\<close>

lemma userAgentRisk_bounds: "0 \<le> userAgentRisk ac \<and> userAgentRisk ac \<le> 35"
  by (simp add: userAgentRisk_def Let_def)

lemma contextRisk_bounds: "0 \<le> contextRisk ac \<and> contextRisk ac \<le> 100"
  using userAgentRisk_bounds [of ac] by (simp add: contextRisk_def)

lemma denied_allowed [simp]: "\<not> ad_Allowed (denied reason stepUp risk)"
  by (simp add: denied_def)

lemma evaluate_allowed:
  assumes "ad_Allowed (evaluateAccessContext env ac)"
  shows "\<not> ac_IPBlocked ac
    \<and> (pr_AllowedCountries (ac_Route ac) \<noteq> [] \<longrightarrow> ac_GeoCountry ac = [] \<or> countryListed ac)
    \<and> (pr_RequireDeviceTrust (ac_Route ac) \<longrightarrow> ac_DeviceTrusted ac)
    \<and> (pr_PostureCheckIDs (ac_Route ac) \<noteq> [] \<longrightarrow> 0 < fst (ac_Posture ac))
    \<and> (0 < pr_MaxRiskScore (ac_Route ac) \<longrightarrow> contextRisk ac \<le> pr_MaxRiskScore (ac_Route ac))
    \<and> (pr_InlinePolicy (ac_Route ac) \<noteq> [] \<longrightarrow> EvaluatePolicyString (pe_floats env) (pe_regexps env)
           (pr_InlinePolicy (ac_Route ac)) (policyContext env ac) = Inr True)"
  using assms unfolding evaluateAccessContext_def Let_def
  by (auto split: if_split_asm sum.split_asm)

lemma evaluatePolicies_allows:
  "evaluatePolicies env session ps = Some (True, b) \<Longrightarrow>
     \<forall>p \<in> set ps. \<exists>s. pe_governance env p session = Decision True s"
  by (induction ps) (auto split: policy_answer.splits if_splits)

lemma evaluatePolicies_fails_closed:
  "p \<in> set ps \<Longrightarrow> \<not> (\<exists>s. pe_governance env p session = Decision True s) \<Longrightarrow>
     \<not> (\<exists>b. evaluatePolicies env session ps = Some (True, b))"
  using evaluatePolicies_allows by blast

subsection \<open>What the steps before the decision change\<close>

lemma auditProxy_sel [simp]:
  "px_routes (auditProxy env a t st) = px_routes st" "px_blobs (auditProxy env a t st) = px_blobs st"
  "px_rows (auditProxy env a t st) = px_rows st" "px_geo (auditProxy env a t st) = px_geo st"
  "px_threats (auditProxy env a t st) = px_threats st" "px_devices (auditProxy env a t st) = px_devices st"
  "px_memberships (auditProxy env a t st) = px_memberships st"
  "px_groupCache (auditProxy env a t st) = px_groupCache st"
  "px_stepups (auditProxy env a t st) = px_stepups st"
  by (simp_all add: auditProxy_def)

text \<open>The tables the decision reads; authentication and the role check leave them alone.\<close>

definition sameTables :: "proxy_state \<Rightarrow> proxy_state \<Rightarrow> bool" where
  "sameTables st st' \<longleftrightarrow> px_geo st' = px_geo st \<and> px_threats st' = px_threats st
     \<and> px_devices st' = px_devices st \<and> px_routes st' = px_routes st"

lemma sameTables_context:
  assumes "sameTables st st'"
  shows "lookupIPGeo env ip st' = lookupIPGeo env ip st"
    and "checkIPThreat env ip st' = checkIPThreat env ip st"
    and "deviceTrusted env uid st' = deviceTrusted env uid st"
  using assms by (simp_all add: sameTables_def lookupIPGeo_def checkIPThreat_def deviceTrusted_def)

lemma authenticateProxy_tables:
  "authenticateProxy env route st = (s, st') \<Longrightarrow>
     sameTables st st' \<and> px_groupCache st' = px_groupCache st \<and> px_memberships st' = px_memberships st"
  by (auto simp: authenticateProxy_def sameTables_def revokeIdleProxySession_def Let_def
      split: option.splits if_splits)

definition groupsOf :: "'f proxy_env \<Rightarrow> string \<Rightarrow> proxy_state \<Rightarrow> string list" where
  "groupsOf env uid st = fst (userGroupNames env uid st)"

lemma groupsOf_cong:
  "px_memberships st' = px_memberships st \<Longrightarrow> px_groupCache st' = px_groupCache st \<Longrightarrow>
     groupsOf env uid st' = groupsOf env uid st"
  by (auto simp: groupsOf_def userGroupNames_def loadGroupNames_def Let_def split: option.splits)

lemma userGroupNames_tables: "sameTables st (snd (userGroupNames env uid st))"
  by (auto simp: userGroupNames_def loadGroupNames_def sameTables_def Let_def split: option.splits)

lemma rolesAllow_True:
  assumes "rolesAllow env route session st = (True, st')"
  shows "(pr_AllowedRoles route = [] \<or> (\<exists>r \<in> set (pr_AllowedRoles route). r \<in> set (ps_Roles session)))
     \<and> (pr_AllowedGroups route = []
        \<or> (\<exists>g \<in> set (pr_AllowedGroups route). g \<in> set (groupsOf env (ps_UserID session) st)))
     \<and> sameTables st st'"
proof -
  have same: "sameTables st st" by (simp add: sameTables_def)
  show ?thesis
    using assms userGroupNames_tables [of st env "ps_UserID session"] same
    by (auto simp: rolesAllow_def hasAnyRole_def routeGroupsAllow_def groupsOf_def list_ex_iff
        split: if_splits prod.splits)
qed

subsection \<open>Admission\<close>

definition authenticated :: "'f proxy_env \<Rightarrow> ProxyRoute \<Rightarrow> ProxySession \<Rightarrow> proxy_state \<Rightarrow> bool" where
  "authenticated env route s st \<longleftrightarrow>
     (getSessionFromRequest env st = Some s \<and> \<not> isIdleExpired route s (pe_now env))
     \<or> getSessionFromBearer env = Some s"

lemma authenticateProxy_sound:
  "authenticateProxy env route st = (Some s, st') \<Longrightarrow> authenticated env route s st"
  by (auto simp: authenticateProxy_def authenticated_def split: option.splits if_splits)

text \<open>The context a session is judged in, with the request line the handler fills in.\<close>

definition requestContext ::
    "'f proxy_env \<Rightarrow> ProxyRoute \<Rightarrow> ProxySession \<Rightarrow> string \<Rightarrow> string \<Rightarrow> proxy_state \<Rightarrow> AccessContext" where
  "requestContext env route s meth uri st =
     (fst (buildAccessContext env route s st))\<lparr>ac_OriginalMethod := meth, ac_OriginalURI := uri\<rparr>"

lemma requestContext_same:
  "sameTables st st' \<Longrightarrow> requestContext env route s meth uri st' = requestContext env route s meth uri st"
  by (simp add: requestContext_def buildAccessContext_def Let_def sameTables_context)

lemma requestContext_plain:
  "fst (buildAccessContext env route s st) = requestContext env route s [] [] st"
  by (simp add: requestContext_def buildAccessContext_def Let_def)

lemma highestPriority_mem: "highestPriority rs = Some r \<Longrightarrow> r \<in> set rs"
  by (induction rs arbitrary: r) (auto split: option.splits if_splits)

lemma findRouteByHost_mem:
  "findRouteByHost env host st = Some route \<Longrightarrow>
     \<exists>row \<in> set (px_routes st). route = scanRoute row \<and> routeMatches host row"
  by (auto simp: findRouteByHost_def dest!: highestPriority_mem split: if_splits)

text \<open>The checks every admitted request of a protected route has passed.\<close>

definition checksPassed ::
    "'f proxy_env \<Rightarrow> ProxyRoute \<Rightarrow> ProxySession \<Rightarrow> AccessContext \<Rightarrow> proxy_state \<Rightarrow> bool" where
  "checksPassed env route s ac st \<longleftrightarrow>
     authenticated env route s st
     \<and> (pr_AllowedRoles route = [] \<or> (\<exists>r \<in> set (pr_AllowedRoles route). r \<in> set (ps_Roles s)))
     \<and> (pr_AllowedGroups route = []
        \<or> (\<exists>g \<in> set (pr_AllowedGroups route). g \<in> set (groupsOf env (ps_UserID s) st)))
     \<and> \<not> snd (checkIPThreat env (pe_clientIP env) st)
     \<and> (pr_RequireDeviceTrust route \<longrightarrow> deviceTrusted env (ps_UserID s) st)
     \<and> (pr_PostureCheckIDs route \<noteq> [] \<longrightarrow> 0 < fst (postureScore env route (ps_UserID s)))
     \<and> (0 < pr_MaxRiskScore route \<longrightarrow> contextRisk ac \<le> pr_MaxRiskScore route)
     \<and> (pr_InlinePolicy route \<noteq> [] \<longrightarrow> EvaluatePolicyString (pe_floats env) (pe_regexps env)
          (pr_InlinePolicy route) (policyContext env ac) = Inr True)"

lemma checks_of_steps:
  assumes "authenticateProxy env route st = (Some s, st1)" and "rolesAllow env route s st1 = (True, st2)"
    and "ad_Allowed (evaluateAccessContext env (requestContext env route s meth uri st2))"
  shows "checksPassed env route s (requestContext env route s meth uri st) st"
proof -
  note auth = authenticateProxy_tables [OF assms(1)]
  have "sameTables st1 st2"
    using rolesAllow_True [OF assms(2)] by blast
  with auth have same: "sameTables st st2"
    unfolding sameTables_def by simp
  have groups: "groupsOf env (ps_UserID s) st1 = groupsOf env (ps_UserID s) st"
    by (rule groupsOf_cong) (use auth in blast)+
  have ac: "requestContext env route s meth uri st2 = requestContext env route s meth uri st"
    by (rule requestContext_same [OF same])
  have fields: "ac_Route (requestContext env route s meth uri st) = route"
    "ac_IPBlocked (requestContext env route s meth uri st) = snd (checkIPThreat env (pe_clientIP env) st)"
    "ac_DeviceTrusted (requestContext env route s meth uri st) = deviceTrusted env (ps_UserID s) st"
    "ac_Posture (requestContext env route s meth uri st) = postureScore env route (ps_UserID s)"
    by (simp_all add: requestContext_def buildAccessContext_def Let_def)
  note ev = evaluate_allowed [OF assms(3), unfolded ac fields]
  show ?thesis
    unfolding checksPassed_def
    using authenticateProxy_sound [OF assms(1)] rolesAllow_True [OF assms(2), unfolded groups] ev by blast
qed

text \<open>
  C26: a request to a protected route is let through, by the proxy or by the forward-auth endpoint, only
  for a session of a live cookie or a verified bearer token, whose roles and groups the route admits,
  from an address that is not blocked, on a trusted device and with a posture above zero where the
  route asks for them, with a risk of at most the maximum, and when the inline policy and every
  governance policy of the route allow it. Every error on the way refuses the request.
\<close>

theorem proxy_admission_sound:
  assumes "handleProxy env st = (Forwarded route session hs, st')
    \<or> handleAuthDecide env st = (Forwarded route session hs, st')"
    and "pr_RequireAuth route"
  shows "\<exists>row s s' meth uri. row \<in> set (px_routes st) \<and> route = scanRoute row
     \<and> (meth = [] \<and> uri = [] \<and> routeMatches (pe_host env) row
        \<or> meth = decideMethod env \<and> uri = pe_header env ''X-Forwarded-Uri'' \<and> routeMatches (decideHost env) row)
     \<and> pr_Enabled route
     \<and> checksPassed env route s (requestContext env route s meth uri st) st
     \<and> session = Some s' \<and> ps_UserID s' = ps_UserID s \<and> ps_Roles s' = ps_Roles s
     \<and> (\<forall>p \<in> set (pr_PolicyIDs route). \<exists>b. pe_governance env p s' = Decision True b)"
  using assms(1)
proof
  assume eq: "handleProxy env st = (Forwarded route session hs, st')"
  obtain s st1 st2 st3 b where route: "findRouteByHost env (pe_host env) st = Some route"
    and en: "pr_Enabled route"
    and steps: "authenticateProxy env route st = (Some s, st1)" "rolesAllow env route s st1 = (True, st2)"
      "ad_Allowed (evaluateAccessContext env (requestContext env route s [] [] st2))"
    and sess: "session = Some ((ac_Session (requestContext env route s [] [] st2))
        \<lparr>ps_RiskScore := ad_RiskScore (evaluateAccessContext env (requestContext env route s [] [] st2))\<rparr>)"
    and pol: "evaluatePolicies env (the session) (pr_PolicyIDs route) = Some (True, b)"
    using eq assms(2) unfolding handleProxy_def requestContext_plain [symmetric] forwardProxy_def
    by (auto simp: Let_def split: option.splits if_splits prod.splits bool.splits)
  have s': "ps_UserID (the session) = ps_UserID s" "ps_Roles (the session) = ps_Roles s"
    by (simp_all add: sess requestContext_def buildAccessContext_def Let_def)
  obtain row where "row \<in> set (px_routes st)" "route = scanRoute row" "routeMatches (pe_host env) row"
    using findRouteByHost_mem [OF route] by blast
  then show ?thesis
    using en checks_of_steps [OF steps] s' sess evaluatePolicies_allows [OF pol]
    by (intro exI [of _ row] exI [of _ s] exI [of _ "the session"] exI [of _ "[]"] conjI) simp_all
next
  assume eq: "handleAuthDecide env st = (Forwarded route session hs, st')"
  let ?ac = "\<lambda>s st. requestContext env route s (decideMethod env) (pe_header env ''X-Forwarded-Uri'') st"
  obtain s st1 st2 b where route: "findRouteByHost env (decideHost env) st = Some route"
    and en: "pr_Enabled route"
    and steps: "authenticateProxy env route st = (Some s, st1)" "rolesAllow env route s st1 = (True, st2)"
      "ad_Allowed (evaluateAccessContext env (?ac s st2))"
    and sess: "session = Some (ac_Session (fst (buildAccessContext env route s st2)))"
    and pol: "evaluatePolicies env (the session) (pr_PolicyIDs route) = Some (True, b)"
    using eq assms(2) unfolding handleAuthDecide_def requestContext_def
    by (auto simp: Let_def split: option.splits if_splits prod.splits bool.splits)
  have s': "ps_UserID (the session) = ps_UserID s" "ps_Roles (the session) = ps_Roles s"
    by (simp_all add: sess buildAccessContext_def Let_def)
  obtain row where "row \<in> set (px_routes st)" "route = scanRoute row" "routeMatches (decideHost env) row"
    using findRouteByHost_mem [OF route] by blast
  then show ?thesis
    using en checks_of_steps [OF steps] s' sess evaluatePolicies_allows [OF pol]
    by (intro exI [of _ row] exI [of _ s] exI [of _ "the session"] exI [of _ "decideMethod env"]
        exI [of _ "pe_header env ''X-Forwarded-Uri''"] conjI) simp_all
qed

subsection \<open>The verdict as a function of the state on arrival\<close>

text \<open>The outcome of the proxy without its effects: every check reads the state the request finds.\<close>

definition proxyVerdict :: "'f proxy_env \<Rightarrow> proxy_state \<Rightarrow> proxy_outcome" where
  "proxyVerdict env st =
     (case findRouteByHost env (pe_host env) st of
        None \<Rightarrow> NoRoute
      | Some route \<Rightarrow>
          if \<not> pr_Enabled route then RouteDisabled
          else if \<not> pr_RequireAuth route then fst (forwardProxy env route None st)
          else (case fst (authenticateProxy env route st) of
                  None \<Rightarrow> LoginRedirect
                | Some s \<Rightarrow>
                    let ac = requestContext env route s [] [] st;
                        d = evaluateAccessContext env ac;
                        s' = (ac_Session ac)\<lparr>ps_RiskScore := ad_RiskScore d\<rparr> in
                    if \<not> fst (rolesAllow env route s st) then Refused ''insufficient permissions'' False
                    else if \<not> ad_Allowed d then Refused (ad_Reason d) (ad_StepUpRequired d)
                    else (case evaluatePolicies env s' (pr_PolicyIDs route) of
                            None \<Rightarrow> Refused ''policy evaluation failed'' False
                          | Some (allowed, stepUp) \<Rightarrow>
                              if allowed then fst (forwardProxy env route (Some s') st)
                              else Refused ''access denied by policy'' stepUp)))"

lemma fst_forwardProxy_cong: "fst (forwardProxy env route s st') = fst (forwardProxy env route s st)"
  by (simp add: forwardProxy_def)

lemma fst_rolesAllow:
  "fst (rolesAllow env route s st) \<longleftrightarrow>
     (pr_AllowedRoles route = [] \<or> hasAnyRole (ps_Roles s) (pr_AllowedRoles route))
     \<and> (pr_AllowedGroups route = []
        \<or> routeGroupsAllow (pr_AllowedGroups route) (groupsOf env (ps_UserID s) st))"
  by (simp add: rolesAllow_def groupsOf_def split: prod.splits)

lemma rolesAllow_tables: "rolesAllow env route s st = (b, st') \<Longrightarrow> sameTables st st'"
  using userGroupNames_tables [of st env "ps_UserID s"]
  by (auto simp: rolesAllow_def sameTables_def split: if_splits prod.splits)

lemma handleProxy_verdict: "fst (handleProxy env st) = proxyVerdict env st"
proof (cases "findRouteByHost env (pe_host env) st")
  case None
  then show ?thesis by (simp add: handleProxy_def proxyVerdict_def)
next
  case (Some route)
  obtain so st1 where auth: "authenticateProxy env route st = (so, st1)" by force
  show ?thesis
  proof (cases so)
    case None
    then show ?thesis using Some auth by (simp add: handleProxy_def proxyVerdict_def)
  next
    case (Some s)
    obtain b st2 where roles: "rolesAllow env route s st1 = (b, st2)" by force
    have "groupsOf env (ps_UserID s) st1 = groupsOf env (ps_UserID s) st"
      by (rule groupsOf_cong) (use authenticateProxy_tables [OF auth] in blast)+
    then have b: "fst (rolesAllow env route s st) = b"
      using roles fst_rolesAllow [of env route s] by (metis fst_conv)
    have "sameTables st st2"
      using authenticateProxy_tables [OF auth] rolesAllow_tables [OF roles]
      unfolding sameTables_def by simp
    then have ac: "fst (buildAccessContext env route s st2) = requestContext env route s [] [] st"
      by (simp add: requestContext_plain requestContext_same)
    obtain ac' st3 where build: "buildAccessContext env route s st2 = (ac', st3)" by force
    from ac build have ac': "ac' = requestContext env route s [] [] st" by simp
    show ?thesis
      unfolding handleProxy_def proxyVerdict_def
      using \<open>findRouteByHost env (pe_host env) st = Some route\<close> auth roles b build
      by (simp add: Some Let_def ac' fst_forwardProxy_cong
          split: bool.splits option.splits prod.splits)
  qed
qed

text \<open>The verdict reads the routes, the blob of the cookie, the groups and the tables of the context:
  not the session rows.\<close>

lemma proxyVerdict_cong:
  assumes "sameTables st st'" and "px_memberships st' = px_memberships st"
    and "px_groupCache st' = px_groupCache st"
    and "getSessionFromRequest env st' = getSessionFromRequest env st"
  shows "proxyVerdict env st' = proxyVerdict env st"
proof -
  have route: "findRouteByHost env (pe_host env) st' = findRouteByHost env (pe_host env) st"
    using assms(1) by (simp add: findRouteByHost_def sameTables_def)
  have auth: "fst (authenticateProxy env r st') = fst (authenticateProxy env r st)" for r
    using assms(4) by (simp add: authenticateProxy_def split: option.splits)
  have roles: "fst (rolesAllow env r s st') = fst (rolesAllow env r s st)" for r s
    by (simp add: fst_rolesAllow groupsOf_cong [OF assms(2,3)])
  show ?thesis
    unfolding proxyVerdict_def
    by (simp only: route auth roles requestContext_same [OF assms(1)] fst_forwardProxy_cong [of env _ _ st' st])
qed
subsection \<open>Ending a session\<close>

text \<open>
  An administrator's revocation answers 200 and marks the row of the session, but what the proxy
  reads is the blob under the hash of the cookie: the request of the revoked session gets the verdict
  it got before, as long as the hash of the cookie is not itself the identifier of the session.
\<close>

theorem admin_revocation_ineffective:
  assumes "handleRevokeSession aenv sid st = (200, st')"
    and "pe_hash env (pe_cookie env) \<noteq> sid"
  shows "(\<forall>r \<in> set (px_rows st'). sr_id r = sid \<longrightarrow> Some (sr_org r) = pe_org aenv \<longrightarrow> sr_revoked r)
     \<and> fst (handleProxy env st') = fst (handleProxy env st)"
proof -
  obtain oid where org: "pe_org aenv = Some oid"
    and st': "st' = st\<lparr>px_rows := updateWhere (\<lambda>r. sr_id r = sid \<and> sr_org r = oid)
                 (\<lambda>r. r\<lparr>sr_revoked := True\<rparr>) (px_rows st),
               px_blobs := (if pe_fails aenv ''redisDel'' then px_blobs st
                            else redisDel (''proxy_session:'' @ sid) (px_blobs st))\<rparr>"
    using assms(1) by (auto simp: handleRevokeSession_def split: option.splits if_splits)
  have rows: "sr_revoked r" if "r \<in> set (px_rows st')" "sr_id r = sid" "sr_org r = oid" for r
  proof -
    from that(1) st' have "r \<in> set (updateWhere (\<lambda>r. sr_id r = sid \<and> sr_org r = oid)
        (\<lambda>r. r\<lparr>sr_revoked := True\<rparr>) (px_rows st))" by simp
    from updateWhere_memD [OF this] show ?thesis
    proof
      assume "\<exists>x \<in> set (px_rows st). (sr_id x = sid \<and> sr_org x = oid) \<and> r = x\<lparr>sr_revoked := True\<rparr>"
      then obtain x where "r = x\<lparr>sr_revoked := True\<rparr>" by blast
      then show ?thesis by simp
    qed (use that(2,3) in blast)
  qed
  have "blobKey env (pe_cookie env) \<noteq> ''proxy_session:'' @ sid"
    using assms(2) by (simp add: blobKey_def)
  then have "readBlob env st' = readBlob env st"
    by (simp add: readBlob_def st' redisGet_def redisDel_def)
  then have "getSessionFromRequest env st' = getSessionFromRequest env st"
    by (simp add: getSessionFromRequest_def)
  moreover have "sameTables st st'" "px_memberships st' = px_memberships st"
    "px_groupCache st' = px_groupCache st"
    by (simp_all add: st' sameTables_def)
  ultimately have "fst (handleProxy env st') = fst (handleProxy env st)"
    unfolding handleProxy_verdict by (intro proxyVerdict_cong)
  with rows org show ?thesis by simp
qed

text \<open>Logout and idle expiry delete the blob of the cookie itself, and no later request finds it.\<close>

lemma no_blob_no_session:
  "px_blobs st (blobKey env (pe_cookie env)) = None \<Longrightarrow> getSessionFromRequest env st = None"
  by (simp add: getSessionFromRequest_def readBlob_def redisGet_def)

theorem logout_ends_session:
  assumes "find (\<lambda>r. sr_token r = pe_hash env (pe_cookie env)) (px_rows st) = Some row"
    and "pe_cookie env \<noteq> []" and "\<not> pe_fails env ''selectSession''" and "\<not> pe_fails env ''redisDel''"
    and "pe_cookie env' = pe_cookie env" and "pe_hash env' = pe_hash env"
  shows "getSessionFromRequest env' (handleLogout env st) = None"
  by (rule no_blob_no_session) (use assms in \<open>simp add: handleLogout_def blobKey_def redisDel_def\<close>)

theorem idle_session_ended:
  assumes "getSessionFromRequest env st = Some s" and "isIdleExpired route s (pe_now env)"
    and "\<not> pe_fails env ''redisDel''"
  shows "fst (authenticateProxy env route st) = getSessionFromBearer env
     \<and> getSessionFromRequest env (snd (authenticateProxy env route st)) = None"
proof -
  have cookie: "pe_cookie env \<noteq> []"
    using assms(1) by (auto simp: getSessionFromRequest_def readBlob_def split: option.splits if_splits)
  have "px_blobs (snd (authenticateProxy env route st)) (blobKey env (pe_cookie env)) = None"
    using assms cookie by (simp add: authenticateProxy_def revokeIdleProxySession_def Let_def redisDel_def)
  with assms show ?thesis
    by (simp add: no_blob_no_session) (simp add: authenticateProxy_def)
qed
subsection \<open>The lifetime of a session\<close>

text \<open>Serving requests adds no blob and keeps the owner, the roles and the expiry of each.\<close>

definition blobsKept :: "proxy_state \<Rightarrow> proxy_state \<Rightarrow> bool" where
  "blobsKept st st' \<longleftrightarrow>
     (\<forall>k b' e'. px_blobs st' k = Some (b', e') \<longrightarrow>
        (\<exists>b e. px_blobs st k = Some (b, e) \<and> sb_id b' = sb_id b \<and> sb_user b' = sb_user b
           \<and> sb_roles b' = sb_roles b \<and> sb_expires b' = sb_expires b))"

lemma blobsKept_same: "px_blobs st' = px_blobs st \<Longrightarrow> blobsKept st st'"
  by (simp add: blobsKept_def)

lemma blobsKept_trans: "blobsKept a b \<Longrightarrow> blobsKept b c \<Longrightarrow> blobsKept a c"
  unfolding blobsKept_def by metis

lemma blobsKept_audit: "blobsKept st st' \<Longrightarrow> blobsKept st (auditProxy env a t st')"
  by (simp add: blobsKept_def)

lemma blobsKept_del: "px_blobs st' = redisDel k (px_blobs st) \<Longrightarrow> blobsKept st st'"
  by (auto simp: blobsKept_def redisDel_def)

lemma blobsKept_idle: "blobsKept st (revokeIdleProxySession env s st)"
proof (cases "pe_cookie env = [] \<or> pe_fails env ''redisDel''")
  case True
  then show ?thesis by (intro blobsKept_same) (simp add: revokeIdleProxySession_def Let_def)
next
  case False
  then show ?thesis
    by (intro blobsKept_del [where k = "blobKey env (pe_cookie env)"])
      (simp add: revokeIdleProxySession_def Let_def)
qed

lemma blobsKept_authenticate: "blobsKept st (snd (authenticateProxy env route st))"
  by (simp add: authenticateProxy_def blobsKept_audit blobsKept_idle blobsKept_same split: option.splits)

lemma blobsKept_rolesAllow: "blobsKept st (snd (rolesAllow env route s st))"
  by (rule blobsKept_same)
    (simp add: rolesAllow_def userGroupNames_def loadGroupNames_def Let_def split: option.splits prod.splits)

lemma blobsKept_context: "blobsKept st (snd (buildAccessContext env route s st))"
  by (rule blobsKept_same)
    (simp add: buildAccessContext_def ensureDeviceTrustRequest_def Let_def split: option.splits)

lemma blobsKept_activity: "blobsKept st (updateSessionActivity env s st)"
proof -
  have read: "\<exists>e. px_blobs st' (blobKey env (pe_cookie env)) = Some (b, e)"
    if "readBlob env st' = Some b" for st' b
    using that by (auto simp: readBlob_def redisGet_def split: if_splits option.splits)
  show ?thesis
    unfolding updateSessionActivity_def Let_def blobsKept_def
    by (auto simp: redisSetEx_def dest!: read split: if_splits option.splits)
qed

lemma blobsKept_forward: "blobsKept st (snd (forwardProxy env route s st))"
  by (rule blobsKept_same) (simp add: forwardProxy_def)

lemma blobsKept_refl: "blobsKept st st"
  by (rule blobsKept_same) simp

lemma admission_keeps:
  assumes "authenticateProxy env route st = (so, st1)" and "rolesAllow env route s st1 = (b, st2)"
    and "buildAccessContext env route s st2 = (ac, st3)"
  shows "blobsKept st st1" and "blobsKept st st2" and "blobsKept st st3"
    and "blobsKept st (updateSessionActivity env s' st3)"
proof -
  show k1: "blobsKept st st1" using blobsKept_authenticate [of st env route] assms(1) by simp
  show k2: "blobsKept st st2"
    using blobsKept_trans [OF k1 blobsKept_rolesAllow [of st1 env route s]] assms(2) by simp
  show k3: "blobsKept st st3"
    using blobsKept_trans [OF k2 blobsKept_context [of st2 env route s]] assms(3) by simp
  show "blobsKept st (updateSessionActivity env s' st3)"
    by (rule blobsKept_trans [OF k3 blobsKept_activity])
qed

lemma handleProxy_keeps: "blobsKept st (snd (handleProxy env st))"
proof (cases "findRouteByHost env (pe_host env) st")
  case None
  then show ?thesis by (simp add: handleProxy_def blobsKept_refl)
next
  case (Some route)
  obtain so st1 where auth: "authenticateProxy env route st = (so, st1)" by force
  obtain b st2 where roles: "rolesAllow env route (the so) st1 = (b, st2)" by force
  obtain ac st3 where build: "buildAccessContext env route (the so) st2 = (ac, st3)" by force
  note kept = admission_keeps [OF auth roles build]
  have fwd: "blobsKept st (snd (forwardProxy env route x (updateSessionActivity env y st3)))" for x y
    by (rule blobsKept_trans [OF kept(4) blobsKept_forward])
  show ?thesis
    unfolding handleProxy_def
    using Some auth roles build kept fwd
    by (cases so) (simp_all add: Let_def blobsKept_audit blobsKept_refl blobsKept_forward
        split: bool.splits option.splits prod.splits)
qed

lemma handleAuthDecide_keeps: "blobsKept st (snd (handleAuthDecide env st))"
proof (cases "findRouteByHost env (decideHost env) st")
  case None
  then show ?thesis by (simp add: handleAuthDecide_def blobsKept_refl)
next
  case (Some route)
  obtain so st1 where auth: "authenticateProxy env route st = (so, st1)" by force
  obtain b st2 where roles: "rolesAllow env route (the so) st1 = (b, st2)" by force
  obtain ac st3 where build: "buildAccessContext env route (the so) st2 = (ac, st3)" by force
  note kept = admission_keeps [OF auth roles build]
  show ?thesis
    unfolding handleAuthDecide_def
    using Some auth roles build kept
    by (cases so) (simp_all add: Let_def blobsKept_audit blobsKept_refl
        split: bool.splits option.splits prod.splits)
qed

text \<open>The requests served since a login, each by the proxy or by the forward-auth endpoint.\<close>

fun serveAll :: "('f proxy_env \<times> bool) list \<Rightarrow> proxy_state \<Rightarrow> proxy_state" where
  "serveAll [] st = st"
| "serveAll ((env, forwardAuth) # rs) st =
     serveAll rs (snd (if forwardAuth then handleAuthDecide env st else handleProxy env st))"

lemma serveAll_keeps: "blobsKept st (serveAll rs st)"
proof (induction rs arbitrary: st)
  case Nil
  show ?case by (simp add: blobsKept_refl)
next
  case (Cons r rs)
  obtain env forwardAuth where r: "r = (env, forwardAuth)" by force
  show ?case
    unfolding r serveAll.simps
    by (rule blobsKept_trans [OF _ Cons.IH]) (simp add: handleProxy_keeps handleAuthDecide_keeps)
qed

text \<open>
  C27: a session lives for twelve hours at most: whatever requests are served after the login, and however
  recent the last of them, the cookie is not accepted more than a second after twelve hours.
\<close>

theorem session_absolute_lifetime:
  assumes "createSession env claims st = (Some token, st1)" and "\<not> pe_fails env ''redisSet''"
    and "pe_cookie env' = token" and "pe_hash env' = pe_hash env"
    and "pe_now env + 12 * hour + second \<le> pe_now env'"
  shows "getSessionFromRequest env' (serveAll rs st1) = None"
proof (cases "getSessionFromRequest env' (serveAll rs st1)")
  case (Some s)
  then obtain b where read: "readBlob env' (serveAll rs st1) = Some b"
    and live: "\<not> sb_expires b < unixTime (pe_now env')"
    by (auto simp: getSessionFromRequest_def split: option.splits if_splits)
  from read assms(3,4) obtain e where "px_blobs (serveAll rs st1) (blobKey env token) = Some (b, e)"
    by (auto simp: readBlob_def redisGet_def blobKey_def split: option.splits if_splits)
  then obtain b0 e0 where "px_blobs st1 (blobKey env token) = Some (b0, e0)" "sb_expires b = sb_expires b0"
    using serveAll_keeps [of st1 rs] unfolding blobsKept_def by blast
  with assms(1,2) have "sb_expires b = unixTime (pe_now env + 12 * hour)"
    by (auto simp: createSession_def redisSetEx_def Let_def split: prod.splits if_splits)
  moreover have "unixTime (pe_now env + 12 * hour) + 1 \<le> unixTime (pe_now env')"
    using zdiv_mono1 [OF assms(5), of second] by (simp add: unixTime_def second_def)
  ultimately show ?thesis using live by simp
qed simp

subsection \<open>Checks without effect\<close>

text \<open>A session of a cookie has no user agent, so the user-agent check adds nothing to its risk.\<close>

lemma cookie_session_risk:
  assumes "getSessionFromRequest env st = Some s"
  shows "contextRisk (requestContext env route s meth uri st) \<le> 70"
proof -
  have "ps_UserAgent s = []"
    using assms by (auto simp: getSessionFromRequest_def split: option.splits if_splits)
  then have "userAgentRisk (requestContext env route s meth uri st) = 0"
    by (simp add: userAgentRisk_def requestContext_def buildAccessContext_def Let_def)
  then show ?thesis by (simp add: contextRisk_def)
qed

lemma geo_untouched: "sameTables st (snd (buildAccessContext env route s st))"
  by (simp add: buildAccessContext_def ensureDeviceTrustRequest_def sameTables_def Let_def
      split: option.splits)

text \<open>
  The country list of a route does nothing: the geolocation table starts empty and is only filled
  after a hit in it, and while it is empty the decision is the same whatever countries are listed.
\<close>

theorem geofence_without_effect:
  assumes "px_geo st = []"
  shows "evaluateAccessContext env (requestContext env (route\<lparr>pr_AllowedCountries := countries\<rparr>) s meth uri st)
       = evaluateAccessContext env (requestContext env (route\<lparr>pr_AllowedCountries := []\<rparr>) s meth uri st)
     \<and> px_geo (snd (buildAccessContext env route s st)) = []"
proof -
  define a where "a cs = requestContext env (route\<lparr>pr_AllowedCountries := cs\<rparr>) s meth uri st" for cs
  have geo: "ac_GeoCountry (a cs) = []" for cs
    using assms by (simp add: a_def requestContext_def buildAccessContext_def lookupIPGeo_def Let_def)
  have same: "ac_IPBlocked (a cs) = ac_IPBlocked (a [])" "ac_Posture (a cs) = ac_Posture (a [])"
    "ac_DeviceTrusted (a cs) = ac_DeviceTrusted (a [])" "contextRisk (a cs) = contextRisk (a [])"
    "policyContext env (a cs) = policyContext env (a [])" "ac_ClientIP (a cs) = ac_ClientIP (a [])"
    "ac_IPThreatType (a cs) = ac_IPThreatType (a [])" "ac_Route (a cs) = route\<lparr>pr_AllowedCountries := cs\<rparr>"
    for cs
    by (simp_all add: a_def requestContext_def buildAccessContext_def postureScore_def contextRisk_def
        userAgentRisk_def policyContext_def Let_def split: option.splits)
  have "evaluateAccessContext env (a countries) = evaluateAccessContext env (a [])"
    unfolding evaluateAccessContext_def Let_def geo same(1-7) [of countries] same(8) by simp
  then show ?thesis
    using geo_untouched [of st env route s] assms by (simp add: a_def sameTables_def)
qed
subsection \<open>Which route a host selects\<close>

definition plainPattern :: "string \<Rightarrow> bool" where
  "plainPattern p \<longleftrightarrow> list_all (\<lambda>c. c \<noteq> CHR ''%'' \<and> c \<noteq> CHR ''_'' \<and> byteOf c \<noteq> 92) p"

lemma like_percent: "like (CHR ''%'' # p) s \<longleftrightarrow> (\<exists>a b. s = a @ b \<and> like p b)"
proof (induction s)
  case Nil
  show ?case by simp
next
  case (Cons x s)
  have "like (CHR ''%'' # p) (x # s) \<longleftrightarrow> like p (x # s) \<or> like (CHR ''%'' # p) s"
    by simp
  also have "\<dots> \<longleftrightarrow> (\<exists>a b. x # s = a @ b \<and> like p b)"
    unfolding Cons.IH by (auto simp: Cons_eq_append_conv)
  finally show ?case .
qed

lemma like_plain_prefix: "plainPattern p \<Longrightarrow> like (p @ ''%'') s \<longleftrightarrow> (\<exists>b. s = p @ b)"
proof (induction p arbitrary: s)
  case Nil
  show ?case using like_percent [of "[]" s] by auto
next
  case (Cons c p)
  then have "like ((c # p) @ ''%'') s = (case s of [] \<Rightarrow> False | x # t \<Rightarrow> x = c \<and> like (p @ ''%'') t)"
    by (simp add: plainPattern_def)
  with Cons show ?case by (auto simp: plainPattern_def split: list.splits)
qed

text \<open>
  A host without wildcards selects every enabled route whose URL contains it anywhere, not only the
  routes of that host; an empty host, and one of wildcards, selects every enabled route.
\<close>

theorem routeMatches_substring:
  assumes "plainPattern host"
  shows "routeMatches host r \<longleftrightarrow>
     pr_Enabled (rr_route r) \<and> (\<exists>before after. pr_FromURL (rr_route r) = before @ host @ after)"
  using like_percent [of "host @ ''%''" "pr_FromURL (rr_route r)"] like_plain_prefix [OF assms]
  by (auto simp: routeMatches_def)

lemma routeMatches_empty: "routeMatches [] r \<longleftrightarrow> pr_Enabled (rr_route r)"
  using routeMatches_substring [of "[]" r] by (auto simp: plainPattern_def)

lemma routeMatches_wildcard: "routeMatches ''%'' r \<longleftrightarrow> pr_Enabled (rr_route r)"
proof -
  have "like ''%%'' s" for s using like_percent [of "''%''" s] like_percent [of "[]" s] by fastforce
  then have "like ''%%%'' s" for s using like_percent [of "''%%''" s] by fastforce
  then show ?thesis by (simp add: routeMatches_def)
qed

text \<open>
  On a route without authentication the identity headers of the client reach the upstream as they
  were sent: the director sets them only for a session, and removes none.
\<close>

lemma fold_header_other:
  "k \<notin> fst ` set customs \<Longrightarrow> fold (\<lambda>(k, v) hs. hs(k := v)) customs hs k = hs k"
  by (induction customs arbitrary: hs) (auto split: prod.splits)

theorem public_route_forwards_identity:
  assumes "findRouteByHost env (pe_host env) st = Some route" and "\<not> pr_RequireAuth route"
    and "pr_Enabled route" and "pe_parsesURL env (pr_ToURL route)"
    and "''X-Forwarded-User'' \<notin> fst ` set (pr_CustomHeaders route)"
  shows "\<exists>hs. handleProxy env st = (Forwarded route None hs, st)
     \<and> hs ''X-Forwarded-User'' = pe_header env ''X-Forwarded-User''"
  using assms
  by (simp add: handleProxy_def forwardProxy_def proxyHeaders_def fold_header_other identityHeaders_def)

text \<open>A role list that does not decode is an empty list, and an empty list restricts nothing.\<close>

lemma undecodable_roles_open:
  assumes "rr_roles row = None" and "rr_groups row = None"
  shows "fst (rolesAllow env (scanRoute row) s st)"
  using assms by (simp add: fst_rolesAllow scanRoute_def jsonList_def)
subsection \<open>Witnesses\<close>

definition demoRoute :: ProxyRoute where
  "demoRoute = \<lparr>pr_ID = ''r1'', pr_Name = ''wiki'', pr_FromURL = ''http://wiki'', pr_ToURL = ''http://up'',
     pr_RequireAuth = True, pr_AllowedRoles = [''dev''], pr_AllowedGroups = [], pr_PolicyIDs = [],
     pr_IdleTimeout = 900, pr_Enabled = True, pr_Priority = 1, pr_PostureCheckIDs = [],
     pr_InlinePolicy = [], pr_RequireDeviceTrust = False, pr_AllowedCountries = [],
     pr_MaxRiskScore = 50, pr_CustomHeaders = []\<rparr>"

definition demoRouteRow :: "ProxyRoute \<Rightarrow> RouteRow" where
  "demoRouteRow route = \<lparr>rr_route = route, rr_org = ''acme'', rr_roles = Some (pr_AllowedRoles route),
     rr_groups = None, rr_policies = None, rr_posture = None, rr_countries = None\<rparr>"

definition demoProxyEnv :: "int \<Rightarrow> int proxy_env" where
  "demoProxyEnv t = \<lparr>pe_now = t, pe_org = Some ''acme'', pe_fails = (\<lambda>_. False), pe_host = ''wiki'',
     pe_clientIP = ''10.0.0.1'', pe_userAgent = ''ua'', pe_cookie = ''c1'', pe_authorization = [],
     pe_method = ''GET'', pe_path = ''/'', pe_header = (\<lambda>_. []), pe_hash = (\<lambda>s. ''h:'' @ s),
     pe_bearer = (\<lambda>_. None), pe_governance = (\<lambda>_ _. NoAnswer), pe_posture = None,
     pe_fingerprint = (\<lambda>ip ua. ip @ ua), pe_hour = (\<lambda>t. t div hour), pe_floats = demoFloats,
     pe_ratio = (\<lambda>a b. int a div int b), pe_regexps = (\<lambda>_. None), pe_newID = ''s1'',
     pe_newToken = ''c1'', pe_parsesURL = (\<lambda>_. True)\<rparr>"

definition demoProxyState :: "ProxyRoute \<Rightarrow> proxy_state" where
  "demoProxyState route = \<lparr>px_routes = [demoRouteRow route], px_blobs = Map.empty, px_rows = [], px_geo = [],
     px_threats = [], px_devices = [], px_trustRequests = [], px_memberships = [],
     px_groupCache = Map.empty, px_stepups = Map.empty, px_audits = []\<rparr>"

text \<open>The state after a login at time \<open>t\<close>.\<close>

definition demoLogin :: "int \<Rightarrow> proxy_state" where
  "demoLogin t = snd (createSession (demoProxyEnv t) (''u1'', ''u@a'', ''U'', [''dev'']) (demoProxyState demoRoute))"

definition demoSession :: "int \<Rightarrow> ProxySession" where
  "demoSession t = \<lparr>ps_ID = ''s1'', ps_UserID = ''u1'', ps_UserAgent = [], ps_Email = ''u@a'', ps_Name = ''U'',
     ps_Roles = [''dev''], ps_LastActiveAt = (if 0 < t div second then Some (t div second * second) else None),
     ps_RiskScore = 0, ps_DeviceTrusted = False\<rparr>"

lemma demo_createSession:
  "createSession (demoProxyEnv t) (''u1'', ''u@a'', ''U'', [''dev'']) (demoProxyState demoRoute) =
     (Some ''c1'', demoLogin t)"
  by (simp add: demoLogin_def createSession_def demoProxyEnv_def Let_def)

lemma demo_session:
  assumes "t \<le> u" and "u < t + 12 * hour"
  shows "getSessionFromRequest (demoProxyEnv u) (demoLogin t) = Some (demoSession t)"
proof -
  have "u div second \<le> (t + 12 * hour) div second"
    using assms by (intro zdiv_mono1) (simp_all add: second_def)
  with assms show ?thesis
    by (simp add: demoLogin_def createSession_def getSessionFromRequest_def readBlob_def demoProxyEnv_def
        demoProxyState_def blobKey_def redisGet_SetEx unixTime_def demoSession_def Let_def)
qed

lemma demo_route:
  assumes "pr_Enabled route" "pr_FromURL route = ''http://wiki''"
    and "px_routes st = [demoRouteRow route]"
  shows "findRouteByHost (demoProxyEnv t) ''wiki'' st = Some (scanRoute (demoRouteRow route))"
proof -
  have "plainPattern ''wiki''" by (simp add: plainPattern_def byteOf_def)
  then have "routeMatches ''wiki'' (demoRouteRow route)"
    using assms(1,2) routeMatches_substring [of "''wiki''" "demoRouteRow route"]
    by (auto simp: demoRouteRow_def intro: exI [of _ "''http://''"])
  then show ?thesis by (simp add: findRouteByHost_def assms(3) demoProxyEnv_def)
qed
lemma demo_login_sel [simp]:
  "px_routes (demoLogin t) = [demoRouteRow demoRoute]" "px_geo (demoLogin t) = []"
  "px_threats (demoLogin t) = []" "px_devices (demoLogin t) = []"
  by (simp_all add: demoLogin_def createSession_def demoProxyEnv_def demoProxyState_def Let_def)

lemma demo_login_row:
  "find (\<lambda>r. sr_token r = ''h:c1'') (px_rows (demoLogin t)) = Some
     \<lparr>sr_id = ''s1'', sr_user = ''u1'', sr_token = ''h:c1'', sr_org = ''acme'', sr_expires = t + 12 * hour,
      sr_lastActive = t, sr_revoked = False\<rparr>"
  by (simp add: demoLogin_def createSession_def demoProxyEnv_def demoProxyState_def Let_def)

lemma demo_scan: "scanRoute (demoRouteRow demoRoute) = demoRoute"
  by (simp add: scanRoute_def demoRouteRow_def jsonList_def demoRoute_def)

lemma demo_admitted:
  "\<exists>session hs st'. handleProxy (demoProxyEnv 0) (demoLogin 0) = (Forwarded demoRoute session hs, st')"
proof -
  have route: "findRouteByHost (demoProxyEnv 0) (pe_host (demoProxyEnv 0)) (demoLogin 0) = Some demoRoute"
    using demo_route [of demoRoute "demoLogin 0" 0] by (simp add: demoRoute_def [symmetric] demo_scan)
      (simp add: demoRoute_def demoProxyEnv_def)
  have "isIdleExpired demoRoute (demoSession 0) (pe_now (demoProxyEnv 0)) = False"
    by (simp add: isIdleExpired_def demoSession_def)
  then have auth: "authenticateProxy (demoProxyEnv 0) demoRoute (demoLogin 0) = (Some (demoSession 0), demoLogin 0)"
    by (simp add: authenticateProxy_def demo_session hour_def)
  have roles: "fst (rolesAllow (demoProxyEnv 0) demoRoute (demoSession 0) (demoLogin 0))"
    by (simp add: fst_rolesAllow demoRoute_def demoSession_def hasAnyRole_def)
  let ?ac = "requestContext (demoProxyEnv 0) demoRoute (demoSession 0) [] [] (demoLogin 0)"
  have "contextRisk ?ac = 15" "ac_IPBlocked ?ac = False" "ac_Route ?ac = demoRoute"
    by (simp_all add: contextRisk_def userAgentRisk_def requestContext_def buildAccessContext_def
        checkIPThreat_def deviceTrusted_def demoSession_def demoRoute_def Let_def)
  then have allowed: "ad_Allowed (evaluateAccessContext (demoProxyEnv 0) ?ac)"
    by (simp add: evaluateAccessContext_def demoRoute_def Let_def)
  have "\<exists>session hs. proxyVerdict (demoProxyEnv 0) (demoLogin 0) = Forwarded demoRoute session hs"
    unfolding proxyVerdict_def route
    by (simp add: auth roles allowed Let_def) (simp add: demoRoute_def forwardProxy_def demoProxyEnv_def)
  then show ?thesis
    by (metis handleProxy_verdict prod.collapse)
qed

theorem proxy_admission_sound_witness:
  "\<exists>session hs st'. handleProxy (demoProxyEnv 0) (demoLogin 0) = (Forwarded demoRoute session hs, st')
     \<and> (\<exists>s meth uri. checksPassed (demoProxyEnv 0) demoRoute s
          (requestContext (demoProxyEnv 0) demoRoute s meth uri (demoLogin 0)) (demoLogin 0))"
proof -
  obtain session hs st'
    where eq: "handleProxy (demoProxyEnv 0) (demoLogin 0) = (Forwarded demoRoute session hs, st')"
    using demo_admitted by blast
  have "pr_RequireAuth demoRoute" by (simp add: demoRoute_def)
  from proxy_admission_sound [OF disjI1 [OF eq] this] eq show ?thesis by blast
qed

theorem admin_revocation_ineffective_witness:
  "\<exists>st'. handleRevokeSession (demoProxyEnv 0) ''s1'' (demoLogin 0) = (200, st')
     \<and> (\<exists>session hs. fst (handleProxy (demoProxyEnv 0) st') = Forwarded demoRoute session hs)"
proof -
  obtain st' where eq: "handleRevokeSession (demoProxyEnv 0) ''s1'' (demoLogin 0) = (200, st')"
    by (simp add: handleRevokeSession_def demoProxyEnv_def)
  have "pe_hash (demoProxyEnv 0) (pe_cookie (demoProxyEnv 0)) \<noteq> ''s1''"
    by (simp add: demoProxyEnv_def)
  from admin_revocation_ineffective [OF eq this] demo_admitted eq show ?thesis by (metis fst_conv)
qed

theorem logout_ends_session_witness:
  "getSessionFromRequest (demoProxyEnv 5) (demoLogin 0) \<noteq> None
     \<and> getSessionFromRequest (demoProxyEnv 5) (handleLogout (demoProxyEnv 1) (demoLogin 0)) = None"
proof -
  have env: "pe_cookie (demoProxyEnv t) = ''c1''" "pe_hash (demoProxyEnv t) = (\<lambda>s. ''h:'' @ s)"
    "\<not> pe_fails (demoProxyEnv t) q" for t q
    by (simp_all add: demoProxyEnv_def)
  have row: "find (\<lambda>r. sr_token r = pe_hash (demoProxyEnv 1) (pe_cookie (demoProxyEnv 1)))
      (px_rows (demoLogin 0)) = Some \<lparr>sr_id = ''s1'', sr_user = ''u1'', sr_token = ''h:c1'',
      sr_org = ''acme'', sr_expires = 0 + 12 * hour, sr_lastActive = 0, sr_revoked = False\<rparr>"
    using demo_login_row [of 0] by (simp add: env)
  have "getSessionFromRequest (demoProxyEnv 5) (handleLogout (demoProxyEnv 1) (demoLogin 0)) = None"
    by (rule logout_ends_session [OF row]) (simp_all add: env)
  then show ?thesis using demo_session [of 0 5] by (simp add: hour_def minute_def second_def)
qed

theorem idle_session_ended_witness:
  "fst (authenticateProxy (demoProxyEnv (1000 * second)) demoRoute (demoLogin second)) = None"
proof -
  let ?env = "demoProxyEnv (1000 * second)"
  have s: "getSessionFromRequest ?env (demoLogin second) = Some (demoSession second)"
    by (rule demo_session) (simp_all add: second_def hour_def minute_def)
  have i: "isIdleExpired demoRoute (demoSession second) (pe_now ?env)"
    by (simp add: isIdleExpired_def demoRoute_def demoSession_def demoProxyEnv_def second_def)
  have "\<not> pe_fails ?env ''redisDel''" by (simp add: demoProxyEnv_def)
  from idle_session_ended [OF s i this] show ?thesis
    by (simp add: getSessionFromBearer_def demoProxyEnv_def hasPrefix_def)
qed

theorem session_absolute_lifetime_witness:
  "getSessionFromRequest (demoProxyEnv (13 * hour))
     (serveAll [(demoProxyEnv (6 * hour), False), (demoProxyEnv (12 * hour), True)] (demoLogin 0)) = None"
  by (rule session_absolute_lifetime [OF demo_createSession])
    (simp_all add: demoProxyEnv_def hour_def minute_def second_def)

theorem geofence_without_effect_witness:
  "evaluateAccessContext (demoProxyEnv 0)
      (requestContext (demoProxyEnv 0) (demoRoute\<lparr>pr_AllowedCountries := [''FR'']\<rparr>) (demoSession 0) [] [] (demoLogin 0))
   = evaluateAccessContext (demoProxyEnv 0)
      (requestContext (demoProxyEnv 0) (demoRoute\<lparr>pr_AllowedCountries := []\<rparr>) (demoSession 0) [] [] (demoLogin 0))"
  using geofence_without_effect [of "demoLogin 0" "demoProxyEnv 0" "[''FR'']" demoRoute "demoSession 0"]
  by simp

theorem routeMatches_substring_witness:
  "routeMatches ''iki'' (demoRouteRow demoRoute)"
proof -
  have "plainPattern ''iki''" by (simp add: plainPattern_def byteOf_def)
  then show ?thesis
    using routeMatches_substring [of "''iki''" "demoRouteRow demoRoute"]
    by (auto simp: demoRouteRow_def demoRoute_def intro: exI [of _ "''http://w''"])
qed

theorem public_route_forwards_identity_witness:
  "\<exists>hs. handleProxy ((demoProxyEnv 0)\<lparr>pe_header := (\<lambda>h. if h = ''X-Forwarded-User'' then ''root'' else [])\<rparr>)
       (demoProxyState (demoRoute\<lparr>pr_RequireAuth := False, pr_AllowedRoles := []\<rparr>)) =
     (Forwarded (demoRoute\<lparr>pr_RequireAuth := False, pr_AllowedRoles := []\<rparr>) None hs,
      demoProxyState (demoRoute\<lparr>pr_RequireAuth := False, pr_AllowedRoles := []\<rparr>))
     \<and> hs ''X-Forwarded-User'' = ''root''"
proof -
  let ?route = "demoRoute\<lparr>pr_RequireAuth := False, pr_AllowedRoles := []\<rparr>"
  let ?env = "(demoProxyEnv 0)\<lparr>pe_header := (\<lambda>h. if h = ''X-Forwarded-User'' then ''root'' else [])\<rparr>"
  have "findRouteByHost (demoProxyEnv 0) ''wiki'' (demoProxyState ?route) = Some (scanRoute (demoRouteRow ?route))"
    by (rule demo_route) (simp_all add: demoRoute_def demoProxyState_def)
  also have "scanRoute (demoRouteRow ?route) = ?route"
    by (simp add: scanRoute_def demoRouteRow_def jsonList_def demoRoute_def)
  finally have route: "findRouteByHost ?env (pe_host ?env) (demoProxyState ?route) = Some ?route"
    by (simp add: findRouteByHost_def demoProxyEnv_def)
  show ?thesis
    using public_route_forwards_identity [OF route] by (simp add: demoRoute_def demoProxyEnv_def)
qed
end
