(* ===== verification/Tenancy.thy ===== *)
theory Tenancy
  imports OAuth_Types
begin

text \<open>
  How a request gets its organisation and how the organisation bounds what the database shows it:
  \<^verbatim>\<open>internal/gateway/middleware/tenant.go\<close> (the header the gateway derives from the host),
  \<^verbatim>\<open>internal/common/middleware/tenant_resolver.go\<close>, \<^verbatim>\<open>internal/organization/orglookup.go\<close> (the cached
  lookup), \<^verbatim>\<open>internal/audit/cross_org.go\<close>, \<^verbatim>\<open>internal/common/orgctx\<close>, and the row-level security of
  \<^verbatim>\<open>internal/common/database/rls.go\<close> with the predicate of migration 37.

  The theorems: a client never chooses the header behind the gateway; where a resolved organisation
  comes from; the settings of a connection are the scope of the context that acquired it, in every
  reachable state of the pool, so that a query sees rows of one organisation or none; the host of a
  request overrides the organisation of its token.
\<close>

section \<open>The context of a request\<close>

record PermissionEntry =
  pe_Resource :: string
  pe_Action :: string
  pe_ScopeType :: string
  pe_ScopeID :: string

text \<open>
  The request, the keys the handlers set on the gin context, and the values carried by the request
  context: the organisation, the platform-administrator marker, the bypass of row-level security.
  Header names are canonical.
\<close>

record gin_context =
  cx_path :: string
  cx_method :: string
  cx_host :: string
  cx_header :: "string \<Rightarrow> string"
  cx_clientIP :: string
  cx_userID :: "string option"
  cx_email :: "string option"
  cx_name :: "string option"
  cx_sessionID :: "string option"
  cx_serviceAccountID :: "string option"
  cx_apiKeyID :: "string option"
  cx_scopes :: "string list option"
  cx_roles :: "string list option"
  cx_amr :: "string list option"
  cx_orgID :: "string option"
  cx_permissions :: "PermissionEntry list option"
  cx_org :: "Org option"
  cx_platformAdmin :: bool
  cx_bypassRLS :: bool

datatype mw_result = Next gin_context | Abort int string

definition orgctxWith :: "gin_context \<Rightarrow> Org \<Rightarrow> gin_context" where
  "orgctxWith cx org = cx\<lparr>cx_org := Some org\<rparr>"

definition WithPlatformAdmin :: "gin_context \<Rightarrow> gin_context" where
  "WithPlatformAdmin cx = cx\<lparr>cx_platformAdmin := True\<rparr>"

definition WithBypassRLS :: "gin_context \<Rightarrow> gin_context" where
  "WithBypassRLS cx = cx\<lparr>cx_bypassRLS := True\<rparr>"

definition SuperAdminPredicate :: "gin_context \<Rightarrow> bool" where
  "SuperAdminPredicate cx = (case cx_roles cx of None \<Rightarrow> False | Some rs \<Rightarrow> ''super_admin'' \<in> set rs)"

section \<open>The gateway\<close>

text \<open>\<^verbatim>\<open>net.SplitHostPort\<close>, the host only.\<close>

definition lastColon :: "string \<Rightarrow> nat option" where
  "lastColon s = (if CHR '':'' \<in> set s then Some (length s - 1 - length (takeWhile (\<lambda>c. c \<noteq> CHR '':'') (rev s)))
     else None)"

definition splitHost :: "string \<Rightarrow> string option" where
  "splitHost hp =
     (case lastColon hp of
        None \<Rightarrow> None
      | Some i \<Rightarrow>
          if hp \<noteq> [] \<and> hd hp = CHR ''['' then
            (let end' = length (takeWhile (\<lambda>c. c \<noteq> CHR '']'') hp) in
             if CHR '']'' \<notin> set hp \<or> end' + 1 \<noteq> i then None
             else if CHR ''['' \<in> set (drop 1 hp) \<or> CHR '']'' \<in> set (drop (end' + 1) hp) then None
             else Some (take (end' - 1) (drop 1 hp)))
          else if CHR '':'' \<in> set (take i hp) then None
          else if CHR ''['' \<in> set hp \<or> CHR '']'' \<in> set hp then None
          else Some (take i hp))"

definition tenantLabel :: "string \<Rightarrow> string \<Rightarrow> string" where
  "tenantLabel host sfx =
     (let h = toLower (case splitHost host of Some h \<Rightarrow> h | None \<Rightarrow> host) in
      if \<not> hasSuffix h sfx then []
      else (let label = take (length h - length sfx) h in
            if label = [] \<or> CHR ''.'' \<in> set label then [] else label))"

definition OrgSlugHeader :: "string \<Rightarrow> gin_context \<Rightarrow> gin_context" where
  "OrgSlugHeader baseDomain cx =
     (let sfx = (if baseDomain \<noteq> [] then ''.'' @ toLower baseDomain else []);
          slug = (if sfx \<noteq> [] then tenantLabel (cx_host cx) sfx else []) in
      cx\<lparr>cx_header := (cx_header cx)(''X-Org-Slug'' := slug)\<rparr>)"

section \<open>Looking up an organisation\<close>

text \<open>A row of \<^verbatim>\<open>organizations\<close>; \<open>og_settingsOK\<close> says that its settings are null or decode.\<close>

record Organization =
  og_ID :: string
  og_Slug :: string
  og_Status :: string
  og_settingsOK :: bool

record tenant_env =
  te_now :: int
  te_fails :: "string \<Rightarrow> bool"

record tenant_state =
  ts_orgs :: "Organization list"
  ts_cache :: "string \<Rightarrow> (Org \<times> int) option"
  ts_audits :: "(string \<times> string option \<times> string) list"

datatype tenant_error = ErrOrgNotFound string | LookupFailed | NoDefaultOrgID

definition orgCacheTTL :: int where
  "orgCacheTTL = 30 * second"

text \<open>A statement fails also for an identifier that is no UUID.\<close>

definition fetchOrganization ::
    "tenant_env \<Rightarrow> (Organization \<Rightarrow> bool) \<Rightarrow> tenant_state \<Rightarrow> tenant_error + Org" where
  "fetchOrganization env P st =
     (if te_fails env ''selectOrg'' then Inl LookupFailed
      else (case find P (ts_orgs st) of
              None \<Rightarrow> Inl (ErrOrgNotFound [])
            | Some row \<Rightarrow>
                (if \<not> og_settingsOK row then Inl LookupFailed
                 else Inr \<lparr>org_ID = og_ID row, org_Slug = og_Slug row\<rparr>)))"

definition cachedLookup ::
    "tenant_env \<Rightarrow> string \<Rightarrow> (Organization \<Rightarrow> bool) \<Rightarrow> tenant_state \<Rightarrow> (tenant_error + Org) \<times> tenant_state" where
  "cachedLookup env key P st =
     (case (case ts_cache st key of
              Some (org, expires) \<Rightarrow> if te_now env < expires then Some org else None
            | None \<Rightarrow> None) of
        Some org \<Rightarrow> (Inr org, st)
      | None \<Rightarrow>
          (case fetchOrganization env P st of
             Inl e \<Rightarrow> (Inl e, st)
           | Inr org \<Rightarrow>
               (Inr org, st\<lparr>ts_cache := (ts_cache st)(key \<mapsto> (org, te_now env + orgCacheTTL))\<rparr>)))"

definition ByID :: "tenant_env \<Rightarrow> string \<Rightarrow> tenant_state \<Rightarrow> (tenant_error + Org) \<times> tenant_state" where
  "ByID env i = cachedLookup env (''id'' @ char_of (0 :: nat) # i) (\<lambda>row. og_ID row = i)"

definition BySlug :: "tenant_env \<Rightarrow> string \<Rightarrow> tenant_state \<Rightarrow> (tenant_error + Org) \<times> tenant_state" where
  "BySlug env slug = cachedLookup env (''slug'' @ char_of (0 :: nat) # slug) (\<lambda>row. og_Slug row = slug)"

section \<open>The resolver\<close>

definition CrossOrgAuditor :: "tenant_env \<Rightarrow> gin_context \<Rightarrow> Org \<Rightarrow> tenant_state \<Rightarrow> tenant_state" where
  "CrossOrgAuditor env cx target st =
     (if te_fails env ''insertAudit'' then st
      else st\<lparr>ts_audits := ts_audits st @ [(''cross_org_access'',
        (case cx_userID cx of None \<Rightarrow> None | Some u \<Rightarrow> if u = [] then None else Some u), org_ID target)]\<rparr>)"

record TenantResolverConfig =
  tc_DefaultOrgFallback :: bool
  tc_DefaultOrgID :: string
  tc_PlatformAdmin :: "(gin_context \<Rightarrow> bool) option"
  tc_OnCrossOrg :: "(gin_context \<Rightarrow> Org \<Rightarrow> tenant_state \<Rightarrow> tenant_state) option"

definition tenantSkipPaths :: "string list" where
  "tenantSkipPaths = [''/health'', ''/metrics'', ''/ready'', ''/live'', ''/api/v1/identity/branding'']"

definition isTenantSkipPath :: "string \<Rightarrow> bool" where
  "isTenantSkipPath path = list_ex (\<lambda>sp. path = sp \<or> hasPrefix path (sp @ ''/'')) tenantSkipPaths"

definition wrapNotFound :: "string \<Rightarrow> (tenant_error + Org) \<times> tenant_state \<Rightarrow> (tenant_error + Org) \<times> tenant_state" where
  "wrapNotFound text r =
     (case r of (Inl (ErrOrgNotFound _), st) \<Rightarrow> (Inl (ErrOrgNotFound text), st) | _ \<Rightarrow> r)"

definition platformAdmin :: "TenantResolverConfig \<Rightarrow> gin_context \<Rightarrow> bool" where
  "platformAdmin cfg cx = (case tc_PlatformAdmin cfg of None \<Rightarrow> False | Some p \<Rightarrow> p cx)"

definition resolveOrgFromRequest ::
    "tenant_env \<Rightarrow> TenantResolverConfig \<Rightarrow> gin_context \<Rightarrow> tenant_state \<Rightarrow> (tenant_error + Org) \<times> tenant_state" where
  "resolveOrgFromRequest env cfg cx st =
     (let slug = trimSpace (cx_header cx ''X-Org-Slug'');
          claim = (case cx_orgID cx of None \<Rightarrow> [] | Some i \<Rightarrow> i);
          target = trimSpace (cx_header cx ''X-Org-Id'') in
      if slug \<noteq> [] then wrapNotFound (''unknown organization slug '' @ slug) (BySlug env slug st)
      else if claim \<noteq> [] \<and> claim \<noteq> tc_DefaultOrgID cfg then
        wrapNotFound ''unknown organization in JWT'' (ByID env claim st)
      else if platformAdmin cfg cx \<and> target \<noteq> [] then
        (case wrapNotFound ''unknown organization in X-Org-ID header'' (ByID env target st) of
           (Inr org, st1) \<Rightarrow>
             (Inr org, (case tc_OnCrossOrg cfg of None \<Rightarrow> st1 | Some hook \<Rightarrow> hook cx org st1))
         | r \<Rightarrow> r)
      else if tc_DefaultOrgFallback cfg then
        (if tc_DefaultOrgID cfg = [] then (Inl NoDefaultOrgID, st)
         else wrapNotFound ''default org not found'' (ByID env (tc_DefaultOrgID cfg) st))
      else (Inl (ErrOrgNotFound ''no organization could be resolved''), st))"

definition TenantResolver ::
    "tenant_env \<Rightarrow> TenantResolverConfig \<Rightarrow> gin_context \<Rightarrow> tenant_state \<Rightarrow> mw_result \<times> tenant_state" where
  "TenantResolver env cfg cx st =
     (if isTenantSkipPath (cx_path cx) then (Next cx, st)
      else (case resolveOrgFromRequest env cfg cx st of
              (Inl (ErrOrgNotFound msg), st1) \<Rightarrow> (Abort 400 msg, st1)
            | (Inl _, st1) \<Rightarrow> (Abort 500 ''tenant resolution failed'', st1)
            | (Inr org, st1) \<Rightarrow>
                (Next (let cx1 = orgctxWith cx org in
                       if platformAdmin cfg cx then WithPlatformAdmin cx1 else cx1), st1)))"

section \<open>Row-level security\<close>

type_synonym rls_scope = "string \<times> string"

definition rlsValuesFromContext :: "gin_context \<Rightarrow> rls_scope" where
  "rlsValuesFromContext cx =
     (if cx_bypassRLS cx then ([], ''on'')
      else (case cx_org cx of Some org \<Rightarrow> (org_ID org, ''off'') | None \<Rightarrow> ([], ''off'')))"

text \<open>The pool: which connections are open, the scope the applier remembers of each, and the session
  settings each really has.\<close>

record rls_pool =
  rp_open :: "nat \<Rightarrow> bool"
  rp_last :: "nat \<Rightarrow> rls_scope option"
  rp_guc :: "nat \<Rightarrow> rls_scope"

definition beforeAcquire :: "bool \<Rightarrow> gin_context \<Rightarrow> nat \<Rightarrow> rls_pool \<Rightarrow> bool \<times> rls_pool" where
  "beforeAcquire execFails cx conn p =
     (let want = rlsValuesFromContext cx in
      if rp_last p conn = Some want then (True, p)
      else if execFails then (False, p\<lparr>rp_last := (rp_last p)(conn := None)\<rparr>)
      else (True, p\<lparr>rp_last := (rp_last p)(conn \<mapsto> want), rp_guc := (rp_guc p)(conn := want)\<rparr>))"

definition beforeClose :: "nat \<Rightarrow> rls_pool \<Rightarrow> rls_pool" where
  "beforeClose conn p = p\<lparr>rp_last := (rp_last p)(conn := None), rp_open := (rp_open p)(conn := False)\<rparr>"

text \<open>A new connection has no settings, and may get the address of one that was closed.\<close>

definition openConn :: "nat \<Rightarrow> rls_pool \<Rightarrow> rls_pool" where
  "openConn conn p = p\<lparr>rp_open := (rp_open p)(conn := True), rp_guc := (rp_guc p)(conn := ([], []))\<rparr>"

text \<open>The predicate of the policies: \<open>NULLIF\<close> makes an empty setting match no row.\<close>

definition rowVisible :: "rls_scope \<Rightarrow> string \<Rightarrow> bool" where
  "rowVisible guc orgID \<longleftrightarrow> snd guc = ''on'' \<or> fst guc \<noteq> [] \<and> orgID = fst guc"

definition visibleRows :: "('r \<Rightarrow> string) \<Rightarrow> rls_scope \<Rightarrow> 'r list \<Rightarrow> 'r list" where
  "visibleRows orgOf guc rows = filter (\<lambda>r. rowVisible guc (orgOf r)) rows"

section \<open>Properties\<close>

subsection \<open>The gateway\<close>

text \<open>What the backends receive as \<^verbatim>\<open>X-Org-Slug\<close> depends on the host only, and is a single label.\<close>

theorem gateway_owns_slug:
  "OrgSlugHeader base (cx\<lparr>cx_header := (cx_header cx)(''X-Org-Slug'' := v)\<rparr>) = OrgSlugHeader base cx
   \<and> CHR ''.'' \<notin> set (cx_header (OrgSlugHeader base cx) ''X-Org-Slug'')"
  by (simp add: OrgSlugHeader_def tenantLabel_def Let_def)

subsection \<open>Where an organisation comes from\<close>

definition idKey :: "string \<Rightarrow> string" where
  "idKey i = ''id'' @ char_of (0 :: nat) # i"

definition slugKey :: "string \<Rightarrow> string" where
  "slugKey s = ''slug'' @ char_of (0 :: nat) # s"

lemma key_distinct [simp]:
  "idKey i = idKey j \<longleftrightarrow> i = j" "slugKey s = slugKey t \<longleftrightarrow> s = t"
  "idKey i \<noteq> slugKey s" "slugKey s \<noteq> idKey i"
  by (simp_all add: idKey_def slugKey_def)

text \<open>A cached organisation has the identifier or the slug it was looked up by.\<close>

definition cacheOK :: "tenant_state \<Rightarrow> bool" where
  "cacheOK st \<longleftrightarrow>
     (\<forall>i org e. ts_cache st (idKey i) = Some (org, e) \<longrightarrow> org_ID org = i)
     \<and> (\<forall>s org e. ts_cache st (slugKey s) = Some (org, e) \<longrightarrow> org_Slug org = s)"

lemma ByID_key: "ByID env i = cachedLookup env (idKey i) (\<lambda>row. og_ID row = i)"
  by (simp add: ByID_def idKey_def)

lemma BySlug_key: "BySlug env s = cachedLookup env (slugKey s) (\<lambda>row. og_Slug row = s)"
  by (simp add: BySlug_def slugKey_def)

lemma fetch_found: "fetchOrganization env P st = Inr org \<Longrightarrow>
    \<exists>row. P row \<and> org = \<lparr>org_ID = og_ID row, org_Slug = og_Slug row\<rparr>"
  by (auto simp: fetchOrganization_def find_Some_iff split: if_splits option.splits)

lemma cachedLookup_cases:
  assumes "cachedLookup env k P st = (r, st')"
  obtains (failed) e where "r = Inl e" and "st' = st"
  | (hit) org e where "r = Inr org" and "st' = st" and "ts_cache st k = Some (org, e)"
  | (fetched) row where "P row" and "r = Inr \<lparr>org_ID = og_ID row, org_Slug = og_Slug row\<rparr>"
      and "st' = st\<lparr>ts_cache := (ts_cache st)(k \<mapsto>
        (\<lparr>org_ID = og_ID row, org_Slug = og_Slug row\<rparr>, te_now env + orgCacheTTL))\<rparr>"
proof (cases "fetchOrganization env P st")
  case (Inl e)
  from assms [unfolded cachedLookup_def Inl] that(1,2) show ?thesis
    by (auto split: option.splits if_splits)
next
  case (Inr org)
  from assms [unfolded cachedLookup_def Inr] fetch_found [OF Inr] that(2,3) show ?thesis
    by (auto split: option.splits if_splits)
qed

lemma ByID_sound:
  assumes "cacheOK st" and "ByID env i st = (r, st')"
  shows "cacheOK st' \<and> (\<forall>org. r = Inr org \<longrightarrow> org_ID org = i)"
  using assms(2)[unfolded ByID_key]
  by (cases rule: cachedLookup_cases) (use assms(1) in \<open>auto simp: cacheOK_def\<close>)

lemma BySlug_sound:
  assumes "cacheOK st" and "BySlug env s st = (r, st')"
  shows "cacheOK st' \<and> (\<forall>org. r = Inr org \<longrightarrow> org_Slug org = s)"
  using assms(2)[unfolded BySlug_key]
  by (cases rule: cachedLookup_cases) (use assms(1) in \<open>auto simp: cacheOK_def\<close>)

lemma wrapNotFound_Inr [simp]: "wrapNotFound text r = (Inr org, st) \<longleftrightarrow> r = (Inr org, st)"
  by (cases r) (auto simp: wrapNotFound_def split: sum.splits tenant_error.splits)

definition claimOrg :: "gin_context \<Rightarrow> string" where
  "claimOrg cx = (case cx_orgID cx of None \<Rightarrow> [] | Some i \<Rightarrow> i)"

text \<open>The organisation a request asks for, by the first of its signals.\<close>

definition requestedOrg :: "TenantResolverConfig \<Rightarrow> gin_context \<Rightarrow> Org \<Rightarrow> bool" where
  "requestedOrg cfg cx org \<longleftrightarrow>
     (if trimSpace (cx_header cx ''X-Org-Slug'') \<noteq> [] then org_Slug org = trimSpace (cx_header cx ''X-Org-Slug'')
      else if claimOrg cx \<noteq> [] \<and> claimOrg cx \<noteq> tc_DefaultOrgID cfg then org_ID org = claimOrg cx
      else if platformAdmin cfg cx \<and> trimSpace (cx_header cx ''X-Org-Id'') \<noteq> []
        then org_ID org = trimSpace (cx_header cx ''X-Org-Id'')
      else tc_DefaultOrgFallback cfg \<and> org_ID org = tc_DefaultOrgID cfg)"

lemma resolve_sound:
  assumes "cacheOK st" and "resolveOrgFromRequest env cfg cx st = (Inr org, st')"
  shows "requestedOrg cfg cx org"
  using assms(2) ByID_sound [OF assms(1)] BySlug_sound [OF assms(1)]
  unfolding resolveOrgFromRequest_def requestedOrg_def claimOrg_def Let_def
  by (fastforce split: if_splits prod.splits sum.splits)

lemma resolver_sound:
  assumes "cacheOK st" and "TenantResolver env cfg cx st = (Next cx', st')"
    and "\<not> isTenantSkipPath (cx_path cx)"
  shows "\<exists>org. cx_org cx' = Some org \<and> requestedOrg cfg cx org \<and> cx_bypassRLS cx' = cx_bypassRLS cx
     \<and> cx_roles cx' = cx_roles cx \<and> cx_userID cx' = cx_userID cx"
proof -
  obtain org st1 where r: "resolveOrgFromRequest env cfg cx st = (Inr org, st1)"
    and cx': "cx' = (if platformAdmin cfg cx then WithPlatformAdmin (orgctxWith cx org) else orgctxWith cx org)"
    using assms(2,3) unfolding TenantResolver_def Let_def
    by (auto split: prod.splits sum.splits tenant_error.splits)
  show ?thesis
    using resolve_sound [OF assms(1) r] by (simp add: cx' WithPlatformAdmin_def orgctxWith_def)
qed

subsection \<open>The pool\<close>

inductive rls_step :: "rls_pool \<Rightarrow> rls_pool \<Rightarrow> bool" where
  rls_acquire: "rp_open p c \<Longrightarrow> beforeAcquire f cx c p = (True, p') \<Longrightarrow> rls_step p p'"
| rls_discard: "rp_open p c \<Longrightarrow> beforeAcquire f cx c p = (False, p') \<Longrightarrow> rls_step p (beforeClose c p')"
| rls_close: "rp_open p c \<Longrightarrow> rls_step p (beforeClose c p)"
| rls_open: "\<not> rp_open p c \<Longrightarrow> rls_step p (openConn c p)"

inductive_cases rls_stepE: "rls_step p q"

definition rls_init :: "rls_pool \<Rightarrow> bool" where
  "rls_init p \<longleftrightarrow> (\<forall>c. \<not> rp_open p c \<and> rp_last p c = None)"

definition rls_inv :: "rls_pool \<Rightarrow> bool" where
  "rls_inv p \<longleftrightarrow> (\<forall>c s. rp_last p c = Some s \<longrightarrow> rp_open p c \<and> rp_guc p c = s)"

lemma beforeAcquire_inv:
  assumes "rls_inv p" and "rp_open p c" and "beforeAcquire f cx c p = (ok, p')"
  shows "rls_inv p' \<and> (ok \<longrightarrow> rp_guc p' c = rlsValuesFromContext cx)"
  using assms by (cases "rlsValuesFromContext cx")
    (auto simp: beforeAcquire_def rls_inv_def Let_def split: if_splits)

lemma beforeClose_inv: "rls_inv p \<Longrightarrow> rls_inv (beforeClose c p)"
  by (auto simp: beforeClose_def rls_inv_def)

lemma rls_step_inv: "rls_inv p \<Longrightarrow> rls_step p q \<Longrightarrow> rls_inv q"
  by (erule rls_stepE) (use beforeAcquire_inv beforeClose_inv in \<open>blast+\<close>, auto simp: openConn_def rls_inv_def)

interpretation rls: invariant_system rls_init rls_step rls_inv
  by unfold_locales (simp add: rls_init_def rls_inv_def, rule rls_step_inv)

lemma acquired_scope:
  assumes "reach rls_init rls_step p" and "rp_open p c" and "beforeAcquire f cx c p = (True, p')"
  shows "rp_guc p' c = rlsValuesFromContext cx"
  using beforeAcquire_inv [OF rls.reach_inv [OF assms(1)] assms(2,3)] by simp

lemma visible_scope:
  "visibleRows orgOf (i, ''off'') rows = filter (\<lambda>r. i \<noteq> [] \<and> orgOf r = i) rows"
  by (simp add: visibleRows_def rowVisible_def)


text \<open>Without an organisation and without the bypass a query sees nothing.\<close>

lemma no_org_no_rows:
  assumes "cx_org cx = None" and "\<not> cx_bypassRLS cx"
    and "reach rls_init rls_step p" and "rp_open p c" and "beforeAcquire f cx c p = (True, p')"
  shows "visibleRows orgOf (rp_guc p' c) rows = []"
  using acquired_scope [OF assms(3-5)] assms(1,2) by (simp add: rlsValuesFromContext_def visible_scope)

text \<open>
  The organisation of the token does not matter on the host of a tenant: behind the gateway, a
  request to that host is served in the tenant of the host, whatever organisation its token names.
\<close>

theorem host_overrides_token:
  assumes "base \<noteq> []" and "trimSpace (tenantLabel (cx_host cx) (''.'' @ toLower base)) \<noteq> []"
    and "TenantResolver env cfg (OrgSlugHeader base (cx\<lparr>cx_orgID := a\<rparr>)) st = (Next cx1, st1)"
    and "\<not> isTenantSkipPath (cx_path cx)" and "tc_PlatformAdmin cfg = Some SuperAdminPredicate"
  shows "TenantResolver env cfg (OrgSlugHeader base (cx\<lparr>cx_orgID := b\<rparr>)) st = (Next (cx1\<lparr>cx_orgID := b\<rparr>), st1)"
proof -
  let ?c = "\<lambda>v. OrgSlugHeader base (cx\<lparr>cx_orgID := v\<rparr>)"
  have slug: "trimSpace (cx_header (?c v) ''X-Org-Slug'') \<noteq> []" for v
    using assms(1,2) by (simp add: OrgSlugHeader_def Let_def)
  have same: "cx_header (?c a) ''X-Org-Slug'' = cx_header (?c b) ''X-Org-Slug''"
    by (simp add: OrgSlugHeader_def Let_def)
  have res: "resolveOrgFromRequest env cfg (?c a) st = resolveOrgFromRequest env cfg (?c b) st"
    unfolding resolveOrgFromRequest_def using slug same by (simp add: Let_def)
  have upd: "?c b = (?c a)\<lparr>cx_orgID := b\<rparr>" and path: "cx_path (?c v) = cx_path cx"
    and roles: "cx_roles (?c v) = cx_roles cx" for v
    by (simp_all add: OrgSlugHeader_def Let_def)
  have pa: "platformAdmin cfg (?c a) = platformAdmin cfg (?c b)"
    by (simp add: platformAdmin_def assms(5) SuperAdminPredicate_def roles)
  obtain org where r: "resolveOrgFromRequest env cfg (?c b) st = (Inr org, st1)"
    and cx1: "cx1 = (if platformAdmin cfg (?c b) then WithPlatformAdmin (orgctxWith (?c a) org) else orgctxWith (?c a) org)"
    using assms(3,4) unfolding TenantResolver_def Let_def path res pa
    by (auto split: prod.splits sum.splits tenant_error.splits)
  show "TenantResolver env cfg (?c b) st = (Next (cx1\<lparr>cx_orgID := b\<rparr>), st1)"
    using assms(4) unfolding TenantResolver_def path r
    by (simp add: Let_def cx1 upd WithPlatformAdmin_def orgctxWith_def)
qed
subsection \<open>Witnesses\<close>

definition demoTenantEnv :: tenant_env where
  "demoTenantEnv = \<lparr>te_now = 0, te_fails = (\<lambda>_. False)\<rparr>"

definition demoTenants :: tenant_state where
  "demoTenants = \<lparr>ts_orgs = [\<lparr>og_ID = ''1'', og_Slug = ''a'', og_Status = ''active'', og_settingsOK = True\<rparr>,
       \<lparr>og_ID = ''2'', og_Slug = ''b'', og_Status = ''active'', og_settingsOK = True\<rparr>],
     ts_cache = Map.empty, ts_audits = []\<rparr>"

definition demoTenantConfig :: TenantResolverConfig where
  "demoTenantConfig = \<lparr>tc_DefaultOrgFallback = False, tc_DefaultOrgID = ''0'',
     tc_PlatformAdmin = Some SuperAdminPredicate, tc_OnCrossOrg = Some (CrossOrgAuditor demoTenantEnv)\<rparr>"

definition demoContextOf :: "string \<Rightarrow> string option \<Rightarrow> gin_context" where
  "demoContextOf host claim = \<lparr>cx_path = ''/users'', cx_method = ''GET'', cx_host = host, cx_header = (\<lambda>_. []),
     cx_clientIP = [], cx_userID = Some ''u1'', cx_email = None, cx_name = None, cx_sessionID = None,
     cx_serviceAccountID = None, cx_apiKeyID = None, cx_scopes = None, cx_roles = Some [''admin''],
     cx_amr = None, cx_orgID = claim, cx_permissions = None, cx_org = None, cx_platformAdmin = False,
     cx_bypassRLS = False\<rparr>"

lemma demo_slug: "cx_header (OrgSlugHeader ''io'' (demoContextOf ''b.io'' claim)) ''X-Org-Slug'' = ''b''"
  by (simp add: OrgSlugHeader_def tenantLabel_def demoContextOf_def splitHost_def lastColon_def toLower_def
      toLowerChar_def isUpperAscii_def byteOf_def hasSuffix_def suffix_def Let_def)

lemma demo_resolved:
  "TenantResolver demoTenantEnv demoTenantConfig (OrgSlugHeader ''io'' (demoContextOf ''b.io'' claim)) demoTenants =
     (Next ((OrgSlugHeader ''io'' (demoContextOf ''b.io'' claim))\<lparr>cx_org := Some \<lparr>org_ID = ''2'', org_Slug = ''b''\<rparr>\<rparr>),
      demoTenants\<lparr>ts_cache := [slugKey ''b'' \<mapsto> (\<lparr>org_ID = ''2'', org_Slug = ''b''\<rparr>, orgCacheTTL)]\<rparr>)"
proof -
  let ?cx = "OrgSlugHeader ''io'' (demoContextOf ''b.io'' claim)"
  have cx: "cx_path ?cx = ''/users''" "cx_roles ?cx = Some [''admin'']"
    by (simp_all add: OrgSlugHeader_def demoContextOf_def Let_def)
  have "trimSpace ''b'' = ''b''" by (simp add: trimSpace_def asciiSpace_def byteOf_def)
  then have "resolveOrgFromRequest demoTenantEnv demoTenantConfig ?cx demoTenants =
    (Inr \<lparr>org_ID = ''2'', org_Slug = ''b''\<rparr>,
     demoTenants\<lparr>ts_cache := [slugKey ''b'' \<mapsto> (\<lparr>org_ID = ''2'', org_Slug = ''b''\<rparr>, orgCacheTTL)]\<rparr>)"
    by (simp add: resolveOrgFromRequest_def demo_slug BySlug_key cachedLookup_def fetchOrganization_def
        demoTenants_def demoTenantEnv_def wrapNotFound_def Let_def)
  then show ?thesis
    by (simp add: TenantResolver_def isTenantSkipPath_def tenantSkipPaths_def hasPrefix_def cx platformAdmin_def
        SuperAdminPredicate_def demoTenantConfig_def orgctxWith_def Let_def)
qed

definition demoPool :: rls_pool where
  "demoPool = openConn 0 \<lparr>rp_open = (\<lambda>_. False), rp_last = (\<lambda>_. None), rp_guc = (\<lambda>_. ([], []))\<rparr>"


theorem host_overrides_token_witness:
  "\<exists>cx'. fst (TenantResolver demoTenantEnv demoTenantConfig
        (OrgSlugHeader ''io'' ((demoContextOf ''b.io'' None)\<lparr>cx_orgID := Some ''1''\<rparr>)) demoTenants) = Next cx'
     \<and> cx_org cx' = Some \<lparr>org_ID = ''2'', org_Slug = ''b''\<rparr> \<and> cx_roles cx' = Some [''admin'']"
proof -
  have upd: "(demoContextOf ''b.io'' None)\<lparr>cx_orgID := v\<rparr> = demoContextOf ''b.io'' v" for v
    by (simp add: demoContextOf_def)
  have label: "trimSpace (tenantLabel (cx_host (demoContextOf ''b.io'' None)) (''.'' @ toLower ''io'')) \<noteq> []"
    using demo_slug [of None] by (simp add: OrgSlugHeader_def Let_def trimSpace_def asciiSpace_def byteOf_def)
  have skip: "\<not> isTenantSkipPath (cx_path (demoContextOf ''b.io'' None))"
    by (simp add: demoContextOf_def isTenantSkipPath_def tenantSkipPaths_def hasPrefix_def)
  have "tc_PlatformAdmin demoTenantConfig = Some SuperAdminPredicate" by (simp add: demoTenantConfig_def)
  note pred = this
  have base: "''io'' \<noteq> []" by simp
  have res: "TenantResolver demoTenantEnv demoTenantConfig
      (OrgSlugHeader ''io'' ((demoContextOf ''b.io'' None)\<lparr>cx_orgID := None\<rparr>)) demoTenants =
     (Next ((OrgSlugHeader ''io'' (demoContextOf ''b.io'' None))\<lparr>cx_org := Some \<lparr>org_ID = ''2'', org_Slug = ''b''\<rparr>\<rparr>),
      demoTenants\<lparr>ts_cache := [slugKey ''b'' \<mapsto> (\<lparr>org_ID = ''2'', org_Slug = ''b''\<rparr>, orgCacheTTL)]\<rparr>)"
    unfolding upd by (rule demo_resolved)
  show ?thesis
    unfolding host_overrides_token [OF base label res skip pred, of "Some ''1''"]
    by (simp add: OrgSlugHeader_def demoContextOf_def Let_def)
qed
end
