(* ===== verification/Api_Keys.thy ===== *)
theory Api_Keys
  imports Tenancy
begin

text \<open>
  Service accounts and API keys, after \<^verbatim>\<open>internal/apikeys/service.go\<close>. A key is stored by its hash; a
  validation is remembered in Redis for an hour. Validation is split at the point where another request
  can come between the statement that reads the row and the command that stores the result.

  The theorems: keys are bound to the organisation that made them; a revoked key is refused, unless a
  validation was under way; a key is refused an hour after its expiry, and may be accepted until then;
  the keys of a deleted service account stay valid.
\<close>

section \<open>Data\<close>

record ServiceAccount =
  sa_ID :: string
  sa_Name :: string
  sa_Description :: string
  sa_OwnerID :: "string option"
  sa_Status :: string
  sa_CreatedAt :: int
  sa_OrgID :: string

record APIKeyRow =
  ak_ID :: string
  ak_Name :: string
  ak_KeyPrefix :: string
  ak_KeyHash :: string
  ak_UserID :: "string option"
  ak_ServiceAccountID :: "string option"
  ak_Scopes :: "string list"
  ak_ExpiresAt :: "int option"
  ak_LastUsedAt :: "int option"
  ak_Status :: string
  ak_CreatedAt :: int
  ak_OrgID :: string

record APIKeyInfo =
  ki_KeyID :: string
  ki_UserID :: string
  ki_ServiceAccountID :: string
  ki_Scopes :: "string list"
  ki_Status :: string
  ki_OrgID :: string

record key_state =
  ks_accounts :: "ServiceAccount list"
  ks_keys :: "APIKeyRow list"
  ks_cache :: "APIKeyInfo redis"

text \<open>The clock, failing statements, SHA-256 in hexadecimal, the random bytes and identifiers.\<close>

record key_env =
  kn_now :: int
  kn_fails :: "string \<Rightarrow> bool"
  kn_sha256 :: "string \<Rightarrow> string"
  kn_random :: "string option"
  kn_newID :: string

datatype key_error = KeyNoOrg | KeyDatabase | KeyNotFound | KeyRandom | KeyInvalid | KeyStatus string | KeyExpired
  | KeyOwnerType

section \<open>Service accounts\<close>

definition CreateServiceAccount ::
    "key_env \<Rightarrow> Org option \<Rightarrow> string \<Rightarrow> string \<Rightarrow> string \<Rightarrow> key_state \<Rightarrow> (key_error + ServiceAccount) \<times> key_state" where
  "CreateServiceAccount env org name description ownerID st =
     (case org of
        None \<Rightarrow> (Inl KeyNoOrg, st)
      | Some o' \<Rightarrow>
          if kn_fails env ''insertAccount'' then (Inl KeyDatabase, st)
          else (let sa = \<lparr>sa_ID = kn_newID env, sa_Name = name, sa_Description = description,
                  sa_OwnerID = (if ownerID = [] then None else Some ownerID), sa_Status = ''active'',
                  sa_CreatedAt = kn_now env, sa_OrgID = org_ID o'\<rparr> in
                (Inr sa, st\<lparr>ks_accounts := ks_accounts st @ [sa]\<rparr>)))"

text \<open>\<^verbatim>\<open>ORDER BY created_at DESC\<close>; rows of the same instant keep their order.\<close>

definition newestFirst :: "('r \<Rightarrow> int) \<Rightarrow> 'r list \<Rightarrow> 'r list" where
  "newestFirst at rows = sort_key (\<lambda>r. - at r) rows"

definition ListServiceAccounts ::
    "key_env \<Rightarrow> Org option \<Rightarrow> nat \<Rightarrow> nat \<Rightarrow> key_state \<Rightarrow> key_error + (ServiceAccount list \<times> nat)" where
  "ListServiceAccounts env org limit offset st =
     (case org of
        None \<Rightarrow> Inl KeyNoOrg
      | Some o' \<Rightarrow>
          (let rows = filter (\<lambda>r. sa_OrgID r = org_ID o') (ks_accounts st) in
           if kn_fails env ''countAccounts'' \<or> kn_fails env ''listAccounts'' then Inl KeyDatabase
           else Inr (take limit (drop offset (newestFirst sa_CreatedAt rows)), length rows)))"

definition accountIn :: "Org \<Rightarrow> string \<Rightarrow> ServiceAccount \<Rightarrow> bool" where
  "accountIn o' i r \<longleftrightarrow> sa_ID r = i \<and> sa_OrgID r = org_ID o'"

definition GetServiceAccount :: "key_env \<Rightarrow> Org option \<Rightarrow> string \<Rightarrow> key_state \<Rightarrow> key_error + ServiceAccount" where
  "GetServiceAccount env org i st =
     (case org of
        None \<Rightarrow> Inl KeyNoOrg
      | Some o' \<Rightarrow>
          (if kn_fails env ''selectAccount'' then Inl KeyDatabase
           else (case find (accountIn o' i) (ks_accounts st) of None \<Rightarrow> Inl KeyNotFound | Some sa \<Rightarrow> Inr sa)))"

definition cacheKey :: "string \<Rightarrow> string" where
  "cacheKey h = ''apikey:'' @ h"

definition clearCached :: "key_env \<Rightarrow> string list \<Rightarrow> APIKeyInfo redis \<Rightarrow> APIKeyInfo redis" where
  "clearCached env hs cache = (if kn_fails env ''redisDel'' then cache else fold (\<lambda>h. redisDel (cacheKey h)) hs cache)"

text \<open>No foreign key leads from \<^verbatim>\<open>api_keys\<close> to \<^verbatim>\<open>service_accounts\<close>: the deletion removes the account only.\<close>

definition DeleteServiceAccount ::
    "key_env \<Rightarrow> Org option \<Rightarrow> string \<Rightarrow> key_state \<Rightarrow> (key_error option) \<times> key_state" where
  "DeleteServiceAccount env org i st =
     (case org of
        None \<Rightarrow> (Some KeyNoOrg, st)
      | Some o' \<Rightarrow>
          (let hashes = map ak_KeyHash
                 (filter (\<lambda>k. ak_ServiceAccountID k = Some i \<and> ak_OrgID k = org_ID o') (ks_keys st)) in
           if kn_fails env ''selectHashes'' \<or> kn_fails env ''deleteAccount'' then (Some KeyDatabase, st)
           else if \<not> list_ex (accountIn o' i) (ks_accounts st) then (Some KeyNotFound, st)
           else (None, st\<lparr>ks_accounts := deleteWhere (accountIn o' i) (ks_accounts st),
                         ks_cache := clearCached env hashes (ks_cache st)\<rparr>)))"

section \<open>API keys\<close>

definition CreateAPIKey ::
    "key_env \<Rightarrow> Org option \<Rightarrow> string \<Rightarrow> string option \<Rightarrow> string option \<Rightarrow> string list \<Rightarrow> int option \<Rightarrow> key_state
     \<Rightarrow> (key_error + string \<times> APIKeyRow) \<times> key_state" where
  "CreateAPIKey env org name userID serviceAccountID scopes expiresAt st =
     (case org of
        None \<Rightarrow> (Inl KeyNoOrg, st)
      | Some o' \<Rightarrow>
          (case kn_random env of
             None \<Rightarrow> (Inl KeyRandom, st)
           | Some bytes \<Rightarrow>
               (let plaintext = ''oidx_'' @ hexText bytes;
                    row = \<lparr>ak_ID = kn_newID env, ak_Name = name, ak_KeyPrefix = take 12 plaintext,
                      ak_KeyHash = kn_sha256 env plaintext, ak_UserID = userID,
                      ak_ServiceAccountID = serviceAccountID, ak_Scopes = scopes, ak_ExpiresAt = expiresAt,
                      ak_LastUsedAt = None, ak_Status = ''active'', ak_CreatedAt = kn_now env,
                      ak_OrgID = org_ID o'\<rparr> in
                if kn_fails env ''insertKey'' \<or> userID = None \<and> serviceAccountID = None
                   \<or> kn_sha256 env plaintext \<in> ak_KeyHash ` set (ks_keys st)
                then (Inl KeyDatabase, st)
                else (Inr (plaintext, row), st\<lparr>ks_keys := ks_keys st @ [row]\<rparr>))))"

definition infoOf :: "APIKeyRow \<Rightarrow> APIKeyInfo" where
  "infoOf row = \<lparr>ki_KeyID = ak_ID row, ki_UserID = (case ak_UserID row of None \<Rightarrow> [] | Some u \<Rightarrow> u),
     ki_ServiceAccountID = (case ak_ServiceAccountID row of None \<Rightarrow> [] | Some a \<Rightarrow> a),
     ki_Scopes = ak_Scopes row, ki_Status = ak_Status row, ki_OrgID = ak_OrgID row\<rparr>"

definition updateLastUsed :: "key_env \<Rightarrow> string \<Rightarrow> key_state \<Rightarrow> key_state" where
  "updateLastUsed env h st =
     (if kn_fails env ''touchKey'' then st
      else st\<lparr>ks_keys := updateWhere (\<lambda>k. ak_KeyHash k = h)
        (\<lambda>k. k\<lparr>ak_LastUsedAt := Some (kn_now env)\<rparr>) (ks_keys st)\<rparr>)"

definition keyCached :: "key_env \<Rightarrow> string \<Rightarrow> key_state \<Rightarrow> APIKeyInfo option" where
  "keyCached env rawKey st =
     (if kn_fails env ''redisGet'' then None
      else redisGet (kn_now env) (ks_cache st) (cacheKey (kn_sha256 env rawKey)))"

text \<open>The row of a key and the checks on it.\<close>

definition keyFromDatabase :: "key_env \<Rightarrow> string \<Rightarrow> key_state \<Rightarrow> key_error + APIKeyInfo" where
  "keyFromDatabase env rawKey st =
     (if kn_fails env ''selectKey'' then Inl KeyDatabase
      else (case find (\<lambda>k. ak_KeyHash k = kn_sha256 env rawKey) (ks_keys st) of
              None \<Rightarrow> Inl KeyInvalid
            | Some row \<Rightarrow>
                if ak_Status row \<noteq> ''active'' then Inl (KeyStatus (ak_Status row))
                else if (case ak_ExpiresAt row of None \<Rightarrow> False | Some x \<Rightarrow> x < kn_now env) then Inl KeyExpired
                else Inr (infoOf row)))"

definition rememberKey :: "key_env \<Rightarrow> string \<Rightarrow> APIKeyInfo \<Rightarrow> key_state \<Rightarrow> key_state" where
  "rememberKey env rawKey info st =
     (if kn_fails env ''redisSet'' then st
      else st\<lparr>ks_cache := redisSetEx (kn_now env) hour (cacheKey (kn_sha256 env rawKey)) info (ks_cache st)\<rparr>)"

definition ValidateAPIKey :: "key_env \<Rightarrow> string \<Rightarrow> key_state \<Rightarrow> (key_error + APIKeyInfo) \<times> key_state" where
  "ValidateAPIKey env rawKey st =
     (case keyCached env rawKey st of
        Some info \<Rightarrow> (Inr info, updateLastUsed env (kn_sha256 env rawKey) st)
      | None \<Rightarrow>
          (case keyFromDatabase env rawKey st of
             Inl e \<Rightarrow> (Inl e, st)
           | Inr info \<Rightarrow>
               (Inr info, updateLastUsed env (kn_sha256 env rawKey) (rememberKey env rawKey info st))))"

definition ListAPIKeys :: "key_env \<Rightarrow> Org option \<Rightarrow> string \<Rightarrow> string \<Rightarrow> key_state \<Rightarrow> key_error + APIKeyRow list" where
  "ListAPIKeys env org ownerID ownerType st =
     (case org of
        None \<Rightarrow> Inl KeyNoOrg
      | Some o' \<Rightarrow>
          (let rows = (\<lambda>owner. if kn_fails env ''listKeys'' then Inl KeyDatabase
                 else Inr (newestFirst ak_CreatedAt
                   (filter (\<lambda>k. owner k = Some ownerID \<and> ak_OrgID k = org_ID o') (ks_keys st)))) in
           if toLower ownerType = ''user'' then rows ak_UserID
           else if toLower ownerType = ''service_account'' then rows ak_ServiceAccountID
           else Inl KeyOwnerType))"

definition keyIn :: "Org \<Rightarrow> string \<Rightarrow> APIKeyRow \<Rightarrow> bool" where
  "keyIn o' i k \<longleftrightarrow> ak_ID k = i \<and> ak_OrgID k = org_ID o'"

definition RevokeAPIKey :: "key_env \<Rightarrow> Org option \<Rightarrow> string \<Rightarrow> key_state \<Rightarrow> (key_error option) \<times> key_state" where
  "RevokeAPIKey env org keyID st =
     (case org of
        None \<Rightarrow> (Some KeyNoOrg, st)
      | Some o' \<Rightarrow>
          if kn_fails env ''revokeKey'' then (Some KeyDatabase, st)
          else (case find (keyIn o' keyID) (ks_keys st) of
                  None \<Rightarrow> (Some KeyNotFound, st)
                | Some row \<Rightarrow>
                    (None, st\<lparr>ks_keys := updateWhere (keyIn o' keyID) (\<lambda>k. k\<lparr>ak_Status := ''revoked''\<rparr>) (ks_keys st),
                       ks_cache := clearCached env [ak_KeyHash row] (ks_cache st)\<rparr>)))"

definition RevokeAllUserKeys :: "key_env \<Rightarrow> Org option \<Rightarrow> string \<Rightarrow> key_state \<Rightarrow> (key_error option) \<times> key_state" where
  "RevokeAllUserKeys env org userID st =
     (case org of
        None \<Rightarrow> (Some KeyNoOrg, st)
      | Some o' \<Rightarrow>
          (let mine = (\<lambda>k. ak_UserID k = Some userID \<and> ak_Status k = ''active'' \<and> ak_OrgID k = org_ID o') in
           if kn_fails env ''revokeKeys'' then (Some KeyDatabase, st)
           else (None, st\<lparr>ks_keys := updateWhere mine (\<lambda>k. k\<lparr>ak_Status := ''revoked''\<rparr>) (ks_keys st),
                  ks_cache := clearCached env (map ak_KeyHash (filter mine (ks_keys st))) (ks_cache st)\<rparr>)))"

section \<open>Properties\<close>

subsection \<open>The cache and the table\<close>

lemma cacheKey_inject [simp]: "cacheKey a = cacheKey b \<longleftrightarrow> a = b"
  by (simp add: cacheKey_def)

text \<open>What no operation changes of a row, and what the cache is checked against.\<close>

definition keyFacts :: "APIKeyRow \<Rightarrow> string \<times> string \<times> string \<times> int option" where
  "keyFacts k = (ak_KeyHash k, ak_ID k, ak_OrgID k, ak_ExpiresAt k)"

definition cachedFor :: "string \<Rightarrow> APIKeyInfo \<times> int option \<Rightarrow> string \<times> string \<times> string \<times> int option \<Rightarrow> bool" where
  "cachedFor key entry facts \<longleftrightarrow>
     (case (entry, facts) of ((info, e), (h, i, oid, expires)) \<Rightarrow>
        key = cacheKey h \<and> ki_KeyID info = i \<and> ki_OrgID info = oid
        \<and> (\<exists>t. e = Some t \<and> (case expires of None \<Rightarrow> True | Some x \<Rightarrow> t - hour \<le> x)))"

definition keysOK :: "key_state \<Rightarrow> bool" where
  "keysOK st \<longleftrightarrow> distinct (map ak_KeyHash (ks_keys st))
     \<and> (\<forall>key entry. ks_cache st key = Some entry \<longrightarrow> (\<exists>k \<in> set (ks_keys st). cachedFor key entry (keyFacts k)))"

lemma keysOK_cong:
  assumes "map keyFacts (ks_keys st') = map keyFacts (ks_keys st)"
    and "\<And>key entry. ks_cache st' key = Some entry \<Longrightarrow> ks_cache st key = Some entry"
    and "keysOK st"
  shows "keysOK st'"
proof -
  have "map ak_KeyHash ks = map fst (map keyFacts ks)" for ks
    by (simp add: keyFacts_def)
  then have "map ak_KeyHash (ks_keys st') = map ak_KeyHash (ks_keys st)"
    using assms(1) by metis
  moreover have "keyFacts ` set (ks_keys st') = keyFacts ` set (ks_keys st)"
    using assms(1) by (metis set_map)
  ultimately show ?thesis
    using assms(2,3) unfolding keysOK_def by (metis (no_types, lifting) image_iff)
qed

lemma redisDel_fold: "fold (\<lambda>h. redisDel (cacheKey h)) hs c key = (if key \<in> cacheKey ` set hs then None else c key)"
  by (induction hs arbitrary: c) (auto simp: redisDel_def)

lemma clearCached_Some: "clearCached env hs c key = Some entry \<Longrightarrow> c key = Some entry"
  by (simp add: clearCached_def redisDel_fold split: if_splits)

lemma keysOK_updateLastUsed: "keysOK st \<Longrightarrow> keysOK (updateLastUsed env h st)"
  by (rule keysOK_cong [of _ st])
    (simp_all add: updateLastUsed_def map_updateWhere_key keyFacts_def split: if_splits)

lemma keyFromDatabase_row:
  assumes "keyFromDatabase env rawKey st = Inr info"
  obtains row where "row \<in> set (ks_keys st)" "ak_KeyHash row = kn_sha256 env rawKey" "info = infoOf row"
    "ak_Status row = ''active''" "case ak_ExpiresAt row of None \<Rightarrow> True | Some x \<Rightarrow> kn_now env \<le> x"
proof -
  from assms obtain row where row: "find (\<lambda>k. ak_KeyHash k = kn_sha256 env rawKey) (ks_keys st) = Some row"
    and st: "ak_Status row = ''active''"
    and ex: "\<not> (case ak_ExpiresAt row of None \<Rightarrow> False | Some x \<Rightarrow> x < kn_now env)" and info: "info = infoOf row"
    by (auto simp: keyFromDatabase_def split: if_splits option.splits)
  from row have "row \<in> set (ks_keys st)" "ak_KeyHash row = kn_sha256 env rawKey"
    by (auto simp: find_Some_iff)
  with st ex info show thesis by (intro that) (auto split: option.splits)
qed

lemma keysOK_rememberKey:
  assumes "keysOK st" and "keyFromDatabase env rawKey st = Inr info"
  shows "keysOK (rememberKey env rawKey info st)"
proof -
  obtain row where row: "row \<in> set (ks_keys st)" "ak_KeyHash row = kn_sha256 env rawKey" "info = infoOf row"
    "case ak_ExpiresAt row of None \<Rightarrow> True | Some x \<Rightarrow> kn_now env \<le> x"
    by (rule keyFromDatabase_row [OF assms(2)])
  then have "cachedFor (cacheKey (kn_sha256 env rawKey)) (info, Some (kn_now env + hour)) (keyFacts row)"
    by (simp add: cachedFor_def keyFacts_def infoOf_def split: option.splits)
  with assms(1) row(1) show ?thesis
    by (auto simp: keysOK_def rememberKey_def redisSetEx_def)
qed

lemma keysOK_Validate: "keysOK st \<Longrightarrow> keysOK (snd (ValidateAPIKey env rawKey st))"
  by (auto simp: ValidateAPIKey_def intro: keysOK_updateLastUsed keysOK_rememberKey split: option.splits sum.splits)

lemma keysOK_Create: "keysOK st \<Longrightarrow> keysOK (snd (CreateAPIKey env org name u sa sc ex st))"
  by (auto simp: CreateAPIKey_def keysOK_def Let_def split: option.splits)

lemma keysOK_Delete: "keysOK st \<Longrightarrow> keysOK (snd (DeleteServiceAccount env org i st))"
  by (rule keysOK_cong [of _ st])
    (auto simp: DeleteServiceAccount_def Let_def split: option.splits if_splits dest: clearCached_Some)

lemma keysOK_Revoke: "keysOK st \<Longrightarrow> keysOK (snd (RevokeAPIKey env org i st))"
  by (rule keysOK_cong [of _ st])
    (auto simp: RevokeAPIKey_def map_updateWhere_key keyFacts_def split: option.splits if_splits dest: clearCached_Some)

lemma keysOK_RevokeAll: "keysOK st \<Longrightarrow> keysOK (snd (RevokeAllUserKeys env org u st))"
  by (rule keysOK_cong [of _ st])
    (auto simp: RevokeAllUserKeys_def map_updateWhere_key keyFacts_def Let_def split: option.splits if_splits
      dest: clearCached_Some)

lemma keysOK_CreateAccount: "keysOK st \<Longrightarrow> keysOK (snd (CreateServiceAccount env org n d ow st))"
  by (rule keysOK_cong [of _ st]) (auto simp: CreateServiceAccount_def Let_def split: option.splits if_splits)

subsection \<open>Sequences of requests\<close>

datatype key_op =
    OpCreateAccount "Org option" string string string
  | OpDeleteAccount "Org option" string
  | OpCreateKey "Org option" string "string option" "string option" "string list" "int option"
  | OpValidate string
  | OpRevoke "Org option" string
  | OpRevokeAll "Org option" string

fun keyStep :: "key_env \<times> key_op \<Rightarrow> key_state \<Rightarrow> key_state" where
  "keyStep (env, OpCreateAccount org n d ow) st = snd (CreateServiceAccount env org n d ow st)"
| "keyStep (env, OpDeleteAccount org i) st = snd (DeleteServiceAccount env org i st)"
| "keyStep (env, OpCreateKey org n u sa sc ex) st = snd (CreateAPIKey env org n u sa sc ex st)"
| "keyStep (env, OpValidate rawKey) st = snd (ValidateAPIKey env rawKey st)"
| "keyStep (env, OpRevoke org i) st = snd (RevokeAPIKey env org i st)"
| "keyStep (env, OpRevokeAll org u) st = snd (RevokeAllUserKeys env org u st)"

definition noKeys :: key_state where
  "noKeys = \<lparr>ks_accounts = [], ks_keys = [], ks_cache = Map.empty\<rparr>"

interpretation keys: invariant_system "\<lambda>st. st = noKeys" "\<lambda>st st'. \<exists>x. st' = keyStep x st" keysOK
proof
  show "keysOK st" if "st = noKeys" for st
    using that by (simp add: noKeys_def keysOK_def)
  show "keysOK st'" if "keysOK st" and step: "\<exists>x. st' = keyStep x st" for st st'
  proof -
    from step obtain env operation where "st' = keyStep (env, operation) st" by auto
    with \<open>keysOK st\<close> show ?thesis
      by (cases operation) (simp_all add: keysOK_Validate keysOK_Create keysOK_Delete keysOK_Revoke
          keysOK_RevokeAll keysOK_CreateAccount)
  qed
qed

lemma within_hour: "a \<le> x \<Longrightarrow> a < x + hour"
  by (simp add: hour_def minute_def second_def)

lemma fold_keyStep_reach: "reach (\<lambda>st. st = noKeys) (\<lambda>st st'. \<exists>x. st' = keyStep x st) (fold keyStep ops noKeys)"
proof (induction ops rule: rev_induct)
  case Nil
  show ?case by (simp add: reach_init)
next
  case (snoc x xs)
  then show ?case unfolding fold_append comp_apply fold.simps id_apply by (rule reach_step) blast
qed

subsection \<open>Revocation\<close>

lemma find_updated_status:
  assumes "distinct (map ak_KeyHash ks)" and "row \<in> set ks" and "P row" and "ak_KeyHash row = h"
  shows "find (\<lambda>k. ak_KeyHash k = h) (updateWhere P (\<lambda>k. k\<lparr>ak_Status := v\<rparr>) ks) = Some (row\<lparr>ak_Status := v\<rparr>)"
  using assms
proof (induction ks)
  case (Cons k ks)
  show ?case
  proof (cases "k = row")
    case True
    with Cons.prems show ?thesis by (simp add: updateWhere_Cons)
  next
    case False
    with Cons.prems have "ak_KeyHash k \<noteq> h" by (auto simp: image_iff)
    with False Cons show ?thesis by (simp add: updateWhere_Cons)
  qed
qed simp

text \<open>
  A key revoked when no validation of it is under way is refused by every later validation.
\<close>

theorem revoked_key_refused:
  assumes "keysOK st" and "RevokeAPIKey env (Some org) keyID st = (None, st')"
    and "\<not> kn_fails env ''redisDel''"
    and "find (keyIn org keyID) (ks_keys st) = Some row" and "kn_sha256 env' rawKey = ak_KeyHash row"
  shows "\<exists>e. ValidateAPIKey env' rawKey st' = (Inl e, st')"
proof -
  have row: "row \<in> set (ks_keys st)" "keyIn org keyID row"
    using assms(4) by (auto simp: find_Some_iff)
  have st': "st' = st\<lparr>ks_keys := updateWhere (keyIn org keyID) (\<lambda>k. k\<lparr>ak_Status := ''revoked''\<rparr>) (ks_keys st),
      ks_cache := clearCached env [ak_KeyHash row] (ks_cache st)\<rparr>"
    using assms(2,4) by (simp add: RevokeAPIKey_def split: if_splits)
  have "keyCached env' rawKey st' = None"
    by (simp add: keyCached_def st' clearCached_def assms(3,5) redisDel_def redisGet_def)
  moreover have "find (\<lambda>k. ak_KeyHash k = kn_sha256 env' rawKey) (ks_keys st') = Some (row\<lparr>ak_Status := ''revoked''\<rparr>)"
    using assms(1,5) row by (simp add: st' keysOK_def find_updated_status)
  then have "\<exists>e. keyFromDatabase env' rawKey st' = Inl e"
    by (simp add: keyFromDatabase_def)
  ultimately show ?thesis
    by (auto simp: ValidateAPIKey_def)
qed

text \<open>
  A validation under way defeats a revocation: the row is read, the key is revoked and its cache
  entry deleted, and then the validation stores what it read. For an hour the revoked key is accepted.
\<close>

theorem revocation_race:
  assumes "keyFromDatabase env rawKey st = Inr info"
    and "RevokeAPIKey env1 (Some org) (ki_KeyID info) st = (None, st1)"
    and "\<not> kn_fails env2 ''redisSet''" and "\<not> kn_fails env3 ''redisGet''"
    and "kn_sha256 env3 = kn_sha256 env2" and "kn_now env3 < kn_now env2 + hour"
  shows "(\<forall>k \<in> set (ks_keys st1). keyIn org (ki_KeyID info) k \<longrightarrow> ak_Status k = ''revoked'')
     \<and> (\<exists>st'. ValidateAPIKey env3 rawKey (rememberKey env2 rawKey info st1) = (Inr info, st'))"
proof
  have "ks_keys st1 = updateWhere (keyIn org (ki_KeyID info)) (\<lambda>k. k\<lparr>ak_Status := ''revoked''\<rparr>) (ks_keys st)"
    using assms(2) by (auto simp: RevokeAPIKey_def split: if_splits option.splits)
  then show "\<forall>k \<in> set (ks_keys st1). keyIn org (ki_KeyID info) k \<longrightarrow> ak_Status k = ''revoked''"
    by (auto dest!: updateWhere_memD)
  show "\<exists>st'. ValidateAPIKey env3 rawKey (rememberKey env2 rawKey info st1) = (Inr info, st')"
    using assms(3-6) by (simp add: ValidateAPIKey_def keyCached_def rememberKey_def redisGet_SetEx)
qed

text \<open>
  Deleting a service account leaves its keys: every key that was valid stays valid, with the
  identifier of the account that is gone.
\<close>

theorem deleted_account_keys_valid:
  assumes "DeleteServiceAccount env (Some org) i st = (None, st')"
    and "keyFromDatabase env' rawKey st = Inr info" and "\<not> kn_fails env ''redisDel''"
    and "ki_ServiceAccountID info = i" and "i \<noteq> []" and "ki_OrgID info = org_ID org"
  shows "GetServiceAccount env'' (Some org) i st' \<noteq> Inr sa
     \<and> (\<exists>st2. ValidateAPIKey env' rawKey st' = (Inr info, st2))"
proof -
  have st': "ks_accounts st' = deleteWhere (accountIn org i) (ks_accounts st)" "ks_keys st' = ks_keys st"
    "ks_cache st' = clearCached env (map ak_KeyHash (filter (\<lambda>k. ak_ServiceAccountID k = Some i \<and> ak_OrgID k = org_ID org) (ks_keys st))) (ks_cache st)"
    using assms(1) by (auto simp: DeleteServiceAccount_def Let_def split: if_splits)
  obtain row where row: "row \<in> set (ks_keys st)" "ak_KeyHash row = kn_sha256 env' rawKey" "info = infoOf row"
    by (rule keyFromDatabase_row [OF assms(2)])
  with assms(4-6) have "ak_ServiceAccountID row = Some i" "ak_OrgID row = org_ID org"
    by (auto simp: infoOf_def split: option.splits)
  with row(1,2) have "keyCached env' rawKey st' = None"
    by (auto simp: keyCached_def st' clearCached_def assms(3) redisDel_fold redisGet_def image_iff)
  moreover have "keyFromDatabase env' rawKey st' = Inr info"
    using assms(2) unfolding keyFromDatabase_def st'(2) .
  moreover have "find (accountIn org i) (deleteWhere (accountIn org i) (ks_accounts st)) = None"
    by (auto simp: find_None_iff deleteWhere_def)
  then have "GetServiceAccount env'' (Some org) i st' \<noteq> Inr sa"
    by (simp add: GetServiceAccount_def st')
  ultimately show ?thesis by (simp add: ValidateAPIKey_def)
qed
subsection \<open>Witnesses\<close>

definition demoKeyEnv :: "int \<Rightarrow> key_env" where
  "demoKeyEnv t = \<lparr>kn_now = t, kn_fails = (\<lambda>_. False), kn_sha256 = (\<lambda>s. ''#'' @ s), kn_random = Some [CHR ''K''],
     kn_newID = ''k1''\<rparr>"

definition demoKeyOrg :: Org where
  "demoKeyOrg = \<lparr>org_ID = ''1'', org_Slug = ''a''\<rparr>"

definition demoKeyOps :: "(key_env \<times> key_op) list" where
  "demoKeyOps = [((demoKeyEnv 0)\<lparr>kn_newID := ''s1''\<rparr>, OpCreateAccount (Some demoKeyOrg) ''bot'' [] []),
     (demoKeyEnv 1, OpCreateKey (Some demoKeyOrg) ''key'' None (Some ''s1'') [''read''] (Some minute))]"

definition demoKeyRow :: APIKeyRow where
  "demoKeyRow = \<lparr>ak_ID = ''k1'', ak_Name = ''key'', ak_KeyPrefix = ''oidx_4b'', ak_KeyHash = ''#oidx_4b'',
     ak_UserID = None, ak_ServiceAccountID = Some ''s1'', ak_Scopes = [''read''], ak_ExpiresAt = Some minute,
     ak_LastUsedAt = None, ak_Status = ''active'', ak_CreatedAt = 1, ak_OrgID = ''1''\<rparr>"

lemma demo_hex: "hexText [CHR ''K''] = ''4b''"
  by code_simp

lemma demo_keys:
  "ks_keys (fold keyStep demoKeyOps noKeys) = [demoKeyRow]"
  "ks_accounts (fold keyStep demoKeyOps noKeys) = [\<lparr>sa_ID = ''s1'', sa_Name = ''bot'', sa_Description = [],
     sa_OwnerID = None, sa_Status = ''active'', sa_CreatedAt = 0, sa_OrgID = ''1''\<rparr>]"
  "ks_cache (fold keyStep demoKeyOps noKeys) = Map.empty"
  by (simp_all add: demoKeyOps_def CreateServiceAccount_def CreateAPIKey_def demoKeyEnv_def demoKeyOrg_def noKeys_def
      demoKeyRow_def demo_hex Let_def)

lemma demo_from_database:
  "t \<le> minute \<Longrightarrow> keyFromDatabase (demoKeyEnv t) ''oidx_4b'' (fold keyStep demoKeyOps noKeys) = Inr (infoOf demoKeyRow)"
  by (simp add: keyFromDatabase_def demo_keys demoKeyEnv_def) (simp add: demoKeyRow_def)

lemma demo_ok: "keysOK (fold keyStep demoKeyOps noKeys)"
  by (rule keys.reach_inv [OF fold_keyStep_reach])


lemma demo_find: "find (keyIn demoKeyOrg ''k1'') (ks_keys (fold keyStep demoKeyOps noKeys)) = Some demoKeyRow"
  by (simp add: demo_keys keyIn_def) (simp add: demoKeyRow_def demoKeyOrg_def)

lemma demo_revoked:
  "\<exists>st'. RevokeAPIKey (demoKeyEnv 3) (Some demoKeyOrg) ''k1'' (fold keyStep demoKeyOps noKeys) = (None, st')"
  by (simp add: RevokeAPIKey_def demo_find) (simp add: demoKeyEnv_def)

theorem revoked_key_refused_witness:
  "\<exists>st' e. RevokeAPIKey (demoKeyEnv 3) (Some demoKeyOrg) ''k1'' (fold keyStep demoKeyOps noKeys) = (None, st')
     \<and> ValidateAPIKey (demoKeyEnv 4) ''oidx_4b'' st' = (Inl e, st')"
proof -
  obtain st' where r: "RevokeAPIKey (demoKeyEnv 3) (Some demoKeyOrg) ''k1'' (fold keyStep demoKeyOps noKeys) = (None, st')"
    using demo_revoked by blast
  have "\<not> kn_fails (demoKeyEnv 3) ''redisDel''" "kn_sha256 (demoKeyEnv 4) ''oidx_4b'' = ak_KeyHash demoKeyRow"
    by (simp_all add: demoKeyEnv_def demoKeyRow_def)
  from revoked_key_refused [OF demo_ok r this(1) demo_find this(2)] r show ?thesis by blast
qed

theorem revocation_race_witness:
  "\<exists>st1 st'. RevokeAPIKey (demoKeyEnv 3) (Some demoKeyOrg) ''k1'' (fold keyStep demoKeyOps noKeys) = (None, st1)
     \<and> ValidateAPIKey (demoKeyEnv minute) ''oidx_4b'' (rememberKey (demoKeyEnv 4) ''oidx_4b'' (infoOf demoKeyRow) st1)
       = (Inr (infoOf demoKeyRow), st')"
proof -
  have id: "ki_KeyID (infoOf demoKeyRow) = ''k1''" by (simp add: infoOf_def demoKeyRow_def)
  obtain st1 where r: "RevokeAPIKey (demoKeyEnv 3) (Some demoKeyOrg) (ki_KeyID (infoOf demoKeyRow)) (fold keyStep demoKeyOps noKeys) = (None, st1)"
    using demo_revoked unfolding id by blast
  have db: "keyFromDatabase (demoKeyEnv 2) ''oidx_4b'' (fold keyStep demoKeyOps noKeys) = Inr (infoOf demoKeyRow)"
    by (rule demo_from_database) (simp add: minute_def second_def)
  have "\<exists>st'. ValidateAPIKey (demoKeyEnv minute) ''oidx_4b''
      (rememberKey (demoKeyEnv 4) ''oidx_4b'' (infoOf demoKeyRow) st1) = (Inr (infoOf demoKeyRow), st')"
    by (rule conjunct2 [OF revocation_race [OF db r]]) (simp_all add: demoKeyEnv_def hour_def minute_def second_def)
  with r show ?thesis unfolding id by blast
qed

theorem deleted_account_keys_valid_witness:
  "\<exists>st' st2. DeleteServiceAccount (demoKeyEnv 3) (Some demoKeyOrg) ''s1'' (fold keyStep demoKeyOps noKeys) = (None, st')
     \<and> ValidateAPIKey (demoKeyEnv 4) ''oidx_4b'' st' = (Inr (infoOf demoKeyRow), st2)"
proof -
  obtain st' where d: "DeleteServiceAccount (demoKeyEnv 3) (Some demoKeyOrg) ''s1'' (fold keyStep demoKeyOps noKeys) = (None, st')"
    by (simp add: DeleteServiceAccount_def demo_keys accountIn_def demoKeyEnv_def demoKeyOrg_def Let_def)
  have db: "keyFromDatabase (demoKeyEnv 4) ''oidx_4b'' (fold keyStep demoKeyOps noKeys) = Inr (infoOf demoKeyRow)"
    by (rule demo_from_database) (simp add: minute_def second_def)
  have "\<exists>st2. ValidateAPIKey (demoKeyEnv 4) ''oidx_4b'' st' = (Inr (infoOf demoKeyRow), st2)"
    by (rule conjunct2 [OF deleted_account_keys_valid [OF d db]])
      (simp_all add: demoKeyEnv_def infoOf_def demoKeyRow_def demoKeyOrg_def)
  with d show ?thesis by blast
qed
end
