(* ===== verification/Request_Auth.thy ===== *)
theory Request_Auth
  imports OAuth_Jwt Pwhash Api_Keys "HOL-Library.Char_ord" "HOL-Library.List_Lexorder" "HOL-Library.Multiset"
begin

text \<open>
  Who a request is: the key set and its cache, bearer tokens and API keys, roles and permissions
  (\<^verbatim>\<open>internal/common/middleware/middleware.go\<close>), the identity service's own variant
  (\<^verbatim>\<open>internal/identity/service.go\<close>), and the chains in which \<^verbatim>\<open>cmd/admin-api/main.go\<close> and the identity
  service put them together with the tenant resolver of \<open>Tenancy\<close>.

  Parsing a token, checking its signature and the time checks of the JWT library are parameters; the
  claims are those \<open>OAuth_Jwt\<close> issues, with lists of strings.

  The theorems: a bearer is let through only with a signature by a key that the issuer published, at
  most the stale period ago; tokens stay verifiable through an outage for that long and no longer;
  what a permission check grants; delegated permissions leak to users of the same roles; the administration
  interface takes permissions from the default organisation and serves users of every organisation in it.
\<close>

section \<open>The key set\<close>

record JWKSKey =
  jk_Kid :: string
  jk_Kty :: string
  jk_Use :: string
  jk_N :: string
  jk_E :: string

type_synonym rsa_key = "int \<times> int"

text \<open>\<^verbatim>\<open>base64.RawURLEncoding.DecodeString\<close>.\<close>

definition rawURLDecode :: "string \<Rightarrow> string option" where
  "rawURLDecode s =
     (if CHR ''+'' \<in> set s \<or> CHR ''/'' \<in> set s then None
      else rawB64Decode (map (\<lambda>c. if c = CHR ''-'' then CHR ''+'' else if c = CHR ''_'' then CHR ''/'' else c) s))"

definition bytesToInt :: "string \<Rightarrow> int" where
  "bytesToInt bs = foldl (\<lambda>n c. n * 256 + int (byteOf c)) 0 bs"

text \<open>The exponent is shifted into a machine integer.\<close>

definition bytesToExponent :: "string \<Rightarrow> int" where
  "bytesToExponent bs = sint (foldl (\<lambda>e c. push_bit 8 e + of_nat (byteOf c)) (0 :: 64 word) bs)"

definition parseRSAPublicKey :: "string \<Rightarrow> string \<Rightarrow> rsa_key option" where
  "parseRSAPublicKey nStr eStr =
     (case (rawURLDecode nStr, rawURLDecode eStr) of
        (Some n, Some e) \<Rightarrow> Some (bytesToInt n, bytesToExponent e)
      | _ \<Rightarrow> None)"

record jwks_cache =
  jc_keys :: "(string \<times> rsa_key) list"
  jc_expiresAt :: int
  jc_lastOK :: "int option"

text \<open>
  What lies outside: the clock, the answer of the key set endpoint (\<open>None\<close> when it cannot be fetched or
  decoded), which key of a map an iteration starts with, the JWT library, and failing statements.
\<close>

record jwt =
  jt_alg :: "string option"
  jt_rsa :: bool
  jt_kid :: "string option"
  jt_claims :: claims

record auth_env =
  ra_now :: int
  ra_fails :: "string \<Rightarrow> bool"
  ra_jwks :: "JWKSKey list option"
  ra_ttl :: int
  ra_maxStale :: int
  ra_pick :: nat
  ra_parse :: "string \<Rightarrow> jwt option"
  ra_verifies :: "rsa_key \<Rightarrow> string \<Rightarrow> bool"
  ra_timely :: "int \<Rightarrow> claims \<Rightarrow> bool"
  ra_redis :: bool
  ra_keyEnv :: key_env
  ra_issuer :: string

definition putKey :: "string \<Rightarrow> rsa_key \<Rightarrow> (string \<times> rsa_key) list \<Rightarrow> (string \<times> rsa_key) list" where
  "putKey kid k ks = (kid, k) # filter (\<lambda>(i, _). i \<noteq> kid) ks"

fun collectKeys :: "JWKSKey list \<Rightarrow> (string \<times> rsa_key) list \<Rightarrow> (string \<times> rsa_key) list" where
  "collectKeys [] ks = ks"
| "collectKeys (j # js) ks =
     collectKeys js
       (if jk_Kty j \<noteq> ''RSA'' \<or> jk_Use j \<noteq> ''sig'' then ks
        else (case parseRSAPublicKey (jk_N j) (jk_E j) of
                None \<Rightarrow> ks
              | Some k \<Rightarrow> putKey (jk_Kid j) k ks))"

definition fetchJWKS :: "auth_env \<Rightarrow> (string \<times> rsa_key) list option" where
  "fetchJWKS env =
     (case ra_jwks env of
        None \<Rightarrow> None
      | Some js \<Rightarrow> (let ks = collectKeys js [] in if ks = [] then None else Some ks))"

definition refreshJWKSLocked :: "auth_env \<Rightarrow> jwks_cache \<Rightarrow> jwks_cache option" where
  "refreshJWKSLocked env c =
     map_option (\<lambda>ks. c\<lparr>jc_keys := ks, jc_expiresAt := ra_now env + ra_ttl env, jc_lastOK := Some (ra_now env)\<rparr>)
       (fetchJWKS env)"

definition staleUsableLocked :: "auth_env \<Rightarrow> jwks_cache \<Rightarrow> bool" where
  "staleUsableLocked env c \<longleftrightarrow>
     jc_keys c \<noteq> [] \<and> jc_lastOK c \<noteq> None \<and> ra_now env - jc_expiresAt c \<le> ra_maxStale env"

definition getSigningKey :: "auth_env \<Rightarrow> string \<Rightarrow> jwks_cache \<Rightarrow> rsa_key option \<times> jwks_cache" where
  "getSigningKey env kid c =
     (if ra_now env < jc_expiresAt c \<and> map_of (jc_keys c) kid \<noteq> None then (map_of (jc_keys c) kid, c)
      else (case refreshJWKSLocked env c of
              None \<Rightarrow> (if staleUsableLocked env c then map_of (jc_keys c) kid else None, c)
            | Some c' \<Rightarrow> (map_of (jc_keys c') kid, c')))"

definition firstKey :: "auth_env \<Rightarrow> (string \<times> rsa_key) list \<Rightarrow> rsa_key option" where
  "firstKey env ks = (if ks = [] then None else Some (snd (ks ! (ra_pick env mod length ks))))"

definition getFirstSigningKey :: "auth_env \<Rightarrow> jwks_cache \<Rightarrow> rsa_key option \<times> jwks_cache" where
  "getFirstSigningKey env c =
     (if ra_now env < jc_expiresAt c \<and> jc_keys c \<noteq> [] then (firstKey env (jc_keys c), c)
      else (case refreshJWKSLocked env c of
              None \<Rightarrow> (if staleUsableLocked env c then firstKey env (jc_keys c) else None, c)
            | Some c' \<Rightarrow> (firstKey env (jc_keys c'), c')))"

section \<open>Bearer tokens\<close>

text \<open>\<^verbatim>\<open>jwt.Parse\<close> with a key function: the token parses, the function gives a key, the signature is by that
  key, and the library's time checks pass.\<close>

definition jwtParse ::
    "auth_env \<Rightarrow> (jwt \<Rightarrow> jwks_cache \<Rightarrow> rsa_key option \<times> jwks_cache) \<Rightarrow> string \<Rightarrow> jwks_cache
     \<Rightarrow> claims option \<times> jwks_cache" where
  "jwtParse env keyFunc tok c =
     (case ra_parse env tok of
        None \<Rightarrow> (None, c)
      | Some t \<Rightarrow>
          (case keyFunc t c of
             (None, c') \<Rightarrow> (None, c')
           | (Some k, c') \<Rightarrow>
               (if ra_verifies env k tok \<and> ra_timely env (ra_now env) (jt_claims t)
                then Some (jt_claims t) else None, c')))"

definition rs256 :: "jwt \<Rightarrow> bool" where
  "rs256 t \<longleftrightarrow> jt_alg t = Some ''RS256'' \<and> jt_rsa t"

definition hardKey :: "auth_env \<Rightarrow> jwt \<Rightarrow> jwks_cache \<Rightarrow> rsa_key option \<times> jwks_cache" where
  "hardKey env t c =
     (if \<not> rs256 t then (None, c)
      else (case jt_kid t of None \<Rightarrow> (None, c) | Some kid \<Rightarrow> getSigningKey env kid c))"

definition softKey :: "auth_env \<Rightarrow> jwt \<Rightarrow> jwks_cache \<Rightarrow> rsa_key option \<times> jwks_cache" where
  "softKey env t c =
     (if \<not> rs256 t then (None, c)
      else (case jt_kid t of
              None \<Rightarrow> getFirstSigningKey env c
            | Some kid \<Rightarrow> if kid = [] then getFirstSigningKey env c else getSigningKey env kid c))"

definition expired :: "auth_env \<Rightarrow> claims \<Rightarrow> bool" where
  "expired env c = (case numClaim c ''exp'' of None \<Rightarrow> False | Some e \<Rightarrow> e < ra_now env div second)"

definition VerifyBearerToken :: "auth_env \<Rightarrow> string \<Rightarrow> jwks_cache \<Rightarrow> claims option \<times> jwks_cache" where
  "VerifyBearerToken env tok c =
     (case jwtParse env (hardKey env) tok c of
        (None, c') \<Rightarrow> (None, c')
      | (Some cl, c') \<Rightarrow> (if numClaim cl ''exp'' = None \<or> expired env cl then None else Some cl, c'))"

text \<open>The keys a verified token sets; a claim that is missing or of another type sets nothing.\<close>

definition listClaim :: "claims \<Rightarrow> string \<Rightarrow> string list option" where
  "listClaim c k = (case c k of Some (CList l) \<Rightarrow> Some l | _ \<Rightarrow> None)"

definition orElse :: "'a option \<Rightarrow> 'a option \<Rightarrow> 'a option" where
  "orElse a b = (case a of None \<Rightarrow> b | Some _ \<Rightarrow> a)"

definition DefaultOrgID :: string where
  "DefaultOrgID = ''00000000-0000-0000-0000-000000000010''"

definition setClaims :: "claims \<Rightarrow> gin_context \<Rightarrow> gin_context" where
  "setClaims c cx = cx\<lparr>
     cx_userID := orElse (strClaim c ''sub'') (cx_userID cx),
     cx_email := orElse (strClaim c ''email'') (cx_email cx),
     cx_name := orElse (strClaim c ''name'') (cx_name cx),
     cx_sessionID := orElse (case strClaim c ''sid'' of Some s \<Rightarrow> if s = [] then None else Some s | None \<Rightarrow> None)
       (cx_sessionID cx),
     cx_roles := orElse (listClaim c ''roles'') (cx_roles cx),
     cx_amr := orElse (listClaim c ''amr'') (cx_amr cx),
     cx_orgID := Some (case strClaim c ''org_id'' of
       Some i \<Rightarrow> if i = [] then DefaultOrgID else i | None \<Rightarrow> DefaultOrgID)\<rparr>"

definition setKeyInfo :: "APIKeyInfo \<Rightarrow> gin_context \<Rightarrow> gin_context" where
  "setKeyInfo info cx = cx\<lparr>
     cx_userID := (if ki_UserID info \<noteq> [] then Some (ki_UserID info) else cx_userID cx),
     cx_serviceAccountID := (if ki_ServiceAccountID info \<noteq> [] then Some (ki_ServiceAccountID info)
       else cx_serviceAccountID cx),
     cx_orgID := Some (if ki_OrgID info \<noteq> [] then ki_OrgID info else DefaultOrgID),
     cx_apiKeyID := Some (ki_KeyID info), cx_scopes := Some (ki_Scopes info),
     cx_roles := (if ki_ServiceAccountID info \<noteq> [] then Some [''service_account''] else cx_roles cx)\<rparr>"

definition bearerOf :: "gin_context \<Rightarrow> string option" where
  "bearerOf cx =
     (case splitOn CHR '' '' (cx_header cx ''Authorization'') of
        [scheme, tok] \<Rightarrow> if toLower scheme = ''bearer'' then Some tok else None
      | _ \<Rightarrow> None)"

section \<open>State and middlewares\<close>

record RoleRow =
  rl_Name :: string
  rl_Org :: string
  rl_Permissions :: "(string \<times> string) list"

text \<open>A delegation; \<open>None\<close> stands for permissions that do not decode, and for a null scope.\<close>

record AdminDelegation =
  dl_Delegate :: string
  dl_Enabled :: bool
  dl_ExpiresAt :: "int option"
  dl_Permissions :: "string list option"
  dl_ScopeType :: string
  dl_ScopeID :: "string option"

record auth_state =
  pl_jwks :: jwks_cache
  pl_keys :: key_state
  pl_tenants :: tenant_state
  pl_roles :: "RoleRow list"
  pl_delegations :: "AdminDelegation list"
  pl_permCache :: "PermissionEntry list redis"
  pl_oauthKey :: "(rsa_key \<times> int) option"

type_synonym middleware = "gin_context \<Rightarrow> auth_state \<Rightarrow> mw_result \<times> auth_state"

definition andThen :: "middleware \<Rightarrow> middleware \<Rightarrow> middleware" where
  "andThen f g cx st = (case f cx st of (Next cx', st') \<Rightarrow> g cx' st' | (Abort code msg, st') \<Rightarrow> (Abort code msg, st'))"

definition AuthWithAPIKey :: "auth_env \<Rightarrow> bool \<Rightarrow> middleware" where
  "AuthWithAPIKey env hasValidator cx st =
     (if cx_header cx ''Authorization'' = [] then (Abort 401 ''missing authorization header'', st)
      else (case bearerOf cx of
              None \<Rightarrow> (Abort 401 ''invalid authorization header format'', st)
            | Some tok \<Rightarrow>
                if hasPrefix tok ''oidx_'' \<and> hasValidator then
                  (case ValidateAPIKey (ra_keyEnv env) tok (pl_keys st) of
                     (Inl e, ks) \<Rightarrow> (Abort 401 ''invalid API key'', st\<lparr>pl_keys := ks\<rparr>)
                   | (Inr info, ks) \<Rightarrow> (Next (setKeyInfo info cx), st\<lparr>pl_keys := ks\<rparr>))
                else
                  (case jwtParse env (hardKey env) tok (pl_jwks st) of
                     (None, c) \<Rightarrow> (Abort 401 ''invalid token'', st\<lparr>pl_jwks := c\<rparr>)
                   | (Some cl, c) \<Rightarrow>
                       if expired env cl then (Abort 401 ''token expired'', st\<lparr>pl_jwks := c\<rparr>)
                       else (Next (setClaims cl cx), st\<lparr>pl_jwks := c\<rparr>))))"

definition SoftAuth :: "auth_env \<Rightarrow> middleware" where
  "SoftAuth env cx st =
     (case (if cx_header cx ''Authorization'' = [] then None else bearerOf cx) of
        None \<Rightarrow> (Next cx, st)
      | Some tok \<Rightarrow>
          (case jwtParse env (softKey env) tok (pl_jwks st) of
             (None, c) \<Rightarrow> (Next cx, st\<lparr>pl_jwks := c\<rparr>)
           | (Some cl, c) \<Rightarrow> (Next (setClaims cl cx), st\<lparr>pl_jwks := c\<rparr>)))"

definition RequireRoles :: "string list \<Rightarrow> middleware" where
  "RequireRoles roles cx st =
     (case cx_roles cx of
        None \<Rightarrow> (Abort 403 ''no roles found'', st)
      | Some mine \<Rightarrow>
          if list_ex (\<lambda>r. r \<in> set mine) roles then (Next cx, st)
          else (Abort 403 ''insufficient permissions'', st))"

definition resolverOrg :: "gin_context \<Rightarrow> string" where
  "resolverOrg cx =
     (case cx_org cx of Some org \<Rightarrow> if org_ID org \<noteq> [] then org_ID org else DefaultOrgID | None \<Rightarrow> DefaultOrgID)"

definition permsKey :: "string \<Rightarrow> string list \<Rightarrow> string" where
  "permsKey orgID roles = ''perms:'' @ orgID @ '':'' @ joinWith '','' (sort roles)"

definition rolePermissions :: "string \<Rightarrow> string list \<Rightarrow> auth_state \<Rightarrow> PermissionEntry list" where
  "rolePermissions orgID roles st =
     map (\<lambda>(r, a). \<lparr>pe_Resource = r, pe_Action = a, pe_ScopeType = [], pe_ScopeID = []\<rparr>)
       (remdups (concat (map rl_Permissions
          (filter (\<lambda>r. rl_Name r \<in> set roles \<and> rl_Org r = orgID) (pl_roles st)))))"

definition delegatedEntries :: "AdminDelegation \<Rightarrow> PermissionEntry list" where
  "delegatedEntries d =
     (case (dl_Permissions d, dl_ScopeID d) of
        (Some ps, Some scope) \<Rightarrow>
          concat (map (\<lambda>p. case cutAt CHR '':'' p of
            None \<Rightarrow> []
          | Some (r, a) \<Rightarrow> [\<lparr>pe_Resource = r, pe_Action = a, pe_ScopeType = dl_ScopeType d, pe_ScopeID = scope\<rparr>]) ps)
      | _ \<Rightarrow> [])"

definition liveDelegation :: "auth_env \<Rightarrow> string \<Rightarrow> AdminDelegation \<Rightarrow> bool" where
  "liveDelegation env uid d \<longleftrightarrow> dl_Delegate d = uid \<and> dl_Enabled d
     \<and> (case dl_ExpiresAt d of None \<Rightarrow> True | Some x \<Rightarrow> ra_now env < x)"

definition delegatedPermissions :: "auth_env \<Rightarrow> gin_context \<Rightarrow> auth_state \<Rightarrow> PermissionEntry list" where
  "delegatedPermissions env cx st =
     (case cx_userID cx of
        None \<Rightarrow> []
      | Some uid \<Rightarrow>
          if uid = [] \<or> ra_fails env ''selectDelegations'' then []
          else concat (map delegatedEntries (filter (liveDelegation env uid) (pl_delegations st))))"

definition PermissionResolver :: "auth_env \<Rightarrow> middleware" where
  "PermissionResolver env cx st =
     (case cx_roles cx of
        None \<Rightarrow> (Next cx, st)
      | Some roles \<Rightarrow>
          if roles = [] then (Next cx, st)
          else
            (let key = permsKey (resolverOrg cx) roles in
             case (if ra_redis env \<and> \<not> ra_fails env ''redisGet'' then redisGet (ra_now env) (pl_permCache st) key
                   else None) of
               Some perms \<Rightarrow> (Next (cx\<lparr>cx_permissions := Some perms\<rparr>), st)
             | None \<Rightarrow>
                 if ra_fails env ''selectPermissions'' then (Next cx, st)
                 else
                   (let perms = rolePermissions (resolverOrg cx) roles st @ delegatedPermissions env cx st in
                    (Next (cx\<lparr>cx_permissions := Some perms\<rparr>),
                     if ra_redis env \<and> \<not> ra_fails env ''redisSet''
                     then st\<lparr>pl_permCache := redisSetEx (ra_now env) (5 * minute) key perms (pl_permCache st)\<rparr>
                     else st))))"

definition RequirePermission :: "string \<Rightarrow> string \<Rightarrow> middleware" where
  "RequirePermission resource action cx st =
     (case cx_permissions cx of
        None \<Rightarrow> (Abort 403 (''missing permission: '' @ resource @ '':'' @ action), st)
      | Some perms \<Rightarrow>
          if list_ex (\<lambda>p. pe_Resource p = resource \<and> pe_Action p = action) perms then (Next cx, st)
          else (Abort 403 (''missing permission: '' @ resource @ '':'' @ action), st))"

definition tenantStep :: "tenant_env \<Rightarrow> TenantResolverConfig \<Rightarrow> middleware" where
  "tenantStep tenv cfg cx st =
     (case TenantResolver tenv cfg cx (pl_tenants st) of (r, ts) \<Rightarrow> (r, st\<lparr>pl_tenants := ts\<rparr>))"

text \<open>The chain of \<^verbatim>\<open>/api/v1\<close> in the administration service.\<close>

definition adminChain :: "auth_env \<Rightarrow> tenant_env \<Rightarrow> TenantResolverConfig \<Rightarrow> middleware" where
  "adminChain env tenv cfg =
     andThen (AuthWithAPIKey env True) (andThen (PermissionResolver env) (tenantStep tenv cfg))"

section \<open>The identity service\<close>

definition trimRightEq :: "string \<Rightarrow> string" where
  "trimRightEq s = rev (dropWhile (\<lambda>c. c = CHR ''='') (rev s))"

definition identityRSAKey :: "string \<Rightarrow> string \<Rightarrow> rsa_key option" where
  "identityRSAKey nStr eStr = parseRSAPublicKey (trimRightEq nStr) (trimRightEq eStr)"

text \<open>The first RSA signing key of the set, whatever its identifier, kept for five minutes.\<close>

definition getOAuthPublicKey :: "auth_env \<Rightarrow> auth_state \<Rightarrow> rsa_key option \<times> auth_state" where
  "getOAuthPublicKey env st =
     (case (case pl_oauthKey st of Some (k, e) \<Rightarrow> if ra_now env < e then Some k else None | None \<Rightarrow> None) of
        Some k \<Rightarrow> (Some k, st)
      | None \<Rightarrow>
          (case ra_jwks env of
             None \<Rightarrow> (None, st)
           | Some js \<Rightarrow>
               (case find (\<lambda>j. jk_Kty j = ''RSA'' \<and> jk_Use j = ''sig'') js of
                  None \<Rightarrow> (None, st)
                | Some j \<Rightarrow>
                    (case identityRSAKey (jk_N j) (jk_E j) of
                       None \<Rightarrow> (None, st)
                     | Some k \<Rightarrow> (Some k, st\<lparr>pl_oauthKey := Some (k, ra_now env + 5 * minute)\<rparr>)))))"

definition expectedIssuer :: "auth_env \<Rightarrow> string" where
  "expectedIssuer env = (if ra_issuer env = [] then ''http://localhost:8006'' else ra_issuer env)"

definition setIdentityClaims :: "claims \<Rightarrow> gin_context \<Rightarrow> gin_context" where
  "setIdentityClaims c cx = cx\<lparr>
     cx_userID := orElse (strClaim c ''sub'') (cx_userID cx),
     cx_email := orElse (strClaim c ''email'') (cx_email cx),
     cx_name := orElse (strClaim c ''name'') (cx_name cx),
     cx_roles := orElse (listClaim c ''roles'') (cx_roles cx)\<rparr>"

definition openIDXAuthMiddleware :: "auth_env \<Rightarrow> middleware" where
  "openIDXAuthMiddleware env cx st =
     (if cx_header cx ''Authorization'' = [] then (Abort 401 ''missing authorization header'', st)
      else (case bearerOf cx of
              None \<Rightarrow> (Abort 401 ''invalid authorization header format'', st)
            | Some tok \<Rightarrow>
                (case ra_parse env tok of
                   None \<Rightarrow> (Abort 401 ''invalid token'', st)
                 | Some t \<Rightarrow>
                     if \<not> jt_rsa t then (Abort 401 ''invalid token'', st)
                     else (case getOAuthPublicKey env st of
                       (None, st1) \<Rightarrow> (Abort 401 ''invalid token'', st1)
                     | (Some k, st1) \<Rightarrow>
                         let cl = jt_claims t in
                         if \<not> ra_verifies env k tok \<or> \<not> ra_timely env (ra_now env) cl
                         then (Abort 401 ''invalid token'', st1)
                         else if expired env cl then (Abort 401 ''token expired'', st1)
                         else if (case strClaim cl ''iss'' of None \<Rightarrow> False | Some i \<Rightarrow> i \<noteq> expectedIssuer env)
                         then (Abort 401 ''invalid token issuer'', st1)
                         else (Next (setIdentityClaims cl cx), st1)))))"

definition trimPrefix :: "string \<Rightarrow> string \<Rightarrow> string" where
  "trimPrefix s p = (if hasPrefix s p then drop (length p) s else s)"

definition isIdentitySelfService :: "string \<Rightarrow> bool" where
  "isIdentitySelfService path =
     (let rest = trimPrefix path ''/api/v1/identity'' in
      if rest = ''/users/me'' \<or> hasPrefix rest ''/users/me/'' then True
      else if hasPrefix rest ''/sessions/'' then True
      else if rest = ''/mfa/bypass-codes/verify'' then True
      else if rest = ''/mfa/bypass-codes'' \<or> hasPrefix rest ''/mfa/bypass-codes/'' then False
      else if hasPrefix rest ''/mfa/'' then True
      else if rest = ''/trusted-browsers'' \<or> hasPrefix rest ''/trusted-browsers/'' then True
      else rest = ''/risk-assessment'' \<or> rest = ''/resend-verification'')"

definition requireAdminUnlessSelfService :: middleware where
  "requireAdminUnlessSelfService cx st =
     (if isIdentitySelfService (cx_path cx) then (Next cx, st)
      else if list_ex (\<lambda>r. r = ''admin'' \<or> r = ''super_admin'') (case cx_roles cx of None \<Rightarrow> [] | Some rs \<Rightarrow> rs)
      then (Next cx, st)
      else (Abort 403 ''admin role required for this operation'', st))"

definition identityChain :: "auth_env \<Rightarrow> tenant_env \<Rightarrow> TenantResolverConfig \<Rightarrow> middleware" where
  "identityChain env tenv cfg =
     andThen (tenantStep tenv cfg)
       (andThen (openIDXAuthMiddleware env) (andThen (PermissionResolver env) requireAdminUnlessSelfService))"

section \<open>Properties\<close>

subsection \<open>Keys\<close>

text \<open>A key the issuer published: in the set that is fetched now, or in the cached one until the stale
  period after its freshness has passed.\<close>

definition published :: "auth_env \<Rightarrow> jwks_cache \<Rightarrow> string \<Rightarrow> rsa_key \<Rightarrow> bool" where
  "published env c kid k \<longleftrightarrow>
     (\<exists>ks. fetchJWKS env = Some ks \<and> map_of ks kid = Some k)
     \<or> map_of (jc_keys c) kid = Some k
       \<and> (ra_now env < jc_expiresAt c \<or> ra_now env \<le> jc_expiresAt c + ra_maxStale env)"

lemma getSigningKey_published: "getSigningKey env kid c = (Some k, c') \<Longrightarrow> published env c kid k"
  by (auto simp: getSigningKey_def refreshJWKSLocked_def staleUsableLocked_def published_def
      split: if_splits option.splits)

lemma jwtParse_hard:
  assumes "jwtParse env (hardKey env) tok c = (Some cl, c')"
  obtains t kid k where "ra_parse env tok = Some t" "rs256 t" "jt_kid t = Some kid" "published env c kid k"
    "ra_verifies env k tok" "ra_timely env (ra_now env) cl" "jt_claims t = cl"
proof -
  from assms obtain t k where t: "ra_parse env tok = Some t" and key: "hardKey env t c = (Some k, c')"
    and ok: "ra_verifies env k tok" "ra_timely env (ra_now env) (jt_claims t)" "jt_claims t = cl"
    by (auto simp: jwtParse_def split: option.splits prod.splits if_splits)
  from key obtain kid where "rs256 t" "jt_kid t = Some kid" "getSigningKey env kid c = (Some k, c')"
    by (auto simp: hardKey_def split: if_splits option.splits)
  with t ok show thesis by (intro that) (auto intro: getSigningKey_published)
qed

lemma auth_Next:
  assumes "AuthWithAPIKey env hasValidator cx st = (Next cx', st')"
  shows "\<exists>tok. bearerOf cx = Some tok
     \<and> ((\<exists>info. hasValidator \<and> hasPrefix tok ''oidx_''
           \<and> fst (ValidateAPIKey (ra_keyEnv env) tok (pl_keys st)) = Inr info \<and> cx' = setKeyInfo info cx)
        \<or> (\<exists>t kid k. ra_parse env tok = Some t \<and> jt_alg t = Some ''RS256'' \<and> jt_kid t = Some kid
           \<and> published env (pl_jwks st) kid k \<and> ra_verifies env k tok \<and> \<not> expired env (jt_claims t)
           \<and> cx' = setClaims (jt_claims t) cx))"
proof -
  obtain tok where tok: "bearerOf cx = Some tok"
    using assms by (auto simp: AuthWithAPIKey_def split: if_splits option.splits)
  show ?thesis
  proof (cases "hasPrefix tok ''oidx_'' \<and> hasValidator")
    case True
    with assms tok show ?thesis
      by (auto simp: AuthWithAPIKey_def split: if_splits prod.splits sum.splits)
  next
    case False
    then have nk: "\<not> (hasPrefix tok ''oidx_'' \<and> hasValidator)" .
    from assms obtain cl c where p: "jwtParse env (hardKey env) tok (pl_jwks st) = (Some cl, c)"
      and ex: "\<not> expired env cl" and cx': "cx' = setClaims cl cx"
      unfolding AuthWithAPIKey_def tok option.case if_not_P [OF nk]
      by (auto split: if_splits prod.splits option.splits)
    obtain t kid k where "ra_parse env tok = Some t" "rs256 t" "jt_kid t = Some kid"
      "published env (pl_jwks st) kid k" "ra_verifies env k tok" "jt_claims t = cl"
      by (rule jwtParse_hard [OF p])
    with tok ex cx' show ?thesis unfolding rs256_def by blast
  qed
qed

text \<open>
  C30: a request passes the authentication only with an API key that validates, or with a token whose
  signature is RS256 by a published key under the identifier the token names, and that has not
  expired; the context gets the claims of that token.
\<close>

theorem authentication_sound:
  assumes "AuthWithAPIKey env hasValidator cx st = (Next cx', st')"
  shows "\<exists>tok. bearerOf cx = Some tok
     \<and> ((\<exists>info. hasValidator \<and> hasPrefix tok ''oidx_''
           \<and> fst (ValidateAPIKey (ra_keyEnv env) tok (pl_keys st)) = Inr info \<and> cx' = setKeyInfo info cx)
        \<or> (\<exists>t kid k. ra_parse env tok = Some t \<and> jt_alg t = Some ''RS256'' \<and> jt_kid t = Some kid
           \<and> published env (pl_jwks st) kid k \<and> ra_verifies env k tok \<and> \<not> expired env (jt_claims t)
           \<and> cx' = setClaims (jt_claims t) cx))"
  using assms by (rule auth_Next)

text \<open>The cache as refreshes leave it.\<close>

definition jwksOK :: "int \<Rightarrow> jwks_cache \<Rightarrow> bool" where
  "jwksOK ttl c \<longleftrightarrow> (jc_keys c \<noteq> [] \<longrightarrow> (\<exists>t. jc_lastOK c = Some t \<and> jc_expiresAt c = t + ttl))"

lemma jwksOK_getSigningKey: "jwksOK (ra_ttl env) c \<Longrightarrow> jwksOK (ra_ttl env) (snd (getSigningKey env kid c))"
  by (auto simp: getSigningKey_def refreshJWKSLocked_def jwksOK_def split: option.splits)

interpretation jwks: invariant_system "\<lambda>c. jc_keys c = []"
  "\<lambda>c c'. \<exists>env kid. ra_ttl env = ttl \<and> c' = snd (getSigningKey env kid c)" "jwksOK ttl" for ttl
proof
  show "jwksOK ttl c" if "jc_keys c = []" for c
    using that by (simp add: jwksOK_def)
  show "jwksOK ttl c'" if "jwksOK ttl c" "\<exists>env kid. ra_ttl env = ttl \<and> c' = snd (getSigningKey env kid c)" for c c'
    using that jwksOK_getSigningKey by blast
qed

text \<open>
  C31: while the issuer cannot be reached, a key fetched at time \<open>t\<close> verifies tokens until the freshness and
  the stale period have passed, and not a moment longer.
\<close>

theorem outage_serves_stale:
  assumes "reach (\<lambda>c. jc_keys c = []) (\<lambda>c c'. \<exists>env kid. ra_ttl env = ttl \<and> c' = snd (getSigningKey env kid c)) c"
    and "fetchJWKS env = None" and "map_of (jc_keys c) kid = Some k" and "jc_lastOK c = Some t"
    and "0 \<le> ra_maxStale env"
  shows "fst (getSigningKey env kid c) = (if ra_now env \<le> t + ttl + ra_maxStale env then Some k else None)"
proof -
  have "jc_keys c \<noteq> []" using assms(3) by auto
  with jwks.reach_inv [OF assms(1)] assms(4) have "jc_expiresAt c = t + ttl"
    by (auto simp: jwksOK_def)
  with assms(2-5) \<open>jc_keys c \<noteq> []\<close> show ?thesis
    by (auto simp: getSigningKey_def refreshJWKSLocked_def staleUsableLocked_def)
qed
subsection \<open>Permissions\<close>

lemma PermissionResolver_never_aborts: "\<exists>cx' st'. PermissionResolver env cx st = (Next cx', st')"
  by (simp add: PermissionResolver_def Let_def split: option.split)

lemma resolver_miss:
  assumes "cx_roles cx = Some roles" and "roles \<noteq> []" and "\<not> ra_fails env ''selectPermissions''"
    and "redisGet (ra_now env) (pl_permCache st) (permsKey (resolverOrg cx) roles) = None"
  shows "fst (PermissionResolver env cx st) = Next (cx\<lparr>cx_permissions :=
     Some (rolePermissions (resolverOrg cx) roles st @ delegatedPermissions env cx st)\<rparr>)"
  using assms by (simp add: PermissionResolver_def Let_def)

lemma resolver_remembers:
  assumes "cx_roles cx = Some roles" and "roles \<noteq> []" and "\<not> ra_fails env ''selectPermissions''"
    and "redisGet (ra_now env) (pl_permCache st) (permsKey (resolverOrg cx) roles) = None"
    and "ra_redis env" and "\<not> ra_fails env ''redisSet''"
  shows "pl_permCache (snd (PermissionResolver env cx st)) =
     redisSetEx (ra_now env) (5 * minute) (permsKey (resolverOrg cx) roles)
       (rolePermissions (resolverOrg cx) roles st @ delegatedPermissions env cx st) (pl_permCache st)"
  using assms by (simp add: PermissionResolver_def Let_def)

lemma RequirePermission_Next:
  "RequirePermission resource action cx st = (Next cx', st') \<longleftrightarrow>
     cx' = cx \<and> st' = st \<and> (\<exists>perms p. cx_permissions cx = Some perms \<and> p \<in> set perms
       \<and> pe_Resource p = resource \<and> pe_Action p = action)"
  by (auto simp: RequirePermission_def list_ex_iff split: option.splits)

text \<open>
  On a cache miss a permission is granted exactly to callers one of whose roles has it in the
  organisation, or who hold a live delegation of it; the scope of the delegation is not looked at.
\<close>

theorem permission_exact:
  assumes "cx_roles cx = Some roles" and "roles \<noteq> []" and "\<not> ra_fails env ''selectPermissions''"
    and "redisGet (ra_now env) (pl_permCache st) (permsKey (resolverOrg cx) roles) = None"
  shows "(\<exists>cx' st'. andThen (PermissionResolver env) (RequirePermission resource action) cx st = (Next cx', st')) \<longleftrightarrow>
     (\<exists>r \<in> set (pl_roles st). rl_Name r \<in> set roles \<and> rl_Org r = resolverOrg cx \<and> (resource, action) \<in> set (rl_Permissions r))
     \<or> (\<exists>p \<in> set (delegatedPermissions env cx st). pe_Resource p = resource \<and> pe_Action p = action)"
proof -
  obtain st1 where r: "PermissionResolver env cx st = (Next (cx\<lparr>cx_permissions :=
     Some (rolePermissions (resolverOrg cx) roles st @ delegatedPermissions env cx st)\<rparr>), st1)"
    using resolver_miss [OF assms] by (metis prod.collapse)
  have "(\<exists>p \<in> set (rolePermissions (resolverOrg cx) roles st). pe_Resource p = resource \<and> pe_Action p = action) \<longleftrightarrow>
     (\<exists>r \<in> set (pl_roles st). rl_Name r \<in> set roles \<and> rl_Org r = resolverOrg cx \<and> (resource, action) \<in> set (rl_Permissions r))"
    by (auto simp: rolePermissions_def) (force intro: exI bexI [where x = "(resource, action)"])
  then show ?thesis
    unfolding andThen_def r by (auto simp: RequirePermission_Next)
qed

text \<open>
  Delegated permissions leak. The cache key is made of the organisation and the roles, but the cached
  list has the delegations of the user who filled it: for five minutes every user with the same roles
  passes the checks those delegations allow.
\<close>

theorem delegation_leaks:
  assumes "cx_roles cx = Some roles" and "roles \<noteq> []" and "\<not> ra_fails env ''selectPermissions''"
    and "redisGet (ra_now env) (pl_permCache st) (permsKey (resolverOrg cx) roles) = None"
    and "ra_redis env" and "\<not> ra_fails env ''redisSet''"
    and "p \<in> set (delegatedPermissions env cx st)"
    and "cx_roles cx2 = Some roles2" and "mset roles2 = mset roles" and "resolverOrg cx2 = resolverOrg cx"
    and "ra_redis env2" and "\<not> ra_fails env2 ''redisGet''" and "ra_now env2 < ra_now env + 5 * minute"
  shows "\<exists>cx' st'. andThen (PermissionResolver env2) (RequirePermission (pe_Resource p) (pe_Action p)) cx2
     (snd (PermissionResolver env cx st)) = (Next cx', st')"
proof -
  let ?st = "snd (PermissionResolver env cx st)"
  let ?perms = "rolePermissions (resolverOrg cx) roles st @ delegatedPermissions env cx st"
  have ne: "roles2 \<noteq> []" using assms(2,9) by auto
  have "sort roles2 = sort roles"
    by (rule properties_for_sort) (simp_all add: assms(9))
  then have key: "permsKey (resolverOrg cx2) roles2 = permsKey (resolverOrg cx) roles"
    using assms(10) by (simp add: permsKey_def)
  have "redisGet (ra_now env2) (pl_permCache ?st) (permsKey (resolverOrg cx2) roles2) = Some ?perms"
    unfolding key resolver_remembers [OF assms(1-6)] using assms(13) by (simp add: redisGet_SetEx)
  then have "PermissionResolver env2 cx2 ?st = (Next (cx2\<lparr>cx_permissions := Some ?perms\<rparr>), ?st)"
    using assms(8,11,12) ne by (simp add: PermissionResolver_def Let_def)
  with assms(7) show ?thesis
    by (auto simp: andThen_def RequirePermission_Next)
qed
subsection \<open>The administration service\<close>

lemma andThen_Next:
  "andThen f g cx st = (Next cx', st') \<longleftrightarrow> (\<exists>cx1 st1. f cx st = (Next cx1, st1) \<and> g cx1 st1 = (Next cx', st'))"
  by (auto simp: andThen_def split: prod.splits mw_result.splits)

lemma setClaims_sel [simp]:
  "cx_org (setClaims c cx) = cx_org cx" "cx_header (setClaims c cx) = cx_header cx"
  "cx_path (setClaims c cx) = cx_path cx" "cx_bypassRLS (setClaims c cx) = cx_bypassRLS cx"
  by (simp_all add: setClaims_def)

lemma setKeyInfo_org [simp]: "cx_org (setKeyInfo i cx) = cx_org cx"
  by (simp add: setKeyInfo_def)

lemma auth_keeps_org: "AuthWithAPIKey env v cx st = (Next cx', st') \<Longrightarrow> cx_org cx' = cx_org cx"
  by (auto dest!: auth_Next)

lemma auth_keeps_tables:
  "AuthWithAPIKey env v cx st = (r, st') \<Longrightarrow> pl_tenants st' = pl_tenants st \<and> pl_roles st' = pl_roles st
     \<and> pl_delegations st' = pl_delegations st \<and> pl_permCache st' = pl_permCache st"
  by (auto simp: AuthWithAPIKey_def split: if_splits option.splits prod.splits sum.splits)

lemma PermissionResolver_frame:
  "PermissionResolver env cx st = (Next cx', st') \<Longrightarrow>
     pl_tenants st' = pl_tenants st \<and> (\<exists>ps. cx' = cx\<lparr>cx_permissions := ps\<rparr>)"
  by (auto simp: PermissionResolver_def Let_def split: option.splits if_splits)
    (metis gin_context.surjective gin_context.update_convs(16))+

lemma tenantStep_frame:
  assumes "tenantStep tenv cfg cx st = (Next cx', st')"
  shows "cx_roles cx' = cx_roles cx \<and> cx_permissions cx' = cx_permissions cx \<and> cx_userID cx' = cx_userID cx"
proof -
  obtain ts where "TenantResolver tenv cfg cx (pl_tenants st) = (Next cx', ts)"
    using assms by (auto simp: tenantStep_def split: prod.splits)
  then show ?thesis
    by (auto simp: TenantResolver_def orgctxWith_def WithPlatformAdmin_def Let_def
        split: if_splits prod.splits sum.splits tenant_error.splits)
qed

text \<open>
  The administration service resolves permissions before the organisation: whatever organisation a
  request ends up in, its permissions are those its role names have in the default organisation.
\<close>

theorem admin_permissions_from_default_org:
  assumes "adminChain env tenv cfg cx st = (Next cx', st')" and "cx_org cx = None"
    and "cx_roles cx' = Some roles" and "roles \<noteq> []" and "\<not> ra_fails env ''selectPermissions''"
    and "redisGet (ra_now env) (pl_permCache st) (permsKey DefaultOrgID roles) = None"
  shows "cx_permissions cx' = Some (rolePermissions DefaultOrgID roles st @ delegatedPermissions env cx' st)"
proof -
  obtain cx1 st1 cx2 st2 where auth: "AuthWithAPIKey env True cx st = (Next cx1, st1)"
    and perm: "PermissionResolver env cx1 st1 = (Next cx2, st2)"
    and tenant: "tenantStep tenv cfg cx2 st2 = (Next cx', st')"
    using assms(1) by (auto simp: adminChain_def andThen_Next)
  obtain ps where cx2: "cx2 = cx1\<lparr>cx_permissions := ps\<rparr>"
    using PermissionResolver_frame [OF perm] by auto
  have org: "resolverOrg cx1 = DefaultOrgID"
    using auth_keeps_org [OF auth] assms(2) by (simp add: resolverOrg_def)
  have roles: "cx_roles cx1 = Some roles"
    using tenantStep_frame [OF tenant] assms(3) cx2 by simp
  note tables = auth_keeps_tables [OF auth]
  have "cx2 = cx1\<lparr>cx_permissions := Some (rolePermissions DefaultOrgID roles st1 @ delegatedPermissions env cx1 st1)\<rparr>"
    using resolver_miss [OF roles assms(4,5), of st1] perm tables assms(6) by (simp add: org)
  moreover have "rolePermissions DefaultOrgID roles st1 = rolePermissions DefaultOrgID roles st"
    "delegatedPermissions env cx1 st1 = delegatedPermissions env cx' st"
    using tables tenantStep_frame [OF tenant] cx2
    by (simp_all add: rolePermissions_def delegatedPermissions_def split: option.split)
  ultimately show ?thesis
    using tenantStep_frame [OF tenant] by simp
qed

subsection \<open>Tokens carry no organisation\<close>

lemma jwtClaims_org_id: "strClaim (jwtClaims oenv org uid cid scope ttl sid s) ''org_id'' = None"
  by (simp add: strClaim_def jwtClaims_base)

lemma jwtClaims_roles:
  "uid \<noteq> [] \<Longrightarrow> listClaim (jwtClaims oenv org uid cid scope ttl sid s) ''roles'' = Some (queryRoles oenv uid (org_ID org) s)"
  by (simp add: listClaim_def jwtClaims_base)

text \<open>
  An access token names the roles its user holds in the issuing organisation, but not the
  organisation. On a request that names none, the administration service serves it in the default
  organisation with those roles: an administrator of any organisation acts as one of the default
  organisation.
\<close>

theorem tenant_roles_in_default_org:
  assumes "adminChain env tenv cfg cx st = (Next cx', st')" and "bearerOf cx = Some tok"
    and "\<not> hasPrefix tok ''oidx_''" and "ra_parse env tok = Some t"
    and "jt_claims t = jwtClaims oenv orgA uid cid scope ttl sid s" and "uid \<noteq> []"
    and "trimSpace (cx_header cx ''X-Org-Slug'') = []" and "trimSpace (cx_header cx ''X-Org-Id'') = []"
    and "tc_DefaultOrgID cfg = DefaultOrgID" and "cacheOK (pl_tenants st)"
    and "\<not> isTenantSkipPath (cx_path cx)"
  shows "cx_userID cx' = Some uid \<and> cx_roles cx' = Some (queryRoles oenv uid (org_ID orgA) s)
     \<and> (\<exists>org. cx_org cx' = Some org \<and> org_ID org = DefaultOrgID)"
proof -
  obtain cx1 st1 cx2 st2 where auth: "AuthWithAPIKey env True cx st = (Next cx1, st1)"
    and perm: "PermissionResolver env cx1 st1 = (Next cx2, st2)"
    and tenant: "tenantStep tenv cfg cx2 st2 = (Next cx', st')"
    using assms(1) by (auto simp: adminChain_def andThen_Next)
  have cx1: "cx1 = setClaims (jwtClaims oenv orgA uid cid scope ttl sid s) cx"
    using auth_Next [OF auth] assms(2-5) by auto
  obtain ps where cx2: "cx2 = cx1\<lparr>cx_permissions := ps\<rparr>"
    using PermissionResolver_frame [OF perm] by auto
  have sub: "strClaim (jwtClaims oenv orgA uid cid scope ttl sid s) ''sub'' = Some uid"
    by (simp add: strClaim_def jwtClaims_base)
  have vals: "cx_userID cx2 = Some uid" "cx_roles cx2 = Some (queryRoles oenv uid (org_ID orgA) s)"
    "cx_orgID cx2 = Some DefaultOrgID"
    by (simp_all add: cx2 cx1 setClaims_def orElse_def sub jwtClaims_roles [OF assms(6)] jwtClaims_org_id)
  have hd: "cx_header cx2 = cx_header cx" "cx_path cx2 = cx_path cx"
    by (simp_all add: cx2 cx1)
  obtain ts where res: "TenantResolver tenv cfg cx2 (pl_tenants st) = (Next cx', ts)"
    using tenant auth_keeps_tables [OF auth] PermissionResolver_frame [OF perm]
    by (auto simp: tenantStep_def split: prod.splits)
  have skip: "\<not> isTenantSkipPath (cx_path cx2)" using assms(11) hd by simp
  obtain org where "cx_org cx' = Some org" "requestedOrg cfg cx2 org"
    "cx_roles cx' = cx_roles cx2" "cx_userID cx' = cx_userID cx2"
    using resolver_sound [OF assms(10) res skip] by blast
  with vals hd assms(7-9) show ?thesis
    by (simp add: requestedOrg_def claimOrg_def)
qed

text \<open>
  With a base domain for tenants, the tokens of every organisation but the default one name an issuer
  of their own; the identity service accepts one issuer, so it refuses all of them.
\<close>

theorem identity_refuses_tenant_tokens:
  assumes "bearerOf cx = Some tok" and "ra_parse env tok = Some t"
    and "jt_claims t = jwtClaims oenv org uid cid scope ttl sid s"
    and "issuerForOrg oenv org \<noteq> expectedIssuer env"
  shows "\<exists>msg st'. openIDXAuthMiddleware env cx st = (Abort 401 msg, st')"
proof -
  have iss: "strClaim (jt_claims t) ''iss'' = Some (issuerForOrg oenv org)"
    by (simp add: assms(3) strClaim_def jwtClaims_base)
  show ?thesis
    using assms(1,2,4) by (simp add: openIDXAuthMiddleware_def iss Let_def split: prod.splits option.splits)
qed

section \<open>Witnesses\<close>

definition demoIssuerState :: oauth_state where
  "demoIssuerState = demoState\<lparr>os_directory := (os_directory demoState)\<lparr>di_roles := [(''r'', ''admin'')],
     di_userRoles := [\<lparr>ur_UserID = ''u1'', ur_OrgID = ''b'', ur_RoleID = ''r'', ur_ExpiresAt = None\<rparr>]\<rparr>\<rparr>"

definition demoToken :: jwt where
  "demoToken = \<lparr>jt_alg = Some ''RS256'', jt_rsa = True, jt_kid = Some ''k'',
     jt_claims = jwtClaims demoEnv (demoOrg ''b'') ''u1'' ''app'' [] 3600 [] demoIssuerState\<rparr>"

definition demoAuthEnv :: auth_env where
  "demoAuthEnv = \<lparr>ra_now = 1000 * second, ra_fails = (\<lambda>_. False), ra_jwks = None, ra_ttl = 3600 * second,
     ra_maxStale = 3600 * second, ra_pick = 0, ra_parse = (\<lambda>tok. if tok = ''t'' then Some demoToken else None),
     ra_verifies = (\<lambda>k tok. k = (5, 3) \<and> tok = ''t''), ra_timely = (\<lambda>_ _. True), ra_redis = True,
     ra_keyEnv = demoKeyEnv 0, ra_issuer = ''https://idx''\<rparr>"

definition demoAuthState :: auth_state where
  "demoAuthState = \<lparr>pl_jwks = \<lparr>jc_keys = [(''k'', (5, 3))], jc_expiresAt = 3600 * second, jc_lastOK = Some 0\<rparr>,
     pl_keys = noKeys,
     pl_tenants = \<lparr>ts_orgs = [\<lparr>og_ID = DefaultOrgID, og_Slug = ''default'', og_Status = ''active'', og_settingsOK = True\<rparr>,
       \<lparr>og_ID = ''b'', og_Slug = ''b'', og_Status = ''active'', og_settingsOK = True\<rparr>],
       ts_cache = Map.empty, ts_audits = []\<rparr>,
     pl_roles = [],
     pl_delegations = [\<lparr>dl_Delegate = ''u1'', dl_Enabled = True, dl_ExpiresAt = None,
       dl_Permissions = Some [''users:write''], dl_ScopeType = ''group'', dl_ScopeID = Some ''g''\<rparr>],
     pl_permCache = Map.empty, pl_oauthKey = None\<rparr>"

definition demoAuthContext :: gin_context where
  "demoAuthContext = (demoContextOf ''api.io'' None)\<lparr>cx_header := (\<lambda>_. [])(''Authorization'' := ''Bearer t''),
     cx_userID := None, cx_roles := None\<rparr>"

definition demoAuthConfig :: TenantResolverConfig where
  "demoAuthConfig = demoTenantConfig\<lparr>tc_DefaultOrgFallback := True, tc_DefaultOrgID := DefaultOrgID\<rparr>"

lemma demo_bearer: "bearerOf demoAuthContext = Some ''t''"
proof -
  have "toLower ''Bearer'' = ''bearer''" by code_simp
  then show ?thesis by (simp add: bearerOf_def demoAuthContext_def)
qed

lemma demo_not_key: "\<not> hasPrefix ''t'' ''oidx_''"
  by (simp add: hasPrefix_def)

lemma demo_exp: "numClaim (jt_claims demoToken) ''exp'' = Some 4600"
  by (simp add: demoToken_def numClaim_def jwtClaims_base demoEnv_def unix_def second_def)

lemma demo_auth:
  "AuthWithAPIKey demoAuthEnv True demoAuthContext demoAuthState =
     (Next (setClaims (jt_claims demoToken) demoAuthContext), demoAuthState)"
proof -
  have key: "hardKey demoAuthEnv demoToken (pl_jwks demoAuthState) = (Some (5, 3), pl_jwks demoAuthState)"
    by (simp add: hardKey_def rs256_def demoToken_def getSigningKey_def demoAuthEnv_def demoAuthState_def second_def)
  have parse: "jwtParse demoAuthEnv (hardKey demoAuthEnv) ''t'' (pl_jwks demoAuthState) =
     (Some (jt_claims demoToken), pl_jwks demoAuthState)"
    by (simp add: jwtParse_def key demoAuthEnv_def [THEN arg_cong, of ra_parse]
        demoAuthEnv_def [THEN arg_cong, of ra_verifies] demoAuthEnv_def [THEN arg_cong, of ra_timely])
  have "\<not> expired demoAuthEnv (jt_claims demoToken)"
    by (simp add: expired_def demo_exp) (simp add: demoAuthEnv_def second_def)
  moreover have "cx_header demoAuthContext ''Authorization'' \<noteq> []"
    by (simp add: demoAuthContext_def)
  ultimately show ?thesis
    by (simp add: AuthWithAPIKey_def demo_bearer demo_not_key parse)
qed

theorem authentication_sound_witness:
  "\<exists>t kid k. ra_parse demoAuthEnv ''t'' = Some t \<and> jt_alg t = Some ''RS256'' \<and> jt_kid t = Some kid
     \<and> published demoAuthEnv (pl_jwks demoAuthState) kid k \<and> ra_verifies demoAuthEnv k ''t''
     \<and> \<not> expired demoAuthEnv (jt_claims t)"
  using authentication_sound [OF demo_auth] by (simp add: demo_bearer demo_not_key) blast

definition emptyJwks :: jwks_cache where
  "emptyJwks = \<lparr>jc_keys = [], jc_expiresAt = 0, jc_lastOK = None\<rparr>"

definition demoJwksEnv :: auth_env where
  "demoJwksEnv = demoAuthEnv\<lparr>ra_now := 0,
     ra_jwks := Some [\<lparr>jk_Kid = ''k'', jk_Kty = ''RSA'', jk_Use = ''sig'', jk_N = ''BQ'', jk_E = ''Aw''\<rparr>]\<rparr>"

lemma demo_keys_parse: "parseRSAPublicKey ''BQ'' ''Aw'' = Some (5, 3)"
proof -
  have "rawURLDecode ''BQ'' = Some [CHR 0x05]" "rawURLDecode ''Aw'' = Some [CHR 0x03]" by code_simp+
  then show ?thesis by (simp add: parseRSAPublicKey_def bytesToInt_def bytesToExponent_def byteOf_def)
qed

lemma demo_fetched: "getSigningKey demoJwksEnv ''k'' emptyJwks = (Some (5, 3), pl_jwks demoAuthState)"
  by (simp add: getSigningKey_def refreshJWKSLocked_def fetchJWKS_def demoJwksEnv_def demo_keys_parse putKey_def
      emptyJwks_def demoAuthEnv_def demoAuthState_def)

theorem outage_serves_stale_witness:
  "fst (getSigningKey (demoAuthEnv\<lparr>ra_now := 7200 * second\<rparr>) ''k'' (pl_jwks demoAuthState)) = Some (5, 3)
   \<and> fst (getSigningKey (demoAuthEnv\<lparr>ra_now := 7201 * second\<rparr>) ''k'' (pl_jwks demoAuthState)) = None"
proof -
  let ?step = "\<lambda>c c'. \<exists>env kid. ra_ttl env = 3600 * second \<and> c' = snd (getSigningKey env kid c)"
  have "reach (\<lambda>c. jc_keys c = []) ?step emptyJwks"
    by (rule reach_init) (simp add: emptyJwks_def)
  moreover have "?step emptyJwks (pl_jwks demoAuthState)"
    by (intro exI [of _ demoJwksEnv] exI [of _ "''k''"]) (simp add: demo_fetched, simp add: demoJwksEnv_def demoAuthEnv_def)
  ultimately have reach: "reach (\<lambda>c. jc_keys c = []) ?step (pl_jwks demoAuthState)"
    by (rule reach_step)
  have "fst (getSigningKey (demoAuthEnv\<lparr>ra_now := n\<rparr>) ''k'' (pl_jwks demoAuthState)) =
     (if n \<le> 0 + 3600 * second + 3600 * second then Some (5, 3) else None)" for n
    using outage_serves_stale [OF reach, of "demoAuthEnv\<lparr>ra_now := n\<rparr>" "''k''" "(5, 3)" 0]
    by (simp add: demoAuthEnv_def demoAuthState_def fetchJWKS_def second_def)
  then show ?thesis by (simp add: second_def)
qed

definition demoRoleContext :: "string \<Rightarrow> gin_context" where
  "demoRoleContext uid = (demoContextOf ''api.io'' None)\<lparr>cx_userID := Some uid, cx_roles := Some [''support'']\<rparr>"

theorem delegation_leaks_witness:
  "delegatedPermissions demoAuthEnv (demoRoleContext ''u2'') demoAuthState = []
   \<and> (\<exists>cx' st'. andThen (PermissionResolver demoAuthEnv) (RequirePermission ''users'' ''write'') (demoRoleContext ''u2'')
        (snd (PermissionResolver demoAuthEnv (demoRoleContext ''u1'') demoAuthState)) = (Next cx', st'))"
proof -
  let ?p = "\<lparr>pe_Resource = ''users'', pe_Action = ''write'', pe_ScopeType = ''group'', pe_ScopeID = ''g''\<rparr>"
  have roles: "cx_roles (demoRoleContext uid) = Some [''support'']" for uid by (simp add: demoRoleContext_def)
  have ne: "[''support''] \<noteq> []" by simp
  have env: "\<not> ra_fails demoAuthEnv w" "ra_redis demoAuthEnv" "ra_now demoAuthEnv < ra_now demoAuthEnv + 5 * minute" for w
    by (simp_all add: demoAuthEnv_def minute_def second_def)
  have miss: "redisGet (ra_now demoAuthEnv) (pl_permCache demoAuthState)
     (permsKey (resolverOrg (demoRoleContext ''u1'')) [''support'']) = None"
    by (simp add: demoAuthState_def redisGet_def)
  have del: "?p \<in> set (delegatedPermissions demoAuthEnv (demoRoleContext ''u1'') demoAuthState)"
    by (simp add: delegatedPermissions_def demoRoleContext_def demoAuthEnv_def demoAuthState_def liveDelegation_def
        delegatedEntries_def cutAt_def)
  have org: "resolverOrg (demoRoleContext ''u2'') = resolverOrg (demoRoleContext ''u1'')"
    by (simp add: demoRoleContext_def demoContextOf_def resolverOrg_def)
  have "delegatedPermissions demoAuthEnv (demoRoleContext ''u2'') demoAuthState = []"
    by (simp add: delegatedPermissions_def demoRoleContext_def demoAuthEnv_def demoAuthState_def liveDelegation_def)
  with delegation_leaks [OF roles ne env(1) miss env(2) env(1) del roles refl org env(2) env(1) env(3)]
  show ?thesis by simp
qed

lemma demo_roles: "queryRoles demoEnv ''u1'' (org_ID (demoOrg ''b'')) demoIssuerState = [''admin'']"
  by (simp add: queryRoles_def activeUserRoles_def demoIssuerState_def demoState_def demoOrg_def demoEnv_def)

lemma demo_admin_chain:
  "\<exists>cx' st'. adminChain demoAuthEnv demoTenantEnv demoAuthConfig demoAuthContext demoAuthState = (Next cx', st')"
proof -
  let ?cx = "setClaims (jt_claims demoToken) demoAuthContext"
  obtain cx2 st2 where perm: "PermissionResolver demoAuthEnv ?cx demoAuthState = (Next cx2, st2)"
    using PermissionResolver_never_aborts by blast
  obtain ps where cx2: "cx2 = ?cx\<lparr>cx_permissions := ps\<rparr>" and ts: "pl_tenants st2 = pl_tenants demoAuthState"
    using PermissionResolver_frame [OF perm] by auto
  have hd: "cx_header cx2 h = cx_header demoAuthContext h" "cx_path cx2 = ''/users''"
    "cx_orgID cx2 = Some DefaultOrgID" for h
    using jwtClaims_org_id by (simp_all add: cx2 demoToken_def setClaims_def demoAuthContext_def demoContextOf_def)
  have hdr: "cx_header demoAuthContext ''X-Org-Slug'' = []" "cx_header demoAuthContext ''X-Org-Id'' = []"
    by (simp_all add: demoAuthContext_def)
  have cfg: "tc_DefaultOrgFallback demoAuthConfig" "tc_DefaultOrgID demoAuthConfig = DefaultOrgID"
    by (simp_all add: demoAuthConfig_def)
  have ne: "DefaultOrgID \<noteq> []" by (simp add: DefaultOrgID_def)
  obtain ts' where found: "ByID demoTenantEnv DefaultOrgID (pl_tenants demoAuthState) =
     (Inr \<lparr>org_ID = DefaultOrgID, org_Slug = ''default''\<rparr>, ts')"
    by (simp add: ByID_def cachedLookup_def fetchOrganization_def demoAuthState_def demoTenantEnv_def)
  then have "resolveOrgFromRequest demoTenantEnv demoAuthConfig cx2 (pl_tenants demoAuthState) =
     (Inr \<lparr>org_ID = DefaultOrgID, org_Slug = ''default''\<rparr>, ts')"
    by (simp add: resolveOrgFromRequest_def hd hdr cfg ne trimSpace_def wrapNotFound_def Let_def)
  moreover have "\<not> isTenantSkipPath (cx_path cx2)"
    by (simp add: hd isTenantSkipPath_def tenantSkipPaths_def hasPrefix_def)
  ultimately show ?thesis
    by (simp add: adminChain_def andThen_def demo_auth perm tenantStep_def ts TenantResolver_def)
qed

theorem tenant_roles_in_default_org_witness:
  "\<exists>cx' st' org. adminChain demoAuthEnv demoTenantEnv demoAuthConfig demoAuthContext demoAuthState = (Next cx', st')
     \<and> cx_roles cx' = Some [''admin''] \<and> cx_org cx' = Some org \<and> org_ID org = DefaultOrgID"
proof -
  obtain cx' st' where run: "adminChain demoAuthEnv demoTenantEnv demoAuthConfig demoAuthContext demoAuthState = (Next cx', st')"
    using demo_admin_chain by blast
  have parse: "ra_parse demoAuthEnv ''t'' = Some demoToken" by (simp add: demoAuthEnv_def)
  have claims: "jt_claims demoToken = jwtClaims demoEnv (demoOrg ''b'') ''u1'' ''app'' [] 3600 [] demoIssuerState"
    by (simp add: demoToken_def)
  have hdr: "trimSpace (cx_header demoAuthContext ''X-Org-Slug'') = []" "trimSpace (cx_header demoAuthContext ''X-Org-Id'') = []"
    by (simp_all add: demoAuthContext_def trimSpace_def)
  have cfg: "tc_DefaultOrgID demoAuthConfig = DefaultOrgID" by (simp add: demoAuthConfig_def)
  have ok: "cacheOK (pl_tenants demoAuthState)" by (simp add: cacheOK_def demoAuthState_def)
  have skip: "\<not> isTenantSkipPath (cx_path demoAuthContext)"
    by (simp add: demoAuthContext_def demoContextOf_def isTenantSkipPath_def tenantSkipPaths_def hasPrefix_def)
  have uid: "''u1'' \<noteq> []" by simp
  from tenant_roles_in_default_org [OF run demo_bearer demo_not_key parse claims uid hdr cfg ok skip] run
  show ?thesis unfolding demo_roles by blast
qed

theorem identity_refuses_tenant_tokens_witness:
  "\<exists>msg st'. openIDXAuthMiddleware (demoAuthEnv\<lparr>ra_parse := (\<lambda>_. Some (demoToken\<lparr>jt_claims :=
       jwtClaims (demoEnv\<lparr>env_config := (env_config demoEnv)\<lparr>sc_tenantBaseDomain := ''io''\<rparr>\<rparr>) (demoOrg ''b'') ''u1'' ''app''
         [] 3600 [] demoIssuerState\<rparr>))\<rparr>) demoAuthContext demoAuthState = (Abort 401 msg, st')"
  by (rule identity_refuses_tenant_tokens [OF demo_bearer, OF _ _])
    (simp, simp, simp add: issuerForOrg_def demoOrg_def demoEnv_def demoAuthEnv_def expectedIssuer_def)
end
