(* ===== verification/Access_Review.thy ===== *)
theory Access_Review
  imports Api_Keys
begin

text \<open>
  Access reviews and certification campaigns (\<^verbatim>\<open>internal/governance/service.go\<close>, \<^verbatim>\<open>revocation.go\<close>,
  \<^verbatim>\<open>network_revocation.go\<close>): a review is created, started (which lists who holds what), decided item by item,
  and closed; campaigns start reviews on a schedule, and a sweep closes the runs whose deadline has passed.

  A transaction that fails gives the tables back as they were, except for the queue of network
  revocations, which is written outside it. The tables of assignments are those the revocations delete
  from; columns of type UUID refuse texts that are none, which a predicate of the environment tells.

  The theorems: whose request can change an item, a status or an assignment; that a decision to revoke removes
  the access and fails as a whole otherwise; what starting a review lists; and where the code falls
  short: the deadline sweep labels items without removing access, and reviews can be set up by anybody.
\<close>

section \<open>Data\<close>

record AccessReview =
  ar_ID :: string
  ar_Name :: string
  ar_Description :: string
  ar_Type :: string
  ar_Status :: string
  ar_ReviewerID :: "string option"
  ar_StartDate :: int
  ar_EndDate :: int
  ar_CreatedAt :: int
  ar_CompletedAt :: "int option"
  ar_OrgID :: string

record ReviewItem =
  ri_ID :: string
  ri_ReviewID :: string
  ri_UserID :: "string option"
  ri_ResourceType :: string
  ri_ResourceID :: string
  ri_ResourceName :: string
  ri_Decision :: string
  ri_DecidedBy :: "string option"
  ri_DecidedAt :: "int option"
  ri_Comments :: string
  ri_CreatedAt :: int
  ri_OrgID :: string

record ScheduledCampaign =
  cp_ID :: string
  cp_Name :: string
  cp_Description :: string
  cp_Type :: string
  cp_Schedule :: string
  cp_ReviewerStrategy :: string
  cp_ReviewerID :: "string option"
  cp_ReviewerRole :: "string option"
  cp_AutoRevoke :: bool
  cp_GracePeriodDays :: int
  cp_DurationDays :: int
  cp_Status :: string
  cp_LastRunAt :: "int option"
  cp_NextRunAt :: "int option"
  cp_CreatedBy :: "string option"
  cp_CreatedAt :: int
  cp_UpdatedAt :: int
  cp_OrgID :: string

record CampaignRun =
  cr_ID :: string
  cr_CampaignID :: string
  cr_ReviewID :: "string option"
  cr_Status :: string
  cr_StartedAt :: int
  cr_Deadline :: int
  cr_CompletedAt :: "int option"
  cr_TotalItems :: nat
  cr_ReviewedItems :: nat
  cr_AutoRevokedItems :: nat
  cr_CreatedAt :: int
  cr_OrgID :: string

text \<open>A row of \<^verbatim>\<open>user_roles\<close>, \<^verbatim>\<open>group_memberships\<close> or \<^verbatim>\<open>user_application_assignments\<close>; a role or group; a user.\<close>

record assignment =
  as_User :: string
  as_Resource :: string
  as_Org :: string

record named_row =
  nr_ID :: string
  nr_Name :: string
  nr_Org :: string

record review_user =
  ru_ID :: string
  ru_Org :: string
  ru_Enabled :: bool

record review_state =
  rv_reviews :: "AccessReview list"
  rv_items :: "ReviewItem list"
  rv_campaigns :: "ScheduledCampaign list"
  rv_runs :: "CampaignRun list"
  rv_userRoles :: "assignment list"
  rv_memberships :: "assignment list"
  rv_applications :: "assignment list"
  rv_roles :: "named_row list"
  rv_groups :: "named_row list"
  rv_users :: "review_user list"
  rv_audit :: "(string \<times> string \<times> string) list"
  rv_netQueue :: "(string \<times> string) list"
  rv_revoked :: "int redis"

record review_env =
  rn_now :: int
  rn_fails :: "string \<Rightarrow> bool"
  rn_newID :: "nat \<Rightarrow> string"
  rn_runID :: string
  rn_uuid :: "string \<Rightarrow> bool"
  rn_redis :: bool

datatype review_error = RevNoOrg | RevDatabase | RevNotFound | ErrReviewCompleted | ErrInvalidStatusTransition

definition HasRoleInContext :: "gin_context \<Rightarrow> string \<Rightarrow> bool" where
  "HasRoleInContext cx role = (case cx_roles cx of None \<Rightarrow> False | Some rs \<Rightarrow> role \<in> set rs)"

definition inReviewOrg :: "Org \<Rightarrow> string \<Rightarrow> AccessReview \<Rightarrow> bool" where
  "inReviewOrg org i r \<longleftrightarrow> ar_ID r = i \<and> ar_OrgID r = org_ID org"

section \<open>Reviews\<close>

text \<open>The body gives the reviewer as a text; the identifier is drawn when it is empty.\<close>

definition CreateAccessReview ::
    "review_env \<Rightarrow> gin_context \<Rightarrow> AccessReview \<Rightarrow> review_state \<Rightarrow> (review_error + string) \<times> review_state" where
  "CreateAccessReview env cx body st =
     (case cx_org cx of
        None \<Rightarrow> (Inl RevNoOrg, st)
      | Some org \<Rightarrow>
          (let i = (if ar_ID body = [] then rn_newID env 0 else ar_ID body);
               row = body\<lparr>ar_ID := i, ar_CreatedAt := rn_now env, ar_Status := ''pending'', ar_CompletedAt := None,
                 ar_OrgID := org_ID org\<rparr> in
           if rn_fails env ''insertReview'' \<or> (\<exists>r \<in> set (rv_reviews st). ar_ID r = i)
              \<or> (case ar_ReviewerID body of None \<Rightarrow> True | Some u \<Rightarrow> \<not> rn_uuid env u)
           then (Inl RevDatabase, st)
           else (Inr i, st\<lparr>rv_reviews := rv_reviews st @ [row]\<rparr>)))"

text \<open>A review without a reviewer cannot be scanned.\<close>

definition GetAccessReview :: "review_env \<Rightarrow> gin_context \<Rightarrow> string \<Rightarrow> review_state \<Rightarrow> review_error + AccessReview" where
  "GetAccessReview env cx i st =
     (case cx_org cx of
        None \<Rightarrow> Inl RevNoOrg
      | Some org \<Rightarrow>
          (if rn_fails env ''selectReview'' then Inl RevDatabase
           else (case find (inReviewOrg org i) (rv_reviews st) of
                   None \<Rightarrow> Inl RevNotFound
                 | Some r \<Rightarrow> if ar_ReviewerID r = None then Inl RevDatabase else Inr r)))"

definition reviewCounts :: "AccessReview \<Rightarrow> review_state \<Rightarrow> nat \<times> nat" where
  "reviewCounts r st =
     (let items = filter (\<lambda>i. ri_ReviewID i = ar_ID r \<and> ri_OrgID i = ar_OrgID r) (rv_items st) in
      (length items, countWhere (\<lambda>i. ri_Decision i \<noteq> ''pending'') items))"

definition ListAccessReviews ::
    "review_env \<Rightarrow> gin_context \<Rightarrow> nat \<Rightarrow> nat \<Rightarrow> string \<Rightarrow> review_state
     \<Rightarrow> review_error + ((AccessReview \<times> nat \<times> nat) list \<times> nat)" where
  "ListAccessReviews env cx offset limit status st =
     (case cx_org cx of
        None \<Rightarrow> Inl RevNoOrg
      | Some org \<Rightarrow>
          (let rows = filter (\<lambda>r. ar_OrgID r = org_ID org \<and> (status \<noteq> [] \<longrightarrow> ar_Status r = status)) (rv_reviews st);
               page = take limit (drop offset (newestFirst ar_CreatedAt rows)) in
           if rn_fails env ''countReviews'' \<or> rn_fails env ''listReviews''
              \<or> list_ex (\<lambda>r. ar_ReviewerID r = None) page then Inl RevDatabase
           else Inr (map (\<lambda>r. (r, reviewCounts r st)) page, length rows)))"

definition UpdateAccessReview ::
    "review_env \<Rightarrow> gin_context \<Rightarrow> string \<Rightarrow> AccessReview \<Rightarrow> review_state \<Rightarrow> review_error option \<times> review_state" where
  "UpdateAccessReview env cx i upd st =
     (case cx_org cx of
        None \<Rightarrow> (Some RevNoOrg, st)
      | Some org \<Rightarrow>
          (case GetAccessReview env cx i st of
             Inl e \<Rightarrow> (Some e, st)
           | Inr existing \<Rightarrow>
               if ar_Status existing = ''completed'' then (Some ErrReviewCompleted, st)
               else if rn_fails env ''updateReview'' then (Some RevDatabase, st)
               else (None, st\<lparr>rv_reviews := updateWhere (inReviewOrg org i)
                      (\<lambda>r. r\<lparr>ar_Name := ar_Name upd, ar_Description := ar_Description upd,
                         ar_StartDate := ar_StartDate upd, ar_EndDate := ar_EndDate upd\<rparr>) (rv_reviews st)\<rparr>)))"

definition isValidStatusTransition :: "string \<Rightarrow> string \<Rightarrow> bool" where
  "isValidStatusTransition current next =
     (if current = ''pending'' then next \<in> {''in_progress'', ''canceled''}
      else if current = ''in_progress'' then next \<in> {''completed'', ''canceled''}
      else False)"

text \<open>Who holds what: the rows the three kinds of review list.\<close>

definition enabledIn :: "string \<Rightarrow> string \<Rightarrow> review_state \<Rightarrow> bool" where
  "enabledIn orgID u st \<longleftrightarrow> (\<exists>x \<in> set (rv_users st). ru_ID x = u \<and> ru_Enabled x \<and> ru_Org x = orgID)"

definition joinRows ::
    "string \<Rightarrow> (named_row \<Rightarrow> bool) \<Rightarrow> assignment list \<Rightarrow> named_row list \<Rightarrow> review_state \<Rightarrow> (string \<times> string \<times> string) list" where
  "joinRows orgID P held names st =
     concat (map (\<lambda>a. map (\<lambda>r. (as_User a, nr_ID r, nr_Name r))
       (filter (\<lambda>r. nr_ID r = as_Resource a \<and> nr_Org r = orgID \<and> P r) names))
       (filter (\<lambda>a. as_Org a = orgID \<and> enabledIn orgID (as_User a) st) held))"

definition itemsOf :: "review_env \<Rightarrow> string \<Rightarrow> string \<Rightarrow> string \<Rightarrow> (string \<times> string \<times> string) list \<Rightarrow> ReviewItem list" where
  "itemsOf env reviewID orgID kind rows =
     map (\<lambda>(k, u, rid, nm). \<lparr>ri_ID = rn_newID env k, ri_ReviewID = reviewID, ri_UserID = Some u, ri_ResourceType = kind,
       ri_ResourceID = rid, ri_ResourceName = nm, ri_Decision = ''pending'', ri_DecidedBy = None, ri_DecidedAt = None,
       ri_Comments = [], ri_CreatedAt = rn_now env, ri_OrgID = orgID\<rparr>) (enumerate 1 rows)"

definition insertItems ::
    "review_env \<Rightarrow> string \<Rightarrow> string \<Rightarrow> string \<Rightarrow> (string \<times> string \<times> string) list \<Rightarrow> review_state \<Rightarrow> review_state option" where
  "insertItems env reviewID orgID kind rows st =
     (if rn_fails env ''selectAssignments'' \<or> rows \<noteq> [] \<and> rn_fails env ''insertItem'' then None
      else Some (st\<lparr>rv_items := rv_items st @ itemsOf env reviewID orgID kind rows\<rparr>))"

definition populateUserAccessItems :: "review_env \<Rightarrow> Org \<Rightarrow> string \<Rightarrow> review_state \<Rightarrow> review_state option" where
  "populateUserAccessItems env org reviewID st =
     insertItems env reviewID (org_ID org) ''role'' (joinRows (org_ID org) (\<lambda>_. True) (rv_userRoles st) (rv_roles st) st) st"

definition populateApplicationAccessItems :: "review_env \<Rightarrow> Org \<Rightarrow> string \<Rightarrow> review_state \<Rightarrow> review_state option" where
  "populateApplicationAccessItems env org reviewID st =
     insertItems env reviewID (org_ID org) ''group'' (joinRows (org_ID org) (\<lambda>_. True) (rv_memberships st) (rv_groups st) st) st"

definition populatePrivilegedAccessItems :: "review_env \<Rightarrow> Org \<Rightarrow> string \<Rightarrow> review_state \<Rightarrow> review_state option" where
  "populatePrivilegedAccessItems env org reviewID st =
     insertItems env reviewID (org_ID org) ''privileged_role''
       (joinRows (org_ID org) (\<lambda>r. nr_Name r \<in> {''admin'', ''manager'', ''auditor''}) (rv_userRoles st) (rv_roles st) st) st"

definition populateReviewItems :: "review_env \<Rightarrow> Org \<Rightarrow> AccessReview \<Rightarrow> review_state \<Rightarrow> review_state option" where
  "populateReviewItems env org review st =
     (if ar_Type review = ''user_access'' \<or> ar_Type review = ''role_assignment''
      then populateUserAccessItems env org (ar_ID review) st
      else if ar_Type review = ''application_access'' then populateApplicationAccessItems env org (ar_ID review) st
      else if ar_Type review = ''privileged_access'' then populatePrivilegedAccessItems env org (ar_ID review) st
      else Some st)"

definition setReviewStatus :: "review_env \<Rightarrow> Org \<Rightarrow> string \<Rightarrow> string \<Rightarrow> review_state \<Rightarrow> review_state" where
  "setReviewStatus env org i next st =
     st\<lparr>rv_reviews := updateWhere (inReviewOrg org i)
       (\<lambda>r. r\<lparr>ar_Status := next, ar_CompletedAt := (if next = ''completed'' then Some (rn_now env) else None)\<rparr>)
       (rv_reviews st)\<rparr>"

text \<open>The transaction, given the row that was read before it.\<close>

definition applyStatus ::
    "review_env \<Rightarrow> Org \<Rightarrow> AccessReview \<Rightarrow> string \<Rightarrow> review_state \<Rightarrow> review_error option \<times> review_state" where
  "applyStatus env org review next st =
     (if rn_fails env ''beginStatus'' \<or> rn_fails env ''updateStatus'' then (Some RevDatabase, st)
      else (let st1 = setReviewStatus env org (ar_ID review) next st in
        case (if next = ''in_progress'' \<and> ar_Status review = ''pending'' then populateReviewItems env org review st1
              else Some st1) of
          None \<Rightarrow> (Some RevDatabase, st)
        | Some st2 \<Rightarrow> if rn_fails env ''commitStatus'' then (Some RevDatabase, st) else (None, st2)))"

definition UpdateReviewStatus ::
    "review_env \<Rightarrow> gin_context \<Rightarrow> string \<Rightarrow> string \<Rightarrow> review_state \<Rightarrow> review_error option \<times> review_state" where
  "UpdateReviewStatus env cx i next st =
     (case cx_org cx of
        None \<Rightarrow> (Some RevNoOrg, st)
      | Some org \<Rightarrow>
          (case GetAccessReview env cx i st of
             Inl e \<Rightarrow> (Some e, st)
           | Inr review \<Rightarrow>
               if \<not> isValidStatusTransition (ar_Status review) next then (Some ErrInvalidStatusTransition, st)
               else applyStatus env org review next st))"

definition ListReviewItems ::
    "review_env \<Rightarrow> gin_context \<Rightarrow> string \<Rightarrow> nat \<Rightarrow> nat \<Rightarrow> string \<Rightarrow> review_state \<Rightarrow> review_error + (ReviewItem list \<times> nat)" where
  "ListReviewItems env cx reviewID offset limit decisionFilter st =
     (case cx_org cx of
        None \<Rightarrow> Inl RevNoOrg
      | Some org \<Rightarrow>
          (let rows = filter (\<lambda>i. ri_ReviewID i = reviewID \<and> ri_OrgID i = org_ID org
                 \<and> (decisionFilter \<noteq> [] \<longrightarrow> ri_Decision i = decisionFilter)) (rv_items st);
               page = take limit (drop offset (newestFirst ri_CreatedAt rows)) in
           if rn_fails env ''countItems'' \<or> rn_fails env ''listItems'' \<or> list_ex (\<lambda>i. ri_UserID i = None) page
           then Inl RevDatabase
           else Inr (page, length rows)))"


section \<open>Decisions\<close>

definition holds :: "string \<Rightarrow> string \<Rightarrow> string \<Rightarrow> assignment \<Rightarrow> bool" where
  "holds uid rid orgID a \<longleftrightarrow> as_User a = uid \<and> as_Resource a = rid \<and> (orgID \<noteq> [] \<longrightarrow> as_Org a = orgID)"

definition revokeResourceAssignment ::
    "review_env \<Rightarrow> string \<Rightarrow> string \<Rightarrow> string \<Rightarrow> string \<Rightarrow> review_state \<Rightarrow> review_state option" where
  "revokeResourceAssignment env kind uid rid orgID st =
     (if kind = ''role'' \<or> kind = ''privileged_role'' then
        (if rn_fails env ''deleteRole'' then None
         else Some (st\<lparr>rv_userRoles := deleteWhere (holds uid rid orgID) (rv_userRoles st)\<rparr>))
      else if kind = ''group'' then
        (if rn_fails env ''deleteGroup'' then None
         else Some (st\<lparr>rv_memberships := deleteWhere (holds uid rid orgID) (rv_memberships st)\<rparr>))
      else if kind = ''application'' then
        (if rn_fails env ''deleteApplication'' then None
         else Some (st\<lparr>rv_applications := deleteWhere (holds uid rid orgID) (rv_applications st)\<rparr>))
      else None)"

definition enqueueNetworkRevocation :: "review_env \<Rightarrow> string \<Rightarrow> string \<Rightarrow> review_state \<Rightarrow> review_state" where
  "enqueueNetworkRevocation env uid reason st =
     (if uid = [] \<or> rn_fails env ''insertNetQueue'' then st
      else st\<lparr>rv_netQueue := rv_netQueue st @ [(uid, reason)]\<rparr>)"

text \<open>The user whose access was removed, the empty text when the item names none, \<open>None\<close> for an error.\<close>

definition revokeReviewItemAccess ::
    "review_env \<Rightarrow> string \<Rightarrow> string \<Rightarrow> string \<Rightarrow> review_state \<Rightarrow> string option \<times> review_state" where
  "revokeReviewItemAccess env itemID orgID decidedBy st =
     (if rn_fails env ''selectItem'' then (None, st)
      else (case find (\<lambda>i. ri_ID i = itemID \<and> ri_OrgID i = orgID) (rv_items st) of
              None \<Rightarrow> (None, st)
            | Some item \<Rightarrow>
                (case ri_UserID item of
                   None \<Rightarrow> (Some [], st)
                 | Some uid \<Rightarrow>
                     (case revokeResourceAssignment env (ri_ResourceType item) uid (ri_ResourceID item) orgID st of
                        None \<Rightarrow> (None, st)
                      | Some st1 \<Rightarrow>
                          let st2 = enqueueNetworkRevocation env uid ''access_review'' st1 in
                          if rn_fails env ''insertAudit'' then (None, st2)
                          else (Some uid, st2\<lparr>rv_audit := rv_audit st2 @ [(decidedBy, uid, itemID)]\<rparr>)))))"

definition decidedItem :: "string \<Rightarrow> string \<Rightarrow> string \<Rightarrow> ReviewItem \<Rightarrow> bool" where
  "decidedItem reviewID itemID orgID i \<longleftrightarrow> ri_ID i = itemID \<and> ri_ReviewID i = reviewID \<and> ri_OrgID i = orgID"

definition recordDecision :: "review_env \<Rightarrow> string \<Rightarrow> string \<Rightarrow> string \<Rightarrow> ReviewItem \<Rightarrow> ReviewItem" where
  "recordDecision env decision comments decidedBy i =
     i\<lparr>ri_Decision := decision, ri_Comments := comments, ri_DecidedBy := Some decidedBy, ri_DecidedAt := Some (rn_now env)\<rparr>"

text \<open>One item of a transaction: the label, and for a revocation its enforcement.\<close>

definition decideItem ::
    "review_env \<Rightarrow> Org \<Rightarrow> string \<Rightarrow> string \<Rightarrow> string \<Rightarrow> string \<Rightarrow> string \<Rightarrow> review_state \<Rightarrow> string option \<times> review_state" where
  "decideItem env org reviewID decision comments decidedBy itemID st =
     (if rn_fails env ''updateItem'' \<or> \<not> rn_uuid env decidedBy then (None, st)
      else (let P = decidedItem reviewID itemID (org_ID org);
                st1 = st\<lparr>rv_items := updateWhere P (recordDecision env decision comments decidedBy) (rv_items st)\<rparr> in
            if decision = ''revoked'' \<and> list_ex P (rv_items st)
            then revokeReviewItemAccess env itemID (org_ID org) decidedBy st1
            else (Some [], st1)))"

definition rollback :: "review_state \<Rightarrow> review_state \<Rightarrow> review_state" where
  "rollback st st1 = st\<lparr>rv_netQueue := rv_netQueue st1\<rparr>"

definition UserRevocationKey :: "string \<Rightarrow> string" where
  "UserRevocationKey uid = ''auth:user_revoked:'' @ uid"

definition killUserSessions :: "review_env \<Rightarrow> string \<Rightarrow> review_state \<Rightarrow> review_state" where
  "killUserSessions env uid st =
     (if rn_redis env \<and> \<not> rn_fails env ''redisSet''
      then st\<lparr>rv_revoked := redisSetEx (rn_now env) (24 * hour) (UserRevocationKey uid) (rn_now env div second) (rv_revoked st)\<rparr>
      else st)"

definition SubmitReviewDecision ::
    "review_env \<Rightarrow> gin_context \<Rightarrow> string \<Rightarrow> string \<Rightarrow> string \<Rightarrow> string \<Rightarrow> string \<Rightarrow> review_state
     \<Rightarrow> review_error option \<times> review_state" where
  "SubmitReviewDecision env cx reviewID itemID decision comments decidedBy st =
     (case cx_org cx of
        None \<Rightarrow> (Some RevNoOrg, st)
      | Some org \<Rightarrow>
          if rn_fails env ''beginDecision'' then (Some RevDatabase, st)
          else (case decideItem env org reviewID decision comments decidedBy itemID st of
                  (None, st1) \<Rightarrow> (Some RevDatabase, rollback st st1)
                | (Some uid, st1) \<Rightarrow>
                    if rn_fails env ''commitDecision'' then (Some RevDatabase, rollback st st1)
                    else (None, if uid \<noteq> [] then killUserSessions env uid st1 else st1)))"

fun decideItems ::
    "review_env \<Rightarrow> Org \<Rightarrow> string \<Rightarrow> string \<Rightarrow> string \<Rightarrow> string \<Rightarrow> string list \<Rightarrow> review_state \<Rightarrow> string list option \<times> review_state" where
  "decideItems env org reviewID decision comments decidedBy [] st = (Some [], st)"
| "decideItems env org reviewID decision comments decidedBy (i # is) st =
     (case decideItem env org reviewID decision comments decidedBy i st of
        (None, st1) \<Rightarrow> (None, st1)
      | (Some uid, st1) \<Rightarrow>
          (case decideItems env org reviewID decision comments decidedBy is st1 of
             (None, st2) \<Rightarrow> (None, st2)
           | (Some uids, st2) \<Rightarrow> (Some (if uid \<noteq> [] then uid # uids else uids), st2)))"

definition BatchSubmitDecisions ::
    "review_env \<Rightarrow> gin_context \<Rightarrow> string \<Rightarrow> string list \<Rightarrow> string \<Rightarrow> string \<Rightarrow> string \<Rightarrow> review_state
     \<Rightarrow> review_error option \<times> review_state" where
  "BatchSubmitDecisions env cx reviewID itemIDs decision comments decidedBy st =
     (if itemIDs = [] then (None, st)
      else (case cx_org cx of
        None \<Rightarrow> (Some RevNoOrg, st)
      | Some org \<Rightarrow>
          if rn_fails env ''beginDecision'' then (Some RevDatabase, st)
          else (case decideItems env org reviewID decision comments decidedBy itemIDs st of
                  (None, st1) \<Rightarrow> (Some RevDatabase, rollback st st1)
                | (Some uids, st1) \<Rightarrow>
                    if rn_fails env ''commitDecision'' then (Some RevDatabase, rollback st st1)
                    else (None, fold (killUserSessions env) uids st1))))"

section \<open>Handlers\<close>

text \<open>\<open>None\<close> lets the caller decide, otherwise the status of the refusal.\<close>

definition authorizeReviewDecision :: "review_env \<Rightarrow> gin_context \<Rightarrow> string \<Rightarrow> review_state \<Rightarrow> int option" where
  "authorizeReviewDecision env cx reviewID st =
     (if HasRoleInContext cx ''admin'' then None
      else if cx_userID cx = None \<or> cx_userID cx = Some [] then Some 401
      else (case cx_org cx of
              None \<Rightarrow> Some 403
            | Some org \<Rightarrow>
                if rn_fails env ''selectReviewer'' then Some 403
                else (case find (inReviewOrg org reviewID) (rv_reviews st) of
                        None \<Rightarrow> Some 403
                      | Some r \<Rightarrow>
                          (case ar_ReviewerID r of
                             None \<Rightarrow> Some 403
                           | Some u \<Rightarrow> if u = [] \<or> Some u \<noteq> cx_userID cx then Some 403 else None))))"

definition handleCreateReview :: "review_env \<Rightarrow> gin_context \<Rightarrow> AccessReview option \<Rightarrow> review_state \<Rightarrow> int \<times> review_state" where
  "handleCreateReview env cx body st =
     (case body of
        None \<Rightarrow> (400, st)
      | Some b \<Rightarrow> (case CreateAccessReview env cx b st of (Inl _, st1) \<Rightarrow> (500, st1) | (Inr _, st1) \<Rightarrow> (201, st1)))"

definition handleGetReview :: "review_env \<Rightarrow> gin_context \<Rightarrow> string \<Rightarrow> review_state \<Rightarrow> int \<times> AccessReview option" where
  "handleGetReview env cx i st = (case GetAccessReview env cx i st of Inl _ \<Rightarrow> (404, None) | Inr r \<Rightarrow> (200, Some r))"

definition handleUpdateReview :: "review_env \<Rightarrow> gin_context \<Rightarrow> string \<Rightarrow> AccessReview option \<Rightarrow> review_state \<Rightarrow> int \<times> review_state" where
  "handleUpdateReview env cx i body st =
     (case body of
        None \<Rightarrow> (400, st)
      | Some b \<Rightarrow> (case UpdateAccessReview env cx i b st of
          (None, st1) \<Rightarrow> (200, st1) | (Some ErrReviewCompleted, st1) \<Rightarrow> (400, st1) | (Some _, st1) \<Rightarrow> (500, st1)))"

definition handleUpdateReviewStatus :: "review_env \<Rightarrow> gin_context \<Rightarrow> string \<Rightarrow> string option \<Rightarrow> review_state \<Rightarrow> int \<times> review_state" where
  "handleUpdateReviewStatus env cx i body st =
     (case body of
        None \<Rightarrow> (400, st)
      | Some next \<Rightarrow> (case UpdateReviewStatus env cx i next st of
          (None, st1) \<Rightarrow> (200, st1) | (Some ErrInvalidStatusTransition, st1) \<Rightarrow> (400, st1) | (Some _, st1) \<Rightarrow> (500, st1)))"

definition handleSubmitDecision ::
    "review_env \<Rightarrow> gin_context \<Rightarrow> string \<Rightarrow> string \<Rightarrow> (string \<times> string) option \<Rightarrow> review_state \<Rightarrow> int \<times> review_state" where
  "handleSubmitDecision env cx reviewID itemID body st =
     (case body of
        None \<Rightarrow> (400, st)
      | Some (decision, comments) \<Rightarrow>
          (case cx_userID cx of
             None \<Rightarrow> (401, st)
           | Some uid \<Rightarrow>
               (case authorizeReviewDecision env cx reviewID st of
                  Some code \<Rightarrow> (code, st)
                | None \<Rightarrow>
                    (case SubmitReviewDecision env cx reviewID itemID decision comments uid st of
                       (None, st1) \<Rightarrow> (200, st1) | (Some _, st1) \<Rightarrow> (500, st1)))))"

definition handleBatchDecision ::
    "review_env \<Rightarrow> gin_context \<Rightarrow> string \<Rightarrow> (string list \<times> string \<times> string) option \<Rightarrow> review_state \<Rightarrow> int \<times> review_state" where
  "handleBatchDecision env cx reviewID body st =
     (case body of
        None \<Rightarrow> (400, st)
      | Some (itemIDs, decision, comments) \<Rightarrow>
          (case authorizeReviewDecision env cx reviewID st of
             Some code \<Rightarrow> (code, st)
           | None \<Rightarrow>
               (case BatchSubmitDecisions env cx reviewID itemIDs decision comments
                       (case cx_userID cx of None \<Rightarrow> [] | Some u \<Rightarrow> u) st of
                  (None, st1) \<Rightarrow> (200, st1) | (Some _, st1) \<Rightarrow> (500, st1))))"

section \<open>Campaigns\<close>

definition day :: int where
  "day = 24 * hour"

definition computeNextRunAt :: "string \<Rightarrow> int \<Rightarrow> int option" where
  "computeNextRunAt schedule from =
     (if schedule = ''quarterly'' then Some (from + 90 * day)
      else if schedule = ''semi_annual'' then Some (from + 180 * day)
      else if schedule = ''annual'' then Some (from + 365 * day)
      else None)"

definition campaignVisible :: "gin_context \<Rightarrow> string \<Rightarrow> ScheduledCampaign \<Rightarrow> bool" where
  "campaignVisible cx i c \<longleftrightarrow> cp_ID c = i \<and> rowVisible (rlsValuesFromContext cx) (cp_OrgID c)"

definition CreateCampaign ::
    "review_env \<Rightarrow> gin_context \<Rightarrow> ScheduledCampaign \<Rightarrow> review_state \<Rightarrow> (review_error + string) \<times> review_state" where
  "CreateCampaign env cx body st =
     (case cx_org cx of
        None \<Rightarrow> (Inl RevNoOrg, st)
      | Some org \<Rightarrow>
          (let i = (if cp_ID body = [] then rn_newID env 0 else cp_ID body);
               row = body\<lparr>cp_ID := i, cp_CreatedAt := rn_now env, cp_UpdatedAt := rn_now env,
                 cp_Status := (if cp_Status body = [] then ''active'' else cp_Status body),
                 cp_LastRunAt := None, cp_NextRunAt := computeNextRunAt (cp_Schedule body) (rn_now env),
                 cp_OrgID := org_ID org\<rparr> in
           if rn_fails env ''insertCampaign'' \<or> (\<exists>c \<in> set (rv_campaigns st). cp_ID c = i) then (Inl RevDatabase, st)
           else (Inr i, st\<lparr>rv_campaigns := rv_campaigns st @ [row]\<rparr>)))"

definition GetCampaign :: "review_env \<Rightarrow> gin_context \<Rightarrow> string \<Rightarrow> review_state \<Rightarrow> review_error + ScheduledCampaign" where
  "GetCampaign env cx i st =
     (if rn_fails env ''selectCampaign'' then Inl RevDatabase
      else (case find (campaignVisible cx i) (rv_campaigns st) of None \<Rightarrow> Inl RevNotFound | Some c \<Rightarrow> Inr c))"

definition ListCampaigns ::
    "review_env \<Rightarrow> gin_context \<Rightarrow> nat \<Rightarrow> nat \<Rightarrow> string \<Rightarrow> review_state \<Rightarrow> review_error + (ScheduledCampaign list \<times> nat)" where
  "ListCampaigns env cx offset limit status st =
     (let rows = filter (\<lambda>c. rowVisible (rlsValuesFromContext cx) (cp_OrgID c) \<and> (status \<noteq> [] \<longrightarrow> cp_Status c = status))
            (rv_campaigns st) in
      if rn_fails env ''countCampaigns'' \<or> rn_fails env ''listCampaigns'' then Inl RevDatabase
      else Inr (take limit (drop offset (newestFirst cp_CreatedAt rows)), length rows))"

definition UpdateCampaign :: "review_env \<Rightarrow> gin_context \<Rightarrow> ScheduledCampaign \<Rightarrow> review_state \<Rightarrow> review_error option \<times> review_state" where
  "UpdateCampaign env cx body st =
     (if rn_fails env ''updateCampaign'' then (Some RevDatabase, st)
      else (None, st\<lparr>rv_campaigns := updateWhere (campaignVisible cx (cp_ID body))
        (\<lambda>c. c\<lparr>cp_Name := cp_Name body, cp_Description := cp_Description body, cp_Type := cp_Type body,
           cp_Schedule := cp_Schedule body, cp_ReviewerStrategy := cp_ReviewerStrategy body,
           cp_ReviewerID := cp_ReviewerID body, cp_ReviewerRole := cp_ReviewerRole body,
           cp_AutoRevoke := cp_AutoRevoke body, cp_GracePeriodDays := cp_GracePeriodDays body,
           cp_DurationDays := cp_DurationDays body, cp_Status := cp_Status body,
           cp_NextRunAt := computeNextRunAt (cp_Schedule body) (rn_now env), cp_UpdatedAt := rn_now env\<rparr>) (rv_campaigns st)\<rparr>))"

definition runVisible :: "gin_context \<Rightarrow> CampaignRun \<Rightarrow> bool" where
  "runVisible cx r \<longleftrightarrow> rowVisible (rlsValuesFromContext cx) (cr_OrgID r)"

text \<open>The runs go with the campaign, by the statement and by the foreign key.\<close>

definition DeleteCampaign :: "review_env \<Rightarrow> gin_context \<Rightarrow> string \<Rightarrow> review_state \<Rightarrow> review_error option \<times> review_state" where
  "DeleteCampaign env cx i st =
     (if rn_fails env ''deleteRuns'' then (Some RevDatabase, st)
      else (let st1 = st\<lparr>rv_runs := deleteWhere (\<lambda>r. cr_CampaignID r = i \<and> runVisible cx r) (rv_runs st)\<rparr> in
            if rn_fails env ''deleteCampaign'' then (Some RevDatabase, st1)
            else (None, st1\<lparr>rv_campaigns := deleteWhere (campaignVisible cx i) (rv_campaigns st1)\<rparr>)))"

definition GetCampaignRuns :: "review_env \<Rightarrow> gin_context \<Rightarrow> string \<Rightarrow> review_state \<Rightarrow> review_error + CampaignRun list" where
  "GetCampaignRuns env cx i st =
     (if rn_fails env ''selectRuns'' then Inl RevDatabase
      else Inr (newestFirst cr_CreatedAt (filter (\<lambda>r. cr_CampaignID r = i \<and> runVisible cx r) (rv_runs st))))"

text \<open>The first enabled user with the role, in the order of the assignments.\<close>

definition userWithRole :: "string \<Rightarrow> string \<Rightarrow> review_state \<Rightarrow> string option" where
  "userWithRole orgID role st =
     (case joinRows orgID (\<lambda>r. nr_Name r = role) (rv_userRoles st) (rv_roles st) st of
        [] \<Rightarrow> None | (u, _) # _ \<Rightarrow> Some u)"

definition campaignReviewer :: "review_env \<Rightarrow> Org \<Rightarrow> ScheduledCampaign \<Rightarrow> review_state \<Rightarrow> string" where
  "campaignReviewer env org c st =
     (if cp_ReviewerStrategy c = ''specific_user'' \<and> cp_ReviewerID c \<noteq> None then the (cp_ReviewerID c)
      else if cp_ReviewerStrategy c = ''role'' \<and> cp_ReviewerRole c \<noteq> None then
        (if rn_fails env ''selectReviewer'' then []
         else (case userWithRole (org_ID org) (the (cp_ReviewerRole c)) st of None \<Rightarrow> [] | Some u \<Rightarrow> u))
      else [])"

definition RunCampaign ::
    "(string \<Rightarrow> int \<Rightarrow> string) \<Rightarrow> review_env \<Rightarrow> gin_context \<Rightarrow> string \<Rightarrow> review_state \<Rightarrow> (review_error + CampaignRun) \<times> review_state" where
  "RunCampaign reviewName env cx i st =
     (case cx_org cx of
        None \<Rightarrow> (Inl RevNoOrg, st)
      | Some org \<Rightarrow>
          (case GetCampaign env cx i st of
             Inl e \<Rightarrow> (Inl e, st)
           | Inr c \<Rightarrow>
               let deadline = rn_now env + cp_DurationDays c * day;
                   review = \<lparr>ar_ID = [], ar_Name = reviewName (cp_Name c) (rn_now env),
                     ar_Description = ''Auto-generated review from campaign: '' @ cp_Name c, ar_Type = cp_Type c,
                     ar_Status = [], ar_ReviewerID = Some (campaignReviewer env org c st), ar_StartDate = rn_now env,
                     ar_EndDate = deadline, ar_CreatedAt = 0, ar_CompletedAt = None, ar_OrgID = []\<rparr> in
               (case CreateAccessReview env cx review st of
                  (Inl e, st1) \<Rightarrow> (Inl e, st1)
                | (Inr rid, st1) \<Rightarrow>
                    let st2 = snd (UpdateReviewStatus env cx rid ''in_progress'' st1);
                        total = (if rn_fails env ''countItems'' then 0
                          else countWhere (\<lambda>x. ri_ReviewID x = rid \<and> ri_OrgID x = org_ID org) (rv_items st2));
                        run = \<lparr>cr_ID = rn_runID env, cr_CampaignID = i, cr_ReviewID = Some rid,
                          cr_Status = ''in_progress'', cr_StartedAt = rn_now env, cr_Deadline = deadline,
                          cr_CompletedAt = None, cr_TotalItems = total, cr_ReviewedItems = 0, cr_AutoRevokedItems = 0,
                          cr_CreatedAt = rn_now env, cr_OrgID = org_ID org\<rparr> in
                    if rn_fails env ''insertRun'' then (Inl RevDatabase, st2)
                    else (let st3 = st2\<lparr>rv_runs := rv_runs st2 @ [run]\<rparr> in
                      (Inr run,
                       if rn_fails env ''updateRunTimes'' then st3
                       else st3\<lparr>rv_campaigns := updateWhere (campaignVisible cx i)
                         (\<lambda>x. x\<lparr>cp_LastRunAt := Some (rn_now env), cp_NextRunAt := computeNextRunAt (cp_Schedule c) (rn_now env),
                            cp_UpdatedAt := rn_now env\<rparr>) (rv_campaigns st3)\<rparr>)))))"

definition dueCampaigns :: "review_env \<Rightarrow> review_state \<Rightarrow> ScheduledCampaign list" where
  "dueCampaigns env st =
     filter (\<lambda>c. cp_Status c = ''active'' \<and> (case cp_NextRunAt c of None \<Rightarrow> False | Some t \<Rightarrow> t \<le> rn_now env)) (rv_campaigns st)"

text \<open>The scheduler reads across organisations and runs each campaign under its own, still bypassing
  row-level security. Each run draws its identifiers from an environment of its own.\<close>

definition checkCampaignSchedules ::
    "(string \<Rightarrow> int \<Rightarrow> string) \<Rightarrow> (nat \<Rightarrow> review_env) \<Rightarrow> gin_context \<Rightarrow> review_state \<Rightarrow> review_state" where
  "checkCampaignSchedules reviewName envs cx st =
     (if rn_fails (envs 0) ''selectDue'' then st
      else fold (\<lambda>(k, c). \<lambda>s. snd (RunCampaign reviewName (envs k)
             (orgctxWith (WithBypassRLS cx) \<lparr>org_ID = cp_OrgID c, org_Slug = []\<rparr>) (cp_ID c) s))
             (enumerate 0 (dueCampaigns (envs 0) st)) st)"

definition autoRevoke :: "review_env \<Rightarrow> string \<Rightarrow> review_state \<Rightarrow> nat \<times> review_state" where
  "autoRevoke env reviewID st =
     (let P = (\<lambda>i. ri_ReviewID i = reviewID \<and> ri_Decision i = ''pending'');
          pending = countWhere P (rv_items st);
          (n, st1) = (if rn_fails env ''countPending'' \<or> pending = 0 \<or> rn_fails env ''autoRevoke'' then (0, st)
            else (pending, st\<lparr>rv_items := updateWhere P
              (\<lambda>i. i\<lparr>ri_Decision := ''revoked'', ri_Comments := ''Auto-revoked: campaign deadline expired'',
                 ri_DecidedAt := Some (rn_now env)\<rparr>) (rv_items st)\<rparr>)) in
      (n, if rn_fails env ''expireReview'' then st1
          else st1\<lparr>rv_reviews := updateWhere (\<lambda>r. ar_ID r = reviewID)
            (\<lambda>r. r\<lparr>ar_Status := ''expired'', ar_CompletedAt := Some (rn_now env)\<rparr>) (rv_reviews st1)\<rparr>))"

definition expireRun :: "review_env \<Rightarrow> gin_context \<Rightarrow> CampaignRun \<Rightarrow> review_state \<Rightarrow> review_state" where
  "expireRun env cx er st =
     (case GetCampaign env cx (cr_CampaignID er) st of
        Inl _ \<Rightarrow> st
      | Inr c \<Rightarrow>
          let (n, st1) = (case cr_ReviewID er of
                None \<Rightarrow> (0, st) | Some rid \<Rightarrow> if cp_AutoRevoke c then autoRevoke env rid st else (0, st));
              reviewed = (case cr_ReviewID er of
                None \<Rightarrow> 0
              | Some rid \<Rightarrow> if rn_fails env ''countReviewed'' then 0
                  else countWhere (\<lambda>i. ri_ReviewID i = rid \<and> ri_Decision i \<noteq> ''pending'') (rv_items st1)) in
          if rn_fails env ''expireRun'' then st1
          else st1\<lparr>rv_runs := updateWhere (\<lambda>r. cr_ID r = cr_ID er)
            (\<lambda>r. r\<lparr>cr_Status := ''expired'', cr_CompletedAt := Some (rn_now env), cr_ReviewedItems := reviewed,
               cr_AutoRevokedItems := n\<rparr>) (rv_runs st1)\<rparr>)"

definition checkCampaignDeadlines :: "review_env \<Rightarrow> gin_context \<Rightarrow> review_state \<Rightarrow> review_state" where
  "checkCampaignDeadlines env cx st =
     (if rn_fails env ''selectExpired'' then st
      else fold (expireRun env (WithBypassRLS cx))
        (filter (\<lambda>r. cr_Status r = ''in_progress'' \<and> cr_Deadline r < rn_now env) (rv_runs st)) st)"

definition handleCreateCampaign :: "review_env \<Rightarrow> gin_context \<Rightarrow> ScheduledCampaign option \<Rightarrow> review_state \<Rightarrow> int \<times> review_state" where
  "handleCreateCampaign env cx body st =
     (case body of
        None \<Rightarrow> (400, st)
      | Some b \<Rightarrow>
          (case CreateCampaign env cx (case cx_userID cx of None \<Rightarrow> b | Some u \<Rightarrow> b\<lparr>cp_CreatedBy := Some u\<rparr>) st of
             (Inl _, st1) \<Rightarrow> (500, st1) | (Inr _, st1) \<Rightarrow> (201, st1)))"

definition handleUpdateCampaign ::
    "review_env \<Rightarrow> gin_context \<Rightarrow> string \<Rightarrow> ScheduledCampaign option \<Rightarrow> review_state \<Rightarrow> int \<times> review_state" where
  "handleUpdateCampaign env cx i body st =
     (case body of
        None \<Rightarrow> (400, st)
      | Some b \<Rightarrow> (case UpdateCampaign env cx (b\<lparr>cp_ID := i\<rparr>) st of (None, st1) \<Rightarrow> (200, st1) | (Some _, st1) \<Rightarrow> (500, st1)))"

definition handleDeleteCampaign :: "review_env \<Rightarrow> gin_context \<Rightarrow> string \<Rightarrow> review_state \<Rightarrow> int \<times> review_state" where
  "handleDeleteCampaign env cx i st =
     (case DeleteCampaign env cx i st of (None, st1) \<Rightarrow> (204, st1) | (Some _, st1) \<Rightarrow> (500, st1))"

definition handleRunCampaign ::
    "(string \<Rightarrow> int \<Rightarrow> string) \<Rightarrow> review_env \<Rightarrow> gin_context \<Rightarrow> string \<Rightarrow> review_state \<Rightarrow> int \<times> review_state" where
  "handleRunCampaign reviewName env cx i st =
     (case RunCampaign reviewName env cx i st of (Inl _, st1) \<Rightarrow> (500, st1) | (Inr _, st1) \<Rightarrow> (201, st1))"

section \<open>Steps\<close>

text \<open>Every request and background sweep that touches the tables.\<close>

datatype review_op =
    OpCreateReview gin_context "AccessReview option"
  | OpUpdateReview gin_context string "AccessReview option"
  | OpStatus gin_context string "string option"
  | OpDecision gin_context string string "(string \<times> string) option"
  | OpBatch gin_context string "(string list \<times> string \<times> string) option"
  | OpCreateCampaign gin_context "ScheduledCampaign option"
  | OpUpdateCampaign gin_context string "ScheduledCampaign option"
  | OpDeleteCampaign gin_context string
  | OpRunCampaign gin_context string
  | OpSchedules gin_context
  | OpDeadlines gin_context

fun reviewStep :: "(string \<Rightarrow> int \<Rightarrow> string) \<Rightarrow> (nat \<Rightarrow> review_env) \<times> review_op \<Rightarrow> review_state \<Rightarrow> review_state" where
  "reviewStep nm (env, OpCreateReview cx b) st = snd (handleCreateReview (env 0) cx b st)"
| "reviewStep nm (env, OpUpdateReview cx i b) st = snd (handleUpdateReview (env 0) cx i b st)"
| "reviewStep nm (env, OpStatus cx i b) st = snd (handleUpdateReviewStatus (env 0) cx i b st)"
| "reviewStep nm (env, OpDecision cx i j b) st = snd (handleSubmitDecision (env 0) cx i j b st)"
| "reviewStep nm (env, OpBatch cx i b) st = snd (handleBatchDecision (env 0) cx i b st)"
| "reviewStep nm (env, OpCreateCampaign cx b) st = snd (handleCreateCampaign (env 0) cx b st)"
| "reviewStep nm (env, OpUpdateCampaign cx i b) st = snd (handleUpdateCampaign (env 0) cx i b st)"
| "reviewStep nm (env, OpDeleteCampaign cx i) st = snd (handleDeleteCampaign (env 0) cx i st)"
| "reviewStep nm (env, OpRunCampaign cx i) st = snd (handleRunCampaign nm (env 0) cx i st)"
| "reviewStep nm (env, OpSchedules cx) st = checkCampaignSchedules nm env cx st"
| "reviewStep nm (env, OpDeadlines cx) st = checkCampaignDeadlines (env 0) cx st"

section \<open>Frames\<close>

text \<open>What an operation that decides nothing keeps: the assignments, and every item that exists.\<close>

definition keepsDecisions :: "review_state \<Rightarrow> review_state \<Rightarrow> bool" where
  "keepsDecisions st st' \<longleftrightarrow> rv_userRoles st' = rv_userRoles st \<and> rv_memberships st' = rv_memberships st
     \<and> rv_applications st' = rv_applications st \<and> (\<exists>new. rv_items st' = rv_items st @ new)"

lemma keepsDecisions_refl [simp]: "keepsDecisions st st"
  by (simp add: keepsDecisions_def)

lemma keepsDecisions_trans: "keepsDecisions a b \<Longrightarrow> keepsDecisions b c \<Longrightarrow> keepsDecisions a c"
  by (auto simp: keepsDecisions_def)

lemma keepsDecisions_update [simp]:
  "keepsDecisions st (st'\<lparr>rv_reviews := r\<rparr>) \<longleftrightarrow> keepsDecisions st st'"
  "keepsDecisions st (st'\<lparr>rv_campaigns := c\<rparr>) \<longleftrightarrow> keepsDecisions st st'"
  "keepsDecisions st (st'\<lparr>rv_runs := n\<rparr>) \<longleftrightarrow> keepsDecisions st st'"
  by (simp_all add: keepsDecisions_def)

lemma keeps_CreateAccessReview: "keepsDecisions st (snd (CreateAccessReview env cx b st))"
  by (simp add: CreateAccessReview_def Let_def split: option.split)

lemma keeps_UpdateAccessReview: "keepsDecisions st (snd (UpdateAccessReview env cx i b st))"
  by (simp add: UpdateAccessReview_def split: option.split sum.split)

lemma keeps_insertItems: "insertItems env i oid kind rows st = Some st' \<Longrightarrow> keepsDecisions st st'"
  by (auto simp: insertItems_def keepsDecisions_def split: if_splits)

lemma keeps_populate: "populateReviewItems env org r st = Some st' \<Longrightarrow> keepsDecisions st st'"
  by (auto simp: populateReviewItems_def populateUserAccessItems_def populateApplicationAccessItems_def
      populatePrivilegedAccessItems_def dest!: keeps_insertItems split: if_splits)

lemma keeps_setReviewStatus [simp]: "keepsDecisions st (setReviewStatus env org i next st') \<longleftrightarrow> keepsDecisions st st'"
  by (simp add: setReviewStatus_def)

lemma keeps_applyStatus: "keepsDecisions st (snd (applyStatus env org r next st))"
proof -
  have "keepsDecisions st st2" if "populateReviewItems env org r (setReviewStatus env org (ar_ID r) next st) = Some st2" for st2
    using keeps_populate [OF that] by (rule keepsDecisions_trans [rotated]) simp
  then show ?thesis by (simp add: applyStatus_def Let_def split: option.split)
qed

lemma keeps_UpdateReviewStatus: "keepsDecisions st (snd (UpdateReviewStatus env cx i next st))"
  using keeps_applyStatus by (simp add: UpdateReviewStatus_def split: option.split sum.split)

lemma keeps_RunCampaign: "keepsDecisions st (snd (RunCampaign nm env cx i st))"
proof -
  have created: "keepsDecisions st st1" if "CreateAccessReview env cx b st = (r, st1)" for st1 b r
    using keeps_CreateAccessReview [of st env cx b] that by simp
  have started: "keepsDecisions st (snd (UpdateReviewStatus env cx rid next st1))"
    if "CreateAccessReview env cx b st = (r, st1)" for rid st1 b r "next"
    by (rule keepsDecisions_trans [OF created [OF that] keeps_UpdateReviewStatus])
  from created started show ?thesis
    by (simp add: RunCampaign_def Let_def split: option.split sum.split prod.split)
qed

lemma keeps_fold:
  assumes "\<And>x s. x \<in> set xs \<Longrightarrow> keepsDecisions s (f x s)"
  shows "keepsDecisions st (fold f xs st)"
  using assms
proof (induction xs arbitrary: st)
  case (Cons x xs)
  have "keepsDecisions st (f x st)" using Cons.prems by simp
  moreover have "keepsDecisions (f x st) (fold f xs (f x st))" using Cons by simp
  ultimately show ?case by (auto intro: keepsDecisions_trans)
qed simp

lemma keeps_checkCampaignSchedules: "keepsDecisions st (checkCampaignSchedules nm envs cx st)"
  unfolding checkCampaignSchedules_def by (auto intro!: keeps_fold keeps_RunCampaign split: prod.split)

lemma rollback_sel [simp]:
  "rv_items (rollback st st1) = rv_items st" "rv_reviews (rollback st st1) = rv_reviews st"
  "rv_userRoles (rollback st st1) = rv_userRoles st" "rv_memberships (rollback st st1) = rv_memberships st"
  "rv_applications (rollback st st1) = rv_applications st" "rv_audit (rollback st st1) = rv_audit st"
  "rv_campaigns (rollback st st1) = rv_campaigns st" "rv_runs (rollback st st1) = rv_runs st"
  by (simp_all add: rollback_def)

lemma kill_sel [simp]:
  "rv_items (killUserSessions env u st) = rv_items st" "rv_reviews (killUserSessions env u st) = rv_reviews st"
  "rv_userRoles (killUserSessions env u st) = rv_userRoles st"
  "rv_memberships (killUserSessions env u st) = rv_memberships st"
  "rv_applications (killUserSessions env u st) = rv_applications st"
  by (simp_all add: killUserSessions_def)

lemma fold_kill_sel [simp]:
  "rv_items (fold (killUserSessions env) us st) = rv_items st"
  "rv_reviews (fold (killUserSessions env) us st) = rv_reviews st"
  "rv_userRoles (fold (killUserSessions env) us st) = rv_userRoles st"
  "rv_memberships (fold (killUserSessions env) us st) = rv_memberships st"
  "rv_applications (fold (killUserSessions env) us st) = rv_applications st"
  by (induction us arbitrary: st; simp)+

section \<open>Who can change what\<close>

definition assignments :: "review_state \<Rightarrow> assignment set" where
  "assignments st = set (rv_userRoles st) \<union> set (rv_memberships st) \<union> set (rv_applications st)"

fun decides :: "review_op \<Rightarrow> (gin_context \<times> string \<times> string) option" where
  "decides (OpDecision cx rid _ (Some (decision, _))) = Some (cx, rid, decision)"
| "decides (OpBatch cx rid (Some (_, decision, _))) = Some (cx, rid, decision)"
| "decides _ = None"

definition mayDecide :: "gin_context \<Rightarrow> string \<Rightarrow> review_state \<Rightarrow> bool" where
  "mayDecide cx rid st \<longleftrightarrow> HasRoleInContext cx ''admin''
     \<or> (\<exists>org r u. cx_org cx = Some org \<and> r \<in> set (rv_reviews st) \<and> inReviewOrg org rid r \<and> u \<noteq> []
          \<and> ar_ReviewerID r = Some u \<and> cx_userID cx = Some u)"

lemma authorize_mayDecide: "authorizeReviewDecision env cx rid st = None \<Longrightarrow> mayDecide cx rid st"
  unfolding authorizeReviewDecision_def mayDecide_def
  by (auto split: if_splits option.splits dest!: find_Some_mem)

lemma keepsDecisions_D:
  assumes "keepsDecisions st st'"
  shows "x \<in> set (rv_items st) \<Longrightarrow> x \<in> set (rv_items st')" "assignments st' = assignments st"
  using assms by (auto simp: keepsDecisions_def assignments_def)

lemma revokeResourceAssignment_frame:
  assumes "revokeResourceAssignment env kind uid rid orgID st = Some st'"
  shows "rv_items st' = rv_items st \<and> rv_reviews st' = rv_reviews st \<and> assignments st' \<subseteq> assignments st"
  using assms by (auto simp: revokeResourceAssignment_def assignments_def split: if_splits)

lemma assignments_update [simp]:
  "assignments (st\<lparr>rv_items := i\<rparr>) = assignments st" "assignments (st\<lparr>rv_netQueue := q\<rparr>) = assignments st"
  "assignments (st\<lparr>rv_audit := a\<rparr>) = assignments st" "assignments (st\<lparr>rv_reviews := r\<rparr>) = assignments st"
  "assignments (st\<lparr>rv_runs := n\<rparr>) = assignments st"
  "assignments (rollback st st1) = assignments st" "assignments (killUserSessions env u st) = assignments st"
  "assignments (fold (killUserSessions env) us st) = assignments st"
  by (simp_all add: assignments_def)

lemma enqueue_frame [simp]:
  "rv_items (enqueueNetworkRevocation env u why st) = rv_items st"
  "rv_reviews (enqueueNetworkRevocation env u why st) = rv_reviews st"
  "rv_userRoles (enqueueNetworkRevocation env u why st) = rv_userRoles st"
  "rv_memberships (enqueueNetworkRevocation env u why st) = rv_memberships st"
  "rv_applications (enqueueNetworkRevocation env u why st) = rv_applications st"
  "assignments (enqueueNetworkRevocation env u why st) = assignments st"
  by (simp_all add: enqueueNetworkRevocation_def assignments_def)

lemma revokeReviewItemAccess_frame:
  assumes "revokeReviewItemAccess env i oid by st = (r, st')"
  shows "rv_items st' = rv_items st \<and> rv_reviews st' = rv_reviews st \<and> assignments st' \<subseteq> assignments st"
  using assms
  by (auto simp: revokeReviewItemAccess_def Let_def dest!: revokeResourceAssignment_frame split: if_splits option.splits)

text \<open>What deciding one item of a review may do to the state.\<close>

definition decidesOnly :: "string \<Rightarrow> string \<Rightarrow> string \<Rightarrow> review_state \<Rightarrow> review_state \<Rightarrow> bool" where
  "decidesOnly rid oid decision st st' \<longleftrightarrow>
     (\<forall>x \<in> set (rv_items st). x \<in> set (rv_items st') \<or> ri_ReviewID x = rid \<and> ri_OrgID x = oid)
     \<and> (assignments st' = assignments st \<or> decision = ''revoked'')"

lemma decidesOnly_refl [simp]: "decidesOnly rid oid decision st st"
  by (simp add: decidesOnly_def)

lemma decidesOnly_trans:
  "decidesOnly rid oid d a b \<Longrightarrow> decidesOnly rid oid d b c \<Longrightarrow> decidesOnly rid oid d a c"
  unfolding decidesOnly_def by blast

lemma decidesOnly_updateWhere:
  "decidesOnly rid oid d st (st\<lparr>rv_items := updateWhere (decidedItem rid iid oid) f (rv_items st)\<rparr>)"
  by (auto simp: decidesOnly_def set_updateWhere decidedItem_def image_iff)

lemma decideItem_decidesOnly:
  assumes "decideItem env org rid d c by iid st = (r, st')"
  shows "decidesOnly rid (org_ID org) d st st'"
proof (cases "rn_fails env ''updateItem'' \<or> \<not> rn_uuid env by")
  case True
  with assms show ?thesis by (simp add: decideItem_def)
next
  case False
  let ?st1 = "st\<lparr>rv_items := updateWhere (decidedItem rid iid (org_ID org)) (recordDecision env d c by) (rv_items st)\<rparr>"
  show ?thesis
  proof (cases "d = ''revoked'' \<and> list_ex (decidedItem rid iid (org_ID org)) (rv_items st)")
    case True
    then have d: "d = ''revoked''" and "revokeReviewItemAccess env iid (org_ID org) by ?st1 = (r, st')"
      using assms False by (simp_all add: decideItem_def Let_def)
    then have "rv_items st' = rv_items ?st1" using revokeReviewItemAccess_frame by blast
    with d decidesOnly_updateWhere [of rid "org_ID org" d st iid] show ?thesis
      unfolding decidesOnly_def by simp
  next
    case False
    with \<open>\<not> (rn_fails env ''updateItem'' \<or> \<not> rn_uuid env by)\<close> assms have "st' = ?st1"
      by (auto simp: decideItem_def Let_def split: if_splits)
    then show ?thesis by (simp add: decidesOnly_updateWhere)
  qed
qed

lemma decideItems_decidesOnly:
  "decideItems env org rid d c by ids st = (r, st') \<Longrightarrow> decidesOnly rid (org_ID org) d st st'"
proof (induction ids arbitrary: st r st')
  case (Cons i ids)
  obtain r1 st1 where one: "decideItem env org rid d c by i st = (r1, st1)" by (cases "decideItem env org rid d c by i st")
  note first = decideItem_decidesOnly [OF one]
  show ?case
  proof (cases r1)
    case None
    with Cons.prems one first show ?thesis by simp
  next
    case (Some uid)
    obtain r2 st2 where two: "decideItems env org rid d c by ids st1 = (r2, st2)"
      by (cases "decideItems env org rid d c by ids st1")
    with Cons.prems one Some have "st2 = st'" by (simp split: option.splits)
    with Cons.IH [OF two] first show ?thesis by (auto intro: decidesOnly_trans)
  qed
qed simp

lemma decidesOnly_same:
  "decidesOnly rid oid d st st1 \<Longrightarrow> rv_items st2 = rv_items st1 \<Longrightarrow> assignments st2 = assignments st1 \<Longrightarrow> decidesOnly rid oid d st st2"
  by (simp add: decidesOnly_def)

lemma decidesOnly_unchanged:
  "rv_items st2 = rv_items st \<Longrightarrow> assignments st2 = assignments st \<Longrightarrow> decidesOnly rid oid d st st2"
  by (simp add: decidesOnly_def)

lemma Submit_decidesOnly:
  assumes "cx_org cx = Some org"
  shows "decidesOnly rid (org_ID org) d st (snd (SubmitReviewDecision env cx rid iid d c by st))"
proof -
  obtain r st1 where one: "decideItem env org rid d c by iid st = (r, st1)" by (cases "decideItem env org rid d c by iid st")
  show ?thesis
    using decideItem_decidesOnly [OF one]
    by (auto simp: SubmitReviewDecision_def assms one intro: decidesOnly_same decidesOnly_unchanged split: option.split)
qed

lemma Batch_decidesOnly:
  assumes "cx_org cx = Some org"
  shows "decidesOnly rid (org_ID org) d st (snd (BatchSubmitDecisions env cx rid ids d c by st))"
proof -
  obtain r st1 where one: "decideItems env org rid d c by ids st = (r, st1)" by (cases "decideItems env org rid d c by ids st")
  show ?thesis
    using decideItems_decidesOnly [OF one]
    by (auto simp: BatchSubmitDecisions_def assms one intro: decidesOnly_same decidesOnly_unchanged split: option.split)
qed

lemma decision_authorized:
  assumes "authorizeReviewDecision env cx rid st = None" and "cx_org cx = Some org" and "decidesOnly rid (org_ID org) d st st'"
  shows "(x \<in> set (rv_items st) \<and> x \<notin> set (rv_items st') \<longrightarrow>
       mayDecide cx rid st \<and> ri_ReviewID x = rid \<and> (\<exists>o'. cx_org cx = Some o' \<and> ri_OrgID x = org_ID o'))
     \<and> (assignments st' \<noteq> assignments st \<longrightarrow> mayDecide cx rid st \<and> d = ''revoked'')"
  using authorize_mayDecide [OF assms(1)] assms(2,3) unfolding decidesOnly_def by blast

text \<open>The conclusion of the theorem below, for a step \<open>st\<close> to \<open>st'\<close> that decides nothing.\<close>

lemma kept_authorized:
  "keepsDecisions st st' \<Longrightarrow> \<not> (x \<in> set (rv_items st) \<and> x \<notin> set (rv_items st')) \<and> assignments st' = assignments st"
  using keepsDecisions_D by blast

lemma snd_handlers:
  "snd (handleCreateReview env cx b st) = (case b of None \<Rightarrow> st | Some x \<Rightarrow> snd (CreateAccessReview env cx x st))"
  "snd (handleUpdateReview env cx i b st) = (case b of None \<Rightarrow> st | Some x \<Rightarrow> snd (UpdateAccessReview env cx i x st))"
  "snd (handleUpdateReviewStatus env cx i s st) = (case s of None \<Rightarrow> st | Some x \<Rightarrow> snd (UpdateReviewStatus env cx i x st))"
  "snd (handleRunCampaign nm env cx i st) = snd (RunCampaign nm env cx i st)"
  by (auto simp: handleCreateReview_def handleUpdateReview_def handleUpdateReviewStatus_def handleRunCampaign_def
      split: option.split prod.split sum.split review_error.split)

lemma handle_kept:
  "keepsDecisions st (snd (handleCreateReview env cx b st))" "keepsDecisions st (snd (handleUpdateReview env cx i b st))"
  "keepsDecisions st (snd (handleUpdateReviewStatus env cx i s st))" "keepsDecisions st (snd (handleCreateCampaign env cx cb st))"
  "keepsDecisions st (snd (handleUpdateCampaign env cx i cb st))" "keepsDecisions st (snd (handleDeleteCampaign env cx i st))"
  "keepsDecisions st (snd (handleRunCampaign nm env cx i st))"
  unfolding snd_handlers
  by (auto simp: keeps_CreateAccessReview keeps_UpdateAccessReview keeps_UpdateReviewStatus keeps_RunCampaign
      handleCreateCampaign_def CreateCampaign_def handleUpdateCampaign_def UpdateCampaign_def handleDeleteCampaign_def
      DeleteCampaign_def Let_def split: option.split prod.split sum.split)

lemma autoRevoke_frame:
  assumes "autoRevoke env rid st = (n, st')"
  shows "assignments st' = assignments st \<and> rv_campaigns st' = rv_campaigns st
     \<and> (\<forall>x \<in> set (rv_items st). x \<in> set (rv_items st') \<or> ri_Decision x = ''pending'')"
  using assms unfolding autoRevoke_def Let_def
  by (auto simp: set_updateWhere image_iff assignments_def split: if_splits)

lemma expireRun_frame:
  "assignments (expireRun env cx er st) = assignments st \<and> rv_campaigns (expireRun env cx er st) = rv_campaigns st
     \<and> (\<forall>x \<in> set (rv_items st). x \<in> set (rv_items (expireRun env cx er st)) \<or> ri_Decision x = ''pending'')"
proof -
  have "assignments st1 = assignments st \<and> rv_campaigns st1 = rv_campaigns st
     \<and> (\<forall>x \<in> set (rv_items st). x \<in> set (rv_items st1) \<or> ri_Decision x = ''pending'')"
    if "(case cr_ReviewID er of None \<Rightarrow> (0, st) | Some rid \<Rightarrow> if cp_AutoRevoke c then autoRevoke env rid st else (0, st)) = (n, st1)"
    for c n st1
    using that by (auto dest: autoRevoke_frame split: option.splits if_splits)
  then show ?thesis
    by (simp add: expireRun_def Let_def split: sum.split prod.split) blast
qed

lemma sweep_frame:
  "assignments (fold (expireRun env cx) runs st) = assignments st
   \<and> (\<forall>x \<in> set (rv_items st). x \<in> set (rv_items (fold (expireRun env cx) runs st)) \<or> ri_Decision x = ''pending'')"
proof (induction runs arbitrary: st)
  case (Cons r runs)
  then show ?case using expireRun_frame [of env cx r st] by (auto; blast)
qed simp

text \<open>A decision request either changes neither items nor assignments, or it is authorised and decides the
  items of its review.\<close>

lemma handleSubmitDecision_cases:
  obtains (same) "rv_items (snd (handleSubmitDecision env cx rid iid b st)) = rv_items st"
      "assignments (snd (handleSubmitDecision env cx rid iid b st)) = assignments st"
  | (decided) org d c where "b = Some (d, c)" "authorizeReviewDecision env cx rid st = None" "cx_org cx = Some org"
      "decidesOnly rid (org_ID org) d st (snd (handleSubmitDecision env cx rid iid b st))"
proof (cases "\<exists>d c uid org. b = Some (d, c) \<and> cx_userID cx = Some uid \<and> cx_org cx = Some org
      \<and> authorizeReviewDecision env cx rid st = None")
  case True
  then obtain d c uid org where h: "b = Some (d, c)" "cx_userID cx = Some uid" "cx_org cx = Some org"
    "authorizeReviewDecision env cx rid st = None" by blast
  have "snd (handleSubmitDecision env cx rid iid b st) = snd (SubmitReviewDecision env cx rid iid d c uid st)"
    by (simp add: handleSubmitDecision_def h split: prod.split option.split)
  with Submit_decidesOnly [OF h(3)] h show thesis by (intro decided) simp_all
next
  case False
  then have "snd (handleSubmitDecision env cx rid iid b st) = st"
    by (auto simp: handleSubmitDecision_def SubmitReviewDecision_def split: prod.splits option.splits)
  then show thesis by (intro same) simp_all
qed

lemma handleBatchDecision_cases:
  obtains (same) "rv_items (snd (handleBatchDecision env cx rid b st)) = rv_items st"
      "assignments (snd (handleBatchDecision env cx rid b st)) = assignments st"
  | (decided) org ids d c where "b = Some (ids, d, c)" "authorizeReviewDecision env cx rid st = None" "cx_org cx = Some org"
      "decidesOnly rid (org_ID org) d st (snd (handleBatchDecision env cx rid b st))"
proof (cases "\<exists>ids d c org. b = Some (ids, d, c) \<and> cx_org cx = Some org \<and> authorizeReviewDecision env cx rid st = None")
  case True
  then obtain ids d c org where h: "b = Some (ids, d, c)" "cx_org cx = Some org"
    "authorizeReviewDecision env cx rid st = None" by blast
  have "snd (handleBatchDecision env cx rid b st) = snd (BatchSubmitDecisions env cx rid ids d c
     (case cx_userID cx of None \<Rightarrow> [] | Some u \<Rightarrow> u) st)"
    by (simp add: handleBatchDecision_def h split: prod.split option.split)
  with Batch_decidesOnly [OF h(2)] h show thesis by (intro decided) simp_all
next
  case False
  then have "snd (handleBatchDecision env cx rid b st) = st"
    by (auto simp: handleBatchDecision_def BatchSubmitDecisions_def split: prod.splits option.splits)
  then show thesis by (intro same) simp_all
qed


section \<open>A decision to revoke is enforced\<close>

definition heldIn :: "string \<Rightarrow> review_state \<Rightarrow> assignment list" where
  "heldIn kind st =
     (if kind = ''role'' \<or> kind = ''privileged_role'' then rv_userRoles st
      else if kind = ''group'' then rv_memberships st
      else if kind = ''application'' then rv_applications st
      else [])"

definition itemFacts :: "ReviewItem \<Rightarrow> string \<times> string \<times> string \<times> string option \<times> string \<times> string" where
  "itemFacts i = (ri_ID i, ri_ReviewID i, ri_OrgID i, ri_UserID i, ri_ResourceType i, ri_ResourceID i)"

lemma heldIn_sel [simp]:
  "heldIn kind (st\<lparr>rv_items := i\<rparr>) = heldIn kind st" "heldIn kind (st\<lparr>rv_audit := a\<rparr>) = heldIn kind st"
  "heldIn kind (enqueueNetworkRevocation env u why st) = heldIn kind st"
  "heldIn kind (killUserSessions env u st) = heldIn kind st"
  "heldIn kind (fold (killUserSessions env) us st) = heldIn kind st"
  by (simp_all add: heldIn_def)

lemma revokeResourceAssignment_cases:
  assumes "revokeResourceAssignment env kind u res oid st = Some st'"
  obtains (role) "kind = ''role'' \<or> kind = ''privileged_role''"
      "st' = st\<lparr>rv_userRoles := deleteWhere (holds u res oid) (rv_userRoles st)\<rparr>"
  | (group) "kind = ''group''" "st' = st\<lparr>rv_memberships := deleteWhere (holds u res oid) (rv_memberships st)\<rparr>"
  | (application) "kind = ''application''" "st' = st\<lparr>rv_applications := deleteWhere (holds u res oid) (rv_applications st)\<rparr>"
proof (cases "kind = ''role'' \<or> kind = ''privileged_role''")
  case True
  with assms show thesis by (intro role) (simp_all add: revokeResourceAssignment_def split: if_splits)
next
  case False
  with assms show thesis
    by (cases "kind = ''group''") (auto intro: group application simp: revokeResourceAssignment_def split: if_splits)
qed

lemma revoke_removes:
  assumes "revokeResourceAssignment env kind u res oid st = Some st'"
  shows "\<forall>a \<in> set (heldIn kind st'). \<not> holds u res oid a" and "set (heldIn k st') \<subseteq> set (heldIn k st)"
  using assms by (cases rule: revokeResourceAssignment_cases; auto simp: heldIn_def)+

lemma revokeReviewItemAccess_cases:
  assumes "revokeReviewItemAccess env iid oid by st = (r, st')"
  obtains (same) "st' = st"
  | (revoked) kind u res st2 where "revokeResourceAssignment env kind u res oid st = Some st2"
      "rv_items st' = rv_items st2" "\<And>k. heldIn k st' = heldIn k st2"
proof (cases "find (\<lambda>i. ri_ID i = iid \<and> ri_OrgID i = oid) (rv_items st)")
  case None
  with assms show thesis by (intro same) (simp add: revokeReviewItemAccess_def split: if_splits)
next
  case (Some item)
  note found = this
  show thesis
  proof (cases "ri_UserID item")
    case None
    with assms found show thesis by (intro same) (simp add: revokeReviewItemAccess_def split: if_splits)
  next
    case (Some u)
    let ?del = "revokeResourceAssignment env (ri_ResourceType item) u (ri_ResourceID item) oid st"
    show thesis
    proof (cases ?del)
      case None
      with assms found Some show thesis by (intro same) (simp add: revokeReviewItemAccess_def split: if_splits)
    next
      case (Some st2)
      show thesis
      proof (cases "rn_fails env ''selectItem''")
        case True
        with assms show thesis by (intro same) (simp add: revokeReviewItemAccess_def)
      next
        case False
        with assms found \<open>ri_UserID item = Some u\<close> Some show thesis
          by (intro revoked [OF Some]) (simp_all add: revokeReviewItemAccess_def Let_def split: if_splits; fastforce)+
      qed
    qed
  qed
qed

lemma revokeReviewItemAccess_mono:
  assumes "revokeReviewItemAccess env iid oid by st = (r, st')"
  shows "set (heldIn k st') \<subseteq> set (heldIn k st)"
  using assms
proof (cases rule: revokeReviewItemAccess_cases)
  case (revoked kind u res st2)
  from revoke_removes(2) [OF revoked(1)] revoked(3) show ?thesis by simp
qed simp

lemma recordDecision_facts [simp]: "itemFacts (recordDecision env d c by i) = itemFacts i" "ri_ID (recordDecision env d c by i) = ri_ID i"
  by (simp_all add: itemFacts_def recordDecision_def)

lemma decideItem_keeps:
  assumes "decideItem env org rid d c by iid st = (r, st')"
  shows "map itemFacts (rv_items st') = map itemFacts (rv_items st)" and "set (heldIn k st') \<subseteq> set (heldIn k st)"
proof -
  let ?st1 = "st\<lparr>rv_items := updateWhere (decidedItem rid iid (org_ID org)) (recordDecision env d c by) (rv_items st)\<rparr>"
  have facts: "map itemFacts (rv_items ?st1) = map itemFacts (rv_items st)"
    by (simp add: map_updateWhere_key)
  consider "st' = st" | "st' = ?st1" | "revokeReviewItemAccess env iid (org_ID org) by ?st1 = (r, st')"
    using assms by (auto simp: decideItem_def Let_def split: if_splits)
  then show "map itemFacts (rv_items st') = map itemFacts (rv_items st)" "set (heldIn k st') \<subseteq> set (heldIn k st)"
    using facts revokeReviewItemAccess_frame [of env iid "org_ID org" "by" ?st1 r st']
      revokeReviewItemAccess_mono [of env iid "org_ID org" "by" ?st1 r st' k]
    by (cases; simp)+
qed

lemma item_of_facts:
  assumes "t \<in> set (map itemFacts items)"
  obtains x where "x \<in> set items" "itemFacts x = t"
  using assms by auto

lemma facts_ids: "map itemFacts xs = map itemFacts ys \<Longrightarrow> map ri_ID xs = map ri_ID ys"
proof -
  assume eq: "map itemFacts xs = map itemFacts ys"
  have "map ri_ID zs = map fst (map itemFacts zs)" for zs by (simp add: itemFacts_def comp_def)
  with eq show ?thesis by metis
qed

lemma decideItem_enforces:
  assumes "decideItem env org rid ''revoked'' c by iid st = (Some uid, st')"
    and "distinct (map ri_ID (rv_items st))"
    and "(iid, rid, org_ID org, Some u, kind, res) \<in> set (map itemFacts (rv_items st))"
  shows "\<forall>a \<in> set (heldIn kind st'). \<not> holds u res (org_ID org) a"
proof -
  let ?P = "decidedItem rid iid (org_ID org)"
  let ?st1 = "st\<lparr>rv_items := updateWhere ?P (recordDecision env ''revoked'' c by) (rv_items st)\<rparr>"
  have facts1: "map itemFacts (rv_items ?st1) = map itemFacts (rv_items st)" by (simp add: map_updateWhere_key)
  obtain x where x: "x \<in> set (rv_items st)" "itemFacts x = (iid, rid, org_ID org, Some u, kind, res)"
    using assms(3) by (rule item_of_facts)
  then have "list_ex ?P (rv_items st)" by (auto simp: list_ex_iff decidedItem_def itemFacts_def)
  then have run: "revokeReviewItemAccess env iid (org_ID org) by ?st1 = (Some uid, st')"
    using assms(1) by (auto simp: decideItem_def Let_def split: if_splits)
  have "(iid, rid, org_ID org, Some u, kind, res) \<in> set (map itemFacts (rv_items ?st1))"
    unfolding facts1 by (rule assms(3))
  then obtain y where y: "y \<in> set (rv_items ?st1)" "itemFacts y = (iid, rid, org_ID org, Some u, kind, res)"
    by (rule item_of_facts)
  have dist: "distinct (map ri_ID (rv_items ?st1))" using assms(2) facts_ids [OF facts1] by simp
  obtain z where z: "find (\<lambda>i. ri_ID i = iid \<and> ri_OrgID i = org_ID org) (rv_items ?st1) = Some z"
    using find_present [OF y(1), of "\<lambda>i. ri_ID i = iid \<and> ri_OrgID i = org_ID org"] y(2) by (auto simp: itemFacts_def)
  then have "z = y" using distinct_key_eq [OF dist] y find_Some_mem [OF z] by (auto simp: itemFacts_def)
  with y have "ri_UserID z = Some u" "ri_ResourceType z = kind" "ri_ResourceID z = res" by (auto simp: itemFacts_def)
  with run z obtain st2 where del: "revokeResourceAssignment env kind u res (org_ID org) ?st1 = Some st2"
    and "heldIn kind st' = heldIn kind st2"
    by (auto simp: revokeReviewItemAccess_def Let_def split: if_splits option.splits)
  with revoke_removes(1) [OF del] show ?thesis by simp
qed

lemma decideItems_enforces:
  assumes "decideItems env org rid ''revoked'' c by ids st = (Some uids, st')"
    and "distinct (map ri_ID (rv_items st))" and "iid \<in> set ids"
    and "(iid, rid, org_ID org, Some u, kind, res) \<in> set (map itemFacts (rv_items st))"
  shows "\<forall>a \<in> set (heldIn kind st'). \<not> holds u res (org_ID org) a"
  using assms
proof (induction ids arbitrary: st uids)
  case (Cons i ids)
  obtain uid st1 where one: "decideItem env org rid ''revoked'' c by i st = (Some uid, st1)"
    using Cons.prems(1) by (auto split: prod.splits option.splits)
  then obtain uids2 where rest: "decideItems env org rid ''revoked'' c by ids st1 = (Some uids2, st')"
    using Cons.prems(1) by (auto split: prod.splits option.splits)
  have mono: "set (heldIn kind st') \<subseteq> set (heldIn kind st1)" using rest
  proof (induction ids arbitrary: st1 uids2)
    case (Cons j js)
    obtain v s1 where a: "decideItem env org rid ''revoked'' c by j st1 = (Some v, s1)"
      using Cons.prems by (auto split: prod.splits option.splits)
    then obtain vs where "decideItems env org rid ''revoked'' c by js s1 = (Some vs, st')"
      using Cons.prems by (auto split: prod.splits option.splits)
    from Cons.IH [OF this] decideItem_keeps(2) [OF a, of kind] show ?case by blast
  qed simp
  have facts: "map itemFacts (rv_items st1) = map itemFacts (rv_items st)" by (rule decideItem_keeps(1) [OF one])
  show ?case
  proof (cases "iid = i")
    case True
    with decideItem_enforces [OF one Cons.prems(2)] Cons.prems(4) mono show ?thesis by blast
  next
    case False
    then have "iid \<in> set ids" using Cons.prems(3) by simp
    moreover have "distinct (map ri_ID (rv_items st1))" using Cons.prems(2) facts_ids [OF facts] by simp
    moreover have "(iid, rid, org_ID org, Some u, kind, res) \<in> set (map itemFacts (rv_items st1))"
      unfolding facts by (rule Cons.prems(4))
    ultimately show ?thesis using Cons.IH [OF rest] by blast
  qed
qed simp

lemma Batch_result:
  assumes "BatchSubmitDecisions env cx rid ids d c who st = (e, st')" and "cx_org cx = Some org" and "ids \<noteq> []"
  shows "if e = None
     then \<exists>uids st1. decideItems env org rid d c who ids st = (Some uids, st1) \<and> st' = fold (killUserSessions env) uids st1
     else st' = st\<lparr>rv_netQueue := rv_netQueue st'\<rparr>"
proof -
  obtain r st1 where run: "decideItems env org rid d c who ids st = (r, st1)" by (cases "decideItems env org rid d c who ids st")
  show ?thesis
    using assms by (cases r) (auto simp: BatchSubmitDecisions_def run rollback_def split: if_splits)
qed

lemma batch_cases:
  assumes "handleBatchDecision env cx rid (Some (ids, d, c)) st = (code, st')" and "cx_org cx = Some org" and "ids \<noteq> []"
  obtains (refused) "code \<noteq> 200" "st' = st\<lparr>rv_netQueue := rv_netQueue st'\<rparr>"
  | (accepted) uids st1 who where "code = 200" "decideItems env org rid d c who ids st = (Some uids, st1)"
      "st' = fold (killUserSessions env) uids st1"
proof (cases "authorizeReviewDecision env cx rid st")
  case (Some x)
  then have "x \<noteq> 200" by (auto simp: authorizeReviewDecision_def split: if_splits option.splits)
  with assms(1) Some show thesis by (intro refused) (auto simp: handleBatchDecision_def)
next
  case None
  define who where "who = (case cx_userID cx of None \<Rightarrow> [] | Some u \<Rightarrow> u)"
  obtain e st1 where run: "BatchSubmitDecisions env cx rid ids d c who st = (e, st1)"
    by (cases "BatchSubmitDecisions env cx rid ids d c who st")
  then have "st1 = st'" and "code = (if e = None then 200 else 500)"
    using assms(1) None by (auto simp: handleBatchDecision_def who_def [symmetric] split: option.splits)
  with Batch_result [OF run assms(2,3)] show thesis
    by (cases e) (auto intro: accepted refused)
qed

text \<open>
  C33: a batch of revocations is all or nothing: when it is accepted, nobody named by a listed item of the review
  holds the access of that item any more; otherwise no table has changed, apart from the queue of network
  revocations.
\<close>

theorem batch_revocation_enforced:
  assumes "handleBatchDecision env cx rid (Some (ids, ''revoked'', comments)) st = (code, st')"
    and "cx_org cx = Some org" and "org_ID org \<noteq> []" and "distinct (map ri_ID (rv_items st))"
    and "x \<in> set (rv_items st)" and "ri_ID x \<in> set ids" and "ri_ReviewID x = rid" and "ri_OrgID x = org_ID org"
    and "ri_UserID x = Some u"
  shows "if code = 200
     then \<forall>a \<in> set (heldIn (ri_ResourceType x) st').
            \<not> (as_User a = u \<and> as_Resource a = ri_ResourceID x \<and> as_Org a = org_ID org)
     else st' = st\<lparr>rv_netQueue := rv_netQueue st'\<rparr>"
proof -
  have "ids \<noteq> []" using assms(6) by auto
  with assms(1,2) show ?thesis
  proof (cases rule: batch_cases)
    case (accepted uids st1 who)
    have "(ri_ID x, rid, org_ID org, Some u, ri_ResourceType x, ri_ResourceID x) \<in> set (map itemFacts (rv_items st))"
      using assms(5,7-9) by (force simp: itemFacts_def)
    from decideItems_enforces [OF accepted(2) assms(4,6) this] accepted assms(3) show ?thesis
      by (simp add: holds_def)
  qed simp
qed

section \<open>Starting a review\<close>

lemma mem_joinRows:
  "(u, rid, nm) \<in> set (joinRows oid P held names st) \<longleftrightarrow>
     (\<exists>a \<in> set held. as_User a = u \<and> as_Resource a = rid \<and> as_Org a = oid \<and> enabledIn oid u st)
     \<and> (\<exists>r \<in> set names. nr_ID r = rid \<and> nr_Name r = nm \<and> nr_Org r = oid \<and> P r)"
  by (auto simp: joinRows_def)

lemma mem_itemsOf:
  "(\<exists>y \<in> set (itemsOf env i oid kind rows). ri_UserID y = Some u \<and> ri_ResourceID y = rid) \<longleftrightarrow> (\<exists>nm. (u, rid, nm) \<in> set rows)"
proof -
  have ex: "x \<in> set rows \<longleftrightarrow> (\<exists>k. (k, x) \<in> set (enumerate n rows))" for x n
    by (induction rows arbitrary: n) auto
  have "(\<exists>y \<in> set (itemsOf env i oid kind rows). ri_UserID y = Some u \<and> ri_ResourceID y = rid) \<longleftrightarrow>
     (\<exists>z \<in> set (enumerate 1 rows). fst (snd z) = u \<and> fst (snd (snd z)) = rid)"
    unfolding itemsOf_def by (simp add: case_prod_beta)
  also have "\<dots> \<longleftrightarrow> (\<exists>k nm. (k, u, rid, nm) \<in> set (enumerate 1 rows))" by force
  finally show ?thesis unfolding ex [of _ 1] by blast
qed

lemma started_items:
  assumes "UpdateReviewStatus env cx i ''in_progress'' st = (None, st')" and "cx_org cx = Some org"
    and "GetAccessReview env cx i st = Inr r" and "ar_Type r = ''user_access''"
  shows "\<exists>new. rv_items st' = rv_items st @ new
     \<and> (\<forall>y \<in> set new. ri_ReviewID y = i \<and> ri_Decision y = ''pending'' \<and> ri_ResourceType y = ''role'' \<and> ri_OrgID y = org_ID org)
     \<and> (\<forall>u rid. (\<exists>y \<in> set new. ri_UserID y = Some u \<and> ri_ResourceID y = rid) \<longleftrightarrow>
          (\<exists>a \<in> set (rv_userRoles st). as_User a = u \<and> as_Resource a = rid \<and> as_Org a = org_ID org)
          \<and> enabledIn (org_ID org) u st \<and> (\<exists>n \<in> set (rv_roles st). nr_ID n = rid \<and> nr_Org n = org_ID org))"
proof -
  let ?st1 = "setReviewStatus env org i ''in_progress'' st"
  have id: "ar_ID r = i"
    using assms(2,3) by (auto simp: GetAccessReview_def inReviewOrg_def dest!: find_Some_mem split: if_splits option.splits)
  have pend: "ar_Status r = ''pending''"
    using assms(1-3) by (auto simp: UpdateReviewStatus_def isValidStatusTransition_def split: if_splits)
  then have "isValidStatusTransition (ar_Status r) ''in_progress''" by (simp add: isValidStatusTransition_def)
  then have "applyStatus env org r ''in_progress'' st = (None, st')"
    using assms(1-3) by (simp add: UpdateReviewStatus_def)
  then have "populateUserAccessItems env org i ?st1 = Some st'"
    by (auto simp: applyStatus_def populateReviewItems_def pend id assms(4) Let_def split: if_splits option.splits)
  then have items: "rv_items st' = rv_items st @ itemsOf env i (org_ID org) ''role''
      (joinRows (org_ID org) (\<lambda>_. True) (rv_userRoles st) (rv_roles st) ?st1)"
    by (auto simp: populateUserAccessItems_def insertItems_def setReviewStatus_def split: if_splits)
  have en: "enabledIn (org_ID org) u ?st1 = enabledIn (org_ID org) u st" for u
    by (simp add: enabledIn_def setReviewStatus_def)
  show ?thesis
    unfolding items
  proof (intro exI conjI)
    show "\<forall>y \<in> set (itemsOf env i (org_ID org) ''role'' rows). ri_ReviewID y = i \<and> ri_Decision y = ''pending''
       \<and> ri_ResourceType y = ''role'' \<and> ri_OrgID y = org_ID org" for rows
      by (auto simp: itemsOf_def)
  qed (rule refl, simp only: mem_itemsOf mem_joinRows en, blast)
qed

text \<open>
  Starting a review of user access appends pending items, for exactly the role assignments that
  enabled users of the organisation hold.
\<close>

theorem start_lists_assignments:
  assumes "UpdateReviewStatus env cx i ''in_progress'' st = (None, st')" and "cx_org cx = Some org"
    and "GetAccessReview env cx i st = Inr r" and "ar_Type r = ''user_access''"
  shows "\<exists>new. rv_items st' = rv_items st @ new
     \<and> (\<forall>y \<in> set new. ri_ReviewID y = i \<and> ri_Decision y = ''pending'' \<and> ri_ResourceType y = ''role'' \<and> ri_OrgID y = org_ID org)
     \<and> (\<forall>u rid. (\<exists>y \<in> set new. ri_UserID y = Some u \<and> ri_ResourceID y = rid) \<longleftrightarrow>
          (\<exists>a \<in> set (rv_userRoles st). as_User a = u \<and> as_Resource a = rid \<and> as_Org a = org_ID org)
          \<and> enabledIn (org_ID org) u st \<and> (\<exists>n \<in> set (rv_roles st). nr_ID n = rid \<and> nr_Org n = org_ID org))"
  using assms by (rule started_items)

section \<open>The deadline sweep\<close>

definition autoLabel :: "review_env \<Rightarrow> ReviewItem \<Rightarrow> ReviewItem" where
  "autoLabel env i = i\<lparr>ri_Decision := ''revoked'', ri_Comments := ''Auto-revoked: campaign deadline expired'',
     ri_DecidedAt := Some (rn_now env)\<rparr>"

definition expiredReview :: "review_env \<Rightarrow> AccessReview \<Rightarrow> AccessReview" where
  "expiredReview env r = r\<lparr>ar_Status := ''expired'', ar_CompletedAt := Some (rn_now env)\<rparr>"

lemma autoLabel_facts [simp]: "itemFacts (autoLabel env i) = itemFacts i" "ri_Decision (autoLabel env i) = ''revoked''"
  by (simp_all add: autoLabel_def itemFacts_def)

lemma autoRevoke_effect:
  assumes "\<And>w. \<not> rn_fails env w"
  shows "rv_items (snd (autoRevoke env rid st)) =
      updateWhere (\<lambda>i. ri_ReviewID i = rid \<and> ri_Decision i = ''pending'') (autoLabel env) (rv_items st)"
    and "rv_reviews (snd (autoRevoke env rid st)) = updateWhere (\<lambda>r. ar_ID r = rid) (expiredReview env) (rv_reviews st)"
proof -
  have lab: "autoLabel env = (\<lambda>i. i\<lparr>ri_Decision := ''revoked'', ri_Comments := ''Auto-revoked: campaign deadline expired'',
     ri_DecidedAt := Some (rn_now env)\<rparr>)"
    and rev: "expiredReview env = (\<lambda>r. r\<lparr>ar_Status := ''expired'', ar_CompletedAt := Some (rn_now env)\<rparr>)"
    by (rule ext, simp add: autoLabel_def expiredReview_def)+
  show "rv_items (snd (autoRevoke env rid st)) =
      updateWhere (\<lambda>i. ri_ReviewID i = rid \<and> ri_Decision i = ''pending'') (autoLabel env) (rv_items st)"
    and "rv_reviews (snd (autoRevoke env rid st)) = updateWhere (\<lambda>r. ar_ID r = rid) (expiredReview env) (rv_reviews st)"
    using assms by (simp_all add: autoRevoke_def Let_def lab rev updateWhere_none)
qed

text \<open>One run: which rows it labels.\<close>

definition sweeps :: "review_env \<Rightarrow> gin_context \<Rightarrow> CampaignRun \<Rightarrow> review_state \<Rightarrow> string \<Rightarrow> bool" where
  "sweeps env cx er st rid \<longleftrightarrow> cr_ReviewID er = Some rid
     \<and> (case GetCampaign env cx (cr_CampaignID er) st of Inl _ \<Rightarrow> False | Inr c \<Rightarrow> cp_AutoRevoke c)"

lemma expireRun_effect:
  assumes "\<And>w. \<not> rn_fails env w"
  shows "rv_items (expireRun env cx er st) =
      updateWhere (\<lambda>i. sweeps env cx er st (ri_ReviewID i) \<and> ri_Decision i = ''pending'') (autoLabel env) (rv_items st)
    \<and> rv_reviews (expireRun env cx er st) =
      updateWhere (\<lambda>r. sweeps env cx er st (ar_ID r)) (expiredReview env) (rv_reviews st)"
proof (cases "\<exists>c rid. GetCampaign env cx (cr_CampaignID er) st = Inr c \<and> cr_ReviewID er = Some rid \<and> cp_AutoRevoke c")
  case True
  then obtain c rid where h: "GetCampaign env cx (cr_CampaignID er) st = Inr c" "cr_ReviewID er = Some rid" "cp_AutoRevoke c"
    by blast
  then have sw: "sweeps env cx er st = (\<lambda>x. x = rid)" by (auto simp: sweeps_def)
  have "rv_items (expireRun env cx er st) = rv_items (snd (autoRevoke env rid st))"
    "rv_reviews (expireRun env cx er st) = rv_reviews (snd (autoRevoke env rid st))"
    by (simp_all add: expireRun_def h Let_def split: prod.split)
  then show ?thesis by (simp add: autoRevoke_effect [OF assms] sw)
next
  case False
  then have sw: "sweeps env cx er st = (\<lambda>x. False)" by (auto simp: sweeps_def split: sum.splits)
  from False have "rv_items (expireRun env cx er st) = rv_items st \<and> rv_reviews (expireRun env cx er st) = rv_reviews st"
    by (auto simp: expireRun_def Let_def split: sum.splits option.splits)
  then show ?thesis by (simp add: sw updateWhere_none)
qed

lemma sweeps_cong: "rv_campaigns st' = rv_campaigns st \<Longrightarrow> sweeps env cx er st' = sweeps env cx er st"
  by (simp add: sweeps_def GetCampaign_def fun_eq_iff)

lemma sweeps_expireRun [simp]: "sweeps env cx er (expireRun env cx r st) = sweeps env cx er st"
  by (rule sweeps_cong) (use expireRun_frame in blast)

lemma mem_updateWhere: "P x \<Longrightarrow> x \<in> set rows \<Longrightarrow> f x \<in> set (updateWhere P f rows)"
  "\<not> P x \<Longrightarrow> x \<in> set rows \<Longrightarrow> x \<in> set (updateWhere P f rows)"
  by (force simp: set_updateWhere)+

lemma updateWhere_ex:
  "\<exists>x \<in> set rows. Q x \<Longrightarrow> (\<And>x. Q x \<Longrightarrow> Q (f x)) \<Longrightarrow> \<exists>x \<in> set (updateWhere P f rows). Q x"
  by (metis mem_updateWhere)

lemma fold_keeps_label:
  assumes "\<And>w. \<not> rn_fails env w" and "y \<in> set (rv_items st)" and "ri_Decision y \<noteq> ''pending''"
  shows "y \<in> set (rv_items (fold (expireRun env cx) runs st))"
  using assms(2)
proof (induction runs arbitrary: st)
  case (Cons r runs)
  have "y \<in> set (rv_items (expireRun env cx r st))"
    using Cons.prems assms(3) by (simp add: expireRun_effect [OF assms(1)] mem_updateWhere(2))
  from Cons.IH [OF this] show ?case by simp
qed simp

lemma sweep_labels:
  assumes "\<And>w. \<not> rn_fails env w" and "er \<in> set runs" and "sweeps env cx er st (ri_ReviewID x)"
    and "x \<in> set (rv_items st)" and "ri_Decision x = ''pending''"
  shows "autoLabel env x \<in> set (rv_items (fold (expireRun env cx) runs st))"
  using assms(2-4)
proof (induction runs arbitrary: st)
  case (Cons r runs)
  show ?case
  proof (cases "sweeps env cx r st (ri_ReviewID x)")
    case True
    then have "autoLabel env x \<in> set (rv_items (expireRun env cx r st))"
      using Cons.prems(3) assms(5) by (simp add: expireRun_effect [OF assms(1)] mem_updateWhere(1))
    then show ?thesis using fold_keeps_label [OF assms(1), of "autoLabel env x"] by simp
  next
    case False
    then have "er \<in> set runs" using Cons.prems(1,2) by auto
    moreover have "sweeps env cx er (expireRun env cx r st) (ri_ReviewID x)"
      using Cons.prems(2) by simp
    moreover have "x \<in> set (rv_items (expireRun env cx r st))"
      using Cons.prems(3) False by (simp add: expireRun_effect [OF assms(1)] mem_updateWhere(2))
    ultimately show ?thesis using Cons.IH by simp
  qed
qed simp

lemma sweep_expires:
  assumes "\<And>w. \<not> rn_fails env w" and "er \<in> set runs" and "sweeps env cx er st rid"
    and "\<exists>r \<in> set (rv_reviews st). ar_ID r = rid"
  shows "\<exists>r \<in> set (rv_reviews (fold (expireRun env cx) runs st)). ar_ID r = rid \<and> ar_Status r = ''expired''"
proof -
  have keep: "\<exists>r \<in> set (rv_reviews (fold (expireRun env cx) rs s)). ar_ID r = rid \<and> ar_Status r = ''expired''"
    if "\<exists>r \<in> set (rv_reviews s). ar_ID r = rid \<and> ar_Status r = ''expired''" for rs s
    using that
  proof (induction rs arbitrary: s)
    case (Cons q rs)
    from Cons.prems have "\<exists>r \<in> set (rv_reviews (expireRun env cx q s)). ar_ID r = rid \<and> ar_Status r = ''expired''"
      unfolding conjunct2 [OF expireRun_effect [OF assms(1)]] by (rule updateWhere_ex) (simp add: expiredReview_def)
    from Cons.IH [OF this] show ?case by simp
  qed simp
  show ?thesis
    using assms(2-4)
  proof (induction runs arbitrary: st)
    case (Cons q runs)
    show ?case
    proof (cases "sweeps env cx q st rid")
      case True
      then have "\<exists>r \<in> set (rv_reviews (expireRun env cx q st)). ar_ID r = rid \<and> ar_Status r = ''expired''"
      proof -
        obtain r where "r \<in> set (rv_reviews st)" "ar_ID r = rid" using Cons.prems(3) by blast
        with True have "expiredReview env r \<in> set (rv_reviews (expireRun env cx q st))"
          unfolding conjunct2 [OF expireRun_effect [OF assms(1)]] by (intro mem_updateWhere(1)) simp_all
        with \<open>ar_ID r = rid\<close> show ?thesis by (intro bexI [of _ "expiredReview env r"]) (simp_all add: expiredReview_def)
      qed
      from keep [OF this, of runs] show ?thesis by simp
    next
      case False
      then have "er \<in> set runs" using Cons.prems(1,2) by auto
      moreover have "sweeps env cx er (expireRun env cx q st) rid"
        using Cons.prems(2) by simp
      moreover have "\<exists>r \<in> set (rv_reviews (expireRun env cx q st)). ar_ID r = rid"
        unfolding conjunct2 [OF expireRun_effect [OF assms(1)]] using Cons.prems(3)
        by (rule updateWhere_ex) (simp add: expiredReview_def)
      ultimately show ?thesis using Cons.IH by simp
    qed
  qed simp
qed

text \<open>
  At the deadline of a campaign that revokes automatically, the sweep marks the undecided items as
  revoked, and removes no access at all; and it expires the review even when its reviewer had
  completed it, because completing a review never closes the run.
\<close>

theorem autorevoke_keeps_access:
  assumes "\<And>w. \<not> rn_fails env w" and "er \<in> set (rv_runs st)" and "cr_Status er = ''in_progress''"
    and "cr_Deadline er < rn_now env" and "cr_ReviewID er = Some (ar_ID r)" and "r \<in> set (rv_reviews st)"
    and "find (campaignVisible (WithBypassRLS cx) (cr_CampaignID er)) (rv_campaigns st) = Some c" and "cp_AutoRevoke c"
    and "x \<in> set (rv_items st)" and "ri_ReviewID x = ar_ID r" and "ri_Decision x = ''pending''"
  shows "(\<exists>y \<in> set (rv_items (checkCampaignDeadlines env cx st)). itemFacts y = itemFacts x \<and> ri_Decision y = ''revoked'')
     \<and> assignments (checkCampaignDeadlines env cx st) = assignments st
     \<and> (\<exists>r' \<in> set (rv_reviews (checkCampaignDeadlines env cx st)). ar_ID r' = ar_ID r \<and> ar_Status r' = ''expired'')"
proof -
  let ?runs = "filter (\<lambda>r. cr_Status r = ''in_progress'' \<and> cr_Deadline r < rn_now env) (rv_runs st)"
  have st': "checkCampaignDeadlines env cx st = fold (expireRun env (WithBypassRLS cx)) ?runs st"
    using assms(1) by (simp add: checkCampaignDeadlines_def)
  have er: "er \<in> set ?runs" using assms(2-4) by simp
  have sw: "sweeps env (WithBypassRLS cx) er st (ar_ID r)"
    using assms(1,5,7,8) by (simp add: sweeps_def GetCampaign_def)
  have "autoLabel env x \<in> set (rv_items (checkCampaignDeadlines env cx st))"
    unfolding st' using sweep_labels [OF assms(1) er _ assms(9,11)] sw assms(10) by simp
  moreover have "assignments (checkCampaignDeadlines env cx st) = assignments st"
    unfolding st' using sweep_frame by blast
  moreover have "\<exists>r' \<in> set (rv_reviews (checkCampaignDeadlines env cx st)). ar_ID r' = ar_ID r \<and> ar_Status r' = ''expired''"
    unfolding st' using sweep_expires [OF assms(1) er sw] assms(6) by blast
  ultimately show ?thesis by (intro conjI bexI [of _ "autoLabel env x"]) auto
qed

section \<open>Anybody can set up a review\<close>

lemma decideItem_succeeds:
  assumes "\<And>w. \<not> rn_fails env w" and "rn_uuid env who" and "distinct (map ri_ID (rv_items st))"
    and "(iid, rid, org_ID org, Some u, ''role'', res) \<in> set (map itemFacts (rv_items st))"
  shows "\<exists>v st'. decideItem env org rid ''revoked'' c who iid st = (Some v, st')"
proof -
  let ?P = "decidedItem rid iid (org_ID org)"
  let ?st1 = "st\<lparr>rv_items := updateWhere ?P (recordDecision env ''revoked'' c who) (rv_items st)\<rparr>"
  have facts1: "map itemFacts (rv_items ?st1) = map itemFacts (rv_items st)" by (simp add: map_updateWhere_key)
  obtain x where x: "x \<in> set (rv_items st)" "itemFacts x = (iid, rid, org_ID org, Some u, ''role'', res)"
    using assms(4) by (rule item_of_facts)
  then have ex: "list_ex ?P (rv_items st)" by (auto simp: list_ex_iff decidedItem_def itemFacts_def)
  have "(iid, rid, org_ID org, Some u, ''role'', res) \<in> set (map itemFacts (rv_items ?st1))"
    unfolding facts1 by (rule assms(4))
  then obtain y where y: "y \<in> set (rv_items ?st1)" "itemFacts y = (iid, rid, org_ID org, Some u, ''role'', res)"
    by (rule item_of_facts)
  have dist: "distinct (map ri_ID (rv_items ?st1))" using assms(3) facts_ids [OF facts1] by simp
  obtain z where z: "find (\<lambda>i. ri_ID i = iid \<and> ri_OrgID i = org_ID org) (rv_items ?st1) = Some z"
    using find_present [OF y(1), of "\<lambda>i. ri_ID i = iid \<and> ri_OrgID i = org_ID org"] y(2) by (auto simp: itemFacts_def)
  then have "z = y" using distinct_key_eq [OF dist] y find_Some_mem [OF z] by (auto simp: itemFacts_def)
  with y have "ri_UserID z = Some u" "ri_ResourceType z = ''role''" by (auto simp: itemFacts_def)
  with z assms(1) have "\<exists>v st'. revokeReviewItemAccess env iid (org_ID org) who ?st1 = (Some v, st')"
    by (simp add: revokeReviewItemAccess_def revokeResourceAssignment_def Let_def)
  with ex assms(1,2) show ?thesis by (simp add: decideItem_def Let_def)
qed

definition ownReview :: "string \<Rightarrow> AccessReview" where
  "ownReview u = \<lparr>ar_ID = [], ar_Name = ''mine'', ar_Description = [], ar_Type = ''user_access'', ar_Status = [],
     ar_ReviewerID = Some u, ar_StartDate = 0, ar_EndDate = 0, ar_CreatedAt = 0, ar_CompletedAt = None, ar_OrgID = []\<rparr>"

definition ownReviewRow :: "review_env \<Rightarrow> Org \<Rightarrow> string \<Rightarrow> AccessReview" where
  "ownReviewRow env org u = (ownReview u)\<lparr>ar_ID := rn_newID env 0, ar_Status := ''pending'', ar_CreatedAt := rn_now env,
     ar_OrgID := org_ID org\<rparr>"

lemma ownReviewRow_sel [simp]:
  "ar_ID (ownReviewRow env org u) = rn_newID env 0" "ar_Status (ownReviewRow env org u) = ''pending''"
  "ar_Type (ownReviewRow env org u) = ''user_access''" "ar_ReviewerID (ownReviewRow env org u) = Some u"
  "ar_OrgID (ownReviewRow env org u) = org_ID org" "ar_CompletedAt (ownReviewRow env org u) = None"
  by (simp_all add: ownReviewRow_def ownReview_def)

lemma find_last: "(\<And>r. r \<in> set rows \<Longrightarrow> \<not> P r) \<Longrightarrow> P x \<Longrightarrow> find P (rows @ [x]) = Some x"
  by (induction rows) auto

lemma own_review_started:
  assumes "\<And>w. \<not> rn_fails env w" and "cx_org cx = Some org" and "u \<noteq> []" and "rn_uuid env u"
    and "\<forall>r \<in> set (rv_reviews st). ar_ID r \<noteq> rn_newID env 0"
  defines "st1 \<equiv> snd (handleCreateReview env cx (Some (ownReview u)) st)"
  defines "st2 \<equiv> snd (handleUpdateReviewStatus env cx (rn_newID env 0) (Some ''in_progress'') st1)"
  shows "GetAccessReview env cx (rn_newID env 0) st1 = Inr (ownReviewRow env org u)"
    and "UpdateReviewStatus env cx (rn_newID env 0) ''in_progress'' st1 = (None, st2)"
    and "rv_userRoles st1 = rv_userRoles st \<and> rv_roles st1 = rv_roles st \<and> rv_users st1 = rv_users st \<and> rv_items st1 = rv_items st"
    and "rv_reviews st2 = rv_reviews st @ [(ownReviewRow env org u)\<lparr>ar_Status := ''in_progress''\<rparr>]"
    and "rv_items st2 = rv_items st @ itemsOf env (rn_newID env 0) (org_ID org) ''role''
           (joinRows (org_ID org) (\<lambda>_. True) (rv_userRoles st) (rv_roles st) st)"
    and "rv_userRoles st2 = rv_userRoles st"
proof -
  have st1: "st1 = st\<lparr>rv_reviews := rv_reviews st @ [ownReviewRow env org u]\<rparr>"
    using assms(1-5) by (auto simp: st1_def handleCreateReview_def CreateAccessReview_def Let_def ownReviewRow_def ownReview_def)
  have found: "find (inReviewOrg org (rn_newID env 0)) (rv_reviews st1) = Some (ownReviewRow env org u)"
    unfolding st1 using assms(5) by (simp add: find_last inReviewOrg_def)
  then show get: "GetAccessReview env cx (rn_newID env 0) st1 = Inr (ownReviewRow env org u)"
    using assms(1,2) by (simp add: GetAccessReview_def)
  show "rv_userRoles st1 = rv_userRoles st \<and> rv_roles st1 = rv_roles st \<and> rv_users st1 = rv_users st \<and> rv_items st1 = rv_items st"
    by (simp add: st1)
  let ?s = "setReviewStatus env org (rn_newID env 0) ''in_progress'' st1"
  have rows: "joinRows (org_ID org) (\<lambda>_. True) (rv_userRoles ?s) (rv_roles ?s) ?s =
     joinRows (org_ID org) (\<lambda>_. True) (rv_userRoles st) (rv_roles st) st"
    by (simp add: joinRows_def enabledIn_def setReviewStatus_def st1)
  have upd: "UpdateReviewStatus env cx (rn_newID env 0) ''in_progress'' st1 =
     (None, ?s\<lparr>rv_items := rv_items ?s @ itemsOf env (rn_newID env 0) (org_ID org) ''role''
        (joinRows (org_ID org) (\<lambda>_. True) (rv_userRoles st) (rv_roles st) st)\<rparr>)"
    using assms(1,2) rows
    by (simp add: UpdateReviewStatus_def get isValidStatusTransition_def applyStatus_def populateReviewItems_def
        populateUserAccessItems_def insertItems_def Let_def)
  then show "UpdateReviewStatus env cx (rn_newID env 0) ''in_progress'' st1 = (None, st2)"
    by (simp add: st2_def snd_handlers)
  with upd have st2: "st2 = ?s\<lparr>rv_items := rv_items ?s @ itemsOf env (rn_newID env 0) (org_ID org) ''role''
        (joinRows (org_ID org) (\<lambda>_. True) (rv_userRoles st) (rv_roles st) st)\<rparr>" by simp
  have none: "updateWhere (inReviewOrg org (rn_newID env 0)) f (rv_reviews st) = rv_reviews st" for f
    by (rule updateWhere_none) (use assms(5) in \<open>auto simp: inReviewOrg_def\<close>)
  have app: "updateWhere P f (xs @ ys) = updateWhere P f xs @ updateWhere P f ys" for P f and xs ys :: "AccessReview list"
    by (simp add: updateWhere_def)
  show "rv_reviews st2 = rv_reviews st @ [(ownReviewRow env org u)\<lparr>ar_Status := ''in_progress''\<rparr>]"
    by (simp add: st2 st1 setReviewStatus_def app none updateWhere_Cons inReviewOrg_def)
  show "rv_items st2 = rv_items st @ itemsOf env (rn_newID env 0) (org_ID org) ''role''
           (joinRows (org_ID org) (\<lambda>_. True) (rv_userRoles st) (rv_roles st) st)"
    and "rv_userRoles st2 = rv_userRoles st"
    by (simp_all add: st2 st1 setReviewStatus_def)
qed

lemma distinct_itemsOf: "inj (rn_newID env) \<Longrightarrow> distinct (map ri_ID (itemsOf env i oid kind rows))"
proof -
  assume inj: "inj (rn_newID env)"
  have "map ri_ID (itemsOf env i oid kind rows) = map (rn_newID env) (map fst (enumerate 1 rows))"
    by (simp add: itemsOf_def case_prod_beta comp_def del: map_fst_enumerate)
  also have "\<dots> = map (rn_newID env) [1 ..< 1 + length rows]" by (simp only: map_fst_enumerate)
  finally have ids: "map ri_ID (itemsOf env i oid kind rows) = map (rn_newID env) [1 ..< 1 + length rows]" .
  show ?thesis unfolding ids distinct_map by (intro conjI distinct_upt inj_on_subset [OF inj]) simp
qed

lemma itemsOf_ids: "y \<in> set (itemsOf env i oid kind rows) \<Longrightarrow> ri_ID y \<in> range (rn_newID env)"
  by (auto simp: itemsOf_def)

text \<open>
  C34: reviews are open to everybody: a user, whatever roles the user has, can create a review with herself as
  the reviewer, start it, and revoke any role that an enabled user of the organisation holds.
\<close>

theorem anyone_can_revoke:
  assumes "\<And>w. \<not> rn_fails env w" and "cx_org cx = Some org" and "org_ID org \<noteq> []" and "cx_userID cx = Some u"
    and "u \<noteq> []" and "rn_uuid env u" and "\<forall>r \<in> set (rv_reviews st). ar_ID r \<noteq> rn_newID env 0"
    and "inj (rn_newID env)" and "\<forall>i \<in> set (rv_items st). ri_ID i \<notin> range (rn_newID env)"
    and "distinct (map ri_ID (rv_items st))"
    and "a \<in> set (rv_userRoles st)" and "as_Org a = org_ID org" and "enabledIn (org_ID org) (as_User a) st"
    and "n \<in> set (rv_roles st)" and "nr_ID n = as_Resource a" and "nr_Org n = org_ID org"
  shows "\<exists>iid st'. handleSubmitDecision env cx (rn_newID env 0) iid (Some (''revoked'', []))
       (snd (handleUpdateReviewStatus env cx (rn_newID env 0) (Some ''in_progress'')
          (snd (handleCreateReview env cx (Some (ownReview u)) st)))) = (200, st')
     \<and> a \<notin> set (rv_userRoles st')"
proof -
  let ?rows = "joinRows (org_ID org) (\<lambda>_. True) (rv_userRoles st) (rv_roles st) st"
  let ?new = "itemsOf env (rn_newID env 0) (org_ID org) ''role'' ?rows"
  define st2 where "st2 = snd (handleUpdateReviewStatus env cx (rn_newID env 0) (Some ''in_progress'')
    (snd (handleCreateReview env cx (Some (ownReview u)) st)))"
  have reviews: "rv_reviews st2 = rv_reviews st @ [(ownReviewRow env org u)\<lparr>ar_Status := ''in_progress''\<rparr>]"
    and items: "rv_items st2 = rv_items st @ ?new"
    unfolding st2_def using own_review_started(4,5) [OF assms(1,2,5,6,7)] by simp_all
  have dist: "distinct (map ri_ID (rv_items st2))"
    unfolding items using assms(9,10) distinct_itemsOf [OF assms(8)] by (auto dest!: itemsOf_ids)
  have "(as_User a, as_Resource a, nr_Name n) \<in> set ?rows"
    unfolding mem_joinRows using assms(11-16) by blast
  then obtain y where y: "y \<in> set ?new" "ri_UserID y = Some (as_User a)" "ri_ResourceID y = as_Resource a"
    using mem_itemsOf [of env "rn_newID env 0" "org_ID org" "''role''" ?rows "as_User a" "as_Resource a"] by blast
  then have "ri_ReviewID y = rn_newID env 0" "ri_OrgID y = org_ID org" "ri_ResourceType y = ''role''"
    by (auto simp: itemsOf_def)
  with y have facts: "(ri_ID y, rn_newID env 0, org_ID org, Some (as_User a), ''role'', as_Resource a) \<in> set (map itemFacts (rv_items st2))"
    unfolding items by (force simp: itemFacts_def)
  obtain v st3 where run: "decideItem env org (rn_newID env 0) ''revoked'' [] u (ri_ID y) st2 = (Some v, st3)"
    using decideItem_succeeds [OF assms(1,6) dist facts] by blast
  have gone: "a \<notin> set (rv_userRoles st3)"
    using decideItem_enforces [OF run dist facts] assms(12) by (auto simp: heldIn_def holds_def)
  have "find (inReviewOrg org (rn_newID env 0)) (rv_reviews st2) = Some ((ownReviewRow env org u)\<lparr>ar_Status := ''in_progress''\<rparr>)"
    unfolding reviews by (rule find_last) (use assms(7) in \<open>auto simp: inReviewOrg_def\<close>)
  then have "authorizeReviewDecision env cx (rn_newID env 0) st2 = None"
    using assms(1,2,4,5) by (simp add: authorizeReviewDecision_def)
  then have "handleSubmitDecision env cx (rn_newID env 0) (ri_ID y) (Some (''revoked'', [])) st2 =
     (200, if v \<noteq> [] then killUserSessions env v st3 else st3)"
    using assms(1,2,4) run by (simp add: handleSubmitDecision_def SubmitReviewDecision_def)
  with gone show ?thesis unfolding st2_def [symmetric] by (intro exI conjI) (assumption, simp)
qed

section \<open>Campaigns without a reviewer, concurrent starts\<close>

text \<open>A campaign whose strategy finds no reviewer never runs: the empty text is no identifier.\<close>

lemma campaign_without_reviewer:
  assumes "cx_org cx = Some org" and "GetCampaign env cx i st = Inr c" and "campaignReviewer env org c st = []"
    and "\<not> rn_uuid env []"
  shows "RunCampaign nm env cx i st = (Inl RevDatabase, st)"
  using assms by (simp add: RunCampaign_def CreateAccessReview_def Let_def)

text \<open>The row is read before the transaction and not checked in it: two starts that both read a pending
  review list everything twice.\<close>

lemma concurrent_start_duplicates:
  assumes "\<And>w. \<not> rn_fails env1 w" and "\<And>w. \<not> rn_fails env2 w" and "ar_Status r = ''pending''" and "ar_Type r = ''user_access''"
  shows "length (rv_items (snd (applyStatus env2 org r ''in_progress'' (snd (applyStatus env1 org r ''in_progress'' st))))) =
     length (rv_items st) + 2 * length (joinRows (org_ID org) (\<lambda>_. True) (rv_userRoles st) (rv_roles st) st)"
proof -
  have one: "rv_items (snd (applyStatus env org r ''in_progress'' s)) = rv_items s @ itemsOf env (ar_ID r) (org_ID org) ''role''
        (joinRows (org_ID org) (\<lambda>_. True) (rv_userRoles s) (rv_roles s) s)
      \<and> rv_userRoles (snd (applyStatus env org r ''in_progress'' s)) = rv_userRoles s
      \<and> rv_roles (snd (applyStatus env org r ''in_progress'' s)) = rv_roles s
      \<and> rv_users (snd (applyStatus env org r ''in_progress'' s)) = rv_users s" if "\<And>w. \<not> rn_fails env w" for env s
    using that assms(3,4)
    by (simp add: applyStatus_def populateReviewItems_def populateUserAccessItems_def insertItems_def setReviewStatus_def
        joinRows_def enabledIn_def Let_def)
  have same: "joinRows oid P held names (snd (applyStatus env1 org r ''in_progress'' st)) = joinRows oid P held names st"
    for oid P held names using one [OF assms(1)] by (simp add: joinRows_def enabledIn_def)
  show ?thesis using one [OF assms(1), of st] one [OF assms(2), of "snd (applyStatus env1 org r ''in_progress'' st)"]
    by (simp add: same itemsOf_def)
qed

section \<open>Witnesses\<close>

definition demoReviewEnv :: review_env where
  "demoReviewEnv = \<lparr>rn_now = 10, rn_fails = (\<lambda>_. False), rn_newID = (\<lambda>k. replicate (Suc k) CHR ''x''), rn_runID = ''run'',
     rn_uuid = (\<lambda>s. s \<noteq> []), rn_redis = False\<rparr>"

definition demoReviewContext :: gin_context where
  "demoReviewContext = (demoContextOf ''b.io'' None)\<lparr>cx_org := Some (demoOrg ''b''), cx_userID := Some ''mallory'',
     cx_roles := Some []\<rparr>"

definition demoReviewItem :: ReviewItem where
  "demoReviewItem = \<lparr>ri_ID = ''i'', ri_ReviewID = ''r'', ri_UserID = Some ''alice'', ri_ResourceType = ''role'',
     ri_ResourceID = ''adm'', ri_ResourceName = ''admin'', ri_Decision = ''pending'', ri_DecidedBy = None,
     ri_DecidedAt = None, ri_Comments = [], ri_CreatedAt = 0, ri_OrgID = ''b''\<rparr>"

definition demoReview :: AccessReview where
  "demoReview = (ownReview ''mallory'')\<lparr>ar_ID := ''r'', ar_Status := ''completed'', ar_OrgID := ''b''\<rparr>"

definition demoGrant :: assignment where
  "demoGrant = \<lparr>as_User = ''alice'', as_Resource = ''adm'', as_Org = ''b''\<rparr>"

definition demoCampaign :: ScheduledCampaign where
  "demoCampaign = \<lparr>cp_ID = ''c'', cp_Name = [], cp_Description = [], cp_Type = ''user_access'', cp_Schedule = ''quarterly'',
     cp_ReviewerStrategy = ''specific_user'', cp_ReviewerID = Some ''mallory'', cp_ReviewerRole = None, cp_AutoRevoke = True,
     cp_GracePeriodDays = 7, cp_DurationDays = 30, cp_Status = ''active'', cp_LastRunAt = None, cp_NextRunAt = None,
     cp_CreatedBy = None, cp_CreatedAt = 0, cp_UpdatedAt = 0, cp_OrgID = ''b''\<rparr>"

definition demoRun :: CampaignRun where
  "demoRun = \<lparr>cr_ID = ''n'', cr_CampaignID = ''c'', cr_ReviewID = Some ''r'', cr_Status = ''in_progress'', cr_StartedAt = 0,
     cr_Deadline = 5, cr_CompletedAt = None, cr_TotalItems = 1, cr_ReviewedItems = 0, cr_AutoRevokedItems = 0,
     cr_CreatedAt = 0, cr_OrgID = ''b''\<rparr>"

definition demoReviewState :: review_state where
  "demoReviewState = \<lparr>rv_reviews = [demoReview], rv_items = [demoReviewItem], rv_campaigns = [demoCampaign], rv_runs = [demoRun],
     rv_userRoles = [demoGrant], rv_memberships = [], rv_applications = [],
     rv_roles = [\<lparr>nr_ID = ''adm'', nr_Name = ''admin'', nr_Org = ''b''\<rparr>], rv_groups = [],
     rv_users = [\<lparr>ru_ID = ''alice'', ru_Org = ''b'', ru_Enabled = True\<rparr>], rv_audit = [], rv_netQueue = [],
     rv_revoked = Map.empty\<rparr>"

lemmas demo_review_defs = demoReviewState_def demoReviewContext_def demoReview_def demoReviewItem_def demoGrant_def
  demoOrg_def ownReview_def

lemma demo_never_fails: "\<not> rn_fails demoReviewEnv w"
  by (simp add: demoReviewEnv_def)

lemma demo_review_context:
  "cx_org demoReviewContext = Some (demoOrg ''b'')" "org_ID (demoOrg ''b'') \<noteq> []" "cx_userID demoReviewContext = Some ''mallory''"
  "''mallory'' \<noteq> []" "rn_uuid demoReviewEnv ''mallory''" "org_ID (demoOrg ''b'') = ''b''"
  by (simp_all add: demoReviewContext_def demoOrg_def demoReviewEnv_def)

lemma demo_batch:
  "\<exists>st'. handleBatchDecision demoReviewEnv demoReviewContext ''r'' (Some ([''i''], ''revoked'', [])) demoReviewState = (200, st')"
  by (simp add: handleBatchDecision_def authorizeReviewDecision_def HasRoleInContext_def BatchSubmitDecisions_def decideItem_def
      revokeReviewItemAccess_def revokeResourceAssignment_def demo_review_defs inReviewOrg_def decidedItem_def recordDecision_def
      updateWhere_Cons demoReviewEnv_def Let_def)

theorem batch_revocation_enforced_witness:
  "\<exists>st'. handleBatchDecision demoReviewEnv demoReviewContext ''r'' (Some ([''i''], ''revoked'', [])) demoReviewState = (200, st')
     \<and> demoGrant \<in> set (rv_userRoles demoReviewState) \<and> demoGrant \<notin> set (rv_userRoles st')"
proof -
  obtain st' where run:
    "handleBatchDecision demoReviewEnv demoReviewContext ''r'' (Some ([''i''], ''revoked'', [])) demoReviewState = (200, st')"
    using demo_batch by blast
  have item: "distinct (map ri_ID (rv_items demoReviewState))" "demoReviewItem \<in> set (rv_items demoReviewState)"
    "ri_ID demoReviewItem \<in> set [''i'']" "ri_ReviewID demoReviewItem = ''r''" "ri_OrgID demoReviewItem = org_ID (demoOrg ''b'')"
    "ri_UserID demoReviewItem = Some ''alice''"
    by (simp_all add: demoReviewState_def demoReviewItem_def demoOrg_def)
  from batch_revocation_enforced [OF run demo_review_context(1,2) item]
  have "\<forall>a \<in> set (rv_userRoles st'). \<not> (as_User a = ''alice'' \<and> as_Resource a = ''adm'' \<and> as_Org a = ''b'')"
    by (simp add: heldIn_def demoReviewItem_def demoOrg_def)
  then have "demoGrant \<notin> set (rv_userRoles st')" by (auto simp: demoGrant_def)
  with run show ?thesis by (intro exI conjI) (assumption, simp add: demoReviewState_def, assumption)
qed


theorem autorevoke_keeps_access_witness:
  "(\<exists>y \<in> set (rv_items (checkCampaignDeadlines demoReviewEnv demoReviewContext demoReviewState)).
      itemFacts y = itemFacts demoReviewItem \<and> ri_Decision y = ''revoked'')
   \<and> demoGrant \<in> assignments (checkCampaignDeadlines demoReviewEnv demoReviewContext demoReviewState)"
proof -
  have run: "demoRun \<in> set (rv_runs demoReviewState)" "cr_Status demoRun = ''in_progress''" "cr_Deadline demoRun < rn_now demoReviewEnv"
    "cr_ReviewID demoRun = Some (ar_ID demoReview)" "demoReview \<in> set (rv_reviews demoReviewState)"
    "find (campaignVisible (WithBypassRLS demoReviewContext) (cr_CampaignID demoRun)) (rv_campaigns demoReviewState) = Some demoCampaign"
    "cp_AutoRevoke demoCampaign" "demoReviewItem \<in> set (rv_items demoReviewState)" "ri_ReviewID demoReviewItem = ar_ID demoReview"
    "ri_Decision demoReviewItem = ''pending''"
    by (simp_all add: demoReviewState_def demoRun_def demoReviewEnv_def demoReview_def demoCampaign_def demoReviewItem_def
        campaignVisible_def rowVisible_def rlsValuesFromContext_def WithBypassRLS_def)
  have "demoGrant \<in> assignments demoReviewState" by (simp add: assignments_def demoReviewState_def)
  with autorevoke_keeps_access [OF demo_never_fails run] show ?thesis by simp
qed

theorem anyone_can_revoke_witness:
  "\<exists>iid st'. handleSubmitDecision demoReviewEnv demoReviewContext (rn_newID demoReviewEnv 0) iid (Some (''revoked'', []))
       (snd (handleUpdateReviewStatus demoReviewEnv demoReviewContext (rn_newID demoReviewEnv 0) (Some ''in_progress'')
          (snd (handleCreateReview demoReviewEnv demoReviewContext (Some (ownReview ''mallory'')) demoReviewState)))) = (200, st')
     \<and> demoGrant \<notin> set (rv_userRoles st')"
proof -
  have ids: "\<forall>r \<in> set (rv_reviews demoReviewState). ar_ID r \<noteq> rn_newID demoReviewEnv 0" "inj (rn_newID demoReviewEnv)"
    "\<forall>i \<in> set (rv_items demoReviewState). ri_ID i \<notin> range (rn_newID demoReviewEnv)"
    "distinct (map ri_ID (rv_items demoReviewState))"
    by (auto simp: demoReviewState_def demoReviewEnv_def demoReview_def demoReviewItem_def inj_def)
  have grant: "demoGrant \<in> set (rv_userRoles demoReviewState)" "as_Org demoGrant = org_ID (demoOrg ''b'')"
    "enabledIn (org_ID (demoOrg ''b'')) (as_User demoGrant) demoReviewState"
    "\<lparr>nr_ID = ''adm'', nr_Name = ''admin'', nr_Org = ''b''\<rparr> \<in> set (rv_roles demoReviewState)"
    "nr_ID \<lparr>nr_ID = ''adm'', nr_Name = ''admin'', nr_Org = ''b''\<rparr> = as_Resource demoGrant"
    "nr_Org \<lparr>nr_ID = ''adm'', nr_Name = ''admin'', nr_Org = ''b''\<rparr> = org_ID (demoOrg ''b'')"
    by (simp_all add: demoReviewState_def demoGrant_def demoOrg_def enabledIn_def)
  show ?thesis by (rule anyone_can_revoke [OF demo_never_fails demo_review_context(1-5) ids grant])
qed
end
