(* ===== verification/Governance_Policy.thy ===== *)
theory Governance_Policy
  imports Request_Auth Access_Review Access_Proxy
begin

text \<open>
  The policies of the governance service (\<^verbatim>\<open>internal/governance/service.go\<close>): storing them with their
  rules, evaluating the five kinds, the attribute-based policies, the service's own authentication, and
  the question the access proxy asks about each policy of a route.

  JSON values are a datatype; floating-point numbers and their operations are the parameters of
  \<open>Policy_Dsl\<close>, with the conversion to integers added. The hour and the day of the week are those of the
  server's clock.

  The theorems: what each kind of policy decides, as a statement about its rules; attribute-based
  decisions depend on the matching deny policies alone; a policy whose rules cannot be read allows;
  and what becomes of policies behind the proxy.
\<close>

section \<open>Data\<close>

datatype 'f json = JNull | JBool bool | JNum 'f | JStr string | JList "'f json list" | JObj "(string \<times> 'f json) list"

type_synonym 'f fields = "string \<Rightarrow> 'f json option"

record 'f PolicyRule =
  gr_ID :: string
  gr_Condition :: "'f fields"
  gr_Effect :: string
  gr_Priority :: int

record GovPolicy =
  gp_ID :: string
  gp_Name :: string
  gp_Description :: string
  gp_Type :: string
  gp_Enabled :: bool
  gp_Priority :: int
  gp_CreatedAt :: int
  gp_UpdatedAt :: int
  gp_Org :: string

text \<open>A row of \<^verbatim>\<open>policy_rules\<close>: the effect is in the column \<^verbatim>\<open>rule_type\<close> and again among the actions.\<close>

record 'f RuleRow =
  rr_ID :: string
  rr_Policy :: string
  rr_Type :: string
  rr_Condition :: "'f fields"
  rr_Effect :: string
  rr_Priority :: int
  rr_CreatedAt :: int
  rr_Org :: string

record 'f ABACCondition =
  ac_Attribute :: string
  ac_Operator :: string
  ac_Value :: "'f json"

text \<open>\<open>None\<close> for conditions that do not decode.\<close>

record 'f ABACPolicy =
  ab_ID :: string
  ab_Name :: string
  ab_Description :: string
  ab_ResourceType :: string
  ab_ResourceID :: "string option"
  ab_Conditions :: "'f ABACCondition list option"
  ab_Effect :: string
  ab_Priority :: int
  ab_Enabled :: bool
  ab_CreatedAt :: int
  ab_Org :: string

record 'f policy_state =
  po_policies :: "GovPolicy list"
  po_rules :: "'f RuleRow list"
  po_abac :: "'f ABACPolicy list"

record 'f policy_env =
  pv_now :: int
  pv_fails :: "string \<Rightarrow> bool"
  pv_ruleFails :: "nat \<Rightarrow> bool"
  pv_newID :: "nat \<Rightarrow> string"
  pv_hour :: int
  pv_weekday :: nat
  pv_floats :: "'f floatOps"
  pv_int :: "'f \<Rightarrow> int"

datatype policy_failure = PolNoOrg | PolDatabase | PolNotFound

section \<open>Storing policies\<close>

definition policyIn :: "Org \<Rightarrow> string \<Rightarrow> GovPolicy \<Rightarrow> bool" where
  "policyIn org i p \<longleftrightarrow> gp_ID p = i \<and> gp_Org p = org_ID org"

definition rulesIn :: "Org \<Rightarrow> string \<Rightarrow> 'f RuleRow \<Rightarrow> bool" where
  "rulesIn org i r \<longleftrightarrow> rr_Policy r = i \<and> rr_Org r = org_ID org"

text \<open>A rule that cannot be inserted is logged and left out.\<close>

definition ruleRows :: "'f policy_env \<Rightarrow> Org \<Rightarrow> string \<Rightarrow> 'f PolicyRule list \<Rightarrow> 'f RuleRow list" where
  "ruleRows env org i rules =
     map (\<lambda>(k, r). \<lparr>rr_ID = (if gr_ID r = [] then pv_newID env (Suc k) else gr_ID r), rr_Policy = i, rr_Type = gr_Effect r,
       rr_Condition = gr_Condition r, rr_Effect = gr_Effect r, rr_Priority = gr_Priority r,
       rr_CreatedAt = pv_now env + int k, rr_Org = org_ID org\<rparr>)
       (filter (\<lambda>(k, _). \<not> pv_ruleFails env k) (enumerate 0 rules))"

definition CreatePolicy ::
    "'f policy_env \<Rightarrow> gin_context \<Rightarrow> GovPolicy \<Rightarrow> 'f PolicyRule list \<Rightarrow> 'f policy_state \<Rightarrow> (policy_failure + string) \<times> 'f policy_state" where
  "CreatePolicy env cx body rules st =
     (case cx_org cx of
        None \<Rightarrow> (Inl PolNoOrg, st)
      | Some org \<Rightarrow>
          (let i = (if gp_ID body = [] then pv_newID env 0 else gp_ID body);
               row = body\<lparr>gp_ID := i, gp_CreatedAt := pv_now env, gp_UpdatedAt := pv_now env, gp_Org := org_ID org\<rparr> in
           if pv_fails env ''insertPolicy'' \<or> (\<exists>p \<in> set (po_policies st). gp_ID p = i) then (Inl PolDatabase, st)
           else (Inr i, st\<lparr>po_policies := po_policies st @ [row], po_rules := po_rules st @ ruleRows env org i rules\<rparr>)))"

definition readRule :: "'f RuleRow \<Rightarrow> 'f PolicyRule" where
  "readRule r = \<lparr>gr_ID = rr_ID r, gr_Condition = rr_Condition r,
     gr_Effect = (if rr_Effect r \<noteq> [] then rr_Effect r else rr_Type r), gr_Priority = rr_Priority r\<rparr>"

definition loadPolicyRules :: "'f policy_env \<Rightarrow> Org \<Rightarrow> string \<Rightarrow> 'f policy_state \<Rightarrow> 'f PolicyRule list option" where
  "loadPolicyRules env org i st =
     (if pv_fails env ''selectRules'' then None
      else Some (map readRule (sort_key (\<lambda>r. - rr_Priority r) (sort_key rr_CreatedAt (filter (rulesIn org i) (po_rules st))))))"

definition rulesOrNone :: "'f PolicyRule list option \<Rightarrow> 'f PolicyRule list" where
  "rulesOrNone rs = (case rs of None \<Rightarrow> [] | Some l \<Rightarrow> l)"

definition GetPolicy ::
    "'f policy_env \<Rightarrow> gin_context \<Rightarrow> string \<Rightarrow> 'f policy_state \<Rightarrow> policy_failure + (GovPolicy \<times> 'f PolicyRule list)" where
  "GetPolicy env cx i st =
     (case cx_org cx of
        None \<Rightarrow> Inl PolNoOrg
      | Some org \<Rightarrow>
          (if pv_fails env ''selectPolicy'' then Inl PolDatabase
           else (case find (policyIn org i) (po_policies st) of
                   None \<Rightarrow> Inl PolNotFound
                 | Some p \<Rightarrow> Inr (p, rulesOrNone (loadPolicyRules env org i st)))))"

definition ListPolicies ::
    "'f policy_env \<Rightarrow> gin_context \<Rightarrow> nat \<Rightarrow> nat \<Rightarrow> 'f policy_state \<Rightarrow> policy_failure + ((GovPolicy \<times> 'f PolicyRule list) list \<times> nat)" where
  "ListPolicies env cx offset limit st =
     (case cx_org cx of
        None \<Rightarrow> Inl PolNoOrg
      | Some org \<Rightarrow>
          (let rows = filter (\<lambda>p. gp_Org p = org_ID org) (po_policies st) in
           if pv_fails env ''countPolicies'' \<or> pv_fails env ''listPolicies'' then Inl PolDatabase
           else Inr (map (\<lambda>p. (p, rulesOrNone (loadPolicyRules env org (gp_ID p) st)))
               (take limit (drop offset (sort_key (\<lambda>p. - gp_Priority p) (newestFirst gp_CreatedAt rows)))), length rows)))"

definition UpdatePolicy ::
    "'f policy_env \<Rightarrow> gin_context \<Rightarrow> string \<Rightarrow> GovPolicy \<Rightarrow> 'f PolicyRule list \<Rightarrow> 'f policy_state \<Rightarrow> policy_failure option \<times> 'f policy_state" where
  "UpdatePolicy env cx i body rules st =
     (case cx_org cx of
        None \<Rightarrow> (Some PolNoOrg, st)
      | Some org \<Rightarrow>
          if pv_fails env ''updatePolicy'' then (Some PolDatabase, st)
          else (let st1 = st\<lparr>po_policies := updateWhere (policyIn org i) (\<lambda>p. p\<lparr>gp_Name := gp_Name body,
                  gp_Description := gp_Description body, gp_Type := gp_Type body, gp_Enabled := gp_Enabled body,
                  gp_Priority := gp_Priority body, gp_UpdatedAt := pv_now env\<rparr>) (po_policies st)\<rparr> in
                if pv_fails env ''deleteRules'' then (Some PolDatabase, st1)
                else (None, st1\<lparr>po_rules := deleteWhere (rulesIn org i) (po_rules st1) @ ruleRows env org i rules\<rparr>)))"

definition DeletePolicy ::
    "'f policy_env \<Rightarrow> gin_context \<Rightarrow> string \<Rightarrow> 'f policy_state \<Rightarrow> policy_failure option \<times> 'f policy_state" where
  "DeletePolicy env cx i st =
     (case cx_org cx of
        None \<Rightarrow> (Some PolNoOrg, st)
      | Some org \<Rightarrow>
          if pv_fails env ''deleteRules'' then (Some PolDatabase, st)
          else (let st1 = st\<lparr>po_rules := deleteWhere (rulesIn org i) (po_rules st)\<rparr> in
                if pv_fails env ''deletePolicy'' then (Some PolDatabase, st1)
                else (None, st1\<lparr>po_policies := deleteWhere (policyIn org i) (po_policies st1)\<rparr>)))"

section \<open>Evaluating a policy\<close>

definition strField :: "'f fields \<Rightarrow> string \<Rightarrow> string option" where
  "strField m k = (case m k of Some (JStr s) \<Rightarrow> Some s | _ \<Rightarrow> None)"

definition boolField :: "'f fields \<Rightarrow> string \<Rightarrow> bool option" where
  "boolField m k = (case m k of Some (JBool b) \<Rightarrow> Some b | _ \<Rightarrow> None)"

definition numField :: "'f fields \<Rightarrow> string \<Rightarrow> 'f option" where
  "numField m k = (case m k of Some (JNum x) \<Rightarrow> Some x | _ \<Rightarrow> None)"

definition listField :: "'f fields \<Rightarrow> string \<Rightarrow> 'f json list option" where
  "listField m k = (case m k of Some (JList l) \<Rightarrow> Some l | _ \<Rightarrow> None)"

fun stringsOf :: "'f json list \<Rightarrow> string list" where
  "stringsOf [] = []"
| "stringsOf (JStr s # js) = s # stringsOf js"
| "stringsOf (_ # js) = stringsOf js"

fun allHeld :: "string list \<Rightarrow> 'f json list \<Rightarrow> bool" where
  "allHeld roles [] = True"
| "allHeld roles (JStr s # js) = (toLower s \<in> set roles \<and> allHeld roles js)"
| "allHeld roles (_ # js) = False"

fun sodRules :: "string list \<Rightarrow> 'f PolicyRule list \<Rightarrow> bool" where
  "sodRules roles [] = True"
| "sodRules roles (r # rs) =
     (case listField (gr_Condition r) ''conflicting_roles'' of
        None \<Rightarrow> sodRules roles rs
      | Some l \<Rightarrow> if length l < 2 then sodRules roles rs else if allHeld roles l then False else sodRules roles rs)"

definition evaluateSoDPolicy :: "'f PolicyRule list \<Rightarrow> 'f fields \<Rightarrow> bool" where
  "evaluateSoDPolicy rules request =
     (case listField request ''roles'' of
        None \<Rightarrow> True
      | Some l \<Rightarrow> sodRules (map toLower (stringsOf l)) rules)"

definition weekdayOf :: "string \<Rightarrow> nat option" where
  "weekdayOf s = map_of [(''monday'', 1), (''tuesday'', 2), (''wednesday'', 3), (''thursday'', 4), (''friday'', 5),
     (''saturday'', 6), (''sunday'', 0)] (toLower s)"

definition daysOf :: "'f json list \<Rightarrow> nat list" where
  "daysOf l = List.map_filter weekdayOf (stringsOf l)"

definition narrowWindow :: "'f policy_env \<Rightarrow> 'f PolicyRule \<Rightarrow> int \<times> int \<times> nat list \<Rightarrow> int \<times> int \<times> nat list" where
  "narrowWindow env r = (\<lambda>(s, e, days).
     (case numField (gr_Condition r) ''start_hour'' of None \<Rightarrow> s | Some x \<Rightarrow> pv_int env x,
      case numField (gr_Condition r) ''end_hour'' of None \<Rightarrow> e | Some x \<Rightarrow> pv_int env x,
      case listField (gr_Condition r) ''allowed_days'' of None \<Rightarrow> days | Some l \<Rightarrow> daysOf l))"

definition evaluateTimeboundPolicy :: "'f policy_env \<Rightarrow> 'f PolicyRule list \<Rightarrow> bool" where
  "evaluateTimeboundPolicy env rules =
     (case fold (narrowWindow env) rules (9, 18, [1, 2, 3, 4, 5]) of
        (s, e, days) \<Rightarrow> pv_weekday env \<in> set days \<and> \<not> (pv_hour env < s \<or> e \<le> pv_hour env))"

definition allowedPrefixes :: "'f PolicyRule list \<Rightarrow> string list" where
  "allowedPrefixes rules =
     (let ps = concat (map (\<lambda>r. case listField (gr_Condition r) ''allowed_ip_prefixes'' of None \<Rightarrow> [] | Some l \<Rightarrow> stringsOf l) rules) in
      if ps = [] then [''10.'', ''192.168.'', ''172.16.'', ''172.17.'', ''172.18.'', ''127.0.0.1''] else ps)"

definition evaluateLocationPolicy :: "'f PolicyRule list \<Rightarrow> 'f fields \<Rightarrow> bool" where
  "evaluateLocationPolicy rules request =
     (case strField request ''ip'' of
        None \<Rightarrow> True
      | Some ip \<Rightarrow> list_ex (\<lambda>p. hasPrefix ip p) (allowedPrefixes rules))"

definition riskThreshold :: "'f policy_env \<Rightarrow> 'f PolicyRule list \<Rightarrow> int" where
  "riskThreshold env rules =
     (case List.map_filter (\<lambda>r. numField (gr_Condition r) ''risk_threshold'') rules of
        [] \<Rightarrow> 50 | x # _ \<Rightarrow> pv_int env x)"

text \<open>The score is a machine integer.\<close>

definition wrap64 :: "int \<Rightarrow> int" where
  "wrap64 n = sint (word_of_int n :: 64 word)"

definition requestRisk :: "'f policy_env \<Rightarrow> 'f fields \<Rightarrow> int" where
  "requestRisk env request = wrap64
     ((if boolField request ''is_new_device'' = Some True then 30 else 0)
     + (if boolField request ''is_unusual_location'' = Some True then 25 else 0)
     + (case numField request ''failed_attempts'' of None \<Rightarrow> 0 | Some x \<Rightarrow> pv_int env x * 10))"

definition evaluateRiskBasedPolicy :: "'f policy_env \<Rightarrow> 'f PolicyRule list \<Rightarrow> 'f fields \<Rightarrow> bool" where
  "evaluateRiskBasedPolicy env rules request = (\<not> riskThreshold env rules \<le> requestRisk env request)"

text \<open>\<^verbatim>\<open>fmt.Sscanf\<close> with \<^verbatim>\<open>%d\<close>: blanks, a sign, decimal digits; out of range is an error.\<close>

definition scanInt :: "string \<Rightarrow> int option" where
  "scanInt s =
     (let t = dropWhile (\<lambda>c. c = CHR '' '' \<or> byteOf c = 9) s;
          (neg, u) = (case t of c # v \<Rightarrow> if c = CHR ''-'' then (True, v) else if c = CHR ''+'' then (False, v) else (False, t)
                      | [] \<Rightarrow> (False, t));
          ds = takeWhile isDigitAscii u;
          n = (if neg then - int (undec ds) else int (undec ds)) in
      if ds = [] \<or> n < - (2 ^ 63) \<or> 2 ^ 63 \<le> n then None else Some n)"

definition locationListed :: "string \<Rightarrow> string \<Rightarrow> bool" where
  "locationListed location listed =
     list_ex (\<lambda>loc. containsStr (toUpper location) (toUpper (trimSpace loc))) (splitOn CHR '','' listed)"

definition methodsOf :: "'f fields \<Rightarrow> string list" where
  "methodsOf request = (case listField request ''auth_methods'' of None \<Rightarrow> [] | Some l \<Rightarrow> stringsOf l)"

definition locationOf :: "'f fields \<Rightarrow> string" where
  "locationOf request = (case strField request ''location'' of None \<Rightarrow> [] | Some s \<Rightarrow> s)"

definition riskOf :: "'f policy_env \<Rightarrow> 'f fields \<Rightarrow> int" where
  "riskOf env request = (case numField request ''risk_score'' of None \<Rightarrow> 0 | Some x \<Rightarrow> pv_int env x)"

fun evaluateConditionalAccessPolicy :: "'f policy_env \<Rightarrow> 'f PolicyRule list \<Rightarrow> 'f fields \<Rightarrow> bool" where
  "evaluateConditionalAccessPolicy env [] request = True"
| "evaluateConditionalAccessPolicy env (r # rs) request =
     (let c = gr_Condition r in
      if boolField c ''require_mfa'' = Some True
         \<and> \<not> list_ex (\<lambda>m. m \<in> {''totp'', ''step_up_mfa'', ''webauthn''}) (methodsOf request) then False
      else if boolField c ''device_trust_required'' = Some True \<and> boolField request ''device_trusted'' \<noteq> Some True then False
      else if (case strField c ''allowed_locations'' of None \<Rightarrow> False
               | Some s \<Rightarrow> s \<noteq> [] \<and> \<not> locationListed (locationOf request) s) then False
      else if (case strField c ''blocked_locations'' of None \<Rightarrow> False
               | Some s \<Rightarrow> s \<noteq> [] \<and> locationListed (locationOf request) s) then False
      else if (case strField c ''max_risk_score'' of None \<Rightarrow> False
               | Some s \<Rightarrow> s \<noteq> [] \<and> (case scanInt s of None \<Rightarrow> 100 | Some n \<Rightarrow> n) < riskOf env request) then False
      else if gr_Effect r = ''step_up_mfa'' \<and> ''step_up_mfa'' \<notin> set (methodsOf request) then False
      else evaluateConditionalAccessPolicy env rs request)"

definition evaluateRules :: "'f policy_env \<Rightarrow> GovPolicy \<Rightarrow> 'f PolicyRule list \<Rightarrow> 'f fields \<Rightarrow> bool" where
  "evaluateRules env p rules request =
     (if \<not> gp_Enabled p then True
      else if gp_Type p = ''separation_of_duty'' then evaluateSoDPolicy rules request
      else if gp_Type p = ''timebound'' then evaluateTimeboundPolicy env rules
      else if gp_Type p = ''location'' then evaluateLocationPolicy rules request
      else if gp_Type p = ''risk_based'' then evaluateRiskBasedPolicy env rules request
      else if gp_Type p = ''conditional_access'' then evaluateConditionalAccessPolicy env rules request
      else True)"

definition EvaluatePolicy ::
    "'f policy_env \<Rightarrow> gin_context \<Rightarrow> string \<Rightarrow> 'f fields \<Rightarrow> 'f policy_state \<Rightarrow> policy_failure + bool" where
  "EvaluatePolicy env cx i request st =
     (case GetPolicy env cx i st of Inl e \<Rightarrow> Inl e | Inr (p, rules) \<Rightarrow> Inr (evaluateRules env p rules request))"

text \<open>The status, the decision and the step-up flag of the response.\<close>

definition handleEvaluatePolicy ::
    "'f policy_env \<Rightarrow> gin_context \<Rightarrow> string \<Rightarrow> 'f fields option \<Rightarrow> 'f policy_state \<Rightarrow> int \<times> bool \<times> bool" where
  "handleEvaluatePolicy env cx i body st =
     (case body of
        None \<Rightarrow> (400, False, False)
      | Some request \<Rightarrow>
          (case EvaluatePolicy env cx i request st of
             Inl _ \<Rightarrow> (500, False, False)
           | Inr allowed \<Rightarrow>
               (200, allowed, \<not> allowed \<and>
                  (case GetPolicy env cx i st of
                     Inl _ \<Rightarrow> False
                   | Inr (p, rules) \<Rightarrow> gp_Type p = ''conditional_access'' \<and> list_ex (\<lambda>r. gr_Effect r = ''step_up_mfa'') rules))))"


section \<open>Attribute-based policies\<close>

text \<open>The \<^verbatim>\<open>%v\<close> format.\<close>

fun showJson :: "'f floatOps \<Rightarrow> 'f json \<Rightarrow> string" where
  "showJson fo JNull = ''<nil>''"
| "showJson fo (JBool b) = formatBool b"
| "showJson fo (JNum x) = fo_print fo x"
| "showJson fo (JStr s) = s"
| "showJson fo (JList l) = ''['' @ joinWith '' '' (map (showJson fo) l) @ '']''"
| "showJson fo (JObj kvs) = ''map['' @ joinWith '' '' (map (\<lambda>(k, v). k @ '':'' @ v)
     (sort_key fst (map (\<lambda>(k, v). (k, showJson fo v)) kvs))) @ '']''"

definition abacFloat :: "'f floatOps \<Rightarrow> 'f json \<Rightarrow> 'f option" where
  "abacFloat fo v = (case v of JNum x \<Rightarrow> Some x | JStr s \<Rightarrow> fo_parse fo s | _ \<Rightarrow> fo_parse fo (showJson fo v))"

definition abacIn :: "'f floatOps \<Rightarrow> 'f json \<Rightarrow> 'f json \<Rightarrow> bool" where
  "abacIn fo v condValue =
     (case condValue of JList l \<Rightarrow> list_ex (\<lambda>x. showJson fo x = showJson fo v) l | _ \<Rightarrow> False)"

definition abacBetween :: "'f floatOps \<Rightarrow> 'f json \<Rightarrow> 'f json \<Rightarrow> bool" where
  "abacBetween fo v condValue =
     (case condValue of
        JList [lo, hi] \<Rightarrow>
          (case (abacFloat fo v, abacFloat fo lo, abacFloat fo hi) of
             (Some a, Some l, Some h) \<Rightarrow> fo_le fo l a \<and> fo_le fo a h
           | _ \<Rightarrow> False)
      | _ \<Rightarrow> False)"

definition abacCompare :: "'f floatOps \<Rightarrow> ('f \<Rightarrow> 'f \<Rightarrow> bool) \<Rightarrow> 'f json \<Rightarrow> 'f json \<Rightarrow> bool" where
  "abacCompare fo rel v w = (case (abacFloat fo v, abacFloat fo w) of (Some a, Some b) \<Rightarrow> rel a b | _ \<Rightarrow> False)"

definition evaluateABACCondition :: "'f floatOps \<Rightarrow> 'f ABACCondition \<Rightarrow> 'f fields \<Rightarrow> bool" where
  "evaluateABACCondition fo cond attrs =
     (case attrs (ac_Attribute cond) of
        None \<Rightarrow> False
      | Some v \<Rightarrow>
          (let w = ac_Value cond; oper = ac_Operator cond in
           if oper = ''eq'' then showJson fo v = showJson fo w
           else if oper = ''neq'' then showJson fo v \<noteq> showJson fo w
           else if oper = ''in'' then abacIn fo v w
           else if oper = ''not_in'' then \<not> abacIn fo v w
           else if oper = ''gt'' then abacCompare fo (\<lambda>a b. fo_less fo b a) v w
           else if oper = ''gte'' then abacCompare fo (\<lambda>a b. fo_le fo b a) v w
           else if oper = ''lt'' then abacCompare fo (fo_less fo) v w
           else if oper = ''lte'' then abacCompare fo (fo_le fo) v w
           else if oper = ''between'' then abacBetween fo v w
           else if oper = ''contains'' then containsStr (showJson fo v) (showJson fo w)
           else False))"

definition abacVisible :: "gin_context \<Rightarrow> 'f ABACPolicy \<Rightarrow> bool" where
  "abacVisible cx p \<longleftrightarrow> rowVisible (rlsValuesFromContext cx) (ab_Org p)"

definition CreateABACPolicy ::
    "'f policy_env \<Rightarrow> gin_context \<Rightarrow> 'f ABACPolicy \<Rightarrow> 'f policy_state \<Rightarrow> (policy_failure + string) \<times> 'f policy_state" where
  "CreateABACPolicy env cx body st =
     (case cx_org cx of
        None \<Rightarrow> (Inl PolNoOrg, st)
      | Some org \<Rightarrow>
          (let i = (if ab_ID body = [] then pv_newID env 0 else ab_ID body) in
           if pv_fails env ''insertAbac'' \<or> (\<exists>p \<in> set (po_abac st). ab_ID p = i) then (Inl PolDatabase, st)
           else (Inr i, st\<lparr>po_abac := po_abac st @ [body\<lparr>ab_ID := i, ab_CreatedAt := pv_now env, ab_Org := org_ID org\<rparr>]\<rparr>)))"

definition handleCreateABACPolicy ::
    "'f policy_env \<Rightarrow> gin_context \<Rightarrow> 'f ABACPolicy option \<Rightarrow> 'f policy_state \<Rightarrow> int \<times> 'f policy_state" where
  "handleCreateABACPolicy env cx body st =
     (case body of
        None \<Rightarrow> (400, st)
      | Some b \<Rightarrow>
          if ab_Name b = [] \<or> ab_ResourceType b = [] \<or> ab_Effect b \<noteq> ''allow'' \<and> ab_Effect b \<noteq> ''deny'' then (400, st)
          else (case CreateABACPolicy env cx b st of (Inl _, st1) \<Rightarrow> (500, st1) | (Inr _, st1) \<Rightarrow> (201, st1)))"

definition ListABACPolicies ::
    "'f policy_env \<Rightarrow> gin_context \<Rightarrow> string \<Rightarrow> nat \<Rightarrow> nat \<Rightarrow> 'f policy_state \<Rightarrow> policy_failure + ('f ABACPolicy list \<times> nat)" where
  "ListABACPolicies env cx resourceType offset limit st =
     (let rows = filter (\<lambda>p. abacVisible cx p \<and> (resourceType \<noteq> [] \<longrightarrow> ab_ResourceType p = resourceType)) (po_abac st) in
      if pv_fails env ''countAbac'' \<or> pv_fails env ''listAbac'' then Inl PolDatabase
      else Inr (take limit (drop offset (sort_key (\<lambda>p. - ab_Priority p) (newestFirst ab_CreatedAt rows))), length rows))"

definition GetABACPolicy :: "'f policy_env \<Rightarrow> gin_context \<Rightarrow> string \<Rightarrow> 'f policy_state \<Rightarrow> policy_failure + 'f ABACPolicy" where
  "GetABACPolicy env cx i st =
     (if pv_fails env ''selectAbac'' then Inl PolDatabase
      else (case find (\<lambda>p. ab_ID p = i \<and> abacVisible cx p) (po_abac st) of None \<Rightarrow> Inl PolNotFound | Some p \<Rightarrow> Inr p))"

definition UpdateABACPolicy ::
    "'f policy_env \<Rightarrow> gin_context \<Rightarrow> 'f ABACPolicy \<Rightarrow> 'f policy_state \<Rightarrow> policy_failure option \<times> 'f policy_state" where
  "UpdateABACPolicy env cx body st =
     (let P = (\<lambda>p. ab_ID p = ab_ID body \<and> abacVisible cx p) in
      if pv_fails env ''updateAbac'' then (Some PolDatabase, st)
      else if \<not> list_ex P (po_abac st) then (Some PolNotFound, st)
      else (None, st\<lparr>po_abac := updateWhere P (\<lambda>p. p\<lparr>ab_Name := ab_Name body, ab_Description := ab_Description body,
             ab_ResourceType := ab_ResourceType body, ab_ResourceID := ab_ResourceID body, ab_Conditions := ab_Conditions body,
             ab_Effect := ab_Effect body, ab_Priority := ab_Priority body, ab_Enabled := ab_Enabled body\<rparr>) (po_abac st)\<rparr>))"

definition DeleteABACPolicy :: "'f policy_env \<Rightarrow> gin_context \<Rightarrow> string \<Rightarrow> 'f policy_state \<Rightarrow> policy_failure option \<times> 'f policy_state" where
  "DeleteABACPolicy env cx i st =
     (let P = (\<lambda>p. ab_ID p = i \<and> abacVisible cx p) in
      if pv_fails env ''deleteAbac'' then (Some PolDatabase, st)
      else if \<not> list_ex P (po_abac st) then (Some PolNotFound, st)
      else (None, st\<lparr>po_abac := deleteWhere P (po_abac st)\<rparr>))"

text \<open>The policies of a question, the highest priority first.\<close>

definition abacCandidates :: "gin_context \<Rightarrow> string \<Rightarrow> string \<Rightarrow> 'f policy_state \<Rightarrow> 'f ABACPolicy list" where
  "abacCandidates cx rtype rid st =
     sort_key (\<lambda>p. - ab_Priority p) (filter (\<lambda>p. abacVisible cx p \<and> ab_Enabled p
       \<and> (ab_ResourceType p = rtype \<or> ab_ResourceType p = ''*'')
       \<and> (ab_ResourceID p = None \<or> ab_ResourceID p = Some [] \<or> ab_ResourceID p = Some rid)) (po_abac st))"

definition abacMatches :: "'f floatOps \<Rightarrow> 'f fields \<Rightarrow> 'f ABACPolicy \<Rightarrow> bool" where
  "abacMatches fo attrs p =
     (case ab_Conditions p of None \<Rightarrow> False | Some cs \<Rightarrow> list_all (\<lambda>c. evaluateABACCondition fo c attrs) cs)"

text \<open>The first deny ends the loop; the result names the deny, or else the first allow.\<close>

fun abacLoop :: "'f floatOps \<Rightarrow> 'f fields \<Rightarrow> string option \<Rightarrow> 'f ABACPolicy list \<Rightarrow> bool \<times> string option" where
  "abacLoop fo attrs allow [] = (True, allow)"
| "abacLoop fo attrs allow (p # ps) =
     (if abacMatches fo attrs p then
        (if ab_Effect p = ''deny'' then (False, Some (ab_ID p))
         else if allow = None \<and> ab_Effect p = ''allow'' then abacLoop fo attrs (Some (ab_ID p)) ps
         else abacLoop fo attrs allow ps)
      else abacLoop fo attrs allow ps)"

definition EvaluateABACPolicies ::
    "'f policy_env \<Rightarrow> gin_context \<Rightarrow> 'f fields \<Rightarrow> string \<Rightarrow> string \<Rightarrow> 'f policy_state \<Rightarrow> bool \<times> string option" where
  "EvaluateABACPolicies env cx attrs rtype rid st =
     (if pv_fails env ''selectCandidates'' then (False, None)
      else abacLoop (pv_floats env) attrs None (abacCandidates cx rtype rid st))"

section \<open>Authentication and the question of the proxy\<close>

definition governanceRSAKey :: "string \<Rightarrow> string \<Rightarrow> rsa_key option" where
  "governanceRSAKey nStr eStr =
     (case rawURLDecode nStr of
        None \<Rightarrow> None
      | Some nb \<Rightarrow>
          if length nb < 256 \<or> 512 < length nb \<or> byteOf (hd nb) < 128 \<or> even (bytesToInt nb) then None
          else (case rawURLDecode eStr of
                  None \<Rightarrow> None
                | Some eb \<Rightarrow>
                    if 8 < length eb \<or> bytesToInt eb < 3 \<or> 2147483647 < bytesToInt eb then None
                    else Some (bytesToInt nb, bytesToInt eb)))"

definition governanceKey :: "auth_env \<Rightarrow> auth_state \<Rightarrow> rsa_key option \<times> auth_state" where
  "governanceKey env st =
     (case (case pl_oauthKey st of Some (k, e) \<Rightarrow> if ra_now env < e then Some k else None | None \<Rightarrow> None) of
        Some k \<Rightarrow> (Some k, st)
      | None \<Rightarrow>
          (case ra_jwks env of
             None \<Rightarrow> (None, st)
           | Some js \<Rightarrow>
               (case find (\<lambda>j. jk_Kty j = ''RSA'' \<and> jk_Use j = ''sig'') js of
                  None \<Rightarrow> (None, st)
                | Some j \<Rightarrow>
                    (case governanceRSAKey (jk_N j) (jk_E j) of
                       None \<Rightarrow> (None, st)
                     | Some k \<Rightarrow> (Some k, st\<lparr>pl_oauthKey := Some (k, ra_now env + 5 * minute)\<rparr>)))))"

text \<open>The claims of a token set the user, the address and the name, and no roles.\<close>

definition setGovernanceClaims :: "claims \<Rightarrow> gin_context \<Rightarrow> gin_context" where
  "setGovernanceClaims c cx = cx\<lparr>
     cx_userID := orElse (strClaim c ''sub'') (cx_userID cx),
     cx_email := orElse (strClaim c ''email'') (cx_email cx),
     cx_name := orElse (strClaim c ''name'') (cx_name cx)\<rparr>"

definition governanceAuth :: "auth_env \<Rightarrow> string \<Rightarrow> middleware" where
  "governanceAuth env internalToken cx st =
     (if internalToken \<noteq> [] \<and> hasSuffix (cx_path cx) ''/evaluate'' \<and> cx_header cx ''X-Internal-Token'' = internalToken
      then (Next (cx\<lparr>cx_userID := Some ''svc:internal''\<rparr>), st)
      else if cx_header cx ''Authorization'' = [] then (Abort 401 ''missing authorization header'', st)
      else (case bearerOf cx of
              None \<Rightarrow> (Abort 401 ''invalid authorization header format'', st)
            | Some tok \<Rightarrow>
                (case ra_parse env tok of
                   None \<Rightarrow> (Abort 401 ''invalid token'', st)
                 | Some t \<Rightarrow>
                     if \<not> rs256 t then (Abort 401 ''invalid token'', st)
                     else (case governanceKey env st of
                       (None, st1) \<Rightarrow> (Abort 401 ''invalid token'', st1)
                     | (Some k, st1) \<Rightarrow>
                         let cl = jt_claims t in
                         if \<not> ra_verifies env k tok \<or> \<not> ra_timely env (ra_now env) cl
                         then (Abort 401 ''invalid token'', st1)
                         else if expired env cl then (Abort 401 ''token expired'', st1)
                         else if (case strClaim cl ''iss'' of None \<Rightarrow> False | Some i \<Rightarrow> i \<noteq> expectedIssuer env)
                         then (Abort 401 ''invalid token issuer'', st1)
                         else (Next (setGovernanceClaims cl cx), st1)))))"

definition governanceChain :: "auth_env \<Rightarrow> string \<Rightarrow> tenant_env \<Rightarrow> TenantResolverConfig \<Rightarrow> middleware" where
  "governanceChain env internalToken tenv cfg = andThen (tenantStep tenv cfg) (governanceAuth env internalToken)"

text \<open>The body the proxy sends: a session never has authentication methods or a location. The time, which no
  policy reads, is left out.\<close>

definition proxyQuestion :: "'f proxy_env \<Rightarrow> ProxyRoute \<Rightarrow> ProxySession \<Rightarrow> 'f fields" where
  "proxyQuestion env route session = map_of
     [(''user_id'', JStr (ps_UserID session)), (''roles'', JList (map JStr (ps_Roles session))),
      (''ip'', JStr (pe_clientIP env)), (''path'', JStr (pe_path env)), (''method'', JStr (pe_method env)),
      (''route'', JStr (pr_Name route)), (''risk_score'', JNum (fo_ofInt (pe_floats env) (ps_RiskScore session))),
      (''device_trusted'', JBool (ps_DeviceTrusted session)), (''auth_methods'', JNull), (''location'', JStr []),
      (''device_fingerprint'', JStr [])]"

definition questionContext :: "string \<Rightarrow> string \<Rightarrow> gin_context" where
  "questionContext internalToken policyID = \<lparr>cx_path = ''/api/v1/governance/policies/'' @ policyID @ ''/evaluate'', cx_method = ''POST'',
     cx_host = ''governance'', cx_header = (\<lambda>h. if h = ''X-Internal-Token'' then internalToken
       else if h = ''Content-Type'' then ''application/json'' else []),
     cx_clientIP = [], cx_userID = None, cx_email = None, cx_name = None, cx_sessionID = None, cx_serviceAccountID = None,
     cx_apiKeyID = None, cx_scopes = None, cx_roles = None, cx_amr = None, cx_orgID = None, cx_permissions = None,
     cx_org = None, cx_platformAdmin = False, cx_bypassRLS = False\<rparr>"

definition governanceAnswer ::
    "auth_env \<Rightarrow> string \<Rightarrow> tenant_env \<Rightarrow> TenantResolverConfig \<Rightarrow> 'f policy_env \<Rightarrow> 'f policy_state \<Rightarrow> auth_state
     \<Rightarrow> 'f proxy_env \<Rightarrow> ProxyRoute \<Rightarrow> string \<Rightarrow> ProxySession \<Rightarrow> policy_answer" where
  "governanceAnswer aenv internalToken tenv cfg env st ast penv route policyID session =
     (case governanceChain aenv internalToken tenv cfg (questionContext internalToken policyID) ast of
        (Abort code _, _) \<Rightarrow> Status code
      | (Next cx, _) \<Rightarrow>
          (case handleEvaluatePolicy env cx policyID (Some (proxyQuestion penv route session)) st of
             (code, allowed, stepUp) \<Rightarrow> if code = 200 then Decision allowed stepUp else Status code))"

section \<open>The remaining handlers\<close>

definition handleCreatePolicy ::
    "'f policy_env \<Rightarrow> gin_context \<Rightarrow> (GovPolicy \<times> 'f PolicyRule list) option \<Rightarrow> 'f policy_state \<Rightarrow> int \<times> 'f policy_state" where
  "handleCreatePolicy env cx body st =
     (case body of
        None \<Rightarrow> (400, st)
      | Some (p, rules) \<Rightarrow> (case CreatePolicy env cx p rules st of (Inl _, st1) \<Rightarrow> (500, st1) | (Inr _, st1) \<Rightarrow> (201, st1)))"

definition handleUpdatePolicy ::
    "'f policy_env \<Rightarrow> gin_context \<Rightarrow> string \<Rightarrow> (GovPolicy \<times> 'f PolicyRule list) option \<Rightarrow> 'f policy_state \<Rightarrow> int \<times> 'f policy_state" where
  "handleUpdatePolicy env cx i body st =
     (case body of
        None \<Rightarrow> (400, st)
      | Some (p, rules) \<Rightarrow> (case UpdatePolicy env cx i p rules st of (Some _, st1) \<Rightarrow> (500, st1) | (None, st1) \<Rightarrow> (200, st1)))"

definition handleDeletePolicy :: "'f policy_env \<Rightarrow> gin_context \<Rightarrow> string \<Rightarrow> 'f policy_state \<Rightarrow> int \<times> 'f policy_state" where
  "handleDeletePolicy env cx i st =
     (case DeletePolicy env cx i st of (Some _, st1) \<Rightarrow> (500, st1) | (None, st1) \<Rightarrow> (204, st1))"

section \<open>What policies decide\<close>

lemma allHeld_iff: "allHeld roles l \<longleftrightarrow> (\<exists>ss. l = map JStr ss \<and> (\<forall>s \<in> set ss. toLower s \<in> set roles))"
proof (induction l)
  case (Cons j js)
  show ?case
  proof (cases j)
    case (JStr s)
    have "(\<exists>ss. j # js = map JStr ss \<and> P ss) \<longleftrightarrow> (\<exists>zs. js = map JStr zs \<and> P (s # zs))" for P
      unfolding JStr by (auto simp: Cons_eq_map_conv)
    with Cons JStr show ?thesis by (simp, blast)
  qed (auto simp: Cons_eq_map_conv)
qed simp

lemma sodRules_iff:
  "sodRules roles rules \<longleftrightarrow> \<not> (\<exists>r \<in> set rules. \<exists>ss. listField (gr_Condition r) ''conflicting_roles'' = Some (map JStr ss)
     \<and> 2 \<le> length ss \<and> (\<forall>s \<in> set ss. toLower s \<in> set roles))"
proof (induction rules)
  case (Cons r rules)
  show ?case
  proof (cases "listField (gr_Condition r) ''conflicting_roles''")
    case None
    with Cons show ?thesis by simp
  next
    case (Some l)
    have "(2 \<le> length l \<and> allHeld roles l) \<longleftrightarrow>
       (\<exists>ss. l = map JStr ss \<and> 2 \<le> length ss \<and> (\<forall>s \<in> set ss. toLower s \<in> set roles))"
      by (auto simp: allHeld_iff)
    with Cons Some show ?thesis by auto
  qed
qed simp

text \<open>
  A separation-of-duty policy refuses exactly the requests that name, in any spelling of capitals, all roles
  of a conflict of at least two.
\<close>

theorem sod_exact:
  "evaluateSoDPolicy rules request \<longleftrightarrow>
     \<not> (\<exists>held r ss. listField request ''roles'' = Some held \<and> r \<in> set rules
        \<and> listField (gr_Condition r) ''conflicting_roles'' = Some (map JStr ss) \<and> 2 \<le> length ss
        \<and> (\<forall>s \<in> set ss. \<exists>h \<in> set (stringsOf held). toLower h = toLower s))"
proof (cases "listField request ''roles''")
  case None
  then show ?thesis by (simp add: evaluateSoDPolicy_def)
next
  case (Some held)
  have "toLower s \<in> set (map toLower (stringsOf held)) \<longleftrightarrow> (\<exists>h \<in> set (stringsOf held). toLower h = toLower s)" for s
    unfolding set_map image_iff by metis
  with Some show ?thesis unfolding evaluateSoDPolicy_def option.case sodRules_iff by auto
qed

text \<open>What a rule of a conditional-access policy demands.\<close>

definition ruleSatisfied :: "'f policy_env \<Rightarrow> 'f fields \<Rightarrow> 'f PolicyRule \<Rightarrow> bool" where
  "ruleSatisfied env request r \<longleftrightarrow>
     (boolField (gr_Condition r) ''require_mfa'' = Some True \<longrightarrow>
        (\<exists>m \<in> set (methodsOf request). m = ''totp'' \<or> m = ''step_up_mfa'' \<or> m = ''webauthn''))
     \<and> (boolField (gr_Condition r) ''device_trust_required'' = Some True \<longrightarrow> boolField request ''device_trusted'' = Some True)
     \<and> (\<forall>s. strField (gr_Condition r) ''allowed_locations'' = Some s \<and> s \<noteq> [] \<longrightarrow> locationListed (locationOf request) s)
     \<and> (\<forall>s. strField (gr_Condition r) ''blocked_locations'' = Some s \<and> s \<noteq> [] \<longrightarrow> \<not> locationListed (locationOf request) s)
     \<and> (\<forall>s. strField (gr_Condition r) ''max_risk_score'' = Some s \<and> s \<noteq> [] \<longrightarrow>
          riskOf env request \<le> (case scanInt s of None \<Rightarrow> 100 | Some n \<Rightarrow> n))
     \<and> (gr_Effect r = ''step_up_mfa'' \<longrightarrow> ''step_up_mfa'' \<in> set (methodsOf request))"

lemma conditional_Cons:
  "evaluateConditionalAccessPolicy env (r # rs) request \<longleftrightarrow>
     ruleSatisfied env request r \<and> evaluateConditionalAccessPolicy env rs request"
proof -
  have opt: "(case x of None \<Rightarrow> False | Some s \<Rightarrow> Q s) \<longleftrightarrow> (\<exists>s. x = Some s \<and> Q s)" for x :: "string option" and Q
    by (cases x) auto
  show ?thesis
    unfolding evaluateConditionalAccessPolicy.simps(2) Let_def ruleSatisfied_def opt not_le [symmetric] list_ex_iff insert_iff
    by (simp, blast)
qed

theorem conditional_access_exact:
  "evaluateConditionalAccessPolicy env rules request \<longleftrightarrow> (\<forall>r \<in> set rules. ruleSatisfied env request r)"
proof (induction rules)
  case (Cons r rules)
  then show ?case by (simp only: conditional_Cons list.set ball_simps)
qed simp

lemma abacLoop_allowed:
  "fst (abacLoop fo attrs allow ps) \<longleftrightarrow> \<not> (\<exists>p \<in> set ps. abacMatches fo attrs p \<and> ab_Effect p = ''deny'')"
  by (induction fo attrs allow ps rule: abacLoop.induct) auto


text \<open>
  Policies fail open: when the rules cannot be read, or could not be inserted in the first place, an enabled
  separation-of-duty or conditional-access policy allows every request.
\<close>

theorem unreadable_rules_allow:
  assumes "cx_org cx = Some org" and "\<not> pv_fails env ''selectPolicy''" and "find (policyIn org i) (po_policies st) = Some p"
    and "pv_fails env ''selectRules'' \<or> filter (rulesIn org i) (po_rules st) = []"
    and "gp_Type p = ''separation_of_duty'' \<or> gp_Type p = ''conditional_access''"
  shows "EvaluatePolicy env cx i request st = Inr True"
proof -
  have "rulesOrNone (loadPolicyRules env org i st) = []"
    using assms(4) by (auto simp: rulesOrNone_def loadPolicyRules_def)
  with assms(1-3) have "EvaluatePolicy env cx i request st = Inr (evaluateRules env p [] request)"
    by (simp add: EvaluatePolicy_def GetPolicy_def)
  with assms(5) show ?thesis
    by (auto simp: evaluateRules_def evaluateSoDPolicy_def split: option.split)
qed

text \<open>The score wraps around: enough failed attempts lower the risk.\<close>

lemma failed_attempts_wrap:
  assumes "numField request ''failed_attempts'' = Some x" and "pv_int env x = 2 ^ 60"
    and "boolField request ''is_new_device'' = None" and "boolField request ''is_unusual_location'' = None"
  shows "evaluateRiskBasedPolicy env [] request"
proof -
  have "wrap64 (2 ^ 60 * 10) < 0"
    by (simp add: wrap64_def signed_take_bit_eq_take_bit_shift)
  then show ?thesis using assms by (simp add: evaluateRiskBasedPolicy_def requestRisk_def riskThreshold_def map_filter_def)
qed

section \<open>Round trip\<close>

lemma insort_key_map: "insort_key f (g x) (map g xs) = map g (insort_key (\<lambda>a. f (g a)) x xs)"
  by (induction xs) auto

lemma sort_key_map: "sort_key f (map g xs) = map g (sort_key (\<lambda>a. f (g a)) xs)"
  by (induction xs) (auto simp: insort_key_map)

definition ruleRow :: "'f policy_env \<Rightarrow> Org \<Rightarrow> string \<Rightarrow> nat \<times> 'f PolicyRule \<Rightarrow> 'f RuleRow" where
  "ruleRow env org i = (\<lambda>(k, r). \<lparr>rr_ID = (if gr_ID r = [] then pv_newID env (Suc k) else gr_ID r), rr_Policy = i,
     rr_Type = gr_Effect r, rr_Condition = gr_Condition r, rr_Effect = gr_Effect r, rr_Priority = gr_Priority r,
     rr_CreatedAt = pv_now env + int k, rr_Org = org_ID org\<rparr>)"

lemma ruleRows_eq: "\<forall>k. \<not> pv_ruleFails env k \<Longrightarrow> ruleRows env org i rules = map (ruleRow env org i) (enumerate 0 rules)"
  by (simp add: ruleRows_def ruleRow_def)

lemma readRule_ruleRow: "gr_ID r \<noteq> [] \<Longrightarrow> readRule (ruleRow env org i (k, r)) = r"
  by (simp add: readRule_def ruleRow_def)

text \<open>
  What is stored is read back: after a policy has been created, its rules are those of the request, by
  falling priority, rules of equal priority in the order of the request.
\<close>

theorem policy_roundtrip:
  assumes "CreatePolicy env cx body rules st = (Inr i, st')" and "cx_org cx = Some org" and "\<forall>k. \<not> pv_ruleFails env k"
    and "\<forall>r \<in> set rules. gr_ID r \<noteq> []" and "filter (rulesIn org i) (po_rules st) = []"
    and "\<not> pv_fails env' ''selectPolicy''" and "\<not> pv_fails env' ''selectRules''"
  shows "\<exists>p. GetPolicy env' cx i st' = Inr (p, sort_key (\<lambda>r. - gr_Priority r) rules)
     \<and> gp_Type p = gp_Type body \<and> gp_Enabled p = gp_Enabled body"
proof -
  let ?row = "body\<lparr>gp_ID := i, gp_CreatedAt := pv_now env, gp_UpdatedAt := pv_now env, gp_Org := org_ID org\<rparr>"
  let ?new = "map (ruleRow env org i) (enumerate 0 rules)"
  have fresh: "\<forall>p \<in> set (po_policies st). gp_ID p \<noteq> i"
    and st': "st' = st\<lparr>po_policies := po_policies st @ [?row], po_rules := po_rules st @ ?new\<rparr>"
    using assms(1,2) by (auto simp: CreatePolicy_def Let_def ruleRows_eq [OF assms(3)] split: if_splits)
  have found: "find (policyIn org i) (po_policies st') = Some ?row"
    unfolding st' using fresh by (simp add: find_last policyIn_def)
  have "filter (rulesIn org i) ?new = ?new"
    by (rule filter_True) (auto simp: rulesIn_def ruleRow_def)
  with assms(5) have mine: "filter (rulesIn org i) (po_rules st') = ?new" by (simp add: st')
  have "map rr_CreatedAt ?new = map (\<lambda>k. pv_now env + int k) (map fst (enumerate 0 rules))"
    by (simp add: ruleRow_def case_prod_beta comp_def del: map_fst_enumerate)
  then have "map rr_CreatedAt ?new = map (\<lambda>k. pv_now env + int k) [0 ..< length rules]"
    by (simp only: map_fst_enumerate) simp
  moreover have "sorted (map (\<lambda>k. pv_now env + int k) [0 ..< n])" for n
    by (induction n) (auto simp: sorted_append)
  ultimately have "sorted (map rr_CreatedAt ?new)" by simp
  then have "sort_key rr_CreatedAt ?new = ?new" by (rule sort_key_id_if_sorted)
  then have "loadPolicyRules env' org i st' = Some (map readRule (sort_key (\<lambda>r. - rr_Priority r) ?new))"
    using assms(7) mine by (simp add: loadPolicyRules_def)
  also have "sort_key (\<lambda>r. - rr_Priority r) ?new =
     map (ruleRow env org i) (sort_key (\<lambda>kr. - gr_Priority (snd kr)) (enumerate 0 rules))"
    by (simp add: sort_key_map ruleRow_def case_prod_beta)
  also have "map readRule \<dots> = map snd (sort_key (\<lambda>kr. - gr_Priority (snd kr)) (enumerate 0 rules))"
  proof -
    have "readRule (ruleRow env org i kr) = snd kr" if "kr \<in> set (enumerate 0 rules)" for kr
    proof -
      obtain k r where kr: "kr = (k, r)" by (cases kr)
      have "r \<in> set rules" using that kr by (auto simp: in_set_enumerate_eq)
      then have "gr_ID r \<noteq> []" using assms(4) by simp
      then show ?thesis unfolding kr by (simp add: readRule_ruleRow)
    qed
    then show ?thesis by simp
  qed
  also have "\<dots> = sort_key (\<lambda>r. - gr_Priority r) (map snd (enumerate 0 rules))"
    by (simp only: sort_key_map)
  finally have "loadPolicyRules env' org i st' = Some (sort_key (\<lambda>r. - gr_Priority r) rules)" by simp
  with found assms(2,6) show ?thesis by (simp add: GetPolicy_def rulesOrNone_def)
qed

section \<open>The service's own requests, and those of the proxy\<close>

lemma governanceAuth_frame:
  assumes "governanceAuth env tok cx st = (Next cx', st')"
  shows "cx_roles cx' = cx_roles cx \<and> cx_org cx' = cx_org cx"
  using assms
  by (auto simp: governanceAuth_def setGovernanceClaims_def Let_def split: if_splits option.splits prod.splits)

lemma governanceChain_Next:
  assumes "governanceChain env tok tenv cfg cx st = (Next cx', st')"
  obtains cx1 ts where "TenantResolver tenv cfg cx (pl_tenants st) = (Next cx1, ts)"
    "cx_roles cx' = cx_roles cx" "cx_org cx' = cx_org cx1"
proof -
  obtain cx1 st1 where t: "tenantStep tenv cfg cx st = (Next cx1, st1)" and g: "governanceAuth env tok cx1 st1 = (Next cx', st')"
    using assms by (auto simp: governanceChain_def andThen_Next)
  obtain ts where "TenantResolver tenv cfg cx (pl_tenants st) = (Next cx1, ts)"
    using t by (auto simp: tenantStep_def split: prod.splits)
  moreover have "cx_roles cx' = cx_roles cx"
    using governanceAuth_frame [OF g] tenantStep_frame [OF t] by simp
  moreover have "cx_org cx' = cx_org cx1" using governanceAuth_frame [OF g] by simp
  ultimately show thesis by (rule that)
qed

text \<open>
  The governance service takes no roles from a token, so nobody is an administrator there: a review is decided
  by its assigned reviewer and by no one else, although the code and its comments let administrators decide.
\<close>

theorem administrators_cannot_decide:
  assumes "governanceChain aenv tok tenv cfg cx ast = (Next cx', ast')" and "cx_roles cx = None"
    and "authorizeReviewDecision env cx' rid st = None"
  shows "\<exists>org r u. cx_org cx' = Some org \<and> r \<in> set (rv_reviews st) \<and> inReviewOrg org rid r
     \<and> ar_ReviewerID r = Some u \<and> cx_userID cx' = Some u"
proof -
  obtain cx1 ts where "TenantResolver tenv cfg cx (pl_tenants ast) = (Next cx1, ts)" "cx_roles cx' = cx_roles cx"
    "cx_org cx' = cx_org cx1" using assms(1) by (rule governanceChain_Next)
  then have "\<not> HasRoleInContext cx' ''admin''" using assms(2) by (simp add: HasRoleInContext_def)
  with authorize_mayDecide [OF assms(3)] show ?thesis unfolding mayDecide_def by blast
qed

lemma question_default_org:
  assumes "governanceChain aenv tok tenv cfg (questionContext tok i) ast = (Next cx, ast')" and "cacheOK (pl_tenants ast)"
  shows "\<exists>org. cx_org cx = Some org \<and> org_ID org = tc_DefaultOrgID cfg"
proof -
  let ?cx = "questionContext tok i"
  obtain cx1 ts where run: "TenantResolver tenv cfg ?cx (pl_tenants ast) = (Next cx1, ts)" "cx_org cx = cx_org cx1"
    using assms(1) by (rule governanceChain_Next)
  have skip: "\<not> isTenantSkipPath (cx_path ?cx)"
    by (simp add: questionContext_def isTenantSkipPath_def tenantSkipPaths_def hasPrefix_def)
  obtain org where "cx_org cx1 = Some org" "requestedOrg cfg ?cx org"
    using resolver_sound [OF assms(2) run(1) skip] by blast
  then show ?thesis
    using run(2) by (simp add: requestedOrg_def claimOrg_def questionContext_def trimSpace_def)
qed

text \<open>
  C36: the proxy asks about a policy with its shared secret and no organisation, so the question is answered for the
  default organisation: a route with a policy of any other organisation is never allowed.
\<close>

theorem tenant_policies_deny_proxy:
  assumes "cacheOK (pl_tenants ast)" and "\<forall>p \<in> set (po_policies st). gp_ID p = i \<longrightarrow> gp_Org p \<noteq> tc_DefaultOrgID cfg"
    and "i \<in> set policyIDs" and "pe_governance penv = governanceAnswer aenv tok tenv cfg env st ast penv route"
  shows "evaluatePolicies penv session policyIDs \<noteq> Some (True, stepUp)"
proof -
  have "\<exists>code. governanceAnswer aenv tok tenv cfg env st ast penv route i session = Status code"
  proof (cases "governanceChain aenv tok tenv cfg (questionContext tok i) ast")
    case (Pair r ast')
    show ?thesis
    proof (cases r)
      case (Next cx)
      then obtain org where org: "cx_org cx = Some org" "org_ID org = tc_DefaultOrgID cfg"
        using question_default_org [OF _ assms(1)] Pair by blast
      have "find (policyIn org i) (po_policies st) = None"
        unfolding find_None_all using assms(2) org(2) by (auto simp: policyIn_def)
      then have "\<exists>e. EvaluatePolicy env cx i q st = Inl e" for q
        using org(1) by (simp add: EvaluatePolicy_def GetPolicy_def)
      then obtain e where "EvaluatePolicy env cx i (proxyQuestion penv route session) st = Inl e" by blast
      then show ?thesis using Pair Next by (simp add: governanceAnswer_def handleEvaluatePolicy_def)
    qed (use Pair in \<open>simp add: governanceAnswer_def\<close>)
  qed
  then obtain code where ans: "pe_governance penv i session = Status code" using assms(4) by auto
  show ?thesis using assms(3)
  proof (induction policyIDs)
    case (Cons p ps)
    then show ?case using ans by (cases "p = i") (auto split: policy_answer.split)
  qed simp
qed

text \<open>
  A session has no authentication methods, so behind the proxy a conditional-access policy that requires a second
  factor refuses everybody, whatever factors were used.
\<close>

theorem proxy_mfa_policy_denies:
  assumes "gp_Type p = ''conditional_access''" and "gp_Enabled p" and "r \<in> set rules"
    and "boolField (gr_Condition r) ''require_mfa'' = Some True"
  shows "\<not> evaluateRules env p rules (proxyQuestion penv route session)"
proof -
  have "methodsOf (proxyQuestion penv route session) = []"
    by (simp add: methodsOf_def listField_def proxyQuestion_def)
  then have "\<not> ruleSatisfied env (proxyQuestion penv route session) r"
    using assms(4) by (simp add: ruleSatisfied_def)
  with assms(1-3) show ?thesis by (auto simp: evaluateRules_def conditional_access_exact)
qed

text \<open>And a list of blocked locations blocks nobody, unless it has an empty entry, which blocks everybody.\<close>

lemma proxy_location: "locationOf (proxyQuestion penv route session) = []"
  by (simp add: locationOf_def strField_def proxyQuestion_def)

lemma blocked_locations_without_effect:
  assumes "\<forall>loc \<in> set (splitOn CHR '','' s). trimSpace loc \<noteq> []"
  shows "\<not> locationListed (locationOf (proxyQuestion penv route session)) s"
  using assms by (auto simp: proxy_location locationListed_def list_ex_iff containsStr_def toUpper_def sublist_def)

lemma empty_entry_lists_everything: "[] \<in> set (splitOn CHR '','' s) \<Longrightarrow> locationListed location s"
  by (auto simp: locationListed_def list_ex_iff containsStr_def toUpper_def trimSpace_def intro!: bexI [of _ "[]"])

text \<open>Locations are compared as parts of texts.\<close>

lemma russia_is_in_the_us: "locationListed ''RU, Russia'' ''US''"
  by (simp add: locationListed_def containsStr_def toUpper_def) code_simp

section \<open>Witnesses\<close>

definition demoPolicyEnv :: "int policy_env" where
  "demoPolicyEnv = \<lparr>pv_now = 0, pv_fails = (\<lambda>_. False), pv_ruleFails = (\<lambda>_. False), pv_newID = (\<lambda>_. ''p''), pv_hour = 12,
     pv_weekday = 1, pv_floats = demoFloats, pv_int = (\<lambda>x. x)\<rparr>"

definition demoPolicyState :: "int policy_state" where
  "demoPolicyState = \<lparr>po_policies = [], po_rules = [], po_abac = []\<rparr>"

definition demoPolicy :: GovPolicy where
  "demoPolicy = \<lparr>gp_ID = [], gp_Name = ''sod'', gp_Description = [], gp_Type = ''separation_of_duty'', gp_Enabled = True,
     gp_Priority = 0, gp_CreatedAt = 0, gp_UpdatedAt = 0, gp_Org = []\<rparr>"

definition demoRule :: "string \<Rightarrow> int \<Rightarrow> int PolicyRule" where
  "demoRule i n = \<lparr>gr_ID = i, gr_Condition = Map.empty, gr_Effect = ''deny'', gr_Priority = n\<rparr>"

theorem policy_roundtrip_witness:
  "\<exists>st' p. CreatePolicy demoPolicyEnv demoReviewContext demoPolicy [demoRule ''a'' 1, demoRule ''b'' 5] demoPolicyState = (Inr ''p'', st')
     \<and> GetPolicy demoPolicyEnv demoReviewContext ''p'' st' = Inr (p, [demoRule ''b'' 5, demoRule ''a'' 1])"
proof -
  obtain st' where run: "CreatePolicy demoPolicyEnv demoReviewContext demoPolicy [demoRule ''a'' 1, demoRule ''b'' 5] demoPolicyState
     = (Inr ''p'', st')"
    by (simp add: CreatePolicy_def demo_review_context demoPolicyState_def demoPolicyEnv_def demoPolicy_def Let_def)
  have h: "\<forall>k. \<not> pv_ruleFails demoPolicyEnv k" "\<forall>r \<in> set [demoRule ''a'' 1, demoRule ''b'' 5]. gr_ID r \<noteq> []"
    "filter (rulesIn (demoOrg ''b'') ''p'') (po_rules demoPolicyState) = []"
    "\<not> pv_fails demoPolicyEnv ''selectPolicy''" "\<not> pv_fails demoPolicyEnv ''selectRules''"
    by (simp_all add: demoPolicyEnv_def demoRule_def demoPolicyState_def)
  have "sort_key (\<lambda>r. - gr_Priority r) [demoRule ''a'' 1, demoRule ''b'' 5] = [demoRule ''b'' 5, demoRule ''a'' 1]"
    by (simp add: demoRule_def)
  with policy_roundtrip [OF run demo_review_context(1) h] run show ?thesis by auto
qed

theorem unreadable_rules_allow_witness:
  "EvaluatePolicy (demoPolicyEnv\<lparr>pv_fails := (\<lambda>w. w = ''selectRules'')\<rparr>) demoReviewContext ''p'' Map.empty
     (demoPolicyState\<lparr>po_policies := [demoPolicy\<lparr>gp_ID := ''p'', gp_Org := ''b''\<rparr>]\<rparr>) = Inr True"
  by (rule unreadable_rules_allow [OF demo_review_context(1), where p = "demoPolicy\<lparr>gp_ID := ''p'', gp_Org := ''b''\<rparr>"])
    (simp_all add: policyIn_def demoOrg_def demoPolicy_def)

lemma governanceAnswer_update:
  "governanceAnswer a t n c e s st (penv\<lparr>pe_governance := g\<rparr>) route = governanceAnswer a t n c e s st penv route"
proof -
  have same: "proxyQuestion (penv\<lparr>pe_governance := g\<rparr>) = proxyQuestion penv" by (simp add: fun_eq_iff proxyQuestion_def)
  show ?thesis by (intro ext) (unfold governanceAnswer_def same, rule refl)
qed

theorem tenant_policies_deny_proxy_witness:
  "evaluatePolicies ((demoProxyEnv 0)\<lparr>pe_governance := governanceAnswer demoAuthEnv ''secret'' demoTenantEnv demoAuthConfig demoPolicyEnv
        (demoPolicyState\<lparr>po_policies := [demoPolicy\<lparr>gp_ID := ''p'', gp_Org := ''b''\<rparr>]\<rparr>) demoAuthState
        (demoProxyEnv 0) demoRoute\<rparr>) (demoSession 0) [''p''] \<noteq> Some (True, False)"
proof -
  let ?st = "demoPolicyState\<lparr>po_policies := [demoPolicy\<lparr>gp_ID := ''p'', gp_Org := ''b''\<rparr>]\<rparr>"
  have ok: "cacheOK (pl_tenants demoAuthState)" by (simp add: cacheOK_def demoAuthState_def)
  have org: "\<forall>p \<in> set (po_policies ?st). gp_ID p = ''p'' \<longrightarrow> gp_Org p \<noteq> tc_DefaultOrgID demoAuthConfig"
    by (simp add: demoAuthConfig_def DefaultOrgID_def)
  have mem: "''p'' \<in> set [''p'']" by simp
  show ?thesis
    by (rule tenant_policies_deny_proxy [OF ok org mem]) (simp add: governanceAnswer_update)
qed

end
