(* ===== verification/Vault.thy ===== *)
theory Vault
  imports Tenancy "HOL-Library.Word"
begin

text \<open>
  The credential vault, \<^verbatim>\<open>internal/vault\<close>: the ring of key-encryption keys and its configuration, the secrets
  with their encrypted versions, the grants, the use and the reveal of a secret, the ledger of checkouts and
  its sweep (with the guard of \<^verbatim>\<open>internal/common/leader\<close>), and the HTTP handlers.

  The tables of migration 56 are row lists under the row-level security of \<^verbatim>\<open>Tenancy\<close>: a statement sees and
  writes the rows of the scope of its context only; constraints see every row. HKDF and AES-GCM are parameters of
  the environment, as is the reading of a text as a UUID, which gives its canonical form. The metadata
  of a secret are stored and never read, and are left out.

  The theorems: a ring that was configured can seal; versions decrypt to what was stored as long as their key is
  kept in the ring, and the operations are those of a plain table of versions; the keys of two versions are
  derived from different texts; when a secret is revealed; that grants to roles match nobody, and what
  other spellings of an identifier do.
\<close>

section \<open>The key ring\<close>

record keyring =
  kr_keys :: "(8 word \<times> string) list"
  kr_activeID :: "8 word"

datatype vault_err =
    KekMissing | KekLength | KekConfig | BaoFailed | CiphertextTooShort | GcmOpen | NonceRandom
  | VaultNoOrg | VaultDatabase | VaultNoRows | VaultSecretNotFound | ReasonRequired | VaultForbidden
  | StepUpRequired | NotSystem

record BaoConfig =
  bao_Addr :: string
  bao_Token :: string
  bao_SecretPath :: string
  bao_CACertFile :: string

text \<open>The field \<^verbatim>\<open>active_kek_id\<close> of the answer, kept as raw JSON.\<close>

datatype raw_id = RawAbsent | RawNull | RawInt int | RawString string | RawOther

record bao_data =
  bd_kek :: string
  bd_keks :: string
  bd_active :: raw_id

record baoKeyMaterial =
  km_KEK :: string
  km_KEKs :: string
  km_ActiveKEKID :: int

record KeyConfig =
  kc_KEK :: string
  kc_KEKs :: string
  kc_ActiveKEKID :: int
  kc_EncryptionKey :: string
  kc_Bao :: BaoConfig

text \<open>
  The environment: the clock, failing statements, HKDF-SHA256 (key and info), the sealing and opening of
  AES-256-GCM under a derived key (key, nonce, text), the drawn nonce and identifier, the canonical form of a
  UUID (\<open>None\<close> for another text), the rank the collation gives a name, and the answer of OpenBao: no answer, or
  its status and the decoded body.
\<close>

record vault_env =
  ve_now :: int
  ve_fails :: "string \<Rightarrow> bool"
  ve_hkdf :: "string \<Rightarrow> string \<Rightarrow> string"
  ve_gcmSeal :: "string \<Rightarrow> string \<Rightarrow> string \<Rightarrow> string"
  ve_gcmOpen :: "string \<Rightarrow> string \<Rightarrow> string \<Rightarrow> string option"
  ve_nonce :: "string option"
  ve_newID :: string
  ve_uuid :: "string \<Rightarrow> string option"
  ve_rank :: "string \<Rightarrow> int"
  ve_bao :: "BaoConfig \<Rightarrow> (int \<times> bao_data option) option"

text \<open>\<^verbatim>\<open>strconv.Atoi\<close> and \<^verbatim>\<open>strconv.Itoa\<close>; \<^verbatim>\<open>leader.itoa\<close> prints the same, except for the least integer.\<close>

definition atoi :: "string \<Rightarrow> int option" where
  "atoi s =
     (let neg = (s \<noteq> [] \<and> hd s = CHR ''-'');
          digits = (if neg \<or> (s \<noteq> [] \<and> hd s = CHR ''+'') then tl s else s);
          n = (if neg then - int (undec digits) else int (undec digits)) in
      if digits = [] \<or> \<not> list_all isDigitAscii digits \<or> n < - (2 ^ 63) \<or> 2 ^ 63 \<le> n then None else Some n)"

definition itoa :: "int \<Rightarrow> string" where
  "itoa v = (if v < 0 then CHR ''-'' # dec (nat (- v)) else dec (nat v))"

definition kekLen :: nat where
  "kekLen = 32"

definition decodeKEK :: "string \<Rightarrow> string option" where
  "decodeKEK s = (case b64Decode (trimSpace s) of None \<Rightarrow> None
     | Some raw \<Rightarrow> if length raw \<noteq> kekLen then None else Some raw)"

definition Enabled :: "keyring option \<Rightarrow> bool" where
  "Enabled r = (case r of None \<Rightarrow> False | Some ring \<Rightarrow> kr_keys ring \<noteq> [])"

definition masterFor :: "keyring \<Rightarrow> 8 word \<Rightarrow> vault_err + string" where
  "masterFor r i = (case map_of (kr_keys r) i of None \<Rightarrow> Inl KekMissing | Some k \<Rightarrow> Inr k)"

definition keyInfo :: "string \<Rightarrow> int \<Rightarrow> string" where
  "keyInfo secretID version = ''openidx-vault-v1:'' @ secretID @ '':'' @ itoa version"

definition deriveGCM :: "vault_env \<Rightarrow> string \<Rightarrow> string \<Rightarrow> int \<Rightarrow> vault_err + string" where
  "deriveGCM env master secretID version =
     (if length master \<noteq> kekLen then Inl KekLength
      else Inr (ve_hkdf env master (keyInfo secretID version)))"

definition nonceLen :: nat where
  "nonceLen = 12"

definition tagLen :: nat where
  "tagLen = 16"

definition Seal :: "vault_env \<Rightarrow> keyring \<Rightarrow> string \<Rightarrow> int \<Rightarrow> string \<Rightarrow> vault_err + (8 word \<times> string)" where
  "Seal env r secretID version plaintext =
     (case masterFor r (kr_activeID r) of
        Inl e \<Rightarrow> Inl e
      | Inr master \<Rightarrow>
          (case deriveGCM env master secretID version of
             Inl e \<Rightarrow> Inl e
           | Inr key \<Rightarrow>
               (case ve_nonce env of
                  None \<Rightarrow> Inl NonceRandom
                | Some nonce \<Rightarrow> Inr (kr_activeID r, nonce @ ve_gcmSeal env key nonce plaintext))))"

definition Open :: "vault_env \<Rightarrow> keyring \<Rightarrow> 8 word \<Rightarrow> string \<Rightarrow> int \<Rightarrow> string \<Rightarrow> vault_err + string" where
  "Open env r keyID secretID version blob =
     (if length blob < nonceLen + tagLen then Inl CiphertextTooShort
      else (case masterFor r keyID of
              Inl e \<Rightarrow> Inl e
            | Inr master \<Rightarrow>
                (case deriveGCM env master secretID version of
                   Inl e \<Rightarrow> Inl e
                 | Inr key \<Rightarrow>
                     (case ve_gcmOpen env key (take nonceLen blob) (drop nonceLen blob) of
                        None \<Rightarrow> Inl GcmOpen
                      | Some pt \<Rightarrow> Inr pt))))"

text \<open>The loop over the entries of the multi-key form; an identifier given twice keeps its last key.\<close>

fun ringEntries :: "string list \<Rightarrow> (8 word \<times> string) list \<Rightarrow> vault_err + (8 word \<times> string) list" where
  "ringEntries [] keys = Inr keys"
| "ringEntries (e # es) keys =
     (let entry = trimSpace e in
      if entry = [] then ringEntries es keys
      else (case cutAt CHR '':'' entry of
              None \<Rightarrow> Inl KekConfig
            | Some (idStr, keyStr) \<Rightarrow>
                (case atoi (trimSpace idStr) of
                   None \<Rightarrow> Inl KekConfig
                 | Some i \<Rightarrow>
                     (if i < 0 \<or> 255 < i then Inl KekConfig
                      else (case decodeKEK keyStr of
                              None \<Rightarrow> Inl KekConfig
                            | Some raw \<Rightarrow> ringEntries es ((word_of_int i, raw) # keys))))))"

definition newKeyring :: "string \<Rightarrow> int \<Rightarrow> string \<Rightarrow> vault_err + keyring option" where
  "newKeyring multiForm activeID singleKey =
     (if trimSpace multiForm = [] then
        (if trimSpace singleKey = [] then Inr None
         else (case decodeKEK singleKey of
                 None \<Rightarrow> Inl KekConfig
               | Some raw \<Rightarrow> Inr (Some \<lparr>kr_keys = [(0, raw)], kr_activeID = 0\<rparr>)))
      else (case ringEntries (splitOn CHR '','' (trimSpace multiForm)) [] of
              Inl e \<Rightarrow> Inl e
            | Inr keys \<Rightarrow>
                (if keys = [] then Inl KekConfig
                 else if activeID < 0 \<or> 255 < activeID then Inl KekConfig
                 else if map_of keys (word_of_int activeID) = None then Inl KekConfig
                 else Inr (Some \<lparr>kr_keys = keys, kr_activeID = word_of_int activeID\<rparr>))))"

definition baoEnabled :: "BaoConfig \<Rightarrow> bool" where
  "baoEnabled b \<longleftrightarrow> trimSpace (bao_Addr b) \<noteq> [] \<and> trimSpace (bao_Token b) \<noteq> [] \<and> trimSpace (bao_SecretPath b) \<noteq> []"

text \<open>\<^verbatim>\<open>strings.Trim\<close> of slashes; \<^verbatim>\<open>fmt.Sscanf\<close> with \<^verbatim>\<open>%d\<close> reads a number and ignores what follows it.\<close>

definition trimSlashes :: "string \<Rightarrow> string" where
  "trimSlashes s = (let f = dropWhile (\<lambda>c. c = CHR ''/'') in rev (f (rev (f s))))"

definition scanInt :: "string \<Rightarrow> int option" where
  "scanInt s =
     (let sgn = (if s \<noteq> [] \<and> (hd s = CHR ''-'' \<or> hd s = CHR ''+'') then [hd s] else []) in
      atoi (sgn @ takeWhile isDigitAscii (drop (length sgn) s)))"

definition fetchBaoKeyMaterial :: "vault_env \<Rightarrow> BaoConfig \<Rightarrow> vault_err + baoKeyMaterial" where
  "fetchBaoKeyMaterial env cfg =
     (case cutAt CHR ''/'' (trimSlashes (bao_SecretPath cfg)) of
        None \<Rightarrow> Inl BaoFailed
      | Some (mount, rest) \<Rightarrow>
          if mount = [] \<or> rest = [] then Inl BaoFailed
          else (case ve_bao env cfg of
                  None \<Rightarrow> Inl BaoFailed
                | Some (status, body) \<Rightarrow>
                    if status \<noteq> 200 then Inl BaoFailed
                    else (case body of
                            None \<Rightarrow> Inl BaoFailed
                          | Some d \<Rightarrow>
                              if bd_kek d = [] \<and> bd_keks d = [] then Inl BaoFailed
                              else (let mat = (\<lambda>a. Inr \<lparr>km_KEK = bd_kek d, km_KEKs = bd_keks d, km_ActiveKEKID = a\<rparr>) in
                                    case bd_active d of
                                      RawAbsent \<Rightarrow> mat 0
                                    | RawNull \<Rightarrow> mat 0
                                    | RawInt a \<Rightarrow> mat a
                                    | RawString s \<Rightarrow>
                                        (case scanInt (trimSpace s) of None \<Rightarrow> Inl BaoFailed | Some a \<Rightarrow> mat a)
                                    | RawOther \<Rightarrow> Inl BaoFailed))))"

definition KeyringFromConfig :: "vault_env \<Rightarrow> KeyConfig \<Rightarrow> vault_err + keyring" where
  "KeyringFromConfig env cfg =
     (if baoEnabled (kc_Bao cfg) then
        (case fetchBaoKeyMaterial env (kc_Bao cfg) of
           Inl e \<Rightarrow> Inl e
         | Inr mat \<Rightarrow>
             (case newKeyring (km_KEKs mat) (km_ActiveKEKID mat) (km_KEK mat) of
                Inl e \<Rightarrow> Inl e
              | Inr None \<Rightarrow> Inl KekConfig
              | Inr (Some r) \<Rightarrow> Inr r))
      else (case newKeyring (kc_KEKs cfg) (kc_ActiveKEKID cfg) (kc_KEK cfg) of
              Inl e \<Rightarrow> Inl e
            | Inr (Some r) \<Rightarrow> Inr r
            | Inr None \<Rightarrow>
                (if length (kc_EncryptionKey cfg) \<noteq> kekLen then Inl KekConfig
                 else Inr \<lparr>kr_keys = [(0, kc_EncryptionKey cfg)], kr_activeID = 0\<rparr>)))"

section \<open>Secrets and versions\<close>

record vault_secret =
  vs_ID :: string
  vs_OrgID :: string
  vs_Name :: string
  vs_Type :: string
  vs_Description :: string
  vs_OwnerID :: "string option"
  vs_CurrentVersion :: int
  vs_CreatedBy :: "string option"
  vs_RequireStepUp :: bool
  vs_CreatedAt :: int
  vs_UpdatedAt :: int

record vault_version =
  vv_OrgID :: string
  vv_SecretID :: string
  vv_Version :: int
  vv_KeyID :: int
  vv_Ciphertext :: string
  vv_CreatedBy :: "string option"
  vv_CreatedAt :: int

record vault_grant =
  vg_ID :: string
  vg_OrgID :: string
  vg_SecretID :: string
  vg_PrincipalType :: string
  vg_PrincipalID :: string
  vg_Actions :: "string list"
  vg_GrantedBy :: "string option"
  vg_ExpiresAt :: "int option"

record vault_checkout =
  vc_OrgID :: string
  vc_SecretID :: string
  vc_Version :: int
  vc_Principal :: "string option"
  vc_Mode :: string
  vc_Reason :: "string option"
  vc_LeasedAt :: int
  vc_ExpiresAt :: "int option"
  vc_ReturnedAt :: "int option"
  vc_Status :: string

text \<open>What the vault reads of a step-up challenge.\<close>

record stepup_challenge =
  su_OrgID :: string
  su_UserID :: string
  su_Status :: string
  su_CompletedAt :: "int option"

text \<open>An audit event: its type, the user and the secret or grant it names.\<close>

record vault_state =
  vt_secrets :: "vault_secret list"
  vt_versions :: "vault_version list"
  vt_grants :: "vault_grant list"
  vt_checkouts :: "vault_checkout list"
  vt_stepups :: "stepup_challenge list"
  vt_audits :: "(string \<times> string \<times> string) list"

record SecretMeta =
  sm_ID :: string
  sm_Name :: string
  sm_Type :: string
  sm_Description :: string
  sm_CurrentVersion :: int
  sm_CreatedAt :: int
  sm_UpdatedAt :: int

record VersionMeta =
  vm_Version :: int
  vm_KeyID :: int
  vm_CreatedBy :: string
  vm_CreatedAt :: int

record StoreInput =
  si_Name :: string
  si_Type :: string
  si_Description :: string
  si_Value :: string
  si_OwnerID :: string
  si_CreatedBy :: string
  si_RequireStepUp :: bool

definition metaOf :: "vault_secret \<Rightarrow> SecretMeta" where
  "metaOf s = \<lparr>sm_ID = vs_ID s, sm_Name = vs_Name s, sm_Type = vs_Type s, sm_Description = vs_Description s,
     sm_CurrentVersion = vs_CurrentVersion s, sm_CreatedAt = vs_CreatedAt s, sm_UpdatedAt = vs_UpdatedAt s\<rparr>"

text \<open>A column value \<^verbatim>\<open>NULLIF($n,'')::uuid\<close>: \<open>None\<close> when the cast fails.\<close>

definition nullUUID :: "vault_env \<Rightarrow> string \<Rightarrow> string option option" where
  "nullUUID env t = (if t = [] then Some None else map_option Some (ve_uuid env t))"

definition inScope :: "gin_context \<Rightarrow> string \<Rightarrow> bool" where
  "inScope cx orgID = rowVisible (rlsValuesFromContext cx) orgID"

definition secretRow :: "gin_context \<Rightarrow> string \<Rightarrow> vault_secret \<Rightarrow> bool" where
  "secretRow cx u s \<longleftrightarrow> inScope cx (vs_OrgID s) \<and> vs_ID s = u"

definition recordAudit :: "vault_env \<Rightarrow> string \<Rightarrow> string \<Rightarrow> string \<Rightarrow> vault_state \<Rightarrow> vault_state" where
  "recordAudit env event user detail st =
     (if ve_fails env ''audit'' then st else st\<lparr>vt_audits := vt_audits st @ [(event, user, detail)]\<rparr>)"

text \<open>
  The insert of a version: refused by the database when the scope does not admit the row, when the
  secret does not exist, when it already has the version, or when the author is no UUID.
\<close>

definition insertVersion ::
    "vault_env \<Rightarrow> gin_context \<Rightarrow> string \<Rightarrow> string \<Rightarrow> int \<Rightarrow> 8 word \<Rightarrow> string \<Rightarrow> string \<Rightarrow> vault_state \<Rightarrow> vault_state option" where
  "insertVersion env cx orgID u version keyID blob by' st =
     (case nullUUID env by' of
        None \<Rightarrow> None
      | Some author \<Rightarrow>
          if ve_fails env ''insertVersion'' \<or> \<not> inScope cx orgID
             \<or> \<not> list_ex (\<lambda>s. vs_ID s = u) (vt_secrets st)
             \<or> list_ex (\<lambda>v. vv_SecretID v = u \<and> vv_Version v = version) (vt_versions st) then None
          else Some (st\<lparr>vt_versions := vt_versions st @ [\<lparr>vv_OrgID = orgID, vv_SecretID = u, vv_Version = version,
                 vv_KeyID = uint keyID, vv_Ciphertext = blob, vv_CreatedBy = author,
                 vv_CreatedAt = ve_now env\<rparr>]\<rparr>))"

definition insertSecret ::
    "vault_env \<Rightarrow> gin_context \<Rightarrow> string \<Rightarrow> StoreInput \<Rightarrow> vault_state \<Rightarrow> (vault_secret \<times> vault_state) option" where
  "insertSecret env cx orgID inp st =
     (case (nullUUID env (si_OwnerID inp), nullUUID env (si_CreatedBy inp)) of
        (Some owner, Some author) \<Rightarrow>
          (let s = \<lparr>vs_ID = ve_newID env, vs_OrgID = orgID, vs_Name = si_Name inp,
                 vs_Type = (if si_Type inp = [] then ''generic'' else si_Type inp),
                 vs_Description = si_Description inp, vs_OwnerID = owner, vs_CurrentVersion = 1,
                 vs_CreatedBy = author, vs_RequireStepUp = si_RequireStepUp inp,
                 vs_CreatedAt = ve_now env, vs_UpdatedAt = ve_now env\<rparr> in
           if ve_fails env ''insertSecret'' \<or> \<not> inScope cx orgID
              \<or> list_ex (\<lambda>r. vs_ID r = vs_ID s \<or> vs_OrgID r = orgID \<and> vs_Name r = si_Name inp) (vt_secrets st)
           then None else Some (s, st\<lparr>vt_secrets := vt_secrets st @ [s]\<rparr>))
      | _ \<Rightarrow> None)"

definition Store ::
    "vault_env \<Rightarrow> keyring \<Rightarrow> gin_context \<Rightarrow> StoreInput \<Rightarrow> vault_state \<Rightarrow> (vault_err + SecretMeta) \<times> vault_state" where
  "Store env ring cx inp st =
     (case cx_org cx of
        None \<Rightarrow> (Inl VaultNoOrg, st)
      | Some o' \<Rightarrow>
          (case Seal env ring (ve_newID env) 1 (si_Value inp) of
             Inl e \<Rightarrow> (Inl e, st)
           | Inr (keyID, blob) \<Rightarrow>
               (case insertSecret env cx (org_ID o') inp st of
                  None \<Rightarrow> (Inl VaultDatabase, st)
                | Some (s, st1) \<Rightarrow>
                    (case insertVersion env cx (org_ID o') (vs_ID s) 1 keyID blob (si_CreatedBy inp) st1 of
                       None \<Rightarrow> (Inl VaultDatabase, st)
                     | Some st2 \<Rightarrow>
                         if ve_fails env ''commit'' then (Inl VaultDatabase, st)
                         else (Inr (metaOf s),
                               recordAudit env ''vault.secret_created'' (si_CreatedBy inp) (vs_ID s) st2)))))"

definition setVersion :: "vault_env \<Rightarrow> gin_context \<Rightarrow> string \<Rightarrow> int \<Rightarrow> vault_state \<Rightarrow> vault_state" where
  "setVersion env cx u version st =
     st\<lparr>vt_secrets := updateWhere (secretRow cx u)
          (\<lambda>s. s\<lparr>vs_CurrentVersion := version, vs_UpdatedAt := ve_now env\<rparr>) (vt_secrets st)\<rparr>"

text \<open>The number of the version is that of the row plus one; the text sealed under is the identifier as given.\<close>

definition NewVersion ::
    "vault_env \<Rightarrow> keyring \<Rightarrow> gin_context \<Rightarrow> string \<Rightarrow> string \<Rightarrow> string \<Rightarrow> vault_state \<Rightarrow> (vault_err + int) \<times> vault_state" where
  "NewVersion env ring cx secretID value by' st =
     (case (cx_org cx, ve_uuid env secretID) of
        (None, _) \<Rightarrow> (Inl VaultNoOrg, st)
      | (_, None) \<Rightarrow> (Inl VaultDatabase, st)
      | (Some o', Some u) \<Rightarrow>
          if ve_fails env ''bump'' then (Inl VaultDatabase, st)
          else (case find (secretRow cx u) (vt_secrets st) of
                  None \<Rightarrow> (Inl VaultNoRows, st)
                | Some s \<Rightarrow>
                    (let next' = vs_CurrentVersion s + 1 in
                     case Seal env ring secretID next' value of
                       Inl e \<Rightarrow> (Inl e, st)
                     | Inr (keyID, blob) \<Rightarrow>
                         (case insertVersion env cx (org_ID o') u next' keyID blob by' (setVersion env cx u next' st) of
                            None \<Rightarrow> (Inl VaultDatabase, st)
                          | Some st1 \<Rightarrow>
                              if ve_fails env ''commit'' then (Inl VaultDatabase, st)
                              else (Inr next', recordAudit env ''vault.secret_version'' by' secretID st1)))))"

definition versionRow :: "gin_context \<Rightarrow> string \<Rightarrow> vault_version \<Rightarrow> bool" where
  "versionRow cx u v \<longleftrightarrow> inScope cx (vv_OrgID v) \<and> vv_SecretID v = u"

text \<open>\<^verbatim>\<open>COALESCE(MAX(version),0)+1\<close> over the rows the scope shows.\<close>

definition nextVersion :: "gin_context \<Rightarrow> string \<Rightarrow> vault_state \<Rightarrow> int" where
  "nextVersion cx u st =
     (case map vv_Version (filter (versionRow cx u) (vt_versions st)) of [] \<Rightarrow> 0 | v # vs \<Rightarrow> fold max vs v) + 1"

definition AddCandidateVersion ::
    "vault_env \<Rightarrow> keyring \<Rightarrow> gin_context \<Rightarrow> string \<Rightarrow> string \<Rightarrow> string \<Rightarrow> vault_state \<Rightarrow> (vault_err + int) \<times> vault_state" where
  "AddCandidateVersion env ring cx secretID value by' st =
     (case (cx_org cx, ve_uuid env secretID) of
        (None, _) \<Rightarrow> (Inl VaultNoOrg, st)
      | (_, None) \<Rightarrow> (Inl VaultDatabase, st)
      | (Some o', Some u) \<Rightarrow>
          if ve_fails env ''maxVersion'' then (Inl VaultDatabase, st)
          else (let next' = nextVersion cx u st in
                case Seal env ring secretID next' value of
                  Inl e \<Rightarrow> (Inl e, st)
                | Inr (keyID, blob) \<Rightarrow>
                    (case insertVersion env cx (org_ID o') u next' keyID blob by' st of
                       None \<Rightarrow> (Inl VaultDatabase, st)
                     | Some st1 \<Rightarrow> (Inr next', st1))))"

definition PromoteVersion ::
    "vault_env \<Rightarrow> gin_context \<Rightarrow> string \<Rightarrow> int \<Rightarrow> vault_state \<Rightarrow> vault_err option \<times> vault_state" where
  "PromoteVersion env cx secretID version st =
     (case ve_uuid env secretID of
        None \<Rightarrow> (Some VaultDatabase, st)
      | Some u \<Rightarrow>
          if ve_fails env ''promote'' then (Some VaultDatabase, st)
          else if \<not> list_ex (secretRow cx u) (vt_secrets st) then (Some VaultSecretNotFound, st)
          else (None, setVersion env cx u version st))"

definition ListSecrets :: "vault_env \<Rightarrow> gin_context \<Rightarrow> vault_state \<Rightarrow> vault_err + SecretMeta list" where
  "ListSecrets env cx st =
     (if ve_fails env ''listSecrets'' then Inl VaultDatabase
      else Inr (map metaOf (sort_key (\<lambda>s. ve_rank env (vs_Name s))
             (filter (\<lambda>s. inScope cx (vs_OrgID s)) (vt_secrets st)))))"

definition versionMeta :: "vault_version \<Rightarrow> VersionMeta" where
  "versionMeta v = \<lparr>vm_Version = vv_Version v, vm_KeyID = vv_KeyID v,
     vm_CreatedBy = (case vv_CreatedBy v of None \<Rightarrow> [] | Some u \<Rightarrow> u), vm_CreatedAt = vv_CreatedAt v\<rparr>"

definition Get ::
    "vault_env \<Rightarrow> gin_context \<Rightarrow> string \<Rightarrow> vault_state \<Rightarrow> vault_err + (SecretMeta \<times> VersionMeta list)" where
  "Get env cx secretID st =
     (case ve_uuid env secretID of
        None \<Rightarrow> Inl VaultDatabase
      | Some u \<Rightarrow>
          if ve_fails env ''selectSecret'' then Inl VaultDatabase
          else (case find (secretRow cx u) (vt_secrets st) of
                  None \<Rightarrow> Inl VaultSecretNotFound
                | Some s \<Rightarrow>
                    if ve_fails env ''listVersions'' then Inl VaultDatabase
                    else Inr (metaOf s, map versionMeta (sort_key (\<lambda>v. - vv_Version v)
                           (filter (versionRow cx u) (vt_versions st))))))"

text \<open>Versions, grants and checkouts go with the secret, whatever their organisation.\<close>

definition Delete :: "vault_env \<Rightarrow> gin_context \<Rightarrow> string \<Rightarrow> vault_state \<Rightarrow> vault_err option \<times> vault_state" where
  "Delete env cx secretID st =
     (case ve_uuid env secretID of
        None \<Rightarrow> (Some VaultDatabase, st)
      | Some u \<Rightarrow>
          if ve_fails env ''deleteSecret'' then (Some VaultDatabase, st)
          else if \<not> list_ex (secretRow cx u) (vt_secrets st) then (Some VaultSecretNotFound, st)
          else (None, recordAudit env ''vault.secret_deleted'' [] secretID
                 (st\<lparr>vt_secrets := deleteWhere (secretRow cx u) (vt_secrets st),
                     vt_versions := deleteWhere (\<lambda>v. vv_SecretID v = u) (vt_versions st),
                     vt_grants := deleteWhere (\<lambda>g. vg_SecretID g = u) (vt_grants st),
                     vt_checkouts := deleteWhere (\<lambda>c. vc_SecretID c = u) (vt_checkouts st)\<rparr>)))"

definition SecretOrg :: "vault_env \<Rightarrow> gin_context \<Rightarrow> string \<Rightarrow> vault_state \<Rightarrow> vault_err + string" where
  "SecretOrg env cx secretID st =
     (case ve_uuid env secretID of
        None \<Rightarrow> Inl VaultDatabase
      | Some u \<Rightarrow>
          if ve_fails env ''selectOrg'' then Inl VaultDatabase
          else (case find (secretRow cx u) (vt_secrets st) of
                  None \<Rightarrow> Inl VaultSecretNotFound | Some s \<Rightarrow> Inr (vs_OrgID s)))"

section \<open>Grants\<close>

record Grant =
  gr_SecretID :: string
  gr_PrincipalType :: string
  gr_PrincipalID :: string
  gr_Actions :: "string list"
  gr_ExpiresAt :: "int option"
  gr_GrantedBy :: string

definition sameGrant :: "string \<Rightarrow> string \<Rightarrow> string \<Rightarrow> vault_grant \<Rightarrow> bool" where
  "sameGrant u ptype p g \<longleftrightarrow> vg_SecretID g = u \<and> vg_PrincipalType g = ptype \<and> vg_PrincipalID g = p"

text \<open>On a conflict the actions and the expiry are replaced, if the scope admits the row.\<close>

definition AddGrant ::
    "vault_env \<Rightarrow> gin_context \<Rightarrow> Grant \<Rightarrow> vault_state \<Rightarrow> (vault_err + string) \<times> vault_state" where
  "AddGrant env cx g st =
     (case cx_org cx of
        None \<Rightarrow> (Inl VaultNoOrg, st)
      | Some o' \<Rightarrow>
          (case (ve_uuid env (gr_SecretID g), ve_uuid env (gr_PrincipalID g), nullUUID env (gr_GrantedBy g)) of
             (Some u, Some p, Some by') \<Rightarrow>
               if ve_fails env ''insertGrant'' \<or> \<not> inScope cx (org_ID o')
                  \<or> \<not> list_ex (\<lambda>s. vs_ID s = u) (vt_secrets st) then (Inl VaultDatabase, st)
               else (let audit = recordAudit env ''vault.grant_added'' (gr_GrantedBy g) (gr_SecretID g) in
                     case find (sameGrant u (gr_PrincipalType g) p) (vt_grants st) of
                       Some old \<Rightarrow>
                         if \<not> inScope cx (vg_OrgID old) then (Inl VaultDatabase, st)
                         else (Inr (vg_ID old), audit (st\<lparr>vt_grants :=
                                updateWhere (sameGrant u (gr_PrincipalType g) p)
                                  (\<lambda>r. r\<lparr>vg_Actions := gr_Actions g, vg_ExpiresAt := gr_ExpiresAt g\<rparr>) (vt_grants st)\<rparr>))
                     | None \<Rightarrow>
                         (Inr (ve_newID env), audit (st\<lparr>vt_grants := vt_grants st @
                            [\<lparr>vg_ID = ve_newID env, vg_OrgID = org_ID o', vg_SecretID = u,
                              vg_PrincipalType = gr_PrincipalType g, vg_PrincipalID = p,
                              vg_Actions = gr_Actions g, vg_GrantedBy = by',
                              vg_ExpiresAt = gr_ExpiresAt g\<rparr>]\<rparr>)))
           | _ \<Rightarrow> (Inl VaultDatabase, st)))"

definition RemoveGrant :: "vault_env \<Rightarrow> gin_context \<Rightarrow> string \<Rightarrow> vault_state \<Rightarrow> vault_err option \<times> vault_state" where
  "RemoveGrant env cx grantID st =
     (case ve_uuid env grantID of
        None \<Rightarrow> (Some VaultDatabase, st)
      | Some u \<Rightarrow>
          (let P = (\<lambda>g. inScope cx (vg_OrgID g) \<and> vg_ID g = u) in
           if ve_fails env ''deleteGrant'' then (Some VaultDatabase, st)
           else if \<not> list_ex P (vt_grants st) then (Some VaultSecretNotFound, st)
           else (None, recordAudit env ''vault.grant_removed'' [] grantID
                  (st\<lparr>vt_grants := deleteWhere P (vt_grants st)\<rparr>))))"

definition ListGrants :: "vault_env \<Rightarrow> gin_context \<Rightarrow> string \<Rightarrow> vault_state \<Rightarrow> vault_err + vault_grant list" where
  "ListGrants env cx secretID st =
     (case ve_uuid env secretID of
        None \<Rightarrow> Inl VaultDatabase
      | Some u \<Rightarrow>
          if ve_fails env ''listGrants'' then Inl VaultDatabase
          else Inr (sort_key (\<lambda>g. ve_rank env (vg_PrincipalType g)) (sort_key (\<lambda>g. ve_rank env (vg_PrincipalID g))
                 (filter (\<lambda>g. inScope cx (vg_OrgID g) \<and> vg_SecretID g = u) (vt_grants st)))))"

definition RevokeGrantForPrincipal ::
    "vault_env \<Rightarrow> gin_context \<Rightarrow> string \<Rightarrow> string \<Rightarrow> string \<Rightarrow> vault_state \<Rightarrow> vault_err option \<times> vault_state" where
  "RevokeGrantForPrincipal env cx secretID ptype principalID st =
     (case (ve_uuid env secretID, ve_uuid env principalID) of
        (Some u, Some p) \<Rightarrow>
          if ve_fails env ''revokeGrant'' then (Some VaultDatabase, st)
          else (None, st\<lparr>vt_grants := deleteWhere (\<lambda>g. inScope cx (vg_OrgID g) \<and> sameGrant u ptype p g) (vt_grants st)\<rparr>)
      | _ \<Rightarrow> (Some VaultDatabase, st))"

definition notExpired :: "int \<Rightarrow> int option \<Rightarrow> bool" where
  "notExpired now e = (case e of None \<Rightarrow> True | Some t \<Rightarrow> now < t)"

definition principalMatches :: "string \<Rightarrow> string list \<Rightarrow> vault_grant \<Rightarrow> bool" where
  "principalMatches principalID userRoles g \<longleftrightarrow>
     vg_PrincipalType g \<in> {''user'', ''service_account''} \<and> vg_PrincipalID g = principalID
     \<or> vg_PrincipalType g = ''role'' \<and> vg_PrincipalID g \<in> set userRoles"

definition grantAllows ::
    "vault_env \<Rightarrow> gin_context \<Rightarrow> string \<Rightarrow> string \<Rightarrow> string list \<Rightarrow> string \<Rightarrow> vault_grant \<Rightarrow> bool" where
  "grantAllows env cx u principalID userRoles action g \<longleftrightarrow>
     inScope cx (vg_OrgID g) \<and> vg_SecretID g = u \<and> action \<in> set (vg_Actions g)
     \<and> notExpired (ve_now env) (vg_ExpiresAt g) \<and> principalMatches principalID userRoles g"

definition hasGrant ::
    "vault_env \<Rightarrow> gin_context \<Rightarrow> string \<Rightarrow> string \<Rightarrow> string list \<Rightarrow> string \<Rightarrow> vault_state \<Rightarrow> vault_err + bool" where
  "hasGrant env cx secretID principalID userRoles action st =
     (case ve_uuid env secretID of
        None \<Rightarrow> Inl VaultDatabase
      | Some u \<Rightarrow>
          if ve_fails env ''selectGrant'' then Inl VaultDatabase
          else Inr (list_ex (grantAllows env cx u principalID userRoles action) (vt_grants st)))"

section \<open>Use, reveal and the ledger\<close>

definition currentRow :: "gin_context \<Rightarrow> string \<Rightarrow> vault_state \<Rightarrow> vault_version option" where
  "currentRow cx u st =
     find (\<lambda>v. versionRow cx u v
        \<and> list_ex (\<lambda>s. secretRow cx u s \<and> vs_CurrentVersion s = vv_Version v) (vt_secrets st)) (vt_versions st)"

definition decryptCurrent ::
    "vault_env \<Rightarrow> keyring \<Rightarrow> gin_context \<Rightarrow> string \<Rightarrow> vault_state \<Rightarrow> vault_err + (int \<times> string)" where
  "decryptCurrent env ring cx secretID st =
     (case ve_uuid env secretID of
        None \<Rightarrow> Inl VaultDatabase
      | Some u \<Rightarrow>
          if ve_fails env ''selectVersion'' then Inl VaultDatabase
          else (case currentRow cx u st of
                  None \<Rightarrow> Inl VaultSecretNotFound
                | Some v \<Rightarrow>
                    (case Open env ring (word_of_int (vv_KeyID v)) secretID (vv_Version v) (vv_Ciphertext v) of
                       Inl e \<Rightarrow> Inl e
                     | Inr pt \<Rightarrow> Inr (vv_Version v, pt))))"

text \<open>
  The ledger row takes the organisation of the context, else that of the secret; the foreign key
  wants the secret, which the caller has just read. A failure is logged.
\<close>

definition recordCheckout ::
    "vault_env \<Rightarrow> gin_context \<Rightarrow> string \<Rightarrow> int \<Rightarrow> string \<Rightarrow> string \<Rightarrow> string \<Rightarrow> int option \<Rightarrow> vault_state \<Rightarrow> vault_state" where
  "recordCheckout env cx secretID version principalID mode reason expires st =
     (let orgID = (case cx_org cx of
             Some o' \<Rightarrow> org_ID o'
           | None \<Rightarrow> (case SecretOrg env cx secretID st of Inl _ \<Rightarrow> [] | Inr i \<Rightarrow> i)) in
      case (ve_uuid env secretID, nullUUID env principalID) of
        (Some u, Some p) \<Rightarrow>
          if ve_fails env ''insertCheckout'' \<or> orgID = [] \<or> \<not> inScope cx orgID then st
          else st\<lparr>vt_checkouts := vt_checkouts st @ [\<lparr>vc_OrgID = orgID, vc_SecretID = u, vc_Version = version,
                 vc_Principal = p, vc_Mode = mode, vc_Reason = (if reason = [] then None else Some reason),
                 vc_LeasedAt = ve_now env, vc_ExpiresAt = expires, vc_ReturnedAt = None,
                 vc_Status = ''active''\<rparr>]\<rparr>
      | _ \<Rightarrow> st)"

definition Use ::
    "vault_env \<Rightarrow> keyring \<Rightarrow> gin_context \<Rightarrow> string \<Rightarrow> vault_state \<Rightarrow> (vault_err + string) \<times> vault_state" where
  "Use env ring cx secretID st =
     (if \<not> cx_bypassRLS cx then (Inl NotSystem, st)
      else (case decryptCurrent env ring cx secretID st of
              Inl e \<Rightarrow> (Inl e, st)
            | Inr (version, pt) \<Rightarrow>
                (Inr pt, recordAudit env ''vault.use'' [] secretID
                   (recordCheckout env cx secretID version [] ''use'' [] None st))))"

definition secretRequiresStepUp :: "vault_env \<Rightarrow> gin_context \<Rightarrow> string \<Rightarrow> vault_state \<Rightarrow> vault_err + bool" where
  "secretRequiresStepUp env cx secretID st =
     (case ve_uuid env secretID of
        None \<Rightarrow> Inl VaultDatabase
      | Some u \<Rightarrow>
          if ve_fails env ''selectStepUp'' then Inl VaultDatabase
          else (case find (secretRow cx u) (vt_secrets st) of
                  None \<Rightarrow> Inl VaultSecretNotFound | Some s \<Rightarrow> Inr (vs_RequireStepUp s)))"

definition stepUpRecentWindow :: int where
  "stepUpRecentWindow = 5 * minute"

definition recentStepUp :: "vault_env \<Rightarrow> gin_context \<Rightarrow> string \<Rightarrow> stepup_challenge \<Rightarrow> bool" where
  "recentStepUp env cx p c \<longleftrightarrow> inScope cx (su_OrgID c) \<and> su_UserID c = p \<and> su_Status c = ''completed''
     \<and> (case su_CompletedAt c of None \<Rightarrow> False | Some t \<Rightarrow> ve_now env - stepUpRecentWindow < t)"

definition hasRecentStepUp :: "vault_env \<Rightarrow> gin_context \<Rightarrow> string \<Rightarrow> vault_state \<Rightarrow> vault_err + bool" where
  "hasRecentStepUp env cx principalID st =
     (case ve_uuid env principalID of
        None \<Rightarrow> Inl VaultDatabase
      | Some p \<Rightarrow>
          if ve_fails env ''countStepUps'' then Inl VaultDatabase
          else Inr (0 < countWhere (recentStepUp env cx p) (vt_stepups st)))"

text \<open>The lease is the one \<^verbatim>\<open>NewService\<close> was given, or five minutes.\<close>

definition leaseTTL :: "int \<Rightarrow> int" where
  "leaseTTL configured = (if configured \<le> 0 then 5 * minute else configured)"

definition revealGate ::
    "vault_env \<Rightarrow> gin_context \<Rightarrow> string \<Rightarrow> string \<Rightarrow> string list \<Rightarrow> string \<Rightarrow> bool \<Rightarrow> vault_state \<Rightarrow> vault_err option" where
  "revealGate env cx secretID principalID userRoles reason isAdmin st =
     (if reason = [] then Some ReasonRequired
      else (case (if isAdmin then Inr True else hasGrant env cx secretID principalID userRoles ''reveal'' st) of
              Inl e \<Rightarrow> Some e
            | Inr False \<Rightarrow> Some VaultForbidden
            | Inr True \<Rightarrow>
                (case secretRequiresStepUp env cx secretID st of
                   Inl e \<Rightarrow> Some e
                 | Inr False \<Rightarrow> None
                 | Inr True \<Rightarrow>
                     (case hasRecentStepUp env cx principalID st of
                        Inl e \<Rightarrow> Some e
                      | Inr ok \<Rightarrow> if ok then None else Some StepUpRequired))))"

definition Reveal ::
    "vault_env \<Rightarrow> keyring \<Rightarrow> int \<Rightarrow> gin_context \<Rightarrow> string \<Rightarrow> string \<Rightarrow> string list \<Rightarrow> string \<Rightarrow> bool \<Rightarrow> vault_state
     \<Rightarrow> (vault_err + string) \<times> vault_state" where
  "Reveal env ring ttl cx secretID principalID userRoles reason isAdmin st =
     (case revealGate env cx secretID principalID userRoles reason isAdmin st of
        Some e \<Rightarrow> (Inl e, st)
      | None \<Rightarrow>
          (case decryptCurrent env ring cx secretID st of
             Inl e \<Rightarrow> (Inl e, st)
           | Inr (version, pt) \<Rightarrow>
               (Inr pt, recordAudit env ''vault.reveal'' principalID secretID
                  (recordCheckout env cx secretID version principalID ''reveal'' reason
                     (Some (ve_now env + leaseTTL ttl)) st))))"

definition Checkouts :: "vault_env \<Rightarrow> gin_context \<Rightarrow> string \<Rightarrow> vault_state \<Rightarrow> vault_err + vault_checkout list" where
  "Checkouts env cx secretID st =
     (case ve_uuid env secretID of
        None \<Rightarrow> Inl VaultDatabase
      | Some u \<Rightarrow>
          if ve_fails env ''listCheckouts'' then Inl VaultDatabase
          else Inr (take 200 (sort_key (\<lambda>c. - vc_LeasedAt c)
                 (filter (\<lambda>c. inScope cx (vc_OrgID c) \<and> vc_SecretID c = u) (vt_checkouts st)))))"

section \<open>The sweep\<close>

text \<open>\<^verbatim>\<open>SET NX\<close> with a time to live on the key of the bucket; without Redis every instance runs.\<close>

definition leaderKey :: "string \<Rightarrow> int \<Rightarrow> int \<Rightarrow> string" where
  "leaderKey name interval now =
     ''openidx:leader:'' @ name @ '':'' @ itoa ((now div 1000000) div (interval div 1000000))"

definition IsLeaderForTick ::
    "bool \<Rightarrow> string \<Rightarrow> int \<Rightarrow> int \<Rightarrow> string redis option \<Rightarrow> bool \<times> string redis option" where
  "IsLeaderForTick fails name interval now rdb =
     (case rdb of
        None \<Rightarrow> (True, None)
      | Some m \<Rightarrow>
          (let iv = (if interval \<le> 0 then minute else interval); k = leaderKey name iv now in
           if fails then (False, rdb)
           else if redisGet now m k \<noteq> None then (False, rdb)
           else (True, Some (redisSetEx now (2 * iv) k ''1'' m))))"

definition leaseOver :: "int \<Rightarrow> vault_checkout \<Rightarrow> bool" where
  "leaseOver now c \<longleftrightarrow> vc_Status c = ''active'' \<and> (case vc_ExpiresAt c of None \<Rightarrow> False | Some t \<Rightarrow> t \<le> now)"

definition expireCheckouts :: "vault_env \<Rightarrow> vault_state \<Rightarrow> vault_state" where
  "expireCheckouts env st =
     (if ve_fails env ''expire'' then st
      else st\<lparr>vt_checkouts := updateWhere (leaseOver (ve_now env)) (\<lambda>c. c\<lparr>vc_Status := ''expired''\<rparr>) (vt_checkouts st)\<rparr>)"

section \<open>Handlers\<close>

datatype vault_response =
    VErr int | VStepUp | VMeta SecretMeta | VSecrets "SecretMeta list" | VDetail SecretMeta "VersionMeta list"
  | VVersion int | VNoContent | VValue string | VGrantID string | VGrants "vault_grant list"
  | VCheckouts "vault_checkout list"

definition currentUserID :: "gin_context \<Rightarrow> string" where
  "currentUserID cx = (case cx_userID cx of None \<Rightarrow> [] | Some u \<Rightarrow> u)"

definition currentUserRoles :: "gin_context \<Rightarrow> string list" where
  "currentUserRoles cx = (case cx_roles cx of None \<Rightarrow> [] | Some rs \<Rightarrow> rs)"

definition isAdmin :: "gin_context \<Rightarrow> bool" where
  "isAdmin cx = list_ex (\<lambda>r. r = ''admin'' \<or> r = ''super_admin'') (currentUserRoles cx)"

text \<open>A body is \<open>None\<close> when it does not decode; the author of the input is filled in by the handler.\<close>

definition handleCreate ::
    "vault_env \<Rightarrow> keyring \<Rightarrow> gin_context \<Rightarrow> StoreInput option \<Rightarrow> vault_state \<Rightarrow> vault_response \<times> vault_state" where
  "handleCreate env ring cx body st =
     (case body of
        None \<Rightarrow> (VErr 400, st)
      | Some req \<Rightarrow>
          if si_Name req = [] \<or> si_Value req = [] then (VErr 400, st)
          else (case Store env ring cx (req\<lparr>si_CreatedBy := currentUserID cx\<rparr>) st of
                  (Inl _, st1) \<Rightarrow> (VErr 500, st1) | (Inr meta, st1) \<Rightarrow> (VMeta meta, st1)))"

definition handleList :: "vault_env \<Rightarrow> gin_context \<Rightarrow> vault_state \<Rightarrow> vault_response" where
  "handleList env cx st = (case ListSecrets env cx st of Inl _ \<Rightarrow> VErr 500 | Inr out \<Rightarrow> VSecrets out)"

definition notFoundOr500 :: "vault_err \<Rightarrow> vault_response" where
  "notFoundOr500 e = (if e = VaultSecretNotFound then VErr 404 else VErr 500)"

definition handleGet :: "vault_env \<Rightarrow> gin_context \<Rightarrow> string \<Rightarrow> vault_state \<Rightarrow> vault_response" where
  "handleGet env cx i st = (case Get env cx i st of Inl e \<Rightarrow> notFoundOr500 e | Inr (m, vs) \<Rightarrow> VDetail m vs)"

definition handleNewVersion ::
    "vault_env \<Rightarrow> keyring \<Rightarrow> gin_context \<Rightarrow> string \<Rightarrow> string option \<Rightarrow> vault_state \<Rightarrow> vault_response \<times> vault_state" where
  "handleNewVersion env ring cx i body st =
     (case body of
        None \<Rightarrow> (VErr 400, st)
      | Some value \<Rightarrow>
          if value = [] then (VErr 400, st)
          else (case NewVersion env ring cx i value (currentUserID cx) st of
                  (Inl _, st1) \<Rightarrow> (VErr 500, st1) | (Inr v, st1) \<Rightarrow> (VVersion v, st1)))"

definition handleDelete :: "vault_env \<Rightarrow> gin_context \<Rightarrow> string \<Rightarrow> vault_state \<Rightarrow> vault_response \<times> vault_state" where
  "handleDelete env cx i st =
     (case Delete env cx i st of (Some e, st1) \<Rightarrow> (notFoundOr500 e, st1) | (None, st1) \<Rightarrow> (VNoContent, st1))"

definition handleReveal ::
    "vault_env \<Rightarrow> keyring \<Rightarrow> int \<Rightarrow> gin_context \<Rightarrow> string \<Rightarrow> string option \<Rightarrow> vault_state \<Rightarrow> vault_response \<times> vault_state" where
  "handleReveal env ring ttl cx i body st =
     (case body of
        None \<Rightarrow> (VErr 400, st)
      | Some reason \<Rightarrow>
          if reason = [] then (VErr 400, st)
          else (case Reveal env ring ttl cx i (currentUserID cx) (currentUserRoles cx) reason (isAdmin cx) st of
                  (Inl e, st1) \<Rightarrow>
                    (if e = VaultForbidden then VErr 403 else if e = StepUpRequired then VStepUp else notFoundOr500 e, st1)
                | (Inr pt, st1) \<Rightarrow> (VValue pt, st1)))"

definition handleAddGrant ::
    "vault_env \<Rightarrow> gin_context \<Rightarrow> string \<Rightarrow> Grant option \<Rightarrow> vault_state \<Rightarrow> vault_response \<times> vault_state" where
  "handleAddGrant env cx i body st =
     (case body of
        None \<Rightarrow> (VErr 400, st)
      | Some g \<Rightarrow>
          (case AddGrant env cx (g\<lparr>gr_SecretID := i, gr_GrantedBy := currentUserID cx\<rparr>) st of
             (Inl _, st1) \<Rightarrow> (VErr 500, st1) | (Inr gid, st1) \<Rightarrow> (VGrantID gid, st1)))"

definition handleListGrants :: "vault_env \<Rightarrow> gin_context \<Rightarrow> string \<Rightarrow> vault_state \<Rightarrow> vault_response" where
  "handleListGrants env cx i st = (case ListGrants env cx i st of Inl e \<Rightarrow> notFoundOr500 e | Inr gs \<Rightarrow> VGrants gs)"

text \<open>The secret of the path is not read.\<close>

definition handleRemoveGrant ::
    "vault_env \<Rightarrow> gin_context \<Rightarrow> string \<Rightarrow> string \<Rightarrow> vault_state \<Rightarrow> vault_response \<times> vault_state" where
  "handleRemoveGrant env cx i grantID st =
     (case RemoveGrant env cx grantID st of (Some _, st1) \<Rightarrow> (VErr 404, st1) | (None, st1) \<Rightarrow> (VNoContent, st1))"

definition handleCheckouts :: "vault_env \<Rightarrow> gin_context \<Rightarrow> string \<Rightarrow> vault_state \<Rightarrow> vault_response" where
  "handleCheckouts env cx i st =
     (case Checkouts env cx i st of Inl e \<Rightarrow> notFoundOr500 e | Inr cs \<Rightarrow> VCheckouts cs)"

section \<open>Properties\<close>

subsection \<open>Configuration\<close>

definition keyringOK :: "keyring \<Rightarrow> bool" where
  "keyringOK r \<longleftrightarrow> map_of (kr_keys r) (kr_activeID r) \<noteq> None \<and> list_all (\<lambda>(i, k). length k = kekLen) (kr_keys r)"

lemma decodeKEK_length: "decodeKEK s = Some raw \<Longrightarrow> length raw = kekLen"
  by (auto simp: decodeKEK_def split: option.splits if_splits)

lemma ringEntries_lengths:
  "ringEntries es keys = Inr ks \<Longrightarrow> list_all (\<lambda>(i, k). length k = kekLen) keys
   \<Longrightarrow> list_all (\<lambda>(i, k). length k = kekLen) ks"
  by (induction es keys rule: ringEntries.induct)
    (auto simp: Let_def decodeKEK_length split: if_splits option.splits prod.splits)

lemma newKeyring_ok: "newKeyring multi a single = Inr (Some r) \<Longrightarrow> keyringOK r"
  by (auto simp: newKeyring_def keyringOK_def decodeKEK_length dest: ringEntries_lengths
      split: if_splits option.splits sum.splits)

lemma keyringOK_seals:
  assumes "keyringOK r" and "ve_nonce env \<noteq> None"
  shows "\<exists>k b. Seal env r sid v pt = Inr (k, b)"
proof -
  obtain k where k: "map_of (kr_keys r) (kr_activeID r) = Some k"
    using assms(1) by (auto simp: keyringOK_def)
  have "length k = kekLen"
    using map_of_SomeD [OF k] assms(1) by (auto simp: keyringOK_def list_all_iff)
  with k assms(2) show ?thesis by (auto simp: Seal_def masterFor_def deriveGCM_def)
qed

lemma config_ok: "KeyringFromConfig env cfg = Inr r \<Longrightarrow> keyringOK r"
  by (auto simp: KeyringFromConfig_def newKeyring_ok split: if_splits sum.splits option.splits)
    (simp_all add: keyringOK_def)

text \<open>
  A vault that starts can encrypt: a ring that the configuration yields holds its active key, all
  its keys have 32 bytes and sealing succeeds under it. With OpenBao configured, no key comes from the environment.
\<close>

theorem keyring_fail_closed:
  assumes "KeyringFromConfig env cfg = Inr r"
  shows "keyringOK r \<and> Enabled (Some r)
    \<and> (ve_nonce env' \<noteq> None \<longrightarrow> (\<exists>k b. Seal env' r sid v pt = Inr (k, b)))
    \<and> (baoEnabled (kc_Bao cfg) \<longrightarrow> KeyringFromConfig env (cfg\<lparr>kc_KEK := a, kc_KEKs := b, kc_EncryptionKey := c\<rparr>) = Inr r)"
  using config_ok [OF assms] keyringOK_seals assms
  by (auto simp: Enabled_def keyringOK_def KeyringFromConfig_def)

subsection \<open>Sealing\<close>

text \<open>What the library promises of the cipher, and that an environment draws nonces of twelve bytes.\<close>

definition aeadOK :: "vault_env \<Rightarrow> bool" where
  "aeadOK E \<longleftrightarrow> (\<forall>k n p. ve_gcmOpen E k n (ve_gcmSeal E k n p) = Some p
     \<and> length (ve_gcmSeal E k n p) = length p + tagLen)"

definition sameBox :: "vault_env \<Rightarrow> vault_env \<Rightarrow> bool" where
  "sameBox E e \<longleftrightarrow> ve_hkdf e = ve_hkdf E \<and> ve_gcmSeal e = ve_gcmSeal E \<and> ve_gcmOpen e = ve_gcmOpen E
     \<and> ve_uuid e = ve_uuid E \<and> (\<forall>n. ve_nonce e = Some n \<longrightarrow> length n = nonceLen)"

text \<open>The ring \<open>R\<close> still has the keys of \<open>r\<close>.\<close>

definition retains :: "keyring \<Rightarrow> keyring \<Rightarrow> bool" where
  "retains R r \<longleftrightarrow> map_of (kr_keys r) \<subseteq>\<^sub>m map_of (kr_keys R)"

lemma Seal_Open:
  assumes "aeadOK E" and "sameBox E e" and "retains R r" and "Seal e r sid v pt = Inr (k, blob)"
  shows "Open E R k sid v blob = Inr pt"
proof -
  obtain m n where m: "map_of (kr_keys r) (kr_activeID r) = Some m" and len: "length m = kekLen"
    and n: "ve_nonce e = Some n" and k: "k = kr_activeID r"
    and blob: "blob = n @ ve_gcmSeal E (ve_hkdf E m (keyInfo sid v)) n pt"
    using assms(2,4)
    by (auto simp: Seal_def masterFor_def deriveGCM_def sameBox_def split: option.splits sum.splits if_splits)
  have "map_of (kr_keys R) k = Some m"
    using assms(3) m unfolding retains_def k by (auto simp: map_le_def dom_def)
  moreover have "length n = nonceLen" using assms(2) n by (simp add: sameBox_def)
  ultimately show ?thesis
    using assms(1) len by (simp add: Open_def masterFor_def deriveGCM_def blob aeadOK_def)
qed

lemma itoa_no_colon: "CHR '':'' \<notin> set (itoa v)"
  using dec_digits [of "CHR '':''"] by (auto simp: itoa_def isDigitAscii_def byteOf_def)

lemma itoa_inject: "itoa v = itoa w \<longleftrightarrow> v = w"
proof -
  have hd_dec: "hd (dec n) \<noteq> CHR ''-''" for n
    using dec_digits [OF hd_in_set [OF dec_not_Nil [of n]]] by (auto simp: isDigitAscii_def byteOf_def)
  then have "dec n \<noteq> CHR ''-'' # s" "CHR ''-'' # s \<noteq> dec n" for n s
    by (metis list.sel(1))+
  then show ?thesis by (auto simp: itoa_def)
qed

lemma last_sep:
  fixes a b x y :: string
  assumes "x @ c # a = y @ c # b" and "c \<notin> set a" and "c \<notin> set b"
  shows "x = y \<and> a = b"
proof -
  have "rev a @ c # rev x = rev b @ c # rev y" using arg_cong [OF assms(1), of rev] by simp
  then have "cutAt c (rev a @ c # rev x) = cutAt c (rev b @ c # rev y)" by simp
  then show ?thesis using assms(2,3) by (simp add: cutAt_append)
qed

text \<open>No two versions of secrets have their keys derived from the same text.\<close>

theorem key_separation: "keyInfo sid v = keyInfo sid' v' \<longleftrightarrow> sid = sid' \<and> v = v'"
  using last_sep [of sid "CHR '':''" "itoa v" sid' "itoa v'"] itoa_no_colon
  by (auto simp: keyInfo_def itoa_inject)

subsection \<open>The vault as a table of versions\<close>

text \<open>
  The abstract vault: for every secret its current version and the texts of its versions. What a row stands
  for is read with the ring \<open>R\<close>, which keeps every key.
\<close>

type_synonym vault_table = "string \<Rightarrow> (int \<times> (int \<Rightarrow> string option)) option"

definition versionText :: "vault_env \<Rightarrow> keyring \<Rightarrow> vault_version list \<Rightarrow> string \<Rightarrow> int \<Rightarrow> string option" where
  "versionText E R rows u v =
     (case find (\<lambda>r. vv_SecretID r = u \<and> vv_Version r = v) rows of
        None \<Rightarrow> None
      | Some r \<Rightarrow> (case Open E R (word_of_int (vv_KeyID r)) u v (vv_Ciphertext r) of Inl _ \<Rightarrow> None | Inr pt \<Rightarrow> Some pt))"

definition vaultTable :: "vault_env \<Rightarrow> keyring \<Rightarrow> vault_state \<Rightarrow> vault_table" where
  "vaultTable E R st u =
     map_option (\<lambda>s. (vs_CurrentVersion s, versionText E R (vt_versions st) u))
       (find (\<lambda>s. vs_ID s = u) (vt_secrets st))"

definition vault_wf :: "vault_state \<Rightarrow> bool" where
  "vault_wf st \<longleftrightarrow> distinct (map vs_ID (vt_secrets st))
     \<and> distinct (map (\<lambda>v. (vv_SecretID v, vv_Version v)) (vt_versions st))
     \<and> vv_SecretID ` set (vt_versions st) \<subseteq> vs_ID ` set (vt_secrets st)"

lemma recordAudit_tables [simp]:
  "vt_secrets (recordAudit env e u d st) = vt_secrets st" "vt_versions (recordAudit env e u d st) = vt_versions st"
  "vt_grants (recordAudit env e u d st) = vt_grants st" "vt_checkouts (recordAudit env e u d st) = vt_checkouts st"
  by (simp_all add: recordAudit_def)

lemma recordCheckout_tables [simp]:
  "vt_secrets (recordCheckout env cx s v p m r e st) = vt_secrets st"
  "vt_versions (recordCheckout env cx s v p m r e st) = vt_versions st"
  by (simp_all add: recordCheckout_def Let_def split: option.split)

lemma vault_cong:
  assumes "vt_secrets st' = vt_secrets st" and "vt_versions st' = vt_versions st"
  shows "vaultTable E R st' = vaultTable E R st" and "vault_wf st' \<longleftrightarrow> vault_wf st"
  using assms by (simp_all add: vaultTable_def vault_wf_def fun_eq_iff)

lemmas audit_cong [simp] = vault_cong [OF recordAudit_tables(1,2)]
lemmas checkout_cong [simp] = vault_cong [OF recordCheckout_tables]

lemma find_by_key:
  assumes d: "distinct (map key rows)" and r: "r \<in> set rows"
  shows "find (\<lambda>s. key s = key r) rows = Some r"
proof (cases "find (\<lambda>s. key s = key r) rows")
  case None
  with r show ?thesis unfolding find_None_all by blast
next
  case (Some s)
  from find_Some_mem [OF this] have "s \<in> set rows" "key s = key r" by auto
  then have "s = r" using d r by (simp add: distinct_map inj_on_def)
  with Some show ?thesis by simp
qed

lemma secret_found:
  assumes "vault_wf st" and "s \<in> set (vt_secrets st)"
  shows "find (\<lambda>r. vs_ID r = vs_ID s) (vt_secrets st) = Some s"
  by (rule find_by_key) (use assms in \<open>simp_all add: vault_wf_def\<close>)

lemma setVersion_wf: "vault_wf st \<Longrightarrow> vault_wf (setVersion env cx u v st)"
  by (simp add: vault_wf_def setVersion_def map_updateWhere_key image_updateWhere_key)

lemma table_row: "vault_wf st \<Longrightarrow> s \<in> set (vt_secrets st) \<Longrightarrow>
    vaultTable E R st (vs_ID s) = Some (vs_CurrentVersion s, versionText E R (vt_versions st) (vs_ID s))"
  by (simp add: vaultTable_def secret_found)

lemma table_setVersion:
  assumes wf: "vault_wf st" and s: "s \<in> set (vt_secrets st)" and row: "secretRow cx u s"
  shows "vaultTable E R (setVersion env cx u v st)
    = (vaultTable E R st)(u \<mapsto> (v, versionText E R (vt_versions st) u))"
proof
  fix w
  have f: "find (\<lambda>s. vs_ID s = w) (vt_secrets (setVersion env cx u v st))
      = map_option (\<lambda>s. if secretRow cx u s then s\<lparr>vs_CurrentVersion := v, vs_UpdatedAt := ve_now env\<rparr> else s)
          (find (\<lambda>s. vs_ID s = w) (vt_secrets st))"
    by (simp add: setVersion_def find_updateWhere)
  show "vaultTable E R (setVersion env cx u v st) w
      = ((vaultTable E R st)(u \<mapsto> (v, versionText E R (vt_versions st) u))) w"
  proof (cases "w = u")
    case True
    have "find (\<lambda>s. vs_ID s = u) (vt_secrets st) = Some s"
      using secret_found [OF wf s] row by (simp add: secretRow_def)
    with True row f show ?thesis by (simp add: vaultTable_def) (simp add: setVersion_def)
  next
    case False
    then have "\<not> secretRow cx u r" if "find (\<lambda>r. vs_ID r = w) (vt_secrets st) = Some r" for r
      using find_Some_mem [OF that] by (simp add: secretRow_def)
    with False f show ?thesis
      by (cases "find (\<lambda>r. vs_ID r = w) (vt_secrets st)") (simp_all add: vaultTable_def, simp add: setVersion_def)
  qed
qed

lemma insertVersion_cases:
  assumes "insertVersion env cx o' u v k blob by' st = Some st'"
  obtains r where "st' = st\<lparr>vt_versions := vt_versions st @ [r]\<rparr>" and "vv_SecretID r = u" and "vv_Version r = v"
    and "vv_KeyID r = uint k" and "vv_Ciphertext r = blob" and "vv_OrgID r = o'" and "inScope cx o'"
    and "u \<in> vs_ID ` set (vt_secrets st)"
    and "\<And>q. q \<in> set (vt_versions st) \<Longrightarrow> \<not> (vv_SecretID q = u \<and> vv_Version q = v)"
proof -
  obtain author where a: "nullUUID env by' = Some author"
    using assms by (cases "nullUUID env by'") (simp_all add: insertVersion_def)
  show ?thesis
    by (rule that [of "\<lparr>vv_OrgID = o', vv_SecretID = u, vv_Version = v, vv_KeyID = uint k, vv_Ciphertext = blob,
        vv_CreatedBy = author, vv_CreatedAt = ve_now env\<rparr>"])
      (use assms a in \<open>auto simp: insertVersion_def list_ex_iff split: if_splits\<close>)
qed

lemma versionText_append:
  assumes "\<And>q. q \<in> set rows \<Longrightarrow> \<not> (vv_SecretID q = u \<and> vv_Version q = v)"
    and "vv_SecretID r = u" and "vv_Version r = v" and "vv_KeyID r = uint k" and "vv_Ciphertext r = blob"
    and "Open E R k u v blob = Inr pt"
  shows "versionText E R rows u v = None"
    and "versionText E R (rows @ [r]) w = (if w = u then (versionText E R rows u)(v \<mapsto> pt) else versionText E R rows w)"
proof -
  have none: "find (\<lambda>r. vv_SecretID r = u \<and> vv_Version r = v) rows = None"
    using assms(1) by (simp add: find_None_all)
  then show "versionText E R rows u v = None" by (simp add: versionText_def)
  show "versionText E R (rows @ [r]) w = (if w = u then (versionText E R rows u)(v \<mapsto> pt) else versionText E R rows w)"
  proof
    fix x
    show "versionText E R (rows @ [r]) w x
        = (if w = u then (versionText E R rows u)(v \<mapsto> pt) else versionText E R rows w) x"
    proof (cases "w = u \<and> x = v")
      case True
      with none assms(2-6) show ?thesis by (simp add: versionText_def find_append)
    next
      case False
      then have "find (\<lambda>q. vv_SecretID q = w \<and> vv_Version q = x) (rows @ [r])
          = find (\<lambda>q. vv_SecretID q = w \<and> vv_Version q = x) rows"
        using assms(2,3) by (auto simp: find_append split: option.split)
      with False show ?thesis by (auto simp: versionText_def)
    qed
  qed
qed

lemma table_insertVersion:
  assumes wf: "vault_wf st" and ins: "insertVersion env cx o' u v k blob by' st = Some st'"
    and op: "Open E R k u v blob = Inr pt"
  obtains cur f where "vault_wf st'" and "vaultTable E R st u = Some (cur, f)" and "f v = None"
    and "vaultTable E R st' = (vaultTable E R st)(u \<mapsto> (cur, f(v \<mapsto> pt)))"
  using ins
proof (cases rule: insertVersion_cases)
  case (1 r)
  note app = versionText_append [OF 1(9) 1(2-5) op]
  obtain s where s: "s \<in> set (vt_secrets st)" "vs_ID s = u" using 1(8) by auto
  have wf': "vault_wf st'" using wf 1(2,3,8,9) by (force simp: vault_wf_def 1(1))
  have row: "vaultTable E R st u = Some (vs_CurrentVersion s, versionText E R (vt_versions st) u)"
    using table_row [OF wf s(1)] s(2) by simp
  have "vaultTable E R st' w = ((vaultTable E R st)(u \<mapsto> (vs_CurrentVersion s, (versionText E R (vt_versions st) u)(v \<mapsto> pt)))) w" for w
    using row by (auto simp: vaultTable_def 1(1) app(2))
  then show ?thesis using that [OF wf' row app(1)] by blast
qed

subsection \<open>Every operation\<close>

datatype vault_op =
    OpStore StoreInput
  | OpNewVersion string string string
  | OpCandidate string string string
  | OpPromote string int
  | OpDelete string
  | OpAddGrant Grant
  | OpRemoveGrant string
  | OpRevokeGrant string string string
  | OpReveal string string "string list" string bool
  | OpUse string
  | OpExpire

datatype vault_answer = AFailed | ADone | AVersion int | AStored string | AText string

fun vaultRun ::
    "vault_env \<Rightarrow> keyring \<Rightarrow> int \<Rightarrow> gin_context \<Rightarrow> vault_op \<Rightarrow> vault_state \<Rightarrow> vault_answer \<times> vault_state" where
  "vaultRun env ring ttl cx (OpStore inp) st =
     (case Store env ring cx inp st of (Inl _, s) \<Rightarrow> (AFailed, s) | (Inr m, s) \<Rightarrow> (AStored (sm_ID m), s))"
| "vaultRun env ring ttl cx (OpNewVersion i value by') st =
     (case NewVersion env ring cx i value by' st of (Inl _, s) \<Rightarrow> (AFailed, s) | (Inr v, s) \<Rightarrow> (AVersion v, s))"
| "vaultRun env ring ttl cx (OpCandidate i value by') st =
     (case AddCandidateVersion env ring cx i value by' st of (Inl _, s) \<Rightarrow> (AFailed, s) | (Inr v, s) \<Rightarrow> (AVersion v, s))"
| "vaultRun env ring ttl cx (OpPromote i v) st =
     (case PromoteVersion env cx i v st of (Some _, s) \<Rightarrow> (AFailed, s) | (None, s) \<Rightarrow> (ADone, s))"
| "vaultRun env ring ttl cx (OpDelete i) st =
     (case Delete env cx i st of (Some _, s) \<Rightarrow> (AFailed, s) | (None, s) \<Rightarrow> (ADone, s))"
| "vaultRun env ring ttl cx (OpAddGrant g) st =
     (case AddGrant env cx g st of (Inl _, s) \<Rightarrow> (AFailed, s) | (Inr i, s) \<Rightarrow> (ADone, s))"
| "vaultRun env ring ttl cx (OpRemoveGrant i) st =
     (case RemoveGrant env cx i st of (Some _, s) \<Rightarrow> (AFailed, s) | (None, s) \<Rightarrow> (ADone, s))"
| "vaultRun env ring ttl cx (OpRevokeGrant i t p) st =
     (case RevokeGrantForPrincipal env cx i t p st of (Some _, s) \<Rightarrow> (AFailed, s) | (None, s) \<Rightarrow> (ADone, s))"
| "vaultRun env ring ttl cx (OpReveal i p roles reason adm) st =
     (case Reveal env ring ttl cx i p roles reason adm st of (Inl _, s) \<Rightarrow> (AFailed, s) | (Inr t, s) \<Rightarrow> (AText t, s))"
| "vaultRun env ring ttl cx (OpUse i) st =
     (case Use env ring cx i st of (Inl _, s) \<Rightarrow> (AFailed, s) | (Inr t, s) \<Rightarrow> (AText t, s))"
| "vaultRun env ring ttl cx OpExpire st = (ADone, expireCheckouts env st)"

text \<open>The operations on the abstract vault, given the answer.\<close>

definition currentText :: "vault_table \<Rightarrow> string \<Rightarrow> string \<Rightarrow> bool" where
  "currentText M i t \<longleftrightarrow> (\<exists>cur f. M i = Some (cur, f) \<and> f cur = Some t)"

fun vaultSpec :: "vault_op \<Rightarrow> vault_answer \<Rightarrow> vault_table \<Rightarrow> vault_table \<Rightarrow> bool" where
  "vaultSpec (OpStore inp) (AStored i) M M' \<longleftrightarrow> M i = None \<and> M' = M(i \<mapsto> (1, [1 \<mapsto> si_Value inp]))"
| "vaultSpec (OpNewVersion i value _) (AVersion v) M M' \<longleftrightarrow>
     (\<exists>cur f. M i = Some (cur, f) \<and> v = cur + 1 \<and> f v = None \<and> M' = M(i \<mapsto> (v, f(v \<mapsto> value))))"
| "vaultSpec (OpCandidate i value _) (AVersion v) M M' \<longleftrightarrow>
     (\<exists>cur f. M i = Some (cur, f) \<and> f v = None \<and> M' = M(i \<mapsto> (cur, f(v \<mapsto> value))))"
| "vaultSpec (OpPromote i v) ADone M M' \<longleftrightarrow> (\<exists>cur f. M i = Some (cur, f) \<and> M' = M(i \<mapsto> (v, f)))"
| "vaultSpec (OpDelete i) ADone M M' \<longleftrightarrow> M i \<noteq> None \<and> M' = M(i := None)"
| "vaultSpec (OpReveal i _ _ _ _) (AText t) M M' \<longleftrightarrow> currentText M i t \<and> M' = M"
| "vaultSpec (OpUse i) (AText t) M M' \<longleftrightarrow> currentText M i t \<and> M' = M"
| "vaultSpec _ _ M M' \<longleftrightarrow> M' = M"

text \<open>Identifiers are given in their canonical form, keys drawn are UUIDs, the ring of the moment is kept by \<open>R\<close>.\<close>

fun canonicalOp :: "vault_env \<Rightarrow> vault_op \<Rightarrow> bool" where
  "canonicalOp E (OpNewVersion i _ _) \<longleftrightarrow> ve_uuid E i = Some i"
| "canonicalOp E (OpCandidate i _ _) \<longleftrightarrow> ve_uuid E i = Some i"
| "canonicalOp E (OpPromote i _) \<longleftrightarrow> ve_uuid E i = Some i"
| "canonicalOp E (OpDelete i) \<longleftrightarrow> ve_uuid E i = Some i"
| "canonicalOp E (OpReveal i _ _ _ _) \<longleftrightarrow> ve_uuid E i = Some i"
| "canonicalOp E (OpUse i) \<longleftrightarrow> ve_uuid E i = Some i"
| "canonicalOp E _ \<longleftrightarrow> True"

definition vaultCtx :: "vault_env \<Rightarrow> keyring \<Rightarrow> vault_env \<Rightarrow> keyring \<Rightarrow> bool" where
  "vaultCtx E R env ring \<longleftrightarrow> aeadOK E \<and> sameBox E env \<and> retains R ring"

lemma ctx_Open: "vaultCtx E R env ring \<Longrightarrow> Seal env ring i v pt = Inr (k, blob) \<Longrightarrow> Open E R k i v blob = Inr pt"
  by (auto simp: vaultCtx_def intro: Seal_Open)

lemma ctx_uuid: "vaultCtx E R env ring \<Longrightarrow> ve_uuid env = ve_uuid E"
  by (simp add: vaultCtx_def sameBox_def)

lemma insertSecret_cases:
  assumes "insertSecret env cx o' inp st = Some (s, st')"
  obtains "st' = st\<lparr>vt_secrets := vt_secrets st @ [s]\<rparr>" and "vs_ID s = ve_newID env" and "vs_CurrentVersion s = 1"
    and "vs_OrgID s = o'" and "ve_newID env \<notin> vs_ID ` set (vt_secrets st)"
  by (rule that) (use assms in \<open>auto simp: insertSecret_def Let_def list_ex_iff split: option.splits if_splits\<close>)

lemma table_insertSecret:
  assumes wf: "vault_wf st" and ins: "insertSecret env cx o' inp st = Some (s, st')"
  shows "vault_wf st' \<and> vaultTable E R st (vs_ID s) = None
    \<and> vaultTable E R st' = (vaultTable E R st)(vs_ID s \<mapsto> (1, Map.empty))"
  using ins
proof (cases rule: insertSecret_cases)
  case 1
  have none: "find (\<lambda>r. vs_ID r = vs_ID s) (vt_secrets st) = None"
    using 1(2,5) by (force simp: find_None_all)
  have "vv_SecretID q \<noteq> vs_ID s" if "q \<in> set (vt_versions st)" for q
  proof -
    have "vv_SecretID q \<in> vs_ID ` set (vt_secrets st)" using wf that unfolding vault_wf_def by blast
    then show ?thesis using 1(2,5) by auto
  qed
  then have "find (\<lambda>r. vv_SecretID r = vs_ID s \<and> vv_Version r = v) (vt_versions st) = None" for v
    by (simp add: find_None_all)
  then have "versionText E R (vt_versions st) (vs_ID s) v = None" for v by (simp add: versionText_def)
  then have "versionText E R (vt_versions st) (vs_ID s) = Map.empty" by blast
  moreover have "find (\<lambda>r. vs_ID r = w) (vt_secrets st @ [s])
      = (if w = vs_ID s then Some s else find (\<lambda>r. vs_ID r = w) (vt_secrets st))" for w
    using none by (auto simp: find_append split: option.split)
  moreover have "vault_wf st'" using wf 1(2,5) by (auto simp: vault_wf_def 1(1))
  ultimately show ?thesis using none 1(3) by (auto simp: vaultTable_def 1(1) fun_eq_iff)
qed

lemma Store_refines:
  assumes wf: "vault_wf st" and ctx: "vaultCtx E R env ring" and run: "Store env ring cx inp st = (r, st')"
  shows "vault_wf st' \<and> (case r of Inl _ \<Rightarrow> st' = st
    | Inr m \<Rightarrow> vaultSpec (OpStore inp) (AStored (sm_ID m)) (vaultTable E R st) (vaultTable E R st'))"
proof (cases r)
  case (Inl e)
  with wf run show ?thesis by (auto simp: Store_def split: option.splits sum.splits prod.splits if_splits)
next
  case (Inr m)
  with run obtain og k blob s st1 st2 where seal: "Seal env ring (ve_newID env) 1 (si_Value inp) = Inr (k, blob)"
    and ins: "insertSecret env cx og inp st = Some (s, st1)"
    and ver: "insertVersion env cx og (vs_ID s) 1 k blob (si_CreatedBy inp) st1 = Some st2"
    and m: "m = metaOf s" and st': "st' = recordAudit env ''vault.secret_created'' (si_CreatedBy inp) (vs_ID s) st2"
    by (auto simp: Store_def split: option.splits sum.splits prod.splits if_splits)
  have id: "vs_ID s = ve_newID env" using ins by (cases rule: insertSecret_cases)
  note one = table_insertSecret [OF wf ins, of E R]
  from table_insertVersion [OF conjunct1 [OF one] ver] ctx_Open [OF ctx seal]
  obtain cur f where two: "vault_wf st2" "vaultTable E R st1 (vs_ID s) = Some (cur, f)"
    "vaultTable E R st2 = (vaultTable E R st1)(vs_ID s \<mapsto> (cur, f(1 \<mapsto> si_Value inp)))"
    unfolding id by metis
  from one two show ?thesis by (simp add: Inr m st' metaOf_def)
qed

lemma NewVersion_refines:
  assumes wf: "vault_wf st" and ctx: "vaultCtx E R env ring" and i: "ve_uuid E i = Some i"
    and run: "NewVersion env ring cx i value by' st = (r, st')"
  shows "vault_wf st' \<and> (case r of Inl _ \<Rightarrow> st' = st
    | Inr v \<Rightarrow> vaultSpec (OpNewVersion i value by') (AVersion v) (vaultTable E R st) (vaultTable E R st'))"
proof (cases r)
  case (Inl e)
  with wf run show ?thesis
    by (auto simp: NewVersion_def Let_def split: option.splits sum.splits prod.splits if_splits)
next
  case (Inr v)
  have i': "ve_uuid env i = Some i" using i ctx_uuid [OF ctx] by simp
  from run Inr obtain og s k blob st1 where s: "find (secretRow cx i) (vt_secrets st) = Some s"
    and v: "v = vs_CurrentVersion s + 1" and seal: "Seal env ring i v value = Inr (k, blob)"
    and ver: "insertVersion env cx og i v k blob by' (setVersion env cx i v st) = Some st1"
    and st': "st' = recordAudit env ''vault.secret_version'' by' i st1"
    by (auto simp: NewVersion_def Let_def i' split: option.splits sum.splits prod.splits if_splits)
  have mem: "s \<in> set (vt_secrets st)" and row: "secretRow cx i s" using find_Some_mem [OF s] by auto
  have id: "vs_ID s = i" using row by (simp add: secretRow_def)
  have old: "vaultTable E R st i = Some (vs_CurrentVersion s, versionText E R (vt_versions st) i)"
    using table_row [OF wf mem] id by simp
  note one = table_setVersion [OF wf mem row, of E R env v]
  from table_insertVersion [OF setVersion_wf [OF wf] ver ctx_Open [OF ctx seal]]
  obtain cur f where two: "vault_wf st1" "vaultTable E R (setVersion env cx i v st) i = Some (cur, f)" "f v = None"
    "vaultTable E R st1 = (vaultTable E R (setVersion env cx i v st))(i \<mapsto> (cur, f(v \<mapsto> value)))" by metis
  from old one two v show ?thesis by (simp add: Inr st')
qed

lemma Candidate_refines:
  assumes wf: "vault_wf st" and ctx: "vaultCtx E R env ring" and i: "ve_uuid E i = Some i"
    and run: "AddCandidateVersion env ring cx i value by' st = (r, st')"
  shows "vault_wf st' \<and> (case r of Inl _ \<Rightarrow> st' = st
    | Inr v \<Rightarrow> vaultSpec (OpCandidate i value by') (AVersion v) (vaultTable E R st) (vaultTable E R st'))"
proof (cases r)
  case (Inl e)
  with wf run show ?thesis
    by (auto simp: AddCandidateVersion_def Let_def split: option.splits sum.splits prod.splits if_splits)
next
  case (Inr v)
  have i': "ve_uuid env i = Some i" using i ctx_uuid [OF ctx] by simp
  from run Inr obtain og k blob where seal: "Seal env ring i v value = Inr (k, blob)"
    and ver: "insertVersion env cx og i v k blob by' st = Some st'"
    by (auto simp: AddCandidateVersion_def Let_def i' split: option.splits sum.splits prod.splits if_splits)
  from table_insertVersion [OF wf ver ctx_Open [OF ctx seal]]
  obtain cur f where "vault_wf st'" "vaultTable E R st i = Some (cur, f)" "f v = None"
    "vaultTable E R st' = (vaultTable E R st)(i \<mapsto> (cur, f(v \<mapsto> value)))" by metis
  then show ?thesis by (simp add: Inr)
qed

lemma Promote_refines:
  assumes wf: "vault_wf st" and i: "ve_uuid env i = Some i" and run: "PromoteVersion env cx i v st = (r, st')"
  shows "vault_wf st' \<and> (case r of Some _ \<Rightarrow> st' = st
    | None \<Rightarrow> vaultSpec (OpPromote i v) ADone (vaultTable E R st) (vaultTable E R st'))"
proof (cases r)
  case None
  with run i obtain s where s: "s \<in> set (vt_secrets st)" "secretRow cx i s" and st': "st' = setVersion env cx i v st"
    by (auto simp: PromoteVersion_def list_ex_iff split: if_splits)
  have "vaultTable E R st i = Some (vs_CurrentVersion s, versionText E R (vt_versions st) i)"
    using table_row [OF wf s(1)] s(2) by (simp add: secretRow_def)
  then show ?thesis
    using table_setVersion [OF wf s] setVersion_wf [OF wf] by (simp add: None st')
next
  case (Some e)
  with wf run i show ?thesis by (auto simp: PromoteVersion_def split: if_splits)
qed

lemma find_deleteWhere:
  assumes "\<And>r. r \<in> set rows \<Longrightarrow> P r \<Longrightarrow> \<not> Q r"
  shows "find P (deleteWhere Q rows) = find P rows"
  using assms by (induction rows) (auto simp: deleteWhere_def)

lemma Delete_refines:
  assumes wf: "vault_wf st" and i: "ve_uuid env i = Some i" and run: "Delete env cx i st = (r, st')"
  shows "vault_wf st' \<and> (case r of Some _ \<Rightarrow> st' = st
    | None \<Rightarrow> vaultSpec (OpDelete i) ADone (vaultTable E R st) (vaultTable E R st'))"
proof (cases r)
  case None
  with run i obtain s where s: "s \<in> set (vt_secrets st)" "secretRow cx i s"
    and sec: "vt_secrets st' = deleteWhere (secretRow cx i) (vt_secrets st)"
    and ver: "vt_versions st' = deleteWhere (\<lambda>v. vv_SecretID v = i) (vt_versions st)"
    by (auto simp: Delete_def list_ex_iff split: if_splits)
  have id: "vs_ID s = i" using s(2) by (simp add: secretRow_def)
  have only: "secretRow cx i r \<longleftrightarrow> vs_ID r = i" if "r \<in> set (vt_secrets st)" for r
  proof
    assume "vs_ID r = i"
    then have "r = s" using wf s(1) that id by (auto simp: vault_wf_def distinct_map inj_on_def)
    then show "secretRow cx i r" using s(2) by simp
  qed (simp add: secretRow_def)
  have "vault_wf st'" using wf only by (auto simp: vault_wf_def sec ver distinct_map_deleteWhere)
  moreover have "vaultTable E R st' w = ((vaultTable E R st)(i := None)) w" for w
  proof (cases "w = i")
    case True
    have "find (\<lambda>s. vs_ID s = i) (vt_secrets st') = None" using only by (auto simp: find_None_all sec)
    with True show ?thesis by (simp add: vaultTable_def)
  next
    case False
    have "find (\<lambda>s. vs_ID s = w) (vt_secrets st') = find (\<lambda>s. vs_ID s = w) (vt_secrets st)"
      unfolding sec by (rule find_deleteWhere) (use False in \<open>simp add: secretRow_def\<close>)
    moreover have "versionText E R (vt_versions st') w = versionText E R (vt_versions st) w"
      unfolding ver versionText_def by (subst find_deleteWhere) (use False in simp_all)
    ultimately show ?thesis using False by (simp add: vaultTable_def)
  qed
  moreover have "vaultTable E R st i \<noteq> None" using table_row [OF wf s(1)] id by simp
  ultimately show ?thesis by (auto simp: None)
next
  case (Some e)
  with wf run i show ?thesis by (auto simp: Delete_def split: if_splits)
qed

lemma decrypt_current:
  assumes wf: "vault_wf st" and ctx: "vaultCtx E R env ring" and i: "ve_uuid E i = Some i"
    and run: "decryptCurrent env ring cx i st = Inr (v, pt)"
  shows "currentText (vaultTable E R st) i pt"
    and "\<exists>s \<in> set (vt_secrets st). secretRow cx i s \<and> vs_CurrentVersion s = v"
proof -
  have i': "ve_uuid env i = Some i" using i ctx_uuid [OF ctx] by simp
  from run obtain r where r: "currentRow cx i st = Some r" and v: "v = vv_Version r"
    and op: "Open env ring (word_of_int (vv_KeyID r)) i v (vv_Ciphertext r) = Inr pt"
    by (auto simp: decryptCurrent_def i' split: option.splits if_splits sum.splits)
  from find_Some_mem [OF r [unfolded currentRow_def]]
  obtain s where mem: "r \<in> set (vt_versions st)" and rid: "vv_SecretID r = i"
    and s: "s \<in> set (vt_secrets st)" "secretRow cx i s" "vs_CurrentVersion s = v"
    by (auto simp: list_ex_iff versionRow_def v)
  have "Open E R (word_of_int (vv_KeyID r)) i v (vv_Ciphertext r) = Inr pt"
    using op ctx by (auto simp: Open_def vaultCtx_def sameBox_def retains_def masterFor_def deriveGCM_def map_le_def dom_def
        split: if_splits option.splits)
  moreover have "find (\<lambda>q. vv_SecretID q = i \<and> vv_Version q = v) (vt_versions st) = Some r"
    using find_by_key [of "\<lambda>v. (vv_SecretID v, vv_Version v)" "vt_versions st" r] wf mem
    by (simp add: vault_wf_def rid v)
  ultimately have "versionText E R (vt_versions st) i v = Some pt" by (simp add: versionText_def)
  moreover have "vs_ID s = i" using s(2) by (simp add: secretRow_def)
  ultimately show "currentText (vaultTable E R st) i pt"
    using table_row [OF wf s(1), of E R] s(3) by (auto simp: currentText_def)
  show "\<exists>s \<in> set (vt_secrets st). secretRow cx i s \<and> vs_CurrentVersion s = v" using s by blast
qed

lemma unchanged:
  assumes "vault_wf st" and "vt_secrets st' = vt_secrets st" and "vt_versions st' = vt_versions st"
  shows "vault_wf st' \<and> vaultTable E R st' = vaultTable E R st"
  using assms(1) vault_cong [OF assms(2,3)] by simp

lemma AddGrant_unchanged:
  "vt_secrets (snd (AddGrant env cx g st)) = vt_secrets st \<and> vt_versions (snd (AddGrant env cx g st)) = vt_versions st"
  by (simp add: AddGrant_def Let_def split: option.split)

lemma RemoveGrant_unchanged:
  "vt_secrets (snd (RemoveGrant env cx i st)) = vt_secrets st \<and> vt_versions (snd (RemoveGrant env cx i st)) = vt_versions st"
  by (simp add: RemoveGrant_def Let_def split: option.split)

lemma RevokeGrant_unchanged:
  "vt_secrets (snd (RevokeGrantForPrincipal env cx i t p st)) = vt_secrets st
   \<and> vt_versions (snd (RevokeGrantForPrincipal env cx i t p st)) = vt_versions st"
  by (simp add: RevokeGrantForPrincipal_def split: option.split)

lemma reads_unchanged:
  "Reveal env ring ttl cx i p roles reason adm st = (r, st') \<Longrightarrow> vt_secrets st' = vt_secrets st \<and> vt_versions st' = vt_versions st"
  "Use env ring cx i st = (r, st') \<Longrightarrow> vt_secrets st' = vt_secrets st \<and> vt_versions st' = vt_versions st"
  by (auto simp: Reveal_def Use_def split: option.splits if_splits sum.splits)

lemma reads_decrypt:
  "Reveal env ring ttl cx i p roles reason adm st = (Inr pt, st') \<Longrightarrow> \<exists>v. decryptCurrent env ring cx i st = Inr (v, pt)"
  "Use env ring cx i st = (Inr pt, st') \<Longrightarrow> \<exists>v. decryptCurrent env ring cx i st = Inr (v, pt)"
  by (auto simp: Reveal_def Use_def split: option.splits if_splits sum.splits)

lemma spec_failed: "vaultSpec op AFailed M M"
  by (cases op) simp_all

lemma run_refines_reads:
  assumes "vault_wf st" and "vaultCtx E R env ring" and "ve_uuid E i = Some i"
  shows "vaultRun env ring ttl cx (OpReveal i p roles reason adm) st = (a, st') \<Longrightarrow>
      vault_wf st' \<and> vaultSpec (OpReveal i p roles reason adm) a (vaultTable E R st) (vaultTable E R st')"
    and "vaultRun env ring ttl cx (OpUse i) st = (a, st') \<Longrightarrow>
      vault_wf st' \<and> vaultSpec (OpUse i) a (vaultTable E R st) (vaultTable E R st')"
proof -
  assume "vaultRun env ring ttl cx (OpReveal i p roles reason adm) st = (a, st')"
  then obtain r where r: "Reveal env ring ttl cx i p roles reason adm st = (r, st')"
    and a: "a = (case r of Inl _ \<Rightarrow> AFailed | Inr t \<Rightarrow> AText t)" by (auto split: prod.splits sum.splits)
  have "vault_wf st' \<and> vaultTable E R st' = vaultTable E R st"
    using unchanged [OF assms(1)] reads_unchanged(1) [OF r] by blast
  moreover have "currentText (vaultTable E R st) i t" if "r = Inr t" for t
    using reads_decrypt(1) r that decrypt_current(1) [OF assms] by blast
  ultimately show "vault_wf st' \<and> vaultSpec (OpReveal i p roles reason adm) a (vaultTable E R st) (vaultTable E R st')"
    using a by (cases r) (simp_all add: spec_failed)
next
  assume "vaultRun env ring ttl cx (OpUse i) st = (a, st')"
  then obtain r where r: "Use env ring cx i st = (r, st')"
    and a: "a = (case r of Inl _ \<Rightarrow> AFailed | Inr t \<Rightarrow> AText t)" by (auto split: prod.splits sum.splits)
  have "vault_wf st' \<and> vaultTable E R st' = vaultTable E R st"
    using unchanged [OF assms(1)] reads_unchanged(2) [OF r] by blast
  moreover have "currentText (vaultTable E R st) i t" if "r = Inr t" for t
    using reads_decrypt(2) r that decrypt_current(1) [OF assms] by blast
  ultimately show "vault_wf st' \<and> vaultSpec (OpUse i) a (vaultTable E R st) (vaultTable E R st')"
    using a by (cases r) (simp_all add: spec_failed)
qed

lemma spec_grants:
  "vaultSpec (OpAddGrant g) a M M" "vaultSpec (OpRemoveGrant i) a M M" "vaultSpec (OpRevokeGrant i t p) a M M"
  "vaultSpec OpExpire a M M"
  by (cases a; simp)+

lemma run_grants_state:
  "snd (vaultRun env ring ttl cx (OpAddGrant g) st) = snd (AddGrant env cx g st)"
  "snd (vaultRun env ring ttl cx (OpRemoveGrant i) st) = snd (RemoveGrant env cx i st)"
  "snd (vaultRun env ring ttl cx (OpRevokeGrant i t p) st) = snd (RevokeGrantForPrincipal env cx i t p st)"
  by (simp_all split: prod.split sum.split option.split)

lemma expire_unchanged:
  "vt_secrets (expireCheckouts env st) = vt_secrets st \<and> vt_versions (expireCheckouts env st) = vt_versions st"
  by (simp add: expireCheckouts_def)

lemma vaultRun_refines:
  assumes wf: "vault_wf st" and ctx: "vaultCtx E R env ring" and op: "canonicalOp E op"
    and run: "vaultRun env ring ttl cx op st = (a, st')"
  shows "vault_wf st' \<and> vaultSpec op a (vaultTable E R st) (vaultTable E R st')"
proof (cases op)
  case (OpStore inp)
  obtain r s where r: "Store env ring cx inp st = (r, s)" by (cases "Store env ring cx inp st")
  with run Store_refines [OF wf ctx r] show ?thesis by (cases r) (auto simp: OpStore)
next
  case (OpNewVersion i x y)
  obtain r s where r: "NewVersion env ring cx i x y st = (r, s)" by (cases "NewVersion env ring cx i x y st")
  have "ve_uuid E i = Some i" using op by (simp add: OpNewVersion)
  with run r NewVersion_refines [OF wf ctx _ r] show ?thesis by (cases r) (auto simp: OpNewVersion)
next
  case (OpCandidate i x y)
  obtain r s where r: "AddCandidateVersion env ring cx i x y st = (r, s)"
    by (cases "AddCandidateVersion env ring cx i x y st")
  have "ve_uuid E i = Some i" using op by (simp add: OpCandidate)
  with run r Candidate_refines [OF wf ctx _ r] show ?thesis by (cases r) (auto simp: OpCandidate)
next
  case (OpPromote i v)
  obtain r s where r: "PromoteVersion env cx i v st = (r, s)" by (cases "PromoteVersion env cx i v st")
  have "ve_uuid env i = Some i" using op ctx_uuid [OF ctx] by (simp add: OpPromote)
  with run r Promote_refines [OF wf _ r] show ?thesis by (cases r) (auto simp: OpPromote)
next
  case (OpDelete i)
  obtain r s where r: "Delete env cx i st = (r, s)" by (cases "Delete env cx i st")
  have "ve_uuid env i = Some i" using op ctx_uuid [OF ctx] by (simp add: OpDelete)
  with run r Delete_refines [OF wf _ r] show ?thesis by (cases r) (auto simp: OpDelete)
next
  case (OpReveal i p roles reason adm)
  with op run run_refines_reads(1) [OF wf ctx] show ?thesis by simp
next
  case (OpUse i)
  with op run run_refines_reads(2) [OF wf ctx] show ?thesis by simp
next
  case (OpAddGrant g)
  have "st' = snd (AddGrant env cx g st)" using arg_cong [OF run, of snd] run_grants_state(1) OpAddGrant by simp
  with unchanged [OF wf] AddGrant_unchanged spec_grants(1) show ?thesis unfolding OpAddGrant by metis
next
  case (OpRemoveGrant i)
  have "st' = snd (RemoveGrant env cx i st)" using arg_cong [OF run, of snd] run_grants_state(2) OpRemoveGrant by simp
  with unchanged [OF wf] RemoveGrant_unchanged spec_grants(2) show ?thesis unfolding OpRemoveGrant by metis
next
  case (OpRevokeGrant i t p)
  have "st' = snd (RevokeGrantForPrincipal env cx i t p st)"
    using arg_cong [OF run, of snd] run_grants_state(3) OpRevokeGrant by simp
  with unchanged [OF wf] RevokeGrant_unchanged spec_grants(3) show ?thesis unfolding OpRevokeGrant by metis
next
  case OpExpire
  then have "st' = expireCheckouts env st" using run by simp
  with unchanged [OF wf] expire_unchanged spec_grants(4) show ?thesis unfolding OpExpire by metis
qed

subsection \<open>Runs\<close>

definition emptyVault :: vault_state where
  "emptyVault = \<lparr>vt_secrets = [], vt_versions = [], vt_grants = [], vt_checkouts = [], vt_stepups = [], vt_audits = []\<rparr>"

type_synonym vault_call = "vault_env \<times> keyring \<times> int \<times> gin_context \<times> vault_op"

fun vaultCalls :: "vault_call list \<Rightarrow> vault_state \<Rightarrow> vault_answer list \<times> vault_state" where
  "vaultCalls [] st = ([], st)"
| "vaultCalls ((env, ring, ttl, cx, op) # cs) st =
     (case vaultRun env ring ttl cx op st of (a, st1) \<Rightarrow> (case vaultCalls cs st1 of (as, st2) \<Rightarrow> (a # as, st2)))"

fun specCalls :: "vault_call list \<Rightarrow> vault_answer list \<Rightarrow> vault_table \<Rightarrow> vault_table \<Rightarrow> bool" where
  "specCalls [] [] M M' \<longleftrightarrow> M' = M"
| "specCalls ((_, _, _, _, op) # cs) (a # as) M M' \<longleftrightarrow> (\<exists>M1. vaultSpec op a M M1 \<and> specCalls cs as M1 M')"
| "specCalls _ _ _ _ \<longleftrightarrow> False"

definition callOK :: "vault_env \<Rightarrow> keyring \<Rightarrow> vault_call \<Rightarrow> bool" where
  "callOK E R c = (case c of (env, ring, ttl, cx, op) \<Rightarrow> vaultCtx E R env ring \<and> canonicalOp E op)"

lemma calls_refine:
  "vault_wf st \<Longrightarrow> list_all (callOK E R) cs \<Longrightarrow> vaultCalls cs st = (as, st')
   \<Longrightarrow> vault_wf st' \<and> specCalls cs as (vaultTable E R st) (vaultTable E R st')"
proof (induction cs arbitrary: st as)
  case Nil
  then show ?case by simp
next
  case (Cons c cs)
  obtain env ring ttl cx op where c: "c = (env, ring, ttl, cx, op)" by (cases c)
  obtain a st1 where a: "vaultRun env ring ttl cx op st = (a, st1)" by (cases "vaultRun env ring ttl cx op st")
  obtain as' st2 where rest: "vaultCalls cs st1 = (as', st2)" by (cases "vaultCalls cs st1")
  from Cons.prems(2) have "callOK E R c" and ok3: "list_all (callOK E R) cs" by simp_all
  then have ok: "vaultCtx E R env ring" "canonicalOp E op" by (simp_all add: c callOK_def)
  from Cons.prems(3) have as: "as = a # as'" "st2 = st'" by (simp_all add: c a rest)
  note one = vaultRun_refines [OF Cons.prems(1) ok(1,2) a]
  from Cons.IH [OF _ ok3] one rest as(2)
  have "vault_wf st' \<and> specCalls cs as' (vaultTable E R st1) (vaultTable E R st')" by blast
  with one show ?case by (auto simp: as(1) c)
qed


subsection \<open>Who sees a secret\<close>

lemma revealGate_passes:
  assumes "revealGate env cx i p roles reason adm st = None" and "ve_uuid env i = Some i"
  shows "reason \<noteq> [] \<and> (adm \<or> (\<exists>g \<in> set (vt_grants st). grantAllows env cx i p roles ''reveal'' g))
    \<and> (\<exists>s. find (secretRow cx i) (vt_secrets st) = Some s \<and> (vs_RequireStepUp s \<longrightarrow>
         (\<exists>u. ve_uuid env p = Some u \<and> (\<exists>c \<in> set (vt_stepups st). recentStepUp env cx u c))))"
proof -
  from assms have r: "reason \<noteq> []" by (auto simp: revealGate_def)
  with assms have g: "(if adm then Inr True else hasGrant env cx i p roles ''reveal'' st) = Inr True"
    by (auto simp: revealGate_def split: sum.splits bool.splits if_splits)
  then have "adm \<or> (\<exists>g \<in> set (vt_grants st). grantAllows env cx i p roles ''reveal'' g)"
    using assms(2) by (auto simp: hasGrant_def list_ex_iff split: if_splits)
  moreover have gate: "(case secretRequiresStepUp env cx i st of Inl e \<Rightarrow> Some e | Inr False \<Rightarrow> None
      | Inr True \<Rightarrow> (case hasRecentStepUp env cx p st of Inl e \<Rightarrow> Some e
          | Inr ok \<Rightarrow> if ok then None else Some StepUpRequired)) = None"
    using assms(1) unfolding revealGate_def g using r by simp
  obtain s where s: "find (secretRow cx i) (vt_secrets st) = Some s"
    and su: "secretRequiresStepUp env cx i st = Inr (vs_RequireStepUp s)"
    using gate assms(2) by (auto simp: secretRequiresStepUp_def split: option.splits if_splits)
  moreover have "hasRecentStepUp env cx p st = Inr True" if "vs_RequireStepUp s"
    using gate that by (auto simp: su split: sum.splits if_splits)
  then have "\<exists>u. ve_uuid env p = Some u \<and> (\<exists>c \<in> set (vt_stepups st). recentStepUp env cx u c)" if "vs_RequireStepUp s"
    using that by (fastforce simp: hasRecentStepUp_def countWhere_def filter_empty_conv split: option.splits if_splits)
  ultimately show ?thesis using r by blast
qed

lemma Reveal_cases:
  assumes "Reveal env ring ttl cx i p roles reason adm st = (Inr pt, st')"
  obtains v where "revealGate env cx i p roles reason adm st = None" and "decryptCurrent env ring cx i st = Inr (v, pt)"
    and "st' = recordAudit env ''vault.reveal'' p i
      (recordCheckout env cx i v p ''reveal'' reason (Some (ve_now env + leaseTTL ttl)) st)"
  using assms by (auto simp: Reveal_def split: option.splits sum.splits)

lemma request_scope:
  "\<not> cx_bypassRLS cx \<Longrightarrow> inScope cx orgID \<Longrightarrow> \<exists>o'. cx_org cx = Some o' \<and> org_ID o' = orgID \<and> orgID \<noteq> []"
  by (auto simp: inScope_def rowVisible_def rlsValuesFromContext_def split: option.splits)

lemma checkout_recorded:
  assumes "\<not> cx_bypassRLS cx" and "inScope cx orgID" and "ve_uuid env i = Some i" and "nullUUID env p = Some q"
    and "\<not> ve_fails env ''insertCheckout''" and "reason \<noteq> []"
  shows "\<exists>c. vt_checkouts (recordCheckout env cx i v p mode reason e st) = vt_checkouts st @ [c]
    \<and> vc_SecretID c = i \<and> vc_OrgID c = orgID \<and> vc_Principal c = q \<and> vc_Version c = v \<and> vc_Reason c = Some reason
    \<and> vc_Mode c = mode \<and> vc_ExpiresAt c = e"
  using request_scope [OF assms(1,2)] assms by (auto simp: recordCheckout_def Let_def)


text \<open>
  A grant to a role names the role by its UUID, and the caller's roles are names: such a grant admits nobody. What
  lets a caller in is a grant to the caller.
\<close>

theorem role_grants_unmatched:
  assumes "hasGrant env cx i p roles action st = Inr True"
    and "list_all (\<lambda>g. ve_uuid env (vg_PrincipalID g) \<noteq> None) (vt_grants st)"
    and "list_all (\<lambda>r. ve_uuid env r = None) roles"
  shows "\<exists>g \<in> set (vt_grants st). vg_PrincipalType g \<noteq> ''role'' \<and> vg_PrincipalID g = p"
proof -
  obtain u g where g: "g \<in> set (vt_grants st)" "grantAllows env cx u p roles action g"
    using assms(1) by (auto simp: hasGrant_def list_ex_iff split: option.splits if_splits)
  have "vg_PrincipalID g \<notin> set roles" using g(1) assms(2,3) by (auto simp: list_all_iff)
  with g(2) show ?thesis by (intro bexI [OF _ g(1)]) (auto simp: grantAllows_def principalMatches_def)
qed

subsection \<open>Candidates\<close>

lemma insertVersion_taken:
  "v \<in> set (vt_versions st) \<Longrightarrow> insertVersion env cx o' (vv_SecretID v) (vv_Version v) k blob by' st = None"
  by (auto simp: insertVersion_def list_ex_iff split: option.split)

text \<open>
  A candidate that is not promoted keeps the number after the current one, so that storing a new version of
  the secret fails from then on.
\<close>

theorem candidate_blocks_new_version:
  assumes "vault_wf st" and "ve_uuid env i = Some i" and "ve_uuid env' i = Some i"
    and "AddCandidateVersion env ring cx i x y st = (Inr v, st1)"
    and "s \<in> set (vt_secrets st)" and "vs_ID s = i" and "v = vs_CurrentVersion s + 1"
  shows "\<exists>e. NewVersion env' ring' cx' i x' y' st1 = (Inl e, st1)"
proof -
  obtain og k blob where ins: "insertVersion env cx og i v k blob y st = Some st1"
    using assms(4,2) by (auto simp: AddCandidateVersion_def Let_def split: option.splits if_splits sum.splits)
  then obtain r where r: "r \<in> set (vt_versions st1)" "vv_SecretID r = i" "vv_Version r = v"
    and same: "vt_secrets st1 = vt_secrets st"
    by (cases rule: insertVersion_cases) auto
  have taken: "insertVersion env' cx' og' i v k' blob' y'' (setVersion env' cx' i v st1) = None" for og' k' blob' y''
    using insertVersion_taken [of r "setVersion env' cx' i v st1"] r by (simp add: setVersion_def)
  have "vs_CurrentVersion q + 1 = v" if "find (secretRow cx' i) (vt_secrets st1) = Some q" for q
  proof -
    have "q \<in> set (vt_secrets st)" "vs_ID q = vs_ID s"
      using find_Some_mem [OF that] assms(6) by (simp_all add: same secretRow_def)
    then have "q = s" using assms(1,5) by (simp add: vault_wf_def distinct_map inj_on_def)
    then show ?thesis using assms(7) by simp
  qed
  with taken show ?thesis
    by (auto simp: NewVersion_def assms(3) Let_def split: option.split sum.split)
qed

subsection \<open>The sweep\<close>

lemma same_bucket:
  assumes "leaderKey name iv t = leaderKey name iv t'" and "1000000 \<le> iv"
  shows "t' < t + iv"
proof -
  let ?m = "1000000 :: int"
  define d where "d = iv div ?m"
  have d: "1 \<le> d" "d * ?m \<le> iv"
    using assms(2) unfolding d_def by (simp_all add: div_times_less_eq_dividend zdiv_mono1 [of ?m iv ?m, simplified])
  have eq: "(t div ?m) div d = (t' div ?m) div d"
    using assms(1) by (simp add: leaderKey_def d_def itoa_inject)
  have a: "t' div ?m < ((t' div ?m) div d) * d + d"
    using div_mult_mod_eq [of "t' div ?m" d] pos_mod_bound [of d "t' div ?m"] d(1) by linarith
  have b: "((t div ?m) div d) * d \<le> t div ?m"
    using div_mult_mod_eq [of "t div ?m" d] pos_mod_sign [of d "t div ?m"] d(1) by linarith
  from a b have "t' div ?m < t div ?m + d" unfolding eq by linarith
  then have "t' div ?m + 1 \<le> t div ?m + d" by simp
  then have "(t' div ?m + 1) * ?m \<le> (t div ?m + d) * ?m" by (rule mult_right_mono) simp
  moreover have "t' < (t' div ?m + 1) * ?m" by presburger
  moreover have "(t div ?m) * ?m \<le> t" by presburger
  ultimately show ?thesis using d(2) by (simp add: distrib_right)
qed

text \<open>One instance runs a periodic job in each interval.\<close>

theorem one_leader_per_tick:
  assumes "IsLeaderForTick f name iv t (Some m) = (True, Some m1)"
    and "IsLeaderForTick f' name iv t' (Some m1) = (b, m2)"
    and "1000000 \<le> iv" and "leaderKey name iv t = leaderKey name iv t'"
  shows "\<not> b"
proof -
  have m1: "m1 = redisSetEx t (2 * iv) (leaderKey name iv t) ''1'' m"
    using assms(1,3) by (auto simp: IsLeaderForTick_def Let_def split: if_splits)
  have "t' < t + 2 * iv" using same_bucket [OF assms(4,3)] assms(3) by simp
  then have "redisGet t' m1 (leaderKey name iv t') \<noteq> None"
    by (simp add: m1 redisGet_SetEx assms(4))
  then show ?thesis using assms(2,3) by (auto simp: IsLeaderForTick_def Let_def split: if_splits)
qed

text \<open>The sweep closes exactly the leases that are over; a use has none and stays open.\<close>

theorem expire_exact:
  assumes "\<not> ve_fails env ''expire''"
  shows "(\<forall>c \<in> set (vt_checkouts (expireCheckouts env st)). \<not> leaseOver (ve_now env) c)
    \<and> filter (\<lambda>c. vc_ExpiresAt c = None) (vt_checkouts (expireCheckouts env st))
      = filter (\<lambda>c. vc_ExpiresAt c = None) (vt_checkouts st)"
proof
  show "\<forall>c \<in> set (vt_checkouts (expireCheckouts env st)). \<not> leaseOver (ve_now env) c"
    using assms by (auto simp: expireCheckouts_def set_updateWhere leaseOver_def)
  have "filter (\<lambda>c. vc_ExpiresAt c = None) (updateWhere (leaseOver t) (\<lambda>c. c\<lparr>vc_Status := ''expired''\<rparr>) cs)
      = filter (\<lambda>c. vc_ExpiresAt c = None) cs" for t cs
    by (induction cs) (auto simp: updateWhere_Cons leaseOver_def)
  then show "filter (\<lambda>c. vc_ExpiresAt c = None) (vt_checkouts (expireCheckouts env st))
      = filter (\<lambda>c. vc_ExpiresAt c = None) (vt_checkouts st)"
    using assms by (simp add: expireCheckouts_def)
qed

subsection \<open>Examples\<close>

text \<open>A toy cipher with the laws of the real one: the tag is the end of the key's text.\<close>

definition toyTag :: "string \<Rightarrow> string" where
  "toyTag k = take 16 (rev k @ replicate 16 CHR ''0'')"

definition toyVault :: vault_env where
  "toyVault = \<lparr>ve_now = 0, ve_fails = (\<lambda>_. False), ve_hkdf = (\<lambda>m info. info),
     ve_gcmSeal = (\<lambda>k n p. p @ toyTag k),
     ve_gcmOpen = (\<lambda>k n c. if drop (length c - 16) c = toyTag k then Some (take (length c - 16) c) else None),
     ve_nonce = Some ''nnnnnnnnnnnn'', ve_newID = ''a'', ve_uuid = (\<lambda>t. if length t = 1 then Some (toLower t) else None),
     ve_rank = (\<lambda>_. 0), ve_bao = (\<lambda>_. None)\<rparr>"

definition toyRing :: keyring where
  "toyRing = \<lparr>kr_keys = [(0, replicate 32 CHR ''k'')], kr_activeID = 0\<rparr>"

definition toyContext :: gin_context where
  "toyContext = \<lparr>cx_path = ''/'', cx_method = ''GET'', cx_host = '''', cx_header = (\<lambda>_. []), cx_clientIP = [],
     cx_userID = Some ''u'', cx_email = None, cx_name = None, cx_sessionID = None, cx_serviceAccountID = None,
     cx_apiKeyID = None, cx_scopes = None, cx_roles = Some [''admin''], cx_amr = None, cx_orgID = None,
     cx_permissions = None, cx_org = Some \<lparr>org_ID = ''o'', org_Slug = []\<rparr>, cx_platformAdmin = False,
     cx_bypassRLS = False\<rparr>"

definition toySecret :: StoreInput where
  "toySecret = \<lparr>si_Name = ''root'', si_Type = [], si_Description = [], si_Value = ''pw'', si_OwnerID = [],
     si_CreatedBy = ''u'', si_RequireStepUp = False\<rparr>"

definition toyCalls :: "vault_call list" where
  "toyCalls = map (\<lambda>op. (toyVault, toyRing, 0, toyContext, op))
     [OpStore toySecret, OpNewVersion ''a'' ''pw2'' ''u'', OpReveal ''a'' ''u'' [''admin''] ''why'' True]"

lemma toy_ctx: "vaultCtx toyVault toyRing toyVault toyRing"
  by (auto simp: vaultCtx_def aeadOK_def sameBox_def retains_def toyVault_def toyTag_def tagLen_def nonceLen_def)

theorem keyring_fail_closed_witness:
  "\<exists>r. KeyringFromConfig toyVault \<lparr>kc_KEK = [], kc_KEKs = [], kc_ActiveKEKID = 0, kc_EncryptionKey = replicate 32 CHR ''k'',
      kc_Bao = \<lparr>bao_Addr = [], bao_Token = [], bao_SecretPath = [], bao_CACertFile = []\<rparr>\<rparr> = Inr r \<and> keyringOK r"
  (is "\<exists>r. KeyringFromConfig toyVault ?cfg = Inr r \<and> _")
proof -
  have "KeyringFromConfig toyVault ?cfg = Inr toyRing"
    by (simp add: KeyringFromConfig_def newKeyring_def baoEnabled_def trimSpace_def kekLen_def toyRing_def)
  from keyring_fail_closed [OF this] this show ?thesis by blast
qed

lemma toyCalls_ok: "list_all (callOK toyVault toyRing) toyCalls"
  by (simp add: toyCalls_def callOK_def toy_ctx) (simp add: toyVault_def toLower_def toLowerChar_def isUpperAscii_def byteOf_def)

lemma toyCalls_answers: "fst (vaultCalls toyCalls emptyVault) = [AStored ''a'', AVersion 2, AText ''pw2'']"
  by code_simp


definition toyStored :: vault_state where
  "toyStored = snd (Store toyVault toyRing toyContext toySecret emptyVault)"

lemma toyStored_wf: "vault_wf toyStored"
  by code_simp

lemma toyReveal: "fst (handleReveal toyVault toyRing 0 toyContext ''a'' (Some ''why'') toyStored) = VValue ''pw''"
  by code_simp


text \<open>
  A version stored under another spelling of the identifier is sealed under a key of that spelling: it becomes
  current, and cannot be opened under the canonical one.
\<close>

theorem alias_unreadable:
  "fst (NewVersion toyVault toyRing toyContext ''A'' ''pw2'' ''u'' toyStored) = Inr 2
   \<and> decryptCurrent toyVault toyRing toyContext ''a''
       (snd (NewVersion toyVault toyRing toyContext ''A'' ''pw2'' ''u'' toyStored)) = Inl GcmOpen"
  by code_simp

text \<open>
  A JIT grant replaces a standing one of the same principal, and its return removes both.
\<close>

definition standingGrant :: Grant where
  "standingGrant = \<lparr>gr_SecretID = ''a'', gr_PrincipalType = ''user'', gr_PrincipalID = ''b'',
     gr_Actions = [''use'', ''reveal''], gr_ExpiresAt = None, gr_GrantedBy = ''u''\<rparr>"

theorem jit_grant_replaces_standing:
  "let st1 = snd (AddGrant toyVault toyContext standingGrant toyStored);
       st2 = snd (AddGrant toyVault toyContext (standingGrant\<lparr>gr_Actions := [''reveal''], gr_ExpiresAt := Some 100\<rparr>) st1);
       st3 = snd (RevokeGrantForPrincipal toyVault toyContext ''a'' ''user'' ''b'' st2) in
   hasGrant toyVault toyContext ''a'' ''b'' [] ''use'' st1 = Inr True
   \<and> hasGrant toyVault toyContext ''a'' ''b'' [] ''use'' st2 = Inr False
   \<and> hasGrant toyVault toyContext ''a'' ''b'' [] ''reveal'' st3 = Inr False"
  by code_simp

end
