(* ===== verification/Credential_Rotation.thy ===== *)
theory Credential_Rotation
  imports Vault
begin

text \<open>
  The rotation of vaulted credentials, \<^verbatim>\<open>internal/credentials\<close> (engine, generator, scheduler, the two connectors
  that need no driver of their own), and the just-in-time checkout of \<^verbatim>\<open>internal/governance/workflows.go\<close>
  that retrieves and returns a credential.

  A connector is a record of functions on the state \<open>'t\<close> of the target system, with the optional interfaces of
  the source as optional fields. A rotation is given whole and in the parts between which another one can come: the
  check for a run in flight, the ledger row, the candidate, its application, and verification with promotion.

  The theorems: generated values have the requested length and characters; a rotation promotes only what the target
  was given and did not refuse, a failed one changes no current text, and no rotation makes a secret unreadable;
  the credential of a checkout is retrieved by its requester in its window; and where the code falls
  short: concurrent rotations, retries after failures, returned and revoked checkouts.
\<close>

section \<open>Connectors\<close>

record GenerationPolicy =
  gp_Length :: int
  gp_Upper :: bool
  gp_Lower :: bool
  gp_Digits :: bool
  gp_Symbols :: bool

definition setUpper :: string where
  "setUpper = ''ABCDEFGHJKLMNPQRSTUVWXYZ''"

definition setLower :: string where
  "setLower = ''abcdefghijkmnopqrstuvwxyz''"

definition setDigits :: string where
  "setDigits = ''23456789''"

definition setSym :: string where
  "setSym = ''!@#$%^&*()-_=+''"

definition charsetOf :: "GenerationPolicy \<Rightarrow> string" where
  "charsetOf gp =
     (let cs = (if gp_Upper gp then setUpper else []) @ (if gp_Lower gp then setLower else [])
             @ (if gp_Digits gp then setDigits else []) @ (if gp_Symbols gp then setSym else []) in
      if cs = [] then setUpper @ setLower @ setDigits @ setSym else cs)"

text \<open>The random source: the draw number \<open>i\<close> below a bound, \<open>None\<close> when it fails.\<close>

type_synonym random_source = "nat \<Rightarrow> nat \<Rightarrow> nat option"

fun drawChars :: "random_source \<Rightarrow> string \<Rightarrow> nat \<Rightarrow> nat \<Rightarrow> string option" where
  "drawChars rand cs i 0 = Some []"
| "drawChars rand cs i (Suc n) =
     (case rand i (length cs) of
        None \<Rightarrow> None
      | Some k \<Rightarrow> (case drawChars rand cs (Suc i) n of None \<Rightarrow> None | Some out \<Rightarrow> Some (cs ! k # out)))"

definition generateSecret :: "random_source \<Rightarrow> GenerationPolicy \<Rightarrow> string option" where
  "generateSecret rand gp =
     (let n = (if gp_Length gp = 0 then 24 else gp_Length gp) in
      if n < 8 then None else drawChars rand (charsetOf gp) 0 (nat n))"

text \<open>The entries of a connector configuration that are texts; the connectors below read no others.\<close>

type_synonym connector_config = "string \<Rightarrow> string option"

datatype verify_answer = VerifyOk | VerifyUnsupported | VerifyFailed

record 't rotator =
  rt_Type :: string
  rt_Apply :: "connector_config \<Rightarrow> string \<Rightarrow> 't \<Rightarrow> bool \<times> 't"
  rt_Verify :: "connector_config \<Rightarrow> string \<Rightarrow> 't \<Rightarrow> verify_answer"
  rt_Generate :: "(GenerationPolicy \<Rightarrow> string option) option"
  rt_ValidateConfig :: "(connector_config \<Rightarrow> bool) option"
  rt_Mint :: "(connector_config \<Rightarrow> 't \<Rightarrow> string option \<times> 't) option"
  rt_Cleanup :: "(connector_config \<Rightarrow> 't \<Rightarrow> bool \<times> 't) option"

definition generateOnlyRotator :: "'t rotator" where
  "generateOnlyRotator = \<lparr>rt_Type = ''generate_only'', rt_Apply = (\<lambda>_ _ t. (True, t)),
     rt_Verify = (\<lambda>_ _ _. VerifyUnsupported), rt_Generate = None, rt_ValidateConfig = None, rt_Mint = None,
     rt_Cleanup = None\<rparr>"

text \<open>What the directory connector uses of the directory service: resetting and checking a password.\<close>

record 't directory_service =
  ds_ResetPassword :: "string \<Rightarrow> string \<Rightarrow> string \<Rightarrow> 't \<Rightarrow> bool \<times> 't"
  ds_VerifyPassword :: "string \<Rightarrow> string \<Rightarrow> string \<Rightarrow> 't \<Rightarrow> verify_answer"

definition cfgText :: "connector_config \<Rightarrow> string \<Rightarrow> string" where
  "cfgText cfg k = (case cfg k of None \<Rightarrow> [] | Some v \<Rightarrow> v)"

definition directoryConfigOK :: "connector_config \<Rightarrow> bool" where
  "directoryConfigOK cfg \<longleftrightarrow> cfgText cfg ''directory_id'' \<noteq> [] \<and> cfgText cfg ''username'' \<noteq> []"

definition directoryRotator :: "'t directory_service \<Rightarrow> 't rotator" where
  "directoryRotator dir = \<lparr>rt_Type = ''directory'',
     rt_Apply = (\<lambda>cfg v t. if \<not> directoryConfigOK cfg then (False, t)
        else ds_ResetPassword dir (cfgText cfg ''directory_id'') (cfgText cfg ''username'') v t),
     rt_Verify = (\<lambda>cfg v t. ds_VerifyPassword dir (cfgText cfg ''directory_id'') (cfgText cfg ''username'') v t),
     rt_Generate = None, rt_ValidateConfig = Some directoryConfigOK, rt_Mint = None, rt_Cleanup = None\<rparr>"

section \<open>Policies and the ledger\<close>

record rotation_policy =
  cr_ID :: string
  cr_OrgID :: string
  cr_SecretID :: string
  cr_ConnectorType :: string
  cr_Config :: connector_config
  cr_Generation :: GenerationPolicy
  cr_Interval :: int
  cr_OnCheckout :: bool
  cr_Enabled :: bool
  cr_NextRunAt :: "int option"
  cr_LastRunAt :: "int option"
  cr_LastStatus :: "string option"
  cr_CreatedAt :: int

record PolicyInput =
  pi_SecretID :: string
  pi_ConnectorType :: string
  pi_Config :: connector_config
  pi_Generation :: GenerationPolicy
  pi_Interval :: int
  pi_OnCheckout :: bool
  pi_Enabled :: "bool option"

record rotation_run =
  rr_ID :: string
  rr_OrgID :: string
  rr_PolicyID :: "string option"
  rr_SecretID :: string
  rr_ConnectorType :: string
  rr_Trigger :: string
  rr_Status :: string
  rr_VersionFrom :: int
  rr_VersionTo :: "int option"
  rr_Error :: "string option"
  rr_StartedAt :: int
  rr_CompletedAt :: "int option"

record 't rotation_state =
  ro_vault :: vault_state
  ro_policies :: "rotation_policy list"
  ro_runs :: "rotation_run list"
  ro_audits :: "(string \<times> string) list"
  ro_target :: 't

record 't rotation_service =
  rs_rotators :: "'t rotator list"
  rs_defaultLen :: int
  rs_ring :: keyring
  rs_rand :: random_source

datatype rotation_error = RotNoOrg | RotInvalid | RotDatabase | RotSecretNotFound | RotPolicyNotFound | RotConnector

text \<open>The registry is keyed by type; of two connectors of one type the later counts. A zero length means 24.\<close>

definition rotatorFor :: "'t rotation_service \<Rightarrow> string \<Rightarrow> 't rotator option" where
  "rotatorFor svc ty = find (\<lambda>r. rt_Type r = ty) (rev (rs_rotators svc))"

definition defaultLength :: "'t rotation_service \<Rightarrow> int" where
  "defaultLength svc = (if rs_defaultLen svc = 0 then 24 else rs_defaultLen svc)"

definition withDefaultLength :: "'t rotation_service \<Rightarrow> GenerationPolicy \<Rightarrow> GenerationPolicy" where
  "withDefaultLength svc gp = (if gp_Length gp = 0 then gp\<lparr>gp_Length := defaultLength svc\<rparr> else gp)"

definition validatePolicyInput :: "'t rotation_service \<Rightarrow> PolicyInput \<Rightarrow> bool" where
  "validatePolicyInput svc inp =
     (case rotatorFor svc (pi_ConnectorType inp) of
        None \<Rightarrow> False
      | Some rot \<Rightarrow>
          (case rt_ValidateConfig rot of None \<Rightarrow> True | Some ok \<Rightarrow> ok (pi_Config inp)) \<and> 0 \<le> pi_Interval inp)"

definition policyRow :: "gin_context \<Rightarrow> string \<Rightarrow> rotation_policy \<Rightarrow> bool" where
  "policyRow cx u p \<longleftrightarrow> inScope cx (cr_OrgID p) \<and> cr_ID p = u"

definition CreatePolicy ::
    "vault_env \<Rightarrow> 't rotation_service \<Rightarrow> gin_context \<Rightarrow> PolicyInput \<Rightarrow> 't rotation_state
     \<Rightarrow> (rotation_error + rotation_policy) \<times> 't rotation_state" where
  "CreatePolicy env svc cx inp st =
     (case cx_org cx of
        None \<Rightarrow> (Inl RotNoOrg, st)
      | Some o' \<Rightarrow>
          if \<not> validatePolicyInput svc inp then (Inl RotInvalid, st)
          else (case ve_uuid env (pi_SecretID inp) of
                  None \<Rightarrow> (Inl RotDatabase, st)
                | Some u \<Rightarrow>
                    if ve_fails env ''secretExists'' then (Inl RotDatabase, st)
                    else if \<not> list_ex (secretRow cx u) (vt_secrets (ro_vault st)) then (Inl RotSecretNotFound, st)
                    else if ve_fails env ''insertPolicy'' \<or> \<not> inScope cx (org_ID o')
                            \<or> list_ex (\<lambda>p. cr_SecretID p = u \<or> cr_ID p = ve_newID env) (ro_policies st)
                         then (Inl RotDatabase, st)
                    else (let p = \<lparr>cr_ID = ve_newID env, cr_OrgID = org_ID o', cr_SecretID = u,
                            cr_ConnectorType = pi_ConnectorType inp, cr_Config = pi_Config inp,
                            cr_Generation = withDefaultLength svc (pi_Generation inp), cr_Interval = pi_Interval inp,
                            cr_OnCheckout = pi_OnCheckout inp,
                            cr_Enabled = (case pi_Enabled inp of None \<Rightarrow> True | Some b \<Rightarrow> b), cr_NextRunAt = None,
                            cr_LastRunAt = None, cr_LastStatus = None, cr_CreatedAt = ve_now env\<rparr> in
                          (Inr p, st\<lparr>ro_policies := ro_policies st @ [p]\<rparr>))))"

definition ListPolicies :: "vault_env \<Rightarrow> gin_context \<Rightarrow> 't rotation_state \<Rightarrow> rotation_error + rotation_policy list" where
  "ListPolicies env cx st =
     (if ve_fails env ''listPolicies'' then Inl RotDatabase
      else Inr (sort_key (\<lambda>p. - cr_CreatedAt p) (filter (\<lambda>p. inScope cx (cr_OrgID p)) (ro_policies st))))"

definition GetPolicy ::
    "vault_env \<Rightarrow> gin_context \<Rightarrow> string \<Rightarrow> 't rotation_state \<Rightarrow> rotation_error + rotation_policy" where
  "GetPolicy env cx policyID st =
     (case ve_uuid env policyID of
        None \<Rightarrow> Inl RotDatabase
      | Some u \<Rightarrow>
          if ve_fails env ''selectPolicy'' then Inl RotDatabase
          else (case find (policyRow cx u) (ro_policies st) of None \<Rightarrow> Inl RotPolicyNotFound | Some p \<Rightarrow> Inr p))"

definition UpdatePolicy ::
    "vault_env \<Rightarrow> 't rotation_service \<Rightarrow> gin_context \<Rightarrow> string \<Rightarrow> PolicyInput \<Rightarrow> 't rotation_state
     \<Rightarrow> (rotation_error + rotation_policy) \<times> 't rotation_state" where
  "UpdatePolicy env svc cx policyID inp st =
     (if cx_org cx = None then (Inl RotNoOrg, st)
      else if \<not> validatePolicyInput svc inp then (Inl RotInvalid, st)
      else (case ve_uuid env policyID of
              None \<Rightarrow> (Inl RotDatabase, st)
            | Some u \<Rightarrow>
                if ve_fails env ''updatePolicy'' then (Inl RotDatabase, st)
                else (let f = (\<lambda>p. p\<lparr>cr_ConnectorType := pi_ConnectorType inp, cr_Config := pi_Config inp,
                            cr_Generation := withDefaultLength svc (pi_Generation inp), cr_Interval := pi_Interval inp,
                            cr_OnCheckout := pi_OnCheckout inp,
                            cr_Enabled := (case pi_Enabled inp of None \<Rightarrow> True | Some b \<Rightarrow> b)\<rparr>) in
                      case find (policyRow cx u) (ro_policies st) of
                        None \<Rightarrow> (Inl RotPolicyNotFound, st)
                      | Some p \<Rightarrow> (Inr (f p), st\<lparr>ro_policies := updateWhere (policyRow cx u) f (ro_policies st)\<rparr>))))"

text \<open>The ledger rows of a deleted policy stay, without it.\<close>

definition DeletePolicy ::
    "vault_env \<Rightarrow> gin_context \<Rightarrow> string \<Rightarrow> 't rotation_state \<Rightarrow> rotation_error option \<times> 't rotation_state" where
  "DeletePolicy env cx policyID st =
     (case ve_uuid env policyID of
        None \<Rightarrow> (Some RotDatabase, st)
      | Some u \<Rightarrow>
          if ve_fails env ''deletePolicy'' then (Some RotDatabase, st)
          else if \<not> list_ex (policyRow cx u) (ro_policies st) then (Some RotPolicyNotFound, st)
          else (None, st\<lparr>ro_policies := deleteWhere (policyRow cx u) (ro_policies st),
                         ro_runs := updateWhere (\<lambda>r. rr_PolicyID r = Some u) (\<lambda>r. r\<lparr>rr_PolicyID := None\<rparr>) (ro_runs st)\<rparr>))"

section \<open>A rotation\<close>

definition newValueOf ::
    "random_source \<Rightarrow> 't rotator \<Rightarrow> GenerationPolicy \<Rightarrow> connector_config \<Rightarrow> 't \<Rightarrow> string option \<times> 't" where
  "newValueOf rand rot gp cfg t =
     (case rt_Mint rot of
        Some mint \<Rightarrow> mint cfg t
      | None \<Rightarrow> (case rt_Generate rot of Some g \<Rightarrow> (g gp, t) | None \<Rightarrow> (generateSecret rand gp, t)))"

text \<open>The parts: the candidate with its value, its application, verification and promotion.\<close>

definition rotateCandidate ::
    "vault_env \<Rightarrow> 't rotation_service \<Rightarrow> 't rotator \<Rightarrow> gin_context \<Rightarrow> string \<Rightarrow> GenerationPolicy \<Rightarrow> connector_config
     \<Rightarrow> vault_state \<times> 't \<Rightarrow> (string \<times> int) option \<times> vault_state \<times> 't" where
  "rotateCandidate env svc rot cx secretID gp cfg s =
     (case s of (vst, t) \<Rightarrow>
        (case newValueOf (rs_rand svc) rot gp cfg t of
           (None, t1) \<Rightarrow> (None, vst, t1)
         | (Some v, t1) \<Rightarrow>
             (case AddCandidateVersion env (rs_ring svc) cx secretID v [] vst of
                (Inl _, vst1) \<Rightarrow> (None, vst1, t1)
              | (Inr n, vst1) \<Rightarrow> (Some (v, n), vst1, t1))))"

definition rotateApply :: "'t rotator \<Rightarrow> connector_config \<Rightarrow> string \<Rightarrow> 't \<Rightarrow> bool \<times> 't" where
  "rotateApply rot cfg v t = (if rt_Mint rot \<noteq> None then (True, t) else rt_Apply rot cfg v t)"

definition rotateFinish ::
    "vault_env \<Rightarrow> 't rotator \<Rightarrow> gin_context \<Rightarrow> string \<Rightarrow> connector_config \<Rightarrow> string \<Rightarrow> int \<Rightarrow> vault_state \<times> 't
     \<Rightarrow> bool \<times> vault_state" where
  "rotateFinish env rot cx secretID cfg v n s =
     (case s of (vst, t) \<Rightarrow>
        if rt_Verify rot cfg v t = VerifyFailed then (False, vst)
        else (case PromoteVersion env cx secretID n vst of (Some _, vst1) \<Rightarrow> (False, vst1) | (None, vst1) \<Rightarrow> (True, vst1)))"

text \<open>Whether the rotation succeeded (and promoted), and the version of the candidate, 0 for none.\<close>

definition runRotation ::
    "vault_env \<Rightarrow> 't rotation_service \<Rightarrow> 't rotator \<Rightarrow> gin_context \<Rightarrow> string \<Rightarrow> GenerationPolicy \<Rightarrow> connector_config
     \<Rightarrow> vault_state \<times> 't \<Rightarrow> (bool \<times> int) \<times> vault_state \<times> 't" where
  "runRotation env svc rot cx secretID gp cfg s =
     (case rotateCandidate env svc rot cx secretID gp cfg s of
        (None, vst, t) \<Rightarrow> ((False, 0), vst, t)
      | (Some (v, n), vst, t) \<Rightarrow>
          (case rotateApply rot cfg v t of
             (False, t1) \<Rightarrow> ((False, n), vst, t1)
           | (True, t1) \<Rightarrow>
               (case rotateFinish env rot cx secretID cfg v n (vst, t1) of (ok, vst1) \<Rightarrow> ((ok, n), vst1, t1))))"

section \<open>The engine\<close>

text \<open>A fresh context that carries an organisation and nothing else.\<close>

definition backgroundOrg :: "string \<Rightarrow> gin_context" where
  "backgroundOrg i = \<lparr>cx_path = [], cx_method = [], cx_host = [], cx_header = (\<lambda>_. []), cx_clientIP = [],
     cx_userID = None, cx_email = None, cx_name = None, cx_sessionID = None, cx_serviceAccountID = None,
     cx_apiKeyID = None, cx_scopes = None, cx_roles = None, cx_amr = None, cx_orgID = None,
     cx_permissions = None, cx_org = Some \<lparr>org_ID = i, org_Slug = []\<rparr>, cx_platformAdmin = False, cx_bypassRLS = False\<rparr>"

definition loadPolicy ::
    "vault_env \<Rightarrow> gin_context \<Rightarrow> string \<Rightarrow> 't rotation_state \<Rightarrow> (rotation_policy \<times> int) option" where
  "loadPolicy env cx policyID st =
     (case ve_uuid env policyID of
        None \<Rightarrow> None
      | Some u \<Rightarrow>
          if ve_fails env ''loadPolicy'' then None
          else (case find (policyRow cx u) (ro_policies st) of
                  None \<Rightarrow> None
                | Some p \<Rightarrow> Some (p, (case find (secretRow cx (cr_SecretID p)) (vt_secrets (ro_vault st)) of
                    None \<Rightarrow> 0 | Some s \<Rightarrow> vs_CurrentVersion s))))"

definition inFlight :: "vault_env \<Rightarrow> gin_context \<Rightarrow> string \<Rightarrow> 't rotation_state \<Rightarrow> bool" where
  "inFlight env cx policyID st =
     list_ex (\<lambda>r. inScope cx (rr_OrgID r) \<and> rr_PolicyID r = Some policyID \<and> rr_Status r = ''rotating''
        \<and> ve_now env - 10 * minute < rr_StartedAt r) (ro_runs st)"

definition insertRun ::
    "vault_env \<Rightarrow> rotation_policy \<Rightarrow> int \<Rightarrow> string \<Rightarrow> 't rotation_state \<Rightarrow> 't rotation_state" where
  "insertRun env p current trigger st =
     st\<lparr>ro_runs := ro_runs st @ [\<lparr>rr_ID = ve_newID env, rr_OrgID = cr_OrgID p, rr_PolicyID = Some (cr_ID p),
        rr_SecretID = cr_SecretID p, rr_ConnectorType = cr_ConnectorType p, rr_Trigger = trigger,
        rr_Status = ''rotating'', rr_VersionFrom = current, rr_VersionTo = None, rr_Error = None,
        rr_StartedAt = ve_now env, rr_CompletedAt = None\<rparr>]\<rparr>"

definition updateRun ::
    "vault_env \<Rightarrow> gin_context \<Rightarrow> string \<Rightarrow> (rotation_run \<Rightarrow> rotation_run) \<Rightarrow> 't rotation_state \<Rightarrow> 't rotation_state" where
  "updateRun env cx runID f st =
     (if ve_fails env ''updateRun'' then st
      else st\<lparr>ro_runs := updateWhere (\<lambda>r. inScope cx (rr_OrgID r) \<and> rr_ID r = runID) f (ro_runs st)\<rparr>)"

definition updatePolicyRow ::
    "vault_env \<Rightarrow> gin_context \<Rightarrow> string \<Rightarrow> (rotation_policy \<Rightarrow> rotation_policy) \<Rightarrow> 't rotation_state \<Rightarrow> 't rotation_state" where
  "updatePolicyRow env cx policyID f st =
     (if ve_fails env ''updatePolicyRow'' then st
      else st\<lparr>ro_policies := updateWhere (policyRow cx policyID) f (ro_policies st)\<rparr>)"

definition failRun ::
    "vault_env \<Rightarrow> gin_context \<Rightarrow> string \<Rightarrow> string \<Rightarrow> int \<Rightarrow> string \<Rightarrow> 't rotation_state \<Rightarrow> 't rotation_state" where
  "failRun env cx runID policyID versionTo msg st =
     updatePolicyRow env cx policyID (\<lambda>p. p\<lparr>cr_LastStatus := Some ''failed''\<rparr>)
       (updateRun env cx runID (\<lambda>r. r\<lparr>rr_Status := ''failed'', rr_Error := Some msg,
          rr_VersionTo := (if 0 < versionTo then Some versionTo else None), rr_CompletedAt := Some (ve_now env)\<rparr>) st)"

definition updateRunSucceeded ::
    "vault_env \<Rightarrow> gin_context \<Rightarrow> string \<Rightarrow> string \<Rightarrow> int option \<Rightarrow> int \<Rightarrow> 't rotation_state \<Rightarrow> 't rotation_state" where
  "updateRunSucceeded env cx runID policyID versionTo interval st =
     updatePolicyRow env cx policyID (\<lambda>p. p\<lparr>cr_LastRunAt := Some (ve_now env), cr_LastStatus := Some ''succeeded'',
          cr_NextRunAt := (if 0 < interval then Some (ve_now env + interval * second) else cr_NextRunAt p)\<rparr>)
       (updateRun env cx runID (\<lambda>r. r\<lparr>rr_Status := ''succeeded'', rr_VersionTo := versionTo,
          rr_CompletedAt := Some (ve_now env)\<rparr>) st)"

definition recordRotationAudit :: "vault_env \<Rightarrow> string \<Rightarrow> string \<Rightarrow> 't rotation_state \<Rightarrow> 't rotation_state" where
  "recordRotationAudit env event secretID st =
     (if ve_fails env ''audit'' then st else st\<lparr>ro_audits := ro_audits st @ [(event, secretID)]\<rparr>)"

text \<open>The version the secret has after a promotion, as the ledger will say.\<close>

definition readBack :: "vault_env \<Rightarrow> gin_context \<Rightarrow> string \<Rightarrow> vault_state \<Rightarrow> int option" where
  "readBack env cx u vst =
     (if ve_fails env ''readBack'' then None
      else map_option vs_CurrentVersion (find (secretRow cx u) (vt_secrets vst)))"

definition cleanupAfter :: "'t rotator \<Rightarrow> connector_config \<Rightarrow> 't \<Rightarrow> 't" where
  "cleanupAfter rot cfg t = (case rt_Cleanup rot of None \<Rightarrow> t | Some c \<Rightarrow> snd (c cfg t))"

text \<open>A rotation of a loaded policy, its ledger row inserted.\<close>

definition rotateLoaded ::
    "vault_env \<Rightarrow> 't rotation_service \<Rightarrow> rotation_policy \<Rightarrow> 't rotation_state \<Rightarrow> rotation_error option \<times> 't rotation_state" where
  "rotateLoaded env svc p st =
     (let cx = backgroundOrg (cr_OrgID p); runID = ve_newID env in
      case rotatorFor svc (cr_ConnectorType p) of
        None \<Rightarrow> (Some RotConnector, failRun env cx runID (cr_ID p) 0 ''unknown connector type'' st)
      | Some rot \<Rightarrow>
          (case runRotation env svc rot cx (cr_SecretID p) (withDefaultLength svc (cr_Generation p)) (cr_Config p)
              (ro_vault st, ro_target st) of
             ((ok, n), vst, t) \<Rightarrow>
               (if ok then
                  (let st1 = st\<lparr>ro_vault := vst, ro_target := cleanupAfter rot (cr_Config p) t\<rparr> in
                   (None, recordRotationAudit env ''credential.rotated'' (cr_SecretID p)
                      (updateRunSucceeded env cx runID (cr_ID p) (readBack env cx (cr_SecretID p) vst)
                        (cr_Interval p) st1)))
                else (None, recordRotationAudit env ''credential.rotation_failed'' (cr_SecretID p)
                        (failRun env cx runID (cr_ID p) n ''rotation failed''
                          (st\<lparr>ro_vault := vst, ro_target := t\<rparr>))))))"

definition RotateSecret ::
    "vault_env \<Rightarrow> 't rotation_service \<Rightarrow> gin_context \<Rightarrow> string \<Rightarrow> string \<Rightarrow> 't rotation_state
     \<Rightarrow> rotation_error option \<times> 't rotation_state" where
  "RotateSecret env svc cx policyID trigger st =
     (case loadPolicy env (WithBypassRLS cx) policyID st of
        None \<Rightarrow> (Some RotDatabase, st)
      | Some (p, current) \<Rightarrow>
          if \<not> cr_Enabled p then (None, st)
          else if ve_fails env ''inFlight'' then (Some RotDatabase, st)
          else if inFlight env (backgroundOrg (cr_OrgID p)) (cr_ID p) st then (None, st)
          else if ve_fails env ''insertRun'' \<or> cr_OrgID p = [] then (Some RotDatabase, st)
          else rotateLoaded env svc p (insertRun env p current trigger st))"

section \<open>The scheduler\<close>

definition scheduledDue :: "int \<Rightarrow> rotation_policy \<Rightarrow> bool" where
  "scheduledDue now p \<longleftrightarrow> 0 < cr_Interval p \<and> (case cr_NextRunAt p of None \<Rightarrow> True | Some t \<Rightarrow> t \<le> now)"

text \<open>The epoch is the instant 0.\<close>

definition checkoutConcluded :: "rotation_policy \<Rightarrow> vault_checkout \<Rightarrow> bool" where
  "checkoutConcluded p c \<longleftrightarrow> vc_SecretID c = cr_SecretID p \<and> vc_Status c \<in> {''returned'', ''expired''}
     \<and> (case cr_LastRunAt p of None \<Rightarrow> 0 | Some t \<Rightarrow> t) < (case vc_ReturnedAt c of None \<Rightarrow> vc_LeasedAt c | Some t \<Rightarrow> t)"

definition isDue :: "int \<Rightarrow> vault_checkout list \<Rightarrow> rotation_policy \<Rightarrow> bool" where
  "isDue now cs p \<longleftrightarrow> cr_Enabled p
     \<and> (scheduledDue now p \<or> cr_OnCheckout p \<and> list_ex (checkoutConcluded p) cs)"

definition dueUnsafe :: "vault_env \<Rightarrow> 't rotation_state \<Rightarrow> rotation_error + (string \<times> string) list" where
  "dueUnsafe env st =
     (if ve_fails env ''dueScan'' then Inl RotDatabase
      else Inr (map (\<lambda>p. (cr_ID p, if scheduledDue (ve_now env) p then ''scheduled'' else ''checkout''))
             (take 200 (filter (isDue (ve_now env) (vt_checkouts (ro_vault st))) (ro_policies st)))))"

text \<open>Each rotation of a tick has its own clock and draws: \<open>envs\<close> gives them in order.\<close>

fun rotateAll ::
    "(nat \<Rightarrow> vault_env) \<Rightarrow> 't rotation_service \<Rightarrow> gin_context \<Rightarrow> nat \<Rightarrow> (string \<times> string) list \<Rightarrow> 't rotation_state
     \<Rightarrow> 't rotation_state" where
  "rotateAll envs svc cx i [] st = st"
| "rotateAll envs svc cx i ((policyID, trigger) # ps) st =
     rotateAll envs svc cx (Suc i) ps (snd (RotateSecret (envs i) svc cx policyID trigger st))"

definition tick ::
    "vault_env \<Rightarrow> (nat \<Rightarrow> vault_env) \<Rightarrow> 't rotation_service \<Rightarrow> gin_context \<Rightarrow> 't rotation_state \<Rightarrow> 't rotation_state" where
  "tick env envs svc cx st =
     (case dueUnsafe env st of Inl _ \<Rightarrow> st | Inr due \<Rightarrow> rotateAll envs svc cx 0 due st)"

section \<open>Handlers\<close>

datatype rotation_response =
    RErr int | RPolicy rotation_policy | RPolicies "rotation_policy list" | RNoContent | RRun rotation_run
  | RCompleted | RRuns "rotation_run list"

definition policyIDForSecret ::
    "vault_env \<Rightarrow> gin_context \<Rightarrow> string \<Rightarrow> 't rotation_state \<Rightarrow> rotation_error + string" where
  "policyIDForSecret env cx secretID st =
     (case ve_uuid env secretID of
        None \<Rightarrow> Inl RotDatabase
      | Some u \<Rightarrow>
          if ve_fails env ''policyForSecret'' then Inl RotDatabase
          else (case find (\<lambda>p. inScope cx (cr_OrgID p) \<and> cr_SecretID p = u \<and> cr_Enabled p) (ro_policies st) of
                  None \<Rightarrow> Inl RotPolicyNotFound | Some p \<Rightarrow> Inr (cr_ID p)))"

definition runsOf :: "gin_context \<Rightarrow> string \<Rightarrow> 't rotation_state \<Rightarrow> rotation_run list" where
  "runsOf cx u st = sort_key (\<lambda>r. - rr_StartedAt r)
     (filter (\<lambda>r. inScope cx (rr_OrgID r) \<and> rr_SecretID r = u) (ro_runs st))"

definition LatestRotationRun ::
    "vault_env \<Rightarrow> gin_context \<Rightarrow> string \<Rightarrow> 't rotation_state \<Rightarrow> rotation_error + rotation_run" where
  "LatestRotationRun env cx secretID st =
     (case ve_uuid env secretID of
        None \<Rightarrow> Inl RotDatabase
      | Some u \<Rightarrow>
          if ve_fails env ''latestRun'' then Inl RotDatabase
          else (case runsOf cx u st of [] \<Rightarrow> Inl RotPolicyNotFound | r # _ \<Rightarrow> Inr r))"

definition RotationHistory ::
    "vault_env \<Rightarrow> gin_context \<Rightarrow> string \<Rightarrow> 't rotation_state \<Rightarrow> rotation_error + rotation_run list" where
  "RotationHistory env cx secretID st =
     (case ve_uuid env secretID of
        None \<Rightarrow> Inl RotDatabase
      | Some u \<Rightarrow> if ve_fails env ''history'' then Inl RotDatabase else Inr (take 200 (runsOf cx u st)))"

definition handleCreatePolicy ::
    "vault_env \<Rightarrow> 't rotation_service \<Rightarrow> gin_context \<Rightarrow> PolicyInput option \<Rightarrow> 't rotation_state
     \<Rightarrow> rotation_response \<times> 't rotation_state" where
  "handleCreatePolicy env svc cx body st =
     (case body of
        None \<Rightarrow> (RErr 400, st)
      | Some inp \<Rightarrow>
          (case CreatePolicy env svc cx inp st of
             (Inl e, st1) \<Rightarrow> (RErr (if e = RotInvalid \<or> e = RotSecretNotFound then 400 else 500), st1)
           | (Inr p, st1) \<Rightarrow> (RPolicy p, st1)))"

definition handleListPolicies :: "vault_env \<Rightarrow> gin_context \<Rightarrow> 't rotation_state \<Rightarrow> rotation_response" where
  "handleListPolicies env cx st = (case ListPolicies env cx st of Inl _ \<Rightarrow> RErr 500 | Inr ps \<Rightarrow> RPolicies ps)"

definition handleGetPolicy :: "vault_env \<Rightarrow> gin_context \<Rightarrow> string \<Rightarrow> 't rotation_state \<Rightarrow> rotation_response" where
  "handleGetPolicy env cx i st =
     (case GetPolicy env cx i st of
        Inl e \<Rightarrow> RErr (if e = RotPolicyNotFound then 404 else 500) | Inr p \<Rightarrow> RPolicy p)"

definition handleUpdatePolicy ::
    "vault_env \<Rightarrow> 't rotation_service \<Rightarrow> gin_context \<Rightarrow> string \<Rightarrow> PolicyInput option \<Rightarrow> 't rotation_state
     \<Rightarrow> rotation_response \<times> 't rotation_state" where
  "handleUpdatePolicy env svc cx i body st =
     (case body of
        None \<Rightarrow> (RErr 400, st)
      | Some inp \<Rightarrow>
          (case UpdatePolicy env svc cx i inp st of
             (Inl e, st1) \<Rightarrow> (RErr (if e = RotInvalid then 400 else if e = RotPolicyNotFound then 404 else 500), st1)
           | (Inr p, st1) \<Rightarrow> (RPolicy p, st1)))"

definition handleDeletePolicy ::
    "vault_env \<Rightarrow> gin_context \<Rightarrow> string \<Rightarrow> 't rotation_state \<Rightarrow> rotation_response \<times> 't rotation_state" where
  "handleDeletePolicy env cx i st =
     (case DeletePolicy env cx i st of
        (Some e, st1) \<Rightarrow> (RErr (if e = RotPolicyNotFound then 404 else 500), st1) | (None, st1) \<Rightarrow> (RNoContent, st1))"

definition handleRotateNow ::
    "vault_env \<Rightarrow> 't rotation_service \<Rightarrow> gin_context \<Rightarrow> string \<Rightarrow> 't rotation_state \<Rightarrow> rotation_response \<times> 't rotation_state" where
  "handleRotateNow env svc cx secretID st =
     (case policyIDForSecret env cx secretID st of
        Inl e \<Rightarrow> (RErr (if e = RotPolicyNotFound then 404 else 500), st)
      | Inr policyID \<Rightarrow>
          (case RotateSecret env svc cx policyID ''on_demand'' st of
             (Some _, st1) \<Rightarrow> (RErr 500, st1)
           | (None, st1) \<Rightarrow>
               (case LatestRotationRun env cx secretID st1 of Inl _ \<Rightarrow> (RCompleted, st1) | Inr r \<Rightarrow> (RRun r, st1))))"

definition handleRotationHistory :: "vault_env \<Rightarrow> gin_context \<Rightarrow> string \<Rightarrow> 't rotation_state \<Rightarrow> rotation_response" where
  "handleRotationHistory env cx i st = (case RotationHistory env cx i st of Inl _ \<Rightarrow> RErr 500 | Inr rs \<Rightarrow> RRuns rs)"

section \<open>Just-in-time checkout\<close>

text \<open>What the two handlers read of an access request.\<close>

record jit_request =
  jr_ID :: string
  jr_OrgID :: string
  jr_ResourceType :: string
  jr_ResourceID :: string
  jr_Status :: string
  jr_RequesterID :: string
  jr_ExpiresAt :: "int option"

record 't jit_state =
  js_requests :: "jit_request list"
  js_rotation :: "'t rotation_state"
  js_audits :: "(string \<times> string) list"

datatype jit_response = JErr int | JValue string | JReturned

definition jitRow :: "gin_context \<Rightarrow> string \<Rightarrow> string \<Rightarrow> jit_request \<Rightarrow> bool" where
  "jitRow cx orgID u r \<longleftrightarrow> inScope cx (jr_OrgID r) \<and> jr_ID r = u \<and> jr_OrgID r = orgID"

text \<open>\<open>ring\<close> is \<open>None\<close> when the vault is not configured.\<close>

definition handleRetrieveCredential ::
    "vault_env \<Rightarrow> keyring option \<Rightarrow> int \<Rightarrow> gin_context \<Rightarrow> string \<Rightarrow> 't jit_state \<Rightarrow> jit_response \<times> 't jit_state" where
  "handleRetrieveCredential env ring ttl cx reqID st =
     (case ring of
        None \<Rightarrow> (JErr 503, st)
      | Some r \<Rightarrow>
          (case (cx_org cx, ve_uuid env reqID) of
             (None, _) \<Rightarrow> (JErr 403, st)
           | (_, None) \<Rightarrow> (JErr 500, st)
           | (Some o', Some u) \<Rightarrow>
               if ve_fails env ''loadRequest'' then (JErr 500, st)
               else (case find (jitRow cx (org_ID o') u) (js_requests st) of
                       None \<Rightarrow> (JErr 404, st)
                     | Some q \<Rightarrow>
                         if jr_ResourceType q \<noteq> ''vault_credential'' then (JErr 400, st)
                         else if jr_RequesterID q \<noteq> currentUserID cx then (JErr 403, st)
                         else if jr_Status q \<noteq> ''fulfilled'' then (JErr 409, st)
                         else if (case jr_ExpiresAt q of None \<Rightarrow> True | Some t \<Rightarrow> t < ve_now env) then (JErr 403, st)
                         else (case Reveal env r ttl cx (jr_ResourceID q) (currentUserID cx) [] (''JIT checkout '' @ reqID) False
                                 (ro_vault (js_rotation st)) of
                                 (Inl _, vst) \<Rightarrow> (JErr 403, st\<lparr>js_rotation := (js_rotation st)\<lparr>ro_vault := vst\<rparr>\<rparr>)
                               | (Inr pt, vst) \<Rightarrow> (JValue pt, st\<lparr>js_rotation := (js_rotation st)\<lparr>ro_vault := vst\<rparr>\<rparr>)))))"

definition bumpRotationOnReturn :: "vault_env \<Rightarrow> gin_context \<Rightarrow> string \<Rightarrow> 't rotation_state \<Rightarrow> 't rotation_state" where
  "bumpRotationOnReturn env cx secretID st =
     (case ve_uuid env secretID of
        None \<Rightarrow> st
      | Some u \<Rightarrow>
          if ve_fails env ''bumpRotation'' then st
          else st\<lparr>ro_policies := updateWhere (\<lambda>p. inScope cx (cr_OrgID p) \<and> cr_SecretID p = u \<and> cr_OnCheckout p)
                 (\<lambda>p. p\<lparr>cr_NextRunAt := Some (ve_now env)\<rparr>) (ro_policies st)\<rparr>)"

definition handleReturnCredential ::
    "vault_env \<Rightarrow> keyring option \<Rightarrow> gin_context \<Rightarrow> string \<Rightarrow> 't jit_state \<Rightarrow> jit_response \<times> 't jit_state" where
  "handleReturnCredential env ring cx reqID st =
     (case ring of
        None \<Rightarrow> (JErr 503, st)
      | Some _ \<Rightarrow>
          (case (cx_org cx, ve_uuid env reqID) of
             (None, _) \<Rightarrow> (JErr 403, st)
           | (_, None) \<Rightarrow> (JErr 500, st)
           | (Some o', Some u) \<Rightarrow>
               if ve_fails env ''loadRequest'' then (JErr 500, st)
               else (case find (jitRow cx (org_ID o') u) (js_requests st) of
                       None \<Rightarrow> (JErr 404, st)
                     | Some q \<Rightarrow>
                         if jr_ResourceType q \<noteq> ''vault_credential'' \<or> jr_RequesterID q \<noteq> currentUserID cx then (JErr 403, st)
                         else if jr_Status q \<noteq> ''fulfilled'' then (JErr 409, st)
                         else (let ro = js_rotation st in
                               case RevokeGrantForPrincipal env cx (jr_ResourceID q) ''user'' (currentUserID cx) (ro_vault ro) of
                                 (Some _, _) \<Rightarrow> (JErr 500, st)
                               | (None, vst) \<Rightarrow>
                                   (JReturned, st\<lparr>
                                      js_requests := (if ve_fails env ''expireRequest'' then js_requests st
                                        else updateWhere (jitRow cx (org_ID o') u) (\<lambda>q. q\<lparr>jr_Status := ''expired''\<rparr>) (js_requests st)),
                                      js_rotation := bumpRotationOnReturn env cx (jr_ResourceID q) (ro\<lparr>ro_vault := vst\<rparr>),
                                      js_audits := (if ve_fails env ''audit'' then js_audits st
                                        else js_audits st @ [(currentUserID cx, jr_ResourceID q)])\<rparr>)))))"

section \<open>Properties\<close>

subsection \<open>Generated values\<close>

lemma charsetOf_nonempty [simp]: "charsetOf gp \<noteq> []"
  by (simp add: charsetOf_def Let_def setUpper_def)

lemma drawChars_sound:
  assumes "\<And>i n k. rand i n = Some k \<Longrightarrow> k < n"
  shows "drawChars rand cs i n = Some v \<Longrightarrow> length v = n \<and> set v \<subseteq> set cs"
proof (induction n arbitrary: i v)
  case 0
  then show ?case by simp
next
  case (Suc n)
  from Suc.prems obtain k out where k: "rand i (length cs) = Some k"
    and out: "drawChars rand cs (Suc i) n = Some out" and v: "v = cs ! k # out"
    by (auto split: option.splits)
  from Suc.IH [OF out] assms [OF k] show ?case by (simp add: v)
qed

text \<open>A generated value has the requested length, never less than eight, and characters of the requested classes.\<close>

theorem generateSecret_conforms:
  assumes "generateSecret rand gp = Some v" and "\<And>i n k. rand i n = Some k \<Longrightarrow> k < n"
  shows "int (length v) = (if gp_Length gp = 0 then 24 else gp_Length gp) \<and> 8 \<le> length v \<and> set v \<subseteq> set (charsetOf gp)"
proof -
  let ?n = "if gp_Length gp = 0 then 24 else gp_Length gp"
  from assms(1) have n: "8 \<le> ?n" and d: "drawChars rand (charsetOf gp) 0 (nat ?n) = Some v"
    by (simp_all add: generateSecret_def Let_def split: if_splits)
  from drawChars_sound [OF assms(2) d] have "length v = nat ?n" and "set v \<subseteq> set (charsetOf gp)" by simp_all
  with n show ?thesis by linarith
qed

subsection \<open>One rotation\<close>

text \<open>Every secret can be read: its current version has a text.\<close>

definition allReadable :: "vault_env \<Rightarrow> keyring \<Rightarrow> vault_state \<Rightarrow> bool" where
  "allReadable E R vst \<longleftrightarrow> (\<forall>i cur f. vaultTable E R vst i = Some (cur, f) \<longrightarrow> f cur \<noteq> None)"

lemma runRotation_cases:
  assumes "runRotation env svc rot cx i gp cfg (vst, t) = ((ok, n), vst', t')"
  obtains (nothing) "\<not> ok" and "vst' = vst"
  | (refused) v where "\<not> ok" and "AddCandidateVersion env (rs_ring svc) cx i v [] vst = (Inr n, vst')"
  | (finished) v t1 vst1 where "newValueOf (rs_rand svc) rot gp cfg t = (Some v, t1)"
      and "AddCandidateVersion env (rs_ring svc) cx i v [] vst = (Inr n, vst1)"
      and "rotateApply rot cfg v t1 = (True, t')"
      and "rotateFinish env rot cx i cfg v n (vst1, t') = (ok, vst')"
proof -
  obtain r t1 where new: "newValueOf (rs_rand svc) rot gp cfg t = (r, t1)" by fastforce
  show ?thesis
  proof (cases r)
    case None
    with assms new have "\<not> ok" "vst' = vst" by (simp_all add: runRotation_def rotateCandidate_def)
    then show ?thesis by (rule nothing)
  next
    case (Some v)
    obtain a vst1 where add: "AddCandidateVersion env (rs_ring svc) cx i v [] vst = (a, vst1)" by fastforce
    show ?thesis
    proof (cases a)
      case (Inl e)
      then have "vst1 = vst" using add
        by (auto simp: AddCandidateVersion_def Let_def split: option.splits sum.splits if_splits)
      with assms new Some add Inl have "\<not> ok" "vst' = vst" by (simp_all add: runRotation_def rotateCandidate_def)
      then show ?thesis by (rule nothing)
    next
      case (Inr m)
      obtain b t2 where app: "rotateApply rot cfg v t1 = (b, t2)" by fastforce
      obtain ok' vst2 where fin: "rotateFinish env rot cx i cfg v m (vst1, t2) = (ok', vst2)" by fastforce
      show ?thesis
      proof (cases b)
        case True
        with assms new Some add Inr app fin have "n = m" "t' = t2" "ok' = ok" "vst2 = vst'"
          by (simp_all add: runRotation_def rotateCandidate_def)
        then show ?thesis using new Some add Inr app fin True finished by simp
      next
        case False
        with assms new Some add Inr app have "\<not> ok" "n = m" "vst' = vst1"
          by (simp_all add: runRotation_def rotateCandidate_def)
        then show ?thesis using add Inr refused by simp
      qed
    qed
  qed
qed

lemma candidate_keeps_texts:
  assumes "vault_wf vst" and "vaultCtx E R env ring" and "ve_uuid E i = Some i" and "allReadable E R vst"
    and "AddCandidateVersion env ring cx i v y vst = (Inr n, vst1)"
  obtains cur f where "vault_wf vst1" and "allReadable E R vst1"
    and "vaultTable E R vst1 = (vaultTable E R vst)(i \<mapsto> (cur, f(n \<mapsto> v)))"
    and "\<And>j x. currentText (vaultTable E R vst1) j x \<longleftrightarrow> currentText (vaultTable E R vst) j x"
proof -
  from Candidate_refines [OF assms(1,2,3,5)]
  obtain cur f where wf: "vault_wf vst1" and row: "vaultTable E R vst i = Some (cur, f)" and fresh: "f n = None"
    and new: "vaultTable E R vst1 = (vaultTable E R vst)(i \<mapsto> (cur, f(n \<mapsto> v)))" by auto
  have "f cur \<noteq> None" using assms(4) row unfolding allReadable_def by blast
  then have other: "n \<noteq> cur" using fresh by auto
  have "allReadable E R vst1" using assms(4) row other unfolding allReadable_def new by auto
  moreover have "currentText (vaultTable E R vst1) j x \<longleftrightarrow> currentText (vaultTable E R vst) j x" for j x
    using row other by (auto simp: currentText_def new)
  ultimately show ?thesis using that wf new by blast
qed

lemma rotation_keeps:
  assumes wf: "vault_wf vst" and ctx: "vaultCtx E R env (rs_ring svc)" and i: "ve_uuid E i = Some i"
    and readable: "allReadable E R vst"
    and run: "runRotation env svc rot cx i gp cfg (vst, t) = ((ok, n), vst', t')"
  shows "vault_wf vst' \<and> allReadable E R vst'
    \<and> (if ok then \<exists>v. currentText (vaultTable E R vst') i v \<and> rt_Verify rot cfg v t' \<noteq> VerifyFailed
           \<and> (case rt_Mint rot of None \<Rightarrow> rt_Apply rot cfg v t = (True, t') | Some mint \<Rightarrow> mint cfg t = (Some v, t'))
           \<and> (\<forall>j. j \<noteq> i \<longrightarrow> vaultTable E R vst' j = vaultTable E R vst j)
       else (\<forall>j x. currentText (vaultTable E R vst') j x \<longleftrightarrow> currentText (vaultTable E R vst) j x))"
  using run
proof (cases rule: runRotation_cases)
  case nothing
  with wf readable show ?thesis by simp
next
  case (refused v)
  from candidate_keeps_texts [OF wf ctx i readable refused(2)] refused(1) show ?thesis by (metis (full_types))
next
  case (finished v t1 vst1)
  obtain cur f where wf1: "vault_wf vst1" and r1: "allReadable E R vst1"
    and tab: "vaultTable E R vst1 = (vaultTable E R vst)(i \<mapsto> (cur, f(n \<mapsto> v)))"
    and same: "\<And>j x. currentText (vaultTable E R vst1) j x \<longleftrightarrow> currentText (vaultTable E R vst) j x"
    using candidate_keeps_texts [OF wf ctx i readable finished(2)] by blast
  show ?thesis
  proof (cases ok)
    case False
    have "vst' = vst1"
      using finished(4) False by (auto simp: rotateFinish_def PromoteVersion_def split: if_splits option.splits prod.splits)
    with False wf1 r1 same show ?thesis by simp
  next
    case True
    have verified: "rt_Verify rot cfg v t' \<noteq> VerifyFailed" and prom: "PromoteVersion env cx i n vst1 = (None, vst')"
      using finished(4) True by (auto simp: rotateFinish_def split: if_splits option.splits prod.splits)
    have "ve_uuid env i = Some i" using i ctx_uuid [OF ctx] by simp
    from Promote_refines [OF wf1 this prom, of E R]
    have wf2: "vault_wf vst'" and tab2: "vaultTable E R vst' = (vaultTable E R vst1)(i \<mapsto> (n, f(n \<mapsto> v)))"
      using tab by auto
    have "allReadable E R vst'" using r1 unfolding allReadable_def tab2 by auto
    moreover have "currentText (vaultTable E R vst') i v" by (auto simp: currentText_def tab2)
    moreover have "\<forall>j. j \<noteq> i \<longrightarrow> vaultTable E R vst' j = vaultTable E R vst j" by (simp add: tab tab2)
    moreover have "case rt_Mint rot of None \<Rightarrow> rt_Apply rot cfg v t = (True, t') | Some mint \<Rightarrow> mint cfg t = (Some v, t')"
      using finished(1,3) by (auto simp: newValueOf_def rotateApply_def split: option.splits)
    ultimately show ?thesis using True wf2 verified by auto
  qed
qed

text \<open>
  C39: a rotation that succeeds makes current what the target was given (or has minted) and did not refuse when it was
  verified, and leaves the other secrets alone; one that fails, at whatever step, changes no current text: what the vault
  hands out is as before. Neither makes a secret unreadable.
\<close>

theorem rotation_sound:
  assumes "vault_wf vst" and "vaultCtx E R env (rs_ring svc)" and "ve_uuid E i = Some i"
    and "allReadable E R vst"
    and "runRotation env svc rot cx i gp cfg (vst, t) = ((ok, n), vst', t')"
  shows "vault_wf vst' \<and> allReadable E R vst'
    \<and> (if ok then \<exists>v. currentText (vaultTable E R vst') i v \<and> rt_Verify rot cfg v t' \<noteq> VerifyFailed
           \<and> (case rt_Mint rot of None \<Rightarrow> rt_Apply rot cfg v t = (True, t') | Some mint \<Rightarrow> mint cfg t = (Some v, t'))
           \<and> (\<forall>j. j \<noteq> i \<longrightarrow> vaultTable E R vst' j = vaultTable E R vst j)
       else (\<forall>j x. currentText (vaultTable E R vst') j x \<longleftrightarrow> currentText (vaultTable E R vst) j x))"
  by (rule rotation_keeps [OF assms])

subsection \<open>The engine\<close>

lemma failRun_vault [simp]: "ro_vault (failRun env cx r p n msg st) = ro_vault st"
  by (simp add: failRun_def updatePolicyRow_def updateRun_def)

lemma succeeded_vault [simp]: "ro_vault (updateRunSucceeded env cx r p v n st) = ro_vault st"
  by (simp add: updateRunSucceeded_def updatePolicyRow_def updateRun_def)

lemma rotationAudit_vault [simp]:
  "ro_vault (recordRotationAudit env e i st) = ro_vault st" "ro_policies (recordRotationAudit env e i st) = ro_policies st"
  by (simp_all add: recordRotationAudit_def)

lemma insertRun_vault [simp]: "ro_vault (insertRun env p c tr st) = ro_vault st" "ro_policies (insertRun env p c tr st) = ro_policies st"
  by (simp_all add: insertRun_def)

lemma rotateLoaded_keeps:
  assumes "vault_wf (ro_vault st)" and "vaultCtx E R env (rs_ring svc)" and "ve_uuid E (cr_SecretID p) = Some (cr_SecretID p)"
    and "allReadable E R (ro_vault st)"
  shows "vault_wf (ro_vault (snd (rotateLoaded env svc p st))) \<and> allReadable E R (ro_vault (snd (rotateLoaded env svc p st)))"
proof (cases "rotatorFor svc (cr_ConnectorType p)")
  case None
  with assms show ?thesis by (simp add: rotateLoaded_def Let_def)
next
  case (Some rot)
  obtain ok n vst t where run: "runRotation env svc rot (backgroundOrg (cr_OrgID p)) (cr_SecretID p)
      (withDefaultLength svc (cr_Generation p)) (cr_Config p) (ro_vault st, ro_target st) = ((ok, n), vst, t)"
    by (metis surj_pair)
  have "ro_vault (snd (rotateLoaded env svc p st)) = vst"
    using Some run by (simp add: rotateLoaded_def Let_def)
  with rotation_keeps [OF assms run] show ?thesis by simp
qed

definition canonicalPolicies :: "vault_env \<Rightarrow> 't rotation_state \<Rightarrow> bool" where
  "canonicalPolicies E st = list_all (\<lambda>i. ve_uuid E i = Some i) (map cr_SecretID (ro_policies st))"

lemma canonical_failRun [simp]: "canonicalPolicies E (failRun env cx r p n msg st) \<longleftrightarrow> canonicalPolicies E st"
  by (simp add: canonicalPolicies_def failRun_def updatePolicyRow_def updateRun_def map_updateWhere_key)

lemma canonical_succeeded [simp]: "canonicalPolicies E (updateRunSucceeded env cx r p v n st) \<longleftrightarrow> canonicalPolicies E st"
  by (simp add: canonicalPolicies_def updateRunSucceeded_def updatePolicyRow_def updateRun_def map_updateWhere_key)

lemma canonical_cong:
  "ro_policies st' = ro_policies st \<Longrightarrow> canonicalPolicies E st' \<longleftrightarrow> canonicalPolicies E st"
  by (simp add: canonicalPolicies_def)

lemma rotateLoaded_policies:
  assumes "canonicalPolicies E st"
  shows "canonicalPolicies E (snd (rotateLoaded env svc p st))"
proof (cases "rotatorFor svc (cr_ConnectorType p)")
  case None
  with assms show ?thesis by (simp add: rotateLoaded_def Let_def)
next
  case (Some rot)
  obtain ok n vst t where run: "runRotation env svc rot (backgroundOrg (cr_OrgID p)) (cr_SecretID p)
      (withDefaultLength svc (cr_Generation p)) (cr_Config p) (ro_vault st, ro_target st) = ((ok, n), vst, t)"
    by (metis surj_pair)
  have "canonicalPolicies E (st\<lparr>ro_vault := vst, ro_target := u\<rparr>)" for u
    using assms by (simp add: canonicalPolicies_def)
  with Some run show ?thesis
    by (simp add: rotateLoaded_def Let_def canonical_cong [OF rotationAudit_vault(2)])
qed

lemma RotateSecret_keeps:
  assumes wf: "vault_wf (ro_vault st)" and ctx: "vaultCtx E R env (rs_ring svc)" and can: "canonicalPolicies E st"
    and readable: "allReadable E R (ro_vault st)"
  shows "vault_wf (ro_vault (snd (RotateSecret env svc cx i tr st)))
    \<and> allReadable E R (ro_vault (snd (RotateSecret env svc cx i tr st)))
    \<and> canonicalPolicies E (snd (RotateSecret env svc cx i tr st))"
proof (cases "loadPolicy env (WithBypassRLS cx) i st")
  case None
  with assms show ?thesis by (simp add: RotateSecret_def)
next
  case (Some pc)
  obtain p c where pc: "pc = (p, c)" by (cases pc)
  have "p \<in> set (ro_policies st)"
    using Some pc by (auto simp: loadPolicy_def split: option.splits if_splits dest: find_Some_mem)
  then have id: "ve_uuid E (cr_SecretID p) = Some (cr_SecretID p)" using can by (auto simp: canonicalPolicies_def list_all_iff)
  let ?s = "insertRun env p c tr st"
  have "canonicalPolicies E ?s" using can by (simp add: canonicalPolicies_def)
  then have "canonicalPolicies E (snd (rotateLoaded env svc p ?s))" by (rule rotateLoaded_policies)
  with rotateLoaded_keeps [of ?s, OF _ ctx id] wf readable can Some pc show ?thesis by (simp add: RotateSecret_def)
qed

lemma rotateAll_keeps:
  "vault_wf (ro_vault st) \<Longrightarrow> (\<And>i. vaultCtx E R (envs i) (rs_ring svc)) \<Longrightarrow> canonicalPolicies E st
   \<Longrightarrow> allReadable E R (ro_vault st)
   \<Longrightarrow> vault_wf (ro_vault (rotateAll envs svc cx k ps st)) \<and> allReadable E R (ro_vault (rotateAll envs svc cx k ps st))"
proof (induction ps arbitrary: k st)
  case Nil
  then show ?case by simp
next
  case (Cons q ps)
  obtain i tr where q: "q = (i, tr)" by (cases q)
  from RotateSecret_keeps [OF Cons.prems(1) Cons.prems(2) Cons.prems(3,4)]
  have "vault_wf (ro_vault (snd (RotateSecret (envs k) svc cx i tr st)))"
    "allReadable E R (ro_vault (snd (RotateSecret (envs k) svc cx i tr st)))"
    "canonicalPolicies E (snd (RotateSecret (envs k) svc cx i tr st))" by blast+
  with Cons.IH Cons.prems(2) show ?case by (simp add: q)
qed

text \<open>Whatever connectors do, no tick of the scheduler makes a secret unreadable.\<close>

theorem tick_keeps_readable:
  assumes "vault_wf (ro_vault st)" and "\<And>i. vaultCtx E R (envs i) (rs_ring svc)" and "canonicalPolicies E st"
    and "allReadable E R (ro_vault st)"
  shows "allReadable E R (ro_vault (tick env envs svc cx st))"
  using rotateAll_keeps [OF assms] assms(4) by (simp add: tick_def split: sum.split)

subsection \<open>The schedule\<close>

lemma updateWhere_map: "updateWhere P f rows = map (\<lambda>r. if P r then f r else r) rows"
  by (induction rows) (simp_all add: updateWhere_Cons)

lemma due_updateWhere:
  assumes "\<And>p. p \<in> set ps \<Longrightarrow> P p \<Longrightarrow> isDue now cs (f p) = isDue now cs p"
    and "\<And>p. p \<in> set ps \<Longrightarrow> P p \<Longrightarrow> scheduledDue now (f p) = scheduledDue now p"
    and "\<And>p. cr_ID (f p) = cr_ID p"
  shows "map (\<lambda>p. (cr_ID p, if scheduledDue now p then a else b)) (take n (filter (isDue now cs) (updateWhere P f ps)))
    = map (\<lambda>p. (cr_ID p, if scheduledDue now p then a else b)) (take n (filter (isDue now cs) ps))"
proof -
  let ?g = "\<lambda>r. if P r then f r else r"
  have due: "filter (isDue now cs) (updateWhere P f ps) = map ?g (filter (isDue now cs) ps)"
    unfolding updateWhere_map filter_map o_def using assms(1) by (intro arg_cong [where f = "map ?g"] filter_cong) auto
  have mem: "p \<in> set ps" if "p \<in> set (take n (filter (isDue now cs) ps))" for p
    using in_set_takeD [OF that] by simp
  have "(cr_ID (?g p), if scheduledDue now (?g p) then a else b) = (cr_ID p, if scheduledDue now p then a else b)"
    if "p \<in> set (take n (filter (isDue now cs) ps))" for p
    using assms(2) [OF mem [OF that]] assms(3) by (cases "P p") simp_all
  then show ?thesis unfolding due take_map map_map o_def by (rule map_cong [OF refl])
qed

lemma failRun_due: "dueUnsafe env' (failRun env cx r i n msg st) = dueUnsafe env' st"
proof -
  have "scheduledDue now (p\<lparr>cr_LastStatus := x\<rparr>) = scheduledDue now p" for now p x
    by (simp add: scheduledDue_def)
  moreover have "isDue now cs (p\<lparr>cr_LastStatus := x\<rparr>) = isDue now cs p" for now cs p x
    by (simp add: isDue_def scheduledDue_def checkoutConcluded_def [abs_def])
  ultimately show ?thesis
    by (simp add: dueUnsafe_def failRun_def updatePolicyRow_def updateRun_def due_updateWhere)
qed

lemma runRotation_checkouts:
  assumes "runRotation env svc rot cx i gp cfg (vst, t) = ((ok, n), vst', t')"
  shows "vt_checkouts vst' = vt_checkouts vst"
proof -
  have add: "vt_checkouts st1 = vt_checkouts st" if "AddCandidateVersion env r cx i v y st = (a, st1)" for r v y st st1 a
    using that by (auto simp: AddCandidateVersion_def insertVersion_def Let_def split: option.splits sum.splits if_splits)
  have fin: "vt_checkouts s = vt_checkouts st" if "rotateFinish env rot cx i cfg v n (st, t1) = (b, s)" for st t1 b s v
    using that by (auto simp: rotateFinish_def PromoteVersion_def setVersion_def split: option.splits if_splits prod.splits)
  show ?thesis using assms by (cases rule: runRotation_cases) (use add fin in \<open>auto\<close>)
qed

text \<open>
  A failed rotation does not move the schedule: the policy is due again at the next tick, and each attempt
  leaves one more candidate behind.
\<close>

theorem failed_rotation_retried:
  assumes "rotatorFor svc (cr_ConnectorType p) = Some rot"
    and "runRotation env svc rot (backgroundOrg (cr_OrgID p)) (cr_SecretID p) (withDefaultLength svc (cr_Generation p))
      (cr_Config p) (ro_vault st, ro_target st) = ((False, n), vst, t)"
  shows "dueUnsafe env' (snd (rotateLoaded env svc p st)) = dueUnsafe env' st"
proof -
  have "dueUnsafe env' (recordRotationAudit env e i s) = dueUnsafe env' s" for e i and s :: "'a rotation_state"
    by (simp add: dueUnsafe_def)
  moreover have "dueUnsafe env' (st\<lparr>ro_vault := vst, ro_target := t\<rparr>) = dueUnsafe env' st"
    using runRotation_checkouts [OF assms(2)] by (simp add: dueUnsafe_def)
  ultimately show ?thesis using assms by (simp add: rotateLoaded_def Let_def failRun_due)
qed

lemma RevokeGrant_checkouts: "vt_checkouts (snd (RevokeGrantForPrincipal env cx i t p st)) = vt_checkouts st"
  by (simp add: RevokeGrantForPrincipal_def split: option.split)

lemma bump_due:
  assumes "list_all (\<lambda>p. cr_OnCheckout p \<longrightarrow> cr_Interval p = 0) (ro_policies st)"
  shows "dueUnsafe env' (bumpRotationOnReturn env cx i st) = dueUnsafe env' st"
proof -
  let ?f = "\<lambda>p. p\<lparr>cr_NextRunAt := Some (ve_now env)\<rparr>"
  have zero: "\<not> scheduledDue now p" "\<not> scheduledDue now (?f p)" if "cr_Interval p = 0" for now p
    using that by (simp_all add: scheduledDue_def)
  have same: "checkoutConcluded (?f p) = checkoutConcluded p" for p by (simp add: checkoutConcluded_def fun_eq_iff)
  have "map (\<lambda>p. (cr_ID p, if scheduledDue now p then ''scheduled'' else ''checkout'')) (take 200 (filter (isDue now cs)
      (updateWhere (\<lambda>p. inScope cx (cr_OrgID p) \<and> cr_SecretID p = u \<and> cr_OnCheckout p) ?f (ro_policies st))))
    = map (\<lambda>p. (cr_ID p, if scheduledDue now p then ''scheduled'' else ''checkout''))
        (take 200 (filter (isDue now cs) (ro_policies st)))"
    for now and cs :: "vault_checkout list" and u
    by (rule due_updateWhere) (use assms zero same in \<open>auto simp: list_all_iff isDue_def\<close>)
  then show ?thesis by (simp add: dueUnsafe_def bumpRotationOnReturn_def split: option.split)
qed

lemma handleReturn_cases:
  assumes "handleReturnCredential env ring cx reqID st = (JReturned, st')"
  obtains q vst where "js_rotation st' = bumpRotationOnReturn env cx (jr_ResourceID q) ((js_rotation st)\<lparr>ro_vault := vst\<rparr>)"
    and "RevokeGrantForPrincipal env cx (jr_ResourceID q) ''user'' (currentUserID cx) (ro_vault (js_rotation st)) = (None, vst)"
    and "jr_RequesterID q = currentUserID cx" and "q \<in> set (js_requests st)"
proof -
  obtain o' u where ctx: "cx_org cx = Some o'" "ve_uuid env reqID = Some u"
    using assms by (auto simp: handleReturnCredential_def split: option.splits)
  obtain q where q: "find (jitRow cx (org_ID o') u) (js_requests st) = Some q"
    using assms ctx by (auto simp: handleReturnCredential_def split: option.splits if_splits)
  obtain e vst where r: "RevokeGrantForPrincipal env cx (jr_ResourceID q) ''user'' (currentUserID cx) (ro_vault (js_rotation st)) = (e, vst)"
    by fastforce
  have "js_rotation st' = bumpRotationOnReturn env cx (jr_ResourceID q) ((js_rotation st)\<lparr>ro_vault := vst\<rparr>)"
    "e = None" "jr_RequesterID q = currentUserID cx"
    using assms ctx q r by (auto simp: handleReturnCredential_def Let_def split: option.splits if_splits)
  then show ?thesis using that r find_Some_mem [OF q] by blast
qed


text \<open>A checkout that was revoked (the account was disabled, the kill switch pulled) does not make its policy due.\<close>

theorem revoked_checkout_not_rotated:
  assumes "cr_Interval p = 0" and "list_all (\<lambda>c. vc_SecretID c = cr_SecretID p \<longrightarrow> vc_Status c \<in> {''active'', ''revoked''}) cs"
  shows "\<not> isDue now cs p"
proof -
  have "\<not> checkoutConcluded p c" if "c \<in> set cs" for c
    using assms(2) that by (auto simp: list_all_iff checkoutConcluded_def)
  with assms(1) show ?thesis by (auto simp: isDue_def scheduledDue_def list_ex_iff)
qed

subsection \<open>Tenants\<close>

text \<open>A policy belongs to the organisation of its secret: it cannot be made for the secret of another tenant.\<close>

theorem policy_of_own_secret:
  assumes "CreatePolicy env svc cx inp st = (Inr p, st')" and "\<not> cx_bypassRLS cx"
  shows "\<exists>s \<in> set (vt_secrets (ro_vault st)). vs_ID s = cr_SecretID p \<and> vs_OrgID s = cr_OrgID p"
proof -
  obtain o' u where o': "cx_org cx = Some o'" and "list_ex (secretRow cx u) (vt_secrets (ro_vault st))"
    and p: "cr_SecretID p = u" "cr_OrgID p = org_ID o'"
    using assms(1) by (auto simp: CreatePolicy_def Let_def split: option.splits if_splits)
  then obtain s where s: "s \<in> set (vt_secrets (ro_vault st))" "vs_ID s = u" "inScope cx (vs_OrgID s)"
    by (auto simp: list_ex_iff secretRow_def)
  with request_scope [OF assms(2) s(3)] o' p show ?thesis by auto
qed

subsection \<open>Checkouts\<close>

lemma retrieve_cases:
  assumes "handleRetrieveCredential env ring ttl cx reqID st = (JValue pt, st')"
  obtains r q t vst where "ring = Some r" and "q \<in> set (js_requests st)" and "jr_ResourceType q = ''vault_credential''"
    and "jr_RequesterID q = currentUserID cx" and "jr_Status q = ''fulfilled''" and "jr_ExpiresAt q = Some t" and "ve_now env \<le> t"
    and "inScope cx (jr_OrgID q)"
    and "Reveal env r ttl cx (jr_ResourceID q) (currentUserID cx) [] (''JIT checkout '' @ reqID) False (ro_vault (js_rotation st)) = (Inr pt, vst)"
proof -
  obtain r o' u where ctx: "ring = Some r" "cx_org cx = Some o'" "ve_uuid env reqID = Some u"
    using assms by (auto simp: handleRetrieveCredential_def split: option.splits)
  obtain q where q: "find (jitRow cx (org_ID o') u) (js_requests st) = Some q"
    using assms ctx by (auto simp: handleRetrieveCredential_def split: option.splits if_splits)
  have mem: "q \<in> set (js_requests st)" "inScope cx (jr_OrgID q)" using find_Some_mem [OF q] by (auto simp: jitRow_def)
  obtain e vst where rev: "Reveal env r ttl cx (jr_ResourceID q) (currentUserID cx) [] (''JIT checkout '' @ reqID) False
      (ro_vault (js_rotation st)) = (e, vst)" by fastforce
  have facts: "jr_ResourceType q = ''vault_credential''" "jr_RequesterID q = currentUserID cx" "jr_Status q = ''fulfilled''"
    "e = Inr pt" "\<not> (case jr_ExpiresAt q of None \<Rightarrow> True | Some t \<Rightarrow> t < ve_now env)"
    using assms ctx q rev by (auto simp: handleRetrieveCredential_def split: option.splits if_splits sum.splits)
  then obtain t where "jr_ExpiresAt q = Some t" "ve_now env \<le> t" by (auto split: option.splits)
  with facts rev mem ctx(1) show ?thesis using that by blast
qed

text \<open>
  A credential is retrieved only by the requester of a fulfilled request whose window is open, while a grant to the
  requester lives, which returning the credential takes away.
\<close>

theorem retrieve_sound:
  assumes "handleRetrieveCredential env ring ttl cx reqID st = (JValue pt, st')"
    and "\<And>q. q \<in> set (js_requests st) \<Longrightarrow> ve_uuid env (jr_ResourceID q) = Some (jr_ResourceID q)"
  shows "\<exists>q \<in> set (js_requests st). jr_RequesterID q = currentUserID cx \<and> jr_Status q = ''fulfilled''
    \<and> (\<exists>t. jr_ExpiresAt q = Some t \<and> ve_now env \<le> t) \<and> inScope cx (jr_OrgID q)
    \<and> (\<exists>g \<in> set (vt_grants (ro_vault (js_rotation st))).
         grantAllows env cx (jr_ResourceID q) (currentUserID cx) [] ''reveal'' g)"
  using assms(1)
proof (cases rule: retrieve_cases)
  case (1 r q t vst)
  obtain v where "revealGate env cx (jr_ResourceID q) (currentUserID cx) [] (''JIT checkout '' @ reqID) False
      (ro_vault (js_rotation st)) = None"
    using 1(9) by (rule Reveal_cases)
  from revealGate_passes [OF this assms(2) [OF 1(2)]] 1 show ?thesis by blast
qed

subsection \<open>Examples\<close>

text \<open>A target that keeps one password and a connector that sets it and cannot verify.\<close>

definition toyRotator :: "string rotator" where
  "toyRotator = \<lparr>rt_Type = ''toy'', rt_Apply = (\<lambda>_ v _. (True, v)), rt_Verify = (\<lambda>_ _ _. VerifyUnsupported),
     rt_Generate = None, rt_ValidateConfig = None, rt_Mint = None, rt_Cleanup = None\<rparr>"

definition toyService :: "nat \<Rightarrow> string rotation_service" where
  "toyService k = \<lparr>rs_rotators = [toyRotator], rs_defaultLen = 0, rs_ring = toyRing, rs_rand = (\<lambda>_ n. if k < n then Some k else None)\<rparr>"

definition toyGeneration :: GenerationPolicy where
  "toyGeneration = \<lparr>gp_Length = 8, gp_Upper = True, gp_Lower = False, gp_Digits = False, gp_Symbols = False\<rparr>"

definition noConfig :: connector_config where
  "noConfig = (\<lambda>_. None)"

lemma toyRotation: "fst (runRotation toyVault (toyService 0) toyRotator toyContext ''a'' toyGeneration noConfig (toyStored, [])) = (True, 2)"
  by code_simp

lemma toyStored_table: "vaultTable toyVault toyRing toyStored = [''a'' \<mapsto> (1, [1 \<mapsto> ''pw''])]"
proof -
  have "fst (vaultRun toyVault toyRing 0 toyContext (OpStore toySecret) emptyVault) = AStored ''a''"
    "snd (vaultRun toyVault toyRing 0 toyContext (OpStore toySecret) emptyVault) = toyStored" by code_simp+
  then have run: "vaultRun toyVault toyRing 0 toyContext (OpStore toySecret) emptyVault = (AStored ''a'', toyStored)"
    by (metis prod.collapse)
  have "vault_wf emptyVault" by code_simp
  from vaultRun_refines [OF this toy_ctx _ run]
  show ?thesis by (simp add: vaultTable_def emptyVault_def toySecret_def fun_eq_iff)
qed

lemma toyStored_readable: "allReadable toyVault toyRing toyStored"
  by (auto simp: allReadable_def toyStored_table split: if_splits)

theorem rotation_sound_witness:
  "\<exists>n vst t. runRotation toyVault (toyService 0) toyRotator toyContext ''a'' toyGeneration noConfig (toyStored, []) = ((True, n), vst, t)
     \<and> allReadable toyVault toyRing vst \<and> currentText (vaultTable toyVault toyRing vst) ''a'' t"
proof -
  obtain vst t where run: "runRotation toyVault (toyService 0) toyRotator toyContext ''a'' toyGeneration noConfig (toyStored, [])
      = ((True, 2), vst, t)"
    using toyRotation by (cases "runRotation toyVault (toyService 0) toyRotator toyContext ''a'' toyGeneration noConfig (toyStored, [])") auto
  have uuid: "ve_uuid toyVault ''a'' = Some ''a''" by code_simp
  have ctx: "vaultCtx toyVault toyRing toyVault (rs_ring (toyService 0))" using toy_ctx by (simp add: toyService_def)
  have "allReadable toyVault toyRing vst \<and> currentText (vaultTable toyVault toyRing vst) ''a'' t"
    using rotation_sound [OF toyStored_wf ctx uuid toyStored_readable run] by (auto simp: toyRotator_def)
  with run show ?thesis by blast
qed

text \<open>
  Two rotations at the same time, as the check for a run in flight and the insert of the ledger row are separate
  statements: each adds a candidate and sets the password of the target; the one that set it first promotes last. The vault then hands out a password the
  target no longer has.
\<close>

theorem concurrent_rotations_diverge:
  "let (a, v1, t1) = rotateCandidate toyVault (toyService 0) toyRotator toyContext ''a'' toyGeneration noConfig (toyStored, []);
       (b, v2, t2) = rotateCandidate toyVault (toyService 1) toyRotator toyContext ''a'' toyGeneration noConfig (v1, t1);
       t3 = snd (rotateApply toyRotator noConfig (fst (the a)) t2);
       t4 = snd (rotateApply toyRotator noConfig (fst (the b)) t3);
       (ok2, v3) = rotateFinish toyVault toyRotator toyContext ''a'' noConfig (fst (the b)) (snd (the b)) (v2, t4);
       (ok1, v4) = rotateFinish toyVault toyRotator toyContext ''a'' noConfig (fst (the a)) (snd (the a)) (v3, t4) in
   ok1 \<and> ok2 \<and> t4 = ''BBBBBBBB'' \<and> decryptCurrent toyVault toyRing toyContext ''a'' v4 = Inr (2, ''AAAAAAAA'')"
  by code_simp

definition toyJitRequest :: jit_request where
  "toyJitRequest = \<lparr>jr_ID = ''r'', jr_OrgID = ''o'', jr_ResourceType = ''vault_credential'', jr_ResourceID = ''a'',
     jr_Status = ''fulfilled'', jr_RequesterID = ''u'', jr_ExpiresAt = Some 10\<rparr>"

definition toyPolicy :: rotation_policy where
  "toyPolicy = \<lparr>cr_ID = ''p'', cr_OrgID = ''o'', cr_SecretID = ''a'', cr_ConnectorType = ''toy'', cr_Config = noConfig,
     cr_Generation = toyGeneration, cr_Interval = 0, cr_OnCheckout = True, cr_Enabled = True, cr_NextRunAt = None,
     cr_LastRunAt = None, cr_LastStatus = None, cr_CreatedAt = 0\<rparr>"

definition toyJit :: "string jit_state" where
  "toyJit = \<lparr>js_requests = [toyJitRequest],
     js_rotation = \<lparr>ro_vault = toyStored, ro_policies = [toyPolicy], ro_runs = [], ro_audits = [], ro_target = ''pw''\<rparr>,
     js_audits = []\<rparr>"

lemma toyReturn: "fst (handleReturnCredential toyVault (Some toyRing) toyContext ''r'' toyJit) = JReturned"
  by code_simp

lemma toyNothingDue: "dueUnsafe toyVault (js_rotation toyJit) = Inr []"
  by code_simp


end
