(* ===== verification/Spec2Isabelle.thy ===== *)
theory Spec2Isabelle
  imports Rbac OAuth_Endpoint Scim_Filter Policy_Dsl Pam_Checkout Access_Request Sql_Guard Audit_Chain
    Append_Store Guac_Session Identity_Mfa Identity_Password Access_Proxy Request_Auth Access_Review Governance_Policy Vault Credential_Rotation
begin

text \<open>
  \<^bold>\<open>OpenIDX\<close> is an identity and access platform in Go: services for identity, OAuth, governance,
  access (proxy, privileged access, remote sessions), provisioning and audit share one PostgreSQL
  database and one Redis. Every table carries the organisation of its rows; a request carries an
  organisation in its context. This development models the decision logic of those services and
  proves what makes it correct, or exhibits where it is not.

  \<^bold>\<open>How the code is modelled.\<close> A table is a list of records, a statement an operation on it
  (\<open>find\<close>, \<open>updateWhere\<close>, \<open>deleteWhere\<close>); Redis is a map of keys to values with an expiry; the
  errors and early returns of a handler are values. A handler is one function from its request and
  the state to its response and the new state. What a call obtains from outside is in a record
  \<open>env\<close> of its component: the clock, random draws, which statements fail (a predicate on the name of
  the statement), hash functions and signatures, answers of other services. Strings are byte lists,
  times are integers in nanoseconds unless a text says otherwise, and machine integers are words
  where their width matters. Definitions compute. Concurrency is a sequence of steps, where a step is
  what the database or Redis does atomically.

  \<^bold>\<open>The theories\<close>, in the order of their imports.

  \<^item> \<open>Go_Prelude\<close>: what the sources use of Go's \<^verbatim>\<open>strings\<close>, \<^verbatim>\<open>unicode\<close>, \<^verbatim>\<open>strconv\<close>, \<^verbatim>\<open>time\<close> and base64, the
    table and Redis operations, and the interfaces the components share as locales:
    \<open>invariant_system\<close> (reachability and invariants of a step relation), \<open>functional_refinement\<close>
    (a specification step by step), \<open>single_use\<close> (a credential is honoured once, whatever requests come
    in which order), \<open>keyed_store\<close> (read over write).
  \<^item> \<open>Descent\<close>: recursive descent with fuel; the locales \<open>keyword_chain\<close> and \<open>fuel_parser\<close>, interpreted by
    both parsers below. The fuel is one more than the length of the input (of the token list), and
    each parser is proved never to run out of it.
  \<^item> \<open>Rbac\<close>: \<^verbatim>\<open>internal/auth/roles.go\<close>. The recursive permission check agrees with the flattened set.
  \<^item> \<open>Circuit_Breaker\<close>: \<^verbatim>\<open>internal/common/resilience/circuitbreaker.go\<close>, with calls in flight as a step
    relation. A failed probe leaves the breaker rejecting for good.
  \<^item> \<open>OAuth_Types\<close>, \<open>OAuth_Authorize\<close>, \<open>OAuth_Consent\<close>, \<open>OAuth_Jwt\<close>, \<open>OAuth_Token\<close>, \<open>OAuth_Exchange\<close>,
    \<open>OAuth_Device\<close>, \<open>OAuth_Endpoint\<close>: \<^verbatim>\<open>internal/oauth\<close>. The authorization endpoint with PKCE, consent,
    the claims of tokens and their revocation, the grants of the token endpoint (authorization code,
    refresh token, client credentials, token exchange, device code), introspection and revocation.
    Each grant issues tokens only when its conditions hold; codes and tokens are single use over any
    sequence of requests (interpretations of \<open>single_use\<close>); a replayed refresh token revokes its family.
  \<^item> \<open>Scim_Filter\<close>: \<^verbatim>\<open>internal/provisioning/scim_filter.go\<close>. The parser returns on every input, parsing
    undoes printing, and values never reach the SQL text.
  \<^item> \<open>Policy_Dsl\<close>: \<^verbatim>\<open>internal/access/policy_dsl.go\<close>. Tokenizer, parser, evaluator; well-typed policies
    evaluate without error to their logical value.
  \<^item> \<open>Pam_Checkout\<close>: \<^verbatim>\<open>internal/access/pam_checkout_control.go\<close>. Exclusive leases and dual control as a
    step relation with its invariant.
  \<^item> \<open>Access_Request\<close>: \<^verbatim>\<open>internal/governance/request.go\<close>. Approval chains; the handlers refine a small
    specification of the workflow.
  \<^item> \<open>Sql_Guard\<close>: \<^verbatim>\<open>internal/access/dbproxy/policy.go\<close>. The lexical scanner and the statement policy, what
    it refuses and what slips through.
  \<^item> \<open>Audit_Chain\<close>, \<open>Append_Store\<close>: \<^verbatim>\<open>internal/audit/logger.go\<close>, \<^verbatim>\<open>pkg/storage/append_only.go\<close>. A verified
    chain determines its history; what is appended is read back.
  \<^item> \<open>Guac_Session\<close>: \<^verbatim>\<open>internal/access/guacamole.go\<close>, \<^verbatim>\<open>guacamole_sessions.go\<close>, \<^verbatim>\<open>moderated_sessions.go\<close>.
    Approval, moderation and start of remote sessions.
  \<^item> \<open>Pwhash\<close>: \<^verbatim>\<open>internal/common/pwhash/pwhash.go\<close>. Encoding and verification of password hashes.
  \<^item> \<open>Identity_Types\<close>, \<open>Identity_Login\<close>, \<open>Identity_Mfa\<close>, \<open>Identity_Password\<close>: \<^verbatim>\<open>internal/identity\<close>. Login with
    lockout, one-time passwords, backup codes, password policy, change and reset. The locale
    \<open>throttle\<close> bounds the guesses any check that counts failures and locks will examine; the password
    and the one-time-password checks interpret it.
  \<^item> \<open>Access_Proxy\<close>: \<^verbatim>\<open>internal/access/service.go\<close>, \<^verbatim>\<open>context_evaluator.go\<close>, \<^verbatim>\<open>route_group_authz.go\<close>,
    \<^verbatim>\<open>device_trust.go\<close>. Routes, sessions, the context of a request and the decision on it.
  \<^item> \<open>Tenancy\<close>: which organisation a request belongs to, and what the database shows it:
    \<^verbatim>\<open>internal/gateway/middleware/tenant.go\<close>, \<^verbatim>\<open>internal/common/middleware/tenant_resolver.go\<close>,
    \<^verbatim>\<open>internal/organization/orglookup.go\<close>, \<^verbatim>\<open>internal/common/database/rls.go\<close>. The pool of connections with the
    scope each carries is a step relation; a request sees exactly the rows of its organisation.
  \<^item> \<open>Api_Keys\<close>: \<^verbatim>\<open>internal/apikeys/service.go\<close>. A key that validates was active and unexpired at most
    an hour ago, over any sequence of operations; the keys of a deleted account stay valid.
  \<^item> \<open>Request_Auth\<close>: \<^verbatim>\<open>internal/common/middleware/middleware.go\<close>, the middlewares of
    \<^verbatim>\<open>internal/identity/service.go\<close> and the chains that compose them with \<open>Tenancy\<close> and \<open>Api_Keys\<close>. Only
    published keys verify tokens, through an outage of the issuer for a bounded time; what permissions are granted, and
    in which organisation.
  \<^item> \<open>Access_Review\<close>: \<^verbatim>\<open>internal/governance/service.go\<close>, \<^verbatim>\<open>revocation.go\<close>. Access reviews, decisions, campaigns and
    their sweeps as steps over the tables. Only authorised decisions change items and assignments, a revocation is
    enforced or rolled back; the deadline sweep enforces nothing, and anybody can set up a review.
  \<^item> \<open>Governance_Policy\<close>: the policies of \<^verbatim>\<open>internal/governance/service.go\<close>, the authentication of that service, and
    \<^verbatim>\<open>evaluatePolicies\<close> of the proxy seen from it. Each kind of policy is characterised by its rules; stored rules are
    read back; the theorems that compose it with \<open>Tenancy\<close>, \<open>Access_Proxy\<close> and \<open>Access_Review\<close> show what
    tenants and the proxy really get.
  \<^item> \<^verbatim>\<open>Vault\<close>: the credential vault (\<^verbatim>\<open>internal/vault\<close>, with the leader guard of \<^verbatim>\<open>internal/common/leader\<close>):
    the ring of key-encryption keys, secrets with encrypted versions, grants, reveal and use, the ledger.
    The encrypted store refines a table of plain versions through every rotation of keys; a reveal is authorized and
    recorded; a configured ring can seal; grants to roles and unpromoted candidates misbehave.
  \<^item> \<^verbatim>\<open>Credential_Rotation\<close>: the rotation of vaulted credentials (\<^verbatim>\<open>internal/credentials\<close>) and the just-in-time
    checkout of \<^verbatim>\<open>internal/governance/workflows.go\<close>, over \<^verbatim>\<open>Vault\<close>. A rotation promotes only what the target accepted,
    a failed one changes no current text, and no tick of the scheduler makes a secret unreadable; returned and revoked
    checkouts are not rotated, and concurrent rotations can leave vault and target apart.

  \<^bold>\<open>How they interact.\<close> The token endpoint redeems what the authorization endpoint and the device pages
  store; the proxy evaluates the inline policies of \<open>Policy_Dsl\<close>; login rehashes with \<open>Pwhash\<close>; every
  grant writes through the tables of \<open>OAuth_Types\<close>; the request middlewares verify the tokens with the
  claims \<open>OAuth_Jwt\<close> puts into them, and choose the organisation under which every handler runs.

  \<^bold>\<open>Not modelled.\<close>
  The administration handlers (\<^verbatim>\<open>internal/admin\<close>, most of \<^verbatim>\<open>internal/identity/service.go\<close> and of
  \<^verbatim>\<open>internal/provisioning/service.go\<close>) are reads and writes of one row whose content is the request
  body; SAML, social login, WebAuthn, push and the Ziti overlay consist mostly of calls of libraries and
  services that are not in the repository; directory connectors, mail, SMS, webhooks, metrics and
  tracing are input and output; migrations are SQL text; configuration, containers and shutdown are
  wiring. Row-level security is part of the database: each statement is modelled with the predicate
  its text has.
\<close>

end
